(* ===== verification/Frontend_Prelude.thy ===== *)
theory Frontend_Prelude
  imports Complex_Main "HOL-Library.Multiset"
begin

text \<open>
  Shared vocabulary of the development: the JavaScript values the frontend code is written
  with (optional values, strings, arrays, numerals in a radix) and the generic lemmas on them
  that the component theories use.

  \<^item> A field that the TypeScript code leaves \<open>undefined\<close> is an \<open>option\<close>; a field for which the
    code tells \<open>undefined\<close> from \<open>null\<close> is a \<open>js\<close> value.
  \<^item> Strings are \<open>string\<close> (lists of characters); the identifiers, hashes, keys and messages of the
    program are ASCII, and case conversion is that of ASCII.
  \<^item> \<open>find_index\<close> is \<open>Array.prototype.findIndex\<close> with \<open>None\<close> for \<open>-1\<close>, \<open>List.find\<close> is
    \<open>Array.prototype.find\<close>, \<open>js_includes\<close> is \<open>String.prototype.includes\<close>.
\<close>

named_theorems fe_simps \<open>rewrite rules of the frontend model\<close>

section \<open>Optional values\<close>

datatype 'a js = Undefined | Null | Val 'a

fun js_of_option :: "'a option \<Rightarrow> 'a js" where
  "js_of_option None = Undefined"
| "js_of_option (Some x) = Val x"

fun js_option :: "'a js \<Rightarrow> 'a option" where
  "js_option (Val x) = Some x"
| "js_option _ = None"

lemma js_option_of_option [simp]: "js_option (js_of_option x) = x"
  by (cases x) simp_all

text \<open>The operator \<open>??\<close> on an optional value, with a fallback that may itself be absent.\<close>

definition coalesce :: "'a option \<Rightarrow> 'a option \<Rightarrow> 'a option" where
  "coalesce x y = (case x of Some v \<Rightarrow> Some v | None \<Rightarrow> y)"

lemma coalesce_simps [simp]: "coalesce (Some v) y = Some v" "coalesce None y = y"
  by (simp_all add: coalesce_def)

section \<open>Arrays\<close>

fun find_index :: "('a \<Rightarrow> bool) \<Rightarrow> 'a list \<Rightarrow> nat option" where
  "find_index P [] = None"
| "find_index P (x # xs) = (if P x then Some 0 else map_option Suc (find_index P xs))"

lemma find_index_None [simp]: "find_index P xs = None \<longleftrightarrow> (\<forall>x \<in> set xs. \<not> P x)"
  by (induction xs) auto

lemma find_index_SomeD:
  assumes "find_index P xs = Some i"
  shows "i < length xs" "P (xs ! i)" "\<forall>j < i. \<not> P (xs ! j)"
proof -
  have "i < length xs \<and> P (xs ! i) \<and> (\<forall>j < i. \<not> P (xs ! j))"
    using assms
  proof (induction xs arbitrary: i)
    case Nil
    then show ?case by simp
  next
    case (Cons x xs)
    show ?case
    proof (cases "P x")
      case True
      with Cons.prems show ?thesis by simp
    next
      case False
      with Cons.prems obtain k where "find_index P xs = Some k" and "i = Suc k" by auto
      with Cons.IH False show ?thesis by (auto simp: less_Suc_eq_0_disj)
    qed
  qed
  then show "i < length xs" "P (xs ! i)" "\<forall>j < i. \<not> P (xs ! j)" by auto
qed

lemma find_index_SomeI:
  "i < length xs \<Longrightarrow> P (xs ! i) \<Longrightarrow> (\<And>j. j < i \<Longrightarrow> \<not> P (xs ! j)) \<Longrightarrow> find_index P xs = Some i"
proof (induction xs arbitrary: i)
  case Nil
  then show ?case by simp
next
  case (Cons x xs)
  show ?case
  proof (cases i)
    case 0
    with Cons.prems show ?thesis by simp
  next
    case (Suc k)
    with Cons.prems(3) [of 0] have "\<not> P x" by simp
    moreover have "find_index P xs = Some k"
    proof (rule Cons.IH)
      show "k < length xs" and "P (xs ! k)" using Cons.prems(1,2) Suc by auto
      show "\<not> P (xs ! j)" if "j < k" for j
        using Cons.prems(3) [of "Suc j"] that Suc by simp
    qed
    ultimately show ?thesis using Suc by simp
  qed
qed

lemma find_Some_in: "List.find P xs = Some x \<Longrightarrow> x \<in> set xs \<and> P x"
  by (auto simp: find_Some_iff)

lemma length_filter_mono:
  "(\<And>x. x \<in> set xs \<Longrightarrow> P x \<Longrightarrow> Q x) \<Longrightarrow> length (filter P xs) \<le> length (filter Q xs)"
proof (induction xs)
  case (Cons x xs)
  then have "length (filter P xs) \<le> length (filter Q xs)" by simp
  with Cons.prems show ?case by auto
qed simp

lemma distinct_count_list_one: "distinct xs \<Longrightarrow> x \<in> set xs \<Longrightarrow> count_list xs x = 1"
  by (induction xs) auto

text \<open>\<open>slice\<close> with indices counted from the end when negative.\<close>

definition js_slice :: "int \<Rightarrow> int \<Rightarrow> 'a list \<Rightarrow> 'a list" where
  "js_slice i j xs =
     (let n = int (length xs);
          norm = (\<lambda>k. nat (if k < 0 then max 0 (n + k) else min k n))
      in drop (norm i) (take (norm j) xs))"

section \<open>Strings\<close>

fun js_startsWith :: "string \<Rightarrow> string \<Rightarrow> bool" where
  "js_startsWith s [] = True"
| "js_startsWith [] (c # cs) = False"
| "js_startsWith (d # ds) (c # cs) = (d = c \<and> js_startsWith ds cs)"

fun js_includes :: "string \<Rightarrow> string \<Rightarrow> bool" where
  "js_includes [] t = (t = [])"
| "js_includes (c # cs) t = (js_startsWith (c # cs) t \<or> js_includes cs t)"

lemma js_startsWith_iff: "js_startsWith s t \<longleftrightarrow> (\<exists>r. s = t @ r)"
  by (induction s t rule: js_startsWith.induct) auto

lemma js_includes_iff: "js_includes s t \<longleftrightarrow> (\<exists>l r. s = l @ t @ r)"
proof (induction s)
  case Nil
  then show ?case by auto
next
  case (Cons c cs)
  have "(\<exists>l r. c # cs = l @ t @ r) \<longleftrightarrow>
      (\<exists>r. c # cs = t @ r) \<or> (\<exists>l r. cs = l @ t @ r)"
    by (auto simp: Cons_eq_append_conv)
  then show ?case by (simp add: Cons.IH js_startsWith_iff)
qed

section \<open>Numerals in a radix\<close>

text \<open>\<open>Number.prototype.toString(radix)\<close> and \<open>BigInt.prototype.toString(radix)\<close> on a natural number,
  most significant digit first, with lower-case letters above nine.\<close>

definition radix_digit :: "nat \<Rightarrow> char" where
  "radix_digit d = (if d < 10 then char_of (48 + d) else char_of (87 + d))"

definition digit_value :: "char \<Rightarrow> nat" where
  "digit_value c =
     (let n = of_char c :: nat
      in if 48 \<le> n \<and> n \<le> 57 then n - 48
         else if 97 \<le> n \<and> n \<le> 122 then n - 87
         else if 65 \<le> n \<and> n \<le> 90 then n - 55 else 0)"

function to_radix :: "nat \<Rightarrow> nat \<Rightarrow> string" where
  "to_radix b n =
     (if b < 2 \<or> n < b then [radix_digit n] else to_radix b (n div b) @ [radix_digit (n mod b)])"
  by pat_completeness auto
termination
  by (relation "measure snd") auto

declare to_radix.simps [simp del]

definition of_radix :: "nat \<Rightarrow> string \<Rightarrow> nat" where
  "of_radix b s = foldl (\<lambda>acc c. acc * b + digit_value c) 0 s"

abbreviation dec :: "nat \<Rightarrow> string" where
  "dec n \<equiv> to_radix 10 n"

lemma digit_value_radix_digit [simp]: "d < 36 \<Longrightarrow> digit_value (radix_digit d) = d"
  by (auto simp: digit_value_def radix_digit_def Let_def of_char_of)

lemma of_radix_Nil [simp]: "of_radix b [] = 0"
  by (simp add: of_radix_def)

lemma of_radix_snoc [simp]: "of_radix b (s @ [c]) = of_radix b s * b + digit_value c"
  by (simp add: of_radix_def)

lemma of_radix_append: "of_radix b (s @ t) = of_radix b s * b ^ length t + of_radix b t"
proof (induction t rule: rev_induct)
  case (snoc c t)
  have "of_radix b (s @ t @ [c]) = of_radix b ((s @ t) @ [c])" by simp
  also have "\<dots> = of_radix b s * b ^ length (t @ [c]) + of_radix b (t @ [c])"
    unfolding of_radix_snoc snoc.IH by (simp add: algebra_simps)
  finally show ?case .
qed simp

lemma of_to_radix:
  assumes "2 \<le> b" "b \<le> 36"
  shows "of_radix b (to_radix b n) = n"
proof (induction n rule: less_induct)
  case (less n)
  show ?case
  proof (cases "n < b")
    case True
    with assms show ?thesis by (simp add: to_radix.simps [of b n] of_radix_def)
  next
    case False
    with assms have "n div b < n" by (intro div_less_dividend) auto
    moreover have "n mod b < 36"
    proof -
      have "n mod b < b" using assms by (intro mod_less_divisor) auto
      with assms show ?thesis by linarith
    qed
    ultimately show ?thesis
      using False assms less.IH by (simp add: to_radix.simps [of b n])
  qed
qed

lemma to_radix_not_Nil [simp]: "to_radix b n \<noteq> []"
  by (subst to_radix.simps) simp

lemma to_radix_inject:
  assumes "2 \<le> b" "b \<le> 36"
  shows "to_radix b m = to_radix b n \<longleftrightarrow> m = n"
  by (metis assms of_to_radix)

lemma length_to_radix_le:
  assumes "2 \<le> b" "n < b ^ Suc k"
  shows "length (to_radix b n) \<le> Suc k"
  using assms(2)
proof (induction k arbitrary: n)
  case 0
  then show ?case by (simp add: to_radix.simps [of b n])
next
  case (Suc k)
  show ?case
  proof (cases "n < b")
    case True
    then show ?thesis by (simp add: to_radix.simps [of b n])
  next
    case False
    have "n div b < b ^ Suc k"
      using Suc.prems assms(1) by (simp add: less_mult_imp_div_less mult.commute)
    from Suc.IH [OF this] False assms(1) show ?thesis
      by (simp add: to_radix.simps [of b n])
  qed
qed

lemma length_to_radix_ge:
  assumes "2 \<le> b" "b ^ k \<le> n"
  shows "k < length (to_radix b n)"
  using assms(2)
proof (induction k arbitrary: n)
  case 0
  then show ?case by simp
next
  case (Suc k)
  have b1: "b * b ^ k \<le> n" using Suc.prems by simp
  have "b * 1 \<le> b * b ^ k" using assms(1) by (intro mult_le_mono) auto
  with b1 have "\<not> n < b" by linarith
  moreover have "b ^ k \<le> n div b"
    using b1 assms(1) by (simp add: less_eq_div_iff_mult_less_eq mult.commute)
  ultimately show ?case
    using Suc.IH [of "n div b"] assms(1) by (simp add: to_radix.simps [of b n])
qed

section \<open>Numbers and JSON\<close>

definition show_int :: "int \<Rightarrow> string" where
  "show_int i = (if i < 0 then CHR 0x2D # dec (nat (- i)) else dec (nat i))"

text \<open>A number computed by a division or by \<open>Number(...)\<close>. Finite numbers are exact rationals: the
  rounding of 64-bit floating point is not modelled.\<close>

datatype js_number = Finite rat | NaN

text \<open>\<open>Array.prototype.join\<close>.\<close>

fun join_with :: "string \<Rightarrow> string list \<Rightarrow> string" where
  "join_with sep [] = []"
| "join_with sep [x] = x"
| "join_with sep (x # y # ys) = x @ sep @ join_with sep (y # ys)"

text \<open>A value of type \<open>any\<close> that came out of a JSON response, read the way a JavaScript condition
  reads it.\<close>

datatype json =
    JNull
  | JBool bool
  | JNum int
  | JStr string
  | JArr "json list"
  | JObj "(string \<times> json) list"

fun truthy :: "json \<Rightarrow> bool" where
  "truthy JNull = False"
| "truthy (JBool b) = b"
| "truthy (JNum i) = (i \<noteq> 0)"
| "truthy (JStr s) = (s \<noteq> [])"
| "truthy (JArr _) = True"
| "truthy (JObj _) = True"

text \<open>The truth of a number that may be absent.\<close>

fun truthy_num :: "int option \<Rightarrow> bool" where
  "truthy_num None = False"
| "truthy_num (Some i) = (i \<noteq> 0)"

text \<open>Exceptions of the language.\<close>

datatype js_error = TypeError | Error string

section \<open>Case and digits\<close>

definition lower_char :: "char \<Rightarrow> char" where
  "lower_char c = (let n = of_char c :: nat in if 65 \<le> n \<and> n \<le> 90 then char_of (n + 32) else c)"

definition upper_char :: "char \<Rightarrow> char" where
  "upper_char c = (let n = of_char c :: nat in if 97 \<le> n \<and> n \<le> 122 then char_of (n - 32) else c)"

definition js_toLowerCase :: "string \<Rightarrow> string" where
  "js_toLowerCase = map lower_char"

definition js_isDigit :: "char \<Rightarrow> bool" where
  "js_isDigit c = (let n = of_char c :: nat in 48 \<le> n \<and> n \<le> 57)"

lemma radix_digit_10: "d < 10 \<Longrightarrow> js_isDigit (radix_digit d)"
  by (simp add: radix_digit_def js_isDigit_def Let_def of_char_of)

lemma dec_digits: "list_all js_isDigit (dec n)"
proof (induction n rule: less_induct)
  case (less n)
  show ?case
  proof (cases "n < 10")
    case True
    then show ?thesis by (simp add: to_radix.simps [of 10 n] radix_digit_10)
  next
    case False
    with less.IH [of "n div 10"] show ?thesis by (simp add: to_radix.simps [of 10 n] radix_digit_10)
  qed
qed

definition is_hex :: "char \<Rightarrow> bool" where
  "is_hex c = (let n = of_char c :: nat
     in 48 \<le> n \<and> n \<le> 57 \<or> 97 \<le> n \<and> n \<le> 102 \<or> 65 \<le> n \<and> n \<le> 70)"

text \<open>\<open>s.replace(x, '')\<close> with a one-character string: the first occurrence is removed.\<close>

definition js_remove_first :: "char \<Rightarrow> string \<Rightarrow> string" where
  "js_remove_first c s = takeWhile (\<lambda>x. x \<noteq> c) s @ drop 1 (dropWhile (\<lambda>x. x \<noteq> c) s)"

text \<open>\<open>String.prototype.trim\<close> on ASCII white space, and \<open>split('\n')\<close>.\<close>

definition js_space :: "char \<Rightarrow> bool" where
  "js_space c \<longleftrightarrow> of_char c \<in> ({9, 10, 11, 12, 13, 32} :: nat set)"

definition js_trim :: "string \<Rightarrow> string" where
  "js_trim s = rev (dropWhile js_space (rev (dropWhile js_space s)))"

fun js_split :: "char \<Rightarrow> string \<Rightarrow> string list" where
  "js_split d [] = [[]]"
| "js_split d (c # cs) =
     (if c = d then [] # js_split d cs
      else case js_split d cs of [] \<Rightarrow> [[c]] | w # ws \<Rightarrow> (c # w) # ws)"

lemma js_split_append:
  "d \<notin> set s \<Longrightarrow> js_split d (s @ d # r) = s # js_split d r"
  by (induction s) auto

lemma js_split_plain: "d \<notin> set s \<Longrightarrow> js_split d s = [s]"
  by (induction s) auto

lemma js_split_not_Nil [simp]: "js_split d s \<noteq> []"
  by (cases s) (auto split: list.splits)

lemma join_with_Cons: "ws \<noteq> [] \<Longrightarrow> join_with sep (w # ws) = w @ sep @ join_with sep ws"
  by (cases ws) auto

lemma join_js_split: "join_with [d] (js_split d s) = s"
proof (induction s)
  case (Cons c s)
  obtain w ws where "js_split d s = w # ws" by (cases "js_split d s") auto
  with Cons show ?case by (cases ws) auto
qed simp

lemma length_js_split: "length (js_split d s) = Suc (count_list s d)"
proof (induction s)
  case (Cons c s)
  then show ?case by (cases "js_split d s") auto
qed simp

lemma js_includes_char: "js_includes s [d] \<longleftrightarrow> d \<in> set s"
  by (auto simp: js_includes_iff dest: split_list)

lemma js_split_join:
  "ws \<noteq> [] \<Longrightarrow> (\<And>w. w \<in> set ws \<Longrightarrow> d \<notin> set w) \<Longrightarrow> js_split d (join_with [d] ws) = ws"
proof (induction ws)
  case (Cons w ws)
  then show ?case by (cases "ws = []") (auto simp: join_with_Cons js_split_append js_split_plain)
qed simp

text \<open>\<open>s.padStart(n, c)\<close> with a one-character string.\<close>

definition padStart :: "nat \<Rightarrow> char \<Rightarrow> string \<Rightarrow> string" where
  "padStart n c s = replicate (n - length s) c @ s"

lemma length_padStart: "length (padStart n c s) = max n (length s)"
  by (auto simp: padStart_def)

text \<open>\<open>s.replace(t, '')\<close>: the first occurrence of \<open>t\<close> is removed.\<close>

fun js_remove_sub :: "string \<Rightarrow> string \<Rightarrow> string" where
  "js_remove_sub t [] = []"
| "js_remove_sub t (c # cs) =
     (if js_startsWith (c # cs) t then drop (length t) (c # cs) else c # js_remove_sub t cs)"

text \<open>\<open>Number(s)\<close> on decimal numerals with an optional sign and fraction, the form of the amounts, fees and
  nonces of the node; the exponent and hexadecimal forms do not occur there.\<close>

definition js_Number :: "string \<Rightarrow> js_number" where
  "js_Number s =
     (let t = js_trim s;
          (neg, u) = (case t of [] \<Rightarrow> (False, []) | c # cs \<Rightarrow>
             if c = CHR 0x2D then (True, cs) else if c = CHR 0x2B then (False, cs) else (False, t));
          ip = takeWhile js_isDigit u;
          sgn = (\<lambda>q :: rat. Finite (if neg then - q else q))
      in if t = [] then Finite 0
         else case drop (length ip) u of
           [] \<Rightarrow> if ip = [] then NaN else sgn (of_nat (of_radix 10 ip))
         | c # fp \<Rightarrow>
             if c = CHR 0x2E \<and> list_all js_isDigit fp \<and> (ip \<noteq> [] \<or> fp \<noteq> [])
             then sgn (of_nat (of_radix 10 (ip @ fp)) / 10 ^ length fp) else NaN)"

text \<open>\<open>parseInt(s, 10)\<close>, with \<open>None\<close> for \<open>NaN\<close>, and \<open>>\<close> on such numbers.\<close>

definition js_parseInt :: "string \<Rightarrow> int option" where
  "js_parseInt s =
     (let t = dropWhile js_space s;
          (neg, u) = (case t of [] \<Rightarrow> (False, []) | c # cs \<Rightarrow>
             if c = CHR 0x2D then (True, cs) else if c = CHR 0x2B then (False, cs) else (False, t));
          ds = takeWhile js_isDigit u
      in if ds = [] then None else Some (if neg then - int (of_radix 10 ds) else int (of_radix 10 ds)))"

definition nan_greater :: "int option \<Rightarrow> int option \<Rightarrow> bool" where
  "nan_greater x y = (case (x, y) of (Some a, Some b) \<Rightarrow> a > b | _ \<Rightarrow> False)"

text \<open>The string that a missing value turns into.\<close>

fun js_string :: "string js \<Rightarrow> string" where
  "js_string Undefined = ''undefined''"
| "js_string Null = ''null''"
| "js_string (Val s) = s"

section \<open>Array methods with callbacks that may throw\<close>

fun sum_map :: "('a \<Rightarrow> 'e + 'b) \<Rightarrow> 'a list \<Rightarrow> 'e + 'b list" where
  "sum_map f [] = Inr []"
| "sum_map f (x # xs) =
     (case f x of Inl e \<Rightarrow> Inl e | Inr y \<Rightarrow>
       (case sum_map f xs of Inl e \<Rightarrow> Inl e | Inr ys \<Rightarrow> Inr (y # ys)))"

fun sum_filter :: "('a \<Rightarrow> 'e + bool) \<Rightarrow> 'a list \<Rightarrow> 'e + 'a list" where
  "sum_filter f [] = Inr []"
| "sum_filter f (x # xs) =
     (case f x of Inl e \<Rightarrow> Inl e | Inr b \<Rightarrow>
       (case sum_filter f xs of Inl e \<Rightarrow> Inl e | Inr ys \<Rightarrow> Inr (if b then x # ys else ys)))"

lemma sum_map_Inr: "(\<And>x. x \<in> set xs \<Longrightarrow> f x = Inr (g x)) \<Longrightarrow> sum_map f xs = Inr (map g xs)"
  by (induction xs) auto

lemma sum_map_length: "sum_map f xs = Inr ys \<Longrightarrow> length ys = length xs"
  by (induction xs arbitrary: ys) (auto split: sum.splits)

lemma sum_map_nth: "sum_map f xs = Inr ys \<Longrightarrow> i < length xs \<Longrightarrow> f (xs ! i) = Inr (ys ! i)"
proof (induction xs arbitrary: ys i)
  case (Cons x xs)
  then obtain y zs where "f x = Inr y" "sum_map f xs = Inr zs" "ys = y # zs"
    by (auto split: sum.splits)
  with Cons show ?case by (cases i) auto
qed simp

lemma sum_filter_Inr: "(\<And>x. x \<in> set xs \<Longrightarrow> f x = Inr (P x)) \<Longrightarrow> sum_filter f xs = Inr (filter P xs)"
  by (induction xs) auto

section \<open>Sorted tables\<close>

text \<open>The sort order of a table (\<open>TableSort\<close>). The sorting routine of the shared package is a
  parameter of the components; what they rely on is that it permutes the rows.\<close>

datatype SortDirection = ASC | DSC

record tableSort =
  sortBy :: string
  sortDirection :: SortDirection

type_synonym 'a sorter = "'a list \<Rightarrow> tableSort \<Rightarrow> 'a list"

definition sorter_permutes :: "'a sorter \<Rightarrow> bool" where
  "sorter_permutes srt \<longleftrightarrow> (\<forall>xs ts. mset (srt xs ts) = mset xs)"

lemma sorter_mset: "sorter_permutes srt \<Longrightarrow> mset (srt xs ts) = mset xs"
  by (simp add: sorter_permutes_def)

lemma sorter_set: "sorter_permutes srt \<Longrightarrow> set (srt xs ts) = set xs"
  by (metis sorter_mset set_mset_mset)

lemma sorter_length: "sorter_permutes srt \<Longrightarrow> length (srt xs ts) = length xs"
  by (metis sorter_mset size_mset)

end
