(* ===== verification/Heartbeat_Function.thy ===== *)
theory Heartbeat_Function
  imports Frontend_Prelude
begin

text \<open>
  The cloud function that receives the signed heartbeats of web nodes
  (\<open>frontend/functions/src/index.ts\<close>, \<open>submitterValidator.ts\<close> and \<open>build.js\<close>).

  The Firestore collections the function writes are the record \<open>firestore\<close>; the cryptographic
  packages (\<open>blake2\<close>, \<open>bs58check\<close>, \<open>mina-signer\<close>) are the record \<open>crypto\<close> of functions, with
  \<open>None\<close> for a thrown exception. The clock readings and the outcome of the Firestore commit are
  arguments of the call (\<open>hb_env\<close>). An \<open>HttpsError\<close> is a value.
\<close>

section \<open>Data\<close>

record SignatureJson =
  sig_field :: string
  sig_scalar :: string

record HeartbeatData =
  hb_version :: nat
  hb_payload :: string
  hb_submitter :: string
  hb_signature :: SignatureJson

record RateLimitDoc =
  timestamps :: "int list"
  lastCall :: int

record HeartbeatDoc =
  doc_data :: HeartbeatData
  createTime :: int

record firestore =
  publicKeyRateLimits :: "string \<rightharpoonup> RateLimitDoc"
  heartbeats :: "HeartbeatDoc list"

record crypto =
  blake2b_hex :: "string \<Rightarrow> string option"
  bs58check_decode :: "string \<Rightarrow> nat list option"
  verifyMessage :: "string \<Rightarrow> SignatureJson \<Rightarrow> string \<Rightarrow> bool option"

record hb_env =
  env_now :: int
  env_serverTimestamp :: int
  env_commitFails :: bool

datatype HttpsError = PermissionDenied | Unauthenticated | ResourceExhausted | Internal

definition WINDOW_SIZE_MS :: int where
  "WINDOW_SIZE_MS = 60000"

definition MAX_REQUESTS_PER_WINDOW :: nat where
  "MAX_REQUESTS_PER_WINDOW = 6"

section \<open>The allow list\<close>

text \<open>\<open>build.js\<close>: the keys of \<open>allowed_keys.txt\<close>; without the file the set of the validator stays
  empty.\<close>

definition allowedKeys :: "string option \<Rightarrow> string list" where
  "allowedKeys file =
     (case file of
        None \<Rightarrow> []
      | Some txt \<Rightarrow> filter (\<lambda>key. length key > 0) (map js_trim (js_split (CHR 10) txt)))"

definition submitterAllowed :: "string list \<Rightarrow> string \<Rightarrow> bool" where
  "submitterAllowed allowedPublicKeys publicKeyBase58 =
     (if card (set allowedPublicKeys) = 0 then True
      else publicKeyBase58 \<in> set allowedPublicKeys)"

section \<open>The callable function\<close>

definition validateSignature :: "crypto \<Rightarrow> string \<Rightarrow> SignatureJson \<Rightarrow> string \<Rightarrow> bool" where
  "validateSignature cr data signature publicKeyBase58 =
     (case blake2b_hex cr data of
        None \<Rightarrow> False
      | Some digest \<Rightarrow>
          (case bs58check_decode cr publicKeyBase58 of
             None \<Rightarrow> False
           | Some [] \<Rightarrow> False
           | Some (b # _) \<Rightarrow>
               if b \<noteq> 203 then False
               else (case verifyMessage cr digest signature publicKeyBase58 of
                       None \<Rightarrow> False
                     | Some ok \<Rightarrow> ok)))"

text \<open>The body passed to \<open>runTransaction\<close>: the writes are applied only when it returns and the
  commit succeeds.\<close>

definition rateLimitTransaction ::
  "hb_env \<Rightarrow> HeartbeatData \<Rightarrow> firestore \<Rightarrow> HttpsError + firestore" where
  "rateLimitTransaction env data db =
     (let now = env_now env;
          windowStart = now - WINDOW_SIZE_MS;
          store = (\<lambda>ts. Inr \<lparr>
             publicKeyRateLimits = (publicKeyRateLimits db)
               (hb_submitter data \<mapsto> \<lparr>timestamps = ts, lastCall = env_serverTimestamp env\<rparr>),
             heartbeats = heartbeats db @
               [\<lparr>doc_data = data, createTime = env_serverTimestamp env\<rparr>]\<rparr>)
      in case publicKeyRateLimits db (hb_submitter data) of
           Some rateLimitDoc \<Rightarrow>
             (let currentWindowTimestamps =
                    filter (\<lambda>ts. ts > windowStart) (timestamps rateLimitDoc) @ [now]
              in if length currentWindowTimestamps > MAX_REQUESTS_PER_WINDOW
                 then Inl ResourceExhausted
                 else store currentWindowTimestamps)
         | None \<Rightarrow> store [now])"

definition handleValidationAndStore ::
  "string list \<Rightarrow> crypto \<Rightarrow> hb_env \<Rightarrow> HeartbeatData \<Rightarrow> firestore
     \<Rightarrow> (HttpsError + string) \<times> firestore" where
  "handleValidationAndStore keys cr env data db =
     (if \<not> submitterAllowed keys (hb_submitter data) then (Inl PermissionDenied, db)
      else if \<not> validateSignature cr (hb_payload data) (hb_signature data) (hb_submitter data)
      then (Inl Unauthenticated, db)
      else case rateLimitTransaction env data db of
             Inl e \<Rightarrow> (Inl e, db)
           | Inr db' \<Rightarrow>
               if env_commitFails env then (Inl Internal, db)
               else (Inr ''Data validated and stored successfully'', db'))"

text \<open>A sequence of calls, each with its own environment.\<close>

type_synonym hb_call = "hb_env \<times> HeartbeatData"

fun hb_run :: "string list \<Rightarrow> crypto \<Rightarrow> firestore \<Rightarrow> hb_call list \<Rightarrow> firestore" where
  "hb_run keys cr db [] = db"
| "hb_run keys cr db ((env, data) # cs) =
     hb_run keys cr (snd (handleValidationAndStore keys cr env data db)) cs"

definition hb_accepts :: "string list \<Rightarrow> crypto \<Rightarrow> firestore \<Rightarrow> hb_call \<Rightarrow> bool" where
  "hb_accepts keys cr db c =
     (case fst (handleValidationAndStore keys cr (fst c) (snd c) db) of Inl _ \<Rightarrow> False | Inr _ \<Rightarrow> True)"

fun acceptedCalls :: "string list \<Rightarrow> crypto \<Rightarrow> firestore \<Rightarrow> hb_call list \<Rightarrow> hb_call list" where
  "acceptedCalls keys cr db [] = []"
| "acceptedCalls keys cr db (c # cs) =
     (if hb_accepts keys cr db c then [c] else []) @
     acceptedCalls keys cr (snd (handleValidationAndStore keys cr (fst c) (snd c) db)) cs"

definition acceptedTimes ::
  "string list \<Rightarrow> crypto \<Rightarrow> firestore \<Rightarrow> hb_call list \<Rightarrow> string \<Rightarrow> int list" where
  "acceptedTimes keys cr db cs s =
     map (\<lambda>c. env_now (fst c))
       (filter (\<lambda>c. hb_submitter (snd c) = s) (acceptedCalls keys cr db cs))"

section \<open>One call\<close>

definition hb_authentic :: "string list \<Rightarrow> crypto \<Rightarrow> hb_call \<Rightarrow> bool" where
  "hb_authentic keys cr c \<longleftrightarrow>
     submitterAllowed keys (hb_submitter (snd c)) \<and>
     validateSignature cr (hb_payload (snd c)) (hb_signature (snd c)) (hb_submitter (snd c)) \<and>
     \<not> env_commitFails (fst c)"

definition recentStamps :: "firestore \<Rightarrow> string \<Rightarrow> int \<Rightarrow> int list" where
  "recentStamps db s now =
     (case publicKeyRateLimits db s of
        None \<Rightarrow> []
      | Some d \<Rightarrow> filter (\<lambda>ts. ts > now - WINDOW_SIZE_MS) (timestamps d))"

lemma hb_accepts_iff:
  "hb_accepts keys cr db c \<longleftrightarrow>
     hb_authentic keys cr c \<and> length (recentStamps db (hb_submitter (snd c)) (env_now (fst c))) < 6"
  by (auto simp: hb_accepts_def hb_authentic_def handleValidationAndStore_def recentStamps_def
      rateLimitTransaction_def MAX_REQUESTS_PER_WINDOW_def Let_def split: option.splits)

lemma handle_accepted:
  assumes "hb_accepts keys cr db c"
  shows "snd (handleValidationAndStore keys cr (fst c) (snd c) db) =
     \<lparr>publicKeyRateLimits = (publicKeyRateLimits db)
        (hb_submitter (snd c) \<mapsto>
           \<lparr>timestamps = recentStamps db (hb_submitter (snd c)) (env_now (fst c)) @ [env_now (fst c)],
            lastCall = env_serverTimestamp (fst c)\<rparr>),
      heartbeats = heartbeats db @
        [\<lparr>doc_data = snd c, createTime = env_serverTimestamp (fst c)\<rparr>]\<rparr>"
  using assms
  by (auto simp: hb_accepts_def handleValidationAndStore_def recentStamps_def
      rateLimitTransaction_def Let_def split: option.splits if_splits)

lemma handle_rejected:
  assumes "\<not> hb_accepts keys cr db c"
  shows "snd (handleValidationAndStore keys cr (fst c) (snd c) db) = db"
  using assms
  by (auto simp: hb_accepts_def handleValidationAndStore_def rateLimitTransaction_def Let_def
      split: option.splits if_splits)

section \<open>The sliding window\<close>

text \<open>What the stored timestamps of a submitter say about the times \<open>acc\<close> at which it was accepted
  so far, at any clock reading from \<open>now\<close> on.\<close>

definition window_inv :: "firestore \<Rightarrow> string \<Rightarrow> int list \<Rightarrow> int \<Rightarrow> bool" where
  "window_inv db s acc now \<longleftrightarrow>
     (\<forall>t \<in> set acc. t \<le> now) \<and>
     (\<forall>T \<ge> now. recentStamps db s T = filter (\<lambda>t. t > T - WINDOW_SIZE_MS) acc)"

definition window_count :: "int list \<Rightarrow> int \<Rightarrow> nat" where
  "window_count acc T = length (filter (\<lambda>t. T - WINDOW_SIZE_MS < t \<and> t \<le> T) acc)"

lemma window_inv_mono: "window_inv db s acc now \<Longrightarrow> now \<le> now' \<Longrightarrow> window_inv db s acc now'"
  by (fastforce simp: window_inv_def)

lemma filter_filter_window:
  fixes T T' :: int
  assumes "T \<le> T'"
  shows "filter (\<lambda>t. t > T' - W) (filter (\<lambda>t. t > T - W) xs) = filter (\<lambda>t. t > T' - W) xs"
  using assms by (auto intro: filter_cong)

lemma window_inv_accept:
  assumes inv: "window_inv db s acc (env_now (fst c))"
    and acc: "hb_accepts keys cr db c" and s: "hb_submitter (snd c) = s"
  shows "window_inv (snd (handleValidationAndStore keys cr (fst c) (snd c) db)) s
           (acc @ [env_now (fst c)]) (env_now (fst c))"
proof -
  let ?n = "env_now (fst c)"
  have *: "recentStamps db s ?n = filter (\<lambda>t. t > ?n - WINDOW_SIZE_MS) acc"
    using inv by (simp add: window_inv_def)
  have "recentStamps (snd (handleValidationAndStore keys cr (fst c) (snd c) db)) s T =
      filter (\<lambda>t. t > T - WINDOW_SIZE_MS) (acc @ [?n])" if "?n \<le> T" for T
    using filter_filter_window [OF that, of WINDOW_SIZE_MS acc]
    by (simp add: handle_accepted [OF acc] s recentStamps_def [of _ s T] * del: filter_filter)
  with inv show ?thesis by (auto simp: window_inv_def)
qed

lemma window_inv_other:
  assumes "window_inv db s acc now"
    and "\<not> hb_accepts keys cr db c \<or> hb_submitter (snd c) \<noteq> s"
  shows "window_inv (snd (handleValidationAndStore keys cr (fst c) (snd c) db)) s acc now"
proof (cases "hb_accepts keys cr db c")
  case True
  with assms show ?thesis by (simp add: window_inv_def recentStamps_def handle_accepted)
next
  case False
  with assms show ?thesis by (simp add: handle_rejected)
qed

lemma window_count_snoc:
  assumes inv: "window_inv db s acc n" and len: "length (recentStamps db s n) < 6"
    and IH: "\<And>T. window_count acc T \<le> 6"
  shows "window_count (acc @ [n]) T \<le> 6"
proof (cases "n \<le> T")
  case True
  have "window_count acc T \<le> length (filter (\<lambda>t. t > n - WINDOW_SIZE_MS) acc)"
    using True by (auto simp: window_count_def intro: length_filter_mono)
  also have "\<dots> = length (recentStamps db s n)"
    using inv by (simp add: window_inv_def)
  finally show ?thesis using len by (simp add: window_count_def)
next
  case False
  with IH [of T] show ?thesis by (simp add: window_count_def)
qed


lemma window_run:
  assumes "window_inv db s acc now" and "\<And>T. window_count acc T \<le> 6"
    and "sorted (now # map (\<lambda>c. env_now (fst c)) cs)"
  shows "window_inv (hb_run keys cr db cs) s (acc @ acceptedTimes keys cr db cs s)
           (last (now # map (\<lambda>c. env_now (fst c)) cs))
       \<and> (\<forall>T. window_count (acc @ acceptedTimes keys cr db cs s) T \<le> 6)"
  using assms
proof (induction cs arbitrary: db acc now)
  case Nil
  then show ?case by (simp add: acceptedTimes_def)
next
  case (Cons c cs)
  let ?n = "env_now (fst c)"
  let ?db = "snd (handleValidationAndStore keys cr (fst c) (snd c) db)"
  have run: "hb_run keys cr db (c # cs) = hb_run keys cr ?db cs" by (cases c) simp
  have inv: "window_inv db s acc ?n" using Cons.prems by (auto intro: window_inv_mono)
  have srt: "sorted (?n # map (\<lambda>c. env_now (fst c)) cs)" using Cons.prems(3) by simp
  show ?case
  proof (cases "hb_accepts keys cr db c \<and> hb_submitter (snd c) = s")
    case True
    then have acc: "hb_accepts keys cr db c" and s: "hb_submitter (snd c) = s" by auto
    have "length (recentStamps db s ?n) < 6" using acc s by (simp add: hb_accepts_iff)
    with inv Cons.prems(2) have "window_count (acc @ [?n]) T \<le> 6" for T
      by (intro window_count_snoc)
    from Cons.IH [OF window_inv_accept [OF inv acc s] this srt] show ?thesis
      using acc s run by (simp add: acceptedTimes_def)
  next
    case False
    then have "window_inv ?db s acc ?n" using inv by (intro window_inv_other) auto
    from Cons.IH [OF this Cons.prems(2) srt] show ?thesis
      using False run by (auto simp: acceptedTimes_def)
  qed
qed

lemma window_inv_fresh:
  "publicKeyRateLimits db s = None \<Longrightarrow> window_inv db s [] now"
  by (simp add: window_inv_def recentStamps_def)

lemma window_run_fresh:
  assumes "publicKeyRateLimits db s = None" and "sorted (map (\<lambda>c. env_now (fst c)) cs)"
  shows "window_inv (hb_run keys cr db cs) s (acceptedTimes keys cr db cs s)
           (last (now # map (\<lambda>c. env_now (fst c)) cs))"
    and "window_count (acceptedTimes keys cr db cs s) T \<le> 6"
proof -
  have "window_inv (hb_run keys cr db cs) s (acceptedTimes keys cr db cs s)
           (last (now # map (\<lambda>c. env_now (fst c)) cs))
       \<and> window_count (acceptedTimes keys cr db cs s) T \<le> 6"
  proof (cases cs)
    case Nil
    then show ?thesis using assms by (simp add: acceptedTimes_def window_count_def window_inv_fresh)
  next
    case (Cons c cs')
    have "sorted (env_now (fst c) # map (\<lambda>c. env_now (fst c)) cs)" using assms Cons by simp
    from window_run [OF window_inv_fresh [OF assms(1)] _ this] show ?thesis
      using Cons by (simp add: window_count_def)
  qed
  then show "window_inv (hb_run keys cr db cs) s (acceptedTimes keys cr db cs s)
           (last (now # map (\<lambda>c. env_now (fst c)) cs))"
    and "window_count (acceptedTimes keys cr db cs s) T \<le> 6" by auto
qed

lemma heartbeats_run:
  "heartbeats (hb_run keys cr db cs) =
     heartbeats db @
     map (\<lambda>c. \<lparr>doc_data = snd c, createTime = env_serverTimestamp (fst c)\<rparr>)
       (acceptedCalls keys cr db cs)"
proof (induction cs arbitrary: db)
  case (Cons c cs)
  then show ?case
    using handle_accepted [of keys cr db c] handle_rejected [of keys cr db c]
    by (cases c; cases "hb_accepts keys cr db c") auto
qed simp

section \<open>Properties\<close>

text \<open>C1. The rate limit. Whatever sequence of calls reaches the function, with the clock readings of
  successive calls non-decreasing and no rate limit document for the submitter at the start, the
  calls of one submitter accepted within any window of one minute number at most
  \<open>MAX_REQUESTS_PER_WINDOW\<close>, for every position \<open>T\<close> of the window.\<close>

theorem rate_limit_window:
  assumes "publicKeyRateLimits db s = None"
    and "sorted (map (\<lambda>c. env_now (fst c)) cs)"
  shows "window_count (acceptedTimes keys cr db cs s) T \<le> MAX_REQUESTS_PER_WINDOW"
  using window_run_fresh(2) [OF assms] by (simp add: MAX_REQUESTS_PER_WINDOW_def)

definition demo_crypto :: crypto where
  "demo_crypto = \<lparr>blake2b_hex = (\<lambda>p. Some (rev p)), bs58check_decode = (\<lambda>k. Some [203, 1]),
     verifyMessage = (\<lambda>d sg k. Some (sig_field sg = k))\<rparr>"

definition demo_call :: "int \<Rightarrow> string \<Rightarrow> hb_call" where
  "demo_call t k =
     (\<lparr>env_now = t, env_serverTimestamp = t + 1, env_commitFails = False\<rparr>,
      \<lparr>hb_version = 1, hb_payload = ''p'', hb_submitter = k,
       hb_signature = \<lparr>sig_field = ''B62q'', sig_scalar = ''1''\<rparr>\<rparr>)"

definition demo_calls :: "hb_call list" where
  "demo_calls = map (\<lambda>t. demo_call t ''B62q'') [0, 1000, 2000, 3000, 4000, 5000, 6000, 60500]"

definition demo_db :: firestore where
  "demo_db = \<lparr>publicKeyRateLimits = (\<lambda>_. None), heartbeats = []\<rparr>"

lemmas hb_demo_defs = demo_crypto_def demo_call_def demo_calls_def demo_db_def
  acceptedTimes_def hb_accepts_def handleValidationAndStore_def rateLimitTransaction_def
  submitterAllowed_def validateSignature_def WINDOW_SIZE_MS_def MAX_REQUESTS_PER_WINDOW_def

text \<open>Eight authentic calls: the seventh comes too early and is refused, the eighth is accepted
  because the first one has left the window.\<close>

lemma demo_accepted:
  "acceptedTimes [] demo_crypto demo_db demo_calls ''B62q'' = [0, 1000, 2000, 3000, 4000, 5000, 60500]"
  by (simp add: hb_demo_defs Let_def)

theorem rate_limit_window_witness:
  "length (acceptedTimes [] demo_crypto demo_db demo_calls ''B62q'') = 7 \<and>
   window_count (acceptedTimes [] demo_crypto demo_db demo_calls ''B62q'') 5000
     \<le> MAX_REQUESTS_PER_WINDOW"
  using rate_limit_window [of demo_db "''B62q''" demo_calls "[]" demo_crypto 5000]
  by (simp add: demo_accepted) (simp add: demo_db_def demo_calls_def demo_call_def)

text \<open>C2. The rate limit refuses nothing else. After any run of calls with non-decreasing clock
  readings, a call is accepted exactly when its submitter is on the allow list (or the list is
  empty), its signature verifies, the commit succeeds and fewer than \<open>MAX_REQUESTS_PER_WINDOW\<close> calls of
  the same submitter were accepted in the minute before it.\<close>

theorem rate_limit_exact:
  assumes "publicKeyRateLimits db (hb_submitter (snd c)) = None"
    and "sorted (map (\<lambda>c. env_now (fst c)) (cs @ [c]))"
  shows "hb_accepts keys cr (hb_run keys cr db cs) c \<longleftrightarrow>
     hb_authentic keys cr c \<and>
     length (filter (\<lambda>t. t > env_now (fst c) - WINDOW_SIZE_MS)
       (acceptedTimes keys cr db cs (hb_submitter (snd c)))) < MAX_REQUESTS_PER_WINDOW"
proof -
  let ?n = "env_now (fst c)" and ?ts = "map (\<lambda>c. env_now (fst c)) cs"
  have "sorted ?ts" and "last (?n # ?ts) \<le> ?n"
    using assms(2) by (auto simp: sorted_append last_map)
  with window_run_fresh(1) [OF assms(1), of cs keys cr ?n]
  have "window_inv (hb_run keys cr db cs) (hb_submitter (snd c))
          (acceptedTimes keys cr db cs (hb_submitter (snd c))) ?n"
    by (auto intro: window_inv_mono)
  then show ?thesis
    by (simp add: hb_accepts_iff window_inv_def MAX_REQUESTS_PER_WINDOW_def)
qed

theorem rate_limit_exact_witness:
  "hb_accepts [] demo_crypto (hb_run [] demo_crypto demo_db demo_calls) (demo_call 61500 ''B62q'')"
  using rate_limit_exact [of demo_db "demo_call 61500 ''B62q''" demo_calls "[]" demo_crypto]
  by (simp add: demo_accepted [unfolded demo_call_def] demo_call_def)
    (simp add: demo_db_def demo_accepted demo_calls_def demo_call_def hb_authentic_def demo_crypto_def
      submitterAllowed_def validateSignature_def WINDOW_SIZE_MS_def MAX_REQUESTS_PER_WINDOW_def)

text \<open>C3. What is stored. The heartbeat collection after a run is the one before it followed by the
  data of the accepted calls, in call order and each exactly once, with the server time of that
  call; refused calls (not allowed, not authentic, over the limit, failed commit) write nothing.\<close>

theorem heartbeats_stored:
  "heartbeats (hb_run keys cr db cs) =
     heartbeats db @
     map (\<lambda>c. \<lparr>doc_data = snd c, createTime = env_serverTimestamp (fst c)\<rparr>)
       (acceptedCalls keys cr db cs)
   \<and> (\<forall>env data e.
        fst (handleValidationAndStore keys cr env data db) = Inl e \<longrightarrow>
        snd (handleValidationAndStore keys cr env data db) = db)"
  using heartbeats_run handle_rejected [of keys cr db "(env, data)" for env data]
  by (auto simp: hb_accepts_def)

theorem heartbeats_stored_witness:
  "length (heartbeats (hb_run [] demo_crypto demo_db demo_calls)) = 7 \<and>
   snd (handleValidationAndStore [''B62x''] demo_crypto (fst (demo_call 0 ''B62q''))
          (snd (demo_call 0 ''B62q'')) demo_db) = demo_db"
proof
  have "length (acceptedCalls [] demo_crypto demo_db demo_calls) = 7"
    by (simp add: hb_demo_defs Let_def)
  then show "length (heartbeats (hb_run [] demo_crypto demo_db demo_calls)) = 7"
    using heartbeats_stored [of "[]" demo_crypto demo_db demo_calls] by (simp add: demo_db_def)
  show "snd (handleValidationAndStore [''B62x''] demo_crypto (fst (demo_call 0 ''B62q''))
          (snd (demo_call 0 ''B62q'')) demo_db) = demo_db"
    using heartbeats_stored [of "[''B62x'']" demo_crypto demo_db "[]"]
    by (simp add: handleValidationAndStore_def submitterAllowed_def demo_call_def)
qed

end
