(* ===== verification/Effect_Pipeline.thy ===== *)
theory Effect_Pipeline
  imports Frontend_Prelude
begin

text \<open>
  The effects of the frontend are RxJS pipelines over the stream of dispatched actions. Most of them
  have one shape: a \<open>filter\<close>, a few \<open>tap\<close>s that write private fields of the effect class, a \<open>switchMap\<close> to
  one HTTP request (or to \<open>EMPTY\<close>), \<open>tap\<close>s and a \<open>map\<close> on the response, and \<open>catchErrorAndRepeat\<close>
  (\<open>shared/constants/store-functions.ts\<close>), which emits an error action and a fallback action and
  subscribes again. This theory models that shape once: an \<open>effect\<close> gives the three handlers, and
  \<open>rx_step\<close> is the documented behaviour of the operators between them.

  \<^item> \<open>switchMap\<close>: a new request replaces the one in flight, whose response is never seen;
    switching to \<open>EMPTY\<close> leaves no request in flight.
  \<^item> \<open>catchError\<close> and \<open>repeat\<close>: an error ends the subscription, so no request is in flight
    afterwards, and the pipeline listens again.
  \<^item> The private fields of the class survive; only the \<open>tap\<close>s change them.

  The locale \<open>request_flag\<close> is the contract of a pipeline that keeps a flag "a request is pending":
  every way in which a request can end clears it. Its lemmas show that such a flag is never left set
  with no request in flight, so a pipeline that ignores actions while the flag is set is never stuck.
\<close>

section \<open>Error actions\<close>

datatype MinaErrorType = RUST | GENERIC | DEBUGGER

text \<open>\<open>HttpErrorResponse\<close> or \<open>Error\<close>: the status is present for a response.\<close>

record http_error =
  err_message :: string
  err_status :: "(nat \<times> string) option"

record MinaError =
  mina_type :: MinaErrorType
  mina_message :: string
  mina_status :: "string option"
  mina_timestamp :: string
  mina_seen :: bool

text \<open>\<open>now\<close> is \<open>toReadableDate(Number(Date.now()), 'HH:mm:ss')\<close>.\<close>

definition addError :: "string \<Rightarrow> http_error \<Rightarrow> MinaErrorType \<Rightarrow> MinaError" where
  "addError now error type =
     \<lparr>mina_type = type,
      mina_message = err_message error,
      mina_status = (case err_status error of
          None \<Rightarrow> None
        | Some (status, statusText) \<Rightarrow>
            if status = 0 then None else Some (dec status @ '' '' @ statusText)),
      mina_timestamp = now,
      mina_seen = False\<rparr>"

text \<open>What a pipeline dispatches: an action of its feature or the error action.\<close>

datatype 'o dispatched = ErrorAdd MinaError | Dispatch 'o

definition catchErrorAndRepeat ::
  "string \<Rightarrow> MinaErrorType \<Rightarrow> 'o \<Rightarrow> http_error \<Rightarrow> 'o dispatched list" where
  "catchErrorAndRepeat now errType fallback error =
     [ErrorAdd (addError now error errType), Dispatch fallback]"

definition createType :: "string \<Rightarrow> string option \<Rightarrow> string \<Rightarrow> string" where
  "createType moduleName submodule actionName =
     ''['' @ moduleName @ (case submodule of None \<Rightarrow> [] | Some sm \<Rightarrow> if sm = [] then [] else '' '' @ sm)
     @ ''] '' @ actionName"

section \<open>Pipelines\<close>

datatype 'q switch = Filtered | Switch_empty | Switch_request 'q

record ('f, 'a, 'q, 'r, 'o) effect =
  on_action :: "'a \<Rightarrow> 'f \<Rightarrow> 'f \<times> 'q switch"
  on_value :: "'q \<Rightarrow> 'r \<Rightarrow> 'f \<Rightarrow> 'f \<times> 'o list"
  on_error :: "http_error \<Rightarrow> 'f \<Rightarrow> 'f \<times> 'o list"

datatype ('a, 'r) rx_event = Rx_action 'a | Rx_value 'r | Rx_error http_error

type_synonym ('f, 'q) rx_state = "'f \<times> 'q option"

inductive rx_step ::
  "('f, 'a, 'q, 'r, 'o) effect \<Rightarrow> ('f, 'q) rx_state \<Rightarrow> ('a, 'r) rx_event \<Rightarrow> 'o list
     \<Rightarrow> ('f, 'q) rx_state \<Rightarrow> bool"
  for E where
  action_filtered:
    "on_action E a f = (f', Filtered) \<Longrightarrow> rx_step E (f, q) (Rx_action a) [] (f', q)"
| action_empty:
    "on_action E a f = (f', Switch_empty) \<Longrightarrow> rx_step E (f, q) (Rx_action a) [] (f', None)"
| action_switched:
    "on_action E a f = (f', Switch_request r) \<Longrightarrow> rx_step E (f, q) (Rx_action a) [] (f', Some r)"
| value_delivered:
    "on_value E r v f = (f', out) \<Longrightarrow> rx_step E (f, Some r) (Rx_value v) out (f', None)"
| error_caught:
    "on_error E e f = (f', out) \<Longrightarrow> rx_step E (f, Some r) (Rx_error e) out (f', None)"

inductive_cases rx_actionE: "rx_step E (f, q) (Rx_action a) out s"
inductive_cases rx_valueE: "rx_step E (f, q) (Rx_value v) out s"
inductive_cases rx_errorE: "rx_step E (f, q) (Rx_error e) out s"

inductive_simps rx_step_action [simp]: "rx_step E (f, q) (Rx_action a) out s"
inductive_simps rx_step_value [simp]: "rx_step E (f, q) (Rx_value v) out s"
inductive_simps rx_step_error [simp]: "rx_step E (f, q) (Rx_error e) out s"

inductive rx_run ::
  "('f, 'a, 'q, 'r, 'o) effect \<Rightarrow> ('f, 'q) rx_state \<Rightarrow> ('a, 'r) rx_event list \<Rightarrow> 'o list
     \<Rightarrow> ('f, 'q) rx_state \<Rightarrow> bool"
  for E where
  run_Nil: "rx_run E s [] [] s"
| run_Cons: "rx_step E s ev out s' \<Longrightarrow> rx_run E s' evs outs s'' \<Longrightarrow> rx_run E s (ev # evs) (out @ outs) s''"

inductive_simps rx_run_Nil [simp]: "rx_run E s [] out s'"
inductive_simps rx_run_Cons: "rx_run E s (ev # evs) out s'"

text \<open>The executable form of a step: \<open>None\<close> for a response with no request in flight, which the
  operators never deliver.\<close>

fun rx_apply ::
  "('f, 'a, 'q, 'r, 'o) effect \<Rightarrow> ('a, 'r) rx_event \<Rightarrow> ('f, 'q) rx_state
     \<Rightarrow> ('o list \<times> ('f, 'q) rx_state) option" where
  "rx_apply E (Rx_action a) (f, q) =
     (case on_action E a f of
        (f', Filtered) \<Rightarrow> Some ([], (f', q))
      | (f', Switch_empty) \<Rightarrow> Some ([], (f', None))
      | (f', Switch_request r) \<Rightarrow> Some ([], (f', Some r)))"
| "rx_apply E (Rx_value v) (f, Some r) = (let (f', out) = on_value E r v f in Some (out, (f', None)))"
| "rx_apply E (Rx_error e) (f, Some r) = (let (f', out) = on_error E e f in Some (out, (f', None)))"
| "rx_apply E _ (f, None) = None"

lemma rx_step_apply: "rx_step E s ev out s' \<longleftrightarrow> rx_apply E ev s = Some (out, s')"
  by (cases "(E, ev, s)" rule: rx_apply.cases) (auto split: prod.splits switch.splits)

lemma rx_step_deterministic:
  "rx_step E s ev out s' \<Longrightarrow> rx_step E s ev out2 s2 \<Longrightarrow> out = out2 \<and> s' = s2"
  by (simp add: rx_step_apply)

lemma rx_step_action_total: "\<exists>s'. rx_step E s (Rx_action a) [] s'"
  by (cases s; cases "on_action E a (fst s)"; cases "snd (on_action E a (fst s))") auto

lemma rx_run_invariant:
  assumes "rx_run E s evs outs s'" and "I s"
    and "\<And>s ev out s'. I s \<Longrightarrow> rx_step E s ev out s' \<Longrightarrow> I s'"
  shows "I s'"
  using assms(1,2) by (induction rule: rx_run.induct) (auto intro: assms(3))

section \<open>The pending flag\<close>

locale request_flag =
  fixes E :: "('f, 'a, 'q, 'r, 'o) effect" and pending :: "'f \<Rightarrow> bool"
  assumes filtered_keeps: "on_action E a f = (f', Filtered) \<Longrightarrow> pending f' = pending f"
    and empty_clears: "on_action E a f = (f', Switch_empty) \<Longrightarrow> \<not> pending f'"
    and value_clears: "on_value E q v f = (f', out) \<Longrightarrow> \<not> pending f'"
    and error_clears: "on_error E e f = (f', out) \<Longrightarrow> \<not> pending f'"
begin

lemma step_flag:
  "rx_step E s ev out s' \<Longrightarrow> (pending (fst s) \<longrightarrow> snd s \<noteq> None) \<Longrightarrow>
   (pending (fst s') \<longrightarrow> snd s' \<noteq> None)"
  by (induction rule: rx_step.induct)
    (auto dest: filtered_keeps empty_clears value_clears error_clears)

text \<open>The flag is set only while a request is in flight.\<close>

lemma run_flag:
  assumes "rx_run E s evs outs s'" and "\<not> pending (fst s)"
  shows "pending (fst s') \<longrightarrow> snd s' \<noteq> None"
  using rx_run_invariant [OF assms(1), of "\<lambda>s. pending (fst s) \<longrightarrow> snd s \<noteq> None"]
    step_flag assms(2) by blast

text \<open>Whatever happened, the answer to the request in flight, or its failure, clears the flag.\<close>

lemma run_recovers:
  assumes "rx_run E s evs outs s'" and "\<not> pending (fst s)"
  shows "\<not> pending (fst s') \<or>
    (\<forall>v. \<exists>out f'. rx_step E s' (Rx_value v) out (f', None) \<and> \<not> pending f') \<and>
    (\<forall>e. \<exists>out f'. rx_step E s' (Rx_error e) out (f', None) \<and> \<not> pending f')"
proof (cases "pending (fst s')")
  case True
  with run_flag [OF assms] obtain f q where s': "s' = (f, Some q)" by (cases s') auto
  have "\<exists>out f'. rx_step E s' (Rx_value v) out (f', None) \<and> \<not> pending f'" for v
    using value_clears [of q v f] by (cases "on_value E q v f") (auto simp: s')
  moreover have "\<exists>out f'. rx_step E s' (Rx_error e) out (f', None) \<and> \<not> pending f'" for e
    using error_clears [of e f] by (cases "on_error E e f") (auto simp: s')
  ultimately show ?thesis by blast
qed simp

end

section \<open>Cancelling on close\<close>

text \<open>A pipeline that switches to \<open>EMPTY\<close> when its page is closed.\<close>

locale cancel_on_close =
  fixes E :: "('f, 'a, 'q, 'r, 'o) effect" and close :: "'a \<Rightarrow> bool"
  assumes close_empty: "close a \<Longrightarrow> snd (on_action E a f) = Switch_empty"
begin

text \<open>No response to a request sent before the page was closed is ever seen.\<close>

lemma close_discards:
  assumes "close a" and "rx_step E s (Rx_action a) out s'"
  shows "out = [] \<and> snd s' = None \<and>
    (\<nexists>v out2 s''. rx_step E s' (Rx_value v) out2 s'') \<and> (\<nexists>e out2 s''. rx_step E s' (Rx_error e) out2 s'')"
proof -
  obtain f q f' where "s = (f, q)" and "on_action E a f = (f', Switch_empty)"
    using close_empty [OF assms(1)] by (cases s) (metis prod.collapse)
  with assms(2) show ?thesis by auto
qed

end

section \<open>Close actions that are dropped\<close>

text \<open>A pipeline whose filter asks for the pending flag before the close action is looked at: while a request is
  in flight, closing the page is ignored.\<close>

locale drops_close =
  fixes E :: "('f, 'a, 'q, 'r, 'o) effect" and pending :: "'f \<Rightarrow> bool" and close :: "'a \<Rightarrow> bool"
  assumes close_dropped: "close a \<Longrightarrow> pending f \<Longrightarrow> on_action E a f = (f, Filtered)"
begin

text \<open>The answer that arrives after closing is dispatched as if the page were open.\<close>

lemma late_answer:
  assumes "close a" and "pending f"
  shows "rx_run E (f, Some q) [Rx_action a, Rx_value v] (snd (on_value E q v f)) (fst (on_value E q v f), None)"
proof -
  have "rx_step E (f, Some q) (Rx_action a) [] (f, Some q)"
    by (rule action_filtered) (rule close_dropped [OF assms])
  moreover have "rx_step E (f, Some q) (Rx_value v) (snd (on_value E q v f)) (fst (on_value E q v f), None)"
    by (rule value_delivered) simp
  ultimately show ?thesis
    using run_Cons [OF _ run_Cons [OF _ run_Nil]] by fastforce
qed

end

end
