(* ===== verification/Store_Reducer.thy ===== *)
theory Store_Reducer
  imports Frontend_Prelude
begin

text \<open>
  The store of the frontend applies the reducer of each feature to every dispatched action. A
  reducer is a function from a state and an action to the next state, or to an exception of the
  language. \<open>reduce_all\<close> applies it to a sequence of actions, and the locale \<open>reducer_invariant\<close> is the
  contract of a feature whose state satisfies an invariant: the initial state has it and every
  action keeps it. The features interpret the locale on their reducers.
\<close>

type_synonym ('s, 'a) reducer = "'s \<Rightarrow> 'a \<Rightarrow> js_error + 's"

fun reduce_all :: "('s, 'a) reducer \<Rightarrow> 's \<Rightarrow> 'a list \<Rightarrow> js_error + 's" where
  "reduce_all r s [] = Inr s"
| "reduce_all r s (a # as) = (case r s a of Inl e \<Rightarrow> Inl e | Inr s' \<Rightarrow> reduce_all r s' as)"

lemma reduce_all_append:
  "reduce_all r s (as @ bs) = (case reduce_all r s as of Inl e \<Rightarrow> Inl e | Inr s' \<Rightarrow> reduce_all r s' bs)"
  by (induction as arbitrary: s) (auto split: sum.splits)

lemma reduce_all_total: "reduce_all (\<lambda>s a. Inr (f s a)) s as = Inr (foldl f s as)"
  by (induction as arbitrary: s) simp_all

locale reducer_invariant =
  fixes reduce :: "('s, 'a) reducer" and init :: 's and inv :: "'s \<Rightarrow> bool"
  assumes inv_init: "inv init"
    and inv_step: "inv s \<Longrightarrow> reduce s a = Inr s' \<Longrightarrow> inv s'"
begin

lemma inv_run: "inv s \<Longrightarrow> reduce_all reduce s as = Inr s' \<Longrightarrow> inv s'"
  by (induction as arbitrary: s) (auto split: sum.splits intro: inv_step)

lemma inv_reachable: "reduce_all reduce init as = Inr s \<Longrightarrow> inv s"
  using inv_run inv_init by blast

end

text \<open>A reducer that never throws.\<close>

locale total_reducer_invariant =
  fixes step :: "'s \<Rightarrow> 'a \<Rightarrow> 's" and init :: 's and inv :: "'s \<Rightarrow> bool"
  assumes total_init: "inv init"
    and total_step: "inv s \<Longrightarrow> inv (step s a)"

sublocale total_reducer_invariant \<subseteq> reducer_invariant "\<lambda>s a. Inr (step s a)" init inv
  by unfold_locales (auto intro: total_init total_step)

context total_reducer_invariant
begin

lemma inv_foldl: "inv (foldl step init as)"
  using inv_reachable [of as] by (simp add: reduce_all_total)

end

end
