(* ===== verification/Network_Messages.thy ===== *)
theory Network_Messages
  imports Effect_Pipeline Store_Reducer
begin

text \<open>
  The network messages page (\<open>features/network/messages\<close>): the paginated, filtered view of the
  messages the node's debugger recorded. The reducer keeps the page bookkeeping of the virtual
  scroll, the service builds the request URL and maps the response, the effects poll the debugger
  while the view is live.

  A page identifier is the identifier of the last message of the page; the list of pages may hold
  \<open>undefined\<close>, for which \<open>None\<close> stands. The fields of the active page that the code compares with
  \<open>null\<close> are \<open>js\<close> values.
\<close>

section \<open>State and actions\<close>

datatype NetworkMessagesDirection = FORWARD | REVERSE

datatype NetworkMessagesFilterTypes = STREAM_KIND | MESSAGE_KIND | ADDRESS

datatype filter_value = FString string | FNumber int

record NetworkMessagesFilter =
  nf_type :: NetworkMessagesFilterTypes
  nf_display :: string
  nf_value :: filter_value
  nf_tooltip :: "string option"

record NetworkMessage =
  nm_id :: int
  nm_connectionId :: int
  nm_address :: string
  nm_size :: int
  nm_incoming :: string
  nm_timestamp :: string
  nm_streamKind :: string
  nm_messageKind :: json
  nm_failedToDecryptPercentage :: "js_number option"

record NetworkMessageConnection =
  nc_address :: string
  nc_pid :: int
  nc_fd :: int
  nc_incoming :: bool
  nc_timestamp :: string

record TimestampInterval =
  ti_from :: "int option"
  ti_to :: "int option"

record ActivePage =
  ap_id :: "int option"
  ap_start :: "NetworkMessage option"
  ap_end :: "NetworkMessage option"
  ap_numberOfRecords :: "nat option"
  ap_firstPageIdWithFilters :: "int js"
  ap_lastPageIdWithFilters :: "int js"
  ap_firstPageIdWithTimestamp :: "int js"
  ap_lastPageIdWithTimestamp :: "int js"

text \<open>The connection is a record, or the string of the fallback action after an error.\<close>

record NetworkMessagesState =
  nms_messages :: "NetworkMessage list"
  nms_activeRow :: "NetworkMessage option"
  nms_activeRowFullMessage :: "json option"
  nms_activeRowHex :: "string option"
  nms_connection :: "(string + NetworkMessageConnection) option"
  nms_activeFilters :: "NetworkMessagesFilter list"
  nms_timestamp :: TimestampInterval
  nms_activeTab :: int
  nms_stream :: bool
  nms_limit :: nat
  nms_direction :: "NetworkMessagesDirection option"
  nms_activePage :: ActivePage
  nms_pages :: "int option list"

record filterPayload =
  fp_filters :: "NetworkMessagesFilter list"
  fp_add :: bool
  fp_timestamp :: "TimestampInterval option"
  fp_direction :: "NetworkMessagesDirection option"

datatype NetworkMessagesActions =
    NETWORK_INIT
  | NETWORK_CLOSE
  | NETWORK_GET_MESSAGES
  | NETWORK_GET_MESSAGES_SUCCESS "NetworkMessage list"
  | NETWORK_GET_PAGINATED_MESSAGES "int option" "NetworkMessagesDirection option" "TimestampInterval option"
  | NETWORK_TOGGLE_FILTER filterPayload
  | NETWORK_SET_TIMESTAMP_INTERVAL TimestampInterval "NetworkMessagesDirection option"
  | NETWORK_SET_ACTIVE_ROW "NetworkMessage option"
  | NETWORK_GO_LIVE
  | NETWORK_PAUSE
  | NETWORK_GET_FULL_MESSAGE int
  | NETWORK_GET_FULL_MESSAGE_SUCCESS "json option"
  | NETWORK_GET_MESSAGE_HEX int
  | NETWORK_GET_MESSAGE_HEX_SUCCESS string
  | NETWORK_GET_CONNECTION int
  | NETWORK_GET_CONNECTION_SUCCESS "string + NetworkMessageConnection"
  | NETWORK_CHANGE_TAB int
  | NETWORK_GET_SPECIFIC_MESSAGE int filterPayload

section \<open>Reducer\<close>

definition emptyActivePage :: ActivePage where
  "emptyActivePage = \<lparr>ap_id = None, ap_start = None, ap_end = None, ap_numberOfRecords = None,
     ap_firstPageIdWithFilters = Undefined, ap_lastPageIdWithFilters = Undefined,
     ap_firstPageIdWithTimestamp = Undefined, ap_lastPageIdWithTimestamp = Undefined\<rparr>"

definition networkMessagesInitialState :: NetworkMessagesState where
  "networkMessagesInitialState =
     \<lparr>nms_messages = [], nms_activeRow = None, nms_activeRowFullMessage = None,
      nms_activeRowHex = None, nms_connection = None, nms_activeFilters = [],
      nms_timestamp = \<lparr>ti_from = None, ti_to = None\<rparr>, nms_activeTab = 1, nms_stream = False,
      nms_limit = 1000, nms_direction = Some REVERSE, nms_activePage = emptyActivePage,
      nms_pages = []\<rparr>"

text \<open>The truth of a field that may be \<open>null\<close>.\<close>

fun js_falsy :: "int js \<Rightarrow> bool" where
  "js_falsy (Val i) = (i = 0)"
| "js_falsy _ = True"

definition setActivePage :: "NetworkMessage list \<Rightarrow> NetworkMessagesState \<Rightarrow> ActivePage" where
  "setActivePage messages state =
     (if messages = [] then emptyActivePage
      else let ap = nms_activePage state; first = hd messages; final = last messages;
               from = truthy_num (ti_from (nms_timestamp state))
           in \<lparr>ap_id = Some (nm_id final),
               ap_start = Some first,
               ap_end = Some final,
               ap_numberOfRecords = Some (length messages),
               ap_firstPageIdWithFilters =
                 (if ap_firstPageIdWithFilters ap = Val (-1) then Val (nm_id first)
                  else ap_firstPageIdWithFilters ap),
               ap_lastPageIdWithFilters =
                 (if ap_lastPageIdWithFilters ap = Null then Val (nm_id final)
                  else ap_lastPageIdWithFilters ap),
               ap_firstPageIdWithTimestamp =
                 (if from \<and> js_falsy (ap_firstPageIdWithTimestamp ap) then Val (nm_id first)
                  else ap_firstPageIdWithTimestamp ap),
               ap_lastPageIdWithTimestamp =
                 (if from \<and> js_falsy (ap_lastPageIdWithTimestamp ap) then Val (nm_id final)
                  else ap_lastPageIdWithTimestamp ap)\<rparr>)"

text \<open>\<open>a > b\<close> is false when either side is \<open>undefined\<close>; \<open>sort\<close> moves \<open>undefined\<close> to the end
  without calling the comparator.\<close>

fun js_gt :: "int option \<Rightarrow> int option \<Rightarrow> bool" where
  "js_gt (Some a) (Some b) = (a > b)"
| "js_gt _ _ = False"

definition js_sort_numbers :: "int option list \<Rightarrow> int option list" where
  "js_sort_numbers xs =
     map Some (sort (map the (filter (\<lambda>x. x \<noteq> None) xs))) @ filter (\<lambda>x. x = None) xs"

definition setPages :: "ActivePage \<Rightarrow> NetworkMessagesState \<Rightarrow> int option list" where
  "setPages activePage state =
     (let currentPages = nms_pages state
      in if ap_id activePage \<in> set currentPages then currentPages
         else if currentPages \<noteq> [] \<and> js_gt (ap_id activePage) (last currentPages)
         then [ap_id activePage]
         else js_sort_numbers (currentPages @ [ap_id activePage]))"

definition toggledFilters ::
  "filterPayload \<Rightarrow> NetworkMessagesFilter list \<Rightarrow> NetworkMessagesFilter list" where
  "toggledFilters payload activeFilters =
     (if fp_add payload
      then activeFilters @
        filter (\<lambda>f. \<not> (\<exists>fi \<in> set activeFilters. nf_value fi = nf_value f)) (fp_filters payload)
      else filter (\<lambda>f. \<not> (\<exists>fi \<in> set (fp_filters payload). nf_value fi = nf_value f)) activeFilters)"

text \<open>The case shared by \<open>NETWORK_TOGGLE_FILTER\<close> and \<open>NETWORK_GET_SPECIFIC_MESSAGE\<close>. The source spreads
  the whole state, and not its active page, into the new active page: of the fields of an active
  page only the four that are listed survive. In the direction, \<open>??\<close> binds tighter than the
  conditional, so a given direction is the condition and never the result.\<close>

definition toggleFilterCase :: "filterPayload \<Rightarrow> NetworkMessagesState \<Rightarrow> NetworkMessagesState" where
  "toggleFilterCase payload state =
     (let activeFilters = toggledFilters payload (nms_activeFilters state);
          condition = (case fp_direction payload of
              Some _ \<Rightarrow> True
            | None \<Rightarrow> activeFilters = [] \<and> \<not> truthy_num (ti_from (nms_timestamp state)))
      in state\<lparr>
           nms_activeFilters := activeFilters,
           nms_stream := False,
           nms_activePage := emptyActivePage\<lparr>
             ap_firstPageIdWithFilters := Null,
             ap_lastPageIdWithFilters := Null,
             ap_firstPageIdWithTimestamp := Null,
             ap_lastPageIdWithTimestamp := Val (-1)\<rparr>,
           nms_direction := (if condition then Some REVERSE else nms_direction state),
           nms_timestamp := (case fp_timestamp payload of
               None \<Rightarrow> nms_timestamp state
             | Some ts \<Rightarrow> \<lparr>ti_from = ti_from ts, ti_to = ti_to ts\<rparr>),
           nms_pages := []\<rparr>)"

fun networkMessagesReducer ::
  "NetworkMessagesState \<Rightarrow> NetworkMessagesActions \<Rightarrow> NetworkMessagesState" where
  "networkMessagesReducer state NETWORK_GET_MESSAGES =
     state\<lparr>nms_activePage := (nms_activePage state)\<lparr>ap_firstPageIdWithFilters := Null\<rparr>\<rparr>"
| "networkMessagesReducer state (NETWORK_GET_MESSAGES_SUCCESS payload) =
     (let activePage = setActivePage payload state
      in state\<lparr>nms_messages := payload, nms_activePage := activePage,
               nms_pages := setPages activePage state\<rparr>)"
| "networkMessagesReducer state (NETWORK_GET_FULL_MESSAGE_SUCCESS payload) =
     state\<lparr>nms_activeRowFullMessage := payload\<rparr>"
| "networkMessagesReducer state (NETWORK_GET_MESSAGE_HEX_SUCCESS payload) =
     state\<lparr>nms_activeRowHex := Some payload\<rparr>"
| "networkMessagesReducer state (NETWORK_GET_CONNECTION_SUCCESS payload) =
     state\<lparr>nms_connection := Some payload\<rparr>"
| "networkMessagesReducer state (NETWORK_TOGGLE_FILTER payload) = toggleFilterCase payload state"
| "networkMessagesReducer state (NETWORK_GET_SPECIFIC_MESSAGE _ payload) =
     toggleFilterCase payload state"
| "networkMessagesReducer state (NETWORK_SET_ACTIVE_ROW payload) =
     state\<lparr>nms_activeRow := payload, nms_activeRowFullMessage := None, nms_activeRowHex := None,
           nms_connection := None\<rparr>"
| "networkMessagesReducer state NETWORK_INIT =
     state\<lparr>nms_stream := True,
           nms_activePage := (nms_activePage state)\<lparr>ap_firstPageIdWithFilters := Null\<rparr>\<rparr>"
| "networkMessagesReducer state NETWORK_GO_LIVE =
     state\<lparr>nms_stream := True,
           nms_activePage := (nms_activePage state)\<lparr>ap_firstPageIdWithFilters := Null\<rparr>\<rparr>"
| "networkMessagesReducer state NETWORK_PAUSE = state\<lparr>nms_stream := False\<rparr>"
| "networkMessagesReducer state (NETWORK_GET_PAGINATED_MESSAGES pageId direction timestamp) =
     state\<lparr>nms_stream := False, nms_direction := direction,
           nms_activePage := (nms_activePage state)\<lparr>
             ap_firstPageIdWithFilters :=
               (if pageId = Some 0 then Val (-1)
                else ap_firstPageIdWithFilters (nms_activePage state)),
             ap_lastPageIdWithTimestamp :=
               (case timestamp of
                  None \<Rightarrow> Val (-1)
                | Some ts \<Rightarrow>
                    if truthy_num (ti_to ts) \<and> truthy_num (ti_from ts) then Null else Val (-1))\<rparr>\<rparr>"
| "networkMessagesReducer state (NETWORK_SET_TIMESTAMP_INTERVAL timestamp direction) =
     state\<lparr>nms_stream := False,
           nms_timestamp := \<lparr>ti_from = ti_from timestamp, ti_to = ti_to timestamp\<rparr>,
           nms_direction := direction,
           nms_activePage := emptyActivePage\<lparr>
             ap_firstPageIdWithTimestamp := Null,
             ap_lastPageIdWithTimestamp := Val (-1)\<rparr>,
           nms_pages := []\<rparr>"
| "networkMessagesReducer state (NETWORK_CHANGE_TAB payload) = state\<lparr>nms_activeTab := payload\<rparr>"
| "networkMessagesReducer state NETWORK_CLOSE = networkMessagesInitialState"
| "networkMessagesReducer state (NETWORK_GET_FULL_MESSAGE _) = state"
| "networkMessagesReducer state (NETWORK_GET_MESSAGE_HEX _) = state"
| "networkMessagesReducer state (NETWORK_GET_CONNECTION _) = state"

section \<open>Service\<close>

record rawMessage =
  rm_id :: int
  rm_secs :: int
  rm_nanos :: int
  rm_incoming :: bool
  rm_connection_id :: int
  rm_remote_addr :: string
  rm_size :: int
  rm_stream_kind :: string
  rm_message :: json

fun direction_string :: "NetworkMessagesDirection option \<Rightarrow> string" where
  "direction_string (Some FORWARD) = ''forward''"
| "direction_string (Some REVERSE) = ''reverse''"
| "direction_string None = ''undefined''"

fun filter_type_string :: "NetworkMessagesFilterTypes \<Rightarrow> string" where
  "filter_type_string STREAM_KIND = ''stream_kind''"
| "filter_type_string MESSAGE_KIND = ''message_kind''"
| "filter_type_string ADDRESS = ''addr''"

fun filter_value_string :: "filter_value \<Rightarrow> string" where
  "filter_value_string (FString s) = s"
| "filter_value_string (FNumber i) = show_int i"

definition url_param :: "string \<Rightarrow> int option \<Rightarrow> string" where
  "url_param name v = (case v of
      Some i \<Rightarrow> if i \<noteq> 0 then ''&'' @ name @ ''='' @ show_int i else []
    | None \<Rightarrow> [])"

definition getNetworkMessages_url ::
  "string \<Rightarrow> nat \<Rightarrow> int option \<Rightarrow> NetworkMessagesDirection option \<Rightarrow> NetworkMessagesFilter list
     \<Rightarrow> int option \<Rightarrow> int option \<Rightarrow> string" where
  "getNetworkMessages_url debugger limit fromId direction activeFilters from to =
     debugger @ ''/messages?limit='' @ dec limit @ ''&direction='' @ direction_string direction
     @ url_param ''id'' fromId @ url_param ''timestamp'' from @ url_param ''timestamp_limit'' to
     @ concat (map (\<lambda>filterType.
         let fs = filter (\<lambda>f. nf_type f = filterType) activeFilters
         in if fs \<noteq> []
            then ''&'' @ filter_type_string filterType @ ''='' @
                 join_with '','' (map (\<lambda>f. filter_value_string (nf_value f)) fs)
            else [])
       [STREAM_KIND, MESSAGE_KIND, ADDRESS])"

text \<open>\<open>Number(x.toFixed(1))\<close> on an exact quotient of counts; an absent count makes it \<open>NaN\<close>.\<close>

definition toFixed1 :: "rat \<Rightarrow> rat" where
  "toFixed1 x = of_int \<lfloor>x * 10 + 1 / 2\<rfloor> / 10"

fun json_number :: "json \<Rightarrow> string \<Rightarrow> int option" where
  "json_number (JObj kvs) key =
     (case map_of kvs key of Some (JNum i) \<Rightarrow> Some i | _ \<Rightarrow> None)"
| "json_number _ key = None"

definition getFailedToDecryptPercentage :: "json \<Rightarrow> js_number" where
  "getFailedToDecryptPercentage message =
     (case (json_number message ''total_failed'', json_number message ''total_decrypted'') of
        (Some failed, Some decrypted) \<Rightarrow>
          Finite (toFixed1 (of_int (100 * failed) / of_int (decrypted + failed)))
      | _ \<Rightarrow> NaN)"

text \<open>The timestamp in milliseconds is passed to \<open>toReadableDate\<close>, a parameter.\<close>

definition mapNetworkMessage :: "(rat \<Rightarrow> string) \<Rightarrow> rawMessage \<Rightarrow> NetworkMessage" where
  "mapNetworkMessage toReadableDate message =
     \<lparr>nm_id = rm_id message,
      nm_connectionId = rm_connection_id message,
      nm_address = rm_remote_addr message,
      nm_size = rm_size message,
      nm_incoming = (if rm_incoming message then ''Incoming'' else ''Outgoing''),
      nm_timestamp = toReadableDate (of_int (rm_secs message * 1000) + of_int (rm_nanos message) / 1000000),
      nm_streamKind = rm_stream_kind message,
      nm_messageKind = rm_message message,
      nm_failedToDecryptPercentage =
        (if truthy_num (json_number (rm_message message) ''total_failed'')
         then Some (getFailedToDecryptPercentage (rm_message message)) else None)\<rparr>"

definition mapNetworkMessageResponse ::
  "(rat \<Rightarrow> string) \<Rightarrow> rawMessage list \<Rightarrow> NetworkMessagesDirection option \<Rightarrow> NetworkMessage list" where
  "mapNetworkMessageResponse toReadableDate messages direction =
     map (mapNetworkMessage toReadableDate) (if direction = Some REVERSE then rev messages else messages)"

record rawConnection =
  rc_addr :: string
  rc_pid :: int
  rc_fd :: int
  rc_incoming :: bool
  rc_secs :: int

definition mapNetworkConnectionResponse ::
  "(rat \<Rightarrow> string) \<Rightarrow> rawConnection \<Rightarrow> NetworkMessageConnection" where
  "mapNetworkConnectionResponse toReadableDate connection =
     \<lparr>nc_address = rc_addr connection, nc_pid = rc_pid connection, nc_fd = rc_fd connection,
      nc_incoming = rc_incoming connection,
      nc_timestamp = toReadableDate (of_int (rc_secs connection * 1000))\<rparr>"

section \<open>Effects\<close>

record network_fields =
  streamActive :: bool
  waitingForServer :: bool

text \<open>A request of \<open>getMessages$\<close> with its URL and the direction the response is mapped with.\<close>

type_synonym messages_request = "string \<times> NetworkMessagesDirection option"

fun message_request_args :: "NetworkMessagesActions \<Rightarrow> (int option \<times> int option \<times> int option) option" where
  "message_request_args NETWORK_GET_MESSAGES = Some (None, None, None)"
| "message_request_args NETWORK_GO_LIVE = Some (None, None, None)"
| "message_request_args (NETWORK_GET_PAGINATED_MESSAGES pageId _ ts) =
     Some (pageId, Option.bind ts ti_from, Option.bind ts ti_to)"
| "message_request_args (NETWORK_TOGGLE_FILTER p) =
     Some (None, Option.bind (fp_timestamp p) ti_from, Option.bind (fp_timestamp p) ti_to)"
| "message_request_args (NETWORK_SET_TIMESTAMP_INTERVAL ts _) = Some (None, ti_from ts, ti_to ts)"
| "message_request_args _ = None"

definition getMessages_effect ::
  "string \<Rightarrow> (rat \<Rightarrow> string) \<Rightarrow> string \<Rightarrow>
   (network_fields, NetworkMessagesActions \<times> NetworkMessagesState, messages_request,
    rawMessage list, NetworkMessagesActions dispatched) effect" where
  "getMessages_effect debugger toReadableDate now =
     \<lparr>on_action = (\<lambda>(action, state) f.
        case message_request_args action of
          None \<Rightarrow> (f, Filtered)
        | Some (pageId, from, to) \<Rightarrow>
            (f\<lparr>streamActive := nms_stream state, waitingForServer := True\<rparr>,
             Switch_request (getNetworkMessages_url debugger (nms_limit state) pageId
               (nms_direction state) (nms_activeFilters state) from to, nms_direction state))),
      on_value = (\<lambda>(url, direction) messages f.
        (f\<lparr>waitingForServer := False\<rparr>,
         [Dispatch (NETWORK_GET_MESSAGES_SUCCESS
            (mapNetworkMessageResponse toReadableDate messages direction))])),
      on_error = (\<lambda>e f.
        (f, catchErrorAndRepeat now DEBUGGER (NETWORK_GET_MESSAGES_SUCCESS []) e))\<rparr>"

text \<open>A tick of the timer that \<open>init$\<close> starts.\<close>

definition init_tick :: "network_fields \<Rightarrow> NetworkMessagesActions option" where
  "init_tick f = (if streamActive f \<and> \<not> waitingForServer f then Some NETWORK_GET_MESSAGES else None)"

text \<open>The fields after the \<open>tap\<close>s of the other effects of the class.\<close>

fun fields_tap :: "NetworkMessagesActions \<Rightarrow> NetworkMessagesState \<Rightarrow> network_fields \<Rightarrow> network_fields" where
  "fields_tap NETWORK_INIT state f = f\<lparr>streamActive := nms_stream state\<rparr>"
| "fields_tap (NETWORK_GET_SPECIFIC_MESSAGE _ _) state f = f\<lparr>streamActive := nms_stream state\<rparr>"
| "fields_tap NETWORK_PAUSE state f = f\<lparr>streamActive := False\<rparr>"
| "fields_tap (NETWORK_GET_PAGINATED_MESSAGES _ _ _) state f = f\<lparr>streamActive := False\<rparr>"
| "fields_tap NETWORK_GO_LIVE state f = f\<lparr>streamActive := True\<rparr>"
| "fields_tap NETWORK_CLOSE state f = f\<lparr>streamActive := False\<rparr>"
| "fields_tap _ state f = f"

text \<open>The two requests of \<open>getSpecificMessage$\<close>, and what their responses dispatch.\<close>

definition getSpecificMessage_urls ::
  "string \<Rightarrow> NetworkMessagesState \<Rightarrow> int \<Rightarrow> string \<times> string" where
  "getSpecificMessage_urls debugger state messageId =
     (getNetworkMessages_url debugger (nms_limit state div 2) (Some messageId) (Some REVERSE)
        (nms_activeFilters state) None (ti_to (nms_timestamp state)),
      getNetworkMessages_url debugger (nms_limit state div 2 + 1) (Some messageId) (Some FORWARD)
        (nms_activeFilters state) None (ti_to (nms_timestamp state)))"

definition getSpecificMessage_value ::
  "(rat \<Rightarrow> string) \<Rightarrow> int \<Rightarrow> rawMessage list \<Rightarrow> rawMessage list \<Rightarrow> NetworkMessagesActions list" where
  "getSpecificMessage_value toReadableDate messageId before after =
     (let messages = mapNetworkMessageResponse toReadableDate before (Some REVERSE) @
                     drop 1 (mapNetworkMessageResponse toReadableDate after (Some FORWARD))
      in [NETWORK_GET_MESSAGES_SUCCESS messages,
          NETWORK_SET_ACTIVE_ROW (List.find (\<lambda>m. nm_id m = messageId) messages)])"

text \<open>\<open>setActiveRow$\<close>: which detail request follows the selection of a row or a tab.\<close>

definition setActiveRow_effect :: "NetworkMessagesState \<Rightarrow> NetworkMessagesActions option" where
  "setActiveRow_effect state =
     (case nms_activeRow state of
        None \<Rightarrow> None
      | Some row \<Rightarrow>
          if nms_activeTab state = 1
          then (if (case nms_activeRowFullMessage state of Some m \<Rightarrow> truthy m | None \<Rightarrow> False)
                then None else Some (NETWORK_GET_FULL_MESSAGE (nm_id row)))
          else if nms_activeTab state = 2
          then (if (case nms_activeRowHex state of Some h \<Rightarrow> h \<noteq> [] | None \<Rightarrow> False)
                then None else Some (NETWORK_GET_MESSAGE_HEX (nm_id row)))
          else (if (case nms_connection state of
                      None \<Rightarrow> False | Some (Inl s) \<Rightarrow> s \<noteq> [] | Some (Inr _) \<Rightarrow> True)
                then None else Some (NETWORK_GET_CONNECTION (nm_connectionId row))))"

section \<open>The page list\<close>

fun page_less :: "int option \<Rightarrow> int option \<Rightarrow> bool" where
  "page_less (Some a) (Some b) = (a < b)"
| "page_less (Some a) None = True"
| "page_less None _ = False"

text \<open>Page identifiers strictly increase, with \<open>undefined\<close> at most once and last; the active page is a
  known page and describes the messages shown; without pages it has no end.\<close>

definition networkMessages_inv :: "NetworkMessagesState \<Rightarrow> bool" where
  "networkMessages_inv state \<longleftrightarrow>
     sorted_wrt page_less (nms_pages state) \<and>
     (nms_pages state = [] \<longrightarrow> ap_id (nms_activePage state) = None) \<and>
     (nms_pages state \<noteq> [] \<longrightarrow>
        ap_id (nms_activePage state) \<in> set (nms_pages state) \<and>
        ap_id (nms_activePage state) =
          (if nms_messages state = [] then None else Some (nm_id (last (nms_messages state)))))"

lemma page_sorted_form:
  "sorted_wrt page_less ps \<Longrightarrow>
   \<exists>ns. sorted_wrt (<) ns \<and> (ps = map Some ns \<or> ps = map Some ns @ [None])"
proof (induction ps)
  case (Cons p ps)
  then obtain ns where ns: "sorted_wrt (<) ns" "ps = map Some ns \<or> ps = map Some ns @ [None]"
    by auto
  show ?case
  proof (cases p)
    case None
    with Cons.prems have "ps = []" by (cases ps) auto
    with None show ?thesis by (intro exI [of _ "[]"]) simp
  next
    case (Some a)
    with Cons.prems ns have "sorted_wrt (<) (a # ns)" by auto
    with Some ns(2) show ?thesis by (intro exI [of _ "a # ns"]) auto
  qed
qed simp

lemma sorted_pages_Some [simp]: "sorted_wrt page_less (map Some ns) \<longleftrightarrow> sorted_wrt (<) ns"
  by (simp add: sorted_wrt_map)

lemma sort_strict: "distinct (xs :: int list) \<Longrightarrow> sorted_wrt (<) (sort xs)"
  by (simp add: strict_sorted_iff)

lemma js_sort_numbers_sorted:
  assumes "sorted_wrt page_less ps" and "p \<notin> set ps"
  shows "sorted_wrt page_less (js_sort_numbers (ps @ [p]))"
    and "set (js_sort_numbers (ps @ [p])) = insert p (set ps)"
proof -
  from page_sorted_form [OF assms(1)] obtain ns tl where
    ns: "sorted_wrt (<) ns" and ps: "ps = map Some ns @ tl" and tl: "tl = [] \<or> tl = [None]"
    by (metis append_Nil2)
  have d: "distinct ns" using ns by (simp add: strict_sorted_iff)
  have ftl: "filter (\<lambda>x. x \<noteq> None) tl = []" "filter (\<lambda>x. x = None) tl = tl" using tl by auto
  have *: "map the (filter (\<lambda>x. x \<noteq> None) (map Some ns)) = ns" for ns :: "int list"
    by (induction ns) auto
  have **: "filter (\<lambda>x. x = None) (map Some ns) = []" for ns :: "int list" by simp
  show "sorted_wrt page_less (js_sort_numbers (ps @ [p]))"
    using assms(2) d tl
    by (cases p)
      (auto simp: js_sort_numbers_def ps * ** ftl sorted_wrt_append inj_image_mem_iff
        intro!: sort_strict)
  show "set (js_sort_numbers (ps @ [p])) = insert p (set ps)"
    using tl by (cases p) (auto simp: js_sort_numbers_def ps * ** ftl)
qed

lemma setPages_sorted:
  assumes "sorted_wrt page_less (nms_pages state)"
  shows "sorted_wrt page_less (setPages ap state)" and "ap_id ap \<in> set (setPages ap state)"
  using assms js_sort_numbers_sorted [OF assms, of "ap_id ap"]
  by (auto simp: setPages_def Let_def)

lemma setPages_nonempty: "setPages ap state \<noteq> []"
proof -
  have "set (js_sort_numbers xs) = set xs" for xs by (auto simp: js_sort_numbers_def image_iff)
  from this [of "nms_pages state @ [ap_id ap]"] have "js_sort_numbers (nms_pages state @ [ap_id ap]) \<noteq> []" by fastforce
  then show ?thesis by (auto simp: setPages_def Let_def)
qed

lemma ap_id_setActivePage:
  "ap_id (setActivePage ms state) = (if ms = [] then None else Some (nm_id (last ms)))"
  by (simp add: setActivePage_def emptyActivePage_def Let_def)

lemma networkMessages_inv_success:
  assumes "networkMessages_inv state"
  shows "networkMessages_inv (networkMessagesReducer state (NETWORK_GET_MESSAGES_SUCCESS ms))"
  using assms setPages_sorted [of state "setActivePage ms state"]
  by (simp add: networkMessages_inv_def Let_def ap_id_setActivePage setPages_nonempty del: if_split)

lemma networkMessages_inv_step:
  assumes "networkMessages_inv state"
  shows "networkMessages_inv (networkMessagesReducer state action)"
proof (cases "\<exists>ms. action = NETWORK_GET_MESSAGES_SUCCESS ms")
  case True
  with assms networkMessages_inv_success show ?thesis by blast
next
  case False
  with assms show ?thesis
    by (cases action)
      (auto simp: networkMessages_inv_def toggleFilterCase_def networkMessagesInitialState_def emptyActivePage_def Let_def)
qed

interpretation networkMessages:
  total_reducer_invariant networkMessagesReducer networkMessagesInitialState networkMessages_inv
  by unfold_locales
    (simp_all add: networkMessages_inv_step,
     simp add: networkMessages_inv_def networkMessagesInitialState_def emptyActivePage_def)

text \<open>Whether messages were answered since the last change of a filter or of the time interval, jump to a message, or closing of the page.\<close>

fun answered_step :: "bool \<Rightarrow> NetworkMessagesActions \<Rightarrow> bool" where
  "answered_step b (NETWORK_GET_MESSAGES_SUCCESS _) = True"
| "answered_step b (NETWORK_TOGGLE_FILTER _) = False"
| "answered_step b (NETWORK_GET_SPECIFIC_MESSAGE _ _) = False"
| "answered_step b (NETWORK_SET_TIMESTAMP_INTERVAL _ _) = False"
| "answered_step b NETWORK_CLOSE = False"
| "answered_step b _ = b"

definition answered :: "NetworkMessagesActions list \<Rightarrow> bool" where
  "answered actions = foldl answered_step False actions"

lemma pages_answered:
  "nms_pages (foldl networkMessagesReducer networkMessagesInitialState actions) \<noteq> [] \<longleftrightarrow> answered actions"
proof -
  have step: "nms_pages (networkMessagesReducer state a) \<noteq> [] \<longleftrightarrow> answered_step (nms_pages state \<noteq> []) a" for state a
    by (cases a) (simp_all add: toggleFilterCase_def networkMessagesInitialState_def setPages_nonempty Let_def)
  have "nms_pages (foldl networkMessagesReducer state actions) \<noteq> [] \<longleftrightarrow> foldl answered_step (nms_pages state \<noteq> []) actions" for state
    by (induction actions arbitrary: state) (simp_all add: step)
  then show ?thesis by (simp add: answered_def networkMessagesInitialState_def)
qed

text \<open>C33. The page bookkeeping after every sequence of actions: page identifiers are strictly increasing and distinct, and
  \<open>undefined\<close> (the page of an empty response) can only stand last. Once messages were answered after the last change of a
  filter or of the time interval, jump to a specific message or closing of the page, the active page is one of the known pages and is the one that ends with the
  last message shown; from such a change until the next answer there are no pages and the active page has no end, although
  the messages of the answer before are still shown.\<close>

theorem network_pages_consistent:
  "let state = foldl networkMessagesReducer networkMessagesInitialState actions
   in sorted_wrt page_less (nms_pages state) \<and>
      (if answered actions
       then ap_id (nms_activePage state) \<in> set (nms_pages state) \<and>
         ap_id (nms_activePage state) = (if nms_messages state = [] then None else Some (nm_id (last (nms_messages state))))
       else nms_pages state = [] \<and> ap_id (nms_activePage state) = None)"
  using networkMessages.inv_foldl [of actions] pages_answered [of actions]
  by (auto simp: networkMessages_inv_def Let_def)

section \<open>Filters\<close>

lemma toggledFilters_add_remove:
  assumes "nf_value ` set fs \<inter> nf_value ` set act = {}"
  shows "toggledFilters (p\<lparr>fp_filters := fs, fp_add := False\<rparr>)
           (toggledFilters (q\<lparr>fp_filters := fs, fp_add := True\<rparr>) act) = act"
proof -
  have "filter (\<lambda>f. \<not> (\<exists>fi \<in> set act. nf_value fi = nf_value f)) fs = fs"
    using assms by (force simp: filter_id_conv)
  moreover have "filter (\<lambda>f. \<not> (\<exists>fi \<in> set fs. nf_value fi = nf_value f)) act = act"
    using assms by (force simp: filter_id_conv)
  moreover have "filter (\<lambda>f. \<not> (\<exists>fi \<in> set fs. nf_value fi = nf_value f)) fs = []"
    by (auto simp: filter_empty_conv)
  ultimately show ?thesis by (simp add: toggledFilters_def)
qed

text \<open>Adding filters and removing them again restores the active filters, provided none of their
  values was active before. Every toggle stops the live stream and forgets the pages, and no filter
  of a removed value stays active whatever was active before.\<close>

lemma network_filter_roundtrip:
  assumes "nf_value ` set fs \<inter> nf_value ` set (nms_activeFilters state) = {}"
  shows "let added = networkMessagesReducer state
               (NETWORK_TOGGLE_FILTER (p\<lparr>fp_filters := fs, fp_add := True\<rparr>));
             removed = networkMessagesReducer added
               (NETWORK_TOGGLE_FILTER (q\<lparr>fp_filters := fs, fp_add := False\<rparr>))
         in nms_activeFilters added = nms_activeFilters state @ fs
            \<and> nms_activeFilters removed = nms_activeFilters state
            \<and> \<not> nms_stream removed \<and> nms_pages removed = []"
proof -
  have "toggledFilters (p\<lparr>fp_filters := fs, fp_add := True\<rparr>) (nms_activeFilters state) =
      nms_activeFilters state @ fs"
    using assms by (force simp: toggledFilters_def filter_id_conv)
  with toggledFilters_add_remove [OF assms, of q p] show ?thesis
    by (simp add: toggleFilterCase_def Let_def)
qed

definition demo_filter :: "string \<Rightarrow> NetworkMessagesFilter" where
  "demo_filter v = \<lparr>nf_type = STREAM_KIND, nf_display = v, nf_value = FString v, nf_tooltip = None\<rparr>"

definition demo_payload :: filterPayload where
  "demo_payload = \<lparr>fp_filters = [], fp_add = True, fp_timestamp = None, fp_direction = None\<rparr>"

lemma network_filter_roundtrip_witness:
  "nms_activeFilters (networkMessagesReducer (networkMessagesReducer
     (networkMessagesInitialState\<lparr>nms_activeFilters := [demo_filter ''kad'']\<rparr>)
     (NETWORK_TOGGLE_FILTER (demo_payload\<lparr>fp_filters := [demo_filter ''sub''], fp_add := True\<rparr>)))
     (NETWORK_TOGGLE_FILTER (demo_payload\<lparr>fp_filters := [demo_filter ''sub''], fp_add := False\<rparr>)))
   = [demo_filter ''kad'']"
  using network_filter_roundtrip [of "[demo_filter ''sub'']"
      "networkMessagesInitialState\<lparr>nms_activeFilters := [demo_filter ''kad'']\<rparr>" demo_payload demo_payload]
  by (simp add: demo_filter_def Let_def)

text \<open>A direction given with a filter change has no influence: because \<open>??\<close> binds tighter than
  the conditional operator, any given direction selects \<open>REVERSE\<close>, also \<open>FORWARD\<close>, and only without
  one is the former direction kept while a filter or a start time is set.\<close>

lemma network_toggle_direction:
  "nms_direction (networkMessagesReducer state (NETWORK_TOGGLE_FILTER p)) =
     (case fp_direction p of
        Some d \<Rightarrow> Some REVERSE
      | None \<Rightarrow>
          if toggledFilters p (nms_activeFilters state) = [] \<and> \<not> truthy_num (ti_from (nms_timestamp state))
          then Some REVERSE else nms_direction state)"
  by (auto simp: toggleFilterCase_def Let_def split: option.splits)

section \<open>A specific message\<close>

lemma map_id_response [simp]:
  "map nm_id (mapNetworkMessageResponse dt ms dir) =
     (if dir = Some REVERSE then rev (map rm_id ms) else map rm_id ms)"
  by (simp add: mapNetworkMessageResponse_def mapNetworkMessage_def comp_def rev_map)

lemma find_id_Some:
  assumes "i \<in> set (map nm_id ms)"
  shows "\<exists>row. List.find (\<lambda>m. nm_id m = i) ms = Some row \<and> nm_id row = i \<and> row \<in> set ms"
  using assms by (cases "List.find (\<lambda>m. nm_id m = i) ms") (auto simp: find_None_iff find_Some_iff)

text \<open>C35. Selecting a specific message. The debugger answers the reverse request with messages up to
  the requested one, newest first, and the forward request with messages from the requested one,
  oldest first. Then the merged table is strictly ordered by identifier, holds the requested
  message exactly once and at most \<open>limit\<close> messages, and the row made active is that message.\<close>

theorem network_specific_message:
  assumes before: "sorted_wrt (>) (map rm_id bef)" "\<forall>m \<in> set bef. rm_id m \<le> i" "i \<in> rm_id ` set bef"
    and after: "sorted_wrt (<) (map rm_id aft)" "aft \<noteq> []" "rm_id (hd aft) = i"
    and len: "length bef \<le> nms_limit state div 2" "length aft \<le> nms_limit state div 2 + 1"
  shows "\<exists>ms row.
     getSpecificMessage_value dt i bef aft = [NETWORK_GET_MESSAGES_SUCCESS ms, NETWORK_SET_ACTIVE_ROW (Some row)]
     \<and> sorted_wrt (<) (map nm_id ms) \<and> length ms \<le> nms_limit state
     \<and> row \<in> set ms \<and> nm_id row = i \<and> count_list (map nm_id ms) i = 1"
proof -
  let ?ms = "mapNetworkMessageResponse dt bef (Some REVERSE) @
    drop 1 (mapNetworkMessageResponse dt aft (Some FORWARD))"
  obtain a as where aft: "aft = a # as" using after(2) by (cases aft) auto
  have ids: "map nm_id ?ms = rev (map rm_id bef) @ map rm_id as"
    by (simp only: map_append drop_map [symmetric] map_id_response) (simp add: aft)
  have srt: "sorted_wrt (<) (map nm_id ?ms)"
    using before after aft unfolding ids by (force simp: sorted_wrt_append sorted_wrt_rev)
  have "i \<in> set (map nm_id ?ms)" using before(3) unfolding ids by auto
  with find_id_Some obtain row where "List.find (\<lambda>m. nm_id m = i) ?ms = Some row" "nm_id row = i" "row \<in> set ?ms"
    by blast
  moreover have "length ?ms \<le> nms_limit state"
    using len by (simp add: mapNetworkMessageResponse_def)
  moreover have "count_list (map nm_id ?ms) i = 1"
    using srt \<open>i \<in> set (map nm_id ?ms)\<close>
    by (intro distinct_count_list_one) (auto simp: strict_sorted_iff)
  ultimately show ?thesis using srt by (auto simp: getSpecificMessage_value_def Let_def)
qed

definition demo_raw :: "int \<Rightarrow> rawMessage" where
  "demo_raw i = \<lparr>rm_id = i, rm_secs = 0, rm_nanos = 0, rm_incoming = True, rm_connection_id = 1,
     rm_remote_addr = ''a'', rm_size = 1, rm_stream_kind = ''kad'', rm_message = JStr ''ping''\<rparr>"

theorem network_specific_message_witness:
  "\<exists>ms row. getSpecificMessage_value (\<lambda>_. []) 5 (map demo_raw [5, 4, 2]) (map demo_raw [5, 7]) =
     [NETWORK_GET_MESSAGES_SUCCESS ms, NETWORK_SET_ACTIVE_ROW (Some row)]
     \<and> sorted_wrt (<) (map nm_id ms) \<and> row \<in> set ms \<and> nm_id row = 5"
  using network_specific_message [of "map demo_raw [5, 4, 2]" 5 "map demo_raw [5, 7]"
      networkMessagesInitialState "\<lambda>_. []"]
  by (auto simp: demo_raw_def networkMessagesInitialState_def)

section \<open>Polling\<close>

text \<open>One tick of the timer: when the tick passes the filter of \<open>init$\<close>, \<open>NETWORK_GET_MESSAGES\<close> is
  dispatched, reduced and picked up by \<open>getMessages$\<close>.\<close>

definition poll_tick ::
  "string \<Rightarrow> (rat \<Rightarrow> string) \<Rightarrow> string \<Rightarrow> NetworkMessagesState
     \<Rightarrow> (network_fields, messages_request) rx_state \<Rightarrow> (network_fields, messages_request) rx_state" where
  "poll_tick debugger dt now state s =
     (case init_tick (fst s) of
        None \<Rightarrow> s
      | Some a \<Rightarrow>
          (case rx_apply (getMessages_effect debugger dt now)
                  (Rx_action (a, networkMessagesReducer state a)) s of
             None \<Rightarrow> s
           | Some (_, s') \<Rightarrow> s'))"

lemmas polling_defs = getMessages_effect_def poll_tick_def init_tick_def catchErrorAndRepeat_def

lemma waiting_blocks_ticks:
  "waitingForServer (fst s) \<Longrightarrow> (poll_tick debugger dt now state ^^ n) s = s"
  by (induction n) (simp_all add: polling_defs)

text \<open>Polling of a live view. After a response, the next tick of the timer sends the next request.
  After a failed request it never does: the field \<open>waitingForServer\<close> is cleared by a \<open>tap\<close> before
  \<open>catchErrorAndRepeat\<close>, which an error skips, so any number of ticks leaves the page without a
  request in flight while the stream still counts as active.\<close>

lemma network_polling:
  assumes "streamActive f" and "waitingForServer f"
  shows "(rx_step (getMessages_effect debugger dt now) (f, Some q) (Rx_value raws) out s \<longrightarrow>
            snd s = None \<and> snd (poll_tick debugger dt now state s) \<noteq> None)
       \<and> (rx_step (getMessages_effect debugger dt now) (f, Some q) (Rx_error e) out s \<longrightarrow>
            streamActive (fst s) \<and> snd s = None \<and>
            snd ((poll_tick debugger dt now state ^^ n) s) = None)"
  using assms waiting_blocks_ticks [of s n debugger dt now state]
  by (auto simp: polling_defs split: prod.splits)

definition demo_error :: http_error where
  "demo_error = \<lparr>err_message = ''x'', err_status = None\<rparr>"

lemma network_polling_witness:
  "snd ((poll_tick ''h'' (\<lambda>_. []) ''t'' networkMessagesInitialState ^^ 3)
     (\<lparr>streamActive = True, waitingForServer = True\<rparr>, None)) = None"
  using network_polling [of "\<lparr>streamActive = True, waitingForServer = True\<rparr>" "''h''" "\<lambda>_. []" "''t''"
      "(''u'', Some REVERSE)" "[]"
      "catchErrorAndRepeat ''t'' DEBUGGER (NETWORK_GET_MESSAGES_SUCCESS []) demo_error"
      "(\<lparr>streamActive = True, waitingForServer = True\<rparr>, None)" networkMessagesInitialState demo_error 3]
  by (simp add: getMessages_effect_def)

end
