(* ===== verification/Network_Splits.thy ===== *)
theory Network_Splits
  imports Effect_Pipeline
begin

text \<open>
  The network splits page (\<open>features/network/splits\<close>): the peers of several nodes and the links
  between them are merged into one graph, which is cut into its connected parts. The service
  removes duplicated peers, the reducer computes the parts by a breadth-first search
  (\<open>splitThePeers\<close>), and two operations put every second node behind a firewall and merge them again.

  Peers are objects, compared by identity in the search: an object is the index of a peer in the
  list, and \<open>undefined\<close>, which \<open>find\<close> returns for a link to an unknown address, is \<open>None\<close>. Reading a
  field of \<open>undefined\<close> is \<open>TypeError\<close>.
\<close>

section \<open>State and actions\<close>

record DashboardSplitsPeer =
  dp_address :: string
  dp_peerId :: "string option"
  dp_node :: "string option"
  dp_radius :: "nat option"
  dp_outgoingConnections :: "nat option"
  dp_incomingConnections :: "nat option"

record DashboardSplitsLink =
  dl_source :: string
  dl_target :: string

record DashboardSplitsSet =
  set_peers :: "DashboardSplitsPeer list"

record DashboardSplits =
  ds_peers :: "DashboardSplitsPeer list"
  ds_links :: "DashboardSplitsLink list"

record DashboardNodeCount =
  nc_nodes :: nat
  nc_producers :: nat
  nc_snarkers :: nat
  nc_seeders :: nat
  nc_transactionGenerators :: nat

record DashboardSplitsState =
  sp_peers :: "DashboardSplitsPeer list"
  sp_links :: "DashboardSplitsLink list"
  sp_sets :: "DashboardSplitsSet list"
  sp_activePeer :: "DashboardSplitsPeer option"
  sp_networkSplitsDetails :: "string option"
  sp_networkMergeDetails :: "string option"
  sp_nodeStats :: "DashboardNodeCount option"
  sp_fetching :: bool
  sp_sort :: tableSort
  sp_openSidePanel :: bool

datatype DashboardSplitsActions =
    DASHBOARD_SPLITS_CLOSE
  | DASHBOARD_SPLITS_GET_SPLITS
  | DASHBOARD_SPLITS_GET_SPLITS_SUCCESS DashboardSplits
  | DASHBOARD_SPLITS_SET_ACTIVE_PEER "DashboardSplitsPeer option"
  | DASHBOARD_SPLITS_SPLIT_NODES
  | DASHBOARD_SPLITS_SPLIT_NODES_SUCCESS
  | DASHBOARD_SPLITS_MERGE_NODES
  | DASHBOARD_SPLITS_MERGE_NODES_SUCCESS
  | DASHBOARD_SPLITS_SORT_PEERS tableSort
  | DASHBOARD_SPLITS_TOGGLE_SIDE_PANEL

section \<open>Reducer\<close>

definition outgoingDsc :: tableSort where
  "outgoingDsc = \<lparr>sortBy = ''outgoingConnections'', sortDirection = DSC\<rparr>"

definition splitsInitialState :: "bool \<Rightarrow> DashboardSplitsState" where
  "splitsInitialState isMobile =
     \<lparr>sp_peers = [], sp_links = [], sp_sets = [], sp_activePeer = None,
      sp_networkSplitsDetails = None, sp_networkMergeDetails = None, sp_nodeStats = None,
      sp_fetching = True, sp_sort = outgoingDsc, sp_openSidePanel = \<not> isMobile\<rparr>"

definition getRadius :: "string \<Rightarrow> DashboardSplitsLink list \<Rightarrow> nat" where
  "getRadius address links =
     (let occurrence = length (filter (\<lambda>link. dl_source link = address \<or> dl_target link = address) links)
      in if occurrence < 6 then 4
         else if occurrence < 8 then 6
         else if occurrence < 10 then 8
         else if occurrence < 12 then 10
         else if occurrence < 14 then 12
         else 14)"

definition getNodeCount :: "string list \<Rightarrow> DashboardNodeCount" where
  "getNodeCount urls =
     \<lparr>nc_nodes = length (filter (\<lambda>url. js_includes url ''node'') urls),
      nc_producers = length (filter (\<lambda>url. js_includes url ''prod'') urls),
      nc_snarkers = length (filter (\<lambda>url. js_includes url ''snarker'') urls),
      nc_seeders = length (filter (\<lambda>url. js_includes url ''seed'') urls),
      nc_transactionGenerators = length (filter (\<lambda>url. js_includes url ''transaction-generator'') urls)\<rparr>"

text \<open>The pushes of the inner loop over the links, for the peer at address \<open>a\<close>.\<close>

definition find_peer :: "DashboardSplitsPeer list \<Rightarrow> string \<Rightarrow> nat option" where
  "find_peer peers a = find_index (\<lambda>p. dp_address p = a) peers"

definition link_pushes ::
  "DashboardSplitsPeer list \<Rightarrow> DashboardSplitsLink list \<Rightarrow> string list \<Rightarrow> string \<Rightarrow> nat option list" where
  "link_pushes peers links visited a =
     concat (map (\<lambda>link.
       if dl_source link = a \<and> dl_target link \<notin> set visited then [find_peer peers (dl_target link)]
       else if dl_target link = a \<and> dl_source link \<notin> set visited
       then [find_peer peers (dl_source link)]
       else []) links)"

text \<open>The object a reference of the queue stands for.\<close>

definition deref :: "DashboardSplitsPeer list \<Rightarrow> nat option \<Rightarrow> nat option" where
  "deref peers r = (case r of None \<Rightarrow> None | Some i \<Rightarrow> if i < length peers then Some i else None)"

text \<open>The loop over the queue: \<open>visited\<close> are addresses, \<open>current\<close> the set of peers of the part in
  insertion order.\<close>

function split_queue ::
  "DashboardSplitsPeer list \<Rightarrow> DashboardSplitsLink list \<Rightarrow> string list \<Rightarrow> nat list \<Rightarrow> nat option list
     \<Rightarrow> js_error + (string list \<times> nat list)" where
  "split_queue peers links visited current [] = Inr (visited, current)"
| "split_queue peers links visited current (r # queue) =
     (case deref peers r of
        None \<Rightarrow> Inl TypeError
      | Some i \<Rightarrow>
          if i \<in> set current then split_queue peers links visited current queue
          else let a = dp_address (peers ! i); visited' = visited @ [a]
               in split_queue peers links visited' (current @ [i])
                    (queue @ link_pushes peers links visited' a))"
  by pat_completeness auto

termination
proof (relation "measures [\<lambda>(peers, links, visited, current, queue). card ({..<length peers} - set current),
    \<lambda>(peers, links, visited, current, queue). length queue]", goal_cases)
  case (3 peers links visited current r queue i a visited')
  then have "i < length peers" "i \<notin> set current" by (auto simp: deref_def split: option.splits if_splits)
  then have "card ({..<length peers} - insert i (set current)) < card ({..<length peers} - set current)"
    by (intro psubset_card_mono) auto
  then show ?case by simp
qed auto

definition sortPeers ::
  "DashboardSplitsPeer sorter \<Rightarrow> DashboardSplitsPeer list \<Rightarrow> tableSort \<Rightarrow> DashboardSplitsPeer list" where
  "sortPeers srt messages tableSort = srt messages tableSort"

fun split_loop ::
  "DashboardSplitsPeer sorter \<Rightarrow> DashboardSplitsPeer list \<Rightarrow> DashboardSplitsLink list
     \<Rightarrow> string list \<Rightarrow> DashboardSplitsSet list \<Rightarrow> nat list \<Rightarrow> js_error + DashboardSplitsSet list" where
  "split_loop srt peers links visited sets [] = Inr sets"
| "split_loop srt peers links visited sets (i # is) =
     (if dp_address (peers ! i) \<in> set visited then split_loop srt peers links visited sets is
      else case split_queue peers links visited [] [Some i] of
             Inl e \<Rightarrow> Inl e
           | Inr (visited', current) \<Rightarrow>
               split_loop srt peers links visited'
                 (sets @ [\<lparr>set_peers = sortPeers srt (map (\<lambda>j. peers ! j) current) outgoingDsc\<rparr>]) is)"

definition splitThePeers ::
  "DashboardSplitsPeer sorter \<Rightarrow> DashboardSplitsPeer list \<Rightarrow> DashboardSplitsLink list
     \<Rightarrow> js_error + DashboardSplitsSet list" where
  "splitThePeers srt peers links = split_loop srt peers links [] [] [0..<length peers]"

definition countedPeers :: "DashboardSplits \<Rightarrow> DashboardSplitsPeer list" where
  "countedPeers payload =
     map (\<lambda>p. p\<lparr>dp_radius := Some (getRadius (dp_address p) (ds_links payload)),
       dp_outgoingConnections :=
         Some (length (filter (\<lambda>l. dl_source l = dp_address p) (ds_links payload))),
       dp_incomingConnections :=
         Some (length (filter (\<lambda>l. dl_target l = dp_address p) (ds_links payload)))\<rparr>) (ds_peers payload)"

definition resortSet :: "DashboardSplitsPeer sorter \<Rightarrow> tableSort \<Rightarrow> DashboardSplitsSet \<Rightarrow> DashboardSplitsSet" where
  "resortSet srt ts s = s\<lparr>set_peers := sortPeers srt (set_peers s) ts\<rparr>"

text \<open>\<open>now\<close> is \<open>toReadableDate(Date.now(), noMillisFormat)\<close>.\<close>

fun topologyReducer ::
  "DashboardSplitsPeer sorter \<Rightarrow> bool \<Rightarrow> string \<Rightarrow> DashboardSplitsState \<Rightarrow> DashboardSplitsActions
     \<Rightarrow> js_error + DashboardSplitsState" where
  "topologyReducer srt isMobile now state DASHBOARD_SPLITS_GET_SPLITS =
     Inr (state\<lparr>sp_activePeer := None, sp_fetching := True\<rparr>)"
| "topologyReducer srt isMobile now state (DASHBOARD_SPLITS_GET_SPLITS_SUCCESS payload) =
     (let peers = countedPeers payload
      in case splitThePeers srt peers (ds_links payload) of
           Inl e \<Rightarrow> Inl e
         | Inr sets \<Rightarrow> Inr (state\<lparr>
             sp_peers := peers,
             sp_sets := map (resortSet srt (sp_sort state)) sets,
             sp_links := ds_links payload,
             sp_nodeStats := Some (getNodeCount (map (\<lambda>p. case dp_node p of
                 None \<Rightarrow> ''node''
               | Some n \<Rightarrow> if n = [] then ''node'' else js_toLowerCase n) peers)),
             sp_fetching := False\<rparr>))"
| "topologyReducer srt isMobile now state (DASHBOARD_SPLITS_SET_ACTIVE_PEER payload) =
     Inr (state\<lparr>sp_activePeer := payload, sp_openSidePanel := True\<rparr>)"
| "topologyReducer srt isMobile now state DASHBOARD_SPLITS_SPLIT_NODES =
     Inr (state\<lparr>sp_networkSplitsDetails := Some (''Last split: '' @ now)\<rparr>)"
| "topologyReducer srt isMobile now state DASHBOARD_SPLITS_MERGE_NODES =
     Inr (state\<lparr>sp_networkMergeDetails := Some (''Last merge: '' @ now)\<rparr>)"
| "topologyReducer srt isMobile now state (DASHBOARD_SPLITS_SORT_PEERS payload) =
     Inr (state\<lparr>sp_sort := payload, sp_sets := map (resortSet srt payload) (sp_sets state)\<rparr>)"
| "topologyReducer srt isMobile now state DASHBOARD_SPLITS_TOGGLE_SIDE_PANEL =
     Inr (state\<lparr>sp_openSidePanel := \<not> sp_openSidePanel state\<rparr>)"
| "topologyReducer srt isMobile now state DASHBOARD_SPLITS_CLOSE = Inr (splitsInitialState isMobile)"
| "topologyReducer srt isMobile now state DASHBOARD_SPLITS_SPLIT_NODES_SUCCESS = Inr state"
| "topologyReducer srt isMobile now state DASHBOARD_SPLITS_MERGE_NODES_SUCCESS = Inr state"

section \<open>Service\<close>

record GetPeersResponse =
  gp_hosts :: "string list"
  gp_externalIp :: string

text \<open>\<open>node.replace(/(\d+)/g, ' $1')\<close>: a space before every maximal run of digits.\<close>

fun space_digits :: "bool \<Rightarrow> string \<Rightarrow> string" where
  "space_digits inRun [] = []"
| "space_digits inRun (c # cs) =
     (if js_isDigit c then (if inRun then [c] else [CHR '' '', c]) @ space_digits True cs
      else c # space_digits False cs)"

definition nodeLabel :: "string \<Rightarrow> string" where
  "nodeLabel node = space_digits False (map upper_char (take 1 node) @ drop 1 node)"

definition nodeMap :: "(GetPeersResponse \<times> string) list \<Rightarrow> string \<rightharpoonup> string" where
  "nodeMap array = foldl (\<lambda>m (data, node). m(gp_externalIp data \<mapsto> nodeLabel node)) Map.empty array"

definition newPeer :: "string \<Rightarrow> string option \<Rightarrow> DashboardSplitsPeer" where
  "newPeer address node = \<lparr>dp_address = address, dp_peerId = None, dp_node = node, dp_radius = None,
     dp_outgoingConnections = None, dp_incomingConnections = None\<rparr>"

definition peersReduce ::
  "(string \<rightharpoonup> string) \<Rightarrow> DashboardSplits \<Rightarrow> GetPeersResponse \<times> string \<Rightarrow> DashboardSplits" where
  "peersReduce m acc entry =
     (let data = fst entry
      in \<lparr>ds_peers = ds_peers acc @
            map (\<lambda>host. newPeer host (m host)) (take 10 (gp_hosts data)) @
            [newPeer (gp_externalIp data) (m (gp_externalIp data)),
             newPeer ''rand'' (Some ''seed16''), newPeer ''rand2'' (Some ''seed15'')],
          ds_links = ds_links acc @
            map (\<lambda>host. \<lparr>dl_source = gp_externalIp data, dl_target = host\<rparr>) (take 10 (gp_hosts data)) @
            [\<lparr>dl_source = ''rand2'', dl_target = ''rand''\<rparr>]\<rparr>)"

definition removeDuplicatedPeers :: "DashboardSplits \<Rightarrow> DashboardSplits" where
  "removeDuplicatedPeers response =
     (let peers = ds_peers response
      in response\<lparr>ds_peers := map (\<lambda>i. peers ! i)
           (filter (\<lambda>index. find_peer peers (dp_address (peers ! index)) = Some index) [0..<length peers])\<rparr>)"

text \<open>\<open>array\<close> is the list of responses, one per node.\<close>

definition getPeers :: "(GetPeersResponse \<times> string) list \<Rightarrow> DashboardSplits" where
  "getPeers array =
     removeDuplicatedPeers (foldl (peersReduce (nodeMap array)) \<lparr>ds_peers = [], ds_links = []\<rparr> array)"

text \<open>\<open>Number(c) % 2\<close> on one character: a digit, white space (zero) or \<open>NaN\<close>.\<close>

definition even_char :: "char \<Rightarrow> bool" where
  "even_char c =
     (if js_isDigit c then even (digit_value c)
      else of_char c \<in> ({9, 10, 11, 12, 13, 32} :: nat set))"

definition namedPeers :: "DashboardSplitsPeer list \<Rightarrow> (string \<times> string) list" where
  "namedPeers peers =
     concat (map (\<lambda>p. case dp_node p of None \<Rightarrow> [] | Some n \<Rightarrow> if n = [] then [] else [(n, dp_address p)]) peers)"

definition nodeName :: "string \<Rightarrow> string" where
  "nodeName node = js_remove_first (CHR '' '') (js_toLowerCase node)"

record firewallRequest =
  fw_url :: string
  fw_ips :: "string list"

definition hostOf :: "string \<Rightarrow> string" where
  "hostOf address = takeWhile (\<lambda>c. c \<noteq> CHR '':'') address"

text \<open>\<open>configs\<close> lists the name and the debugger address of each configured node.\<close>

fun whitelistRequests ::
  "(string \<times> string option) list \<Rightarrow> string \<Rightarrow> string list \<Rightarrow> (string \<times> string) list
     \<Rightarrow> js_error + firewallRequest list" where
  "whitelistRequests configs path ips [] = Inr []"
| "whitelistRequests configs path ips ((node, _) # ns) =
     (case List.find (\<lambda>c. fst c = nodeName node) configs of
        None \<Rightarrow> Inl TypeError
      | Some (_, debugger) \<Rightarrow>
          (case whitelistRequests configs path ips ns of
             Inl e \<Rightarrow> Inl e
           | Inr rs \<Rightarrow> Inr (\<lparr>fw_url = (case debugger of None \<Rightarrow> ''undefined'' | Some d \<Rightarrow> d) @ path,
                             fw_ips = ips\<rparr> # rs)))"

definition splitSides ::
  "DashboardSplitsPeer list \<Rightarrow> (string \<times> string) list \<times> (string \<times> string) list" where
  "splitSides peers =
     (filter (\<lambda>(n, _). even_char (last n)) (namedPeers peers),
      filter (\<lambda>(n, _). \<not> even_char (last n)) (namedPeers peers))"

definition splitNodes ::
  "(string \<times> string option) list \<Rightarrow> DashboardSplitsPeer list
     \<Rightarrow> js_error + (firewallRequest list \<times> firewallRequest list)" where
  "splitNodes configs peers =
     (let (leftList, rightList) = splitSides peers;
          ips = (\<lambda>ns. map (\<lambda>(_, a). hostOf a) ns)
      in case whitelistRequests configs ''/firewall/whitelist/enable'' (ips leftList) leftList of
           Inl e \<Rightarrow> Inl e
         | Inr ls \<Rightarrow>
             (case whitelistRequests configs ''/firewall/whitelist/enable'' (ips rightList) rightList of
                Inl e \<Rightarrow> Inl e
              | Inr rs \<Rightarrow> Inr (ls, rs)))"

definition mergeNodes ::
  "(string \<times> string option) list \<Rightarrow> DashboardSplitsPeer list \<Rightarrow> js_error + firewallRequest list" where
  "mergeNodes configs peers =
     whitelistRequests configs ''/firewall/whitelist/disable'' [] (namedPeers peers)"

section \<open>Effects\<close>

text \<open>\<open>getSplits$\<close>: the request is \<open>getPeers\<close>, its response the list of node responses.\<close>

definition getSplits_effect ::
  "string \<Rightarrow> (unit, DashboardSplitsActions, unit, (GetPeersResponse \<times> string) list,
     DashboardSplitsActions dispatched) effect" where
  "getSplits_effect now =
     \<lparr>on_action = (\<lambda>action f. (f, case action of
          DASHBOARD_SPLITS_CLOSE \<Rightarrow> Switch_empty
        | DASHBOARD_SPLITS_GET_SPLITS \<Rightarrow> Switch_request ()
        | _ \<Rightarrow> Filtered)),
      on_value = (\<lambda>_ array f. (f, [Dispatch (DASHBOARD_SPLITS_GET_SPLITS_SUCCESS (getPeers array))])),
      on_error = (\<lambda>e f. (f, catchErrorAndRepeat now RUST
        (DASHBOARD_SPLITS_GET_SPLITS_SUCCESS \<lparr>ds_peers = [], ds_links = []\<rparr>) e))\<rparr>"

interpretation splits_close: cancel_on_close "getSplits_effect now" "\<lambda>a. a = DASHBOARD_SPLITS_CLOSE"
  by unfold_locales (simp add: getSplits_effect_def)

section \<open>The parts of the graph\<close>

definition adj :: "DashboardSplitsLink list \<Rightarrow> (string \<times> string) set" where
  "adj links = (\<lambda>l. (dl_source l, dl_target l)) ` set links \<union> (\<lambda>l. (dl_target l, dl_source l)) ` set links"

definition linked :: "DashboardSplitsLink list \<Rightarrow> string \<Rightarrow> string \<Rightarrow> bool" where
  "linked links a b \<longleftrightarrow> (a, b) \<in> (adj links)\<^sup>*"

text \<open>What the search needs of its input: no address twice, and no link to an unknown address.\<close>

definition splits_wf :: "DashboardSplitsPeer list \<Rightarrow> DashboardSplitsLink list \<Rightarrow> bool" where
  "splits_wf peers links \<longleftrightarrow> distinct (map dp_address peers) \<and>
     (\<forall>l \<in> set links. dl_source l \<in> dp_address ` set peers \<and> dl_target l \<in> dp_address ` set peers)"

abbreviation addr :: "DashboardSplitsPeer list \<Rightarrow> nat \<Rightarrow> string" where
  "addr peers i \<equiv> dp_address (peers ! i)"

lemma adj_sym: "sym (adj links)"
  by (auto simp: sym_def adj_def)

lemma sym_adj_rtrancl: "(a, b) \<in> (adj links)\<^sup>* \<Longrightarrow> (b, a) \<in> (adj links)\<^sup>*"
  using sym_rtrancl [OF adj_sym] by (auto dest: symD)

lemma find_peer_known:
  assumes "a \<in> dp_address ` set peers"
  obtains i where "find_peer peers a = Some i" "i < length peers" "addr peers i = a"
  using assms find_index_SomeD [of "\<lambda>p. dp_address p = a" peers]
  by (cases "find_peer peers a") (auto simp: find_peer_def)

lemma addr_inj:
  "splits_wf peers links \<Longrightarrow> i < length peers \<Longrightarrow> j < length peers \<Longrightarrow> addr peers i = addr peers j \<Longrightarrow> i = j"
  by (auto simp: splits_wf_def distinct_conv_nth)

lemma adj_known: "splits_wf peers links \<Longrightarrow> (a, b) \<in> adj links \<Longrightarrow> b \<in> dp_address ` set peers"
  by (auto simp: splits_wf_def adj_def)

lemma set_link_pushes:
  assumes "a \<in> set visited"
  shows "set (link_pushes peers links visited a) =
    find_peer peers ` {b. (a, b) \<in> adj links \<and> b \<notin> set visited}"
  using assms by (auto simp: link_pushes_def adj_def split: if_splits)

lemma rtrancl_image_refl: "A \<subseteq> R\<^sup>* `` A"
  by auto

lemma rtrancl_image_trans:
  assumes "A \<subseteq> R\<^sup>* `` B" and "B \<subseteq> R\<^sup>* `` C"
  shows "A \<subseteq> R\<^sup>* `` C"
  using assms by (blast intro: rtrancl_trans)

text \<open>Each entry of the queue is a peer outside the parts found before.\<close>

definition queue_ok :: "DashboardSplitsPeer list \<Rightarrow> string set \<Rightarrow> nat option list \<Rightarrow> bool" where
  "queue_ok peers X queue \<longleftrightarrow> (\<forall>r \<in> set queue. \<exists>i < length peers. r = Some i \<and> addr peers i \<notin> X)"

definition current_ok :: "DashboardSplitsPeer list \<Rightarrow> string set \<Rightarrow> string list \<Rightarrow> nat list \<Rightarrow> bool" where
  "current_ok peers X visited current \<longleftrightarrow>
     set visited = X \<union> addr peers ` set current \<and> set current \<subseteq> {..<length peers} \<and>
     distinct current \<and> addr peers ` set current \<inter> X = {}"

lemma pushes_ok:
  assumes "splits_wf peers links" and "a \<in> set visited" and "X \<subseteq> set visited"
  shows "queue_ok peers X (link_pushes peers links visited a)"
    and "(\<lambda>r. addr peers (the r)) ` set (link_pushes peers links visited a) =
      {b. (a, b) \<in> adj links \<and> b \<notin> set visited}"
proof -
  have *: "\<exists>i < length peers. find_peer peers b = Some i \<and> addr peers i = b" if "(a, b) \<in> adj links" for b
    using adj_known [OF assms(1) that] by (metis find_peer_known)
  show "queue_ok peers X (link_pushes peers links visited a)"
    using * assms by (fastforce simp: queue_ok_def set_link_pushes)
  show "(\<lambda>r. addr peers (the r)) ` set (link_pushes peers links visited a) =
      {b. (a, b) \<in> adj links \<and> b \<notin> set visited}"
    using * assms by (force simp: set_link_pushes image_image image_iff)
qed

lemma current_ok_snoc:
  assumes "splits_wf peers links" "current_ok peers X visited current"
    "i < length peers" "i \<notin> set current" "addr peers i \<notin> X"
  shows "current_ok peers X (visited @ [addr peers i]) (current @ [i])"
  using assms addr_inj [OF assms(1)] by (auto simp: current_ok_def)

lemma split_queue_part:
  assumes "splits_wf peers links" and "adj links `` X \<subseteq> X"
    and "current_ok peers X visited current" and "queue_ok peers X queue"
    and "adj links `` (addr peers ` set current) \<subseteq>
           addr peers ` set current \<union> (\<lambda>r. addr peers (the r)) ` set queue"
  shows "\<exists>visited' current'.
     split_queue peers links visited current queue = Inr (visited', current') \<and>
     current_ok peers X visited' current' \<and>
     adj links `` (addr peers ` set current') \<subseteq> addr peers ` set current' \<and>
     addr peers ` set current \<union> (\<lambda>r. addr peers (the r)) ` set queue \<subseteq> addr peers ` set current' \<and>
     addr peers ` set current' \<subseteq>
       (adj links)\<^sup>* `` (addr peers ` set current \<union> (\<lambda>r. addr peers (the r)) ` set queue)"
  using assms
proof (induction peers links visited current queue rule: split_queue.induct)
  case (1 peers links visited current)
  then show ?case by auto
next
  case (2 peers links visited current r queue)
  note wf = "2.prems"(1) and closed = "2.prems"(2) and cur = "2.prems"(3) and nbrs = "2.prems"(5)
  let ?A = "\<lambda>c. addr peers ` set c" and ?Q = "\<lambda>q. (\<lambda>r. addr peers (the r)) ` set q"
  from "2.prems"(4) obtain i where r: "r = Some i" and i: "i < length peers" "addr peers i \<notin> X"
    by (auto simp: queue_ok_def)
  then have d: "deref peers r = Some i" by (simp add: deref_def)
  have q: "queue_ok peers X queue" using "2.prems"(4) by (simp add: queue_ok_def)
  show ?case
  proof (cases "i \<in> set current")
    case True
    then have "?A current \<union> ?Q (r # queue) = ?A current \<union> ?Q queue" by (auto simp: r)
    with "2.IH"(1) [OF d True wf closed cur q] nbrs True show ?thesis by (simp add: d)
  next
    case False
    let ?a = "addr peers i" let ?v = "visited @ [addr peers i]" let ?c = "current @ [i]"
    let ?q = "queue @ link_pushes peers links ?v ?a"
    have v: "?a \<in> set ?v" "X \<subseteq> set ?v" using cur by (auto simp: current_ok_def)
    note p = pushes_ok [OF wf v]
    have cur': "current_ok peers X ?v ?c" using current_ok_snoc [OF wf cur i(1) False i(2)] .
    have q': "queue_ok peers X ?q" using q p(1) by (auto simp: queue_ok_def)
    have outX: "b \<notin> X" if "(?a, b) \<in> adj links" for b
      using that i(2) closed adj_sym [of links] by (auto dest: symD)
    have nbrs': "adj links `` ?A ?c \<subseteq> ?A ?c \<union> ?Q ?q"
    proof -
      have "adj links `` ?A current \<subseteq> ?A ?c \<union> ?Q ?q" using nbrs by (auto simp: r)
      moreover have "y \<in> ?A ?c \<union> ?Q ?q" if "(?a, y) \<in> adj links" for y
      proof (cases "y \<in> set ?v")
        case True
        with outX [OF that] cur show ?thesis by (auto simp: current_ok_def)
      next
        case False
        with that p(2) have "y \<in> ?Q (link_pushes peers links ?v ?a)" by blast
        then show ?thesis by (simp add: image_Un)
      qed
      ultimately have "adj links `` ?A current \<union> adj links `` {?a} \<subseteq> ?A ?c \<union> ?Q ?q"
        by (intro Un_least) (simp_all add: subset_iff)
      moreover have "?A ?c = ?A current \<union> {?a}" by simp
      ultimately show ?thesis by (simp only: Image_Un)
    qed
    have sub: "?A current \<union> ?Q (r # queue) \<subseteq> ?A ?c \<union> ?Q ?q" by (auto simp: r)
    have "?Q ?q \<subseteq> ?Q queue \<union> adj links `` {?a}" using p(2) by (auto simp: image_Un)
    then have "?A ?c \<union> ?Q ?q \<subseteq> (?A current \<union> ?Q (r # queue)) \<union> adj links `` {?a}"
      by (auto simp: r)
    also have "\<dots> \<subseteq> (adj links)\<^sup>* `` (?A current \<union> ?Q (r # queue))"
    proof (rule Un_least [OF rtrancl_image_refl])
      show "adj links `` {?a} \<subseteq> (adj links)\<^sup>* `` (?A current \<union> ?Q (r # queue))" by (auto simp: r)
    qed
    finally have sup: "?A ?c \<union> ?Q ?q \<subseteq> (adj links)\<^sup>* `` (?A current \<union> ?Q (r # queue))" .
    obtain v2 c2 where
      res: "split_queue peers links ?v ?c ?q = Inr (v2, c2)" "current_ok peers X v2 c2"
      "adj links `` ?A c2 \<subseteq> ?A c2" "?A ?c \<union> ?Q ?q \<subseteq> ?A c2"
      "?A c2 \<subseteq> (adj links)\<^sup>* `` (?A ?c \<union> ?Q ?q)"
      using "2.IH"(2) [OF d False refl refl wf closed cur' q' nbrs'] by (elim exE conjE) (rule that)
    have "?A c2 \<subseteq> (adj links)\<^sup>* `` (?A current \<union> ?Q (r # queue))"
      using res(5) sup by (rule rtrancl_image_trans)
    with res sub False show ?thesis by (auto simp: d Let_def)
  qed
qed


lemma split_queue_component:
  assumes "splits_wf peers links" and "adj links `` X \<subseteq> X" and "set visited = X"
    and "i < length peers" and "addr peers i \<notin> X"
  shows "\<exists>visited' current. split_queue peers links visited [] [Some i] = Inr (visited', current) \<and>
     current_ok peers X visited' current \<and>
     addr peers ` set current = (adj links)\<^sup>* `` {addr peers i}"
proof -
  have "current_ok peers X visited []" "queue_ok peers X [Some i]"
    using assms by (auto simp: current_ok_def queue_ok_def)
  from split_queue_part [OF assms(1,2) this] obtain v c where
    res: "split_queue peers links visited [] [Some i] = Inr (v, c)" "current_ok peers X v c"
    and closed: "adj links `` (addr peers ` set c) \<subseteq> addr peers ` set c"
    and sub: "addr peers i \<in> addr peers ` set c" "addr peers ` set c \<subseteq> (adj links)\<^sup>* `` {addr peers i}"
    by auto
  have "(adj links)\<^sup>* `` {addr peers i} \<subseteq> addr peers ` set c"
    using sub(1) Image_closed_trancl [OF closed] by blast
  with res sub(2) show ?thesis by blast
qed

lemma mset_map_nth_part:
  assumes wf: "splits_wf peers links" and "set c \<subseteq> {..<length peers}" and "distinct c"
    and C: "addr peers ` set c = C"
  shows "mset (map (\<lambda>j. peers ! j) c) = mset (filter (\<lambda>p. dp_address p \<in> C) peers)"
proof -
  let ?is = "filter (\<lambda>i. addr peers i \<in> C) [0..<length peers]"
  have "i \<in> set c" if "i \<in> set ?is" for i
  proof -
    from that obtain j where "j \<in> set c" "addr peers j = addr peers i" by (auto simp flip: C)
    with that assms(2) addr_inj [OF wf, of j i] show ?thesis by auto
  qed
  with assms(2) C have "set c = set ?is" by auto
  moreover have "distinct ?is" by simp
  ultimately have "mset c = mset ?is" using set_eq_iff_mset_eq_distinct assms(3) by blast
  moreover have "filter (\<lambda>p. dp_address p \<in> C) peers = map (\<lambda>j. peers ! j) ?is"
  proof -
    have "filter (\<lambda>p. dp_address p \<in> C) (map (\<lambda>j. peers ! j) [0..<length peers]) = map (\<lambda>j. peers ! j) ?is"
      by (simp add: filter_map comp_def)
    then show ?thesis by (simp add: map_nth)
  qed
  ultimately show ?thesis by (metis mset_map)
qed

lemma mset_filter_disjoint:
  assumes "\<And>x. x \<in> set xs \<Longrightarrow> P x \<longleftrightarrow> (Q x \<or> R x)" and "\<And>x. x \<in> set xs \<Longrightarrow> \<not> (Q x \<and> R x)"
  shows "mset (filter P xs) = mset (filter Q xs) + mset (filter R xs)"
  using assms by (induction xs) auto

text \<open>The parts found from the peers \<open>is\<close> on, when the parts that make up \<open>X\<close> are already known.\<close>

lemma split_loop_parts:
  assumes srt: "sorter_permutes srt" and wf: "splits_wf peers links"
    and "adj links `` X \<subseteq> X" and "set visited = X" and "set is \<subseteq> {..<length peers}"
  shows "\<exists>parts. split_loop srt peers links visited sets is = Inr (sets @ parts) \<and>
     mset (concat (map set_peers parts)) =
       mset (filter (\<lambda>p. dp_address p \<in> (adj links)\<^sup>* `` (addr peers ` set is) - X) peers) \<and>
     (\<forall>s \<in> set parts. \<exists>i \<in> set is.
        set (set_peers s) = {p \<in> set peers. linked links (addr peers i) (dp_address p)})"
  using assms(3-)
proof (induction "is" arbitrary: X visited sets)
  case Nil
  then show ?case by simp
next
  case (Cons i "is")
  let ?C = "(adj links)\<^sup>* `` {addr peers i}"
  let ?R = "\<lambda>is. (adj links)\<^sup>* `` (addr peers ` set is)"
  have XR: "(adj links)\<^sup>* `` X = X" using Image_closed_trancl [OF Cons.prems(1)] by simp
  have R: "?R (i # is) = ?C \<union> ?R is" by auto
  show ?case
  proof (cases "addr peers i \<in> X")
    case True
    then have "?C \<subseteq> X" using XR by blast
    then have "?C - X = {}" by (simp add: Diff_eq_empty_iff)
    then have "?R (i # is) - X = ?R is - X" by (simp only: R Un_Diff Un_empty_left)
    with Cons.IH [OF Cons.prems(1,2), of sets] Cons.prems True show ?thesis by auto
  next
    case False
    from Cons.prems have i: "i < length peers" by simp
    from split_queue_component [OF wf Cons.prems(1,2) i False] obtain v c where
      q: "split_queue peers links visited [] [Some i] = Inr (v, c)" and
      c: "current_ok peers X v c" "addr peers ` set c = ?C" by blast
    let ?s = "\<lparr>set_peers = sortPeers srt (map (\<lambda>j. peers ! j) c) outgoingDsc\<rparr>"
    have v: "set v = X \<union> ?C" and disj: "?C \<inter> X = {}" using c by (auto simp: current_ok_def)
    have closed: "adj links `` (X \<union> ?C) \<subseteq> X \<union> ?C"
      using Cons.prems(1) by (auto intro: rtrancl_into_rtrancl)
    have sub: "set is \<subseteq> {..<length peers}" using Cons.prems(3) by simp
    obtain parts where
      parts: "split_loop srt peers links v (sets @ [?s]) is = Inr ((sets @ [?s]) @ parts)"
      "mset (concat (map set_peers parts)) = mset (filter (\<lambda>p. dp_address p \<in> ?R is - (X \<union> ?C)) peers)"
      "\<forall>s \<in> set parts. \<exists>i \<in> set is.
        set (set_peers s) = {p \<in> set peers. linked links (addr peers i) (dp_address p)}"
      using Cons.IH [OF closed v sub, of "sets @ [?s]"] by (elim exE conjE) (rule that)
    have s: "mset (set_peers ?s) = mset (filter (\<lambda>p. dp_address p \<in> ?C) peers)"
      using mset_map_nth_part [OF wf, of c ?C] c srt by (simp add: sortPeers_def sorter_mset current_ok_def)
    then have "set (set_peers ?s) = {p \<in> set peers. linked links (addr peers i) (dp_address p)}"
      by (subst mset_eq_setD [OF s]) (auto simp: linked_def)
    moreover have "mset (filter (\<lambda>p. dp_address p \<in> ?R (i # is) - X) peers) =
        mset (filter (\<lambda>p. dp_address p \<in> ?C) peers) +
        mset (filter (\<lambda>p. dp_address p \<in> ?R is - (X \<union> ?C)) peers)"
      using disj R by (intro mset_filter_disjoint) auto
    ultimately show ?thesis
      using parts s False q Cons.prems(2) by (intro exI [of _ "?s # parts"]) auto
  qed
qed


lemma linked_refl [simp]: "linked links a a"
  by (simp add: linked_def)

lemma linked_iff: "linked links a b \<Longrightarrow> linked links a c \<longleftrightarrow> linked links b c"
  unfolding linked_def by (meson rtrancl_trans sym_adj_rtrancl)

text \<open>The sets are the connected parts of the graph of the peers.\<close>

definition parts_ok :: "DashboardSplitsPeer list \<Rightarrow> DashboardSplitsLink list \<Rightarrow> DashboardSplitsSet list \<Rightarrow> bool" where
  "parts_ok peers links sets \<longleftrightarrow>
     mset (concat (map set_peers sets)) = mset peers \<and>
     (\<forall>s \<in> set sets. set_peers s \<noteq> [] \<and>
        (\<forall>p \<in> set (set_peers s). \<forall>q \<in> set peers.
           q \<in> set (set_peers s) \<longleftrightarrow> linked links (dp_address p) (dp_address q)))"

lemma split_parts_ok:
  assumes "sorter_permutes srt" and "splits_wf peers links"
  shows "\<exists>sets. splitThePeers srt peers links = Inr sets \<and> parts_ok peers links sets"
proof -
  have all: "dp_address p \<in> (adj links)\<^sup>* `` (addr peers ` set [0..<length peers])" if "p \<in> set peers" for p
    using that by (auto simp: in_set_conv_nth)
  have "\<exists>sets. splitThePeers srt peers links = Inr sets \<and>
      mset (concat (map set_peers sets)) = mset peers \<and>
      (\<forall>s \<in> set sets. \<exists>i \<in> set [0..<length peers].
         set (set_peers s) = {p \<in> set peers. linked links (addr peers i) (dp_address p)})"
  proof -
    have "filter (\<lambda>p. dp_address p \<in> (adj links)\<^sup>* `` (addr peers ` set [0..<length peers]) - {}) peers =
        peers"
      using all by (simp only: filter_id_conv Diff_empty) blast
    moreover have "set [0..<length peers] \<subseteq> {..<length peers}" by auto
    ultimately show ?thesis
      using split_loop_parts [OF assms, of "{}" "[]" "[0..<length peers]" "[]"]
      unfolding splitThePeers_def by simp
  qed
  then obtain sets where sets: "splitThePeers srt peers links = Inr sets"
      "mset (concat (map set_peers sets)) = mset peers"
      and part: "\<forall>s \<in> set sets. \<exists>i \<in> set [0..<length peers].
         set (set_peers s) = {p \<in> set peers. linked links (addr peers i) (dp_address p)}"
    by (elim exE conjE) (rule that)
  have "set_peers s \<noteq> [] \<and> (\<forall>p \<in> set (set_peers s). \<forall>q \<in> set peers.
      q \<in> set (set_peers s) \<longleftrightarrow> linked links (dp_address p) (dp_address q))" if "s \<in> set sets" for s
  proof -
    from part that obtain i where i: "i \<in> set [0..<length peers]"
      "set (set_peers s) = {p \<in> set peers. linked links (addr peers i) (dp_address p)}" by blast
    then have "peers ! i \<in> set (set_peers s)" by simp
    with i(2) show ?thesis by (auto simp: linked_iff)
  qed
  with sets show ?thesis by (auto simp: parts_ok_def)
qed

text \<open>C7. The breadth-first search of \<open>splitThePeers\<close> computes the connected parts of the network: on
  peers with distinct addresses and links between known addresses it returns, every peer is in
  exactly one set, and two peers are in the same set exactly when a chain of links, in either
  direction, connects them.\<close>

theorem splits_are_components:
  assumes "sorter_permutes srt" and "splits_wf peers links"
  shows "\<exists>sets. splitThePeers srt peers links = Inr sets \<and>
     mset (concat (map set_peers sets)) = mset peers \<and>
     (\<forall>s \<in> set sets. set_peers s \<noteq> [] \<and>
        (\<forall>p \<in> set (set_peers s). \<forall>q \<in> set peers.
           q \<in> set (set_peers s) \<longleftrightarrow> linked links (dp_address p) (dp_address q)))"
  using split_parts_ok [OF assms] by (simp add: parts_ok_def)

definition demo_peers :: "DashboardSplitsPeer list" where
  "demo_peers = map (\<lambda>a. newPeer a None) [''a'', ''b'', ''c'', ''d'']"

definition demo_links :: "DashboardSplitsLink list" where
  "demo_links = [\<lparr>dl_source = ''a'', dl_target = ''c''\<rparr>, \<lparr>dl_source = ''d'', dl_target = ''b''\<rparr>]"

lemma demo_split:
  "splitThePeers (\<lambda>xs _. xs) demo_peers demo_links =
     Inr [\<lparr>set_peers = [newPeer ''a'' None, newPeer ''c'' None]\<rparr>,
          \<lparr>set_peers = [newPeer ''b'' None, newPeer ''d'' None]\<rparr>]"
  by (simp add: splitThePeers_def demo_peers_def demo_links_def newPeer_def upt_rec deref_def
      link_pushes_def find_peer_def sortPeers_def Let_def)

theorem splits_are_components_witness:
  "linked demo_links ''a'' ''c'' \<and> \<not> linked demo_links ''a'' ''b''"
  using splits_are_components [of "\<lambda>xs _. xs" demo_peers demo_links]
  unfolding demo_split
  by (simp add: sorter_permutes_def splits_wf_def demo_peers_def demo_links_def newPeer_def)

section \<open>From the service to the page\<close>

lemma find_peer_self:
  assumes "i < length peers" and "find_peer peers (addr peers j) = Some i" and "j < length peers"
  shows "addr peers i = addr peers j"
  using assms find_index_SomeD(2) [of "\<lambda>p. dp_address p = addr peers j" peers i] by (simp add: find_peer_def)

lemma removeDuplicatedPeers_distinct:
  "distinct (map dp_address (ds_peers (removeDuplicatedPeers r)))"
proof -
  let ?p = "ds_peers r"
  have "inj_on (addr ?p) (set (filter (\<lambda>i. find_peer ?p (addr ?p i) = Some i) [0..<length ?p]))"
    by (rule inj_onI) auto
  then show ?thesis
    by (simp add: removeDuplicatedPeers_def Let_def distinct_map comp_def inj_on_def)
qed

lemma removeDuplicatedPeers_addresses:
  "dp_address ` set (ds_peers (removeDuplicatedPeers r)) = dp_address ` set (ds_peers r)"
proof
  show "dp_address ` set (ds_peers (removeDuplicatedPeers r)) \<subseteq> dp_address ` set (ds_peers r)"
    by (auto simp: removeDuplicatedPeers_def Let_def)
  show "dp_address ` set (ds_peers r) \<subseteq> dp_address ` set (ds_peers (removeDuplicatedPeers r))"
  proof
    fix a assume "a \<in> dp_address ` set (ds_peers r)"
    then obtain i where "find_peer (ds_peers r) a = Some i" "i < length (ds_peers r)" "addr (ds_peers r) i = a"
      by (rule find_peer_known)
    then show "a \<in> dp_address ` set (ds_peers (removeDuplicatedPeers r))"
      by (auto simp: removeDuplicatedPeers_def Let_def intro!: image_eqI [of _ _ "ds_peers r ! i"])
  qed
qed

definition links_known :: "DashboardSplits \<Rightarrow> bool" where
  "links_known r \<longleftrightarrow> (\<forall>l \<in> set (ds_links r).
     dl_source l \<in> dp_address ` set (ds_peers r) \<and> dl_target l \<in> dp_address ` set (ds_peers r))"

lemma peersReduce_known: "links_known acc \<Longrightarrow> links_known (peersReduce m acc e)"
  by (auto simp: links_known_def peersReduce_def newPeer_def Let_def image_Un image_image)

lemma getPeers_wf: "splits_wf (ds_peers (getPeers array)) (ds_links (getPeers array))"
proof -
  have "links_known (foldl (peersReduce m) acc es)" if "links_known acc" for m acc es
    using that by (induction es arbitrary: acc) (auto intro: peersReduce_known)
  then have "links_known (foldl (peersReduce (nodeMap array)) \<lparr>ds_peers = [], ds_links = []\<rparr> array)"
    by (simp add: links_known_def)
  moreover have "ds_links (removeDuplicatedPeers r) = ds_links r" for r
    by (simp add: removeDuplicatedPeers_def Let_def)
  ultimately show ?thesis
    unfolding splits_wf_def getPeers_def removeDuplicatedPeers_addresses
    by (simp add: removeDuplicatedPeers_distinct links_known_def)
qed

lemma countedPeers_wf:
  "splits_wf (ds_peers r) (ds_links r) \<Longrightarrow> splits_wf (countedPeers r) (ds_links r)"
  by (simp add: splits_wf_def countedPeers_def comp_def image_image)

lemma parts_ok_resort:
  assumes "sorter_permutes srt" and "parts_ok peers links sets"
  shows "parts_ok peers links (map (resortSet srt ts) sets)"
proof -
  have m: "mset (set_peers (resortSet srt ts s)) = mset (set_peers s)" for s
    by (simp add: resortSet_def sortPeers_def sorter_mset [OF assms(1)])
  have "mset (concat (map set_peers (map (resortSet srt ts) sets))) = mset (concat (map set_peers sets))"
    by (induction sets) (simp_all add: m)
  moreover have "set (set_peers (resortSet srt ts s)) = set (set_peers s)" for s
    using mset_eq_setD [OF m] .
  ultimately show ?thesis using assms(2) by (auto simp: parts_ok_def) (metis empty_iff set_empty)+
qed

text \<open>The payloads that \<open>getSplits$\<close> dispatches: the merged responses, or nothing after an error.\<close>

definition served :: "DashboardSplitsActions \<Rightarrow> bool" where
  "served action \<longleftrightarrow> (\<forall>payload. action = DASHBOARD_SPLITS_GET_SPLITS_SUCCESS payload \<longrightarrow>
     payload = \<lparr>ds_peers = [], ds_links = []\<rparr> \<or> (\<exists>array. payload = getPeers array))"

text \<open>C13. The splits page end to end. Whatever the nodes answer, the peers and links the service
  hands to the reducer never make it throw, and after every action (loading, sorting, selecting,
  closing) the sets on the page are the connected parts of the peers and links on the page.\<close>

theorem splits_page_invariant:
  assumes "sorter_permutes srt" and "served action"
    and "parts_ok (sp_peers state) (sp_links state) (sp_sets state)"
  shows "parts_ok (sp_peers (splitsInitialState mobile)) (sp_links (splitsInitialState mobile))
           (sp_sets (splitsInitialState mobile)) \<and>
     (\<exists>state'. topologyReducer srt mobile now state action = Inr state' \<and>
        parts_ok (sp_peers state') (sp_links state') (sp_sets state'))"
proof
  show "parts_ok (sp_peers (splitsInitialState mobile)) (sp_links (splitsInitialState mobile))
           (sp_sets (splitsInitialState mobile))"
    by (simp add: splitsInitialState_def parts_ok_def)
  show "\<exists>state'. topologyReducer srt mobile now state action = Inr state' \<and>
        parts_ok (sp_peers state') (sp_links state') (sp_sets state')"
  proof (cases "\<exists>payload. action = DASHBOARD_SPLITS_GET_SPLITS_SUCCESS payload")
    case True
    then obtain payload where a: "action = DASHBOARD_SPLITS_GET_SPLITS_SUCCESS payload" by blast
    with assms(2) have "splits_wf (ds_peers payload) (ds_links payload)"
      using getPeers_wf by (auto simp: served_def splits_wf_def)
    from split_parts_ok [OF assms(1) countedPeers_wf [OF this]] obtain sets where
      "splitThePeers srt (countedPeers payload) (ds_links payload) = Inr sets"
      "parts_ok (countedPeers payload) (ds_links payload) sets" by blast
    then show ?thesis by (simp add: a Let_def parts_ok_resort [OF assms(1)])
  next
    case False
    with assms show ?thesis
      by (cases action) (auto simp: parts_ok_resort splitsInitialState_def parts_ok_def [of "[]"])
  qed
qed

theorem splits_page_invariant_witness:
  "\<exists>state'. topologyReducer (\<lambda>xs _. xs) False ''now'' (splitsInitialState False)
     (DASHBOARD_SPLITS_GET_SPLITS_SUCCESS (getPeers [(\<lparr>gp_hosts = [''1.1'', ''2.2''], gp_externalIp = ''3.3''\<rparr>, ''node1'')]))
     = Inr state'"
  using splits_page_invariant [of "\<lambda>xs _. xs"
      "DASHBOARD_SPLITS_GET_SPLITS_SUCCESS (getPeers [(\<lparr>gp_hosts = [''1.1'', ''2.2''], gp_externalIp = ''3.3''\<rparr>, ''node1'')])"
      "splitsInitialState False" False "''now''"]
  by (auto simp: sorter_permutes_def served_def splitsInitialState_def parts_ok_def)

section \<open>The firewall operations\<close>

lemma whitelistRequests_Inr:
  assumes "whitelistRequests configs path ips ns = Inr rs"
  shows "length rs = length ns \<and> (\<forall>r \<in> set rs. fw_ips r = ips)"
  using assms
  by (induction ns arbitrary: rs) (auto split: option.splits sum.splits prod.splits)

lemma whitelistRequests_Inl:
  "(\<exists>e. whitelistRequests configs path ips ns = Inl e) \<longleftrightarrow>
     (\<exists>n \<in> fst ` set ns. nodeName n \<notin> fst ` set configs)"
  by (induction ns) (force simp: find_None_iff split: option.splits sum.splits dest: find_Some_in)+

lemma length_filter_split: "length (filter P xs) + length (filter (\<lambda>x. \<not> P x) xs) = length xs"
  by (induction xs) auto

lemma splitSides_hosts:
  assumes "distinct (map (\<lambda>(_, a). hostOf a) (namedPeers peers))" and "splitSides peers = (l, r)"
  shows "set (map (\<lambda>(_, a). hostOf a) l) \<inter> set (map (\<lambda>(_, a). hostOf a) r) = {}"
proof -
  have "inj_on (\<lambda>(_, a). hostOf a) (set (namedPeers peers))"
    using assms(1) by (simp add: distinct_map)
  moreover have "set l \<subseteq> set (namedPeers peers)" "set r \<subseteq> set (namedPeers peers)" "set l \<inter> set r = {}"
    using assms(2) by (auto simp: splitSides_def)
  ultimately show ?thesis by (simp add: inj_on_image_Int [symmetric])
qed

lemma splitNodes_Inl:
  "(\<exists>e. splitNodes configs peers = Inl e) \<longleftrightarrow>
     (\<exists>n \<in> fst ` set (namedPeers peers). nodeName n \<notin> fst ` set configs)"
proof -
  obtain l r where lr: "splitSides peers = (l, r)" by fastforce
  let ?W = "\<lambda>ns. whitelistRequests configs ''/firewall/whitelist/enable'' (map (\<lambda>(_, a). hostOf a) ns) ns"
  have "(\<exists>e. splitNodes configs peers = Inl e) \<longleftrightarrow> (\<exists>e. ?W l = Inl e) \<or> (\<exists>e. ?W r = Inl e)"
    by (simp add: splitNodes_def lr Let_def split: sum.splits)
  also have "\<dots> \<longleftrightarrow> (\<exists>n \<in> fst ` set l \<union> fst ` set r. nodeName n \<notin> fst ` set configs)"
    by (simp only: whitelistRequests_Inl bex_Un)
  also have "fst ` set l \<union> fst ` set r = fst ` set (namedPeers peers)"
    using lr by (force simp: splitSides_def)
  finally show ?thesis .
qed

text \<open>Splitting the network. The operation fails exactly when a named peer is not configured;
  otherwise every named peer receives one request, the peers whose name ends in an even digit and
  the others form two sides, and, when the named peers have distinct hosts, no peer of one side
  whitelists a peer of the other.\<close>

lemma split_firewall:
  assumes "distinct (map (\<lambda>(_, a). hostOf a) (namedPeers peers))"
  shows "((\<exists>e. splitNodes configs peers = Inl e) \<longleftrightarrow>
           (\<exists>n \<in> fst ` set (namedPeers peers). nodeName n \<notin> fst ` set configs)) \<and>
         (splitNodes configs peers = Inr (ls, rs) \<longrightarrow>
           length ls + length rs = length (namedPeers peers) \<and>
           (\<forall>l \<in> set ls. \<forall>r \<in> set rs. set (fw_ips l) \<inter> set (fw_ips r) = {}))"
proof (intro conjI [OF splitNodes_Inl] impI)
  assume res: "splitNodes configs peers = Inr (ls, rs)"
  obtain l r where lr: "splitSides peers = (l, r)" by fastforce
  from res have L: "length ls = length l" "\<forall>q \<in> set ls. fw_ips q = map (\<lambda>(_, a). hostOf a) l"
    and R: "length rs = length r" "\<forall>q \<in> set rs. fw_ips q = map (\<lambda>(_, a). hostOf a) r"
    by (auto simp: splitNodes_def lr Let_def split: sum.splits dest!: whitelistRequests_Inr)
  have "length l + length r = length (namedPeers peers)"
    using lr length_filter_split [of "\<lambda>(n, _). even_char (last n)" "namedPeers peers"]
    by (auto simp: splitSides_def case_prod_unfold)
  with L R splitSides_hosts [OF assms lr] show
    "length ls + length rs = length (namedPeers peers) \<and>
     (\<forall>l \<in> set ls. \<forall>r \<in> set rs. set (fw_ips l) \<inter> set (fw_ips r) = {})" by simp
qed

definition demo_named :: "DashboardSplitsPeer list" where
  "demo_named = [newPeer ''1.1.1.1:80'' (Some ''Node 1''), newPeer ''1.1.1.2:80'' (Some ''Node 2'')]"

lemma demo_splitNodes:
  "splitNodes [(''node1'', Some ''h1''), (''node2'', Some ''h2'')] demo_named =
     Inr ([\<lparr>fw_url = ''h2/firewall/whitelist/enable'', fw_ips = [''1.1.1.2'']\<rparr>],
          [\<lparr>fw_url = ''h1/firewall/whitelist/enable'', fw_ips = [''1.1.1.1'']\<rparr>])"
  "distinct (map (\<lambda>(_, a). hostOf a) (namedPeers demo_named))"
  by code_simp+

lemma split_firewall_witness:
  "\<exists>ls rs. splitNodes [(''node1'', Some ''h1''), (''node2'', Some ''h2'')] demo_named = Inr (ls, rs) \<and>
     length ls = 1 \<and> (\<forall>l \<in> set ls. \<forall>r \<in> set rs. set (fw_ips l) \<inter> set (fw_ips r) = {})"
  using split_firewall [OF demo_splitNodes(2), of "[(''node1'', Some ''h1''), (''node2'', Some ''h2'')]"
     "[\<lparr>fw_url = ''h2/firewall/whitelist/enable'', fw_ips = [''1.1.1.2'']\<rparr>]"
     "[\<lparr>fw_url = ''h1/firewall/whitelist/enable'', fw_ips = [''1.1.1.1'']\<rparr>]"] demo_splitNodes(1)
  by auto

end
