(* ===== verification/Node_Dht.thy ===== *)
theory Node_Dht
  imports Effect_Pipeline
begin

text \<open>
  The node DHT page (\<open>features/network/node-dht\<close>): the Kademlia routing table of the node, bucket by
  bucket. The service turns each hexadecimal distance into a 256-digit binary string, counts its
  leading zeros, flattens the buckets and moves the node itself to the front; the reducer replaces
  the table when it differs; the effect polls the node.
\<close>

section \<open>Data\<close>

datatype xor_distance = Dash | Zeros nat

record NetworkNodeDhtPeer =
  dht_connection :: string
  dht_peerId :: string
  dht_addressesLength :: nat
  dht_addrs :: "string list"
  dht_key :: string
  dht_hexDistance :: string
  dht_libp2p :: string
  dht_binaryDistance :: string
  dht_bucketIndex :: nat
  dht_xorDistance :: xor_distance
  dht_bucketMaxHex :: string

record NetworkNodeDhtBucket =
  bkt_peers :: nat
  bkt_bucketMaxHex :: string
  bkt_maxCapacity :: nat

record dhtPayload =
  pl_peers :: "NetworkNodeDhtPeer list"
  pl_thisKey :: string
  pl_buckets :: "NetworkNodeDhtBucket list"

record NetworkNodeDhtState =
  nd_peers :: "NetworkNodeDhtPeer list"
  nd_thisKey :: string
  nd_activePeer :: "NetworkNodeDhtPeer option"
  nd_buckets :: "NetworkNodeDhtBucket list"
  nd_sidePanelWidth :: int

datatype NetworkNodeDhtActions =
    NETWORK_NODE_DHT_INIT
  | NETWORK_NODE_DHT_CLOSE
  | NETWORK_NODE_DHT_GET_PEERS
  | NETWORK_NODE_DHT_GET_PEERS_SUCCESS dhtPayload
  | NETWORK_NODE_DHT_SET_ACTIVE_PEER "NetworkNodeDhtPeer option"
  | NETWORK_NODE_DHT_SIDE_PANEL_RESIZE int

record Entry =
  en_peer_id :: string
  en_libp2p :: string
  en_key :: string
  en_dist :: string
  en_addrs :: "string list"
  en_connection :: string

record Bucket =
  bk_max_dist :: string
  bk_entries :: "Entry list"

record DhtPeersResponse =
  rs_this_key :: string
  rs_buckets :: "Bucket list"

section \<open>Reducer\<close>

definition dhtInitialState :: NetworkNodeDhtState where
  "dhtInitialState = \<lparr>nd_peers = [], nd_thisKey = [], nd_activePeer = None, nd_buckets = [],
     nd_sidePanelWidth = -1\<rparr>"

text \<open>\<open>xs.every((x, i) => x === ys[i])\<close>, with \<open>undefined\<close> beyond the end of \<open>ys\<close>.\<close>

definition every_indexed :: "('a \<Rightarrow> 'b option \<Rightarrow> bool) \<Rightarrow> 'a list \<Rightarrow> 'b list \<Rightarrow> bool" where
  "every_indexed P xs ys \<longleftrightarrow>
     (\<forall>i \<in> set [0..<length xs]. P (xs ! i) (if i < length ys then Some (ys ! i) else None))"

definition samePeer :: "NetworkNodeDhtPeer \<Rightarrow> NetworkNodeDhtPeer \<Rightarrow> bool" where
  "samePeer peer other \<longleftrightarrow>
     dht_peerId peer = dht_peerId other \<and>
     dht_addressesLength peer = dht_addressesLength other \<and>
     every_indexed (\<lambda>addr other. other = Some addr) (dht_addrs peer) (dht_addrs other) \<and>
     dht_key peer = dht_key other \<and>
     dht_hexDistance peer = dht_hexDistance other \<and>
     dht_libp2p peer = dht_libp2p other"

definition sameRecord :: "NetworkNodeDhtState \<Rightarrow> dhtPayload \<Rightarrow> bool" where
  "sameRecord state payload \<longleftrightarrow>
     length (nd_peers state) = length (pl_peers payload) \<and>
     nd_thisKey state = pl_thisKey payload \<and>
     every_indexed (\<lambda>peer other. case other of None \<Rightarrow> False | Some o' \<Rightarrow> samePeer peer o')
       (nd_peers state) (pl_peers payload)"

fun networkDhtReducer :: "NetworkNodeDhtState \<Rightarrow> NetworkNodeDhtActions \<Rightarrow> NetworkNodeDhtState" where
  "networkDhtReducer state (NETWORK_NODE_DHT_GET_PEERS_SUCCESS payload) =
     (if sameRecord state payload then state
      else state\<lparr>nd_peers := pl_peers payload, nd_thisKey := pl_thisKey payload,
                 nd_buckets := pl_buckets payload\<rparr>)"
| "networkDhtReducer state (NETWORK_NODE_DHT_SET_ACTIVE_PEER payload) =
     state\<lparr>nd_activePeer := payload\<rparr>"
| "networkDhtReducer state (NETWORK_NODE_DHT_SIDE_PANEL_RESIZE payload) =
     state\<lparr>nd_sidePanelWidth := payload\<rparr>"
| "networkDhtReducer state NETWORK_NODE_DHT_CLOSE = dhtInitialState"
| "networkDhtReducer state NETWORK_NODE_DHT_INIT = state"
| "networkDhtReducer state NETWORK_NODE_DHT_GET_PEERS = state"

section \<open>Service\<close>

definition hex_char :: "char \<Rightarrow> bool" where
  "hex_char c = (let n = of_char c :: nat
     in 48 \<le> n \<and> n \<le> 57 \<or> 97 \<le> n \<and> n \<le> 102 \<or> 65 \<le> n \<and> n \<le> 70)"

text \<open>\<open>BigInt\<close> throws on a string that is not a hexadecimal number.\<close>

definition hexToBinary :: "string \<Rightarrow> string option" where
  "hexToBinary hex =
     (if hex \<noteq> [] \<and> list_all hex_char hex
      then Some (padStart 256 (CHR ''0'') (to_radix 2 (of_radix 16 hex)))
      else None)"

text \<open>The counting loop, which stops at the first character that is not \<open>'0'\<close>.\<close>

fun zeros_loop :: "nat \<Rightarrow> string \<Rightarrow> nat" where
  "zeros_loop leadingZeros [] = leadingZeros"
| "zeros_loop leadingZeros (c # cs) =
     (if c = CHR ''0'' then zeros_loop (Suc leadingZeros) cs else leadingZeros)"

definition getNumberOfZerosUntilFirst1 :: "string \<Rightarrow> nat" where
  "getNumberOfZerosUntilFirst1 binaryString = zeros_loop 0 binaryString"

definition convertConnectionType :: "string \<Rightarrow> string" where
  "convertConnectionType connection =
     js_trim (concat (map (\<lambda>c. let n = of_char c :: nat
       in if 65 \<le> n \<and> n \<le> 90 then [CHR '' '', c] else [c]) connection))"

definition mapEntry :: "string \<Rightarrow> nat \<Rightarrow> Bucket \<Rightarrow> Entry \<Rightarrow> NetworkNodeDhtPeer option" where
  "mapEntry this_key index bucket entry =
     (case hexToBinary (en_dist entry) of
        None \<Rightarrow> None
      | Some binaryDistance \<Rightarrow> Some
          \<lparr>dht_connection = convertConnectionType (en_connection entry),
           dht_peerId = en_peer_id entry,
           dht_addressesLength = length (en_addrs entry),
           dht_addrs = en_addrs entry,
           dht_key = en_key entry,
           dht_hexDistance = en_dist entry,
           dht_libp2p = en_libp2p entry,
           dht_binaryDistance = binaryDistance,
           dht_bucketIndex = index,
           dht_xorDistance = (if en_key entry = this_key then Dash
             else Zeros (getNumberOfZerosUntilFirst1 binaryDistance)),
           dht_bucketMaxHex = bk_max_dist bucket\<rparr>)"

fun all_some :: "'a option list \<Rightarrow> 'a list option" where
  "all_some [] = Some []"
| "all_some (x # xs) =
     (case x of None \<Rightarrow> None | Some v \<Rightarrow> map_option (\<lambda>vs. v # vs) (all_some xs))"

text \<open>The peers of all buckets, in bucket order; the buckets are distinct objects, so \<open>indexOf\<close> is the
  position.\<close>

definition flattenBuckets :: "string \<Rightarrow> Bucket list \<Rightarrow> NetworkNodeDhtPeer list option" where
  "flattenBuckets this_key buckets =
     all_some (concat (map (\<lambda>i. map (mapEntry this_key i (buckets ! i)) (bk_entries (buckets ! i)))
       [0..<length buckets]))"

text \<open>\<open>splice\<close> and \<open>unshift\<close> of the origin peer.\<close>

definition originFirst :: "string \<Rightarrow> NetworkNodeDhtPeer list \<Rightarrow> NetworkNodeDhtPeer list" where
  "originFirst this_key peers =
     (case find_index (\<lambda>peer. dht_key peer = this_key) peers of
        None \<Rightarrow> peers
      | Some i \<Rightarrow> if i > 0 then peers ! i # take i peers @ drop (Suc i) peers else peers)"

definition mapDhtPeers :: "DhtPeersResponse \<Rightarrow> dhtPayload option" where
  "mapDhtPeers response =
     map_option (\<lambda>peers.
       \<lparr>pl_peers = originFirst (rs_this_key response) peers,
        pl_thisKey = rs_this_key response,
        pl_buckets = map (\<lambda>bucket. \<lparr>bkt_peers = length (bk_entries bucket),
          bkt_bucketMaxHex = bk_max_dist bucket, bkt_maxCapacity = 20\<rparr>) (rs_buckets response)\<rparr>)
       (flattenBuckets (rs_this_key response) (rs_buckets response))"

section \<open>Effect\<close>

text \<open>The private field \<open>pendingRequest\<close>. The response is delivered mapped; a mapping that throws is an
  error of the request.\<close>

definition getPeers_effect ::
  "string \<Rightarrow> (bool, NetworkNodeDhtActions, unit, dhtPayload, NetworkNodeDhtActions dispatched) effect" where
  "getPeers_effect now =
     \<lparr>on_action = (\<lambda>action pendingRequest. case action of
          NETWORK_NODE_DHT_CLOSE \<Rightarrow> (False, Switch_empty)
        | NETWORK_NODE_DHT_GET_PEERS \<Rightarrow>
            if pendingRequest then (pendingRequest, Filtered) else (True, Switch_request ())
        | _ \<Rightarrow> (pendingRequest, Filtered)),
      on_value = (\<lambda>_ payload _. (False, [Dispatch (NETWORK_NODE_DHT_GET_PEERS_SUCCESS payload)])),
      on_error = (\<lambda>e pendingRequest. (pendingRequest, catchErrorAndRepeat now RUST
        (NETWORK_NODE_DHT_GET_PEERS_SUCCESS \<lparr>pl_peers = [], pl_thisKey = [], pl_buckets = []\<rparr>) e))\<rparr>"

interpretation dht_close: cancel_on_close "getPeers_effect now" "\<lambda>a. a = NETWORK_NODE_DHT_CLOSE"
  by unfold_locales (simp add: getPeers_effect_def)

section \<open>Distances\<close>

lemma zeros_loop_replicate:
  "zeros_loop n (replicate k (CHR ''0'') @ s) = zeros_loop (n + k) s"
  by (induction k arbitrary: n) simp_all

lemma of_radix_replicate_zero [simp]: "of_radix b (replicate k (CHR ''0'') @ s) = of_radix b s"
  by (induction k) (simp_all add: of_radix_def digit_value_def)

lemma hd_to_radix_2: "0 < n \<Longrightarrow> hd (to_radix 2 n) = CHR ''1''"
proof (induction n rule: less_induct)
  case (less n)
  show ?case
  proof (cases "n < 2")
    case True
    with less.prems have "n = 1" by simp
    then show ?thesis by (simp add: to_radix.simps [of 2 1] radix_digit_def) code_simp
  next
    case False
    then have "hd (to_radix 2 (n div 2)) = CHR ''1''" using less by simp
    with False show ?thesis by (simp add: to_radix.simps [of 2 n])
  qed
qed

text \<open>The number of binary digits of a positive number.\<close>

lemma length_to_radix_2:
  assumes "0 < n"
  shows "2 ^ (length (to_radix 2 n) - 1) \<le> n" and "n < 2 ^ length (to_radix 2 n)"
proof -
  show "n < 2 ^ length (to_radix 2 n)"
    using length_to_radix_ge [of 2 "length (to_radix 2 n)" n] by (meson not_le order_refl less_irrefl)
  show "2 ^ (length (to_radix 2 n) - 1) \<le> n"
  proof (cases "length (to_radix 2 n) - 1")
    case (Suc k)
    then have "\<not> length (to_radix 2 n) \<le> Suc k" by simp
    with length_to_radix_le [of 2 n k] Suc show ?thesis by force
  qed (use assms in simp)
qed

lemma zeros_binary:
  "zeros_loop k (to_radix 2 n) = (if n = 0 then Suc k else k)"
proof (cases "n = 0")
  case True
  then show ?thesis by (simp add: to_radix.simps [of 2 0] radix_digit_def) code_simp
next
  case False
  then have "hd (to_radix 2 n) = CHR ''1''" by (simp add: hd_to_radix_2)
  then show ?thesis using False by (cases "to_radix 2 n") auto
qed

text \<open>C19. The XOR distance. For a distance below \<open>2 ^ 256\<close> (32 bytes in hexadecimal) the binary string has
  exactly 256 digits and the same value, and the leading zeros \<open>z\<close> counted by the loop are the
  logarithmic distance: \<open>2 ^ (255 - z) \<le> d < 2 ^ (256 - z)\<close> for a positive distance, and 256 for zero.\<close>

theorem dht_leading_zeros:
  assumes "hexToBinary hex = Some b" and "of_radix 16 hex < 2 ^ 256"
  shows "length b = 256 \<and> of_radix 2 b = of_radix 16 hex \<and>
    (let z = getNumberOfZerosUntilFirst1 b; d = of_radix 16 hex
     in if d = 0 then z = 256 else z < 256 \<and> 2 ^ (255 - z) \<le> d \<and> d < 2 ^ (256 - z))"
proof -
  let ?d = "of_radix 16 hex" let ?t = "to_radix 2 (of_radix 16 hex)"
  have b: "b = padStart 256 (CHR ''0'') ?t"
    using assms(1) by (simp add: hexToBinary_def split: if_splits)
  have len: "length ?t \<le> 256" using length_to_radix_le [of 2 ?d 255] assms(2) by simp
  have "length ?t > 0" by simp
  have z: "getNumberOfZerosUntilFirst1 b = (if ?d = 0 then Suc (256 - length ?t) else 256 - length ?t)"
    by (simp add: getNumberOfZerosUntilFirst1_def b padStart_def zeros_loop_replicate zeros_binary)
  have "?d = 0 \<Longrightarrow> length ?t = 1" by (simp add: to_radix.simps)
  then have "let z = getNumberOfZerosUntilFirst1 b
      in if ?d = 0 then z = 256 else z < 256 \<and> 2 ^ (255 - z) \<le> ?d \<and> ?d < 2 ^ (256 - z)"
    using z len length_to_radix_2 [of ?d] \<open>length ?t > 0\<close> by (auto simp: Let_def)
  then show ?thesis using len by (simp add: b length_padStart Let_def padStart_def of_to_radix)
qed

theorem dht_leading_zeros_witness:
  "\<exists>b. hexToBinary ''1f'' = Some b \<and> length b = 256 \<and> getNumberOfZerosUntilFirst1 b = 251"
proof -
  have v: "of_radix 16 ''1f'' = 31" by code_simp
  have h: "hexToBinary ''1f'' = Some (padStart 256 (CHR ''0'') (to_radix 2 31))"
    by (simp add: hexToBinary_def v) code_simp
  let ?b = "padStart 256 (CHR ''0'') (to_radix 2 31)"
  have "31 < (2 :: nat) ^ 256" by simp
  from dht_leading_zeros [OF h] this have "length ?b = 256"
    and z: "getNumberOfZerosUntilFirst1 ?b < 256" "(2 :: nat) ^ (255 - getNumberOfZerosUntilFirst1 ?b) \<le> 31"
      "(31 :: nat) < 2 ^ (256 - getNumberOfZerosUntilFirst1 ?b)" by (simp_all add: v Let_def)
  have "255 - getNumberOfZerosUntilFirst1 ?b < 5"
  proof (rule ccontr)
    assume "\<not> ?thesis"
    then have "(2 :: nat) ^ 5 \<le> 2 ^ (255 - getNumberOfZerosUntilFirst1 ?b)" by (intro power_increasing) auto
    with z show False by simp
  qed
  moreover have "4 < 256 - getNumberOfZerosUntilFirst1 ?b"
  proof (rule ccontr)
    assume "\<not> ?thesis"
    then have "(2 :: nat) ^ (256 - getNumberOfZerosUntilFirst1 ?b) \<le> 2 ^ 4" by (intro power_increasing) auto
    with z show False by simp
  qed
  ultimately have "getNumberOfZerosUntilFirst1 ?b = 251" using z(1) by simp
  with h \<open>length ?b = 256\<close> show ?thesis by blast
qed

section \<open>The routing table\<close>

lemma all_some_map:
  "all_some xs = Some ys \<longleftrightarrow> xs = map Some ys"
  by (induction xs arbitrary: ys) (auto split: option.splits)

lemma mset_move_front:
  assumes "i < length xs"
  shows "mset (xs ! i # take i xs @ drop (Suc i) xs) = mset xs"
proof -
  have "xs = take i xs @ xs ! i # drop (Suc i) xs" using id_take_nth_drop [OF assms] .
  then show ?thesis by (metis mset.simps(2) mset_append union_mset_add_mset_right)
qed

lemma originFirst_mset: "mset (originFirst k ps) = mset ps"
  by (auto simp: originFirst_def mset_move_front find_index_SomeD split: option.splits
      simp del: mset.simps)

lemma originFirst_hd:
  assumes "\<exists>p \<in> set ps. dht_key p = k"
  shows "dht_key (hd (originFirst k ps)) = k"
proof -
  obtain i where i: "find_index (\<lambda>p. dht_key p = k) ps = Some i"
    using assms by (cases "find_index (\<lambda>p. dht_key p = k) ps") auto
  then show ?thesis
    using find_index_SomeD [OF i] by (cases ps) (auto simp: originFirst_def hd_conv_nth)
qed

lemma originFirst_rest:
  "filter (\<lambda>p. dht_key p \<noteq> k) (originFirst k ps) = filter (\<lambda>p. dht_key p \<noteq> k) ps"
proof (cases "find_index (\<lambda>p. dht_key p = k) ps")
  case (Some i)
  note D = find_index_SomeD [OF Some]
  have "filter (\<lambda>p. dht_key p \<noteq> k) ps =
      filter (\<lambda>p. dht_key p \<noteq> k) (take i ps @ ps ! i # drop (Suc i) ps)"
    using id_take_nth_drop [OF D(1)] by simp
  then show ?thesis using D by (simp add: originFirst_def Some)
next
  case None
  then show ?thesis by (simp only: originFirst_def option.case)
qed

lemma mapEntry_fields:
  "mapEntry k i b e = Some p \<Longrightarrow> dht_key p = en_key e \<and> dht_peerId p = en_peer_id e \<and> dht_bucketIndex p = i"
  by (auto simp: mapEntry_def split: option.splits)

lemma flatten_length:
  "flattenBuckets k bs = Some ps \<Longrightarrow> length ps = (\<Sum>b \<leftarrow> bs. length (bk_entries b))"
proof -
  assume "flattenBuckets k bs = Some ps"
  then have "length ps = length (concat (map (\<lambda>i. map (mapEntry k i (bs ! i)) (bk_entries (bs ! i))) [0..<length bs]))"
    by (simp add: flattenBuckets_def all_some_map)
  also have "\<dots> = (\<Sum>b \<leftarrow> map (\<lambda>i. bs ! i) [0..<length bs]. length (bk_entries b))"
    by (simp add: length_concat comp_def)
  finally show ?thesis by (simp add: map_nth)
qed

text \<open>The routing table that reaches the page. The peers are a permutation of the entries of all
  buckets with their order kept, except that the node itself comes first when it is in the table;
  no entry is lost, and the bucket sizes add up to the number of peers.\<close>

lemma dht_table:
  assumes "mapDhtPeers response = Some payload"
    and "flattenBuckets (rs_this_key response) (rs_buckets response) = Some entries"
  shows "mset (pl_peers payload) = mset entries
    \<and> filter (\<lambda>p. dht_key p \<noteq> rs_this_key response) (pl_peers payload) =
        filter (\<lambda>p. dht_key p \<noteq> rs_this_key response) entries
    \<and> ((\<exists>p \<in> set entries. dht_key p = rs_this_key response) \<longrightarrow>
        dht_key (hd (pl_peers payload)) = rs_this_key response)
    \<and> length (pl_peers payload) = sum_list (map bkt_peers (pl_buckets payload))"
proof -
  from assms have p: "pl_peers payload = originFirst (rs_this_key response) entries"
    and b: "map bkt_peers (pl_buckets payload) = map (\<lambda>b. length (bk_entries b)) (rs_buckets response)"
    by (auto simp: mapDhtPeers_def comp_def)
  have "length (pl_peers payload) = length entries" using p originFirst_mset by (metis size_mset)
  with p b flatten_length [OF assms(2)] show ?thesis
    by (simp add: originFirst_mset originFirst_rest originFirst_hd)
qed

definition demo_entry :: "string \<Rightarrow> Entry" where
  "demo_entry k = \<lparr>en_peer_id = k, en_libp2p = k, en_key = k, en_dist = ''0f'', en_addrs = [''a''],
     en_connection = ''NotConnected''\<rparr>"

definition demo_response :: DhtPeersResponse where
  "demo_response = \<lparr>rs_this_key = ''me'',
     rs_buckets = [\<lparr>bk_max_dist = ''ff'', bk_entries = [demo_entry ''x'', demo_entry ''me'']\<rparr>,
                   \<lparr>bk_max_dist = ''0f'', bk_entries = [demo_entry ''y'']\<rparr>]\<rparr>"

lemma demo_hex: "\<exists>b. hexToBinary ''0f'' = Some b"
  by (simp add: hexToBinary_def) code_simp

lemma demo_response_key [simp]: "rs_this_key demo_response = ''me''"
  by (simp add: demo_response_def)

lemma demo_mapEntry:
  "\<exists>p. mapEntry k i bk (demo_entry k') = Some p \<and> dht_key p = k'"
  using demo_hex by (auto simp: demo_entry_def mapEntry_def)

lemma demo_buckets:
  "rs_buckets demo_response =
     [\<lparr>bk_max_dist = ''ff'', bk_entries = [demo_entry ''x'', demo_entry ''me'']\<rparr>,
      \<lparr>bk_max_dist = ''0f'', bk_entries = [demo_entry ''y'']\<rparr>]"
  by (simp add: demo_response_def)

lemma demo_entries:
  "\<exists>entries. flattenBuckets (rs_this_key demo_response) (rs_buckets demo_response) = Some entries \<and>
     map dht_key entries = [''x'', ''me'', ''y'']"
proof -
  let ?b0 = "\<lparr>bk_max_dist = ''ff'', bk_entries = [demo_entry ''x'', demo_entry ''me'']\<rparr>"
  let ?b1 = "\<lparr>bk_max_dist = ''0f'', bk_entries = [demo_entry ''y'']\<rparr>"
  from demo_mapEntry [of "''me''" 0 ?b0 "''x''"] demo_mapEntry [of "''me''" 0 ?b0 "''me''"]
    demo_mapEntry [of "''me''" 1 ?b1 "''y''"] show ?thesis
    by (auto simp: flattenBuckets_def demo_buckets)
qed

lemma dht_table_witness:
  "\<exists>payload. mapDhtPeers demo_response = Some payload \<and> dht_key (hd (pl_peers payload)) = ''me''
     \<and> size (mset (pl_peers payload)) = 3"
proof -
  obtain entries where e: "flattenBuckets (rs_this_key demo_response) (rs_buckets demo_response) = Some entries"
    and keys: "map dht_key entries = [''x'', ''me'', ''y'']"
    using demo_entries by (elim exE conjE) (rule that)
  obtain payload where p: "mapDhtPeers demo_response = Some payload"
    using e by (simp add: mapDhtPeers_def)
  note table = dht_table [OF p e]
  have "''me'' \<in> set (map dht_key entries)" unfolding keys by simp
  then have "\<exists>p \<in> set entries. dht_key p = rs_this_key demo_response" by auto
  with table have "dht_key (hd (pl_peers payload)) = rs_this_key demo_response" by blast
  moreover have "size (mset entries) = 3" using arg_cong [OF keys, of length] by simp
  ultimately show ?thesis using p table by (metis demo_response_key)
qed

section \<open>Updates\<close>

lemma every_indexed_eq:
  assumes "every_indexed (\<lambda>x y. y = Some x) xs ys" and "length xs = length ys"
  shows "xs = ys"
proof (rule nth_equalityI [OF assms(2)])
  fix i assume "i < length xs"
  with assms show "xs ! i = ys ! i" by (simp add: every_indexed_def)
qed

text \<open>The part of a peer that \<open>sameRecord\<close> compares.\<close>

definition compared :: "NetworkNodeDhtPeer \<Rightarrow> string \<times> string list \<times> string \<times> string \<times> string" where
  "compared p = (dht_peerId p, dht_addrs p, dht_key p, dht_hexDistance p, dht_libp2p p)"

lemma sameRecord_compared:
  assumes "sameRecord state payload"
    and "\<forall>p \<in> set (nd_peers state) \<union> set (pl_peers payload). dht_addressesLength p = length (dht_addrs p)"
  shows "map compared (nd_peers state) = map compared (pl_peers payload)"
proof (rule nth_equalityI)
  show "length (map compared (nd_peers state)) = length (map compared (pl_peers payload))"
    using assms(1) by (simp add: sameRecord_def)
  fix i assume "i < length (map compared (nd_peers state))"
  then have i: "i < length (nd_peers state)" "i < length (pl_peers payload)"
    using assms(1) by (simp_all add: sameRecord_def)
  then have "samePeer (nd_peers state ! i) (pl_peers payload ! i)"
    using assms(1) by (auto simp: sameRecord_def every_indexed_def)
  with assms(2) i show "map compared (nd_peers state) ! i = map compared (pl_peers payload) ! i"
    by (auto simp: samePeer_def compared_def dest: every_indexed_eq)
qed

lemma sameRecord_connection:
  "sameRecord state \<lparr>pl_peers = map (\<lambda>p. p\<lparr>dht_connection := c p\<rparr>) (nd_peers state),
     pl_thisKey = nd_thisKey state, pl_buckets = bs\<rparr>"
  by (auto simp: sameRecord_def every_indexed_def samePeer_def)

text \<open>What an update of the table does. After every response the peers on the page agree with the
  response in identity, addresses, key and distance, also when \<open>sameRecord\<close> kept the old list. The
  connection state and the buckets are not compared: a response in which only they changed leaves
  the page as it was.\<close>

lemma dht_update:
  assumes "\<forall>p \<in> set (nd_peers state) \<union> set (pl_peers payload). dht_addressesLength p = length (dht_addrs p)"
  shows "map compared (nd_peers (networkDhtReducer state (NETWORK_NODE_DHT_GET_PEERS_SUCCESS payload))) =
           map compared (pl_peers payload)
       \<and> networkDhtReducer state (NETWORK_NODE_DHT_GET_PEERS_SUCCESS
           \<lparr>pl_peers = map (\<lambda>p. p\<lparr>dht_connection := c p\<rparr>) (nd_peers state),
            pl_thisKey = nd_thisKey state, pl_buckets = bs\<rparr>) = state"
  using sameRecord_compared [OF _ assms] sameRecord_connection by simp

definition demo_peer :: NetworkNodeDhtPeer where
  "demo_peer = \<lparr>dht_connection = ''Not Connected'', dht_peerId = ''p'', dht_addressesLength = 1,
     dht_addrs = [''a''], dht_key = ''k'', dht_hexDistance = ''0f'', dht_libp2p = ''l'',
     dht_binaryDistance = ''1111'', dht_bucketIndex = 0, dht_xorDistance = Zeros 0, dht_bucketMaxHex = ''ff''\<rparr>"

lemma dht_update_witness:
  "nd_peers (networkDhtReducer (dhtInitialState\<lparr>nd_peers := [demo_peer]\<rparr>)
     (NETWORK_NODE_DHT_GET_PEERS_SUCCESS
        \<lparr>pl_peers = [demo_peer\<lparr>dht_connection := ''Connected''\<rparr>], pl_thisKey = [], pl_buckets = []\<rparr>))
   = [demo_peer]"
  using dht_update [of "dhtInitialState\<lparr>nd_peers := [demo_peer]\<rparr>"
      "\<lparr>pl_peers = [demo_peer], pl_thisKey = [], pl_buckets = []\<rparr>" "\<lambda>_. ''Connected''" "[]"]
  by (simp add: demo_peer_def dhtInitialState_def)

section \<open>Polling\<close>

text \<open>Polling of the routing table. A response allows the next request. After a failed request the
  field \<open>pendingRequest\<close> stays set, because the \<open>tap\<close> that clears it is skipped by the error: every
  later \<open>NETWORK_NODE_DHT_GET_PEERS\<close> is filtered out, however many are dispatched, until the page is
  closed.\<close>

lemma dht_polling:
  "(rx_step (getPeers_effect now) (p, Some ()) (Rx_value v) out s \<longrightarrow>
      rx_step (getPeers_effect now) s (Rx_action NETWORK_NODE_DHT_GET_PEERS) [] (True, Some ()))
   \<and> (rx_step (getPeers_effect now) (True, Some ()) (Rx_error e) out s \<longrightarrow>
      s = (True, None) \<and>
      (rx_run (getPeers_effect now) s (replicate n (Rx_action NETWORK_NODE_DHT_GET_PEERS)) outs s' \<longrightarrow>
         s' = (True, None) \<and> outs = []) \<and>
      rx_step (getPeers_effect now) s (Rx_action NETWORK_NODE_DHT_CLOSE) [] (False, None))"
proof -
  have "rx_run (getPeers_effect now) (True, None) (replicate n (Rx_action NETWORK_NODE_DHT_GET_PEERS)) outs s' \<longrightarrow>
      s' = (True, None) \<and> outs = []"
    by (induction n arbitrary: outs) (auto simp: rx_run_Cons getPeers_effect_def)
  then show ?thesis by (auto simp: getPeers_effect_def)
qed

lemma dht_polling_witness:
  "rx_step (getPeers_effect ''t'') (False, None) (Rx_action NETWORK_NODE_DHT_GET_PEERS) [] (True, Some ())"
  using dht_polling [of "''t''" True "\<lparr>pl_peers = [], pl_thisKey = [], pl_buckets = []\<rparr>"
      "[Dispatch (NETWORK_NODE_DHT_GET_PEERS_SUCCESS \<lparr>pl_peers = [], pl_thisKey = [], pl_buckets = []\<rparr>)]"
      "(False, None)"]
  by (auto simp: getPeers_effect_def)

end
