(* ===== verification/Date_Helper.thy ===== *)
theory Date_Helper
  imports Frontend_Prelude
begin

text \<open>
  The relative times shown by the pages (\<open>shared/helpers/date.helper.ts\<close>): \<open>getTimeDiff\<close> splits the
  distance between two instants into days, hours, minutes and seconds and prints the leading units.
  Instants are whole milliseconds within the range of \<open>Date\<close>.
\<close>

record timeConfig =
  withSecs :: bool
  only1unit :: bool
  fromTime :: "int option"

definition defaultConfig :: timeConfig where
  "defaultConfig = \<lparr>withSecs = False, only1unit = False, fromTime = None\<rparr>"

record timeDiff =
  td_diff :: "string option"
  td_inFuture :: bool

definition diffDays :: "nat \<Rightarrow> nat" where "diffDays t = t div 86400000"
definition diffHours :: "nat \<Rightarrow> nat" where "diffHours t = t mod 86400000 div 3600000"
definition diffMinutes :: "nat \<Rightarrow> nat" where "diffMinutes t = t mod 86400000 mod 3600000 div 60000"
definition diffSeconds :: "nat \<Rightarrow> nat" where "diffSeconds t = t mod 86400000 mod 3600000 mod 60000 div 1000"

definition oneUnit :: "bool \<Rightarrow> nat \<Rightarrow> string" where
  "oneUnit secs t =
     (let days = diffDays t; hours = diffHours t; minutes = diffMinutes t; seconds = diffSeconds t
      in if days > 0 then (if hours \<ge> 12 then ''<'' @ dec (days + 1) @ ''d '' else ''~'' @ dec days @ ''d '')
         else if hours > 0 then (if minutes \<ge> 30 then ''<'' @ dec (hours + 1) @ ''h '' else ''~'' @ dec hours @ ''h '')
         else if minutes > 0 then (if seconds \<ge> 30 then ''<'' @ dec (minutes + 1) @ ''m '' else ''~'' @ dec minutes @ ''m '')
         else if secs then dec seconds @ ''s '' else ''<1m '')"

definition allUnits :: "bool \<Rightarrow> nat \<Rightarrow> string" where
  "allUnits secs t =
     (let days = diffDays t; hours = diffHours t; minutes = diffMinutes t; seconds = diffSeconds t;
          ago = (if days > 0 then dec days @ ''d '' else [])
            @ (if hours > 0 then dec hours @ ''h '' else [])
            @ (if days = 0 \<and> hours \<noteq> 0 \<and> minutes > 0 then dec minutes @ ''m '' else [])
            @ (if days = 0 \<and> hours = 0 \<and> minutes > 0 then dec minutes @ ''m '' else [])
            @ (if secs \<and> days = 0 \<and> hours = 0 then dec seconds @ ''s '' else [])
      in if \<not> secs \<and> days = 0 \<and> hours = 0 \<and> minutes = 0 then ''<1m '' else ago)"

definition getTimeDiff :: "int \<Rightarrow> int option \<Rightarrow> timeConfig \<Rightarrow> timeDiff" where
  "getTimeDiff now time config =
     (case time of
        None \<Rightarrow> \<lparr>td_diff = None, td_inFuture = False\<rparr>
      | Some t \<Rightarrow>
          if t = 0 then \<lparr>td_diff = None, td_inFuture = False\<rparr>
          else let paramTime = (if length (show_int t) = 10 then t * 1000 else t);
                   currentTime = (if truthy_num (fromTime config) then the (fromTime config) else now);
                   timeDifference = paramTime - currentTime;
                   t = nat \<bar>timeDifference\<bar>
               in \<lparr>td_diff = Some (js_trim (if only1unit config then oneUnit (withSecs config) t
                                           else allUnits (withSecs config) t)),
                   td_inFuture = timeDifference > 0\<rparr>)"

definition getElapsedTime :: "nat \<Rightarrow> string" where
  "getElapsedTime timeInSeconds =
     (if timeInSeconds < 60 then dec timeInSeconds @ ''s''
      else dec (timeInSeconds div 60) @ ''m '' @ dec (timeInSeconds mod 60) @ ''s'')"

definition getElapsedTimeInMinsAndHours :: "nat \<Rightarrow> string" where
  "getElapsedTimeInMinsAndHours timeInMinutes =
     (if timeInMinutes < 60 then dec timeInMinutes @ ''m''
      else dec (timeInMinutes div 60) @ ''h '' @ dec (timeInMinutes mod 60) @ ''m'')"

section \<open>Trimming\<close>

lemma dropWhile_hd: "s \<noteq> [] \<Longrightarrow> \<not> P (hd s) \<Longrightarrow> dropWhile P s = s"
  by (cases s) auto

lemma js_trim_snoc:
  assumes "s \<noteq> []" and "\<not> js_space (hd s)" and "\<not> js_space (last s)"
  shows "js_trim (s @ '' '') = s"
proof -
  have "dropWhile js_space (s @ '' '') = s @ '' ''" using assms(1,2) by (intro dropWhile_hd) auto
  moreover have "dropWhile js_space (rev s) = rev s"
    using assms(1,3) by (intro dropWhile_hd) (simp_all add: hd_rev)
  moreover have "js_space (CHR '' '')" by (simp add: js_space_def)
  ultimately show ?thesis by (simp add: js_trim_def)
qed

lemma js_space_digit: "js_isDigit c \<Longrightarrow> \<not> js_space c"
  by (auto simp: js_isDigit_def js_space_def Let_def)

lemma hd_dec: "js_isDigit (hd (dec n))"
  using dec_digits [of n] by (cases "dec n") auto


lemma unit_not_space [simp]:
  "\<not> js_space (CHR ''d'')" "\<not> js_space (CHR ''h'')" "\<not> js_space (CHR ''m'')" "\<not> js_space (CHR ''s'')"
  "\<not> js_space (CHR ''<'')" "\<not> js_space (CHR ''~'')"
  by (simp_all add: js_space_def)

lemma hd_dec_not_space [simp]: "\<not> js_space (hd (dec n))"
  using hd_dec [of n] by (simp add: js_space_digit)

section \<open>What the text says\<close>

fun unit_ms :: "char \<Rightarrow> nat" where
  "unit_ms c = (if c = CHR ''d'' then 86400000 else if c = CHR ''h'' then 3600000
     else if c = CHR ''m'' then 60000 else 1000)"

definition units_text :: "(nat \<times> char) list \<Rightarrow> string" where
  "units_text us = join_with '' '' (map (\<lambda>(n, u). dec n @ [u]) us)"

definition units_ms :: "(nat \<times> char) list \<Rightarrow> nat" where
  "units_ms us = (\<Sum>(n, u) \<leftarrow> us. n * unit_ms u)"

lemma diff_parts:
  "t = diffDays t * 86400000 + diffHours t * 3600000 + diffMinutes t * 60000 +
     t mod 86400000 mod 3600000 mod 60000"
proof -
  have "t mod 86400000 mod 3600000 = t mod 86400000 mod 3600000 div 60000 * 60000 +
      t mod 86400000 mod 3600000 mod 60000" by simp
  moreover have "t mod 86400000 = t mod 86400000 div 3600000 * 3600000 + t mod 86400000 mod 3600000" by simp
  moreover have "t = t div 86400000 * 86400000 + t mod 86400000" by simp
  ultimately show ?thesis unfolding diffDays_def diffHours_def diffMinutes_def by linarith
qed

lemma diff_rest: "t mod 86400000 mod 3600000 mod 60000 < (60000 :: nat)" by simp

lemma diff_minutes_less: "diffMinutes t < 60"
  by (simp add: diffMinutes_def less_mult_imp_div_less)

lemma diff_hours_less: "diffHours t < 24"
  by (simp add: diffHours_def less_mult_imp_div_less)

lemma allUnits_text:
  assumes "60000 \<le> t"
  shows "\<exists>us. js_trim (allUnits False t) = units_text us \<and> units_ms us \<le> t \<and>
    t < units_ms us + (if t < 86400000 then 60000 else 3600000)"
proof -
  define d h m where "d = diffDays t" and "h = diffHours t" and "m = diffMinutes t"
  note dhm = d_def [symmetric] h_def [symmetric] m_def [symmetric]
  have t: "t = d * 86400000 + h * 3600000 + m * 60000 + t mod 86400000 mod 3600000 mod 60000"
    using diff_parts unfolding d_def h_def m_def .
  note r = diff_rest [of t] and m60 = diff_minutes_less [of t, unfolded dhm] and h24 = diff_hours_less [of t, unfolded dhm]
  let ?us = "(if d > 0 then [(d, CHR ''d'')] else []) @ (if h > 0 then [(h, CHR ''h'')] else []) @
    (if d = 0 \<and> m > 0 then [(m, CHR ''m'')] else [])"
  have ne: "d > 0 \<or> h > 0 \<or> m > 0" using t r assms by (cases "d = 0 \<and> h = 0 \<and> m = 0") auto
  have "allUnits False t = units_text ?us @ '' ''"
    using ne by (auto simp: allUnits_def Let_def dhm units_text_def)
  moreover have "units_text ?us \<noteq> []" "\<not> js_space (hd (units_text ?us))" "\<not> js_space (last (units_text ?us))"
    using ne by (auto simp: units_text_def)
  ultimately have "js_trim (allUnits False t) = units_text ?us" by (simp add: js_trim_snoc)
  moreover have "units_ms ?us = d * 86400000 + h * 3600000 + (if d = 0 then m * 60000 else 0)"
    by (auto simp: units_ms_def)
  moreover have "d = 0 \<longleftrightarrow> t < 86400000" by (auto simp: d_def diffDays_def div_eq_0_iff)
  ultimately show ?thesis using t r m60 by (intro exI [of _ ?us]) auto
qed

lemma js_trim_unit:
  "js_trim (CHR ''~'' # dec n @ [u] @ '' '') = CHR ''~'' # dec n @ [u]"
  "js_trim (CHR ''<'' # dec n @ [u] @ '' '') = CHR ''<'' # dec n @ [u]"
  if "\<not> js_space u"
  using that js_trim_snoc [of "CHR ''~'' # dec n @ [u]"] js_trim_snoc [of "CHR ''<'' # dec n @ [u]"]
  by simp_all

text \<open>A text with one unit: \<open>~n\<close> is exact to half a unit from below, \<open><n\<close> to half a unit from above.\<close>

definition approx_text :: "string \<Rightarrow> nat \<Rightarrow> bool" where
  "approx_text s t \<longleftrightarrow> (\<exists>n u.
     (s = CHR ''~'' # dec n @ [u] \<and> n * unit_ms u \<le> t \<and> 2 * t < (2 * n + 1) * unit_ms u) \<or>
     (s = CHR ''<'' # dec n @ [u] \<and> (2 * n - 1) * unit_ms u \<le> 2 * t \<and> t < n * unit_ms u))"

lemma approx_textI:
  "n * unit_ms u \<le> t \<Longrightarrow> 2 * t < (2 * n + 1) * unit_ms u \<Longrightarrow> approx_text (CHR ''~'' # dec n @ [u]) t"
  "(2 * n - 1) * unit_ms u \<le> 2 * t \<Longrightarrow> t < n * unit_ms u \<Longrightarrow> approx_text (CHR ''<'' # dec n @ [u]) t"
  unfolding approx_text_def by blast+

lemma oneUnit_text:
  assumes "60000 \<le> t"
  shows "approx_text (js_trim (oneUnit secs t)) t"
proof -
  define d h m where "d = diffDays t" and "h = diffHours t" and "m = diffMinutes t"
  note dhm = d_def [symmetric] h_def [symmetric] m_def [symmetric]
  let ?r = "t mod 86400000 mod 3600000 mod 60000"
  have t: "t = d * 86400000 + h * 3600000 + m * 60000 + ?r"
    using diff_parts unfolding d_def h_def m_def .
  note r = diff_rest [of t] and m60 = diff_minutes_less [of t, unfolded dhm] and h24 = diff_hours_less [of t, unfolded dhm]
  have s: "diffSeconds t \<ge> 30 \<longleftrightarrow> ?r \<ge> 30000" by (auto simp: diffSeconds_def less_eq_div_iff_mult_less_eq)
  note trim = js_trim_unit [of "CHR ''d''", simplified] js_trim_unit [of "CHR ''h''", simplified]
    js_trim_unit [of "CHR ''m''", simplified]
  consider "d > 0" | "d = 0" "h > 0" | "d = 0" "h = 0" "m > 0"
    using t r assms by (cases "d = 0 \<and> h = 0 \<and> m = 0") auto
  then show ?thesis
  proof cases
    case 1
    then show ?thesis using t r m60 h24
      by (cases "h \<ge> 12") (auto simp: oneUnit_def Let_def dhm trim intro!: approx_textI)
  next
    case 2
    then show ?thesis using t r m60
      by (cases "m \<ge> 30") (auto simp: oneUnit_def Let_def dhm trim intro!: approx_textI)
  next
    case 3
    then show ?thesis using t r s
      by (cases "?r \<ge> 30000") (auto simp: oneUnit_def Let_def dhm trim intro!: approx_textI)
  qed
qed

definition distance_ms :: "int \<Rightarrow> int \<Rightarrow> nat" where
  "distance_ms now t = nat \<bar>t - now\<bar>"

text \<open>Relative times. For an instant in milliseconds and a distance of at least a minute from now,
  the text of \<open>getTimeDiff\<close> denotes a duration that is at most the true distance and less than a
  minute below it (less than an hour from a day on, where minutes are never printed); the text
  with one unit is exact to half that unit, on the side its prefix says. Below a minute the text is
  \<open><1m\<close>, and \<open>inFuture\<close> tells the order of the two instants.\<close>

lemma time_diff_text:
  assumes "t \<noteq> 0" and "length (show_int t) \<noteq> 10"
  shows "td_inFuture (getTimeDiff now (Some t) defaultConfig) = (t > now) \<and>
    (if distance_ms now t < 60000 then td_diff (getTimeDiff now (Some t) defaultConfig) = Some ''<1m''
     else (\<exists>us. td_diff (getTimeDiff now (Some t) defaultConfig) = Some (units_text us) \<and>
             units_ms us \<le> distance_ms now t \<and> distance_ms now t < units_ms us + (if distance_ms now t < 86400000 then 60000 else 3600000)) \<and>
          (\<exists>s. td_diff (getTimeDiff now (Some t) (defaultConfig\<lparr>only1unit := True\<rparr>)) = Some s \<and>
             approx_text s (distance_ms now t)))"
proof -
  have d: "td_diff (getTimeDiff now (Some t) defaultConfig) = Some (js_trim (allUnits False (distance_ms now t)))"
    "td_diff (getTimeDiff now (Some t) (defaultConfig\<lparr>only1unit := True\<rparr>)) = Some (js_trim (oneUnit False (distance_ms now t)))"
    "td_inFuture (getTimeDiff now (Some t) defaultConfig) = (t > now)"
    using assms(1,2) by (auto simp: getTimeDiff_def defaultConfig_def Let_def distance_ms_def)
  have "js_trim (allUnits False (distance_ms now t)) = ''<1m''" if "distance_ms now t < 60000"
  proof -
    have "allUnits False (distance_ms now t) = ''<1m'' @ '' ''"
      using that by (simp add: allUnits_def Let_def diffDays_def diffHours_def diffMinutes_def)
    then show ?thesis using js_trim_snoc [of "''<1m''"] by simp
  qed
  with allUnits_text [of "distance_ms now t"] oneUnit_text [of "distance_ms now t" False] show ?thesis
    unfolding d by (auto simp: not_less)
qed

lemma time_diff_text_witness:
  "\<exists>us. td_diff (getTimeDiff 1700000000000 (Some 1700090000000) defaultConfig) = Some (units_text us) \<and>
     units_ms us \<le> 90000000 \<and> 90000000 < units_ms us + 3600000"
proof -
  have "10 < length (dec 1700090000000)" by (rule length_to_radix_ge) simp_all
  then have "length (show_int 1700090000000) \<noteq> 10" by (simp add: show_int_def)
  from time_diff_text [OF _ this, of 1700000000000] show ?thesis by (simp add: distance_ms_def)
qed

end
