(* ===== verification/Won_Slots.thy ===== *)
theory Won_Slots
  imports Store_Reducer Effect_Pipeline Date_Helper
begin

text \<open>
  The won slots page of block production (\<open>features/block-production/won-slots\<close>): the slots the node
  won, with the progress of the block being produced. The service maps the node's attempts and
  future slots, the reducer keeps a sorted and filtered view of them, and the effect chooses the
  slot to show after each response.

  The helpers of the shared package are parameters: the sorting routine, \<open>hasValue\<close>, \<open>nanOrElse\<close>,
  \<open>isDesktop\<close> and \<open>isMobile\<close>. Times of the node are nanoseconds; the clock is the argument \<open>now\<close>, read
  once for a response.
\<close>

section \<open>Data\<close>

datatype BlockProductionWonSlotsStatus =
    Scheduled | StagedLedgerDiffCreatePending | StagedLedgerDiffCreateSuccess | Produced
  | ProofCreatePending | ProofCreateSuccess | BlockApplyPending | BlockApplySuccess
  | Committed | Discarded | Canonical | Orphaned

record BlockProductionWonSlotTimes =
  wt_scheduled :: int
  wt_stagedLedgerDiffCreate :: "rat option"
  wt_produced :: "rat option"
  wt_proofCreate :: "rat option"
  wt_blockApply :: "rat option"
  wt_discarded :: "rat option"
  wt_committed :: "rat option"
  wt_stagedLedgerDiffCreateEnd :: "int option"
  wt_producedEnd :: "int option"
  wt_proofCreateEnd :: "int option"
  wt_blockApplyEnd :: "int option"

record BlockProductionWonSlotsSlot =
  ws_epoch :: "nat option"
  ws_message :: string
  ws_age :: string
  ws_slotTime :: int
  ws_globalSlot :: nat
  ws_slotInEpoch :: "nat option"
  ws_vrfValueWithThreshold :: "rat list"
  ws_active :: bool
  ws_percentage :: "nat option"
  ws_height :: "nat option"
  ws_hash :: "string option"
  ws_transactionsTotal :: "js_number option"
  ws_payments :: "js_number option"
  ws_delegations :: "js_number option"
  ws_zkapps :: "js_number option"
  ws_snarkFees :: "rat option"
  ws_coinbaseRewards :: "rat option"
  ws_txFeesRewards :: "rat option"
  ws_completedWorksCount :: "js_number option"
  ws_times :: "BlockProductionWonSlotTimes option"
  ws_status :: "BlockProductionWonSlotsStatus option"
  ws_discardReason :: "string option"
  ws_lastObservedConfirmations :: "nat option"
  ws_orphanedBy :: "string option"

record BlockProductionWonSlotsEpoch =
  we_epochNumber :: nat
  we_start :: int
  we_end :: int
  we_currentGlobalSlot :: nat
  we_currentTime :: int
  we_evaluated :: "nat option"
  we_total :: "nat option"
  we_publicKey :: string

record BlockProductionWonSlotsFilters =
  wf_accepted :: bool
  wf_orphaned :: bool
  wf_upcoming :: bool
  wf_discarded :: bool

record BlockProductionWonSlotsState =
  bw_epoch :: "BlockProductionWonSlotsEpoch option"
  bw_slots :: "BlockProductionWonSlotsSlot list"
  bw_filteredSlots :: "BlockProductionWonSlotsSlot list"
  bw_activeSlot :: "BlockProductionWonSlotsSlot option"
  bw_activeSlotRoute :: "string option"
  bw_openSidePanel :: bool
  bw_filters :: BlockProductionWonSlotsFilters
  bw_sort :: tableSort
  bw_serverResponded :: bool

record wonSlotsPayload =
  wp_slots :: "BlockProductionWonSlotsSlot list"
  wp_epoch :: "BlockProductionWonSlotsEpoch option"
  wp_activeSlot :: "BlockProductionWonSlotsSlot option"

datatype BlockProductionWonSlotsActions =
    WonSlotsInit "string option"
  | WonSlotsClose
  | WonSlotsGetSlots
  | WonSlotsGetSlotsSuccess wonSlotsPayload
  | WonSlotsChangeFilters BlockProductionWonSlotsFilters
  | WonSlotsSetActiveSlot "BlockProductionWonSlotsSlot option"
  | WonSlotsSetActiveSlotNumber nat
  | WonSlotsSort tableSort
  | WonSlotsToggleSidePanel

section \<open>Reducer\<close>

definition wonSlotsInitialState :: "bool \<Rightarrow> BlockProductionWonSlotsState" where
  "wonSlotsInitialState isMobile =
     \<lparr>bw_epoch = None, bw_slots = [], bw_filteredSlots = [], bw_activeSlot = None,
      bw_activeSlotRoute = None, bw_openSidePanel = \<not> isMobile,
      bw_filters = \<lparr>wf_accepted = True, wf_orphaned = True, wf_upcoming = True, wf_discarded = True\<rparr>,
      bw_sort = \<lparr>sortBy = ''slotTime'', sortDirection = ASC\<rparr>, bw_serverResponded = False\<rparr>"

definition sortSlots ::
  "BlockProductionWonSlotsSlot sorter \<Rightarrow> BlockProductionWonSlotsSlot list \<Rightarrow> tableSort
     \<Rightarrow> BlockProductionWonSlotsSlot list" where
  "sortSlots srt slots ts = srt slots ts"

definition slotShown :: "BlockProductionWonSlotsFilters \<Rightarrow> BlockProductionWonSlotsSlot \<Rightarrow> bool" where
  "slotShown filters slot =
     (if (wf_accepted filters \<and> ws_status slot = Some Canonical)
         \<or> (wf_orphaned filters \<and> ws_status slot = Some Orphaned)
         \<or> (wf_discarded filters \<and> ws_status slot = Some Discarded)
         \<or> ws_active slot
         \<or> ws_status slot = Some Committed
      then True
      else (wf_upcoming filters \<and> ws_status slot = None) \<or> ws_status slot = Some Scheduled)"

definition filterSlots ::
  "BlockProductionWonSlotsSlot list \<Rightarrow> BlockProductionWonSlotsFilters
     \<Rightarrow> BlockProductionWonSlotsSlot list" where
  "filterSlots slots filters = filter (slotShown filters) slots"

fun blockProductionWonSlotsReducer ::
  "BlockProductionWonSlotsSlot sorter \<Rightarrow> bool \<Rightarrow> bool \<Rightarrow> BlockProductionWonSlotsState
     \<Rightarrow> BlockProductionWonSlotsActions \<Rightarrow> js_error + BlockProductionWonSlotsState" where
  "blockProductionWonSlotsReducer srt isDesktop isMobile state (WonSlotsInit activeSlotRoute) =
     Inr (state\<lparr>bw_activeSlotRoute := activeSlotRoute, bw_serverResponded := False\<rparr>)"
| "blockProductionWonSlotsReducer srt isDesktop isMobile state (WonSlotsGetSlotsSuccess p) =
     Inr (state\<lparr>bw_slots := wp_slots p, bw_epoch := wp_epoch p,
       bw_filteredSlots := filterSlots (sortSlots srt (wp_slots p) (bw_sort state)) (bw_filters state),
       bw_activeSlot := wp_activeSlot p,
       bw_openSidePanel := (if bw_activeSlot state \<noteq> None then bw_openSidePanel state else isDesktop),
       bw_serverResponded := True\<rparr>)"
| "blockProductionWonSlotsReducer srt isDesktop isMobile state (WonSlotsSetActiveSlot slot) =
     (case slot of
        None \<Rightarrow> Inl TypeError
      | Some s \<Rightarrow> Inr (state\<lparr>bw_activeSlot := Some s, bw_activeSlotRoute := Some (dec (ws_globalSlot s)),
          bw_openSidePanel := True\<rparr>))"
| "blockProductionWonSlotsReducer srt isDesktop isMobile state (WonSlotsSort ts) =
     Inr (state\<lparr>bw_sort := ts,
       bw_filteredSlots := filterSlots (sortSlots srt (bw_slots state) ts) (bw_filters state)\<rparr>)"
| "blockProductionWonSlotsReducer srt isDesktop isMobile state (WonSlotsChangeFilters filters) =
     Inr (state\<lparr>bw_filters := filters,
       bw_filteredSlots := filterSlots (sortSlots srt (bw_slots state) (bw_sort state)) filters\<rparr>)"
| "blockProductionWonSlotsReducer srt isDesktop isMobile state WonSlotsToggleSidePanel =
     Inr (state\<lparr>bw_openSidePanel := \<not> bw_openSidePanel state,
       bw_activeSlot := (if bw_openSidePanel state then None else bw_activeSlot state),
       bw_activeSlotRoute := (if bw_openSidePanel state then None else bw_activeSlotRoute state)\<rparr>)"
| "blockProductionWonSlotsReducer srt isDesktop isMobile state WonSlotsClose =
     Inr (wonSlotsInitialState isMobile)"
| "blockProductionWonSlotsReducer srt isDesktop isMobile state WonSlotsGetSlots = Inr state"
| "blockProductionWonSlotsReducer srt isDesktop isMobile state (WonSlotsSetActiveSlotNumber _) = Inr state"

section \<open>Service\<close>

record WonSlot =
  sl_slot_time :: int
  sl_global_slot :: nat
  sl_epoch :: nat
  sl_value_with_threshold :: "rat list"

record Transactions =
  tr_payments :: nat
  tr_delegations :: nat
  tr_zkapps :: nat

record Block =
  bl_hash :: string
  bl_height :: nat
  bl_transactions :: Transactions
  bl_coinbase :: nat
  bl_fees :: nat
  bl_snark_fees :: nat
  bl_completed_works_count :: nat

record Times =
  ti_scheduled :: int
  ti_staged_ledger_diff_create_start :: "int option"
  ti_staged_ledger_diff_create_end :: "int option"
  ti_produced :: "int option"
  ti_proof_create_start :: "int option"
  ti_proof_create_end :: "int option"
  ti_block_apply_start :: "int option"
  ti_block_apply_end :: "int option"
  ti_discarded :: "int option"
  ti_committed :: "int option"

record Attempt =
  at_won_slot :: WonSlot
  at_block :: "Block option"
  at_times :: Times
  at_status :: "BlockProductionWonSlotsStatus option"
  at_active :: bool
  at_last_observed_confirmations :: "nat option"
  at_orphaned_by :: "string option"
  at_discard_reason :: "string option"

record WonSlotResponse =
  wr_attempts :: "Attempt list"
  wr_future_won_slots :: "WonSlot list"
  wr_current_global_slot :: nat
  wr_current_time :: int
  wr_epoch_end :: int
  wr_epoch_start :: int
  wr_current_epoch :: nat
  wr_current_epoch_vrf_stats :: "(nat \<times> nat) option"
  wr_public_key :: string

text \<open>The helpers of the shared package the service uses; \<open>None\<close> is \<open>undefined\<close> or \<open>null\<close>.\<close>

record slotHelpers =
  sh_hasValue :: "rat option \<Rightarrow> bool"
  sh_nanOrElse :: "js_number option \<Rightarrow> nat \<Rightarrow> js_number"
  sh_isDesktop :: bool

definition getActive :: "int \<Rightarrow> Attempt \<Rightarrow> bool" where
  "getActive now attempt =
     (let slotTime = sl_slot_time (at_won_slot attempt)
      in slotTime \<le> now \<and> now < 3 * 60 * 1000 + slotTime \<and> \<not> truthy_num (ti_discarded (at_times attempt)))"

definition getMessage :: "bool \<Rightarrow> bool \<Rightarrow> BlockProductionWonSlotsStatus option \<Rightarrow> string" where
  "getMessage isDesktop active status =
     (if active then ''Producing''
      else if status = Some Scheduled then (if isDesktop then ''Production '' else []) @ ''Scheduled''
      else if status = Some Canonical then ''Produced Block''
      else if status = Some Orphaned then ''Orphaned'' @ '' Block''
      else if status = Some Discarded then ''Discarded'' @ '' Block''
      else if status = Some Committed then (if isDesktop then ''Waiting for Confirmation'' else ''Confirming'')
      else (if isDesktop then ''Upcoming '' else []) @ ''Won Slot'')"

definition calculateTimeAgo :: "int \<Rightarrow> bool \<Rightarrow> WonSlot \<Rightarrow> string" where
  "calculateTimeAgo now active won_slot =
     (if active then ''Now''
      else let r = getTimeDiff now (Some (sl_slot_time won_slot)) defaultConfig;
               diff = (case td_diff r of Some d \<Rightarrow> d | None \<Rightarrow> ''undefined'')
           in if td_inFuture r then ''in ~ '' @ js_remove_first (CHR ''<'') diff
              else diff @ '' ago'')"

text \<open>\<open>!end || !start ? null : (end - start) / ONE_BILLION\<close>, in seconds.\<close>

definition duration :: "int option \<Rightarrow> int option \<Rightarrow> rat option" where
  "duration endTime startTime =
     (if \<not> truthy_num endTime \<or> \<not> truthy_num startTime then None
      else Some (of_int (the endTime - the startTime) / 1000000000))"

definition orNull :: "int option \<Rightarrow> rat option" where
  "orNull x = (if truthy_num x then Some (of_int (the x)) else None)"

definition mapTimes :: "Times \<Rightarrow> BlockProductionWonSlotTimes" where
  "mapTimes t =
     \<lparr>wt_scheduled = ti_scheduled t,
      wt_stagedLedgerDiffCreate = duration (ti_staged_ledger_diff_create_end t) (ti_staged_ledger_diff_create_start t),
      wt_produced = duration (ti_produced t) (ti_staged_ledger_diff_create_end t),
      wt_proofCreate = duration (ti_proof_create_end t) (ti_proof_create_start t),
      wt_blockApply = duration (ti_block_apply_end t) (ti_block_apply_start t),
      wt_discarded = orNull (ti_discarded t),
      wt_committed = orNull (ti_committed t),
      wt_stagedLedgerDiffCreateEnd = ti_staged_ledger_diff_create_end t,
      wt_producedEnd = ti_produced t,
      wt_proofCreateEnd = ti_proof_create_end t,
      wt_blockApplyEnd = ti_block_apply_end t\<rparr>"

definition slotPercentage :: "slotHelpers \<Rightarrow> bool \<Rightarrow> BlockProductionWonSlotTimes \<Rightarrow> nat option" where
  "slotPercentage h active t =
     (if active
      then Some (length (filter (sh_hasValue h)
        [wt_stagedLedgerDiffCreate t, wt_produced t, wt_proofCreate t, wt_blockApply t, wt_committed t]) * 20)
      else None)"

definition js_nat :: "nat \<Rightarrow> js_number" where
  "js_nat n = Finite (of_nat n)"

definition toMillis :: "WonSlot \<Rightarrow> WonSlot" where
  "toMillis s = s\<lparr>sl_slot_time := sl_slot_time s div 1000000\<rparr>"

definition mapAttempt :: "slotHelpers \<Rightarrow> int \<Rightarrow> Attempt \<Rightarrow> BlockProductionWonSlotsSlot" where
  "mapAttempt h now attempt0 =
     (let attempt1 = attempt0\<lparr>at_won_slot := toMillis (at_won_slot attempt0)\<rparr>;
          attempt = attempt1\<lparr>at_active := getActive now attempt1\<rparr>;
          won_slot = at_won_slot attempt;
          block = at_block attempt;
          tx = map_option bl_transactions block;
          count = (\<lambda>f. sh_nanOrElse h (map_option (\<lambda>t. js_nat (f t)) tx) 0);
          times = mapTimes (at_times attempt)
      in \<lparr>ws_epoch = Some (sl_epoch won_slot),
          ws_message = getMessage (sh_isDesktop h) (at_active attempt) (at_status attempt),
          ws_age = calculateTimeAgo now (at_active attempt) won_slot,
          ws_slotTime = sl_slot_time won_slot,
          ws_globalSlot = sl_global_slot won_slot,
          ws_slotInEpoch = Some (sl_global_slot won_slot mod 7140),
          ws_vrfValueWithThreshold = sl_value_with_threshold won_slot,
          ws_active = at_active attempt,
          ws_percentage = slotPercentage h (at_active attempt) times,
          ws_height = map_option bl_height block,
          ws_hash = map_option bl_hash block,
          ws_transactionsTotal = Some (sh_nanOrElse h (Some (case tx of
              None \<Rightarrow> NaN
            | Some t \<Rightarrow> js_nat (tr_payments t + tr_delegations t + tr_zkapps t))) 0),
          ws_payments = Some (count tr_payments),
          ws_delegations = Some (count tr_delegations),
          ws_zkapps = Some (count tr_zkapps),
          ws_snarkFees = map_option (\<lambda>b. of_nat (bl_snark_fees b) / 1000000000) block,
          ws_coinbaseRewards = map_option (\<lambda>b. of_nat (bl_coinbase b) / 1000000000) block,
          ws_txFeesRewards = map_option (\<lambda>b. of_nat (bl_fees b) / 1000000000) block,
          ws_completedWorksCount =
            Some (sh_nanOrElse h (map_option (\<lambda>b. js_nat (bl_completed_works_count b)) block) 0),
          ws_times = Some times,
          ws_status = at_status attempt,
          ws_discardReason = at_discard_reason attempt,
          ws_lastObservedConfirmations = at_last_observed_confirmations attempt,
          ws_orphanedBy = at_orphaned_by attempt\<rparr>)"

definition mapFutureSlot :: "slotHelpers \<Rightarrow> int \<Rightarrow> WonSlot \<Rightarrow> BlockProductionWonSlotsSlot" where
  "mapFutureSlot h now slot0 =
     (let slot = toMillis slot0
      in \<lparr>ws_epoch = None, ws_message = getMessage (sh_isDesktop h) False None,
          ws_age = calculateTimeAgo now False slot, ws_slotTime = sl_slot_time slot,
          ws_globalSlot = sl_global_slot slot, ws_slotInEpoch = None,
          ws_vrfValueWithThreshold = sl_value_with_threshold slot, ws_active = False,
          ws_percentage = None, ws_height = None, ws_hash = None, ws_transactionsTotal = None,
          ws_payments = None, ws_delegations = None, ws_zkapps = None, ws_snarkFees = None,
          ws_coinbaseRewards = None, ws_txFeesRewards = None, ws_completedWorksCount = None,
          ws_times = None, ws_status = None, ws_discardReason = None,
          ws_lastObservedConfirmations = None, ws_orphanedBy = None\<rparr>)"

definition getSlots ::
  "slotHelpers \<Rightarrow> int \<Rightarrow> WonSlotResponse option
     \<Rightarrow> BlockProductionWonSlotsSlot list \<times> BlockProductionWonSlotsEpoch option" where
  "getSlots h now response =
     (case response of
        None \<Rightarrow> ([], None)
      | Some r \<Rightarrow>
          (map (mapAttempt h now) (wr_attempts r) @ map (mapFutureSlot h now) (wr_future_won_slots r),
           Some \<lparr>we_epochNumber = wr_current_epoch r, we_start = wr_epoch_start r, we_end = wr_epoch_end r,
             we_currentGlobalSlot = wr_current_global_slot r, we_currentTime = wr_current_time r,
             we_evaluated = map_option fst (wr_current_epoch_vrf_stats r),
             we_total = map_option snd (wr_current_epoch_vrf_stats r),
             we_publicKey = wr_public_key r\<rparr>))"

section \<open>Effects\<close>

definition truthy_str :: "string option \<Rightarrow> bool" where
  "truthy_str s = (case s of None \<Rightarrow> False | Some t \<Rightarrow> t \<noteq> [])"

definition preferredSlot :: "BlockProductionWonSlotsSlot list \<Rightarrow> BlockProductionWonSlotsSlot option" where
  "preferredSlot slots =
     coalesce (List.find ws_active slots)
       (coalesce (List.find (\<lambda>s. ws_status s = Some Committed) slots)
         (coalesce (List.find (\<lambda>s. ws_status s = Some Scheduled) slots)
           (List.find (\<lambda>s. ws_status s = None) slots)))"

definition chooseActiveSlot ::
  "bool \<Rightarrow> bool \<Rightarrow> BlockProductionWonSlotsState \<Rightarrow> BlockProductionWonSlotsSlot list
     \<Rightarrow> BlockProductionWonSlotsSlot option" where
  "chooseActiveSlot isDesktop isMobile bpState slots =
     (let activeSlotRoute = bw_activeSlotRoute bpState;
          newActiveSlot = List.find (\<lambda>s. Some (dec (ws_globalSlot s)) = activeSlotRoute) slots
      in if (isDesktop \<and> \<not> truthy_str activeSlotRoute)
            \<or> (truthy_str activeSlotRoute \<and> newActiveSlot = None)
            \<or> (isMobile \<and> \<not> truthy_str activeSlotRoute \<and> bw_slots bpState = [])
         then preferredSlot slots else newActiveSlot)"

definition wonSlotsRoute ::
  "bool \<Rightarrow> BlockProductionWonSlotsState \<Rightarrow> BlockProductionWonSlotsSlot option \<Rightarrow> string list" where
  "wonSlotsRoute isDesktop bpState newActiveSlot =
     [''block-production'', ''won-slots''] @
     (let activeSlotRoute = bw_activeSlotRoute bpState
      in if (newActiveSlot \<noteq> None \<and> isDesktop)
            \<or> (truthy_str activeSlotRoute \<and> bw_activeSlot bpState = None)
            \<or> (truthy_str activeSlotRoute \<and> bw_openSidePanel bpState)
         then [case newActiveSlot of None \<Rightarrow> [] | Some s \<Rightarrow> dec (ws_globalSlot s)] else [])"

text \<open>\<open>getSlots$\<close>: the request carries the state at the time of the action; the router is assumed to
  complete the navigation.\<close>

definition getSlots_effect ::
  "slotHelpers \<Rightarrow> bool \<Rightarrow> int \<Rightarrow> string \<Rightarrow>
   (unit, BlockProductionWonSlotsActions \<times> BlockProductionWonSlotsState, BlockProductionWonSlotsState,
    WonSlotResponse option, BlockProductionWonSlotsActions dispatched) effect" where
  "getSlots_effect h isMobile now clock =
     \<lparr>on_action = (\<lambda>(action, state) f. (f, case action of
          WonSlotsClose \<Rightarrow> Switch_empty
        | WonSlotsGetSlots \<Rightarrow> Switch_request state
        | _ \<Rightarrow> Filtered)),
      on_value = (\<lambda>bpState response f.
        let (slots, epoch) = getSlots h now response
        in (f, [Dispatch (WonSlotsGetSlotsSuccess \<lparr>wp_slots = slots, wp_epoch = epoch,
             wp_activeSlot = chooseActiveSlot (sh_isDesktop h) isMobile bpState slots\<rparr>)])),
      on_error = (\<lambda>e f. (f, catchErrorAndRepeat clock GENERIC
        (WonSlotsGetSlotsSuccess \<lparr>wp_slots = [], wp_epoch = None, wp_activeSlot = None\<rparr>) e))\<rparr>"

definition setActiveSlotNumber_effect ::
  "BlockProductionWonSlotsState \<Rightarrow> nat \<Rightarrow> BlockProductionWonSlotsActions" where
  "setActiveSlotNumber_effect state slotNumber =
     WonSlotsSetActiveSlot (List.find (\<lambda>s. ws_globalSlot s = slotNumber) (bw_slots state))"

interpretation wonSlots_close:
  cancel_on_close "getSlots_effect h isMobile now clock" "\<lambda>(a, _). a = WonSlotsClose"
  by unfold_locales (auto simp: getSlots_effect_def)

section \<open>The filtered view\<close>

definition wonSlots_view :: "BlockProductionWonSlotsSlot sorter \<Rightarrow> BlockProductionWonSlotsState \<Rightarrow> bool" where
  "wonSlots_view srt state \<longleftrightarrow>
     bw_filteredSlots state = filterSlots (sortSlots srt (bw_slots state) (bw_sort state)) (bw_filters state)"

lemma wonSlots_view_init:
  "sorter_permutes srt \<Longrightarrow> wonSlots_view srt (wonSlotsInitialState mobile)"
  using sorter_length [of srt "[]"]
  by (simp add: wonSlots_view_def wonSlotsInitialState_def sortSlots_def filterSlots_def)

lemma wonSlots_view_step:
  assumes "sorter_permutes srt" and "wonSlots_view srt s"
    and "blockProductionWonSlotsReducer srt desktop mobile s a = Inr s'"
  shows "wonSlots_view srt s'"
  using assms wonSlots_view_init [OF assms(1), of mobile]
  by (cases a) (auto simp: wonSlots_view_def split: option.splits)

interpretation wonSlots: reducer_invariant "blockProductionWonSlotsReducer srt desktop mobile"
  "wonSlotsInitialState mobile" "\<lambda>s. sorter_permutes srt \<longrightarrow> wonSlots_view srt s"
  by unfold_locales (auto intro: wonSlots_view_init wonSlots_view_step)

text \<open>C23. The table of won slots. After every sequence of actions that the reducer survives, the table
  is exactly the current slots, ordered by the current sort, without those the current filters
  hide: whichever of the slots, the sort and the filters changed last, none of them is stale.\<close>

theorem won_slots_view:
  assumes "sorter_permutes srt"
    and "reduce_all (blockProductionWonSlotsReducer srt desktop mobile) (wonSlotsInitialState mobile) actions = Inr s"
  shows "bw_filteredSlots s = filter (slotShown (bw_filters s)) (srt (bw_slots s) (bw_sort s)) \<and>
    set (bw_filteredSlots s) = {slot \<in> set (bw_slots s). slotShown (bw_filters s) slot}"
  using wonSlots.inv_reachable [OF assms(2)] assms(1)
  by (auto simp: wonSlots_view_def filterSlots_def sortSlots_def sorter_set)

definition demo_helpers :: slotHelpers where
  "demo_helpers = \<lparr>sh_hasValue = (\<lambda>x. x \<noteq> None), sh_nanOrElse = (\<lambda>x n. case x of
     Some (Finite q) \<Rightarrow> Finite q | _ \<Rightarrow> Finite (of_nat n)), sh_isDesktop = True\<rparr>"

definition demo_slot :: "nat \<Rightarrow> BlockProductionWonSlotsSlot" where
  "demo_slot n = mapFutureSlot demo_helpers 0 \<lparr>sl_slot_time = 0, sl_global_slot = n, sl_epoch = 0,
     sl_value_with_threshold = []\<rparr>"

definition demo_wonPayload :: wonSlotsPayload where
  "demo_wonPayload = \<lparr>wp_slots = [(demo_slot 7)\<lparr>ws_status := Some Scheduled\<rparr>, demo_slot 8],
     wp_epoch = None, wp_activeSlot = None\<rparr>"

definition noFilters :: BlockProductionWonSlotsFilters where
  "noFilters = \<lparr>wf_accepted = False, wf_orphaned = False, wf_upcoming = False, wf_discarded = False\<rparr>"

lemma demo_slot_fields [simp]:
  "ws_globalSlot (demo_slot n) = n" "ws_status (demo_slot n) = None" "\<not> ws_active (demo_slot n)"
  by (simp_all add: demo_slot_def mapFutureSlot_def Let_def toMillis_def)

theorem won_slots_view_witness:
  "\<exists>s. reduce_all (blockProductionWonSlotsReducer (\<lambda>xs _. rev xs) True False) (wonSlotsInitialState False)
       [WonSlotsGetSlotsSuccess demo_wonPayload, WonSlotsChangeFilters noFilters] = Inr s \<and>
     set (bw_filteredSlots s) = {(demo_slot 7)\<lparr>ws_status := Some Scheduled\<rparr>}"
proof -
  obtain s where s: "reduce_all (blockProductionWonSlotsReducer (\<lambda>xs _. rev xs) True False)
      (wonSlotsInitialState False) [WonSlotsGetSlotsSuccess demo_wonPayload, WonSlotsChangeFilters noFilters] = Inr s"
    by simp
  have "sorter_permutes (\<lambda>xs _. rev xs)" by (simp add: sorter_permutes_def)
  note view = won_slots_view [OF this s]
  have "bw_slots s = [(demo_slot 7)\<lparr>ws_status := Some Scheduled\<rparr>, demo_slot 8]" "bw_filters s = noFilters"
    using s by (auto simp: demo_wonPayload_def)
  moreover have "slotShown noFilters ((demo_slot 7)\<lparr>ws_status := Some Scheduled\<rparr>)"
    "\<not> slotShown noFilters (demo_slot 8)" by (simp_all add: slotShown_def noFilters_def)
  ultimately have "set (bw_filteredSlots s) = {(demo_slot 7)\<lparr>ws_status := Some Scheduled\<rparr>}"
    using view by auto
  with s show ?thesis by blast
qed

text \<open>What the filters hide. An active, committed or scheduled slot is shown under all filters: the
  filter \<open>upcoming\<close> hides only slots without a status, because \<open>&&\<close> binds tighter than \<open>||\<close> in its
  condition. A slot that is not active and between scheduling and commitment (a ledger diff, proof
  or block application pending or done) is shown under no filters.\<close>

lemma won_slots_filter:
  "slotShown filters slot \<longleftrightarrow>
     ws_active slot \<or>
     (case ws_status slot of
        None \<Rightarrow> wf_upcoming filters
      | Some Scheduled \<Rightarrow> True
      | Some Committed \<Rightarrow> True
      | Some Canonical \<Rightarrow> wf_accepted filters
      | Some Orphaned \<Rightarrow> wf_orphaned filters
      | Some Discarded \<Rightarrow> wf_discarded filters
      | Some _ \<Rightarrow> False)"
  by (auto simp: slotShown_def split: option.splits BlockProductionWonSlotsStatus.splits)

section \<open>The active slot\<close>

lemma find_globalSlot:
  assumes "n \<in> ws_globalSlot ` set slots"
  shows "\<exists>s. List.find (\<lambda>s. ws_globalSlot s = n) slots = Some s \<and> ws_globalSlot s = n \<and> s \<in> set slots"
  using assms by (cases "List.find (\<lambda>s. ws_globalSlot s = n) slots") (auto simp: find_None_iff dest: find_Some_in)

text \<open>Selecting a slot by number. If the slot is listed it becomes the active slot, the side panel
  opens, and a later response that lists the same slot keeps it active, because the route stored
  for it finds it again. If it is not listed, the effect dispatches the selection of \<open>undefined\<close> and
  the reducer throws.\<close>

lemma won_slot_selection:
  "(n \<in> ws_globalSlot ` set (bw_slots state) \<longrightarrow>
      (\<exists>state' slot. blockProductionWonSlotsReducer srt desktop mobile state (setActiveSlotNumber_effect state n) = Inr state'
         \<and> bw_activeSlot state' = Some slot \<and> ws_globalSlot slot = n \<and> bw_openSidePanel state'
         \<and> (\<forall>slots. n \<in> ws_globalSlot ` set slots \<longrightarrow>
              (\<exists>slot'. chooseActiveSlot desktop mobile state' slots = Some slot' \<and> ws_globalSlot slot' = n))))
   \<and> (n \<notin> ws_globalSlot ` set (bw_slots state) \<longrightarrow>
      blockProductionWonSlotsReducer srt desktop mobile state (setActiveSlotNumber_effect state n) = Inl TypeError)"
proof (intro conjI impI)
  assume "n \<in> ws_globalSlot ` set (bw_slots state)"
  from find_globalSlot [OF this] obtain slot where
    f: "List.find (\<lambda>s. ws_globalSlot s = n) (bw_slots state) = Some slot" "ws_globalSlot slot = n" by blast
  let ?s = "state\<lparr>bw_activeSlot := Some slot, bw_activeSlotRoute := Some (dec n), bw_openSidePanel := True\<rparr>"
  have "\<exists>slot'. chooseActiveSlot desktop mobile ?s slots = Some slot' \<and> ws_globalSlot slot' = n"
    if "n \<in> ws_globalSlot ` set slots" for slots
    using find_globalSlot [OF that] by (auto simp: chooseActiveSlot_def truthy_str_def to_radix_inject Let_def)
  with f show "\<exists>state' slot. blockProductionWonSlotsReducer srt desktop mobile state (setActiveSlotNumber_effect state n) = Inr state'
         \<and> bw_activeSlot state' = Some slot \<and> ws_globalSlot slot = n \<and> bw_openSidePanel state'
         \<and> (\<forall>slots. n \<in> ws_globalSlot ` set slots \<longrightarrow>
              (\<exists>slot'. chooseActiveSlot desktop mobile state' slots = Some slot' \<and> ws_globalSlot slot' = n))"
    by (simp add: setActiveSlotNumber_effect_def)
next
  assume "n \<notin> ws_globalSlot ` set (bw_slots state)"
  then have "List.find (\<lambda>s. ws_globalSlot s = n) (bw_slots state) = None"
    by (auto simp: find_None_iff)
  then show "blockProductionWonSlotsReducer srt desktop mobile state (setActiveSlotNumber_effect state n) = Inl TypeError"
    by (simp add: setActiveSlotNumber_effect_def)
qed

lemma won_slot_selection_witness:
  "(\<exists>state' slot. blockProductionWonSlotsReducer (\<lambda>xs _. xs) True False
       ((wonSlotsInitialState False)\<lparr>bw_slots := [demo_slot 8]\<rparr>)
       (setActiveSlotNumber_effect ((wonSlotsInitialState False)\<lparr>bw_slots := [demo_slot 8]\<rparr>) 8) = Inr state'
       \<and> bw_activeSlot state' = Some slot \<and> ws_globalSlot slot = 8)
   \<and> blockProductionWonSlotsReducer (\<lambda>xs _. xs) True False (wonSlotsInitialState False)
       (setActiveSlotNumber_effect (wonSlotsInitialState False) 9) = Inl TypeError"
proof
  show "\<exists>state' slot. blockProductionWonSlotsReducer (\<lambda>xs _. xs) True False
       ((wonSlotsInitialState False)\<lparr>bw_slots := [demo_slot 8]\<rparr>)
       (setActiveSlotNumber_effect ((wonSlotsInitialState False)\<lparr>bw_slots := [demo_slot 8]\<rparr>) 8) = Inr state'
       \<and> bw_activeSlot state' = Some slot \<and> ws_globalSlot slot = 8"
    using won_slot_selection [of 8 "(wonSlotsInitialState False)\<lparr>bw_slots := [demo_slot 8]\<rparr>" "\<lambda>xs _. xs" True False]
    by fastforce
  show "blockProductionWonSlotsReducer (\<lambda>xs _. xs) True False (wonSlotsInitialState False)
       (setActiveSlotNumber_effect (wonSlotsInitialState False) 9) = Inl TypeError"
    using won_slot_selection [of 9 "wonSlotsInitialState False" "\<lambda>xs _. xs" True False]
    by (simp add: wonSlotsInitialState_def)
qed

section \<open>A slot being produced\<close>

lemma getMessage_Producing: "getMessage desktop active status = ''Producing'' \<longleftrightarrow> active"
  by (auto simp: getMessage_def)

lemma last_dec_isDigit: "js_isDigit (last (dec n))"
  using dec_digits [of n] by (cases "dec n" rule: rev_cases) auto

lemma calculateTimeAgo_Now: "calculateTimeAgo now active s = ''Now'' \<longleftrightarrow> active"
proof -
  have "d @ '' ago'' \<noteq> ''Now''" for d
  proof
    assume "d @ '' ago'' = ''Now''"
    then have "last (d @ '' ago'') = last ''Now''" by (rule arg_cong)
    then show False by simp
  qed
  then show ?thesis by (simp add: calculateTimeAgo_def Let_def)
qed

text \<open>The display of a slot agrees with its state. A slot counts as active exactly in the three
  minutes from its time on, unless it was discarded; then and only then it is shown as
  \<open>Producing\<close>, its age as \<open>Now\<close>, and its progress is a multiple of 20 per cent up to 100.\<close>

lemma won_slot_display:
  "let slot = mapAttempt h now attempt; time = sl_slot_time (at_won_slot attempt) div 1000000
   in (ws_active slot \<longleftrightarrow> time \<le> now \<and> now < time + 180000 \<and> \<not> truthy_num (ti_discarded (at_times attempt)))
    \<and> (ws_message slot = ''Producing'' \<longleftrightarrow> ws_active slot)
    \<and> (ws_age slot = ''Now'' \<longleftrightarrow> ws_active slot)
    \<and> (case ws_percentage slot of None \<Rightarrow> \<not> ws_active slot
         | Some p \<Rightarrow> ws_active slot \<and> p \<le> 100 \<and> 20 dvd p)"
proof -
  have "length (filter P [a, b, c, d, e]) \<le> 5" for P :: "rat option \<Rightarrow> bool" and a b c d e
    using length_filter_le [of P "[a, b, c, d, e]"] by simp
  then show ?thesis
    by (auto simp: mapAttempt_def Let_def getActive_def toMillis_def getMessage_Producing
        calculateTimeAgo_Now slotPercentage_def simp del: filter.simps)
qed

end
