(* ===== verification/Work_Pool.thy ===== *)
theory Work_Pool
  imports Store_Reducer Effect_Pipeline
begin

text \<open>
  The SNARK work pool page (\<open>features/snarks/work-pool\<close>): the jobs of the SNARK pool with their
  commitments and proofs. The service marks each as local or remote by comparing the snarker's
  public key, the reducer keeps a sorted and filtered view, the effects load the pool and the
  details of the selected job.

  \<open>sort\<close>, \<open>toggleItem\<close> and \<open>toReadableDate\<close> of the shared package are parameters, as is \<open>isDesktop\<close>.
  Job details and specifications are JSON values.
\<close>

section \<open>Data\<close>

datatype origin = Local | Remote

record WorkPoolCommitment =
  wc_sender :: string
  wc_received_t :: int
  wc_date :: string
  wc_timestamp :: int
  wc_snarker :: string
  wc_fee :: string
  wc_job_id :: string

record WorkPoolSnark =
  wsn_snarker :: string
  wsn_fee :: string
  wsn_received_t :: int
  wsn_sender :: string

record WorkPool =
  wk_datetime :: string
  wk_timestamp :: int
  wk_id :: string
  wk_commitment :: "WorkPoolCommitment option"
  wk_snark :: "WorkPoolSnark option"
  wk_snarkRecLatency :: "rat option"
  wk_snarkOrigin :: "origin option"
  wk_commitmentRecLatency :: "rat option"
  wk_commitmentOrigin :: "origin option"
  wk_commitmentCreatedLatency :: "rat option"
  wk_notSameCommitter :: bool

record SnarksWorkPoolState =
  wps_workPools :: "WorkPool list"
  wps_filteredWorkPools :: "WorkPool list"
  wps_activeWorkPool :: "WorkPool option"
  wps_openSidePanel :: bool
  wps_sort :: tableSort
  wps_filters :: "string list"
  wps_activeWorkPoolSpecs :: "json option"
  wps_activeWorkPoolDetail :: "json option"

datatype SnarksWorkPoolActions =
    SNARKS_WORK_POOL_INIT
  | SNARKS_WORK_POOL_GET_WORK_POOL
  | SNARKS_WORK_POOL_GET_WORK_POOL_SUCCESS "WorkPool list"
  | SNARKS_WORK_POOL_SORT_WORK_POOL tableSort
  | SNARKS_WORK_POOL_SET_ACTIVE_WORK_POOL "string option"
  | SNARKS_WORK_POOL_GET_WORK_POOL_DETAIL "string option"
  | SNARKS_WORK_POOL_GET_WORK_POOL_DETAIL_SUCCESS "json option" "json option"
  | SNARKS_WORK_POOL_TOGGLE_SIDE_PANEL
  | SNARKS_WORK_POOL_TOGGLE_FILTER string
  | SNARKS_WORK_POOL_CLOSE

section \<open>Reducer\<close>

definition workPoolInitialState :: "bool \<Rightarrow> SnarksWorkPoolState" where
  "workPoolInitialState isDesktop =
     \<lparr>wps_workPools = [], wps_filteredWorkPools = [], wps_activeWorkPool = None,
      wps_openSidePanel = isDesktop, wps_sort = \<lparr>sortBy = ''timestamp'', sortDirection = DSC\<rparr>,
      wps_filters = [], wps_activeWorkPoolSpecs = None, wps_activeWorkPoolDetail = None\<rparr>"

definition filterWorkPools :: "WorkPool list \<Rightarrow> string list \<Rightarrow> js_error + WorkPool list" where
  "filterWorkPools workPools filters =
     (if filters = [] then Inr workPools
      else if ''local'' \<in> set filters
      then Inr (filter (\<lambda>w. wk_snarkOrigin w = Some Local \<or> wk_commitmentOrigin w = Some Local) workPools)
      else if ''remote'' \<in> set filters
      then Inr (filter (\<lambda>w. wk_snarkOrigin w = Some Remote \<or> wk_commitmentOrigin w = Some Remote) workPools)
      else Inl (Error ''Unknown filter''))"

definition sortWorkPools :: "WorkPool sorter \<Rightarrow> WorkPool list \<Rightarrow> tableSort \<Rightarrow> WorkPool list" where
  "sortWorkPools srt events ts = srt events ts"

fun workPoolReducer ::
  "WorkPool sorter \<Rightarrow> (string list \<Rightarrow> string \<Rightarrow> string list) \<Rightarrow> bool
     \<Rightarrow> SnarksWorkPoolState \<Rightarrow> SnarksWorkPoolActions \<Rightarrow> js_error + SnarksWorkPoolState" where
  "workPoolReducer srt toggleItem isDesktop state (SNARKS_WORK_POOL_GET_WORK_POOL_SUCCESS payload) =
     (let workPools = sortWorkPools srt payload (wps_sort state)
      in Inr (state\<lparr>wps_workPools := workPools, wps_filteredWorkPools := workPools\<rparr>))"
| "workPoolReducer srt toggleItem isDesktop state (SNARKS_WORK_POOL_SET_ACTIVE_WORK_POOL payloadId) =
     Inr (state\<lparr>wps_openSidePanel := True,
       wps_activeWorkPool := List.find (\<lambda>w. Some (wk_id w) = payloadId) (wps_workPools state),
       wps_activeWorkPoolSpecs := None\<rparr>)"
| "workPoolReducer srt toggleItem isDesktop state (SNARKS_WORK_POOL_SORT_WORK_POOL payload) =
     (case filterWorkPools (sortWorkPools srt (wps_workPools state) payload) (wps_filters state) of
        Inl e \<Rightarrow> Inl e
      | Inr ws \<Rightarrow> Inr (state\<lparr>wps_sort := payload, wps_filteredWorkPools := ws\<rparr>))"
| "workPoolReducer srt toggleItem isDesktop state SNARKS_WORK_POOL_TOGGLE_SIDE_PANEL =
     Inr (state\<lparr>wps_openSidePanel := \<not> wps_openSidePanel state, wps_activeWorkPool := None\<rparr>)"
| "workPoolReducer srt toggleItem isDesktop state (SNARKS_WORK_POOL_TOGGLE_FILTER payload) =
     (let filters = toggleItem (wps_filters state) payload
      in case filterWorkPools (wps_workPools state) filters of
           Inl e \<Rightarrow> Inl e
         | Inr ws \<Rightarrow> Inr (state\<lparr>wps_filters := filters, wps_filteredWorkPools := ws\<rparr>))"
| "workPoolReducer srt toggleItem isDesktop state (SNARKS_WORK_POOL_GET_WORK_POOL_DETAIL_SUCCESS specs detail) =
     Inr (state\<lparr>wps_activeWorkPoolSpecs := specs, wps_activeWorkPoolDetail := detail\<rparr>)"
| "workPoolReducer srt toggleItem isDesktop state SNARKS_WORK_POOL_CLOSE = Inr (workPoolInitialState isDesktop)"
| "workPoolReducer srt toggleItem isDesktop state SNARKS_WORK_POOL_INIT = Inr state"
| "workPoolReducer srt toggleItem isDesktop state SNARKS_WORK_POOL_GET_WORK_POOL = Inr state"
| "workPoolReducer srt toggleItem isDesktop state (SNARKS_WORK_POOL_GET_WORK_POOL_DETAIL _) = Inr state"

section \<open>Service\<close>

record poolItem =
  pi_id :: string
  pi_time :: int
  pi_commitment :: "WorkPoolCommitment option"
  pi_snark :: "WorkPoolSnark option"

text \<open>\<open>[a, b].includes(hash)\<close>; the hash is \<open>null\<close> when the node runs no snarker.\<close>

definition originOf :: "string option \<Rightarrow> string \<Rightarrow> string \<Rightarrow> origin" where
  "originOf snarkerHash snarker sender =
     (if snarkerHash \<in> {Some snarker, Some sender} then Local else Remote)"

definition mapWorkPoolItem :: "(rat \<Rightarrow> string) \<Rightarrow> string option \<Rightarrow> poolItem \<Rightarrow> WorkPool" where
  "mapWorkPoolItem toReadableDate snarkerHash item =
     \<lparr>wk_datetime = toReadableDate (of_int (pi_time item) / 1000000),
      wk_timestamp = pi_time item,
      wk_id = pi_id item,
      wk_commitment = map_option (\<lambda>c. c\<lparr>wc_date := toReadableDate (of_int (wc_timestamp c))\<rparr>) (pi_commitment item),
      wk_snark = pi_snark item,
      wk_snarkRecLatency = map_option (\<lambda>s. of_int (wsn_received_t s - pi_time item) / 1000000000) (pi_snark item),
      wk_snarkOrigin = map_option (\<lambda>s. originOf snarkerHash (wsn_snarker s) (wsn_sender s)) (pi_snark item),
      wk_commitmentRecLatency =
        map_option (\<lambda>c. of_int (wc_received_t c - pi_time item) / 1000000000) (pi_commitment item),
      wk_commitmentOrigin =
        map_option (\<lambda>c. originOf snarkerHash (wc_snarker c) (wc_sender c)) (pi_commitment item),
      wk_commitmentCreatedLatency =
        map_option (\<lambda>c. of_int (wc_timestamp c) / 1000 - of_int (pi_time item) / 1000000000) (pi_commitment item),
      wk_notSameCommitter = (case (pi_commitment item, pi_snark item) of
          (Some c, Some s) \<Rightarrow> wc_snarker c \<noteq> wsn_snarker s
        | _ \<Rightarrow> False)\<rparr>"

definition mapWorkPoolResponse :: "(rat \<Rightarrow> string) \<Rightarrow> string option \<Rightarrow> poolItem list \<Rightarrow> WorkPool list" where
  "mapWorkPoolResponse toReadableDate snarkerHash response =
     map (mapWorkPoolItem toReadableDate snarkerHash) response"

text \<open>\<open>getWorkPool\<close>: the key is fetched (\<open>config\<close>) only while none is cached; the cached key is the first
  component of the result.\<close>

definition getSnarkerPublicKey :: "string option \<Rightarrow> string option" where
  "getSnarkerPublicKey config = config"

definition getWorkPool ::
  "(rat \<Rightarrow> string) \<Rightarrow> string option \<Rightarrow> string option \<Rightarrow> poolItem list \<Rightarrow> string option \<times> WorkPool list" where
  "getWorkPool toReadableDate snarkerHash config response =
     (let hash = (case snarkerHash of
          Some h \<Rightarrow> if h \<noteq> [] then Some h else getSnarkerPublicKey config
        | None \<Rightarrow> getSnarkerPublicKey config)
      in (hash, mapWorkPoolResponse toReadableDate hash response))"

section \<open>Effects\<close>

text \<open>\<open>getWorkPool$\<close>: the field \<open>pendingRequest\<close>. The \<open>tap\<close> that clears it stands after
  \<open>catchErrorAndRepeat\<close>, so it runs for responses and for the actions after an error, but not when
  the page is closed, because then nothing is emitted.\<close>

definition getWorkPool_effect ::
  "string \<Rightarrow> (bool, SnarksWorkPoolActions, unit, WorkPool list, SnarksWorkPoolActions dispatched) effect" where
  "getWorkPool_effect now =
     \<lparr>on_action = (\<lambda>action pendingRequest. case action of
          SNARKS_WORK_POOL_GET_WORK_POOL \<Rightarrow>
            if \<not> pendingRequest then (True, Switch_request ()) else (pendingRequest, Filtered)
        | SNARKS_WORK_POOL_CLOSE \<Rightarrow> (pendingRequest, Switch_empty)
        | _ \<Rightarrow> (pendingRequest, Filtered)),
      on_value = (\<lambda>_ payload _. (False, [Dispatch (SNARKS_WORK_POOL_GET_WORK_POOL_SUCCESS payload)])),
      on_error = (\<lambda>e _. (False, catchErrorAndRepeat now GENERIC (SNARKS_WORK_POOL_GET_WORK_POOL_SUCCESS []) e))\<rparr>"

definition selectActiveWorkPool_effect ::
  "(string option \<Rightarrow> bool) \<Rightarrow> string option \<Rightarrow> SnarksWorkPoolActions option" where
  "selectActiveWorkPool_effect hasValue payloadId =
     (if hasValue payloadId then Some (SNARKS_WORK_POOL_GET_WORK_POOL_DETAIL payloadId) else None)"

text \<open>\<open>getActiveWorkPoolDetail$\<close>. The filter asks for an identifier in the payload, which
  \<open>SNARKS_WORK_POOL_CLOSE\<close> does not have (\<open>None\<close>); \<open>hasValue\<close> is a helper of the shared package. Reading
  the identifier of an absent active job throws inside \<open>switchMap\<close>, which is the request \<open>None\<close> that
  can only fail.\<close>

definition getDetail_effect ::
  "(string option \<Rightarrow> bool) \<Rightarrow> string \<Rightarrow>
   (unit, SnarksWorkPoolActions \<times> SnarksWorkPoolState, string option, json \<times> json,
     SnarksWorkPoolActions dispatched) effect" where
  "getDetail_effect hasValue now =
     \<lparr>on_action = (\<lambda>(action, state) f. (f, case action of
          SNARKS_WORK_POOL_GET_WORK_POOL_DETAIL payloadId \<Rightarrow>
            if hasValue payloadId
            then Switch_request (map_option wk_id (wps_activeWorkPool state)) else Filtered
        | SNARKS_WORK_POOL_CLOSE \<Rightarrow> if hasValue None then Switch_empty else Filtered
        | _ \<Rightarrow> Filtered)),
      on_value = (\<lambda>_ (specs, detail) f.
        (f, [Dispatch (SNARKS_WORK_POOL_GET_WORK_POOL_DETAIL_SUCCESS (Some specs) (Some detail))])),
      on_error = (\<lambda>e f. (f, catchErrorAndRepeat now GENERIC
        (SNARKS_WORK_POOL_GET_WORK_POOL_DETAIL_SUCCESS None None) e))\<rparr>"

interpretation workPool_close: cancel_on_close "getWorkPool_effect now" "\<lambda>a. a = SNARKS_WORK_POOL_CLOSE"
  by unfold_locales (simp add: getWorkPool_effect_def)

section \<open>Origins and filters\<close>

text \<open>Whether a public key took part in a job.\<close>

definition involved :: "string \<Rightarrow> poolItem \<Rightarrow> bool" where
  "involved key item \<longleftrightarrow>
     (\<exists>c. pi_commitment item = Some c \<and> key \<in> {wc_snarker c, wc_sender c}) \<or>
     (\<exists>s. pi_snark item = Some s \<and> key \<in> {wsn_snarker s, wsn_sender s})"

lemma origin_local_iff:
  "(wk_snarkOrigin (mapWorkPoolItem dt (Some key) i) = Some Local \<or>
    wk_commitmentOrigin (mapWorkPoolItem dt (Some key) i) = Some Local) \<longleftrightarrow> involved key i"
  by (auto simp: mapWorkPoolItem_def originOf_def involved_def split: if_splits)

text \<open>The local filter. When the pool is loaded with a known snarker key and no filter was active,
  toggling the filter \<open>local\<close> on shows exactly the jobs whose commitment or proof was made or sent
  under that key, each as often as the pool lists it; the key, once known, is never fetched again.\<close>

lemma work_pool_local_filter:
  assumes "sorter_permutes srt" and "toggleItem [] ''local'' = [''local'']" and "key \<noteq> []"
    and "wps_filters state = []"
    and "getWorkPool dt cached config items = (Some key, pools)"
  shows "\<exists>s1 s2. workPoolReducer srt toggleItem d state (SNARKS_WORK_POOL_GET_WORK_POOL_SUCCESS pools) = Inr s1
     \<and> workPoolReducer srt toggleItem d s1 (SNARKS_WORK_POOL_TOGGLE_FILTER ''local'') = Inr s2
     \<and> mset (wps_filteredWorkPools s2) =
         mset (map (mapWorkPoolItem dt (Some key)) (filter (involved key) items))
     \<and> getWorkPool dt (Some key) config' items = (Some key, pools)"
proof -
  let ?P = "\<lambda>w. wk_snarkOrigin w = Some Local \<or> wk_commitmentOrigin w = Some Local"
  from assms(5) have pools: "pools = map (mapWorkPoolItem dt (Some key)) items"
    by (auto simp: getWorkPool_def mapWorkPoolResponse_def Let_def)
  have "mset (filter ?P (srt pools (wps_sort state))) = filter_mset ?P (mset pools)"
    by (simp add: sorter_mset [OF assms(1)])
  also have "\<dots> = mset (filter ?P pools)" by simp
  also have "filter ?P pools = map (mapWorkPoolItem dt (Some key)) (filter (involved key) items)"
    unfolding pools by (simp add: filter_map comp_def origin_local_iff)
  finally show ?thesis
    using assms(1-4) pools by (simp add: Let_def filterWorkPools_def sortWorkPools_def getWorkPool_def
        mapWorkPoolResponse_def)
qed

definition demo_item :: "string \<Rightarrow> string \<Rightarrow> poolItem" where
  "demo_item i key = \<lparr>pi_id = i, pi_time = 0, pi_commitment = None,
     pi_snark = Some \<lparr>wsn_snarker = key, wsn_fee = ''1'', wsn_received_t = 1, wsn_sender = ''x''\<rparr>\<rparr>"

definition demo_toggle :: "string list \<Rightarrow> string \<Rightarrow> string list" where
  "demo_toggle xs x = (if x \<in> set xs then removeAll x xs else xs @ [x])"

lemma work_pool_local_filter_witness:
  "\<exists>s1 s2. workPoolReducer (\<lambda>xs _. xs) demo_toggle True (workPoolInitialState True)
       (SNARKS_WORK_POOL_GET_WORK_POOL_SUCCESS (snd (getWorkPool (\<lambda>_. []) None (Some ''me'')
          [demo_item ''a'' ''me'', demo_item ''b'' ''you'']))) = Inr s1
     \<and> workPoolReducer (\<lambda>xs _. xs) demo_toggle True s1 (SNARKS_WORK_POOL_TOGGLE_FILTER ''local'') = Inr s2
     \<and> mset (map wk_id (wps_filteredWorkPools s2)) = {#''a''#}"
proof -
  let ?items = "[demo_item ''a'' ''me'', demo_item ''b'' ''you'']"
  have g: "getWorkPool (\<lambda>_. []) None (Some ''me'') ?items =
      (Some ''me'', snd (getWorkPool (\<lambda>_. []) None (Some ''me'') ?items))"
    by (simp add: getWorkPool_def getSnarkerPublicKey_def Let_def)
  have f: "filter (involved ''me'') ?items = [demo_item ''a'' ''me'']"
    by (simp add: involved_def demo_item_def)
  have h: "sorter_permutes (\<lambda>xs _. xs)" "demo_toggle [] ''local'' = [''local'']" "''me'' \<noteq> []"
    "wps_filters (workPoolInitialState True) = []"
    by (simp_all add: sorter_permutes_def demo_toggle_def workPoolInitialState_def)
  obtain s1 s2 where
    s: "workPoolReducer (\<lambda>xs _. xs) demo_toggle True (workPoolInitialState True)
       (SNARKS_WORK_POOL_GET_WORK_POOL_SUCCESS (snd (getWorkPool (\<lambda>_. []) None (Some ''me'') ?items))) = Inr s1"
    "workPoolReducer (\<lambda>xs _. xs) demo_toggle True s1 (SNARKS_WORK_POOL_TOGGLE_FILTER ''local'') = Inr s2"
    and m: "mset (wps_filteredWorkPools s2) =
      mset (map (mapWorkPoolItem (\<lambda>_. []) (Some ''me'')) (filter (involved ''me'') ?items))"
    using work_pool_local_filter [of "\<lambda>xs _. xs" demo_toggle "''me''" "workPoolInitialState True" "\<lambda>_. []", OF h g,
        of True None] by (elim exE conjE) (rule that)
  have "mset (map wk_id (wps_filteredWorkPools s2)) = {#''a''#}"
    using arg_cong [OF m [unfolded f], of "image_mset wk_id"] by (simp add: mapWorkPoolItem_def demo_item_def)
  with s show ?thesis by (intro exI conjI)
qed

section \<open>Stale views\<close>

text \<open>When the view disagrees with the filters and the sort. A response replaces the view by all
  jobs of the response, whatever filters are active. Toggling a filter filters the list in the
  order it had when it was loaded, not in the order last chosen, since sorting does not touch that
  list.\<close>

lemma work_pool_stale_view:
  assumes "workPoolReducer srt toggleItem d state (SNARKS_WORK_POOL_SORT_WORK_POOL ts) = Inr resorted"
  shows "(\<exists>loaded. workPoolReducer srt toggleItem d state (SNARKS_WORK_POOL_GET_WORK_POOL_SUCCESS pools) = Inr loaded
            \<and> wps_filters loaded = wps_filters state
            \<and> wps_filteredWorkPools loaded = srt pools (wps_sort state))
       \<and> (workPoolReducer srt toggleItem d resorted (SNARKS_WORK_POOL_TOGGLE_FILTER x) = Inr toggled \<longrightarrow>
            wps_sort toggled = ts \<and>
            Inr (wps_filteredWorkPools toggled) =
              filterWorkPools (wps_workPools state) (toggleItem (wps_filters state) x))"
  using assms by (auto simp: Let_def sortWorkPools_def split: sum.splits)

lemma work_pool_stale_view_witness:
  "\<exists>loaded. workPoolReducer (\<lambda>xs _. xs) demo_toggle True ((workPoolInitialState True)\<lparr>wps_filters := [''local'']\<rparr>)
     (SNARKS_WORK_POOL_GET_WORK_POOL_SUCCESS [mapWorkPoolItem (\<lambda>_. []) (Some ''me'') (demo_item ''b'' ''you'')])
       = Inr loaded
     \<and> wps_filters loaded = [''local''] \<and> map wk_id (wps_filteredWorkPools loaded) = [''b'']"
  using work_pool_stale_view [of "\<lambda>xs _. xs" demo_toggle True
      "(workPoolInitialState True)\<lparr>wps_filters := [''local'']\<rparr>" "wps_sort (workPoolInitialState True)"
      "(workPoolInitialState True)\<lparr>wps_filters := [''local'']\<rparr>"
      "[mapWorkPoolItem (\<lambda>_. []) (Some ''me'') (demo_item ''b'' ''you'')]" "''x''" "workPoolInitialState True"]
  by (simp add: filterWorkPools_def sortWorkPools_def workPoolInitialState_def mapWorkPoolItem_def demo_item_def Let_def)

section \<open>Closing the page\<close>

lemma work_pool_stuck:
  "rx_run (getWorkPool_effect now) s evs outs s' \<Longrightarrow> s = (True, None) \<Longrightarrow> s' = (True, None) \<and> outs = []"
  by (induction rule: rx_run.induct)
    (auto simp: rx_step_apply getWorkPool_effect_def split: SnarksWorkPoolActions.splits,
     (case_tac ev; auto split: SnarksWorkPoolActions.splits)+)

text \<open>Closing the page while the pool is loading disables it for good: the request is cancelled but
  \<open>pendingRequest\<close> stays set, so no later action, not even closing the page again, ever sends a
  request. After a response or an error, in contrast, the next load does send one.\<close>

lemma work_pool_close_pending:
  "(rx_run (getWorkPool_effect now) (False, None)
      ([Rx_action SNARKS_WORK_POOL_GET_WORK_POOL, Rx_action SNARKS_WORK_POOL_CLOSE] @ evs) outs s \<longrightarrow>
      s = (True, None) \<and> outs = [])
   \<and> (rx_step (getWorkPool_effect now) (True, Some ()) (Rx_error e) out s2 \<longrightarrow>
      rx_step (getWorkPool_effect now) s2 (Rx_action SNARKS_WORK_POOL_GET_WORK_POOL) [] (True, Some ()))"
  by (auto simp: rx_run_Cons getWorkPool_effect_def dest: work_pool_stuck [unfolded getWorkPool_effect_def])

lemma work_pool_close_pending_witness:
  "rx_step (getWorkPool_effect ''t'') (False, None) (Rx_action SNARKS_WORK_POOL_GET_WORK_POOL) [] (True, Some ())"
  using work_pool_close_pending [of "''t''" "[]" "[]" "(True, None)" "\<lparr>err_message = [], err_status = None\<rparr>"
      "catchErrorAndRepeat ''t'' GENERIC (SNARKS_WORK_POOL_GET_WORK_POOL_SUCCESS []) \<lparr>err_message = [], err_status = None\<rparr>"
      "(False, None)"]
  by (auto simp: getWorkPool_effect_def)

text \<open>Closing the page does not cancel the request for the details of a job: when \<open>hasValue\<close> is false
  of \<open>undefined\<close>, the filter of the pipeline drops the close action, and the response that arrives
  afterwards is dispatched and written into the state that closing had reset.\<close>

lemma work_pool_late_detail:
  assumes "\<not> hasValue None"
  shows "\<exists>state.
     workPoolReducer srt toggleItem d old SNARKS_WORK_POOL_CLOSE = Inr (workPoolInitialState d) \<and>
     rx_run (getDetail_effect hasValue now) ((), Some job)
       [Rx_action (SNARKS_WORK_POOL_CLOSE, workPoolInitialState d), Rx_value (specs, detail)]
       [Dispatch (SNARKS_WORK_POOL_GET_WORK_POOL_DETAIL_SUCCESS (Some specs) (Some detail))] ((), None) \<and>
     workPoolReducer srt toggleItem d (workPoolInitialState d)
       (SNARKS_WORK_POOL_GET_WORK_POOL_DETAIL_SUCCESS (Some specs) (Some detail)) = Inr state \<and>
     wps_activeWorkPoolSpecs state = Some specs \<and> wps_activeWorkPool state = None"
  using assms by (simp add: rx_run_Cons getDetail_effect_def workPoolInitialState_def)

lemma work_pool_late_detail_witness:
  "\<exists>state. workPoolReducer (\<lambda>xs _. xs) demo_toggle True (workPoolInitialState True)
       (SNARKS_WORK_POOL_GET_WORK_POOL_DETAIL_SUCCESS (Some JNull) (Some JNull)) = Inr state \<and>
     wps_activeWorkPoolSpecs state = Some JNull \<and> wps_activeWorkPool state = None"
  using work_pool_late_detail [of "\<lambda>x. x \<noteq> None" "\<lambda>xs _. xs" demo_toggle True "workPoolInitialState True"
      "''t''" "Some ''j''" JNull JNull]
  by (auto simp: workPoolInitialState_def)

end
