(* ===== verification/Scan_State.thy ===== *)
theory Scan_State
  imports Store_Reducer Effect_Pipeline
begin

text \<open>
  The scan state page (\<open>features/snarks/scan-state\<close>): the trees of SNARK jobs of a block. The service
  numbers the leaves, counts them by status and kind, and hands the leaves being worked on to the
  snarkers that committed to them; the effect loads a block by height or hash and lets a newer
  request replace an older one.

  The list of configured nodes is not empty (with an empty list \<open>forkJoin\<close> would complete without a
  value). \<open>isDesktop\<close> and the local storage are arguments.
\<close>

section \<open>Data\<close>

datatype ScanStateLeafStatus = Empty | Pending | Done | Todo

record leafCommitment =
  cm_snarker :: string
  cm_json :: json

record leafSnark =
  sn_snarker :: string
  sn_fee :: string

record ScanStateLeaf =
  lf_status :: "ScanStateLeafStatus option"
  lf_job_id :: "string option"
  lf_bundle_job_id :: "string option"
  lf_kind :: "string option"
  lf_seq_no :: "nat option"
  lf_commitment :: "leafCommitment option"
  lf_snark :: "leafSnark option"
  lf_jobIndex :: "nat option"
  lf_treeIndex :: "nat option"
  lf_scrolling :: "bool option"

record ScanStateTree =
  st_leafs :: "ScanStateLeaf list"
  st_availableJobs :: nat
  st_ongoing :: nat
  st_notIncludedSnarks :: nat
  st_completedSnarks :: nat
  st_empty :: nat
  st_coinbase :: nat
  st_payment :: nat
  st_zkApp :: nat
  st_feeTransfer :: nat
  st_merge :: nat

record ScanStateWorkingSnarker =
  sk_hash :: string
  sk_name :: string
  sk_local :: bool
  sk_url :: string
  sk_leafs :: "ScanStateLeaf list"
  sk_error :: "string option"

record ScanStateBlock =
  sb_hash :: "string option"
  sb_height :: "nat option"
  sb_globalSlot :: "nat option"
  sb_transactions :: "json option"
  sb_completedWorks :: "json option"
  sb_workingSnarkers :: "ScanStateWorkingSnarker list"
  sb_trees :: "ScanStateTree list"

record ScanStateState =
  ss_block :: "ScanStateBlock option"
  ss_activeJobId :: "string option"
  ss_activeLeaf :: "ScanStateLeaf option"
  ss_openSidePanel :: bool
  ss_sideBarResized :: nat
  ss_stream :: bool
  ss_treeView :: bool
  ss_highlightSnarkPool :: bool

datatype height_or_hash = Height nat | Hash string

datatype ScanStateActions =
    SCAN_STATE_INIT
  | SCAN_STATE_INIT_SUCCESS
  | SCAN_STATE_CLOSE
  | SCAN_STATE_GET_BLOCK "height_or_hash js"
  | SCAN_STATE_GET_BLOCK_SUCCESS ScanStateBlock
  | SCAN_STATE_SET_ACTIVE_JOB_ID "string option"
  | SCAN_STATE_SET_ACTIVE_LEAF "ScanStateLeaf option"
  | SCAN_STATE_TOGGLE_SIDE_PANEL
  | SCAN_STATE_SIDEBAR_RESIZED
  | SCAN_STATE_START
  | SCAN_STATE_PAUSE
  | SCAN_STATE_TOGGLE_TREE_VIEW
  | SCAN_STATE_HIGHLIGHT_SNARK_POOL

section \<open>Reducer\<close>

text \<open>The tree view stored by an earlier session: \<open>JSON.parse(stored ?? 'false')\<close> on the two strings the
  program writes.\<close>

definition storedTreeView :: "(string \<rightharpoonup> string) \<Rightarrow> bool" where
  "storedTreeView storage = (storage ''scan_state_tree_view'' = Some ''true'')"

text \<open>The initial state is computed once, when the module is loaded.\<close>

definition scanStateInitialState :: "bool \<Rightarrow> bool \<Rightarrow> ScanStateState" where
  "scanStateInitialState isDesktop loadedTreeView =
     \<lparr>ss_block = None, ss_activeJobId = None, ss_activeLeaf = None, ss_openSidePanel = isDesktop,
      ss_sideBarResized = 0, ss_stream = True, ss_treeView = loadedTreeView,
      ss_highlightSnarkPool = True\<rparr>"

definition noLeaf :: ScanStateLeaf where
  "noLeaf = \<lparr>lf_status = None, lf_job_id = None, lf_bundle_job_id = None, lf_kind = None,
     lf_seq_no = None, lf_commitment = None, lf_snark = None, lf_jobIndex = None,
     lf_treeIndex = None, lf_scrolling = None\<rparr>"

definition scan_truthy_str :: "string option \<Rightarrow> bool" where
  "scan_truthy_str s = (case s of None \<Rightarrow> False | Some t \<Rightarrow> t \<noteq> [])"

text \<open>The leaf of the active job in a new block; spreading \<open>undefined\<close> gives an empty object.\<close>

definition activeLeafOf :: "ScanStateBlock \<Rightarrow> ScanStateState \<Rightarrow> ScanStateLeaf option" where
  "activeLeafOf block state =
     (if scan_truthy_str (ss_activeJobId state)
      then let ls = concat (map (\<lambda>t. filter (\<lambda>l. lf_bundle_job_id l = ss_activeJobId state) (st_leafs t)) (sb_trees block))
           in Some ((if ls = [] then noLeaf else hd ls)\<lparr>lf_scrolling := Some (ss_activeLeaf state = None)\<rparr>)
      else None)"

fun scanStateReducer ::
  "bool \<Rightarrow> bool \<Rightarrow> ScanStateState \<times> (string \<rightharpoonup> string) \<Rightarrow> ScanStateActions
     \<Rightarrow> ScanStateState \<times> (string \<rightharpoonup> string)" where
  "scanStateReducer isDesktop tv (state, storage) (SCAN_STATE_GET_BLOCK_SUCCESS payload) =
     (state\<lparr>ss_block := Some payload, ss_activeLeaf := activeLeafOf payload state\<rparr>, storage)"
| "scanStateReducer isDesktop tv (state, storage) (SCAN_STATE_SET_ACTIVE_JOB_ID payload) =
     (state\<lparr>ss_activeJobId := payload, ss_stream := False\<rparr>, storage)"
| "scanStateReducer isDesktop tv (state, storage) SCAN_STATE_TOGGLE_SIDE_PANEL =
     (state\<lparr>ss_openSidePanel := \<not> ss_openSidePanel state, ss_activeJobId := None, ss_activeLeaf := None\<rparr>, storage)"
| "scanStateReducer isDesktop tv (state, storage) (SCAN_STATE_SET_ACTIVE_LEAF payload) =
     (state\<lparr>ss_openSidePanel := (if payload \<noteq> None then True else ss_openSidePanel state),
            ss_activeLeaf := payload,
            ss_activeJobId := Option.bind payload lf_bundle_job_id,
            ss_stream := (if payload \<noteq> None then False else ss_stream state)\<rparr>, storage)"
| "scanStateReducer isDesktop tv (state, storage) SCAN_STATE_SIDEBAR_RESIZED =
     (state\<lparr>ss_sideBarResized := ss_sideBarResized state + 1\<rparr>, storage)"
| "scanStateReducer isDesktop tv (state, storage) SCAN_STATE_START = (state\<lparr>ss_stream := True\<rparr>, storage)"
| "scanStateReducer isDesktop tv (state, storage) SCAN_STATE_PAUSE = (state\<lparr>ss_stream := False\<rparr>, storage)"
| "scanStateReducer isDesktop tv (state, storage) SCAN_STATE_TOGGLE_TREE_VIEW =
     (state\<lparr>ss_treeView := \<not> ss_treeView state\<rparr>,
      storage(''scan_state_tree_view'' \<mapsto> (if \<not> ss_treeView state then ''true'' else ''false'')))"
| "scanStateReducer isDesktop tv (state, storage) SCAN_STATE_HIGHLIGHT_SNARK_POOL =
     (state\<lparr>ss_highlightSnarkPool := \<not> ss_highlightSnarkPool state\<rparr>, storage)"
| "scanStateReducer isDesktop tv (state, storage) SCAN_STATE_CLOSE = (scanStateInitialState isDesktop tv, storage)"
| "scanStateReducer isDesktop tv (state, storage) SCAN_STATE_INIT = (state, storage)"
| "scanStateReducer isDesktop tv (state, storage) SCAN_STATE_INIT_SUCCESS = (state, storage)"
| "scanStateReducer isDesktop tv (state, storage) (SCAN_STATE_GET_BLOCK _) = (state, storage)"

section \<open>Service\<close>

record scanResponse =
  sr_scan_state :: "ScanStateLeaf list list"
  sr_hash :: string
  sr_height :: nat
  sr_global_slot :: nat
  sr_completed_works :: json
  sr_transactions :: json

text \<open>The answer of a node to \<open>/snarker/config\<close>: its key, \<open>null\<close>, or an error.\<close>

definition snarkerOf ::
  "string \<Rightarrow> string \<times> string \<Rightarrow> (string \<times> nat option) + string option \<Rightarrow> ScanStateWorkingSnarker option" where
  "snarkerOf rustUrl node answer =
     (case answer of
        Inr None \<Rightarrow> None
      | Inr (Some public_key) \<Rightarrow> Some \<lparr>sk_hash = public_key, sk_name = fst node,
          sk_local = (snd node = rustUrl), sk_url = snd node, sk_leafs = [], sk_error = None\<rparr>
      | Inl (message, statusCode) \<Rightarrow> Some \<lparr>sk_hash = [], sk_name = fst node,
          sk_local = (snd node = rustUrl), sk_url = snd node, sk_leafs = [],
          sk_error = Some (if \<not> js_includes message ''Http failure'' \<and>
              (case statusCode of None \<Rightarrow> False | Some c \<Rightarrow> c < 400)
            then ''Frontend parsing error'' else message)\<rparr>)"

definition loadSnarkers ::
  "string \<Rightarrow> ((string \<times> string) \<times> ((string \<times> nat option) + string option)) list
     \<Rightarrow> ScanStateWorkingSnarker list" where
  "loadSnarkers rustUrl answers =
     concat (map (\<lambda>(node, answer). case snarkerOf rustUrl node answer of None \<Rightarrow> [] | Some s \<Rightarrow> [s]) answers)"

definition working :: "ScanStateLeaf \<Rightarrow> bool" where
  "working l \<longleftrightarrow> lf_commitment l \<noteq> None \<and> lf_snark l = None"

definition kind_is :: "string \<Rightarrow> ScanStateLeaf \<Rightarrow> bool" where
  "kind_is k l \<longleftrightarrow> lf_kind l = Some k"

definition mapTree :: "nat \<Rightarrow> ScanStateLeaf list \<Rightarrow> ScanStateTree" where
  "mapTree treeIndex tree =
     \<lparr>st_leafs = map (\<lambda>j. (tree ! j)\<lparr>lf_treeIndex := Some treeIndex, lf_jobIndex := Some j\<rparr>) [0..<length tree],
      st_availableJobs = length (filter (\<lambda>l. lf_status l = Some Todo) tree),
      st_ongoing = length (filter working tree),
      st_notIncludedSnarks = length (filter (\<lambda>l. lf_snark l \<noteq> None \<and> lf_status l = Some Pending) tree),
      st_completedSnarks = length (filter (\<lambda>l. lf_snark l \<noteq> None \<and> lf_status l = Some Done) tree),
      st_empty = length (filter (\<lambda>l. \<not> scan_truthy_str (lf_kind l)) tree),
      st_coinbase = length (filter (kind_is ''Coinbase'') tree),
      st_payment = length (filter (kind_is ''Payment'') tree),
      st_zkApp = length (filter (kind_is ''Zkapp'') tree),
      st_feeTransfer = length (filter (kind_is ''FeeTransfer'') tree),
      st_merge = length (filter (kind_is ''Merge'') tree)\<rparr>"

definition scanTrees :: "ScanStateLeaf list list \<Rightarrow> ScanStateTree list" where
  "scanTrees scan_state = (let rs = rev scan_state in map (\<lambda>i. mapTree i (rs ! i)) [0..<length rs])"

text \<open>One step of the loop over the leaves being worked on: the leaf is pushed to the first snarker with
  the hash of its commitment.\<close>

definition committer :: "ScanStateLeaf \<Rightarrow> string" where
  "committer l = (case lf_commitment l of Some c \<Rightarrow> cm_snarker c | None \<Rightarrow> [])"

definition assignLeaf ::
  "ScanStateWorkingSnarker list \<Rightarrow> ScanStateLeaf \<Rightarrow> ScanStateWorkingSnarker list" where
  "assignLeaf snarkers leaf =
     (case find_index (\<lambda>s. sk_hash s = committer leaf) snarkers of
        None \<Rightarrow> snarkers
      | Some i \<Rightarrow> snarkers[i := (snarkers ! i)\<lparr>sk_leafs := sk_leafs (snarkers ! i) @ [leaf]\<rparr>])"

definition resetSnarkers ::
  "string \<Rightarrow> ScanStateWorkingSnarker list \<Rightarrow> ScanStateWorkingSnarker list" where
  "resetSnarkers rustUrl snarkers = map (\<lambda>s. s\<lparr>sk_local := (sk_url s = rustUrl), sk_leafs := []\<rparr>) snarkers"

definition workingLeafs :: "ScanStateTree list \<Rightarrow> ScanStateLeaf list" where
  "workingLeafs trees = concat (map (\<lambda>t. filter working (st_leafs t)) trees)"

definition mapScanState ::
  "string \<Rightarrow> ScanStateWorkingSnarker list \<Rightarrow> scanResponse option \<Rightarrow> js_error + ScanStateBlock" where
  "mapScanState rustUrl snarkers response =
     (case response of
        None \<Rightarrow> Inl (Error ''Scan state not ready!'')
      | Some r \<Rightarrow>
          let trees = scanTrees (sr_scan_state r)
          in Inr \<lparr>sb_hash = Some (sr_hash r), sb_height = Some (sr_height r),
               sb_globalSlot = Some (sr_global_slot r), sb_transactions = Some (sr_transactions r),
               sb_completedWorks = Some (sr_completed_works r),
               sb_workingSnarkers = foldl assignLeaf (resetSnarkers rustUrl snarkers) (workingLeafs trees),
               sb_trees = trees\<rparr>)"

section \<open>Effect\<close>

text \<open>The field \<open>inProgressGettingHeight\<close> is \<open>null\<close>, \<open>undefined\<close> (the latest block) or a height or hash; so is the
  payload of an action (the timer sends \<open>{}\<close>, two buttons send \<open>null\<close>). The
  dispatch of \<open>SCAN_STATE_INIT\<close> changes no state of the feature.\<close>

definition getScanState_effect ::
  "string \<Rightarrow> (height_or_hash js, ScanStateActions, height_or_hash js, ScanStateBlock,
     ScanStateActions dispatched) effect" where
  "getScanState_effect now =
     \<lparr>on_action = (\<lambda>action inProgress. case action of
          SCAN_STATE_GET_BLOCK h \<Rightarrow>
            if h \<noteq> inProgress then (h, Switch_request h)
            else (inProgress, Filtered)
        | SCAN_STATE_CLOSE \<Rightarrow> (Null, Switch_empty)
        | _ \<Rightarrow> (inProgress, Filtered)),
      on_value = (\<lambda>_ payload _. (Null, [Dispatch (SCAN_STATE_GET_BLOCK_SUCCESS payload)])),
      on_error = (\<lambda>e _. (Null, catchErrorAndRepeat now GENERIC
        (SCAN_STATE_GET_BLOCK_SUCCESS \<lparr>sb_hash = None, sb_height = None, sb_globalSlot = None,
           sb_transactions = None, sb_completedWorks = None, sb_workingSnarkers = [], sb_trees = []\<rparr>) e))\<rparr>"

interpretation scanState_flag: request_flag "getScanState_effect now" "\<lambda>f. f \<noteq> Null"
  by unfold_locales (auto simp: getScanState_effect_def split: ScanStateActions.splits if_splits)

interpretation scanState_close: cancel_on_close "getScanState_effect now" "\<lambda>a. a = SCAN_STATE_CLOSE"
  by unfold_locales (simp add: getScanState_effect_def)

section \<open>Loading a block\<close>

text \<open>What is recorded as in progress is exactly what is in flight.\<close>

lemma scanState_in_flight:
  assumes "rx_run (getScanState_effect now) (Null, None) evs outs (f, q)"
  shows "f \<noteq> Null \<longrightarrow> q = Some f"
proof -
  let ?I = "\<lambda>(f, q). f \<noteq> Null \<longrightarrow> q = Some f"
  have "?I s'" if "?I s" "rx_step (getScanState_effect now) s ev out s'" for s ev out s'
    using that(2,1)
    by (induction rule: rx_step.induct)
      (auto simp: getScanState_effect_def split: ScanStateActions.splits if_splits)
  from rx_run_invariant [OF assms, of ?I, OF _ this] show ?thesis by simp
qed

text \<open>C27. Loading a block. After any history of loads, closings, responses and errors, a load with a height, a hash or
  no argument is never lost: it is ignored only while a request for the same block is in flight, and replaces
  whatever is in flight otherwise. A load with \<open>null\<close> (the button for the last block) is ignored when no request is
  recorded, in particular on an idle page, and otherwise drops the recorded request for one that is not recorded.
  The answer to a recorded request, or its failure, clears the record.\<close>

theorem scan_state_requests:
  assumes "rx_run (getScanState_effect now) (Null, None) evs outs s"
  shows "(h \<noteq> Null \<longrightarrow> rx_step (getScanState_effect now) s (Rx_action (SCAN_STATE_GET_BLOCK h)) [] (h, Some h))
       \<and> rx_step (getScanState_effect now) s (Rx_action (SCAN_STATE_GET_BLOCK Null)) []
           (if fst s = Null then s else (Null, Some Null))
       \<and> (fst s \<noteq> Null \<longrightarrow>
            (\<forall>v. \<exists>out. rx_step (getScanState_effect now) s (Rx_value v) out (Null, None)) \<and>
            (\<forall>e. \<exists>out. rx_step (getScanState_effect now) s (Rx_error e) out (Null, None)))"
proof -
  obtain f q where s: "s = (f, q)" by fastforce
  note inv = scanState_in_flight [OF assms [unfolded s]]
  have "h \<noteq> Null \<longrightarrow> rx_step (getScanState_effect now) s (Rx_action (SCAN_STATE_GET_BLOCK h)) [] (h, Some h)"
    using inv by (auto simp: s getScanState_effect_def)
  moreover have "rx_step (getScanState_effect now) s (Rx_action (SCAN_STATE_GET_BLOCK Null)) []
      (if fst s = Null then s else (Null, Some Null))"
    by (auto simp: s getScanState_effect_def)
  moreover have "\<not> f \<noteq> Null \<or>
    (\<forall>v. \<exists>out f'. rx_step (getScanState_effect now) s (Rx_value v) out (f', None) \<and> \<not> f' \<noteq> Null) \<and>
    (\<forall>e. \<exists>out f'. rx_step (getScanState_effect now) s (Rx_error e) out (f', None) \<and> \<not> f' \<noteq> Null)"
    using scanState_flag.run_recovers [OF assms] by (simp add: s)
  ultimately show ?thesis by (auto simp: s)
qed

theorem scan_state_requests_witness:
  "rx_step (getScanState_effect ''t'') (Undefined, Some Undefined)
     (Rx_action (SCAN_STATE_GET_BLOCK (Val (Height 7)))) [] (Val (Height 7), Some (Val (Height 7)))
   \<and> rx_step (getScanState_effect ''t'') (Null, None) (Rx_action (SCAN_STATE_GET_BLOCK Null)) [] (Null, None)"
proof -
  have "rx_run (getScanState_effect ''t'') (Null, None) [Rx_action (SCAN_STATE_GET_BLOCK Undefined)] [] (Undefined, Some Undefined)"
    by (simp add: rx_run_Cons getScanState_effect_def)
  moreover have "rx_run (getScanState_effect ''t'') (Null, None) [] [] (Null, None)" by simp
  ultimately show ?thesis
    using scan_state_requests [of "''t''" "[Rx_action (SCAN_STATE_GET_BLOCK Undefined)]" "[]" "(Undefined, Some Undefined)" "Val (Height 7)"]
      scan_state_requests [of "''t''" "[]" "[]" "(Null, None)"] by simp
qed

section \<open>Trees and snarkers\<close>

lemma foldl_assignLeaf:
  "foldl assignLeaf snarkers leaves =
     map (\<lambda>i. (snarkers ! i)\<lparr>sk_leafs := sk_leafs (snarkers ! i) @
         filter (\<lambda>l. find_index (\<lambda>s. sk_hash s = committer l) snarkers = Some i) leaves\<rparr>)
       [0..<length snarkers]"
proof (induction leaves arbitrary: snarkers)
  case Nil
  then show ?case by (simp add: map_nth)
next
  case (Cons leaf leaves)
  let ?find = "\<lambda>ss l. find_index (\<lambda>s. sk_hash s = committer l) ss"
  let ?ss = "assignLeaf snarkers leaf"
  have len: "length ?ss = length snarkers" by (simp add: assignLeaf_def split: option.splits)
  have hash: "map sk_hash ?ss = map sk_hash snarkers"
  proof (cases "?find snarkers leaf")
    case (Some i)
    then have "map sk_hash snarkers ! i = sk_hash (snarkers ! i)" by (simp add: find_index_SomeD(1))
    then have "(map sk_hash snarkers)[i := sk_hash (snarkers ! i)] = map sk_hash snarkers"
      by (metis list_update_id)
    with Some show ?thesis by (simp add: assignLeaf_def map_update)
  next
    case None
    then show ?thesis by (simp only: assignLeaf_def option.case)
  qed
  have fi: "find_index (\<lambda>s. sk_hash s = k) ss = find_index (\<lambda>h. h = k) (map sk_hash ss)" for k ss
    by (induction ss) auto
  have find: "?find ?ss l = ?find snarkers l" for l unfolding fi hash ..
  have "(?ss ! i)\<lparr>sk_leafs := sk_leafs (?ss ! i) @ filter (\<lambda>l. ?find snarkers l = Some i) leaves\<rparr> =
      (snarkers ! i)\<lparr>sk_leafs := sk_leafs (snarkers ! i) @ filter (\<lambda>l. ?find snarkers l = Some i) (leaf # leaves)\<rparr>"
    if "i < length snarkers" for i
  proof (cases "?find snarkers leaf")
    case None
    then have "?ss = snarkers" by (simp only: assignLeaf_def option.case)
    moreover from None have "?find snarkers leaf \<noteq> Some i" by (simp only: option.distinct not_False_eq_True)
    ultimately show ?thesis by simp
  next
    case (Some k)
    with that show ?thesis by (auto simp: assignLeaf_def nth_list_update)
  qed
  then show ?case by (simp add: Cons.IH len find)
qed

lemma kind_counts:
  "st_empty (mapTree i t) + st_coinbase (mapTree i t) + st_payment (mapTree i t) + st_zkApp (mapTree i t)
     + st_feeTransfer (mapTree i t) + st_merge (mapTree i t) \<le> length t"
  by (induction t) (auto simp: mapTree_def kind_is_def scan_truthy_str_def split: option.splits)

text \<open>The block shown. The trees come in reverse order of the response; the leaf at position \<open>j\<close> of
  tree \<open>i\<close> is the leaf of the response with these indices, and the counters by kind never count a
  leaf twice. Every leaf with a commitment and no proof is listed, in order, at the first snarker
  with the key of the commitment and nowhere else, and leaves of an earlier block are forgotten.\<close>

lemma scan_state_block:
  assumes "mapScanState url snarkers (Some r) = Inr block"
  shows "(\<forall>i < length (sr_scan_state r). \<forall>j < length (rev (sr_scan_state r) ! i).
            st_leafs (sb_trees block ! i) ! j =
              (rev (sr_scan_state r) ! i ! j)\<lparr>lf_treeIndex := Some i, lf_jobIndex := Some j\<rparr>)
       \<and> (\<forall>i < length (sr_scan_state r).
            (let t = sb_trees block ! i in st_empty t + st_coinbase t + st_payment t + st_zkApp t
               + st_feeTransfer t + st_merge t \<le> length (st_leafs t)))
       \<and> length (sb_workingSnarkers block) = length snarkers
       \<and> (\<forall>k < length snarkers. sk_leafs (sb_workingSnarkers block ! k) =
            filter (\<lambda>l. find_index (\<lambda>s. sk_hash s = committer l) snarkers = Some k)
              (workingLeafs (sb_trees block)))"
proof -
  have trees: "sb_trees block = scanTrees (sr_scan_state r)"
    and snk: "sb_workingSnarkers block = foldl assignLeaf (resetSnarkers url snarkers) (workingLeafs (sb_trees block))"
    using assms by (auto simp: mapScanState_def Let_def)
  have nth: "sb_trees block ! i = mapTree i (rev (sr_scan_state r) ! i)" if "i < length (sr_scan_state r)" for i
    using that by (simp add: trees scanTrees_def Let_def)
  have fr: "find_index (\<lambda>s. sk_hash s = k) (resetSnarkers url ss) = find_index (\<lambda>s. sk_hash s = k) ss" for k ss
    by (induction ss) (auto simp: resetSnarkers_def)
  have "length (st_leafs (mapTree i t)) = length t" for i t by (simp add: mapTree_def)
  then have "(let t = sb_trees block ! i in st_empty t + st_coinbase t + st_payment t + st_zkApp t
               + st_feeTransfer t + st_merge t \<le> length (st_leafs t))" if "i < length (sr_scan_state r)" for i
    using kind_counts [of i "rev (sr_scan_state r) ! i"] by (simp add: nth [OF that])
  moreover have "st_leafs (sb_trees block ! i) ! j =
      (rev (sr_scan_state r) ! i ! j)\<lparr>lf_treeIndex := Some i, lf_jobIndex := Some j\<rparr>"
    if "i < length (sr_scan_state r)" "j < length (rev (sr_scan_state r) ! i)" for i j
    using that by (simp add: nth mapTree_def)
  moreover have "length (resetSnarkers url snarkers) = length snarkers" by (simp add: resetSnarkers_def)
  moreover have "sk_leafs (resetSnarkers url snarkers ! k) = []" if "k < length snarkers" for k
    using that by (simp add: resetSnarkers_def)
  ultimately show ?thesis by (simp add: snk foldl_assignLeaf fr)
qed

definition demo_leaf :: "string \<Rightarrow> ScanStateLeaf" where
  "demo_leaf key = noLeaf\<lparr>lf_status := Some Todo, lf_commitment := Some \<lparr>cm_snarker = key, cm_json = JNull\<rparr>\<rparr>"

definition demo_snarker :: "string \<Rightarrow> ScanStateWorkingSnarker" where
  "demo_snarker key = \<lparr>sk_hash = key, sk_name = key, sk_local = False, sk_url = key,
     sk_leafs = [noLeaf], sk_error = None\<rparr>"

definition demo_scan :: scanResponse where
  "demo_scan = \<lparr>sr_scan_state = [[demo_leaf ''a''], [demo_leaf ''b'', demo_leaf ''a'']], sr_hash = ''h'',
     sr_height = 1, sr_global_slot = 2, sr_completed_works = JNull, sr_transactions = JNull\<rparr>"

lemma scan_state_block_witness:
  "\<exists>block. mapScanState ''u'' [demo_snarker ''a'', demo_snarker ''a''] (Some demo_scan) = Inr block \<and>
     length (sk_leafs (sb_workingSnarkers block ! 0)) = 2 \<and> sk_leafs (sb_workingSnarkers block ! 1) = []"
proof -
  obtain block where b: "mapScanState ''u'' [demo_snarker ''a'', demo_snarker ''a''] (Some demo_scan) = Inr block"
    by (simp add: mapScanState_def Let_def)
  have "workingLeafs (sb_trees block) = [(demo_leaf ''b'')\<lparr>lf_treeIndex := Some 0, lf_jobIndex := Some 0\<rparr>,
      (demo_leaf ''a'')\<lparr>lf_treeIndex := Some 0, lf_jobIndex := Some 1\<rparr>,
      (demo_leaf ''a'')\<lparr>lf_treeIndex := Some 1, lf_jobIndex := Some 0\<rparr>]"
    using b by (auto simp: mapScanState_def Let_def scanTrees_def mapTree_def demo_scan_def workingLeafs_def
        working_def demo_leaf_def noLeaf_def upt_rec)
  note leaves = this
  have all: "\<forall>k < length [demo_snarker ''a'', demo_snarker ''a'']. sk_leafs (sb_workingSnarkers block ! k) =
      filter (\<lambda>l. find_index (\<lambda>s. sk_hash s = committer l) [demo_snarker ''a'', demo_snarker ''a''] = Some k)
        (workingLeafs (sb_trees block))"
    using scan_state_block [OF b] by (elim conjE)
  have "length (sk_leafs (sb_workingSnarkers block ! 0)) = 2" "sk_leafs (sb_workingSnarkers block ! 1) = []"
    using all [rule_format, of 0] all [rule_format, of 1]
    by (simp_all add: leaves committer_def demo_leaf_def noLeaf_def demo_snarker_def)
  with b show ?thesis by blast
qed

section \<open>The tree view preference\<close>

text \<open>The choice of the tree view is stored for the next session, but closing the page does not keep
  it: the state goes back to the value that was stored when the application started, while the
  storage holds the new one.\<close>

lemma scan_state_tree_view:
  "let (toggled, storage') = scanStateReducer d (storedTreeView loaded) (state, storage) SCAN_STATE_TOGGLE_TREE_VIEW;
       (closed, storage'') = scanStateReducer d (storedTreeView loaded) (toggled, storage') SCAN_STATE_CLOSE
   in storedTreeView storage' = ss_treeView toggled \<and> ss_treeView toggled = (\<not> ss_treeView state)
      \<and> storage'' = storage' \<and> ss_treeView closed = storedTreeView loaded"
  by (simp add: storedTreeView_def scanStateInitialState_def)

end
