(* ===== verification/Memory_Resources.thy ===== *)
theory Memory_Resources
  imports Store_Reducer Effect_Pipeline
begin

text \<open>
  The memory resources page (\<open>features/resources/memory\<close>): the call tree of the node's memory profiler.
  The service rebuilds the tree with an identifier for every node, assigned while the tree is
  built, and children ordered by size; the reducer keeps the path of visited nodes as breadcrumbs.

  Values are exact rationals in the range that JavaScript prints without an exponent. Objects of a
  tree are compared by identity in the code; within a tree the identifiers are distinct (shown
  below), so comparing the values is the same. Storage holds the preferences of the page.
\<close>

section \<open>Data\<close>

record MemoryResourceName =
  rn_executableName :: string
  rn_functionName :: "string option"

datatype MemoryResource = MemoryResource
  (mr_name: MemoryResourceName) (mr_children: "MemoryResource list") (mr_value: rat) (mr_id: nat)

record frameFunction =
  ff_offset :: string
  ff_executable :: string
  ff_functionName :: "string option"

datatype frameName = PlainName string | FunctionName frameFunction

datatype MemoryResourceTree = MemoryResourceTree
  (ft_name: frameName) (ft_value: rat) (ft_frames: "MemoryResourceTree list")

datatype TreemapView = BINARY | SQUARE | SLICE | DICE

record MemoryResourcesState =
  me_resource :: "MemoryResource option"
  me_activeResource :: "MemoryResource option"
  me_breadcrumbs :: "MemoryResource option list"
  me_granularity :: rat
  me_treemapView :: TreemapView

datatype MemoryResourcesActions =
    MEMORY_RESOURCES_GET
  | MEMORY_RESOURCES_GET_SUCCESS "MemoryResource option"
  | MEMORY_RESOURCES_SET_ACTIVE_RESOURCE MemoryResource
  | MEMORY_RESOURCES_SET_GRANULARITY rat
  | MEMORY_RESOURCES_SET_TREEMAP_VIEW TreemapView
  | MEMORY_RESOURCES_CLOSE

section \<open>Reducer\<close>

record memoryStorage =
  mst_granularity :: "rat option"
  mst_view :: "TreemapView option"

text \<open>The initial state is computed from the storage once, when the module is loaded. The granularity of a storage without the item is
  \<open>Number(null)\<close>, which is zero and passes \<open>nanOrElse\<close> (of the shared package: its default is for \<open>NaN\<close> only).\<close>

definition memoryInitialState :: "memoryStorage \<Rightarrow> MemoryResourcesState" where
  "memoryInitialState loaded =
     \<lparr>me_resource = None, me_activeResource = None, me_breadcrumbs = [],
      me_granularity = (case mst_granularity loaded of Some g \<Rightarrow> g | None \<Rightarrow> 0),
      me_treemapView = (case mst_view loaded of Some v \<Rightarrow> v | None \<Rightarrow> BINARY)\<rparr>"

text \<open>\<open>breadcrumbs.findIndex(b => b.id === id)\<close>, which throws at an \<open>undefined\<close> element before a match.\<close>

fun crumb_index :: "nat \<Rightarrow> MemoryResource option list \<Rightarrow> js_error + nat option" where
  "crumb_index k [] = Inr None"
| "crumb_index k (None # bs) = Inl TypeError"
| "crumb_index k (Some b # bs) =
     (if mr_id b = k then Inr (Some 0)
      else case crumb_index k bs of Inl e \<Rightarrow> Inl e | Inr r \<Rightarrow> Inr (map_option Suc r))"

definition nextBreadcrumbs ::
  "MemoryResourcesState \<Rightarrow> MemoryResource \<Rightarrow> js_error + MemoryResource option list" where
  "nextBreadcrumbs state payload =
     (if rn_executableName (mr_name payload) = ''root'' then Inr [me_resource state]
      else case crumb_index (mr_id payload) (me_breadcrumbs state) of
             Inl e \<Rightarrow> Inl e
           | Inr (Some i) \<Rightarrow> Inr (take (i + 1) (me_breadcrumbs state))
           | Inr None \<Rightarrow> Inr (me_breadcrumbs state @ [Some payload]))"

fun memoryResourcesReducer ::
  "memoryStorage \<Rightarrow> MemoryResourcesState \<times> memoryStorage \<Rightarrow> MemoryResourcesActions
     \<Rightarrow> js_error + MemoryResourcesState \<times> memoryStorage" where
  "memoryResourcesReducer loaded (state, storage) (MEMORY_RESOURCES_GET_SUCCESS payload) =
     Inr (state\<lparr>me_resource := payload,
       me_breadcrumbs := (case payload of None \<Rightarrow> [] | Some p \<Rightarrow> [Some p]),
       me_activeResource := payload\<rparr>, storage)"
| "memoryResourcesReducer loaded (state, storage) (MEMORY_RESOURCES_SET_ACTIVE_RESOURCE payload) =
     (if me_activeResource state = Some payload then Inr (state, storage)
      else case nextBreadcrumbs state payload of
             Inl e \<Rightarrow> Inl e
           | Inr bs \<Rightarrow> Inr (state\<lparr>me_activeResource := Some payload, me_breadcrumbs := bs\<rparr>, storage))"
| "memoryResourcesReducer loaded (state, storage) (MEMORY_RESOURCES_SET_GRANULARITY payload) =
     Inr (state\<lparr>me_granularity := payload, me_resource := None, me_activeResource := None,
       me_breadcrumbs := []\<rparr>, storage\<lparr>mst_granularity := Some payload\<rparr>)"
| "memoryResourcesReducer loaded (state, storage) (MEMORY_RESOURCES_SET_TREEMAP_VIEW payload) =
     Inr (state\<lparr>me_treemapView := payload\<rparr>, storage\<lparr>mst_view := Some payload\<rparr>)"
| "memoryResourcesReducer loaded (state, storage) MEMORY_RESOURCES_CLOSE =
     Inr (memoryInitialState loaded, storage)"
| "memoryResourcesReducer loaded (state, storage) MEMORY_RESOURCES_GET = Inr (state, storage)"

section \<open>Service\<close>

text \<open>\<open>+(Math.round(Number(num + 'e+2')) + 'e-2')\<close>.\<close>

definition round2 :: "rat \<Rightarrow> rat" where
  "round2 num = of_int \<lfloor>num * 100 + 1 / 2\<rfloor> / 100"

text \<open>\<open>showNumber\<close> prints a number into a template string.\<close>

definition getFrameName :: "(rat \<Rightarrow> string) \<Rightarrow> frameName \<Rightarrow> rat \<Rightarrow> MemoryResourceName" where
  "getFrameName showNumber name threshold =
     (case name of
        PlainName n \<Rightarrow> \<lparr>rn_executableName =
            (if n = ''underThreshold'' then ''below '' @ showNumber (round2 threshold) @ '' KB'' else n),
          rn_functionName = None\<rparr>
      | FunctionName f \<Rightarrow> \<lparr>rn_executableName = ff_executable f @ ''@'' @ ff_offset f,
          rn_functionName = ff_functionName f\<rparr>)"

definition sortChildren :: "MemoryResource list \<Rightarrow> MemoryResource list" where
  "sortChildren children = sort_key (\<lambda>c. - mr_value c) children"

text \<open>\<open>build\<close> with the identifier counter of the service passed along. A node takes its identifier after
  its children have taken theirs; \<open>build_loop\<close> is the \<open>forEach\<close> before the sort.\<close>

fun build_loop :: "(rat \<Rightarrow> string) \<Rightarrow> rat \<Rightarrow> MemoryResourceTree list \<Rightarrow> nat \<Rightarrow> MemoryResource list \<times> nat" where
  "build_loop shw threshold [] k = ([], k)"
| "build_loop shw threshold (MemoryResourceTree n v fs # frames) k =
     (let (children, k1) = build_loop shw threshold fs k;
          item = MemoryResource (getFrameName shw n threshold) (sortChildren children) (round2 v) k1;
          (items, k2) = build_loop shw threshold frames (Suc k1)
      in (item # items, k2))"

definition build_children ::
  "(rat \<Rightarrow> string) \<Rightarrow> rat \<Rightarrow> MemoryResourceTree list \<Rightarrow> nat \<Rightarrow> MemoryResource list \<times> nat" where
  "build_children shw threshold frames k =
     (let (children, k') = build_loop shw threshold frames k in (sortChildren children, k'))"

definition mapMemoryResponse :: "(rat \<Rightarrow> string) \<Rightarrow> MemoryResourceTree \<Rightarrow> rat \<Rightarrow> MemoryResource" where
  "mapMemoryResponse shw response threshold =
     (let (children, k) = build_children shw threshold (ft_frames response) 0
      in MemoryResource
           \<lparr>rn_executableName = ''root'', rn_functionName =
              (case ft_name response of FunctionName f \<Rightarrow> ff_functionName f | PlainName _ \<Rightarrow> None)\<rparr>
           children (round2 (ft_value response)) k)"

section \<open>Effects\<close>

text \<open>The request carries the threshold.\<close>

definition getResources_effect ::
  "(rat \<Rightarrow> string) \<Rightarrow> string \<Rightarrow>
   (unit, MemoryResourcesActions \<times> MemoryResourcesState, rat, MemoryResourceTree,
    MemoryResourcesActions dispatched) effect" where
  "getResources_effect shw now =
     \<lparr>on_action = (\<lambda>(action, state) f. (f, case action of
          MEMORY_RESOURCES_GET \<Rightarrow> Switch_request (me_granularity state)
        | MEMORY_RESOURCES_CLOSE \<Rightarrow> Switch_empty
        | _ \<Rightarrow> Filtered)),
      on_value = (\<lambda>threshold response f.
        (f, [Dispatch (MEMORY_RESOURCES_GET_SUCCESS (Some (mapMemoryResponse shw response threshold)))])),
      on_error = (\<lambda>e f. (f, catchErrorAndRepeat now GENERIC (MEMORY_RESOURCES_GET_SUCCESS None) e))\<rparr>"

definition setGranularity_effect :: "MemoryResourcesActions \<Rightarrow> MemoryResourcesActions option" where
  "setGranularity_effect action =
     (case action of MEMORY_RESOURCES_SET_GRANULARITY _ \<Rightarrow> Some MEMORY_RESOURCES_GET | _ \<Rightarrow> None)"

interpretation memory_close:
  cancel_on_close "getResources_effect shw now" "\<lambda>(a, _). a = MEMORY_RESOURCES_CLOSE"
  by unfold_locales (auto simp: getResources_effect_def)

section \<open>The tree\<close>

fun nodes :: "MemoryResource \<Rightarrow> MemoryResource list" where
  "nodes (MemoryResource n cs v i) = MemoryResource n cs v i # concat (map nodes cs)"

fun frame_count :: "MemoryResourceTree \<Rightarrow> nat" where
  "frame_count (MemoryResourceTree n v fs) = Suc (sum_list (map frame_count fs))"

fun descending :: "MemoryResource \<Rightarrow> bool" where
  "descending (MemoryResource n cs v i) \<longleftrightarrow>
     sorted_wrt (\<lambda>a b. mr_value b \<le> mr_value a) cs \<and> (\<forall>c \<in> set cs. descending c)"

lemma mset_sortChildren [simp]: "mset (sortChildren cs) = mset cs"
  by (simp add: sortChildren_def)

lemma set_sortChildren [simp]: "set (sortChildren cs) = set cs"
  by (simp add: sortChildren_def)

lemma mset_concat_map_perm: "mset xs = mset ys \<Longrightarrow> mset (concat (map f xs)) = mset (concat (map f ys))"
  by (simp add: mset_concat) (metis mset_map sum_mset_sum_list)

lemma sorted_sortChildren: "sorted_wrt (\<lambda>a b. mr_value b \<le> mr_value a) (sortChildren cs)"
proof -
  have "sorted (map (\<lambda>c. - mr_value c) (sortChildren cs))" by (simp add: sortChildren_def)
  then show ?thesis by (simp add: sorted_map)
qed

lemma build_loop_tree:
  assumes "build_loop shw t fs k = (rs, k')"
  shows "mset (map mr_id (concat (map nodes rs))) = mset [k..<k'] \<and> k' = k + sum_list (map frame_count fs)
    \<and> (\<forall>r \<in> set rs. descending r)"
  using assms
proof (induction shw t fs k arbitrary: rs k' rule: build_loop.induct)
  case (1 shw t k)
  then show ?case by simp
next
  case (2 shw t n v fs frames k)
  obtain cs k1 where c: "build_loop shw t fs k = (cs, k1)" by fastforce
  obtain items k2 where i: "build_loop shw t frames (Suc k1) = (items, k2)" by fastforce
  let ?item = "MemoryResource (getFrameName shw n t) (sortChildren cs) (round2 v) k1"
  have res: "rs = ?item # items" "k' = k2" using "2.prems" by (auto simp: c i)
  note C = "2.IH"(1) [OF c] and I = "2.IH"(2) [OF c [symmetric] refl refl i]
  note IHc = C [THEN conjunct1] C [THEN conjunct2, THEN conjunct1] C [THEN conjunct2, THEN conjunct2]
  note IHi = I [THEN conjunct1] I [THEN conjunct2, THEN conjunct1] I [THEN conjunct2, THEN conjunct2]
  have "mset (map mr_id (concat (map nodes (sortChildren cs)))) = mset (map mr_id (concat (map nodes cs)))"
    using mset_concat_map_perm [of "sortChildren cs" cs nodes] by (simp only: mset_sortChildren mset_map)
  then have "mset (map mr_id (concat (map nodes rs))) = add_mset k1 (mset [k..<k1] + mset [Suc k1..<k2])"
    using IHc(1) IHi(1) by (simp add: res del: mset_upt upt_Suc)
  also have "\<dots> = mset ([k..<k1] @ [k1] @ [Suc k1..<k2])" by (simp del: mset_upt upt_Suc)
  also have "[k..<k1] @ [k1] @ [Suc k1..<k2] = [k..<k2]"
  proof -
    have "k1 < k2" "k \<le> k1" using IHc(2) IHi(2) by simp_all
    then have "[k1] @ [Suc k1..<k2] = [k1..<k2]" by (simp add: upt_conv_Cons del: upt_Suc)
    moreover have "[k..<k1] @ [k1..<k2] = [k..<k2]"
      using \<open>k1 < k2\<close> \<open>k \<le> k1\<close> by (metis le_add_diff_inverse less_imp_le upt_add_eq_append)
    ultimately show ?thesis by simp
  qed
  finally have "mset (map mr_id (concat (map nodes rs))) = mset [k..<k']" by (simp only: res)
  moreover have "k' = k + sum_list (map frame_count (MemoryResourceTree n v fs # frames))"
    using IHc(2) IHi(2) res(2) by simp
  moreover have "\<forall>r \<in> set rs. descending r"
    using IHc(3) IHi(3) by (simp add: res sorted_sortChildren)
  ultimately show ?case by blast
qed


lemma mapMemoryResponse_tree:
  assumes "r = mapMemoryResponse shw resp t"
  shows "mset (map mr_id (nodes r)) = mset [0..<frame_count resp] \<and> Suc (mr_id r) = frame_count resp \<and> descending r"
proof -
  obtain cs k where c: "build_loop shw t (ft_frames resp) 0 = (cs, k)" by fastforce
  note B = build_loop_tree [OF c]
  obtain name where r: "r = MemoryResource name (sortChildren cs) (round2 (ft_value resp)) k"
    using assms by (simp add: mapMemoryResponse_def build_children_def c)
  have k: "frame_count resp = Suc k" using B by (cases resp) simp
  have "mset (map mr_id (concat (map nodes (sortChildren cs)))) = mset (map mr_id (concat (map nodes cs)))"
    using mset_concat_map_perm [of "sortChildren cs" cs nodes] by (simp only: mset_sortChildren mset_map)
  then have "mset (map mr_id (nodes r)) = add_mset k (mset [0..<k])"
    using B by (simp add: r del: mset_upt)
  then show ?thesis using B k by (simp add: r sorted_sortChildren)
qed

text \<open>C30. The tree that is shown. Its nodes carry the identifiers \<open>0\<close> to \<open>n - 1\<close>, each exactly once, where
  \<open>n\<close> is the number of frames of the response with the root; the root has the last one; and the
  children of every node come in order of decreasing size.\<close>

theorem memory_tree:
  "let r = mapMemoryResponse shw response threshold
   in distinct (map mr_id (nodes r)) \<and> set (map mr_id (nodes r)) = {..<frame_count response} \<and>
      length (nodes r) = frame_count response \<and> Suc (mr_id r) = frame_count response \<and> descending r"
proof -
  define r where "r = mapMemoryResponse shw response threshold"
  note M = mapMemoryResponse_tree [OF r_def]
  then have m: "mset (map mr_id (nodes r)) = mset [0..<frame_count response]" by blast
  from m have "distinct (map mr_id (nodes r))" by (metis distinct_upt mset_eq_imp_distinct_iff)
  moreover have "set (map mr_id (nodes r)) = {..<frame_count response}"
    using mset_eq_setD [OF m] by (simp add: lessThan_atLeast0)
  moreover have "length (nodes r) = frame_count response" using mset_eq_length [OF m] by simp
  ultimately show ?thesis using M by (simp add: r_def [symmetric])
qed

section \<open>Breadcrumbs\<close>

lemma crumb_index_Some:
  "crumb_index k (map Some bs) = Inr (find_index (\<lambda>b. mr_id b = k) bs)"
  by (induction bs) auto

text \<open>A state while the tree \<open>r\<close> is explored along the path \<open>bs\<close>.\<close>

definition exploring :: "MemoryResource \<Rightarrow> MemoryResource list \<Rightarrow> MemoryResourcesState \<Rightarrow> bool" where
  "exploring r bs st \<longleftrightarrow> me_resource st = Some r \<and> me_breadcrumbs st = map Some bs \<and>
     me_activeResource st = Some (last bs) \<and> bs \<noteq> [] \<and> hd bs = r \<and> distinct bs \<and> set bs \<subseteq> set (nodes r)"

definition root_unique :: "MemoryResource \<Rightarrow> bool" where
  "root_unique r \<longleftrightarrow> inj_on mr_id (set (nodes r)) \<and>
     (\<forall>x \<in> set (nodes r). rn_executableName (mr_name x) = ''root'' \<longleftrightarrow> x = r)"

lemma nodes_self [simp]: "r \<in> set (nodes r)"
  by (cases r) simp

lemma exploring_step:
  assumes "root_unique r" and "exploring r bs st" and "p \<in> set (nodes r)"
  shows "\<exists>st' bs'. memoryResourcesReducer loaded (st, storage) (MEMORY_RESOURCES_SET_ACTIVE_RESOURCE p) = Inr (st', storage)
     \<and> exploring r bs' st' \<and> last bs' = p"
proof -
  consider "last bs = p" | "last bs \<noteq> p" "p = r" | "last bs \<noteq> p" "p \<noteq> r" by blast
  then show ?thesis
  proof cases
  case 1
  with assms(2) show ?thesis by (intro exI [of _ st] exI [of _ bs]) (simp add: exploring_def)
next
  case 2
  with assms show ?thesis
    by (intro exI [of _ "st\<lparr>me_activeResource := Some r, me_breadcrumbs := [Some r]\<rparr>"] exI [of _ "[r]"])
      (simp add: exploring_def nextBreadcrumbs_def root_unique_def)
next
  case 3
  then have act: "me_activeResource st \<noteq> Some p" and np: "rn_executableName (mr_name p) \<noteq> ''root''"
    using assms by (auto simp: exploring_def root_unique_def)
  have bs: "bs \<noteq> []" "hd bs = r" "distinct bs" "set bs \<subseteq> set (nodes r)" "me_breadcrumbs st = map Some bs"
    "me_resource st = Some r" using assms(2) by (auto simp: exploring_def)
  show ?thesis
  proof (cases "find_index (\<lambda>b. mr_id b = mr_id p) bs")
    case None
    then have "p \<notin> set bs" by auto
    with assms(3) bs have e: "exploring r (bs @ [p]) (st\<lparr>me_activeResource := Some p, me_breadcrumbs := map Some bs @ [Some p]\<rparr>)"
      by (auto simp: exploring_def)
    have "nextBreadcrumbs st p = Inr (map Some bs @ [Some p])"
      using np None by (simp only: nextBreadcrumbs_def bs(5) crumb_index_Some if_False sum.case option.case)
    with e act show ?thesis by (intro exI [of _ "bs @ [p]"] exI) simp
  next
    case (Some i)
    note D = find_index_SomeD [OF Some]
    have "bs ! i \<in> set (nodes r)" using D(1) bs(4) nth_mem by blast
    with D(2) assms(1,3) have "bs ! i = p" by (simp add: root_unique_def inj_on_def)
    with D(1) have l: "last (take (Suc i) bs) = p" "take (Suc i) bs \<noteq> []"
      by (auto simp: take_Suc_conv_app_nth)
    have "hd (take (Suc i) bs) = r" using bs(1,2) by (cases bs) auto
    moreover have "set (take (Suc i) bs) \<subseteq> set (nodes r)" using bs(4) set_take_subset by fastforce
    ultimately have "exploring r (take (Suc i) bs) (st\<lparr>me_activeResource := Some p, me_breadcrumbs := take (Suc i) (map Some bs)\<rparr>)"
      using l bs by (simp add: exploring_def take_map)
    with l(1) act np Some show ?thesis
      by (intro exI [of _ "take (Suc i) bs"] exI) (simp add: nextBreadcrumbs_def bs(5) crumb_index_Some)
  qed
qed
qed

lemma exploring_run:
  assumes "root_unique r" and "exploring r bs st" and "set ps \<subseteq> set (nodes r)"
  shows "\<exists>st' bs'. reduce_all (memoryResourcesReducer loaded) (st, storage) (map MEMORY_RESOURCES_SET_ACTIVE_RESOURCE ps)
       = Inr (st', storage) \<and> exploring r bs' st' \<and> last bs' = last (last bs # ps)"
  using assms(2,3)
proof (induction ps arbitrary: st bs)
  case Nil
  then show ?case by auto
next
  case (Cons p ps)
  from exploring_step [OF assms(1) Cons.prems(1), of p] Cons.prems(2) obtain st1 bs1 where
    s: "memoryResourcesReducer loaded (st, storage) (MEMORY_RESOURCES_SET_ACTIVE_RESOURCE p) = Inr (st1, storage)"
    "exploring r bs1 st1" "last bs1 = p" by force
  from Cons.IH [OF s(2)] Cons.prems(2) s(1,3) show ?case by auto
qed

text \<open>Navigation. After the tree of a response is loaded and any sequence of its nodes is visited,
  the reducer has not thrown, the breadcrumbs start at the root, end at the node visited last, and
  name no node twice. (No frame of the response is itself called \<open>root\<close>.)\<close>

lemma memory_breadcrumbs:
  assumes "r = mapMemoryResponse shw response threshold"
    and "\<forall>x \<in> set (nodes r). rn_executableName (mr_name x) = ''root'' \<longrightarrow> x = r"
    and "set ps \<subseteq> set (nodes r)"
  shows "\<exists>st. reduce_all (memoryResourcesReducer loaded) (state, storage)
       (MEMORY_RESOURCES_GET_SUCCESS (Some r) # map MEMORY_RESOURCES_SET_ACTIVE_RESOURCE ps) = Inr (st, storage)
     \<and> me_activeResource st = Some (last (r # ps))
     \<and> (\<exists>bs. me_breadcrumbs st = map Some bs \<and> distinct bs \<and> bs \<noteq> [] \<and> hd bs = r \<and> last bs = last (r # ps))"
proof -
  have "mset (map mr_id (nodes r)) = mset [0..<frame_count response]"
    using mapMemoryResponse_tree [OF assms(1)] by blast
  then have "distinct (map mr_id (nodes r))" by (metis distinct_upt mset_eq_imp_distinct_iff)
  moreover have "rn_executableName (mr_name r) = ''root''"
    by (simp add: assms(1) mapMemoryResponse_def split: prod.splits)
  ultimately have "root_unique r" using assms(2) by (auto simp: root_unique_def distinct_map)
  moreover have "exploring r [r] (state\<lparr>me_resource := Some r, me_breadcrumbs := [Some r], me_activeResource := Some r\<rparr>)"
    by (simp add: exploring_def)
  ultimately obtain st bs where
    run: "reduce_all (memoryResourcesReducer loaded)
       (state\<lparr>me_resource := Some r, me_breadcrumbs := [Some r], me_activeResource := Some r\<rparr>, storage)
       (map MEMORY_RESOURCES_SET_ACTIVE_RESOURCE ps) = Inr (st, storage)"
    and e: "exploring r bs st" "last bs = last (last [r] # ps)"
    using exploring_run [OF _ _ assms(3)] by blast
  have "\<exists>bs. me_breadcrumbs st = map Some bs \<and> distinct bs \<and> bs \<noteq> [] \<and> hd bs = r \<and> last bs = last (r # ps)"
    using e by (intro exI [of _ bs]) (simp add: exploring_def)
  moreover have "me_activeResource st = Some (last (r # ps))" using e by (simp add: exploring_def)
  ultimately show ?thesis using run by simp
qed

definition demo_frames :: MemoryResourceTree where
  "demo_frames = MemoryResourceTree (PlainName ''x'') 10
     [MemoryResourceTree (PlainName ''a'') 3 [], MemoryResourceTree (PlainName ''b'') 7 []]"

lemma memory_breadcrumbs_witness:
  "\<exists>st. reduce_all (memoryResourcesReducer \<lparr>mst_granularity = None, mst_view = None\<rparr>)
       (memoryInitialState \<lparr>mst_granularity = None, mst_view = None\<rparr>, \<lparr>mst_granularity = None, mst_view = None\<rparr>)
       [MEMORY_RESOURCES_GET_SUCCESS (Some (mapMemoryResponse (\<lambda>_. []) demo_frames 512)),
        MEMORY_RESOURCES_SET_ACTIVE_RESOURCE (hd (mr_children (mapMemoryResponse (\<lambda>_. []) demo_frames 512)))]
     = Inr (st, \<lparr>mst_granularity = None, mst_view = None\<rparr>)
     \<and> rn_executableName (mr_name (the (me_activeResource st))) = ''b''"
proof -
  let ?a = "MemoryResource \<lparr>rn_executableName = ''a'', rn_functionName = None\<rparr> [] 3 0"
  let ?b = "MemoryResource \<lparr>rn_executableName = ''b'', rn_functionName = None\<rparr> [] 7 1"
  let ?r = "MemoryResource \<lparr>rn_executableName = ''root'', rn_functionName = None\<rparr> [?b, ?a] 10 2"
  let ?s = "\<lparr>mst_granularity = None, mst_view = None\<rparr>"
  have "round2 10 = 10" "round2 3 = 3" "round2 7 = 7" by (simp_all add: round2_def floor_eq_iff)
  then have r: "mapMemoryResponse (\<lambda>_. []) demo_frames 512 = ?r"
    by (simp add: mapMemoryResponse_def demo_frames_def build_children_def getFrameName_def sortChildren_def)
  from memory_breadcrumbs [OF r [symmetric], of "[?b]" ?s "memoryInitialState ?s" ?s] show ?thesis
    unfolding r by auto
qed

end
