(* ===== verification/Ledger_Apdu.thy ===== *)
theory Ledger_Apdu
  imports Frontend_Prelude
begin

text \<open>
  The hardware wallet interface (\<open>shared/helpers/ledger.helper.ts\<close>): a transaction is written as a
  fixed-width hexadecimal message (APDU), checked, sent to the device, and the answer is cut into
  its parts. The transport is a parameter; a rejected promise is \<open>Inl\<close>.

  Bytes are natural numbers below 256. Strings hold characters below 256, of which \<open>Buffer\<close> writes
  those from 128 on as two bytes in UTF-8. A number that is \<open>NaN\<close> or missing is \<open>None\<close>.
\<close>

section \<open>Buffers\<close>

definition hex2 :: "nat \<Rightarrow> string" where
  "hex2 b = [radix_digit (b div 16), radix_digit (b mod 16)]"

definition bytes_hex :: "nat list \<Rightarrow> string" where
  "bytes_hex bs = concat (map hex2 bs)"

text \<open>\<open>Buffer.from(s, 'hex')\<close> stops at the first pair that is not hexadecimal.\<close>

fun hex_bytes :: "string \<Rightarrow> nat list" where
  "hex_bytes (a # b # s) =
     (if is_hex a \<and> is_hex b then (digit_value a * 16 + digit_value b) # hex_bytes s else [])"
| "hex_bytes _ = []"

definition utf8_char :: "char \<Rightarrow> nat list" where
  "utf8_char c = (let n = of_char c :: nat
     in if n < 128 then [n] else [192 + n div 64, 128 + n mod 64])"

section \<open>Messages\<close>

record SignTransactionArgs =
  tx_txType :: "nat option"
  tx_senderAccount :: "nat option"
  tx_senderAddress :: string
  tx_receiverAddress :: string
  tx_amount :: js_number
  tx_fee :: js_number
  tx_nonce :: "nat option"
  tx_validUntil :: "nat option"
  tx_memo :: "string option"
  tx_networkId :: "nat option"

record BaseLedgerResponse =
  lr_value :: "string option"
  lr_returnCode :: string
  lr_message :: "string option"
  lr_statusText :: "string option"

record GetAppNameResponse = BaseLedgerResponse +
  lr_name :: "string option"

record transportError =
  te_statusCode :: "nat option"
  te_returnCode :: "nat option"
  te_message :: "string option"
  te_statusText :: "string option"

type_synonym Transport =
  "nat \<Rightarrow> nat \<Rightarrow> nat \<Rightarrow> nat \<Rightarrow> nat list option \<Rightarrow> nat list option \<Rightarrow> transportError + nat list"

definition pad :: "string \<Rightarrow> nat \<Rightarrow> string" where
  "pad n width = drop (length n) (replicate width (CHR ''0'') @ n)"

definition asciiToHex :: "string \<Rightarrow> string" where
  "asciiToHex str = bytes_hex (map of_char str)"

text \<open>The loop that appends \<open>charToAdd\<close> zero characters.\<close>

fun memo_fill :: "nat \<Rightarrow> string \<Rightarrow> string" where
  "memo_fill 0 s = s"
| "memo_fill (Suc charToAdd) s = memo_fill charToAdd (s @ [CHR 0x00])"

definition convertMemo :: "string \<Rightarrow> string" where
  "convertMemo memo = bytes_hex (concat (map utf8_char (memo_fill (32 - length memo) memo)))"

text \<open>\<open>n.toString(16)\<close> of a whole number.\<close>

definition int_hex :: "int \<Rightarrow> string" where
  "int_hex i = (if i < 0 then CHR 0x2D # to_radix 16 (nat (- i)) else to_radix 16 (nat i))"

record apduArgs =
  ap_txType :: nat
  ap_senderAccount :: nat
  ap_senderAddress :: string
  ap_receiverAddress :: string
  ap_amount :: int
  ap_fee :: int
  ap_nonce :: nat
  ap_validUntil :: nat
  ap_memo :: string
  ap_networkId :: nat

definition apduParts :: "apduArgs \<Rightarrow> string list" where
  "apduParts a =
     [pad (to_radix 16 (ap_senderAccount a)) 8,
      asciiToHex (ap_senderAddress a),
      asciiToHex (ap_receiverAddress a),
      pad (int_hex (ap_amount a)) 16,
      pad (int_hex (ap_fee a)) 16,
      pad (map upper_char (to_radix 16 (ap_nonce a))) 8,
      pad (to_radix 16 (ap_validUntil a)) 8,
      convertMemo (ap_memo a),
      pad (to_radix 16 (ap_txType a)) 2,
      pad (dec (ap_networkId a)) 2]"

definition createTXApdu :: "apduArgs \<Rightarrow> string" where
  "createTXApdu a = concat (apduParts a)"

section \<open>Operations\<close>

definition SW_OK :: nat where "SW_OK = 0x9000"
definition SW_CANCEL :: nat where "SW_CANCEL = 0x6986"

definition ledgerError :: "string \<Rightarrow> string \<Rightarrow> string \<Rightarrow> BaseLedgerResponse" where
  "ledgerError code message text =
     \<lparr>lr_value = None, lr_returnCode = code, lr_message = Some message, lr_statusText = Some text\<rparr>"

definition whole :: "js_number \<Rightarrow> int option" where
  "whole x = (case x of Finite q \<Rightarrow> if q = of_int \<lfloor>q\<rfloor> then Some \<lfloor>q\<rfloor> else None | NaN \<Rightarrow> None)"

definition nonzero_number :: "js_number \<Rightarrow> bool" where
  "nonzero_number x = (case x of Finite q \<Rightarrow> q \<noteq> 0 | NaN \<Rightarrow> False)"

text \<open>The argument checks of \<open>signTransaction\<close>, up to the message for the device.\<close>

definition signRequest :: "SignTransactionArgs \<Rightarrow> BaseLedgerResponse + nat list" where
  "signRequest t =
     (let memo = (case tx_memo t of Some m \<Rightarrow> m | None \<Rightarrow> []);
          validUntil = (case tx_validUntil t of Some v \<Rightarrow> v | None \<Rightarrow> 4294967295)
      in if tx_txType t = None \<or> tx_senderAccount t = None \<or> tx_senderAddress t = []
            \<or> tx_receiverAddress t = [] \<or> (\<not> nonzero_number (tx_amount t) \<and> tx_txType t = Some 0)
            \<or> \<not> nonzero_number (tx_fee t) \<or> whole (tx_amount t) = None \<or> whole (tx_fee t) = None
            \<or> tx_nonce t = None \<or> tx_networkId t = None
         then Inl (ledgerError ''-1'' ''Missing or wrong arguments'' ''MISSING_ARGUMENTS'')
         else if length memo > 32
         then Inl (ledgerError ''-3'' ''Memo field too long'' ''MEMO_TOO_BIG'')
         else if the (whole (tx_fee t)) < 1000000
         then Inl (ledgerError ''-4'' ''Fee too small'' ''FEE_TOO_SMALL'')
         else let apduBuffer = hex_bytes (createTXApdu
                \<lparr>ap_txType = the (tx_txType t), ap_senderAccount = the (tx_senderAccount t),
                 ap_senderAddress = tx_senderAddress t, ap_receiverAddress = tx_receiverAddress t,
                 ap_amount = the (whole (tx_amount t)), ap_fee = the (whole (tx_fee t)),
                 ap_nonce = the (tx_nonce t), ap_validUntil = validUntil, ap_memo = memo,
                 ap_networkId = the (tx_networkId t)\<rparr>)
              in if length apduBuffer > 256
                 then Inl (ledgerError ''-2'' ''data length > 256 bytes'' ''DATA_TOO_BIG'')
                 else Inr apduBuffer)"

definition returnCodeOf :: "nat list \<Rightarrow> string" where
  "returnCodeOf response =
     bytes_hex (js_slice (int (length response) - 2) (int (length response)) response)"

text \<open>In the error branch the code reads \<open>statusCode.toString()\<close> without asking whether there is one.\<close>

definition signTransaction :: "Transport \<Rightarrow> SignTransactionArgs \<Rightarrow> js_error + BaseLedgerResponse" where
  "signTransaction send t =
     (case signRequest t of
        Inl r \<Rightarrow> Inr r
      | Inr apduBuffer \<Rightarrow>
          (case send 0xe0 0x03 0 0 (Some apduBuffer) (Some [SW_OK, SW_CANCEL]) of
             Inr response \<Rightarrow> Inr
               \<lparr>lr_value = Some (bytes_hex (js_slice 0 (int (length response) - 2) response)),
                lr_returnCode = returnCodeOf response, lr_message = None, lr_statusText = None\<rparr>
           | Inl e \<Rightarrow>
               (case te_statusCode e of
                  None \<Rightarrow> Inl TypeError
                | Some c \<Rightarrow> Inr \<lparr>lr_value = None, lr_returnCode = dec c, lr_message = te_message e,
                    lr_statusText = te_statusText e\<rparr>)))"

text \<open>\<open>code?.toString() || '5000'\<close>.\<close>

definition codeOr5000 :: "nat option \<Rightarrow> string" where
  "codeOr5000 c = (case c of Some n \<Rightarrow> dec n | None \<Rightarrow> ''5000'')"

text \<open>\<open>toString('ascii')\<close> drops the top bit; the UTF-8 decoding of \<open>toString()\<close> agrees with it on the
  ASCII text (addresses and version numbers) that the device sends.\<close>

definition ascii_string :: "nat list \<Rightarrow> string" where
  "ascii_string bs = map (\<lambda>b. char_of (b mod 128)) bs"

definition getAddress :: "Transport \<Rightarrow> js_number \<Rightarrow> BaseLedgerResponse" where
  "getAddress send account =
     (case whole account of
        None \<Rightarrow> ledgerError ''-5'' ''Account number must be Int'' ''ACCOUNT_NOT_INT''
      | Some a \<Rightarrow>
          (case send 0xe0 0x02 0 0 (Some (hex_bytes (pad (int_hex a) 8))) (Some [SW_OK, SW_CANCEL]) of
             Inl e \<Rightarrow> \<lparr>lr_value = None, lr_returnCode = codeOr5000 (te_returnCode e),
               lr_message = te_message e, lr_statusText = te_statusText e\<rparr>
           | Inr response \<Rightarrow>
               if returnCodeOf response \<noteq> to_radix 16 SW_OK
               then ledgerError (if response = [] then ''5000'' else returnCodeOf response)
                 ''unknown error'' ''UNKNOWN_ERROR''
               else \<lparr>lr_value = Some (ascii_string (js_slice 0 (int (length response) - 3) response)),
                 lr_returnCode = returnCodeOf response, lr_message = None, lr_statusText = None\<rparr>))"

definition char_at :: "string \<Rightarrow> nat \<Rightarrow> string" where
  "char_at s i = (if i < length s then [s ! i] else ''undefined'')"

definition getAppVersion :: "Transport \<Rightarrow> BaseLedgerResponse" where
  "getAppVersion send =
     (case send 0xe0 0x01 0 0 None None of
        Inl e \<Rightarrow> \<lparr>lr_value = None, lr_returnCode = codeOr5000 (te_statusCode e),
          lr_message = te_message e, lr_statusText = te_statusText e\<rparr>
      | Inr response \<Rightarrow>
          (let versionRaw = bytes_hex (js_slice 0 (int (length response) - 2) response)
           in \<lparr>lr_value = Some (char_at versionRaw 1 @ ''.'' @ char_at versionRaw 2 @ ''.'' @ char_at versionRaw 3),
               lr_returnCode = returnCodeOf response, lr_message = None, lr_statusText = None\<rparr>))"

definition getAppName :: "Transport \<Rightarrow> GetAppNameResponse" where
  "getAppName send =
     (case send 0xb0 0x01 0 0 None None of
        Inl e \<Rightarrow> \<lparr>lr_value = None, lr_returnCode = codeOr5000 (te_statusCode e),
          lr_message = te_message e, lr_statusText = te_statusText e, lr_name = None\<rparr>
      | Inr response \<Rightarrow>
          (let separatorPosition = (case find_index (\<lambda>b. b = 5) response of None \<Rightarrow> -1 | Some i \<Rightarrow> int i)
           in \<lparr>lr_value = Some (ascii_string (js_slice (separatorPosition + 1) (int (length response) - 4) response)),
               lr_returnCode = returnCodeOf response, lr_message = None, lr_statusText = None,
               lr_name = Some (ascii_string (js_slice 2 separatorPosition response))\<rparr>))"

text \<open>\<open>BigInt('0x' + s)\<close> is a syntax error unless \<open>s\<close> is a hexadecimal numeral.\<close>

definition bigint_hex :: "string \<Rightarrow> js_error + nat" where
  "bigint_hex s = (if s \<noteq> [] \<and> list_all is_hex s then Inr (of_radix 16 s) else Inl (Error ''SyntaxError''))"

definition getScalarFromSignature :: "string \<Rightarrow> js_error + string" where
  "getScalarFromSignature signature = map_sum (\<lambda>e. e) dec (bigint_hex (drop 64 signature))"

definition getFieldFromSignature :: "string \<Rightarrow> js_error + string" where
  "getFieldFromSignature signature = map_sum (\<lambda>e. e) dec (bigint_hex (take 64 signature))"

section \<open>Fixed-width numbers\<close>

text \<open>The reference: a number as \<open>w\<close> bytes, the most significant first.\<close>

fun be_bytes :: "nat \<Rightarrow> nat \<Rightarrow> nat list" where
  "be_bytes 0 n = []"
| "be_bytes (Suc w) n = be_bytes w (n div 256) @ [n mod 256]"

definition of_bytes :: "nat list \<Rightarrow> nat" where
  "of_bytes bs = foldl (\<lambda>acc b. acc * 256 + b) 0 bs"

fun fix_digits :: "nat \<Rightarrow> nat \<Rightarrow> string" where
  "fix_digits 0 n = []"
| "fix_digits (Suc w) n = fix_digits w (n div 16) @ [radix_digit (n mod 16)]"

lemma of_bytes_Nil [simp]: "of_bytes [] = 0"
  by (simp add: of_bytes_def)

lemma of_bytes_snoc [simp]: "of_bytes (bs @ [b]) = of_bytes bs * 256 + b"
  by (simp add: of_bytes_def)

lemma length_be_bytes [simp]: "length (be_bytes w n) = w"
  by (induction w arbitrary: n) simp_all

lemma of_be_bytes: "of_bytes (be_bytes w n) = n mod 256 ^ w"
proof (induction w arbitrary: n)
  case (Suc w)
  have "n mod 256 ^ Suc w = 256 * (n div 256 mod 256 ^ w) + n mod 256"
    using mod_mult2_eq [of n 256 "256 ^ w"] by simp
  then show ?case by (simp add: Suc)
qed simp

lemma be_bytes_inject:
  "m < 256 ^ w \<Longrightarrow> n < 256 ^ w \<Longrightarrow> be_bytes w m = be_bytes w n \<longleftrightarrow> m = n"
  by (metis of_be_bytes mod_less)

lemma length_pad [simp]: "length (pad s w) = w"
  by (simp add: pad_def)

lemma pad_snoc: "pad (s @ [c]) (Suc w) = pad s w @ [c]"
  by (simp add: pad_def drop_Cons')

lemma pad_digits: "pad (to_radix 16 n) w = fix_digits w n"
proof (induction w arbitrary: n)
  case 0
  show ?case by (simp add: pad_def)
next
  case (Suc w)
  show ?case
  proof (cases "n < 16")
    case True
    then have t: "to_radix 16 n = [] @ [radix_digit n]" by (simp add: to_radix.simps [of 16 n])
    have "pad [] w = pad (to_radix 16 0) w"
    proof (cases w)
      case (Suc k)
      have "to_radix 16 0 = [] @ [CHR ''0'']" by code_simp
      then show ?thesis by (simp only: Suc pad_snoc) (simp add: pad_def replicate_append_same)
    qed (simp add: pad_def)
    with True Suc show ?thesis by (simp only: t pad_snoc) simp
  next
    case False
    then have "to_radix 16 n = to_radix 16 (n div 16) @ [radix_digit (n mod 16)]"
      by (simp add: to_radix.simps [of 16 n])
    with Suc show ?thesis by (simp add: pad_snoc)
  qed
qed

section \<open>Hexadecimal text and bytes\<close>

lemma is_hex_digit [simp]: "d < 16 \<Longrightarrow> is_hex (radix_digit d)"
  by (auto simp: is_hex_def radix_digit_def Let_def of_char_of)

lemma upper_digit [simp]:
  assumes "d < 16"
  shows "is_hex (upper_char (radix_digit d)) \<and> digit_value (upper_char (radix_digit d)) = d"
  using assms
  by (auto simp: is_hex_def radix_digit_def upper_char_def digit_value_def Let_def of_char_of)

lemma hex_bytes_append:
  "even (length s) \<Longrightarrow> list_all is_hex s \<Longrightarrow> hex_bytes (s @ r) = hex_bytes s @ hex_bytes r"
  by (induction s rule: hex_bytes.induct) auto

lemma bytes_hex_append [simp]: "bytes_hex (as @ bs) = bytes_hex as @ bytes_hex bs"
  by (simp add: bytes_hex_def)

lemma hex_bytes_bytes_hex [simp]: "list_all (\<lambda>b. b < 256) bs \<Longrightarrow> hex_bytes (bytes_hex bs) = bs"
  by (induction bs) (auto simp: bytes_hex_def hex2_def div_less_iff_less_mult)

lemma bytes_hex_is_hex [simp]: "list_all (\<lambda>b. b < 256) bs \<Longrightarrow> list_all is_hex (bytes_hex bs)"
  by (induction bs) (auto simp: bytes_hex_def hex2_def div_less_iff_less_mult)

lemma length_bytes_hex [simp]: "length (bytes_hex bs) = 2 * length bs"
  by (induction bs) (auto simp: bytes_hex_def hex2_def)

lemma of_char_byte [simp]: "list_all (\<lambda>b. b < 256) (map of_char s :: nat list)"
  by (induction s) simp_all

lemma fix_digits_hex [simp]: "list_all is_hex (fix_digits w n)"
  by (induction w arbitrary: n) simp_all

lemma fix_digits_upper_hex [simp]: "list_all is_hex (map upper_char (fix_digits w n))"
  by (induction w arbitrary: n) simp_all

lemma length_fix_digits [simp]: "length (fix_digits w n) = w"
  by (induction w arbitrary: n) simp_all

lemma byte_of_nibbles: "n div 16 mod 16 * 16 + n mod 16 = n mod (256::nat)"
  using mod_mult2_eq [of n 16 16] by simp

lemma fix_digits_byte:
  "fix_digits (2 * Suc w) n =
     fix_digits (2 * w) (n div 256) @ [radix_digit (n div 16 mod 16), radix_digit (n mod 16)]"
  by (simp add: div_mult2_eq [symmetric])

lemma hex_bytes_fix_digits: "hex_bytes (fix_digits (2 * w) n) = be_bytes w n"
proof (induction w arbitrary: n)
  case (Suc w)
  show ?case unfolding fix_digits_byte
    by (subst hex_bytes_append) (simp_all add: Suc byte_of_nibbles)
qed simp

lemma hex_bytes_fix_digits_upper: "hex_bytes (map upper_char (fix_digits (2 * w) n)) = be_bytes w n"
proof (induction w arbitrary: n)
  case (Suc w)
  show ?case unfolding fix_digits_byte map_append
    by (subst hex_bytes_append) (simp_all add: Suc byte_of_nibbles)
qed simp

lemma pad_upper: "pad (map upper_char s) w = map upper_char (pad s w)"
proof -
  have "upper_char (CHR ''0'') = CHR ''0''" by code_simp
  then show ?thesis by (simp add: pad_def drop_map)
qed

text \<open>A padded number as the first part of a message.\<close>

lemma hex_bytes_pad:
  "hex_bytes (pad (to_radix 16 n) 2 @ r) = be_bytes 1 n @ hex_bytes r"
  "hex_bytes (pad (to_radix 16 n) 8 @ r) = be_bytes 4 n @ hex_bytes r"
  "hex_bytes (pad (to_radix 16 n) 16 @ r) = be_bytes 8 n @ hex_bytes r"
  "hex_bytes (pad (map upper_char (to_radix 16 n)) 8 @ r) = be_bytes 4 n @ hex_bytes r"
  using hex_bytes_fix_digits [of 1 n] hex_bytes_fix_digits [of 4 n] hex_bytes_fix_digits [of 8 n]
    hex_bytes_fix_digits_upper [of 4 n]
  by (simp_all add: pad_upper pad_digits hex_bytes_append)

lemma hex_bytes_ascii: "hex_bytes (asciiToHex s @ r) = map of_char s @ hex_bytes r"
  by (simp add: asciiToHex_def hex_bytes_append)

lemma memo_fill_replicate: "memo_fill k s = s @ replicate k (CHR 0x00)"
  by (induction k arbitrary: s) (simp_all add: replicate_append_same)

lemma utf8_ascii: "list_all (\<lambda>c. (of_char c :: nat) < 128) s \<Longrightarrow> concat (map utf8_char s) = map of_char s"
  by (induction s) (simp_all add: utf8_char_def Let_def)

lemma hex_bytes_memo:
  assumes "list_all (\<lambda>c. (of_char c :: nat) < 128) memo"
  shows "hex_bytes (convertMemo memo @ r) = map of_char memo @ replicate (32 - length memo) 0 @ hex_bytes r"
proof -
  let ?m = "memo @ replicate (32 - length memo) (CHR 0x00)"
  have "(of_char (CHR 0x00) :: nat) = 0" by code_simp
  then have "map of_char ?m = (map of_char memo @ replicate (32 - length memo) 0 :: nat list)"
    and "list_all (\<lambda>c. (of_char c :: nat) < 128) ?m"
    using assms by (auto simp: list_all_iff)
  then have "convertMemo memo = asciiToHex ?m"
    by (simp add: convertMemo_def memo_fill_replicate asciiToHex_def utf8_ascii del: map_append)
  with \<open>map of_char ?m = _\<close> show ?thesis by (simp add: hex_bytes_ascii del: map_append)
qed

section \<open>The signing request\<close>

text \<open>A transaction that passes the argument checks, and the message the device expects for it.\<close>

definition valid_tx :: "SignTransactionArgs \<Rightarrow> bool" where
  "valid_tx t =
     (tx_txType t \<noteq> None \<and> tx_senderAccount t \<noteq> None \<and> tx_nonce t \<noteq> None
      \<and> (\<exists>n. tx_networkId t = Some n \<and> n < 10)
      \<and> length (tx_senderAddress t) = 55 \<and> length (tx_receiverAddress t) = 55
      \<and> (\<exists>n. tx_amount t = Finite (of_nat n) \<and> (n = 0 \<longrightarrow> tx_txType t \<noteq> Some 0))
      \<and> (\<exists>n. tx_fee t = Finite (of_nat n) \<and> 1000000 \<le> n)
      \<and> list_all (\<lambda>c. (of_char c :: nat) < 128) (case tx_memo t of None \<Rightarrow> [] | Some m \<Rightarrow> m)
      \<and> length (case tx_memo t of None \<Rightarrow> [] | Some m \<Rightarrow> m) \<le> 32)"

definition tx_bytes :: "SignTransactionArgs \<Rightarrow> nat list" where
  "tx_bytes t =
     (let memo = (case tx_memo t of None \<Rightarrow> [] | Some m \<Rightarrow> m)
      in be_bytes 4 (the (tx_senderAccount t))
       @ map of_char (tx_senderAddress t)
       @ map of_char (tx_receiverAddress t)
       @ be_bytes 8 (nat (the (whole (tx_amount t))))
       @ be_bytes 8 (nat (the (whole (tx_fee t))))
       @ be_bytes 4 (the (tx_nonce t))
       @ be_bytes 4 (case tx_validUntil t of None \<Rightarrow> 4294967295 | Some v \<Rightarrow> v)
       @ map of_char memo @ replicate (32 - length memo) 0
       @ be_bytes 1 (the (tx_txType t))
       @ be_bytes 1 (the (tx_networkId t)))"

lemma whole_of_nat [simp]: "whole (Finite (of_nat n)) = Some (int n)"
  by (simp add: whole_def)

lemma nonzero_of_nat [simp]: "nonzero_number (Finite (of_nat n)) \<longleftrightarrow> n \<noteq> 0"
  by (simp add: nonzero_number_def)

lemma int_hex_of_nat [simp]: "int_hex (int n) = to_radix 16 n"
  by (simp add: int_hex_def)

lemma length_tx_bytes: "valid_tx t \<Longrightarrow> length (tx_bytes t) = 172"
  by (auto simp: valid_tx_def tx_bytes_def Let_def)

lemma hex_bytes_network:
  assumes "n < 10"
  shows "hex_bytes (pad (dec n) 2) = be_bytes 1 n"
proof -
  have "dec n = to_radix 16 n" using assms by (simp add: to_radix.simps)
  then show ?thesis using hex_bytes_pad(1) [of n "[]"] by simp
qed

lemma hex_bytes_apdu:
  assumes "ap_amount a = int am" "ap_fee a = int fe" "ap_networkId a < 10"
    and "list_all (\<lambda>c. (of_char c :: nat) < 128) (ap_memo a)"
  shows "hex_bytes (createTXApdu a) =
    be_bytes 4 (ap_senderAccount a) @ map of_char (ap_senderAddress a)
    @ map of_char (ap_receiverAddress a) @ be_bytes 8 am @ be_bytes 8 fe
    @ be_bytes 4 (ap_nonce a) @ be_bytes 4 (ap_validUntil a)
    @ map of_char (ap_memo a) @ replicate (32 - length (ap_memo a)) 0
    @ be_bytes 1 (ap_txType a) @ be_bytes 1 (ap_networkId a)"
  using assms
  by (simp add: createTXApdu_def apduParts_def hex_bytes_pad hex_bytes_ascii hex_bytes_memo
      hex_bytes_network del: be_bytes.simps One_nat_def)

lemma signRequest_valid:
  assumes "valid_tx t"
  shows "signRequest t = Inr (tx_bytes t)"
proof -
  obtain ty ac no ni am fe where
    t: "tx_txType t = Some ty" "tx_senderAccount t = Some ac" "tx_nonce t = Some no"
      "tx_networkId t = Some ni" "ni < 10"
      "tx_amount t = Finite (of_nat am)" "0 < am \<or> 0 < ty"
      "tx_fee t = Finite (of_nat fe)" "1000000 \<le> fe"
    using assms by (auto simp: valid_tx_def)
  have a: "tx_senderAddress t \<noteq> []" "tx_receiverAddress t \<noteq> []"
    using assms by (auto simp: valid_tx_def)
  let ?memo = "case tx_memo t of None \<Rightarrow> [] | Some m \<Rightarrow> m"
  have m: "list_all (\<lambda>c. (of_char c :: nat) < 128) ?memo" "length ?memo \<le> 32"
    using assms by (simp_all add: valid_tx_def)
  let ?a = "\<lparr>ap_txType = ty, ap_senderAccount = ac, ap_senderAddress = tx_senderAddress t,
    ap_receiverAddress = tx_receiverAddress t, ap_amount = int am, ap_fee = int fe, ap_nonce = no,
    ap_validUntil = (case tx_validUntil t of None \<Rightarrow> 4294967295 | Some v \<Rightarrow> v),
    ap_memo = ?memo, ap_networkId = ni\<rparr>"
  have h: "hex_bytes (createTXApdu ?a) = tx_bytes t"
    by (subst hex_bytes_apdu) (use t m in \<open>simp_all add: tx_bytes_def Let_def del: be_bytes.simps\<close>)
  with length_tx_bytes [OF assms] have "length (hex_bytes (createTXApdu ?a)) \<le> 256" by simp
  with t a m h show ?thesis by (simp add: signRequest_def Let_def)
qed

section \<open>What the message determines\<close>

text \<open>The numeric fields fit in their widths and the memo has no zero character.\<close>

definition in_range :: "SignTransactionArgs \<Rightarrow> bool" where
  "in_range t =
     (the (tx_txType t) < 256 \<and> the (tx_senderAccount t) < 256 ^ 4 \<and> the (tx_nonce t) < 256 ^ 4
      \<and> (case tx_validUntil t of None \<Rightarrow> 4294967295 | Some v \<Rightarrow> v) < 256 ^ 4
      \<and> nat (the (whole (tx_amount t))) < 256 ^ 8 \<and> nat (the (whole (tx_fee t))) < 256 ^ 8
      \<and> CHR 0x00 \<notin> set (case tx_memo t of None \<Rightarrow> [] | Some m \<Rightarrow> m))"

lemma map_of_char_inject [simp]: "(map of_char s :: nat list) = map of_char r \<longleftrightarrow> s = r"
  by (rule inj_map_eq_map) (rule inj_of_char)

lemma of_char_nonzero:
  assumes "c \<noteq> CHR 0x00"
  shows "(of_char c :: nat) \<noteq> 0"
proof
  assume "(of_char c :: nat) = 0"
  moreover have "(of_char (CHR 0x00) :: nat) = 0" by code_simp
  ultimately have "(of_char c :: nat) = of_char (CHR 0x00)" by simp
  with assms show False by (simp only: of_char_eq_iff)
qed

lemma zero_padded_memo:
  assumes "CHR 0x00 \<notin> set s"
  shows "takeWhile (\<lambda>n. n \<noteq> 0) (map of_char s @ replicate k (0::nat)) = map of_char s"
proof -
  have "(of_char c :: nat) \<noteq> 0" if "c \<in> set s" for c
    using that assms by (intro of_char_nonzero) auto
  then have "takeWhile (\<lambda>n. n \<noteq> 0) (map of_char s @ replicate k (0::nat)) =
      map of_char s @ takeWhile (\<lambda>n. n \<noteq> 0) (replicate k 0)"
    by (intro takeWhile_append2) auto
  then show ?thesis by (simp add: takeWhile_replicate)
qed

lemma memo_inject:
  assumes "CHR 0x00 \<notin> set s" "CHR 0x00 \<notin> set r"
    and "map of_char s @ replicate k (0::nat) = map of_char r @ replicate j 0"
  shows "s = r"
  using zero_padded_memo [OF assms(1), of k] zero_padded_memo [OF assms(2), of j] assms(3) by simp

abbreviation memo_of :: "SignTransactionArgs \<Rightarrow> string" where
  "memo_of t \<equiv> case tx_memo t of None \<Rightarrow> [] | Some m \<Rightarrow> m"

abbreviation validUntil_of :: "SignTransactionArgs \<Rightarrow> nat" where
  "validUntil_of t \<equiv> case tx_validUntil t of None \<Rightarrow> 4294967295 | Some v \<Rightarrow> v"

lemma tx_bytes_parts:
  assumes "valid_tx t" "valid_tx u" "tx_bytes t = tx_bytes u"
  defines "m \<equiv> \<lambda>t. map of_char (memo_of t) @ replicate (32 - length (memo_of t)) (0::nat)"
  shows "be_bytes 4 (the (tx_senderAccount t)) = be_bytes 4 (the (tx_senderAccount u))
    \<and> tx_senderAddress t = tx_senderAddress u \<and> tx_receiverAddress t = tx_receiverAddress u
    \<and> be_bytes 8 (nat (the (whole (tx_amount t)))) = be_bytes 8 (nat (the (whole (tx_amount u))))
    \<and> be_bytes 8 (nat (the (whole (tx_fee t)))) = be_bytes 8 (nat (the (whole (tx_fee u))))
    \<and> be_bytes 4 (the (tx_nonce t)) = be_bytes 4 (the (tx_nonce u))
    \<and> be_bytes 4 (validUntil_of t) = be_bytes 4 (validUntil_of u)
    \<and> m t = m u
    \<and> be_bytes 1 (the (tx_txType t)) = be_bytes 1 (the (tx_txType u))
    \<and> be_bytes 1 (the (tx_networkId t)) = be_bytes 1 (the (tx_networkId u))"
proof -
  have l: "length (tx_senderAddress t) = length (tx_senderAddress u)"
    "length (tx_receiverAddress t) = length (tx_receiverAddress u)"
    and m: "length (m t) = length (m u)"
    using assms(1,2) by (auto simp: valid_tx_def m_def)
  have bytes: "tx_bytes t = be_bytes 4 (the (tx_senderAccount t)) @ map of_char (tx_senderAddress t)
       @ map of_char (tx_receiverAddress t) @ be_bytes 8 (nat (the (whole (tx_amount t))))
       @ be_bytes 8 (nat (the (whole (tx_fee t)))) @ be_bytes 4 (the (tx_nonce t))
       @ be_bytes 4 (validUntil_of t)
       @ m t @ be_bytes 1 (the (tx_txType t)) @ be_bytes 1 (the (tx_networkId t))" for t
    by (simp add: tx_bytes_def Let_def m_def)
  show ?thesis using assms(3) l m by (simp add: bytes del: be_bytes.simps One_nat_def)
qed

section \<open>Properties\<close>

text \<open>C11. For a transaction that passes the checks, with 55-character addresses, a memo of at most 32
  ASCII characters and a one-digit network, the hexadecimal text put together by \<open>createTXApdu\<close>
  denotes the 172 bytes of the wire format: account (4), sender, receiver, amount (8), fee (8),
  nonce (4), expiry (4), memo filled with zeros (32), tag (1), network (1), numbers with the most
  significant byte first and reduced modulo their width. The size check cannot reject it.\<close>

theorem ledger_message:
  assumes "valid_tx t"
  shows "signRequest t = Inr (tx_bytes t) \<and> length (tx_bytes t) = 172"
  using signRequest_valid [OF assms] length_tx_bytes [OF assms] by simp

definition sample_tx :: SignTransactionArgs where
  "sample_tx = \<lparr>tx_txType = Some 0, tx_senderAccount = Some 42,
     tx_senderAddress = ''B62qr9pMrhSwBA6txJ8kD3f9GZ3VQPoUaFnKhEosdJmnZXXKj6qhkGF'',
     tx_receiverAddress = ''B62qkEB9FPhBs9mYdPJPVkUevrJuYr22MwANNvavy6HWZEDqL8WKR3F'',
     tx_amount = Finite (of_nat 5), tx_fee = Finite (of_nat 98146290), tx_nonce = Some 2,
     tx_validUntil = None, tx_memo = Some ''clorio'', tx_networkId = Some 0\<rparr>"

lemma sample_memo: "list_all (\<lambda>c. (of_char c :: nat) < 128) ''clorio'' \<and> CHR 0x00 \<notin> set ''clorio''"
  by code_simp

lemma sample_valid: "valid_tx sample_tx"
  using sample_memo by (auto simp: sample_tx_def valid_tx_def)

theorem ledger_message_witness: "signRequest sample_tx = Inr (tx_bytes sample_tx)"
  using ledger_message [OF sample_valid] by simp

text \<open>What the device signs determines the transaction: two valid transactions whose fields fit
  their widths and whose memos have no zero character get the same message only when every field
  is the same, a missing expiry being the largest and a missing memo the empty one.\<close>

lemma ledger_message_unique:
  assumes "valid_tx t" "in_range t" "valid_tx u" "in_range u" and "signRequest t = signRequest u"
  shows "tx_txType t = tx_txType u \<and> tx_senderAccount t = tx_senderAccount u
    \<and> tx_senderAddress t = tx_senderAddress u \<and> tx_receiverAddress t = tx_receiverAddress u
    \<and> tx_amount t = tx_amount u \<and> tx_fee t = tx_fee u \<and> tx_nonce t = tx_nonce u
    \<and> validUntil_of t = validUntil_of u \<and> memo_of t = memo_of u \<and> tx_networkId t = tx_networkId u"
proof -
  have "tx_bytes t = tx_bytes u" using assms by (simp add: signRequest_valid)
  note p = tx_bytes_parts [OF assms(1,3) this]
  have "memo_of t = memo_of u"
    using p assms by (intro memo_inject) (auto simp: in_range_def)
  moreover have "the (tx_networkId t) < 256 ^ 1" "the (tx_networkId u) < 256 ^ 1"
    "the (tx_txType t) < 256 ^ 1" "the (tx_txType u) < 256 ^ 1"
    using assms by (auto simp: valid_tx_def in_range_def)
  ultimately show ?thesis using p assms
    by (auto simp: be_bytes_inject valid_tx_def in_range_def simp del: be_bytes.simps One_nat_def)
qed

lemma sample_in_range: "in_range sample_tx"
  using sample_memo by (simp add: sample_tx_def in_range_def whole_def)

lemma ledger_message_unique_witness:
  "signRequest sample_tx \<noteq> signRequest (sample_tx\<lparr>tx_nonce := Some 3\<rparr>)"
proof
  let ?u = "sample_tx\<lparr>tx_nonce := Some 3\<rparr>"
  assume eq: "signRequest sample_tx = signRequest ?u"
  have "valid_tx ?u" using sample_valid by (simp add: valid_tx_def)
  moreover have "in_range ?u" using sample_in_range by (simp add: in_range_def)
  ultimately have "tx_nonce sample_tx = tx_nonce ?u"
    using ledger_message_unique [OF sample_valid sample_in_range _ _ eq] by simp
  then show False by (simp add: sample_tx_def)
qed

lemma js_slice_answer:
  "js_slice 0 (int (length (bs @ [a, b])) - 2) (bs @ [a, b]) = bs"
  "js_slice (int (length (bs @ [a, b])) - 2) (int (length (bs @ [a, b]))) (bs @ [a, b]) = [a, b]"
  by (simp_all add: js_slice_def Let_def nat_add_distrib)

lemma of_radix_hex2: "b < 256 \<Longrightarrow> of_radix 16 (s @ hex2 b) = of_radix 16 s * 256 + b"
proof -
  assume "b < 256"
  have "of_radix 16 ((s @ [radix_digit (b div 16)]) @ [radix_digit (b mod 16)]) =
      (of_radix 16 s * 16 + b div 16) * 16 + b mod 16"
    using \<open>b < 256\<close> by (simp only: of_radix_snoc) simp
  also have "\<dots> = of_radix 16 s * 256 + b" by simp
  finally show ?thesis by (simp add: hex2_def)
qed

lemma of_radix_bytes_hex: "list_all (\<lambda>b. b < 256) bs \<Longrightarrow> of_radix 16 (bytes_hex bs) = of_bytes bs"
proof (induction bs rule: rev_induct)
  case (snoc b bs)
  have "bytes_hex (bs @ [b]) = bytes_hex bs @ hex2 b" by (simp add: bytes_hex_def)
  with snoc show ?case by (simp add: of_radix_hex2)
qed (simp add: bytes_hex_def)

lemma bigint_bytes_hex:
  "list_all (\<lambda>b. b < 256) bs \<Longrightarrow> bs \<noteq> [] \<Longrightarrow> bigint_hex (bytes_hex bs) = Inr (of_bytes bs)"
  using length_bytes_hex [of bs] by (auto simp: bigint_hex_def of_radix_bytes_hex simp del: length_bytes_hex)

text \<open>When the device answers a valid transaction with a field and a scalar of 32 bytes each and
  the status \<open>9000\<close>, the signature is their hexadecimal text, the code is \<open>9000\<close>, and the two parts
  cut out of the signature are the decimal numerals of the field and the scalar.\<close>

lemma ledger_signature:
  assumes "valid_tx t"
    and "list_all (\<lambda>b. b < 256) field" "list_all (\<lambda>b. b < 256) scalar"
    and "length field = 32" "length scalar = 32"
    and "send 0xe0 0x03 0 0 (Some (tx_bytes t)) (Some [SW_OK, SW_CANCEL]) = Inr (field @ scalar @ [0x90, 0])"
  shows "\<exists>r s. signTransaction send t = Inr r \<and> lr_value r = Some s \<and> lr_returnCode r = ''9000''
    \<and> getFieldFromSignature s = Inr (dec (of_bytes field))
    \<and> getScalarFromSignature s = Inr (dec (of_bytes scalar))"
proof -
  let ?s = "bytes_hex (field @ scalar)"
  have "bytes_hex [0x90, 0] = ''9000''" by code_simp
  then have "signTransaction send t = Inr \<lparr>lr_value = Some ?s, lr_returnCode = ''9000'',
      lr_message = None, lr_statusText = None\<rparr>"
    using assms js_slice_answer [of "field @ scalar" "0x90" 0]
    by (simp add: signTransaction_def signRequest_valid returnCodeOf_def del: bytes_hex_append)
  moreover have "getFieldFromSignature ?s = Inr (dec (of_bytes field))"
    "getScalarFromSignature ?s = Inr (dec (of_bytes scalar))"
    using assms bigint_bytes_hex [of field] bigint_bytes_hex [of scalar]
    by (fastforce simp: getFieldFromSignature_def getScalarFromSignature_def)+
  ultimately show ?thesis by auto
qed

lemma ledger_signature_witness:
  "\<exists>r s. signTransaction (\<lambda>_ _ _ _ _ _. Inr (replicate 32 1 @ replicate 32 2 @ [0x90, 0])) sample_tx = Inr r
    \<and> lr_value r = Some s \<and> lr_returnCode r = ''9000''
    \<and> getFieldFromSignature s = Inr (dec (of_bytes (replicate 32 1)))
    \<and> getScalarFromSignature s = Inr (dec (of_bytes (replicate 32 2)))"
  by (rule ledger_signature [OF sample_valid]) (simp_all add: list_all_iff)

text \<open>Every outcome of \<open>signTransaction\<close>: a failed check gives one of the four codes without a call
  of the device; the promise is rejected exactly when the device fails with an error that has no
  status code, because that code is read unguarded, whereas \<open>getAddress\<close>, \<open>getAppVersion\<close> and
  \<open>getAppName\<close> then answer with code 5000.\<close>

lemma ledger_outcomes:
  "(\<forall>r. signRequest t = Inl r \<longrightarrow> (\<forall>send. signTransaction send t = Inr r) \<and> lr_value r = None
      \<and> lr_returnCode r \<in> {''-1'', ''-2'', ''-3'', ''-4''})
   \<and> (signTransaction send t = Inl x \<longleftrightarrow> x = TypeError \<and>
        (\<exists>bs e. signRequest t = Inr bs \<and> te_statusCode e = None
           \<and> send 0xe0 0x03 0 0 (Some bs) (Some [SW_OK, SW_CANCEL]) = Inl e))
   \<and> (\<forall>e. te_statusCode e = None \<longrightarrow>
        lr_returnCode (getAppVersion (\<lambda>_ _ _ _ _ _. Inl e)) = ''5000''
        \<and> lr_returnCode (getAppName (\<lambda>_ _ _ _ _ _. Inl e)) = ''5000'')"
proof (intro conjI allI impI)
  fix r assume "signRequest t = Inl r"
  then show "signTransaction send t = Inr r" and "lr_value r = None"
    and "lr_returnCode r \<in> {''-1'', ''-2'', ''-3'', ''-4''}" for send
    by (auto simp: signTransaction_def signRequest_def ledgerError_def Let_def split: if_splits)
next
  show "signTransaction send t = Inl x \<longleftrightarrow> x = TypeError \<and>
        (\<exists>bs e. signRequest t = Inr bs \<and> te_statusCode e = None
           \<and> send 0xe0 0x03 0 0 (Some bs) (Some [SW_OK, SW_CANCEL]) = Inl e)"
    by (auto simp: signTransaction_def split: sum.splits option.splits)
qed (simp_all add: getAppVersion_def getAppName_def codeOr5000_def)

lemma ledger_outcomes_witness:
  "lr_returnCode (getAppVersion (\<lambda>_ _ _ _ _ _. Inl \<lparr>te_statusCode = None, te_returnCode = None,
      te_message = None, te_statusText = None\<rparr>)) = ''5000''
   \<and> (\<forall>send. signTransaction send (sample_tx\<lparr>tx_nonce := None\<rparr>) =
        Inr (ledgerError ''-1'' ''Missing or wrong arguments'' ''MISSING_ARGUMENTS''))"
proof (intro conjI allI)
  show "lr_returnCode (getAppVersion (\<lambda>_ _ _ _ _ _. Inl \<lparr>te_statusCode = None, te_returnCode = None,
      te_message = None, te_statusText = None\<rparr>)) = ''5000''"
    using ledger_outcomes by fastforce
  have "signRequest (sample_tx\<lparr>tx_nonce := None\<rparr>) =
      Inl (ledgerError ''-1'' ''Missing or wrong arguments'' ''MISSING_ARGUMENTS'')"
    by (simp add: signRequest_def Let_def)
  then show "signTransaction send (sample_tx\<lparr>tx_nonce := None\<rparr>) =
        Inr (ledgerError ''-1'' ''Missing or wrong arguments'' ''MISSING_ARGUMENTS'')" for send
    using ledger_outcomes [of "sample_tx\<lparr>tx_nonce := None\<rparr>"] by blast
qed

end
