(* ===== verification/Loading_State.thy ===== *)
theory Loading_State
  imports Effect_Pipeline Store_Reducer
begin

text \<open>
  The two reducers of the layout. \<open>layout/toolbar/loading.reducer.ts\<close> keeps the types of the actions
  whose answer is awaited: the toolbar shows its progress bar while the list is not empty.
  \<open>layout/error-preview/error-preview.reducer.ts\<close> keeps the reported errors. The loading reducer
  looks at nothing but the type of an action, so that its actions are their type strings.
\<close>

section \<open>Loading\<close>

type_synonym LoadingState = "string list"

text \<open>The case labels under ADD, in their order.\<close>

definition loadingStarts :: "string list" where
  "loadingStarts =
     [''[App] Init'',
      ''[Block Production Overview] Get Slots'', ''[Block Production Won Slots] Init'',
      ''STATE_ACTIONS_GET_EARLIEST_SLOT'', ''STATE_ACTIONS_GET_ACTIONS'',
      ''NODES_OVERVIEW_INIT'', ''NODES_BOOTSTRAP_INIT'', ''NODES_LIVE_INIT'',
      ''SNARKS_WORK_POOL_INIT'', ''SNARKS_WORK_POOL_GET_WORK_POOL_DETAIL'',
      ''SCAN_STATE_INIT'', ''MEMORY_RESOURCES_GET'',
      ''NETWORK_NODE_DHT_INIT'', ''NETWORK_BOOTSTRAP_STATS_INIT'',
      ''BENCHMARKS_WALLETS_GET_WALLETS'', ''BENCHMARKS_WALLETS_GET_ALL_TXS'']"

text \<open>The case labels under REMOVE, each with the types that it removes.\<close>

definition loadingRemovals :: "(string \<times> string list) list" where
  "loadingRemovals =
     [(''[App] Init Success'', [''[App] Init'']),
      (''[Block Production Overview] Get Slots Success'', [''[Block Production Overview] Get Slots'']),
      (''[Block Production Overview] Close'', [''[Block Production Overview] Close'']),
      (''[Block Production Won Slots] Get Slots Success'', [''[Block Production Won Slots] Init'']),
      (''[Block Production Won Slots] Close'', [''[Block Production Won Slots] Init'']),
      (''STATE_ACTIONS_GET_EARLIEST_SLOT_SUCCESS'', [''STATE_ACTIONS_GET_EARLIEST_SLOT'']),
      (''STATE_ACTIONS_GET_ACTIONS_SUCCESS'', [''STATE_ACTIONS_GET_ACTIONS'']),
      (''STATE_ACTIONS_CLOSE'', [''STATE_ACTIONS_GET_EARLIEST_SLOT'', ''STATE_ACTIONS_GET_ACTIONS'']),
      (''NODES_OVERVIEW_GET_NODES_SUCCESS'', [''NODES_OVERVIEW_INIT'']),
      (''NODES_OVERVIEW_CLOSE'', [''NODES_OVERVIEW_INIT'']),
      (''NODES_BOOTSTRAP_GET_NODES_SUCCESS'', [''NODES_BOOTSTRAP_INIT'']),
      (''NODES_BOOTSTRAP_CLOSE'', [''NODES_BOOTSTRAP_INIT'']),
      (''NODES_LIVE_GET_NODES_SUCCESS'', [''NODES_LIVE_INIT'']),
      (''NODES_LIVE_CLOSE'', [''NODES_LIVE_INIT'']),
      (''SNARKS_WORK_POOL_GET_WORK_POOL_SUCCESS'', [''SNARKS_WORK_POOL_INIT'']),
      (''SNARKS_WORK_POOL_GET_WORK_POOL_DETAIL_SUCCESS'', [''SNARKS_WORK_POOL_GET_WORK_POOL_DETAIL'']),
      (''SNARKS_WORK_POOL_CLOSE'', [''SNARKS_WORK_POOL_INIT'', ''SNARKS_WORK_POOL_GET_WORK_POOL_DETAIL'']),
      (''SCAN_STATE_GET_BLOCK_SUCCESS'', [''SCAN_STATE_INIT'']),
      (''SCAN_STATE_CLOSE'', [''SCAN_STATE_INIT'']),
      (''MEMORY_RESOURCES_GET_SUCCESS'', [''MEMORY_RESOURCES_GET'']),
      (''MEMORY_RESOURCES_CLOSE'', [''MEMORY_RESOURCES_GET'']),
      (''NETWORK_NODE_DHT_GET_PEERS_SUCCESS'', [''NETWORK_NODE_DHT_INIT'']),
      (''NETWORK_NODE_DHT_CLOSE'', [''NETWORK_NODE_DHT_INIT'']),
      (''NETWORK_BOOTSTRAP_STATS_GET_BOOTSTRAP_STATS_SUCCESS'', [''NETWORK_BOOTSTRAP_STATS_INIT'']),
      (''NETWORK_BOOTSTRAP_STATS_CLOSE'', [''NETWORK_BOOTSTRAP_STATS_INIT'']),
      (''BENCHMARKS_WALLETS_GET_WALLETS_SUCCESS'', [''BENCHMARKS_WALLETS_GET_WALLETS'']),
      (''BENCHMARKS_GET_ALL_TXS_SUCCESS'', [''BENCHMARKS_WALLETS_GET_ALL_TXS'']),
      (''BENCHMARKS_WALLETS_CLOSE'', [''BENCHMARKS_WALLETS_GET_WALLETS'', ''BENCHMARKS_WALLETS_GET_ALL_TXS''])]"

definition add_loading :: "LoadingState \<Rightarrow> string \<Rightarrow> LoadingState" where
  "add_loading state type = type # state"

definition remove_loading :: "LoadingState \<Rightarrow> string list \<Rightarrow> LoadingState" where
  "remove_loading state types = filter (\<lambda>t. t \<notin> set types) state"

definition loadingReducer :: "LoadingState \<Rightarrow> string \<Rightarrow> LoadingState" where
  "loadingReducer state type =
     (if type \<in> set loadingStarts then add_loading state type
      else case map_of loadingRemovals type of
        Some types \<Rightarrow> remove_loading state types
      | None \<Rightarrow> state)"

definition selectLoadingStateLength :: "LoadingState \<Rightarrow> nat" where
  "selectLoadingStateLength state = length state"

section \<open>Errors\<close>

record ErrorPreviewState =
  errors :: "MinaError list"

datatype ErrorPreviewActions = ADD_ERROR MinaError | MARK_ERRORS_AS_SEEN

fun errorReducer :: "ErrorPreviewState \<Rightarrow> ErrorPreviewActions \<Rightarrow> ErrorPreviewState" where
  "errorReducer state (ADD_ERROR payload) = state\<lparr>errors := payload # errors state\<rparr>"
| "errorReducer state MARK_ERRORS_AS_SEEN =
     state\<lparr>errors := map (\<lambda>e. e\<lparr>mina_seen := True\<rparr>) (errors state)\<rparr>"

section \<open>Lemmas\<close>

text \<open>The types that an action ends.\<close>

definition ends :: "string \<Rightarrow> string list" where
  "ends a = (if a \<in> set loadingStarts then []
     else case map_of loadingRemovals a of Some types \<Rightarrow> types | None \<Rightarrow> [])"

lemma loadingReducer_set:
  "t \<in> set (loadingReducer s a) \<longleftrightarrow> a \<in> set loadingStarts \<and> t = a \<or> t \<in> set s \<and> t \<notin> set (ends a)"
  by (auto simp: loadingReducer_def add_loading_def remove_loading_def ends_def split: option.splits)

lemma loading_pending:
  "t \<in> set (foldl loadingReducer [] as) \<longleftrightarrow>
     t \<in> set loadingStarts \<and> (\<exists>before after. as = before @ t # after \<and> (\<forall>a \<in> set after. t \<notin> set (ends a)))"
proof (induction as rule: rev_induct)
  case Nil
  show ?case by simp
next
  case (snoc a as)
  show ?case (is "?l \<longleftrightarrow> ?r")
  proof
    assume ?l
    then consider (new) "a \<in> set loadingStarts" "t = a"
      | (old) "t \<in> set (foldl loadingReducer [] as)" "t \<notin> set (ends a)"
      by (auto simp: loadingReducer_set)
    then show ?r
    proof cases
      case new
      then have "as @ [a] = as @ t # []" by simp
      then show ?thesis using new by fastforce
    next
      case old
      with snoc obtain before after where "t \<in> set loadingStarts" "as = before @ t # after"
        "\<forall>a \<in> set after. t \<notin> set (ends a)" by auto
      moreover from this have "as @ [a] = before @ t # (after @ [a])" by simp
      ultimately show ?thesis using old(2) by fastforce
    qed
  next
    assume ?r
    then obtain before after where t: "t \<in> set loadingStarts"
      and e: "as @ [a] = before @ t # after" and n: "\<forall>a \<in> set after. t \<notin> set (ends a)" by blast
    show ?l
    proof (cases after rule: rev_cases)
      case Nil
      with e have "a = t" by simp
      then show ?thesis using t by (simp add: loadingReducer_set)
    next
      case (snoc ys y)
      with e have "as = before @ t # ys" "a = y" by simp_all
      then show ?thesis using snoc.IH t n snoc by (auto simp: loadingReducer_set)
    qed
  qed
qed

text \<open>The start actions of each page with the action that closes it.\<close>

definition pageStarts :: "(string \<times> string list) list" where
  "pageStarts =
     [(''[Block Production Won Slots] Close'', [''[Block Production Won Slots] Init'']),
      (''STATE_ACTIONS_CLOSE'', [''STATE_ACTIONS_GET_EARLIEST_SLOT'', ''STATE_ACTIONS_GET_ACTIONS'']),
      (''NODES_OVERVIEW_CLOSE'', [''NODES_OVERVIEW_INIT'']),
      (''NODES_BOOTSTRAP_CLOSE'', [''NODES_BOOTSTRAP_INIT'']),
      (''NODES_LIVE_CLOSE'', [''NODES_LIVE_INIT'']),
      (''SNARKS_WORK_POOL_CLOSE'', [''SNARKS_WORK_POOL_INIT'', ''SNARKS_WORK_POOL_GET_WORK_POOL_DETAIL'']),
      (''SCAN_STATE_CLOSE'', [''SCAN_STATE_INIT'']),
      (''MEMORY_RESOURCES_CLOSE'', [''MEMORY_RESOURCES_GET'']),
      (''NETWORK_NODE_DHT_CLOSE'', [''NETWORK_NODE_DHT_INIT'']),
      (''NETWORK_BOOTSTRAP_STATS_CLOSE'', [''NETWORK_BOOTSTRAP_STATS_INIT'']),
      (''BENCHMARKS_WALLETS_CLOSE'', [''BENCHMARKS_WALLETS_GET_WALLETS'', ''BENCHMARKS_WALLETS_GET_ALL_TXS''])]"

lemma pages_end: "list_all (\<lambda>(c, ts). list_all (\<lambda>t. t \<in> set (ends c) \<and> t \<noteq> c) ts) pageStarts"
  by code_simp

lemma pages_cover:
  "remove1 ''[App] Init'' (remove1 ''[Block Production Overview] Get Slots'' loadingStarts) =
     concat (map snd pageStarts)"
  by code_simp

lemma ends_no_start: "t \<in> set loadingStarts \<Longrightarrow> ends t = []"
  by (simp add: ends_def)

lemma closes_no_start: "list_all (\<lambda>(c, ts). c \<notin> set loadingStarts \<and> ends c = ts) pageStarts"
  by code_simp

text \<open>Which action ends the slots of the production overview: its success alone.\<close>

lemma overview_ends_tab:
  "map fst (filter (\<lambda>(a, ts). ''[Block Production Overview] Get Slots'' \<in> set ts) loadingRemovals) =
     [''[Block Production Overview] Get Slots Success'']"
  by code_simp

lemma overview_ends:
  assumes "''[Block Production Overview] Get Slots'' \<in> set (ends a)"
  shows "a = ''[Block Production Overview] Get Slots Success''"
proof -
  obtain ts where "map_of loadingRemovals a = Some ts"
    and m: "''[Block Production Overview] Get Slots'' \<in> set ts"
    using assms by (cases "map_of loadingRemovals a") (auto simp: ends_def split: if_splits)
  then have "(a, ts) \<in> set loadingRemovals" by (simp only: map_of_SomeD)
  with m have "a \<in> set (map fst (filter (\<lambda>(a, ts). ''[Block Production Overview] Get Slots'' \<in> set ts) loadingRemovals))"
    by force
  then show ?thesis by (simp only: overview_ends_tab) simp
qed

section \<open>Properties\<close>

text \<open>After any sequence of actions the progress bar shows a type exactly when it is one of the start
  actions, was dispatched, and no action since then ends it (its success, or the close of its page).\<close>

lemma loading_trace:
  "t \<in> set (foldl loadingReducer [] as) \<longleftrightarrow>
     t \<in> set loadingStarts \<and> (\<exists>before after. as = before @ t # after \<and> (\<forall>a \<in> set after. t \<notin> set (ends a)))"
  by (rule loading_pending)

lemma scan_state_open:
  "''SCAN_STATE_INIT'' \<in> set loadingStarts \<and> ''SCAN_STATE_INIT'' \<notin> set (ends ''SCAN_STATE_GET_BLOCK'')"
  by code_simp

lemma loading_trace_witness:
  "''SCAN_STATE_INIT'' \<in> set (foldl loadingReducer [] [''SCAN_STATE_INIT'', ''SCAN_STATE_GET_BLOCK''])"
  unfolding loading_trace using scan_state_open
  by (intro conjI exI [of _ "[]"] exI [of _ "[''SCAN_STATE_GET_BLOCK'']"])
    simp_all

text \<open>Closing a page ends everything the page was waiting for and nothing else, for every page but
  one: the close of the block production overview removes its own name instead of \<open>Get Slots\<close>, so
  that pending slots keep the progress bar until a success arrives.\<close>

lemma loading_close:
  "(\<forall>(c, ts) \<in> set pageStarts. \<forall>s t. t \<in> set (loadingReducer s c) \<longleftrightarrow> t \<in> set s \<and> t \<notin> set ts)
   \<and> (''[Block Production Overview] Get Slots'' \<in> set s \<longrightarrow>
        ''[Block Production Overview] Get Slots Success'' \<notin> set as \<longrightarrow>
        ''[Block Production Overview] Get Slots'' \<in> set (foldl loadingReducer s as))"
proof (intro conjI ballI impI)
  fix p assume "p \<in> set pageStarts"
  then obtain c ts where "p = (c, ts)" "c \<notin> set loadingStarts" "ends c = ts"
    using closes_no_start by (auto simp: list_all_iff)
  then show "case p of (c, ts) \<Rightarrow> \<forall>s t. t \<in> set (loadingReducer s c) \<longleftrightarrow> t \<in> set s \<and> t \<notin> set ts"
    by (auto simp: loadingReducer_set)
next
  show "''[Block Production Overview] Get Slots'' \<in> set (foldl loadingReducer s as)"
    if "''[Block Production Overview] Get Slots'' \<in> set s"
      "''[Block Production Overview] Get Slots Success'' \<notin> set as"
    using that
  proof (induction as arbitrary: s)
    case (Cons a as)
    from Cons.prems have "''[Block Production Overview] Get Slots'' \<notin> set (ends a)"
      using overview_ends by (metis list.set_intros(1))
    with Cons.prems show ?case
      by (simp only: foldl_Cons, intro Cons.IH) (simp_all only: loadingReducer_set list.set insert_iff, simp_all)
  qed simp
qed

lemma loading_close_witness:
  "''[Block Production Overview] Get Slots'' \<in> set (foldl loadingReducer
     [''[Block Production Overview] Get Slots''] [''[Block Production Overview] Close''])
   \<and> ''SCAN_STATE_INIT'' \<notin> set (loadingReducer [''SCAN_STATE_INIT''] ''SCAN_STATE_CLOSE'')"
proof
  show "''[Block Production Overview] Get Slots'' \<in> set (foldl loadingReducer
     [''[Block Production Overview] Get Slots''] [''[Block Production Overview] Close''])"
    using loading_close [of "[''[Block Production Overview] Get Slots'']" "[''[Block Production Overview] Close'']"]
    by simp
  have "(''SCAN_STATE_CLOSE'', [''SCAN_STATE_INIT'']) \<in> set pageStarts"
    by (simp add: pageStarts_def)
  then show "''SCAN_STATE_INIT'' \<notin> set (loadingReducer [''SCAN_STATE_INIT''] ''SCAN_STATE_CLOSE'')"
    using loading_close by fastforce
qed

text \<open>The error list read off a sequence of actions, and the reducer against it.\<close>

fun error_log :: "ErrorPreviewActions list \<Rightarrow> MinaError list" where
  "error_log [] = []"
| "error_log (ADD_ERROR e # as) =
     error_log as @ [if MARK_ERRORS_AS_SEEN \<in> set as then e\<lparr>mina_seen := True\<rparr> else e]"
| "error_log (MARK_ERRORS_AS_SEEN # as) = error_log as"

lemma errorReducer_foldl:
  "errors (foldl errorReducer s as) =
     error_log as @ map (\<lambda>e. if MARK_ERRORS_AS_SEEN \<in> set as then e\<lparr>mina_seen := True\<rparr> else e) (errors s)"
  by (induction as arbitrary: s rule: error_log.induct) (auto simp: comp_def)

text \<open>The error panel holds every reported error once, the newest first, unchanged but for the mark:
  an error is marked as seen exactly when the panel was closed after the error was reported (or it
  was reported as seen).\<close>

lemma error_list:
  "errors (foldl errorReducer \<lparr>errors = []\<rparr> as) = error_log as"
  by (simp add: errorReducer_foldl)

end
