(* ===== verification/Mempool.thy ===== *)
theory Mempool
  imports Effect_Pipeline Store_Reducer
begin

text \<open>
  The transaction pool page: \<open>shared/helpers/transaction.helper.ts\<close> (memo decoding),
  \<open>features/mempool/mempool.service.ts\<close> (mapping the answer of the node), the reducer and the effects.
  The Base58Check decoder is a parameter: it gives the bytes with the version in front, or throws.
  The browser identifier of the local storage is a \<open>js\<close> value; a missing one is compared as text.
\<close>

section \<open>Memos\<close>

definition toHexString :: "nat list \<Rightarrow> string" where
  "toHexString bytes = concat (map (\<lambda>b.
     (let s = CHR ''0'' # to_radix 16 (b mod 256) in drop (length s - 2) s)) bytes)"

text \<open>\<open>String.fromCharCode(payload[i])\<close>, where a missing element counts as zero.\<close>

definition charAt :: "nat list \<Rightarrow> nat \<Rightarrow> char" where
  "charAt payload i = (if i < length payload then char_of (payload ! i) else CHR 0x00)"

definition decodeMemo :: "(string \<Rightarrow> js_error + nat list) \<Rightarrow> string \<Rightarrow> js_error + string" where
  "decodeMemo bs58 memo =
     (case bs58 memo of
        Inl e \<Rightarrow> Inl e
      | Inr buffer \<Rightarrow>
          (let payload = drop 1 buffer
           in Inr (if payload \<noteq> [] \<and> payload ! 0 = 0 then toHexString payload
                   else if length payload < 2 then []
                   else map (charAt payload) [2..<payload ! 1 + 2])))"

text \<open>\<open>/\\u[0-9a-fA-F]{4}/g\<close>, then \<open>/[^a-zA-Z0-9,\.]/g\<close>.\<close>

fun stripEscapes :: "string \<Rightarrow> string" where
  "stripEscapes (a # b # c # d # e # f # s) =
     (if a = CHR 0x5C \<and> b = CHR ''u'' \<and> is_hex c \<and> is_hex d \<and> is_hex e \<and> is_hex f
      then stripEscapes s else a # stripEscapes (b # c # d # e # f # s))"
| "stripEscapes s = s"

definition memoChar :: "char \<Rightarrow> bool" where
  "memoChar c = (let n = of_char c :: nat
     in 97 \<le> n \<and> n \<le> 122 \<or> 65 \<le> n \<and> n \<le> 90 \<or> 48 \<le> n \<and> n \<le> 57 \<or> n = 44 \<or> n = 46)"

definition removeUnicodeEscapes :: "string \<Rightarrow> string" where
  "removeUnicodeEscapes str = filter memoChar (stripEscapes str)"

text \<open>The date formatter of the shared package is a parameter.\<close>

definition getTimeFromMemo :: "(string \<Rightarrow> string) \<Rightarrow> string option \<Rightarrow> string option" where
  "getTimeFromMemo toReadableDate memo =
     (case memo of
        Some m \<Rightarrow> if js_includes m '','' then Some (toReadableDate (js_remove_sub ''S.T.'' (hd (js_split (CHR '','') m))))
          else None
      | None \<Rightarrow> None)"

section \<open>Transactions\<close>

datatype MempoolTransactionKind = ZK_APP | PAYMENT | DELEGATION

record Common =
  co_fee :: string
  co_fee_payer_pk :: string
  co_nonce :: string
  co_valid_until :: string
  co_memo :: string

record Body =
  bo_kind :: string
  bo_receiver_pk :: "string option"
  bo_amount :: "string option"

record SignedCommand =
  sc_common :: Common
  sc_body :: Body
  sc_signer :: string
  sc_signature :: string

record ZkappCommand =
  zk_public_key :: string
  zk_fee :: string
  zk_nonce :: string
  zk_memo :: string

datatype UserCommand = Signed_command SignedCommand | Zkapp_command ZkappCommand

record MempoolTransactionResponse =
  mr_data :: UserCommand
  mr_hash :: string

record MempoolTransaction =
  mt_kind :: MempoolTransactionKind
  mt_txHash :: "string option"
  mt_sender :: string
  mt_fee :: js_number
  mt_amount :: "js_number js"
  mt_nonce :: js_number
  mt_memo :: string
  mt_transactionData :: UserCommand
  mt_sentFromStressingTool :: bool
  mt_sentByMyBrowser :: bool

definition ONE_BILLION :: rat where "ONE_BILLION = 1000000000"

definition js_div :: "js_number \<Rightarrow> rat \<Rightarrow> js_number" where
  "js_div x q = (case x of Finite p \<Rightarrow> Finite (p / q) | NaN \<Rightarrow> NaN)"

definition numberOf :: "string option \<Rightarrow> js_number" where
  "numberOf s = (case s of Some t \<Rightarrow> js_Number t | None \<Rightarrow> NaN)"

definition mapPoolTx ::
  "(string \<Rightarrow> js_error + nat list) \<Rightarrow> string js \<Rightarrow> MempoolTransactionResponse
     \<Rightarrow> js_error + MempoolTransaction" where
  "mapPoolTx bs58 browserId tx =
     (case mr_data tx of
        Signed_command c \<Rightarrow>
          (case decodeMemo bs58 (co_memo (sc_common c)) of
             Inl e \<Rightarrow> Inl e
           | Inr memo \<Rightarrow> Inr
               \<lparr>mt_kind = PAYMENT, mt_txHash = Some (mr_hash tx), mt_sender = co_fee_payer_pk (sc_common c),
                mt_fee = js_Number (co_fee (sc_common c)),
                mt_amount = Val (js_div (numberOf (bo_amount (sc_body c))) ONE_BILLION),
                mt_nonce = js_Number (co_nonce (sc_common c)), mt_memo = removeUnicodeEscapes memo,
                mt_transactionData = mr_data tx, mt_sentFromStressingTool = js_includes memo ''S.T.'',
                mt_sentByMyBrowser = js_includes memo (js_string browserId)\<rparr>)
      | Zkapp_command z \<Rightarrow>
          (case decodeMemo bs58 (zk_memo z) of
             Inl e \<Rightarrow> Inl e
           | Inr memo \<Rightarrow> Inr
               \<lparr>mt_kind = ZK_APP, mt_txHash = Some (mr_hash tx), mt_sender = zk_public_key z,
                mt_fee = js_Number (zk_fee z), mt_amount = Null, mt_nonce = js_Number (zk_nonce z),
                mt_memo = removeUnicodeEscapes memo, mt_transactionData = mr_data tx,
                mt_sentFromStressingTool = js_includes memo ''S.T.'',
                mt_sentByMyBrowser = js_includes memo (js_string browserId)\<rparr>))"

definition mapTxPoolResponse ::
  "(string \<Rightarrow> js_error + nat list) \<Rightarrow> string js \<Rightarrow> MempoolTransactionResponse list
     \<Rightarrow> js_error + MempoolTransaction list" where
  "mapTxPoolResponse bs58 browserId response = sum_map (mapPoolTx bs58 browserId) response"

section \<open>Reducer\<close>

record MempoolFilters =
  mf_zkApp :: bool
  mf_payment :: bool
  mf_delegation :: bool
  mf_search :: "string option"

record MempoolState =
  mp_allTxs :: "MempoolTransaction list"
  mp_txs :: "MempoolTransaction list"
  mp_activeTx :: "MempoolTransaction option"
  mp_filters :: MempoolFilters
  mp_emptyInDatabase :: bool
  mp_isLoading :: bool

definition mempoolInitialState :: MempoolState where
  "mempoolInitialState = \<lparr>mp_allTxs = [], mp_txs = [], mp_activeTx = None,
     mp_filters = \<lparr>mf_zkApp = True, mf_payment = True, mf_delegation = True, mf_search = Some []\<rparr>,
     mp_emptyInDatabase = False, mp_isLoading = True\<rparr>"

datatype MempoolActions =
    MempoolInit
  | MempoolClose
  | MempoolGetTxs
  | MempoolGetTxsSuccess "MempoolTransaction list"
  | MempoolChangeFilters MempoolFilters
  | MempoolSetActiveTx "MempoolTransaction option"
  | MempoolToggleSidePanel

definition txShown :: "MempoolFilters \<Rightarrow> MempoolTransaction \<Rightarrow> js_error + bool" where
  "txShown filters tx =
     (if \<not> mf_delegation filters \<and> mt_kind tx = DELEGATION then Inr False
      else if \<not> mf_payment filters \<and> mt_kind tx = PAYMENT then Inr False
      else if \<not> mf_zkApp filters \<and> mt_kind tx = ZK_APP then Inr False
      else case mf_search filters of
        Some search \<Rightarrow>
          if length search > 2
          then (let searchTerm = js_toLowerCase search
                in case mt_txHash tx of
                     None \<Rightarrow> Inl TypeError
                   | Some h \<Rightarrow> Inr (js_includes (js_toLowerCase h) searchTerm
                       \<or> js_includes (js_toLowerCase (mt_sender tx)) searchTerm))
          else Inr True
      | None \<Rightarrow> Inr True)"

definition filterTxs :: "MempoolTransaction list \<Rightarrow> MempoolFilters \<Rightarrow> js_error + MempoolTransaction list" where
  "filterTxs txs filters = sum_filter (txShown filters) txs"

fun mempoolReducer :: "MempoolState \<Rightarrow> MempoolActions \<Rightarrow> js_error + MempoolState" where
  "mempoolReducer state (MempoolGetTxsSuccess txs) =
     map_sum (\<lambda>e. e) (\<lambda>ts. state\<lparr>mp_emptyInDatabase := txs = [], mp_isLoading := False,
       mp_allTxs := txs, mp_txs := ts\<rparr>) (filterTxs txs (mp_filters state))"
| "mempoolReducer state (MempoolChangeFilters filters) =
     map_sum (\<lambda>e. e) (\<lambda>ts. state\<lparr>mp_filters := filters, mp_txs := ts\<rparr>) (filterTxs (mp_allTxs state) filters)"
| "mempoolReducer state (MempoolSetActiveTx tx) = Inr (state\<lparr>mp_activeTx := tx\<rparr>)"
| "mempoolReducer state MempoolClose = Inr mempoolInitialState"
| "mempoolReducer state _ = Inr state"

section \<open>Effects\<close>

definition mempool_init_effect :: "MempoolActions \<Rightarrow> MempoolActions list" where
  "mempool_init_effect action = (case action of MempoolInit \<Rightarrow> [MempoolGetTxs] | _ \<Rightarrow> [])"

definition getTxs_effect ::
  "string \<Rightarrow> (unit, MempoolActions, unit, MempoolTransaction list, MempoolActions dispatched) effect" where
  "getTxs_effect now =
     \<lparr>on_action = (\<lambda>action f. case action of
          MempoolGetTxs \<Rightarrow> (f, Switch_request ())
        | MempoolClose \<Rightarrow> (f, Switch_empty)
        | _ \<Rightarrow> (f, Filtered)),
      on_value = (\<lambda>_ txs f. (f, [Dispatch (MempoolGetTxsSuccess txs)])),
      on_error = (\<lambda>e f. (f, catchErrorAndRepeat now GENERIC (MempoolGetTxsSuccess []) e))\<rparr>"

interpretation mempool_close: cancel_on_close "getTxs_effect now" "\<lambda>a. a = MempoolClose"
  by unfold_locales (simp add: getTxs_effect_def)

section \<open>Memos of the stress tool\<close>

lemma stripEscapes_plain: "CHR 0x5C \<notin> set s \<Longrightarrow> stripEscapes s = s"
  by (induction s rule: stripEscapes.induct) auto

lemma memoChar_plain: "list_all memoChar s \<Longrightarrow> CHR 0x5C \<notin> set s"
proof -
  have "\<not> memoChar (CHR 0x5C)" by code_simp
  then show "list_all memoChar s \<Longrightarrow> CHR 0x5C \<notin> set s" by (auto simp: list_all_iff)
qed

lemma removeUnicodeEscapes_plain: "list_all memoChar s \<Longrightarrow> removeUnicodeEscapes s = s"
  using memoChar_plain [of s] stripEscapes_plain [of s]
  by (simp add: removeUnicodeEscapes_def filter_id_conv list_all_iff)

lemma decodeMemo_text:
  assumes "bs58 enc = Inr (v # 1 # length memo # map of_char memo @ rest)"
  shows "decodeMemo bs58 enc = Inr memo"
proof -
  let ?p = "1 # length memo # map of_char memo @ rest"
  have "map (charAt ?p) [2..<length memo + 2] = map (charAt ?p) (map (\<lambda>k. k + 2) [0..<length memo])"
    by (simp only: map_add_upt)
  also have "\<dots> = map (\<lambda>k. memo ! k) [0..<length memo]"
    by (simp add: charAt_def nth_append)
  also have "\<dots> = memo" by (rule map_nth)
  finally show ?thesis using assms by (simp add: decodeMemo_def)
qed

definition stressMemo :: "nat \<Rightarrow> nat \<Rightarrow> nat \<Rightarrow> string" where
  "stressMemo t k i = ''S.T.'' @ dec t @ '','' @ dec k @ '','' @ dec i"

lemma digit_memoChar: "js_isDigit c \<Longrightarrow> memoChar c"
  by (simp add: js_isDigit_def memoChar_def Let_def)

lemma stressMemo_chars: "list_all memoChar (stressMemo t k i)"
proof -
  have "list_all memoChar ''S.T.'' \<and> list_all memoChar '',''" by code_simp
  moreover have "list_all memoChar (dec n)" for n
    using dec_digits [of n] digit_memoChar by (auto simp: list_all_iff)
  ultimately show ?thesis by (simp add: stressMemo_def)
qed

lemma dec_no_comma: "CHR '','' \<notin> set (dec n)"
proof -
  have "\<not> js_isDigit (CHR '','')" by code_simp
  then show ?thesis using dec_digits [of n] by (auto simp: list_all_iff)
qed

lemma stressMemo_split: "js_split (CHR '','') (stressMemo t k i) = [''S.T.'' @ dec t, dec k, dec i]"
proof -
  have "CHR '','' \<notin> set (''S.T.'' @ dec t)" using dec_no_comma by simp
  then have "js_split (CHR '','') ((''S.T.'' @ dec t) @ CHR '','' # (dec k @ CHR '','' # dec i)) =
      [''S.T.'' @ dec t, dec k, dec i]"
    by (simp only: js_split_append js_split_plain dec_no_comma not_False_eq_True)
  then show ?thesis by (simp add: stressMemo_def)
qed

lemma stressMemo_includes: "js_includes (stressMemo t k i) ''S.T.''" "js_includes (stressMemo t k i) (dec i)"
proof -
  have "stressMemo t k i = [] @ ''S.T.'' @ (dec t @ '','' @ dec k @ '','' @ dec i)"
    and "stressMemo t k i = (''S.T.'' @ dec t @ '','' @ dec k @ '','') @ dec i @ []"
    by (simp_all add: stressMemo_def)
  then show "js_includes (stressMemo t k i) ''S.T.''" "js_includes (stressMemo t k i) (dec i)"
    unfolding js_includes_iff by blast+
qed

section \<open>Properties\<close>

text \<open>A payment or zkApp sent by the stress tool of this browser is recognised when it comes back
  from the node: whenever the Base58Check text of its memo decodes to the memo (version, text tag,
  length, characters, padding), the row has the memo unchanged and both marks, and splitting the
  memo gives back the time, the counter and the browser.\<close>

lemma mempool_memo_roundtrip:
  assumes "bs58 enc = Inr (v # 1 # length (stressMemo t k i) # map of_char (stressMemo t k i) @ rest)"
    and "case mr_data tx of Signed_command c \<Rightarrow> co_memo (sc_common c) = enc | Zkapp_command z \<Rightarrow> zk_memo z = enc"
  shows "\<exists>m. mapPoolTx bs58 (Val (dec i)) tx = Inr m \<and> mt_memo m = stressMemo t k i
    \<and> mt_sentFromStressingTool m \<and> mt_sentByMyBrowser m
    \<and> js_split (CHR '','') (mt_memo m) = [''S.T.'' @ dec t, dec k, dec i]"
  using assms(2) decodeMemo_text [of bs58 enc v, OF assms(1)]
  by (auto simp: mapPoolTx_def removeUnicodeEscapes_plain stressMemo_chars stressMemo_split
      stressMemo_includes split: UserCommand.splits)

definition sample_command :: SignedCommand where
  "sample_command = \<lparr>sc_common = \<lparr>co_fee = ''1'', co_fee_payer_pk = ''B62'', co_nonce = ''3'',
     co_valid_until = ''9'', co_memo = ''E4Y''\<rparr>,
     sc_body = \<lparr>bo_kind = ''Payment'', bo_receiver_pk = None, bo_amount = Some ''2''\<rparr>,
     sc_signer = [], sc_signature = []\<rparr>"

lemma mempool_memo_roundtrip_witness:
  "\<exists>m. mapPoolTx (\<lambda>_. Inr (20 # 1 # length (stressMemo 17 5 42) # map of_char (stressMemo 17 5 42)))
     (Val (dec 42)) \<lparr>mr_data = Signed_command sample_command, mr_hash = ''5J''\<rparr> = Inr m
   \<and> mt_memo m = stressMemo 17 5 42"
  using mempool_memo_roundtrip [of "\<lambda>_. Inr (20 # 1 # length (stressMemo 17 5 42) # map of_char (stressMemo 17 5 42))"
      "''E4Y''" 20 17 5 42 "[]" "\<lparr>mr_data = Signed_command sample_command, mr_hash = ''5J''\<rparr>"]
  by (auto simp: sample_command_def)

text \<open>The rows that a filter shows.\<close>

definition txVisible :: "MempoolFilters \<Rightarrow> MempoolTransaction \<Rightarrow> bool" where
  "txVisible fs tx =
     ((case mt_kind tx of DELEGATION \<Rightarrow> mf_delegation fs | PAYMENT \<Rightarrow> mf_payment fs | ZK_APP \<Rightarrow> mf_zkApp fs)
      \<and> (case mf_search fs of None \<Rightarrow> True | Some q \<Rightarrow> length q \<le> 2
           \<or> (\<exists>h. mt_txHash tx = Some h \<and> js_includes (js_toLowerCase h) (js_toLowerCase q))
           \<or> js_includes (js_toLowerCase (mt_sender tx)) (js_toLowerCase q)))"

lemma txShown_visible: "mt_txHash tx \<noteq> None \<Longrightarrow> txShown fs tx = Inr (txVisible fs tx)"
  by (cases "mt_kind tx") (auto simp: txShown_def txVisible_def Let_def split: option.splits)

lemma filterTxs_visible:
  "list_all (\<lambda>t. mt_txHash t \<noteq> None) txs \<Longrightarrow> filterTxs txs fs = Inr (filter (txVisible fs) txs)"
  unfolding filterTxs_def by (rule sum_filter_Inr) (auto simp: list_all_iff txShown_visible)

interpretation mempool_inv: reducer_invariant mempoolReducer mempoolInitialState
  "\<lambda>s. filterTxs (mp_allTxs s) (mp_filters s) = Inr (mp_txs s)"
proof
  show "filterTxs (mp_allTxs mempoolInitialState) (mp_filters mempoolInitialState) = Inr (mp_txs mempoolInitialState)"
    by (simp add: mempoolInitialState_def filterTxs_def)
  show "filterTxs (mp_allTxs s') (mp_filters s') = Inr (mp_txs s')"
    if "filterTxs (mp_allTxs s) (mp_filters s) = Inr (mp_txs s)" "mempoolReducer s a = Inr s'" for s a s'
    using that
    by (cases "(s, a)" rule: mempoolReducer.cases)
      (auto simp: mempoolInitialState_def filterTxs_def map_sum_def split: sum.splits)
qed

lemma mapPoolTx_row:
  assumes "mapPoolTx bs58 b tx = Inr m"
  shows "mt_txHash m = Some (mr_hash tx) \<and> mt_kind m \<noteq> DELEGATION"
  using assms by (auto simp: mapPoolTx_def split: UserCommand.splits sum.splits)

lemma service_rows:
  assumes "mapTxPoolResponse bs58 b resp = Inr txs"
  shows "list_all (\<lambda>t. mt_txHash t \<noteq> None \<and> mt_kind t \<noteq> DELEGATION) txs"
proof (subst list_all_length, intro allI impI)
  fix i assume i: "i < length txs"
  have "mapPoolTx bs58 b (resp ! i) = Inr (txs ! i)"
    using sum_map_nth [OF assms [unfolded mapTxPoolResponse_def]] i
      sum_map_length [OF assms [unfolded mapTxPoolResponse_def]] by simp
  then show "mt_txHash (txs ! i) \<noteq> None \<and> mt_kind (txs ! i) \<noteq> DELEGATION"
    using mapPoolTx_row by fastforce
qed

text \<open>The lists that the page gets are those of the service, or the empty one after an error.\<close>

definition from_service :: "(string \<Rightarrow> js_error + nat list) \<Rightarrow> string js \<Rightarrow> MempoolActions \<Rightarrow> bool" where
  "from_service bs58 b a =
     (case a of MempoolGetTxsSuccess txs \<Rightarrow> \<exists>resp. mapTxPoolResponse bs58 b resp = Inr txs | _ \<Rightarrow> True)"

lemma mempool_total:
  assumes "list_all (\<lambda>t. mt_txHash t \<noteq> None \<and> mt_kind t \<noteq> DELEGATION) (mp_allTxs s)"
    and "list_all (from_service bs58 b) as"
  shows "\<exists>s'. reduce_all mempoolReducer s as = Inr s'
    \<and> list_all (\<lambda>t. mt_txHash t \<noteq> None \<and> mt_kind t \<noteq> DELEGATION) (mp_allTxs s')"
  using assms
proof (induction as arbitrary: s)
  case (Cons a as)
  let ?ok = "list_all (\<lambda>t. mt_txHash t \<noteq> None \<and> mt_kind t \<noteq> DELEGATION)"
  have hash: "?ok txs \<Longrightarrow> filterTxs txs fs = Inr (filter (txVisible fs) txs)" for txs fs
    by (rule filterTxs_visible) (auto simp: list_all_iff)
  have "\<exists>s'. mempoolReducer s a = Inr s' \<and> ?ok (mp_allTxs s')"
  proof (cases a)
    case (MempoolGetTxsSuccess txs)
    with Cons.prems have "?ok txs" by (auto simp: from_service_def dest: service_rows)
    with MempoolGetTxsSuccess show ?thesis by (simp add: hash)
  qed (use Cons.prems in \<open>auto simp: hash mempoolInitialState_def\<close>)
  with Cons show ?case by auto
qed simp

text \<open>C32. Whatever the user does, and whatever the node answers, the page does not fail and shows exactly
  the transactions of the pool whose kind is switched on and, when the search has more than two
  characters, whose hash or sender contains it, in the order of the pool. No transaction is ever
  listed as a delegation: the service maps every signed command to a payment, so that the
  delegation switch has no effect.\<close>

theorem mempool_view:
  assumes "list_all (from_service bs58 b) as"
  shows "\<exists>s. reduce_all mempoolReducer mempoolInitialState as = Inr s
    \<and> mp_txs s = filter (txVisible (mp_filters s)) (mp_allTxs s)
    \<and> list_all (\<lambda>t. mt_kind t \<noteq> DELEGATION) (mp_allTxs s)"
proof -
  have "list_all (\<lambda>t. mt_txHash t \<noteq> None \<and> mt_kind t \<noteq> DELEGATION) (mp_allTxs mempoolInitialState)"
    by (simp add: mempoolInitialState_def)
  from mempool_total [OF this assms] obtain s where s: "reduce_all mempoolReducer mempoolInitialState as = Inr s"
    and ok: "list_all (\<lambda>t. mt_txHash t \<noteq> None \<and> mt_kind t \<noteq> DELEGATION) (mp_allTxs s)" by blast
  have "filterTxs (mp_allTxs s) (mp_filters s) = Inr (mp_txs s)" by (rule mempool_inv.inv_reachable [OF s])
  moreover have "filterTxs (mp_allTxs s) (mp_filters s) = Inr (filter (txVisible (mp_filters s)) (mp_allTxs s))"
    by (rule filterTxs_visible) (use ok in \<open>auto simp: list_all_iff\<close>)
  ultimately show ?thesis using s ok by (auto simp: list_all_iff)
qed

definition sample_decoder :: "string \<Rightarrow> js_error + nat list" where
  "sample_decoder enc = Inr [20, 1, 2, 104, 105]"

definition sample_row :: MempoolTransaction where
  "sample_row = \<lparr>mt_kind = PAYMENT, mt_txHash = Some ''5J'', mt_sender = ''B62'', mt_fee = js_Number ''1'',
     mt_amount = Val (js_div (js_Number ''2'') ONE_BILLION), mt_nonce = js_Number ''3'',
     mt_memo = removeUnicodeEscapes ''hi'', mt_transactionData = Signed_command sample_command,
     mt_sentFromStressingTool = js_includes ''hi'' ''S.T.'', mt_sentByMyBrowser = js_includes ''hi'' ''null''\<rparr>"

lemma sample_decoded: "decodeMemo sample_decoder ''E4Y'' = Inr ''hi''"
  by code_simp

lemma sample_service: "from_service sample_decoder Null (MempoolGetTxsSuccess [sample_row])"
proof -
  have "mapTxPoolResponse sample_decoder Null [\<lparr>mr_data = Signed_command sample_command, mr_hash = ''5J''\<rparr>] =
      Inr [sample_row]"
    using sample_decoded
    by (simp add: mapTxPoolResponse_def mapPoolTx_def sample_command_def sample_row_def numberOf_def)
  then show ?thesis by (auto simp: from_service_def)
qed

theorem mempool_view_witness:
  "\<exists>s. reduce_all mempoolReducer mempoolInitialState [MempoolInit, MempoolGetTxsSuccess [sample_row]] = Inr s
    \<and> mp_txs s = filter (txVisible (mp_filters s)) (mp_allTxs s)"
proof -
  have "list_all (from_service sample_decoder Null) [MempoolInit, MempoolGetTxsSuccess [sample_row]]"
    using sample_service by (simp add: from_service_def)
  from mempool_view [OF this] show ?thesis by blast
qed

end
