(* ===== verification/Benchmarks_Wallets.thy ===== *)
theory Benchmarks_Wallets
  imports Mempool
begin

text \<open>
  The stress tool (\<open>features/benchmarks/wallets\<close>): it makes batches of payments or zkApps from the
  accounts of a test network, sends them and counts the outcomes. Modelled are the reducer, the
  services for accounts, payments and zkApps, and the effects.

  What a step reads from outside is a record: the clock at each use, the browser identifier of the
  local storage, the draws of \<open>Math.random\<close> (as indices) for each wallet, the printing of numbers and
  the date formatter of the shared package. \<open>getRandomReceiver\<close> calls itself until a draw is another
  wallet; the draws of a wallet are those the call stack allows, and running out of them is the
  language's \<open>RangeError\<close>. The table of the 1,000 test keys is an argument, as is the signing client.
\<close>

section \<open>Data\<close>

record BenchmarksWallet =
  wa_publicKey :: string
  wa_privateKey :: "string option"
  wa_minaTokens :: rat
  wa_nonce :: int
  wa_lastTxCount :: "string option"
  wa_lastTxTime :: "string option"
  wa_lastTxMemo :: "string option"
  wa_lastTxStatus :: "string option"
  wa_successTx :: nat
  wa_failedTx :: nat
  wa_errorReason :: "string option"

text \<open>\<open>Pick<BenchmarksWallet, 'publicKey' | 'privateKey' | 'minaTokens' | 'nonce'>\<close>.\<close>

record AccountPick =
  pk_publicKey :: string
  pk_privateKey :: "string option"
  pk_minaTokens :: rat
  pk_nonce :: int

record BenchmarksWalletTransaction =
  wt_from :: string
  wt_nonce :: string
  wt_to :: string
  wt_fee :: string
  wt_amount :: string
  wt_memo :: string
  wt_validUntil :: string
  wt_privateKey :: "string option"
  wt_dateTime :: "string option"
  wt_blockSending :: "bool option"

record BenchmarksZkapp =
  za_payerPublicKey :: string
  za_payerPrivateKey :: "string option"
  za_fee :: rat
  za_nonce :: string
  za_memo :: "string option"
  za_accountUpdates :: nat

record SentTransactionsStats =
  st_success :: nat
  st_fail :: nat

record js_exception =
  ex_name :: "string option"
  ex_message :: string

record BenchmarksWalletsState =
  bs_wallets :: "BenchmarksWallet list"
  bs_blockSending :: bool
  bs_txSendingBatch :: "int option"
  bs_sentTransactions :: SentTransactionsStats
  bs_sentTxCount :: nat
  bs_txsToSend :: "BenchmarksWalletTransaction list"
  bs_randomWallet :: bool
  bs_activeWallet :: "BenchmarksWallet option"
  bs_sendingFee :: rat
  bs_sendingAmount :: rat
  bs_zkAppsSendingBatch :: "int option"
  bs_zkAppsToSend :: "BenchmarksZkapp list"
  bs_sendingFeeZkapps :: rat

record SendTxResult =
  sr_transactions :: "BenchmarksWalletTransaction list option"
  sr_error :: "js_exception option"

record SendZkResult =
  sz_zkApps :: "BenchmarksZkapp list option"
  sz_error :: "js_exception option"

record AllTxsPayload =
  at_mempoolTxs :: "MempoolTransaction list option"
  at_includedTxs :: "MempoolTransaction list option"

datatype BenchmarksWalletsActions =
    BENCHMARKS_WALLETS_CLOSE
  | BENCHMARKS_WALLETS_GET_WALLETS bool
  | BENCHMARKS_WALLETS_GET_WALLETS_SUCCESS "AccountPick list"
  | BENCHMARKS_WALLETS_UPDATE_WALLETS_SUCCESS "BenchmarksWallet list"
  | BENCHMARKS_WALLETS_CHANGE_TRANSACTION_BATCH "int option"
  | BENCHMARKS_WALLETS_CHANGE_ZKAPPS_BATCH "int option"
  | BENCHMARKS_WALLETS_SEND_TXS
  | BENCHMARKS_WALLETS_SEND_TX_SUCCESS SendTxResult
  | BENCHMARKS_WALLETS_SEND_ZKAPPS
  | BENCHMARKS_WALLETS_SEND_ZKAPPS_SUCCESS SendZkResult
  | BENCHMARKS_WALLETS_TOGGLE_RANDOM_WALLET
  | BENCHMARKS_WALLETS_SELECT_WALLET "BenchmarksWallet option"
  | BENCHMARKS_WALLETS_CHANGE_AMOUNT rat
  | BENCHMARKS_WALLETS_CHANGE_FEE rat
  | BENCHMARKS_WALLETS_CHANGE_FEE_ZKAPPS rat
  | BENCHMARKS_WALLETS_GET_ALL_TXS
  | BENCHMARKS_WALLETS_GET_ALL_TXS_SUCCESS AllTxsPayload

record bench_env =
  be_now :: "nat \<Rightarrow> nat"
  be_browserId :: "string js"
  be_draws :: "nat \<Rightarrow> nat list"
  be_show :: "rat \<Rightarrow> string"
  be_date :: "string \<Rightarrow> string"

definition benchmarksInitialState :: BenchmarksWalletsState where
  "benchmarksInitialState =
     \<lparr>bs_wallets = [], bs_blockSending = False, bs_txSendingBatch = None,
      bs_sentTransactions = \<lparr>st_success = 0, st_fail = 0\<rparr>, bs_sentTxCount = 0, bs_txsToSend = [],
      bs_randomWallet = True, bs_activeWallet = None, bs_sendingFee = 1 / 1000, bs_sendingAmount = 1,
      bs_zkAppsSendingBatch = Some 1, bs_zkAppsToSend = [], bs_sendingFeeZkapps = 1 / 1000\<rparr>"

section \<open>Reducer\<close>

definition getNonceForWallet :: "BenchmarksWallet \<Rightarrow> int" where
  "getNonceForWallet wallet = max (wa_nonce wallet) 0"

fun getRandomReceiver ::
  "BenchmarksWallet \<Rightarrow> BenchmarksWallet list \<Rightarrow> nat list \<Rightarrow> js_error + string" where
  "getRandomReceiver currentWallet wallets [] = Inl (Error ''RangeError'')"
| "getRandomReceiver currentWallet wallets (index # draws) =
     (if index < length wallets
      then if wa_publicKey (wallets ! index) = wa_publicKey currentWallet
           then getRandomReceiver currentWallet wallets draws
           else Inr (wa_publicKey (wallets ! index))
      else Inl TypeError)"

text \<open>\<open>Array(n).fill(void 0)\<close>: the number of elements.\<close>

definition js_Array :: "int option \<Rightarrow> js_error + nat" where
  "js_Array n = (case n of
     None \<Rightarrow> Inr 1
   | Some k \<Rightarrow> if k < 0 \<or> k \<ge> 2 ^ 32 then Inl (Error ''RangeError'') else Inr (nat k))"

definition batchSlice :: "int option \<Rightarrow> 'a list \<Rightarrow> 'a list" where
  "batchSlice n xs = (case n of None \<Rightarrow> xs | Some k \<Rightarrow> js_slice 0 k xs)"

definition batchMemo :: "bench_env \<Rightarrow> BenchmarksWalletsState \<Rightarrow> nat \<Rightarrow> string" where
  "batchMemo env state i =
     (let counter = bs_sentTxCount state + i
      in ''S.T.'' @ dec (be_now env i) @ '','' @ dec (counter + 1) @ '','' @ js_string (be_browserId env))"

definition payment ::
  "bench_env \<Rightarrow> BenchmarksWalletsState \<Rightarrow> BenchmarksWallet \<Rightarrow> int \<Rightarrow> string \<Rightarrow> nat \<Rightarrow> bool option
     \<Rightarrow> BenchmarksWalletTransaction" where
  "payment env state wallet nonce to i block =
     \<lparr>wt_from = wa_publicKey wallet, wt_nonce = show_int nonce, wt_to = to,
      wt_fee = be_show env (bs_sendingFee state * ONE_BILLION),
      wt_amount = be_show env (bs_sendingAmount state * ONE_BILLION),
      wt_memo = batchMemo env state i, wt_validUntil = ''4294967295'',
      wt_privateKey = wa_privateKey wallet, wt_dateTime = None, wt_blockSending = block\<rparr>"

definition makeTxs :: "bench_env \<Rightarrow> BenchmarksWalletsState \<Rightarrow> js_error + BenchmarksWalletTransaction list" where
  "makeTxs env state =
     (if bs_randomWallet state
      then sum_map (\<lambda>(i, wallet).
             map_sum (\<lambda>e. e) (\<lambda>to. payment env state wallet (getNonceForWallet wallet) to i None)
               (getRandomReceiver wallet (bs_wallets state) (be_draws env i)))
             (enumerate 0 (batchSlice (bs_txSendingBatch state) (bs_wallets state)))
      else case bs_activeWallet state of
        None \<Rightarrow> Inl TypeError
      | Some wallet \<Rightarrow>
          (case js_Array (bs_txSendingBatch state) of
             Inl e \<Rightarrow> Inl e
           | Inr n \<Rightarrow> sum_map (\<lambda>i.
               if i < length (bs_wallets state)
               then Inr (payment env state wallet (getNonceForWallet wallet + int i)
                      (wa_publicKey (bs_wallets state ! i)) i (Some True))
               else Inl TypeError) [0..<n]))"

definition zkapp :: "bench_env \<Rightarrow> BenchmarksWalletsState \<Rightarrow> BenchmarksWallet \<Rightarrow> int \<Rightarrow> nat \<Rightarrow> BenchmarksZkapp" where
  "zkapp env state wallet nonce i =
     \<lparr>za_payerPublicKey = wa_publicKey wallet, za_payerPrivateKey = wa_privateKey wallet,
      za_fee = bs_sendingFeeZkapps state, za_nonce = show_int nonce,
      za_memo = Some (batchMemo env state i), za_accountUpdates = 2\<rparr>"

definition makeZkApps :: "bench_env \<Rightarrow> BenchmarksWalletsState \<Rightarrow> js_error + BenchmarksZkapp list" where
  "makeZkApps env state =
     (if bs_randomWallet state
      then Inr (map (\<lambda>(i, wallet). zkapp env state wallet (getNonceForWallet wallet) i)
             (enumerate 0 (batchSlice (bs_zkAppsSendingBatch state) (bs_wallets state))))
      else case bs_activeWallet state of
        None \<Rightarrow> Inl TypeError
      | Some wallet \<Rightarrow>
          map_sum (\<lambda>e. e) (\<lambda>n. map (\<lambda>i. zkapp env state wallet (getNonceForWallet wallet + int i) i) [0..<n])
            (js_Array (bs_zkAppsSendingBatch state)))"

definition markSending :: "bench_env \<Rightarrow> BenchmarksWallet \<Rightarrow> string option \<Rightarrow> BenchmarksWallet" where
  "markSending env w memo = w\<lparr>wa_lastTxTime := getTimeFromMemo (be_date env) memo,
     wa_lastTxMemo := memo, wa_lastTxStatus := Some ''sending''\<rparr>"

text \<open>\<open>memo.split(',')[1]\<close>.\<close>

definition memoCount :: "string \<Rightarrow> string option" where
  "memoCount memo = (let ws = js_split (CHR '','') memo in if 1 < length ws then Some (ws ! 1) else None)"

definition walletSent :: "BenchmarksWalletTransaction list \<Rightarrow> js_exception option \<Rightarrow> BenchmarksWallet \<Rightarrow> BenchmarksWallet" where
  "walletSent txs error w =
     (let own = filter (\<lambda>tx. wt_from tx = wa_publicKey w) txs
      in if own = [] then w
         else w\<lparr>wa_lastTxCount := memoCount (wt_memo (last own)),
           wa_lastTxStatus := Some (if error \<noteq> None then ''error'' else ''generated''),
           wa_lastTxTime := wt_dateTime (last own),
           wa_lastTxMemo := Some (js_remove_sub ''S.T.'' (wt_memo (last own))),
           wa_successTx := wa_successTx w + (if error = None then length own else 0),
           wa_failedTx := wa_failedTx w + (if error \<noteq> None then length own else 0),
           wa_errorReason := map_option ex_message error\<rparr>)"

definition walletZkSent ::
  "bench_env \<Rightarrow> BenchmarksZkapp list \<Rightarrow> js_exception option \<Rightarrow> BenchmarksWallet \<Rightarrow> js_error + BenchmarksWallet" where
  "walletZkSent env zkApps error w =
     (let own = filter (\<lambda>z. za_payerPublicKey z = wa_publicKey w) zkApps
      in if own = [] then Inr w
         else case za_memo (last own) of
           None \<Rightarrow> Inl TypeError
         | Some memo \<Rightarrow> Inr (w\<lparr>wa_lastTxCount := memoCount memo,
             wa_lastTxStatus := (case error of
                None \<Rightarrow> Some ''generated''
              | Some e \<Rightarrow> (case ex_name e of Some n \<Rightarrow> Some n | None \<Rightarrow> Some ''generated'')),
             wa_lastTxTime := getTimeFromMemo (be_date env) (Some memo),
             wa_lastTxMemo := Some memo,
             wa_successTx := wa_successTx w + (if error = None then length own else 0),
             wa_failedTx := wa_failedTx w + (if error \<noteq> None then length own else 0),
             wa_errorReason := map_option ex_message error\<rparr>))"

definition addStats :: "SentTransactionsStats \<Rightarrow> js_exception option \<Rightarrow> nat \<Rightarrow> SentTransactionsStats" where
  "addStats stats error n =
     \<lparr>st_success = st_success stats + (if error = None then n else 0),
      st_fail = st_fail stats + (if error \<noteq> None then n else 0)\<rparr>"

text \<open>The transaction with the largest counter. Each is kept with whether it is in the pool.\<close>

definition txCounter :: "MempoolTransaction \<Rightarrow> int option" where
  "txCounter tx = Option.bind (memoCount (mt_memo tx)) js_parseInt"

definition lastTransaction :: "(bool \<times> MempoolTransaction) list \<Rightarrow> bool \<times> MempoolTransaction" where
  "lastTransaction txs =
     foldl (\<lambda>acc tx. if nan_greater (txCounter (snd tx)) (txCounter (snd acc)) then tx else acc) (hd txs) (tl txs)"

definition walletAllTxs :: "bench_env \<Rightarrow> (bool \<times> MempoolTransaction) list \<Rightarrow> BenchmarksWallet \<Rightarrow> BenchmarksWallet" where
  "walletAllTxs env allTxs w =
     (let own = filter (\<lambda>tx. mt_sender (snd tx) = wa_publicKey w) allTxs
      in if own = [] then w
         else let l = lastTransaction own
              in w\<lparr>wa_lastTxMemo := Some (js_remove_sub ''S.T.'' (mt_memo (snd l))),
                wa_lastTxStatus := Some (if fst l then ''generated'' else ''included''),
                wa_lastTxCount := memoCount (mt_memo (snd l)),
                wa_lastTxTime := getTimeFromMemo (be_date env) (Some (mt_memo (snd l))),
                wa_successTx := length (filter (\<lambda>tx. js_includes (mt_memo (snd tx)) ''S.T.'') own)\<rparr>)"

definition mergeAccount :: "BenchmarksWallet list \<Rightarrow> nat \<Rightarrow> AccountPick \<Rightarrow> BenchmarksWallet" where
  "mergeAccount wallets i a =
     (if i < length wallets
      then (wallets ! i)\<lparr>wa_publicKey := pk_publicKey a, wa_privateKey := pk_privateKey a,
        wa_minaTokens := pk_minaTokens a, wa_nonce := pk_nonce a\<rparr>
      else \<lparr>wa_publicKey = pk_publicKey a, wa_privateKey = pk_privateKey a,
        wa_minaTokens = pk_minaTokens a, wa_nonce = pk_nonce a, wa_lastTxCount = None,
        wa_lastTxTime = None, wa_lastTxMemo = None, wa_lastTxStatus = None, wa_successTx = 0,
        wa_failedTx = 0, wa_errorReason = None\<rparr>)"

fun benchmarksReducer ::
  "bench_env \<Rightarrow> BenchmarksWalletsState \<Rightarrow> BenchmarksWalletsActions \<Rightarrow> js_error + BenchmarksWalletsState" where
  "benchmarksReducer env state (BENCHMARKS_WALLETS_GET_WALLETS_SUCCESS payload) =
     (let wallets = map (\<lambda>(i, a). mergeAccount (bs_wallets state) i a) (enumerate 0 payload)
      in Inr (state\<lparr>bs_wallets := wallets, bs_blockSending := False,
           bs_txSendingBatch := (case bs_txSendingBatch state of
              None \<Rightarrow> Some (int (length payload)) | Some n \<Rightarrow> Some n),
           bs_activeWallet := coalesce (bs_activeWallet state)
             (if wallets = [] then None else Some (hd wallets))\<rparr>))"
| "benchmarksReducer env state (BENCHMARKS_WALLETS_UPDATE_WALLETS_SUCCESS payload) =
     Inr (state\<lparr>bs_wallets := map (\<lambda>(i, w). if i < length payload then payload ! i else w)
       (enumerate 0 (bs_wallets state))\<rparr>)"
| "benchmarksReducer env state (BENCHMARKS_WALLETS_CHANGE_TRANSACTION_BATCH n) =
     Inr (state\<lparr>bs_txSendingBatch := n\<rparr>)"
| "benchmarksReducer env state (BENCHMARKS_WALLETS_CHANGE_ZKAPPS_BATCH n) =
     Inr (state\<lparr>bs_zkAppsSendingBatch := n\<rparr>)"
| "benchmarksReducer env state (BENCHMARKS_WALLETS_GET_WALLETS initialRequest) =
     Inr (state\<lparr>bs_blockSending := True\<rparr>)"
| "benchmarksReducer env state BENCHMARKS_WALLETS_TOGGLE_RANDOM_WALLET =
     Inr (state\<lparr>bs_randomWallet := \<not> bs_randomWallet state\<rparr>)"
| "benchmarksReducer env state BENCHMARKS_WALLETS_SEND_TXS =
     map_sum (\<lambda>e. e) (\<lambda>txs. state\<lparr>bs_txsToSend := txs,
       bs_wallets := map (\<lambda>w. case List.find (\<lambda>tx. wt_from tx = wa_publicKey w) txs of
           None \<Rightarrow> w | Some tx \<Rightarrow> markSending env w (Some (wt_memo tx))) (bs_wallets state)\<rparr>)
       (makeTxs env state)"
| "benchmarksReducer env state (BENCHMARKS_WALLETS_SEND_TX_SUCCESS p) =
     (case sr_transactions p of
        None \<Rightarrow> Inl TypeError
      | Some txs \<Rightarrow> Inr (state\<lparr>bs_txsToSend := [],
          bs_wallets := map (walletSent txs (sr_error p)) (bs_wallets state),
          bs_sentTransactions := addStats (bs_sentTransactions state) (sr_error p) (length txs)\<rparr>))"
| "benchmarksReducer env state (BENCHMARKS_WALLETS_SEND_ZKAPPS_SUCCESS p) =
     (case sz_zkApps p of
        None \<Rightarrow> Inl TypeError
      | Some zs \<Rightarrow> map_sum (\<lambda>e. e) (\<lambda>ws. state\<lparr>bs_zkAppsToSend := [], bs_wallets := ws,
          bs_sentTransactions := addStats (bs_sentTransactions state) (sz_error p) (length zs)\<rparr>)
          (sum_map (walletZkSent env zs (sz_error p)) (bs_wallets state)))"
| "benchmarksReducer env state (BENCHMARKS_WALLETS_GET_ALL_TXS_SUCCESS p) =
     (case (at_mempoolTxs p, at_includedTxs p) of
        (Some mempoolTxs, Some includedTxs) \<Rightarrow>
          (let allTxs = map (Pair True) mempoolTxs @ map (Pair False) includedTxs
           in Inr (state\<lparr>bs_wallets := map (walletAllTxs env allTxs) (bs_wallets state),
                bs_sentTransactions := (bs_sentTransactions state)\<lparr>st_success :=
                  length (filter (\<lambda>tx. js_includes (mt_memo (snd tx)) ''S.T.'') allTxs)\<rparr>\<rparr>))
      | _ \<Rightarrow> Inl TypeError)"
| "benchmarksReducer env state (BENCHMARKS_WALLETS_SELECT_WALLET w) = Inr (state\<lparr>bs_activeWallet := w\<rparr>)"
| "benchmarksReducer env state (BENCHMARKS_WALLETS_CHANGE_FEE fee) = Inr (state\<lparr>bs_sendingFee := fee\<rparr>)"
| "benchmarksReducer env state (BENCHMARKS_WALLETS_CHANGE_AMOUNT amount) = Inr (state\<lparr>bs_sendingAmount := amount\<rparr>)"
| "benchmarksReducer env state (BENCHMARKS_WALLETS_CHANGE_FEE_ZKAPPS fee) = Inr (state\<lparr>bs_sendingFeeZkapps := fee\<rparr>)"
| "benchmarksReducer env state BENCHMARKS_WALLETS_CLOSE =
     Inr (benchmarksInitialState\<lparr>bs_sentTxCount := bs_sentTxCount state\<rparr>)"
| "benchmarksReducer env state BENCHMARKS_WALLETS_SEND_ZKAPPS =
     map_sum (\<lambda>e. e) (\<lambda>zs. state\<lparr>bs_zkAppsToSend := zs,
       bs_wallets := map (\<lambda>w. case List.find (\<lambda>z. za_payerPublicKey z = wa_publicKey w) zs of
           None \<Rightarrow> w | Some z \<Rightarrow> markSending env w (za_memo z)) (bs_wallets state),
       bs_blockSending := True\<rparr>)
       (makeZkApps env state)"
| "benchmarksReducer env state BENCHMARKS_WALLETS_GET_ALL_TXS = Inr state"

definition selectBenchmarksBlockSending :: "BenchmarksWalletsState \<Rightarrow> bool" where
  "selectBenchmarksBlockSending state = (bs_blockSending state \<or> length (bs_txsToSend state) > 0)"

section \<open>Services\<close>

record AccountsResponse =
  ar_public_key :: string
  ar_nonce :: int
  ar_balance :: rat

text \<open>\<open>WALLETS\<close> as pairs of a public and a private key.\<close>

definition getAccounts :: "(string \<times> string) list \<Rightarrow> AccountsResponse list \<Rightarrow> AccountPick list" where
  "getAccounts WALLETS wallets =
     filter (\<lambda>w. pk_publicKey w \<in> set (map fst WALLETS))
       (map (\<lambda>wallet. \<lparr>pk_publicKey = ar_public_key wallet, pk_privateKey = map_of WALLETS (ar_public_key wallet),
          pk_minaTokens = ar_balance wallet / ONE_BILLION, pk_nonce = ar_nonce wallet\<rparr>) wallets)"

record SignedTx =
  sg_signature_field :: string
  sg_signature_scalar :: string
  sg_valid_until :: js_number
  sg_amount :: js_number
  sg_fee :: js_number
  sg_from :: string
  sg_to :: string
  sg_nonce :: js_number
  sg_memo :: string

definition signedTxs ::
  "(BenchmarksWalletTransaction \<Rightarrow> string \<times> string) \<Rightarrow> BenchmarksWalletTransaction list \<Rightarrow> SignedTx list" where
  "signedTxs signPayment transactions =
     map (\<lambda>t. \<lparr>sg_signature_field = fst (signPayment t), sg_signature_scalar = snd (signPayment t),
        sg_valid_until = js_Number (wt_validUntil t), sg_amount = js_Number (wt_amount t),
        sg_fee = js_Number (wt_fee t), sg_from = wt_from t, sg_to = wt_to t,
        sg_nonce = js_Number (wt_nonce t), sg_memo = wt_memo t\<rparr>) transactions"

text \<open>\<open>sendTransactions\<close>: \<open>post\<close> is the request that sends the signed payments, answering or failing with a
  message.\<close>

definition sendTransactions ::
  "(string \<Rightarrow> string) \<Rightarrow> (BenchmarksWalletTransaction \<Rightarrow> string \<times> string)
     \<Rightarrow> (SignedTx list \<Rightarrow> string + unit) \<Rightarrow> BenchmarksWalletTransaction list \<Rightarrow> SendTxResult" where
  "sendTransactions date signPayment post transactions =
     (case post (signedTxs signPayment transactions) of
        Inr _ \<Rightarrow> \<lparr>sr_transactions = Some (map (\<lambda>tx. tx\<lparr>wt_dateTime := getTimeFromMemo date (Some (wt_memo tx))\<rparr>) transactions),
          sr_error = None\<rparr>
      | Inl message \<Rightarrow> \<lparr>sr_transactions = Some [],
          sr_error = Some \<lparr>ex_name = Some ''Error'', ex_message = message\<rparr>\<rparr>)"

definition mapIncludedTx ::
  "(string \<Rightarrow> js_error + nat list) \<Rightarrow> string js \<Rightarrow> UserCommand \<Rightarrow> js_error + MempoolTransaction" where
  "mapIncludedTx bs58 browserId command =
     (case command of
        Signed_command c \<Rightarrow>
          (case decodeMemo bs58 (co_memo (sc_common c)) of
             Inl e \<Rightarrow> Inl e
           | Inr memo \<Rightarrow> Inr
               \<lparr>mt_kind = PAYMENT, mt_txHash = None, mt_sender = co_fee_payer_pk (sc_common c),
                mt_fee = js_Number (co_fee (sc_common c)), mt_amount = Undefined,
                mt_nonce = js_Number (co_nonce (sc_common c)), mt_memo = removeUnicodeEscapes memo,
                mt_transactionData = command, mt_sentFromStressingTool = js_includes memo ''S.T.'',
                mt_sentByMyBrowser = js_includes memo (js_string browserId)\<rparr>)
      | Zkapp_command z \<Rightarrow>
          (case decodeMemo bs58 (zk_memo z) of
             Inl e \<Rightarrow> Inl e
           | Inr memo \<Rightarrow> Inr
               \<lparr>mt_kind = ZK_APP, mt_txHash = None, mt_sender = zk_public_key z,
                mt_fee = js_Number (zk_fee z), mt_amount = Undefined, mt_nonce = js_Number (zk_nonce z),
                mt_memo = removeUnicodeEscapes memo, mt_transactionData = command,
                mt_sentFromStressingTool = js_includes memo ''S.T.'',
                mt_sentByMyBrowser = js_includes memo (js_string browserId)\<rparr>))"

definition getAllIncludedTransactions ::
  "(string \<Rightarrow> js_error + nat list) \<Rightarrow> string js \<Rightarrow> UserCommand list \<Rightarrow> js_error + MempoolTransaction list" where
  "getAllIncludedTransactions bs58 browserId response = sum_map (mapIncludedTx bs58 browserId) response"

record zkResponse =
  zr_errors :: "string list option"
  zr_status :: "string option"

text \<open>\<open>sendZkApp\<close>: the zkApps are proved and sent one after the other; \<open>outcome\<close> is the list of answers, or
  the first exception.\<close>

definition zkFailed :: "zkResponse \<Rightarrow> bool" where
  "zkFailed r = (case zr_errors r of Some (e # _) \<Rightarrow> e \<noteq> [] | _ \<Rightarrow> False)"

definition sendZkApp :: "js_exception + zkResponse list \<Rightarrow> BenchmarksZkapp list \<Rightarrow> SendZkResult" where
  "sendZkApp outcome zkApps =
     (case outcome of
        Inl error \<Rightarrow> \<lparr>sz_zkApps = Some zkApps, sz_error = Some error\<rparr>
      | Inr responses \<Rightarrow>
          (case filter zkFailed responses of
             [] \<Rightarrow> \<lparr>sz_zkApps = Some zkApps, sz_error = None\<rparr>
           | r # _ \<Rightarrow> \<lparr>sz_zkApps = Some zkApps,
               sz_error = Some \<lparr>ex_name = zr_status r, ex_message = hd (the (zr_errors r))\<rparr>\<rparr>))"

section \<open>Effects\<close>

definition getWallets_effect ::
  "string \<Rightarrow> (unit, BenchmarksWalletsActions, bool, AccountPick list, BenchmarksWalletsActions dispatched) effect" where
  "getWallets_effect now =
     \<lparr>on_action = (\<lambda>action f. case action of
          BENCHMARKS_WALLETS_GET_WALLETS initialRequest \<Rightarrow> (f, Switch_request initialRequest)
        | BENCHMARKS_WALLETS_CLOSE \<Rightarrow> (f, Switch_empty)
        | _ \<Rightarrow> (f, Filtered)),
      on_value = (\<lambda>initialRequest payload f. (f,
         (if initialRequest then [Dispatch BENCHMARKS_WALLETS_GET_ALL_TXS] else [])
         @ [Dispatch (BENCHMARKS_WALLETS_GET_WALLETS_SUCCESS payload)])),
      on_error = (\<lambda>e f. (f, catchErrorAndRepeat now GENERIC (BENCHMARKS_WALLETS_GET_WALLETS_SUCCESS []) e))\<rparr>"

interpretation benchmarks_close: cancel_on_close "getWallets_effect now" "\<lambda>a. a = BENCHMARKS_WALLETS_CLOSE"
  by unfold_locales (simp add: getWallets_effect_def)

text \<open>The effects that send read the batch out of the state at the time of the action; closing the page
  does not reach them.\<close>

definition sendTxs_effect ::
  "(unit, BenchmarksWalletsActions \<times> BenchmarksWalletsState, BenchmarksWalletTransaction list, SendTxResult,
     BenchmarksWalletsActions dispatched) effect" where
  "sendTxs_effect =
     \<lparr>on_action = (\<lambda>(action, state) f. case action of
          BENCHMARKS_WALLETS_SEND_TXS \<Rightarrow> (f, Switch_request (bs_txsToSend state))
        | _ \<Rightarrow> (f, Filtered)),
      on_value = (\<lambda>_ payload f. (f, [Dispatch (BENCHMARKS_WALLETS_SEND_TX_SUCCESS payload)])),
      on_error = (\<lambda>e f. (f, []))\<rparr>"

definition sendZkApps_effect ::
  "(unit, BenchmarksWalletsActions \<times> BenchmarksWalletsState, BenchmarksZkapp list, SendZkResult,
     BenchmarksWalletsActions dispatched) effect" where
  "sendZkApps_effect =
     \<lparr>on_action = (\<lambda>(action, state) f. case action of
          BENCHMARKS_WALLETS_SEND_ZKAPPS \<Rightarrow> (f, Switch_request (bs_zkAppsToSend state))
        | _ \<Rightarrow> (f, Filtered)),
      on_value = (\<lambda>_ payload f. (f, [Dispatch (BENCHMARKS_WALLETS_SEND_ZKAPPS_SUCCESS payload)])),
      on_error = (\<lambda>e f. (f, []))\<rparr>"

definition sendTxSuccess_effect :: "BenchmarksWalletsActions \<Rightarrow> BenchmarksWalletsActions list" where
  "sendTxSuccess_effect action = (case action of
     BENCHMARKS_WALLETS_SEND_TX_SUCCESS _ \<Rightarrow> [BENCHMARKS_WALLETS_GET_WALLETS False]
   | BENCHMARKS_WALLETS_SEND_ZKAPPS_SUCCESS _ \<Rightarrow> [BENCHMARKS_WALLETS_GET_WALLETS False]
   | _ \<Rightarrow> [])"

text \<open>The fallback payload of the error path has a key \<open>memPoolTxs\<close>, which is not the key \<open>mempoolTxs\<close> that the
  reducer reads.\<close>

definition getAllTxs_effect ::
  "string \<Rightarrow> (unit, BenchmarksWalletsActions, unit, MempoolTransaction list \<times> MempoolTransaction list,
     BenchmarksWalletsActions dispatched) effect" where
  "getAllTxs_effect now =
     \<lparr>on_action = (\<lambda>action f. case action of
          BENCHMARKS_WALLETS_GET_ALL_TXS \<Rightarrow> (f, Switch_request ())
        | _ \<Rightarrow> (f, Filtered)),
      on_value = (\<lambda>_ (txs, includedTxs) f. (f, [Dispatch (BENCHMARKS_WALLETS_GET_ALL_TXS_SUCCESS
         \<lparr>at_mempoolTxs = Some txs, at_includedTxs = Some includedTxs\<rparr>)])),
      on_error = (\<lambda>e f. (f, catchErrorAndRepeat now GENERIC (BENCHMARKS_WALLETS_GET_ALL_TXS_SUCCESS
         \<lparr>at_mempoolTxs = None, at_includedTxs = Some []\<rparr>) e))\<rparr>"

section \<open>Batches\<close>

lemma receiver_other:
  "getRandomReceiver w ws draws = Inr k \<Longrightarrow> k \<noteq> wa_publicKey w \<and> k \<in> wa_publicKey ` set ws"
  by (induction w ws draws rule: getRandomReceiver.induct) (auto split: if_splits)

lemma receiver_found:
  assumes "\<exists>d \<in> set draws. wa_publicKey (ws ! d) \<noteq> wa_publicKey w" and "list_all (\<lambda>d. d < length ws) draws"
  shows "\<exists>k. getRandomReceiver w ws draws = Inr k"
  using assms by (induction w ws draws rule: getRandomReceiver.induct) auto

lemma receiver_alone:
  assumes "\<forall>v \<in> set ws. wa_publicKey v = wa_publicKey w" and "list_all (\<lambda>d. d < length ws) draws"
  shows "getRandomReceiver w ws draws = Inl (Error ''RangeError'')"
  using assms by (induction w ws draws rule: getRandomReceiver.induct) auto

lemma makeTxs_active:
  assumes "\<not> bs_randomWallet s" "bs_activeWallet s = Some w" "bs_txSendingBatch s = Some (int n)"
    and "n \<le> length (bs_wallets s)" "n < 2 ^ 32"
  shows "makeTxs env s = Inr (map (\<lambda>i. payment env s w (getNonceForWallet w + int i)
    (wa_publicKey (bs_wallets s ! i)) i (Some True)) [0..<n])"
proof -
  have "js_Array (Some (int n)) = Inr n" using assms(5) by (simp add: js_Array_def)
  moreover have "sum_map (\<lambda>i. if i < length (bs_wallets s)
      then Inr (payment env s w (getNonceForWallet w + int i) (wa_publicKey (bs_wallets s ! i)) i (Some True))
      else Inl TypeError) [0..<n] = Inr (map (\<lambda>i. payment env s w (getNonceForWallet w + int i)
        (wa_publicKey (bs_wallets s ! i)) i (Some True)) [0..<n])"
    by (rule sum_map_Inr) (use assms(4) in simp)
  ultimately show ?thesis using assms by (simp add: makeTxs_def)
qed

lemma batchSlice_take: "batchSlice (Some (int n)) xs = take n xs"
  by (auto simp: batchSlice_def js_slice_def Let_def min_def)

lemma makeTxs_random:
  assumes "bs_randomWallet s" "bs_txSendingBatch s = Some (int n)"
    and "\<And>i. i < n \<Longrightarrow> i < length (bs_wallets s) \<Longrightarrow>
      getRandomReceiver (bs_wallets s ! i) (bs_wallets s) (be_draws env i) = Inr (to i)"
  shows "makeTxs env s = Inr (map (\<lambda>(i, w). payment env s w (getNonceForWallet w) (to i) i None)
    (enumerate 0 (take n (bs_wallets s))))"
proof -
  have "sum_map (\<lambda>(i, w). map_sum (\<lambda>e. e) (\<lambda>to. payment env s w (getNonceForWallet w) to i None)
        (getRandomReceiver w (bs_wallets s) (be_draws env i))) (enumerate 0 (take n (bs_wallets s))) =
      Inr (map (\<lambda>(i, w). payment env s w (getNonceForWallet w) (to i) i None)
        (enumerate 0 (take n (bs_wallets s))))"
    by (rule sum_map_Inr) (auto simp: in_set_enumerate_eq assms(3))
  with assms(1,2) show ?thesis by (simp add: makeTxs_def batchSlice_take)
qed

lemma memoCount_batch: "memoCount (batchMemo env s i) = Some (dec (bs_sentTxCount s + i + 1))"
proof -
  have "CHR '','' \<notin> set (''S.T.'' @ dec (be_now env i))" using dec_no_comma by simp
  then have "js_split (CHR '','') ((''S.T.'' @ dec (be_now env i)) @ CHR '','' # (dec (bs_sentTxCount s + i + 1)
      @ CHR '','' # js_string (be_browserId env))) =
    (''S.T.'' @ dec (be_now env i)) # dec (bs_sentTxCount s + i + 1) # js_split (CHR '','') (js_string (be_browserId env))"
    by (simp only: js_split_append dec_no_comma not_False_eq_True)
  then show ?thesis by (simp add: memoCount_def batchMemo_def Let_def)
qed

text \<open>Which actions leave the selected wallet alone.\<close>

fun keepsWallet :: "BenchmarksWalletsActions \<Rightarrow> bool" where
  "keepsWallet (BENCHMARKS_WALLETS_SELECT_WALLET w) = False"
| "keepsWallet BENCHMARKS_WALLETS_CLOSE = False"
| "keepsWallet a = True"

lemma activeWallet_step:
  assumes "benchmarksReducer env s a = Inr s'" "keepsWallet a" "bs_activeWallet s = Some w"
  shows "bs_activeWallet s' = Some w"
  using assms
  by (cases "(env, s, a)" rule: benchmarksReducer.cases)
    (auto simp: map_sum_def Let_def split: sum.splits option.splits)

lemma sentTxCount_step: "benchmarksReducer env s a = Inr s' \<Longrightarrow> bs_sentTxCount s' = bs_sentTxCount s"
  by (cases "(env, s, a)" rule: benchmarksReducer.cases)
    (auto simp: map_sum_def Let_def benchmarksInitialState_def split: sum.splits option.splits)

text \<open>A run in which each action has its own environment.\<close>

definition bench_step :: "BenchmarksWalletsState \<Rightarrow> bench_env \<times> BenchmarksWalletsActions
    \<Rightarrow> js_error + BenchmarksWalletsState" where
  "bench_step s ea = benchmarksReducer (fst ea) s (snd ea)"

lemma activeWallet_run:
  "reduce_all bench_step s as = Inr s' \<Longrightarrow> list_all (\<lambda>ea. keepsWallet (snd ea)) as \<Longrightarrow>
   bs_activeWallet s = Some w \<Longrightarrow> bs_activeWallet s' = Some w"
  by (induction as arbitrary: s)
    (auto simp: bench_step_def split: sum.splits dest: activeWallet_step)

interpretation bench_counter: reducer_invariant bench_step benchmarksInitialState "\<lambda>s. bs_sentTxCount s = 0"
  by unfold_locales (auto simp: benchmarksInitialState_def bench_step_def dest: sentTxCount_step)

section \<open>Properties\<close>

text \<open>C34. A batch from the first \<open>n\<close> wallets: when the draws of each of them contain another wallet, the
  reducer returns with one payment per wallet, in order, each from its wallet with the nonce of the
  account, to a different wallet of the list.\<close>

theorem wallet_batch:
  assumes "bs_randomWallet s" "bs_txSendingBatch s = Some (int n)"
    and "\<forall>i < min n (length (bs_wallets s)). list_all (\<lambda>d. d < length (bs_wallets s)) (be_draws env i)
      \<and> (\<exists>d \<in> set (be_draws env i). wa_publicKey (bs_wallets s ! d) \<noteq> wa_publicKey (bs_wallets s ! i))"
  shows "\<exists>s'. benchmarksReducer env s BENCHMARKS_WALLETS_SEND_TXS = Inr s'
    \<and> map wt_from (bs_txsToSend s') = map wa_publicKey (take n (bs_wallets s))
    \<and> map wt_nonce (bs_txsToSend s') = map (\<lambda>w. show_int (getNonceForWallet w)) (take n (bs_wallets s))
    \<and> (\<forall>t \<in> set (bs_txsToSend s'). wt_to t \<noteq> wt_from t \<and> wt_to t \<in> wa_publicKey ` set (bs_wallets s))"
proof -
  let ?ws = "bs_wallets s"
  have "\<exists>k. getRandomReceiver (?ws ! i) ?ws (be_draws env i) = Inr k" if "i < n" "i < length ?ws" for i
    using assms(3) that by (intro receiver_found) auto
  then obtain to where to: "\<And>i. i < n \<Longrightarrow> i < length ?ws \<Longrightarrow>
      getRandomReceiver (?ws ! i) ?ws (be_draws env i) = Inr (to i)" by metis
  let ?txs = "map (\<lambda>(i, w). payment env s w (getNonceForWallet w) (to i) i None) (enumerate 0 (take n ?ws))"
  have m: "makeTxs env s = Inr ?txs" by (rule makeTxs_random [OF assms(1,2) to])
  have "map wt_from ?txs = map (wa_publicKey \<circ> snd) (enumerate 0 (take n ?ws))"
    and "map wt_nonce ?txs = map ((\<lambda>w. show_int (getNonceForWallet w)) \<circ> snd) (enumerate 0 (take n ?ws))"
    by (auto simp: payment_def)
  moreover have "wt_to t \<noteq> wt_from t \<and> wt_to t \<in> wa_publicKey ` set ?ws" if "t \<in> set ?txs" for t
  proof -
    from that obtain i where "i < n" "i < length ?ws" "t = payment env s (?ws ! i) (getNonceForWallet (?ws ! i)) (to i) i None"
      by (auto simp: in_set_enumerate_eq)
    then show ?thesis using receiver_other [OF to] by (auto simp: payment_def)
  qed
  ultimately show ?thesis using m by (simp del: map_map add: map_map [symmetric])
qed

definition sample_wallet :: "string \<Rightarrow> BenchmarksWallet" where
  "sample_wallet key = mergeAccount [] 0 \<lparr>pk_publicKey = key, pk_privateKey = None, pk_minaTokens = 0, pk_nonce = 7\<rparr>"

definition sample_bench :: BenchmarksWalletsState where
  "sample_bench = benchmarksInitialState\<lparr>bs_wallets := [sample_wallet ''A'', sample_wallet ''B''],
     bs_txSendingBatch := Some (int 2), bs_activeWallet := Some (sample_wallet ''A'')\<rparr>"

definition sample_env :: bench_env where
  "sample_env = \<lparr>be_now = (\<lambda>i. 1000 + i), be_browserId = Val ''42'', be_draws = (\<lambda>i. [i, 1 - i]),
     be_show = (\<lambda>q. ''1''), be_date = (\<lambda>s. s)\<rparr>"

lemma sample_wallet_sel [simp]: "wa_publicKey (sample_wallet k) = k" "wa_nonce (sample_wallet k) = 7"
  by (simp_all add: sample_wallet_def mergeAccount_def)

lemmas sample_bench_defs = sample_bench_def sample_env_def benchmarksInitialState_def

theorem wallet_batch_witness:
  "\<exists>s'. benchmarksReducer sample_env sample_bench BENCHMARKS_WALLETS_SEND_TXS = Inr s'
    \<and> map wt_from (bs_txsToSend s') = [''A'', ''B'']"
proof -
  have "\<exists>s'. benchmarksReducer sample_env sample_bench BENCHMARKS_WALLETS_SEND_TXS = Inr s'
    \<and> map wt_from (bs_txsToSend s') = map wa_publicKey (take 2 (bs_wallets sample_bench))
    \<and> map wt_nonce (bs_txsToSend s') = map (\<lambda>w. show_int (getNonceForWallet w)) (take 2 (bs_wallets sample_bench))
    \<and> (\<forall>t \<in> set (bs_txsToSend s'). wt_to t \<noteq> wt_from t
        \<and> wt_to t \<in> wa_publicKey ` set (bs_wallets sample_bench))"
    by (rule wallet_batch) (auto simp: sample_bench_defs less_Suc_eq)
  then show ?thesis by (auto simp: sample_bench_defs)
qed

text \<open>A batch from the selected wallet has consecutive nonces from that of the stored copy of the
  wallet. Nothing but selecting a wallet or closing the page changes that copy, the reload after a
  batch neither: whatever happens in between, the next batch has the same sender and the same
  nonces again, and its memos count from one again.\<close>

lemma wallet_nonce_reuse:
  assumes "reduce_all bench_step benchmarksInitialState pre = Inr s" and "bs_activeWallet s = Some w"
    and "reduce_all bench_step s as = Inr s'" and "list_all (\<lambda>ea. keepsWallet (snd ea)) as"
    and "\<not> bs_randomWallet s'" "bs_txSendingBatch s' = Some (int n)" "n \<le> length (bs_wallets s')" "n < 2 ^ 32"
  shows "\<exists>s''. benchmarksReducer env s' BENCHMARKS_WALLETS_SEND_TXS = Inr s''
    \<and> map wt_nonce (bs_txsToSend s'') = map (\<lambda>i. show_int (max (wa_nonce w) 0 + int i)) [0..<n]
    \<and> map wt_from (bs_txsToSend s'') = replicate n (wa_publicKey w)
    \<and> map (\<lambda>t. memoCount (wt_memo t)) (bs_txsToSend s'') = map (\<lambda>i. Some (dec (i + 1))) [0..<n]"
proof -
  have "reduce_all bench_step benchmarksInitialState (pre @ as) = Inr s'"
    using assms(1,3) by (simp add: reduce_all_append)
  then have "bs_sentTxCount s' = 0" by (rule bench_counter.inv_reachable)
  moreover have "bs_activeWallet s' = Some w" by (rule activeWallet_run [OF assms(3,4,2)])
  note makeTxs_active [OF assms(5) this assms(6-8), of env]
  ultimately show ?thesis
    by (simp add: payment_def getNonceForWallet_def comp_def map_replicate_const memoCount_batch)
qed

definition sample_account :: "string \<Rightarrow> int \<Rightarrow> AccountPick" where
  "sample_account key nonce = \<lparr>pk_publicKey = key, pk_privateKey = None, pk_minaTokens = 0, pk_nonce = nonce\<rparr>"

definition sample_start :: "(bench_env \<times> BenchmarksWalletsActions) list" where
  "sample_start = [(sample_env, BENCHMARKS_WALLETS_GET_WALLETS_SUCCESS [sample_account ''A'' 7, sample_account ''B'' 7])]"

definition sample_reload :: "(bench_env \<times> BenchmarksWalletsActions) list" where
  "sample_reload = [(sample_env, BENCHMARKS_WALLETS_TOGGLE_RANDOM_WALLET),
     (sample_env, BENCHMARKS_WALLETS_GET_WALLETS_SUCCESS [sample_account ''A'' 8]),
     (sample_env, BENCHMARKS_WALLETS_CHANGE_TRANSACTION_BATCH (Some 1))]"

lemma sample_runs:
  "\<exists>s s' w. reduce_all bench_step benchmarksInitialState sample_start = Inr s
    \<and> bs_activeWallet s = Some w \<and> wa_nonce w = 7
    \<and> reduce_all bench_step s sample_reload = Inr s' \<and> \<not> bs_randomWallet s'
    \<and> bs_txSendingBatch s' = Some (int 1) \<and> length (bs_wallets s') = 1 \<and> wa_nonce (hd (bs_wallets s')) = 8"
  by (simp add: sample_start_def sample_reload_def sample_account_def bench_step_def
      benchmarksInitialState_def mergeAccount_def Let_def)

lemma wallet_nonce_reuse_witness:
  "\<exists>s s' s''. reduce_all bench_step benchmarksInitialState sample_start = Inr s
    \<and> reduce_all bench_step s sample_reload = Inr s' \<and> wa_nonce (hd (bs_wallets s')) = 8
    \<and> benchmarksReducer sample_env s' BENCHMARKS_WALLETS_SEND_TXS = Inr s''
    \<and> map wt_nonce (bs_txsToSend s'') = [show_int 7]"
proof -
  obtain s s' w where r: "reduce_all bench_step benchmarksInitialState sample_start = Inr s"
    "bs_activeWallet s = Some w" "wa_nonce w = 7" "reduce_all bench_step s sample_reload = Inr s'"
    "\<not> bs_randomWallet s'" "bs_txSendingBatch s' = Some (int 1)" "length (bs_wallets s') = 1"
    "wa_nonce (hd (bs_wallets s')) = 8"
    using sample_runs by (elim exE conjE) (rule that)
  have "list_all (\<lambda>ea. keepsWallet (snd ea)) sample_reload" by (simp add: sample_reload_def)
  from wallet_nonce_reuse [OF r(1,2,4) this r(5,6), of sample_env] r show ?thesis by auto
qed

text \<open>The failure paths. When sending the payments fails, the service reports the error with an
  empty list, so that no wallet and no failure is counted and the wallets of the batch stay in the
  state \<open>sending\<close>; when it succeeds, the batch is counted. When reading the transactions fails, the
  fallback has a misspelt key and the reducer throws. With one account a random batch overflows the
  stack in search of a second one.\<close>

lemma wallet_failures:
  "(\<forall>txs. (\<forall>body. post body = Inl msg) \<longrightarrow>
      benchmarksReducer env s (BENCHMARKS_WALLETS_SEND_TX_SUCCESS (sendTransactions date sign post txs)) =
        Inr (s\<lparr>bs_txsToSend := []\<rparr>))
   \<and> (\<forall>txs. (\<forall>body. post body = Inr ()) \<longrightarrow>
      (\<exists>s'. benchmarksReducer env s (BENCHMARKS_WALLETS_SEND_TX_SUCCESS (sendTransactions date sign post txs)) = Inr s'
        \<and> bs_sentTransactions s' = (bs_sentTransactions s)\<lparr>st_success := st_success (bs_sentTransactions s) + length txs\<rparr>))
   \<and> (\<exists>err a. on_error (getAllTxs_effect now) e () = ((), [ErrorAdd err, Dispatch a])
        \<and> benchmarksReducer env s a = Inl TypeError)
   \<and> (bs_randomWallet s \<and> bs_wallets s = [w] \<and> bs_txSendingBatch s = Some 1
        \<and> list_all (\<lambda>d. d < 1) (be_draws env 0) \<longrightarrow>
      benchmarksReducer env s BENCHMARKS_WALLETS_SEND_TXS = Inl (Error ''RangeError''))"
proof (intro conjI allI impI)
  fix txs assume "\<forall>body. post body = Inl msg"
  moreover have "map (walletSent [] x) (bs_wallets s) = bs_wallets s" for x
    by (simp add: walletSent_def map_idI)
  ultimately show "benchmarksReducer env s (BENCHMARKS_WALLETS_SEND_TX_SUCCESS (sendTransactions date sign post txs)) =
      Inr (s\<lparr>bs_txsToSend := []\<rparr>)"
    by (simp add: sendTransactions_def addStats_def)
next
  fix txs assume "\<forall>body. post body = Inr ()"
  then show "\<exists>s'. benchmarksReducer env s (BENCHMARKS_WALLETS_SEND_TX_SUCCESS (sendTransactions date sign post txs)) = Inr s'
      \<and> bs_sentTransactions s' = (bs_sentTransactions s)\<lparr>st_success := st_success (bs_sentTransactions s) + length txs\<rparr>"
    by (simp add: sendTransactions_def addStats_def)
next
  show "\<exists>err a. on_error (getAllTxs_effect now) e () = ((), [ErrorAdd err, Dispatch a])
      \<and> benchmarksReducer env s a = Inl TypeError"
    by (auto simp: getAllTxs_effect_def catchErrorAndRepeat_def)
next
  assume h: "bs_randomWallet s \<and> bs_wallets s = [w] \<and> bs_txSendingBatch s = Some 1
    \<and> list_all (\<lambda>d. d < 1) (be_draws env 0)"
  then have "getRandomReceiver w [w] (be_draws env 0) = Inl (Error ''RangeError'')"
    by (intro receiver_alone) auto
  moreover have "batchSlice (Some 1) [w] = [w]" using batchSlice_take [of 1 "[w]"] by simp
  ultimately show "benchmarksReducer env s BENCHMARKS_WALLETS_SEND_TXS = Inl (Error ''RangeError'')"
    using h by (simp add: makeTxs_def)
qed

lemma wallet_failures_witness:
  "benchmarksReducer sample_env sample_bench (BENCHMARKS_WALLETS_SEND_TX_SUCCESS
     (sendTransactions (\<lambda>d. d) (\<lambda>_. ([], [])) (\<lambda>_. Inl ''offline'') [])) =
   Inr (sample_bench\<lparr>bs_txsToSend := []\<rparr>)"
  using wallet_failures [of "\<lambda>_. Inl ''offline''" "''offline''" sample_env sample_bench "\<lambda>d. d" "\<lambda>_. ([], [])"] by blast

end
