(* ===== verification/App_Config.thy ===== *)
theory App_Config
  imports Store_Reducer
begin

text \<open>
  The configuration of the frontend and what depends on it: the nodes it may talk to and the pages
  each of them has (\<open>shared/constants/config.ts\<close>, \<open>shared/types/core/environment/mina-env.type.ts\<close>), the
  route guards of the network and block production sections, the menu, and the form that adds a
  node (\<open>layout/new-node\<close>).

  The features of a node are an object from section names to page names, in insertion order; the code
  also accepts an array, so both forms are modelled. \<open>hasValue\<close> of the shared package, the URL
  resolution of the browser and \<open>isBrowser\<close> are parameters.
\<close>

section \<open>Data\<close>

type_synonym FeaturesConfig = "(string \<times> string list) list"

datatype features_value = FeatureArray "string list" | FeatureMap FeaturesConfig

record MinaNode =
  mn_name :: string
  mn_url :: "string option"
  mn_memoryProfiler :: "string option"
  mn_debugger :: "string option"
  mn_features :: "features_value option"
  mn_isCustom :: bool
  mn_isWebNode :: bool

text \<open>The configured nodes and \<open>globalConfig?.features\<close>; the other fields are display flags.\<close>

record MinaEnv =
  env_configs :: "MinaNode list"
  env_features :: "FeaturesConfig option"

section \<open>Configuration\<close>

text \<open>\<open>href\<close> is \<open>new URL(path, origin).href\<close>, which throws for an address it cannot parse.\<close>

definition getURL :: "(string \<Rightarrow> js_error + string) \<Rightarrow> bool \<Rightarrow> string option \<Rightarrow> js_error + string option" where
  "getURL href isBrowser pathOrUrl =
     (if isBrowser then
        (case pathOrUrl of
           None \<Rightarrow> Inr None
         | Some p \<Rightarrow>
             if p = [] then Inr (Some p)
             else map_sum (\<lambda>e. e) (\<lambda>h. Some (if h \<noteq> [] \<and> last h = CHR 0x2F then butlast h else h)) (href p))
      else Inr pathOrUrl)"

definition configNode :: "(string \<Rightarrow> js_error + string) \<Rightarrow> MinaNode \<Rightarrow> js_error + MinaNode" where
  "configNode href config =
     (case getURL href True (mn_url config) of Inl e \<Rightarrow> Inl e | Inr url \<Rightarrow>
        (case getURL href True (mn_memoryProfiler config) of Inl e \<Rightarrow> Inl e | Inr mp \<Rightarrow>
           (case getURL href True (mn_debugger config) of Inl e \<Rightarrow> Inl e | Inr dbg \<Rightarrow>
              Inr (config\<lparr>mn_url := url, mn_memoryProfiler := mp, mn_debugger := dbg\<rparr>))))"

definition CONFIG :: "(string \<Rightarrow> js_error + string) \<Rightarrow> bool \<Rightarrow> MinaEnv \<Rightarrow> js_error + MinaEnv" where
  "CONFIG href isBrowser environment =
     map_sum (\<lambda>e. e) (\<lambda>cs. environment\<lparr>env_configs := cs\<rparr>)
       (if isBrowser then sum_map (configNode href) (env_configs environment) else Inr [])"

text \<open>\<open>Object.keys\<close> of an absent value throws; the keys of an array are its indices.\<close>

fun object_keys :: "features_value option \<Rightarrow> js_error + string list" where
  "object_keys None = Inl TypeError"
| "object_keys (Some (FeatureArray fs)) = Inr (map dec [0 ..< length fs])"
| "object_keys (Some (FeatureMap fm)) = Inr (map fst fm)"

text \<open>\<open>features[key]\<close> for a section name.\<close>

fun feature_entry :: "features_value option \<Rightarrow> string \<Rightarrow> js_error + string list option" where
  "feature_entry None key = Inl TypeError"
| "feature_entry (Some (FeatureArray fs)) key = Inr None"
| "feature_entry (Some (FeatureMap fm)) key = Inr (map_of fm key)"

definition getFeaturesConfig :: "MinaEnv \<Rightarrow> MinaNode option \<Rightarrow> features_value option" where
  "getFeaturesConfig cfg config =
     (if env_configs cfg = [] then map_option FeatureMap (env_features cfg)
      else coalesce (Option.bind config mn_features) (map_option FeatureMap (env_features cfg)))"

definition getAvailableFeatures :: "MinaEnv \<Rightarrow> MinaNode \<Rightarrow> js_error + string list" where
  "getAvailableFeatures cfg config = object_keys (getFeaturesConfig cfg (Some config))"

definition first_of :: "'a list \<Rightarrow> 'a option" where
  "first_of xs = (case xs of [] \<Rightarrow> None | x # _ \<Rightarrow> Some x)"

lemma first_of_simps [simp]: "first_of [] = None" "first_of (x # xs) = Some x"
  by (simp_all add: first_of_def)

lemma first_of_None [simp]: "first_of xs = None \<longleftrightarrow> xs = []"
  by (cases xs) (simp_all add: first_of_def)

definition getFirstFeature :: "bool \<Rightarrow> MinaEnv \<Rightarrow> MinaNode option \<Rightarrow> js_error + string option" where
  "getFirstFeature isBrowser cfg config =
     (let node = (case config of None \<Rightarrow> first_of (env_configs cfg) | Some n \<Rightarrow> Some n)
      in if \<not> isBrowser then Inr (Some [])
         else case Option.bind node mn_features of
             Some (FeatureArray fs) \<Rightarrow> Inr (first_of fs)
           | _ \<Rightarrow> map_sum (\<lambda>e. e) first_of (object_keys (getFeaturesConfig cfg node)))"

text \<open>\<open>hasValue\<close> is called on a section name and on a list of pages.\<close>

definition isFeatureEnabled ::
  "(string option \<Rightarrow> bool) \<Rightarrow> (string list option \<Rightarrow> bool) \<Rightarrow> MinaEnv \<Rightarrow> MinaNode \<Rightarrow> string \<Rightarrow> js_error + bool" where
  "isFeatureEnabled hasName hasPages cfg config feature =
     (case mn_features config of
        Some (FeatureArray fs) \<Rightarrow> Inr (hasName (first_of fs))
      | _ \<Rightarrow> map_sum (\<lambda>e. e) hasPages (feature_entry (getFeaturesConfig cfg (Some config)) feature))"

definition isSubFeatureEnabled ::
  "(string list option \<Rightarrow> bool) \<Rightarrow> MinaEnv \<Rightarrow> MinaNode \<Rightarrow> string \<Rightarrow> string \<Rightarrow> js_error + bool" where
  "isSubFeatureEnabled hasPages cfg config feature subFeature =
     (case feature_entry (getFeaturesConfig cfg (Some config)) feature of
        Inl e \<Rightarrow> Inl e
      | Inr entry \<Rightarrow>
          if hasPages entry
          then (case entry of None \<Rightarrow> Inl TypeError | Some pages \<Rightarrow> Inr (subFeature \<in> set pages))
          else Inr False)"

section \<open>Guards\<close>

text \<open>Whether a page may be opened, or where the router is sent instead; an absent path segment is \<open>None\<close>.\<close>

datatype guard_result = Allow | Navigate "string option list"

definition sectionGuard :: "bool \<Rightarrow> MinaEnv \<Rightarrow> string \<Rightarrow> MinaNode \<Rightarrow> string \<Rightarrow> js_error + guard_result" where
  "sectionGuard isBrowser cfg key node currentRoute =
     (case feature_entry (getFeaturesConfig cfg (Some node)) key of
        Inl e \<Rightarrow> Inl e
      | Inr None \<Rightarrow> map_sum (\<lambda>e. e) (\<lambda>f. Navigate [f]) (getFirstFeature isBrowser cfg (Some node))
      | Inr (Some pages) \<Rightarrow>
          if currentRoute \<in> set pages then Inr Allow else Inr (Navigate [Some key, first_of pages]))"

definition networkGuard :: "bool \<Rightarrow> MinaEnv \<Rightarrow> MinaNode \<Rightarrow> string \<Rightarrow> js_error + guard_result" where
  "networkGuard isBrowser cfg node currentRoute = sectionGuard isBrowser cfg ''network'' node currentRoute"

definition blockProductionGuard :: "bool \<Rightarrow> MinaEnv \<Rightarrow> MinaNode \<Rightarrow> string \<Rightarrow> js_error + guard_result" where
  "blockProductionGuard isBrowser cfg node currentRoute =
     sectionGuard isBrowser cfg ''block-production'' node currentRoute"

section \<open>Menu\<close>

definition MENU_ITEMS :: "(string \<times> string) list" where
  "MENU_ITEMS = [(''Dashboard'', ''dashboard''), (''Block Production'', ''library_add''), (''Nodes'', ''margin''),
     (''Resources'', ''analytics''), (''Mempool'', ''blur_circular''), (''Network'', ''account_tree''),
     (''State'', ''code_blocks''), (''SNARKs'', ''assignment_turned_in''), (''Benchmarks'', ''dynamic_form''),
     (''Fuzzing'', ''shuffle'')]"

definition menu_slug :: "string \<Rightarrow> string" where
  "menu_slug name = join_with ''-'' (js_split CHR 0x20 (js_toLowerCase name))"

definition empty_node :: MinaNode where
  "empty_node = \<lparr>mn_name = [], mn_url = None, mn_memoryProfiler = None, mn_debugger = None,
     mn_features = Some (FeatureMap []), mn_isCustom = False, mn_isWebNode = False\<rparr>"

definition allowedMenuItems :: "MinaEnv \<Rightarrow> MinaNode option \<Rightarrow> js_error + (string \<times> string) list" where
  "allowedMenuItems cfg activeNode =
     map_sum (\<lambda>e. e) (\<lambda>features. filter (\<lambda>(name, icon). menu_slug name \<in> set features) MENU_ITEMS)
       (getAvailableFeatures cfg (case activeNode of None \<Rightarrow> empty_node | Some n \<Rightarrow> n))"

definition getSubMenusMap :: "string list option \<Rightarrow> (string \<times> string) list option" where
  "getSubMenusMap features =
     map_option (map (\<lambda>feature. (join_with '' '' (js_split CHR 0x2D feature), feature))) features"

section \<open>The form for a new node\<close>

record SubFeature =
  sf_name :: string
  sf_checked :: bool

record Feature =
  f_name :: string
  f_checked :: bool
  f_subs :: "SubFeature list"

definition form_feature :: "string \<Rightarrow> string list \<Rightarrow> Feature" where
  "form_feature name subs =
     \<lparr>f_name = name, f_checked = True, f_subs = map (\<lambda>s. \<lparr>sf_name = s, sf_checked = True\<rparr>) subs\<rparr>"

definition newNodeFeatures :: "Feature list" where
  "newNodeFeatures =
     [form_feature ''Dashboard'' [],
      form_feature ''Nodes'' [''overview'', ''live'', ''bootstrap''],
      form_feature ''State'' [''actions''],
      form_feature ''Network'' [''messages'', ''connections'', ''blocks'', ''topology'', ''node DHT'',
        ''graph overview'', ''bootstrap stats''],
      form_feature ''Snarks'' [''scan state'', ''work pool''],
      form_feature ''Resources'' [''memory''],
      form_feature ''Mempool'' [],
      form_feature ''Benchmarks'' []]"

definition onFeatureCheck :: "Feature \<Rightarrow> Feature" where
  "onFeatureCheck feature =
     (let c = \<not> f_checked feature
      in feature\<lparr>f_checked := c, f_subs := map (\<lambda>s. s\<lparr>sf_checked := c\<rparr>) (f_subs feature)\<rparr>)"

text \<open>The second argument is the position of the sub-feature in the feature.\<close>

definition onSubFeatureCheck :: "nat \<Rightarrow> Feature \<Rightarrow> Feature" where
  "onSubFeatureCheck j feature =
     (let subs = (f_subs feature)[j := (f_subs feature ! j)\<lparr>sf_checked := \<not> sf_checked (f_subs feature ! j)\<rparr>]
      in feature\<lparr>f_subs := subs, f_checked := (\<exists>s \<in> set subs. sf_checked s)\<rparr>)"

text \<open>\<open>s.toLowerCase().replace(' ', '-')\<close>, which replaces the first space.\<close>

definition form_slug :: "string \<Rightarrow> string" where
  "form_slug s =
     (let t = js_toLowerCase s;
          l = takeWhile (\<lambda>c. c \<noteq> CHR 0x20) t
      in if l = t then t else l @ CHR 0x2D # drop (Suc (length l)) t)"

text \<open>Assignment to a property of an object.\<close>

definition object_set :: "string \<Rightarrow> 'v \<Rightarrow> (string \<times> 'v) list \<Rightarrow> (string \<times> 'v) list" where
  "object_set k v m =
     (if k \<in> fst ` set m then map (\<lambda>(k', v'). if k' = k then (k, v) else (k', v')) m else m @ [(k, v)])"

definition form_config :: "Feature list \<Rightarrow> FeaturesConfig" where
  "form_config fs =
     fold (\<lambda>f. object_set (form_slug (f_name f)) (map (form_slug \<circ> sf_name) (filter sf_checked (f_subs f))))
       (filter f_checked fs) []"

text \<open>\<open>addNode\<close>: \<open>None\<close> while a required field is empty, and otherwise the node that is dispatched.\<close>

definition addNode_form :: "string \<Rightarrow> string \<Rightarrow> string \<Rightarrow> string \<Rightarrow> Feature list \<Rightarrow> MinaNode option" where
  "addNode_form name url memProfiler dbg fs =
     (if name = [] \<or> url = [] then None
      else Some \<lparr>mn_name = name, mn_url = Some url, mn_memoryProfiler = Some memProfiler, mn_debugger = Some dbg,
             mn_features = Some (FeatureMap (form_config fs)), mn_isCustom = True, mn_isWebNode = False\<rparr>)"

text \<open>What the user does on the form; a position that does not exist cannot be clicked.\<close>

datatype form_event = FeatureCheck nat | SubFeatureCheck nat nat

fun formStep :: "Feature list \<Rightarrow> form_event \<Rightarrow> Feature list" where
  "formStep fs (FeatureCheck i) = (if i < length fs then fs[i := onFeatureCheck (fs ! i)] else fs)"
| "formStep fs (SubFeatureCheck i j) =
     (if i < length fs \<and> j < length (f_subs (fs ! i)) then fs[i := onSubFeatureCheck j (fs ! i)] else fs)"

section \<open>What the form promises\<close>

definition form_names :: "Feature list \<Rightarrow> (string \<times> string list) list" where
  "form_names fs = map (\<lambda>f. (form_slug (f_name f), map (form_slug \<circ> sf_name) (f_subs f))) fs"

text \<open>A section with pages is checked exactly when one of its pages is, and the names never change.\<close>

definition form_inv :: "Feature list \<Rightarrow> bool" where
  "form_inv fs \<longleftrightarrow> form_names fs = form_names newNodeFeatures \<and>
     (\<forall>f \<in> set fs. f_subs f \<noteq> [] \<longrightarrow> (f_checked f \<longleftrightarrow> (\<exists>s \<in> set (f_subs f). sf_checked s)))"

lemma form_names_update:
  "i < length fs \<Longrightarrow> f_name g = f_name (fs ! i) \<Longrightarrow> map sf_name (f_subs g) = map sf_name (f_subs (fs ! i)) \<Longrightarrow>
   form_names (fs[i := g]) = form_names fs"
  by (auto simp: form_names_def map_update list_update_same_conv simp flip: map_map)

lemma formStep_inv:
  assumes "form_inv fs"
  shows "form_inv (formStep fs e)"
proof (cases "(fs, e)" rule: formStep.cases)
  case (1 fs' i)
  have "form_names (fs[i := onFeatureCheck (fs ! i)]) = form_names fs" if "i < length fs"
    using that by (intro form_names_update) (simp_all add: onFeatureCheck_def Let_def)
  moreover have "f_checked g = (\<exists>s \<in> set (f_subs g). sf_checked s)"
    if "g = onFeatureCheck f" "f_subs g \<noteq> []" for f g
    using that by (cases "f_subs f") (auto simp: onFeatureCheck_def Let_def)
  ultimately show ?thesis
    using assms 1 by (auto simp: form_inv_def dest!: set_update_subset_insert [THEN subsetD])
next
  case (2 fs' i j)
  have "form_names (fs[i := onSubFeatureCheck j (fs ! i)]) = form_names fs"
    if "i < length fs" "j < length (f_subs (fs ! i))"
    using that by (intro form_names_update)
      (simp_all add: onSubFeatureCheck_def Let_def map_update list_update_same_conv)
  moreover have "f_checked g = (\<exists>s \<in> set (f_subs g). sf_checked s)" if "g = onSubFeatureCheck j f" for f g
    using that by (auto simp: onSubFeatureCheck_def Let_def)
  ultimately show ?thesis
    using assms 2 by (auto simp: form_inv_def dest!: set_update_subset_insert [THEN subsetD])
qed

interpretation newNode: total_reducer_invariant formStep newNodeFeatures form_inv
proof
  show "form_inv newNodeFeatures" by (auto simp: form_inv_def newNodeFeatures_def form_feature_def)
qed (rule formStep_inv)

lemma form_names_distinct:
  "distinct (map fst (form_names newNodeFeatures)) \<and>
   list_all (\<lambda>p. distinct (snd p)) (form_names newNodeFeatures)"
  by code_simp

lemma form_inv_distinct:
  assumes "form_inv fs"
  shows "distinct (map (form_slug \<circ> f_name) fs)"
    and "f \<in> set fs \<Longrightarrow> distinct (map (form_slug \<circ> sf_name) (f_subs f))"
proof -
  have eq: "form_names fs = form_names newNodeFeatures" using assms by (simp add: form_inv_def)
  have "map fst (form_names fs) = map (form_slug \<circ> f_name) fs" by (simp add: form_names_def)
  then show "distinct (map (form_slug \<circ> f_name) fs)" using form_names_distinct eq by metis
  show "distinct (map (form_slug \<circ> sf_name) (f_subs f))" if "f \<in> set fs"
  proof -
    have "list_all (\<lambda>p. distinct (snd p)) (form_names fs)" using form_names_distinct eq by simp
    with that show ?thesis by (simp add: form_names_def list_all_iff)
  qed
qed

lemma fold_object_set:
  "distinct (map fst acc @ map k xs) \<Longrightarrow>
   fold (\<lambda>x. object_set (k x) (v x)) xs acc = acc @ map (\<lambda>x. (k x, v x)) xs"
proof (induction xs arbitrary: acc)
  case (Cons x xs)
  then have "k x \<notin> fst ` set acc" by auto
  with Cons.prems Cons.IH [of "acc @ [(k x, v x)]"] show ?case by (simp add: object_set_def)
qed simp

lemma form_config_map:
  assumes "distinct (map (form_slug \<circ> f_name) fs)"
  shows "form_config fs = map (\<lambda>f. (form_slug (f_name f), map (form_slug \<circ> sf_name) (filter sf_checked (f_subs f))))
     (filter f_checked fs)"
proof -
  have "distinct (map (\<lambda>f. form_slug (f_name f)) (filter f_checked fs))"
    using assms by (auto simp: distinct_map comp_def intro: inj_on_subset)
  then show ?thesis by (simp add: form_config_def fold_object_set)
qed

lemma form_config_lookup:
  assumes "distinct (map (form_slug \<circ> f_name) fs)" and "f \<in> set fs"
  shows "map_of (form_config fs) (form_slug (f_name f)) =
    (if f_checked f then Some (map (form_slug \<circ> sf_name) (filter sf_checked (f_subs f))) else None)"
proof -
  have inj: "inj_on (\<lambda>f. form_slug (f_name f)) (set fs)" using assms(1) by (simp add: distinct_map comp_def)
  have d: "distinct (map fst (form_config fs))"
    unfolding form_config_map [OF assms(1)] using assms(1)
    by (auto simp: distinct_map comp_def intro: inj_on_subset)
  show ?thesis
  proof (cases "f_checked f")
    case True
    with assms(2) have "(form_slug (f_name f), map (form_slug \<circ> sf_name) (filter sf_checked (f_subs f)))
        \<in> set (form_config fs)"
      unfolding form_config_map [OF assms(1)] by auto
    with d True show ?thesis by simp
  next
    case False
    then have "form_slug (f_name f) \<notin> fst ` set (form_config fs)"
      unfolding form_config_map [OF assms(1)] using inj assms(2) by (auto dest: inj_onD)
    with False show ?thesis by (simp add: map_of_eq_None_iff)
  qed
qed

lemma network_in_form:
  assumes "form_inv fs"
  shows "\<exists>f \<in> set fs. form_slug (f_name f) = ''network'' \<and> f_subs f \<noteq> []"
proof -
  have "list_ex (\<lambda>p. fst p = ''network'' \<and> snd p \<noteq> []) (form_names newNodeFeatures)" by code_simp
  then have "list_ex (\<lambda>p. fst p = ''network'' \<and> snd p \<noteq> []) (form_names fs)"
    using assms by (simp add: form_inv_def)
  then show ?thesis by (auto simp: form_names_def list_ex_iff)
qed

lemma form_node_config:
  "env_configs cfg \<noteq> [] \<Longrightarrow> addNode_form name url mp dbg fs = Some node \<Longrightarrow>
   getFeaturesConfig cfg (Some node) = Some (FeatureMap (form_config fs)) \<and>
   mn_features node = Some (FeatureMap (form_config fs))"
  by (auto simp: addNode_form_def getFeaturesConfig_def split: if_splits)

lemma form_guard:
  assumes "env_configs cfg \<noteq> []" and "form_inv fs" and "addNode_form name url mp dbg fs = Some node"
  shows "(\<exists>r. networkGuard True cfg node route \<in> {Inr Allow, Inr (Navigate [Some ''network'', Some r])} \<and>
           networkGuard True cfg node r = Inr Allow)
       \<or> networkGuard True cfg node route = Inr (Navigate [first_of (map (form_slug \<circ> f_name) (filter f_checked fs))]) \<and>
         ''network'' \<notin> set (map (form_slug \<circ> f_name) (filter f_checked fs))"
proof -
  note d = form_inv_distinct(1) [OF assms(2)]
  note cfg = form_node_config [OF assms(1,3)]
  obtain f where f: "f \<in> set fs" "form_slug (f_name f) = ''network''" "f_subs f \<noteq> []"
    using network_in_form [OF assms(2)] by blast
  note look = form_config_lookup [OF d f(1), unfolded f(2)]
  have inj: "inj_on (\<lambda>f. form_slug (f_name f)) (set fs)" using d by (simp add: distinct_map comp_def)
  show ?thesis
  proof (cases "f_checked f")
    case True
    with assms(2) f(1,3) obtain s where "s \<in> set (f_subs f)" "sf_checked s" by (auto simp: form_inv_def)
    then obtain r pages where p: "map (form_slug \<circ> sf_name) (filter sf_checked (f_subs f)) = r # pages"
      by (cases "filter sf_checked (f_subs f)") (auto simp: filter_empty_conv)
    with True look cfg have "networkGuard True cfg node r = Inr Allow"
      by (simp add: networkGuard_def sectionGuard_def)
    moreover have "networkGuard True cfg node route \<in> {Inr Allow, Inr (Navigate [Some ''network'', Some r])}"
      using True look cfg p by (simp add: networkGuard_def sectionGuard_def first_of_def)
    ultimately show ?thesis by blast
  next
    case False
    then have "''network'' \<notin> set (map (form_slug \<circ> f_name) (filter f_checked fs))"
      using f(1) inj by (auto simp: f(2) [symmetric] dest: inj_onD)
    moreover have "networkGuard True cfg node route =
        Inr (Navigate [first_of (map (form_slug \<circ> f_name) (filter f_checked fs))])"
      using False look cfg by (simp add: networkGuard_def sectionGuard_def getFirstFeature_def
          form_config_map [OF d] comp_def)
    ultimately show ?thesis by blast
  qed
qed

text \<open>A node that the form adds has exactly the pages the user left checked. Whatever boxes were clicked,
  the sections of the node are the checked ones in the order of the form, and a page of the form is
  enabled exactly when its box is checked; so a page that is checked is never hidden because its section
  is unchecked. The guard of the network section lets a page through or sends the router to a page that the
  guard lets through, and when the section is unchecked to the first section of the node.\<close>

lemma new_node_features:
  assumes "env_configs cfg \<noteq> []" and "\<forall>x. hasPages x \<longleftrightarrow> x \<noteq> None"
    and "fs = foldl formStep newNodeFeatures evs"
    and "addNode_form name url mp dbg fs = Some node"
  shows "getAvailableFeatures cfg node = Inr (map (form_slug \<circ> f_name) (filter f_checked fs))
    \<and> (\<forall>f \<in> set fs. isFeatureEnabled hasName hasPages cfg node (form_slug (f_name f)) = Inr (f_checked f)
        \<and> (\<forall>s \<in> set (f_subs f).
             isSubFeatureEnabled hasPages cfg node (form_slug (f_name f)) (form_slug (sf_name s)) = Inr (sf_checked s)))
    \<and> ((\<exists>r. networkGuard True cfg node route \<in> {Inr Allow, Inr (Navigate [Some ''network'', Some r])} \<and>
           networkGuard True cfg node r = Inr Allow)
       \<or> networkGuard True cfg node route = Inr (Navigate [first_of (map (form_slug \<circ> f_name) (filter f_checked fs))]) \<and>
         ''network'' \<notin> set (map (form_slug \<circ> f_name) (filter f_checked fs)))"
proof (intro conjI ballI)
  have inv: "form_inv fs" unfolding assms(3) by (rule newNode.inv_foldl)
  note d = form_inv_distinct [OF inv]
  note cfg = form_node_config [OF assms(1,4)]
  show "getAvailableFeatures cfg node = Inr (map (form_slug \<circ> f_name) (filter f_checked fs))"
    using cfg by (simp add: getAvailableFeatures_def form_config_map [OF d(1)] comp_def)
  fix f assume f: "f \<in> set fs"
  note look = form_config_lookup [OF d(1) f]
  show "isFeatureEnabled hasName hasPages cfg node (form_slug (f_name f)) = Inr (f_checked f)"
    using cfg look assms(2) by (simp add: isFeatureEnabled_def)
  fix s assume s: "s \<in> set (f_subs f)"
  have "sf_checked s \<Longrightarrow> f_checked f" using inv f s by (auto simp: form_inv_def)
  moreover have "form_slug (sf_name s) \<in> (form_slug \<circ> sf_name) ` {s \<in> set (f_subs f). sf_checked s} \<longleftrightarrow> sf_checked s"
    using d(2) [OF f] s by (auto simp: distinct_map inj_on_def)
  ultimately show "isSubFeatureEnabled hasPages cfg node (form_slug (f_name f)) (form_slug (sf_name s)) = Inr (sf_checked s)"
    using cfg look assms(2) by (auto simp: isSubFeatureEnabled_def)
next
  show "(\<exists>r. networkGuard True cfg node route \<in> {Inr Allow, Inr (Navigate [Some ''network'', Some r])} \<and>
           networkGuard True cfg node r = Inr Allow)
       \<or> networkGuard True cfg node route = Inr (Navigate [first_of (map (form_slug \<circ> f_name) (filter f_checked fs))]) \<and>
         ''network'' \<notin> set (map (form_slug \<circ> f_name) (filter f_checked fs))"
    using form_guard [OF assms(1) _ assms(4)] newNode.inv_foldl assms(3) by blast
qed

definition sample_node :: "string \<Rightarrow> MinaNode" where
  "sample_node n = \<lparr>mn_name = n, mn_url = Some ''http://x'', mn_memoryProfiler = None, mn_debugger = None,
     mn_features = None, mn_isCustom = False, mn_isWebNode = False\<rparr>"

lemma new_node_features_witness:
  "\<exists>node. addNode_form ''n'' ''http://n'' [] [] (foldl formStep newNodeFeatures [SubFeatureCheck 2 0, FeatureCheck 0]) = Some node
     \<and> getAvailableFeatures \<lparr>env_configs = [sample_node ''a''], env_features = None\<rparr> node =
         Inr [''nodes'', ''network'', ''snarks'', ''resources'', ''mempool'', ''benchmarks'']"
proof -
  let ?fs = "foldl formStep newNodeFeatures [SubFeatureCheck 2 0, FeatureCheck 0]"
  have "map (form_slug \<circ> f_name) (filter f_checked ?fs) =
      [''nodes'', ''network'', ''snarks'', ''resources'', ''mempool'', ''benchmarks'']"
    by code_simp
  moreover have "addNode_form ''n'' ''http://n'' [] [] ?fs =
      Some (the (addNode_form ''n'' ''http://n'' [] [] ?fs))"
    by (simp add: addNode_form_def)
  ultimately show ?thesis
    using new_node_features [of "\<lparr>env_configs = [sample_node ''a''], env_features = None\<rparr>" "\<lambda>x. x \<noteq> None" ?fs
        "[SubFeatureCheck 2 0, FeatureCheck 0]" "''n''" "''http://n''" "[]" "[]"]
    by auto
qed

end
