(* ===== verification/App_State.thy ===== *)
theory App_State
  imports App_Config Effect_Pipeline Won_Slots
begin

text \<open>
  The application state (\<open>app.reducer.ts\<close>, \<open>app.effects.ts\<close>, \<open>app.service.ts\<close>): the menu, the nodes the user
  can choose from, the node that is shown, and what its status request said. The nodes the user added
  are kept in the local storage of the browser, which the reducer writes; the requests go to the node that
  the service \<open>core/services/rust.service.ts\<close> was last told about, which the effects set. \<open>app_system\<close> has the
  three together, and \<open>app_step\<close> runs the reducer and the effect of an action on them.

  The local storage is absent outside a browser (\<open>None\<close>); the values it holds are JSON texts of lists of
  nodes and of a boolean, which JSON reads back as they were written, so the model stores the values.
\<close>

section \<open>Data\<close>

datatype AppNodeStatus = AppPENDING | AppBOOTSTRAP | AppCATCHUP | AppSYNCED | AppOFFLINE

datatype MinaNetwork = MAINNET | DEVNET | UNKNOWN

record BlockProductionAttempt =
  bpa_won_slot :: WonSlot
  bpa_block :: json
  bpa_times :: json
  bpa_status :: BlockProductionWonSlotsStatus

record Peer =
  pr_peer_id :: string
  pr_best_tip :: "string option"
  pr_best_tip_height :: "int option"
  pr_best_tip_global_slot :: "int option"
  pr_best_tip_timestamp :: "int option"
  pr_connection_status :: string
  pr_address :: "string option"
  pr_time :: int

record BestTip =
  bt_hash :: string
  bt_height :: int
  bt_global_slot :: int

record Sync =
  sy_time :: "int option"
  sy_status :: string
  sy_target :: json
  sy_phase :: string

record NodeDetailsResponse =
  nd_best_tip :: "BestTip option"
  nd_sync :: Sync
  nd_transactions :: int
  nd_peers :: "Peer list"
  nd_total_jobs :: int
  nd_snarks :: int
  nd_chain_id :: "string option"
  nd_current_attempt :: "BlockProductionAttempt option"
  nd_previous_attempt :: "BlockProductionAttempt option"

record AppNodeDetails =
  ad_status :: AppNodeStatus
  ad_blockHeight :: "int option"
  ad_blockTime :: "int option"
  ad_peersConnected :: nat
  ad_peersDisconnected :: nat
  ad_peersConnecting :: nat
  ad_transactions :: int
  ad_snarks :: int
  ad_producingBlockAt :: "rat option"
  ad_producingBlockGlobalSlot :: "nat option"
  ad_producingBlockStatus :: "BlockProductionWonSlotsStatus option"
  ad_chainId :: "string option"
  ad_network :: "MinaNetwork option"

record AppMenu =
  am_collapsed :: bool
  am_isMobile :: bool
  am_open :: bool

record AppEnvBuild =
  eb_time :: string
  eb_git :: json
  eb_cargo :: json
  eb_rustc :: json

record AppState =
  app_menu :: AppMenu
  app_nodes :: "MinaNode list"
  app_activeNode :: "MinaNode option"
  app_activeNodeDetails :: AppNodeDetails
  app_envBuild :: "AppEnvBuild option"

datatype AppActions =
    App_init
  | App_initSuccess "MinaNode option" "MinaNode list"
  | App_changeActiveNode MinaNode
  | App_getNodeDetails
  | App_getNodeDetailsSuccess AppNodeDetails
  | App_getNodeEnvBuild
  | App_getNodeEnvBuildSuccess "AppEnvBuild option"
  | App_deleteNode MinaNode
  | App_addNode MinaNode
  | App_changeMenuCollapsing bool
  | App_changeSubMenus "string list"
  | App_toggleMobile bool
  | App_toggleMenuOpening

record local_storage =
  menu_collapsed :: "bool option"
  custom_nodes :: "MinaNode list option"

section \<open>Service\<close>

definition stored_nodes :: "local_storage option \<Rightarrow> MinaNode list" where
  "stored_nodes st = (case Option.bind st custom_nodes of None \<Rightarrow> [] | Some ns \<Rightarrow> ns)"

definition getActiveNode :: "string option \<Rightarrow> MinaNode list \<Rightarrow> MinaNode option" where
  "getActiveNode nodeName nodes = coalesce (List.find (\<lambda>c. Some (mn_name c) = nodeName) nodes) (first_of nodes)"

definition getNodes :: "MinaNode list \<Rightarrow> local_storage option \<Rightarrow> MinaNode list" where
  "getNodes configs st = configs @ stored_nodes st"

definition getStatus :: "NodeDetailsResponse \<Rightarrow> AppNodeStatus" where
  "getStatus data =
     (let phase = sy_phase (nd_sync data)
      in if phase = ''Bootstrap'' then AppBOOTSTRAP
         else if phase = ''Catchup'' then AppCATCHUP
         else if phase = ''Synced'' then AppSYNCED else AppPENDING)"

definition getNetwork :: "string option \<Rightarrow> MinaNetwork" where
  "getNetwork chainId =
     (if chainId = Some ''a7351abc7ddf2ea92d1b38cc8e636c271c1dfd2c081c637f62ebc2af34eb7cc1'' then MAINNET
      else if chainId = Some ''29936104443aaf264a7f0192ac64b1c7173198c1ed404c1bcff5e562e05eb7f6'' then DEVNET
      else UNKNOWN)"

text \<open>\<open>nanOrElse\<close> of the shared package is a parameter; the quotient is \<open>NaN\<close> when there is no attempt.\<close>

definition mapNodeDetails ::
  "(js_number \<Rightarrow> rat option \<Rightarrow> rat option) \<Rightarrow> NodeDetailsResponse \<Rightarrow> AppNodeDetails" where
  "mapNodeDetails nanOrElse data =
     (let with = (\<lambda>s. length (filter (\<lambda>p. pr_connection_status p = s) (nd_peers data)))
      in \<lparr>ad_status = getStatus data,
          ad_blockHeight = map_option bt_height (nd_best_tip data),
          ad_blockTime = sy_time (nd_sync data),
          ad_peersConnected = with ''Connected'',
          ad_peersDisconnected = with ''Disconnected'',
          ad_peersConnecting = with ''Connecting'',
          ad_transactions = nd_transactions data,
          ad_snarks = nd_snarks data,
          ad_producingBlockAt = nanOrElse
            (case nd_current_attempt data of None \<Rightarrow> NaN
             | Some a \<Rightarrow> Finite (of_int (sl_slot_time (bpa_won_slot a)) / 1000000)) None,
          ad_producingBlockGlobalSlot = map_option (sl_global_slot \<circ> bpa_won_slot) (nd_current_attempt data),
          ad_producingBlockStatus = map_option bpa_status (nd_current_attempt data),
          ad_chainId = nd_chain_id data,
          ad_network = Some (getNetwork (nd_chain_id data))\<rparr>)"

text \<open>\<open>notifyPrevBlockChanged\<close>: the attempt seen last, and what is reported to the error service.\<close>

definition isInProduction :: "BlockProductionWonSlotsStatus \<Rightarrow> bool" where
  "isInProduction status \<longleftrightarrow> status \<notin> {Discarded, Orphaned, Canonical}"

definition notifyPrevBlockChanged ::
  "bool \<Rightarrow> BlockProductionAttempt option \<Rightarrow> NodeDetailsResponse
     \<Rightarrow> BlockProductionAttempt option \<times> BlockProductionAttempt list" where
  "notifyPrevBlockChanged activeNodeIsWebNode previous data =
     (if \<not> activeNodeIsWebNode then (previous, [])
      else (nd_previous_attempt data,
        case (previous, nd_previous_attempt data) of
          (Some p, Some a) \<Rightarrow> if isInProduction (bpa_status p) \<noteq> isInProduction (bpa_status a) then [a] else []
        | _ \<Rightarrow> []))"

section \<open>Reducer\<close>

definition no_details :: "AppNodeStatus \<Rightarrow> AppNodeDetails" where
  "no_details status =
     \<lparr>ad_status = status, ad_blockHeight = None, ad_blockTime = None, ad_peersConnected = 0,
      ad_peersDisconnected = 0, ad_peersConnecting = 0, ad_transactions = 0, ad_snarks = 0,
      ad_producingBlockAt = None, ad_producingBlockGlobalSlot = None, ad_producingBlockStatus = None,
      ad_chainId = None, ad_network = None\<rparr>"

definition appInitialState :: "local_storage option \<Rightarrow> AppState" where
  "appInitialState st =
     \<lparr>app_menu = \<lparr>am_collapsed = (Option.bind st menu_collapsed = Some True), am_isMobile = False, am_open = True\<rparr>,
      app_nodes = [], app_activeNode = None, app_activeNodeDetails = no_details AppPENDING, app_envBuild = None\<rparr>"

fun appReducer :: "AppState \<times> local_storage option \<Rightarrow> AppActions \<Rightarrow> AppState \<times> local_storage option" where
  "appReducer (state, st) (App_initSuccess activeNode nodes) =
     (state\<lparr>app_activeNode := activeNode, app_nodes := nodes\<rparr>, st)"
| "appReducer (state, st) (App_changeActiveNode node) = (state\<lparr>app_activeNode := Some node\<rparr>, st)"
| "appReducer (state, st) (App_getNodeDetailsSuccess details) = (state\<lparr>app_activeNodeDetails := details\<rparr>, st)"
| "appReducer (state, st) (App_changeMenuCollapsing isCollapsing) =
     (state\<lparr>app_menu := (app_menu state)\<lparr>am_collapsed := isCollapsing\<rparr>\<rparr>,
      map_option (menu_collapsed_update (\<lambda>_. Some isCollapsing)) st)"
| "appReducer (state, st) (App_toggleMobile isMobile) =
     (state\<lparr>app_menu := (app_menu state)\<lparr>am_isMobile := isMobile, am_open := \<not> isMobile\<rparr>\<rparr>, st)"
| "appReducer (state, st) App_toggleMenuOpening =
     (state\<lparr>app_menu := (app_menu state)\<lparr>am_open := \<not> am_open (app_menu state)\<rparr>\<rparr>, st)"
| "appReducer (state, st) (App_addNode node) =
     (state\<lparr>app_nodes := node # app_nodes state\<rparr>,
      map_option (custom_nodes_update (\<lambda>_. Some (node # stored_nodes st))) st)"
| "appReducer (state, st) (App_deleteNode node) =
     (let nodes = filter (\<lambda>n. mn_name n \<noteq> mn_name node) (app_nodes state)
      in (state\<lparr>app_nodes := nodes, app_activeNode :=
            (if map_option mn_name (app_activeNode state) = Some (mn_name node)
             then first_of nodes else app_activeNode state)\<rparr>,
          map_option (custom_nodes_update
            (\<lambda>_. Some (filter (\<lambda>n. mn_name n \<noteq> mn_name node) (stored_nodes st)))) st))"
| "appReducer (state, st) (App_getNodeEnvBuildSuccess envBuild) = (state\<lparr>app_envBuild := envBuild\<rparr>, st)"
| "appReducer (state, st) _ = (state, st)"

section \<open>Effects\<close>

definition init_effect ::
  "MinaNode list \<Rightarrow> string option \<Rightarrow> local_storage option \<Rightarrow> MinaNode option \<times> AppActions" where
  "init_effect configs nodeName st =
     (let nodes = getNodes configs st; activeNode = getActiveNode nodeName nodes
      in (activeNode, App_initSuccess activeNode nodes))"

text \<open>What has to happen before the build is asked for: loading and starting the WebAssembly node, or nothing.
  Reading a field of an absent active node throws.\<close>

datatype node_start = Load_and_start_wasm | Ready

definition initSuccess_effect :: "AppState \<Rightarrow> js_error + node_start \<times> AppActions list" where
  "initSuccess_effect state =
     (case app_activeNode state of
        None \<Rightarrow> Inl TypeError
      | Some n \<Rightarrow> Inr (if mn_isWebNode n then Load_and_start_wasm else Ready, [App_getNodeEnvBuild]))"

datatype navigation = Set_node_param string | Open_section "string option"

text \<open>\<open>onNodeChange$\<close> on the first segment of the address: the navigations and what is started.\<close>

definition onNodeChange_effect ::
  "(string option \<Rightarrow> bool) \<Rightarrow> (string list option \<Rightarrow> bool) \<Rightarrow> bool \<Rightarrow> MinaEnv \<Rightarrow> string \<Rightarrow> AppState
     \<Rightarrow> js_error + navigation list \<times> node_start" where
  "onNodeChange_effect hasName hasPages isBrowser cfg activePage state =
     (case app_activeNode state of
        None \<Rightarrow> Inl TypeError
      | Some n \<Rightarrow>
          (case isFeatureEnabled hasName hasPages cfg n activePage of
             Inl e \<Rightarrow> Inl e
           | Inr enabled \<Rightarrow>
               map_sum (\<lambda>e. e) (\<lambda>navs. (Set_node_param (mn_name n) # navs, if mn_isWebNode n then Load_and_start_wasm else Ready))
                 (if enabled then Inr []
                  else map_sum (\<lambda>e. e) (\<lambda>f. [Open_section f]) (getFirstFeature isBrowser cfg (Some n)))))"

definition getNodeEnvBuild_effect ::
  "string \<Rightarrow> http_error + AppEnvBuild \<Rightarrow> AppActions dispatched list" where
  "getNodeEnvBuild_effect now response =
     (case response of
        Inr envBuild \<Rightarrow> [Dispatch (App_getNodeEnvBuildSuccess (Some envBuild))]
      | Inl e \<Rightarrow> catchErrorAndRepeat now RUST (App_getNodeEnvBuildSuccess None) e)"

text \<open>\<open>getNodeDetails$\<close>: the flag is \<open>requestInProgress\<close>; the \<open>tap\<close> that clears it stands after
  \<open>catchErrorAndRepeat2\<close>, so an error clears it too.\<close>

definition getNodeDetails_effect ::
  "(js_number \<Rightarrow> rat option \<Rightarrow> rat option) \<Rightarrow> string \<Rightarrow>
   (bool, AppActions, unit, NodeDetailsResponse, AppActions dispatched) effect" where
  "getNodeDetails_effect nanOrElse now =
     \<lparr>on_action = (\<lambda>action requestInProgress. case action of
          App_getNodeDetails \<Rightarrow>
            if \<not> requestInProgress then (True, Switch_request ()) else (requestInProgress, Filtered)
        | _ \<Rightarrow> (requestInProgress, Filtered)),
      on_value = (\<lambda>_ data _. (False, [Dispatch (App_getNodeDetailsSuccess (mapNodeDetails nanOrElse data))])),
      on_error = (\<lambda>e _. (False,
        catchErrorAndRepeat now GENERIC (App_getNodeDetailsSuccess (no_details AppOFFLINE)) e))\<rparr>"

interpretation nodeDetails_flag: request_flag "getNodeDetails_effect nanOrElse now" id
  by unfold_locales
    (auto simp: getNodeDetails_effect_def split: AppActions.splits if_splits)

section \<open>Requests\<close>

text \<open>Where a request goes: to the address of the node, or to the method of the WebAssembly node. An address
  that is not set is written \<open>undefined\<close>.\<close>

datatype rust_request = Http_request string | Web_node_call string

definition web_node_paths :: "(string \<times> string) list" where
  "web_node_paths =
     [(''/status'', ''status''), (''/state/peers'', ''peers''), (''/state/message-progress'', ''messageProgress''),
      (''/stats/sync?limit=1'', ''sync''), (''/stats/block_producer'', ''blockProducerStats''),
      (''/transaction-pool'', ''transactionPool''), (''/accounts'', ''accounts''),
      (''/best-chain-user-commands'', ''bestChainUserCommands''), (''/build_env'', ''envBuildDetails'')]"

definition unsupported_path :: "string \<Rightarrow> js_error" where
  "unsupported_path path =
     Error (''Web node doesn'' @ [CHR 0x27] @ ''t support '' @ [CHR 0x22] @ path @ [CHR 0x22] @ '' path!'')"

definition getFromWebNode :: "string \<Rightarrow> js_error + rust_request" where
  "getFromWebNode path =
     (if js_includes path ''/stats/actions'' then Inr (Web_node_call ''actions'')
      else case map_of web_node_paths path of
          Some m \<Rightarrow> Inr (Web_node_call m)
        | None \<Rightarrow> Inl (unsupported_path path))"

definition postToWebNode :: "string \<Rightarrow> js_error + rust_request" where
  "postToWebNode path =
     (if path = ''/send-payment'' then Inr (Web_node_call ''sendPayment'') else Inl (unsupported_path path))"

definition rust_get :: "MinaNode option \<Rightarrow> string \<Rightarrow> js_error + rust_request" where
  "rust_get node path =
     (case node of
        None \<Rightarrow> Inl TypeError
      | Some n \<Rightarrow> if mn_isWebNode n then getFromWebNode path
                  else Inr (Http_request (js_string (js_of_option (mn_url n)) @ path)))"

definition rust_post :: "MinaNode option \<Rightarrow> string \<Rightarrow> js_error + rust_request" where
  "rust_post node path =
     (case node of
        None \<Rightarrow> Inl TypeError
      | Some n \<Rightarrow> if mn_isWebNode n then postToWebNode path
                  else Inr (Http_request (js_string (js_of_option (mn_url n)) @ path)))"

definition getMemProfiler :: "MinaNode option \<Rightarrow> string \<Rightarrow> js_error + rust_request" where
  "getMemProfiler node path =
     (case node of
        None \<Rightarrow> Inl TypeError
      | Some n \<Rightarrow> Inr (Http_request (js_string (js_of_option (mn_memoryProfiler n)) @ path)))"

section \<open>The system\<close>

text \<open>The service that sends the requests, with the node it was told about.\<close>

definition changeRustNode :: "MinaNode option \<Rightarrow> MinaNode option \<Rightarrow> MinaNode option" where
  "changeRustNode node rust = node"

record app_system =
  sys_state :: AppState
  sys_storage :: "local_storage option"
  sys_rust :: "MinaNode option"

definition reduce_sys :: "app_system \<Rightarrow> AppActions \<Rightarrow> app_system" where
  "reduce_sys s a = (let (state, st) = appReducer (sys_state s, sys_storage s) a
     in s\<lparr>sys_state := state, sys_storage := st\<rparr>)"

text \<open>An action, the reducer's work for it, and the synchronous part of its effect; \<open>nodeName\<close> is the \<open>node\<close>
  parameter of the address.\<close>

fun app_step :: "MinaNode list \<Rightarrow> string option \<Rightarrow> app_system \<Rightarrow> AppActions \<Rightarrow> app_system" where
  "app_step configs nodeName s App_init =
     (let (activeNode, success) = init_effect configs nodeName (sys_storage s);
          s' = reduce_sys s App_init
      in reduce_sys (s'\<lparr>sys_rust := changeRustNode activeNode (sys_rust s')\<rparr>) success)"
| "app_step configs nodeName s (App_changeActiveNode node) =
     (let s' = reduce_sys s (App_changeActiveNode node)
      in s'\<lparr>sys_rust := changeRustNode (app_activeNode (sys_state s')) (sys_rust s')\<rparr>)"
| "app_step configs nodeName s a = reduce_sys s a"

definition app_start :: "local_storage option \<Rightarrow> app_system" where
  "app_start st = \<lparr>sys_state = appInitialState st, sys_storage = st, sys_rust = None\<rparr>"

section \<open>The nodes and the local storage\<close>






lemma stored_nodes_update [simp]:
  "stored_nodes (map_option (custom_nodes_update (\<lambda>_. Some ns)) st) = (if st = None then [] else ns)"
  "stored_nodes (map_option (menu_collapsed_update (\<lambda>_. c)) st) = stored_nodes st"
  by (cases st; simp add: stored_nodes_def)+






section \<open>The active node\<close>

text \<open>A run in which every action satisfies a condition in the state it finds.\<close>

fun run_where :: "('s \<Rightarrow> 'a \<Rightarrow> bool) \<Rightarrow> ('s \<Rightarrow> 'a \<Rightarrow> 's) \<Rightarrow> 's \<Rightarrow> 'a list \<Rightarrow> bool" where
  "run_where ok step s [] = True"
| "run_where ok step s (a # as) = (ok s a \<and> run_where ok step (step s a) as)"

lemma run_where_inv:
  assumes "run_where ok step s as" and "I s" and "\<And>s a. I s \<Longrightarrow> ok s a \<Longrightarrow> I (step s a)"
  shows "I (foldl step s as)"
  using assms(1,2) by (induction as arbitrary: s) (auto intro: assms(3))

lemma run_where_conj:
  "run_where P step s as \<Longrightarrow> run_where Q step s as \<Longrightarrow> run_where (\<lambda>s a. P s a \<and> Q s a) step s as"
  by (induction as arbitrary: s) auto

text \<open>The user selects a node of the list.\<close>

fun selects_listed :: "app_system \<Rightarrow> AppActions \<Rightarrow> bool" where
  "selects_listed s (App_initSuccess _ _) = False"
| "selects_listed s (App_changeActiveNode node) = (node \<in> set (app_nodes (sys_state s)))"
| "selects_listed s _ = True"

fun deletes_active :: "app_system \<Rightarrow> AppActions \<Rightarrow> bool" where
  "deletes_active s (App_deleteNode node) = (map_option mn_name (app_activeNode (sys_state s)) = Some (mn_name node))"
| "deletes_active s _ = False"

definition active_listed :: "app_system \<Rightarrow> bool" where
  "active_listed s \<longleftrightarrow> set_option (app_activeNode (sys_state s)) \<subseteq> set (app_nodes (sys_state s))"

lemma first_of_SomeD: "first_of xs = Some x \<Longrightarrow> x \<in> set xs"
  by (cases xs) (auto simp: first_of_def)

lemma getActiveNode_SomeD: "getActiveNode nodeName nodes = Some n \<Longrightarrow> n \<in> set nodes"
  by (cases "List.find (\<lambda>c. Some (mn_name c) = nodeName) nodes")
    (auto simp: getActiveNode_def dest: first_of_SomeD find_Some_in)

lemma active_listed_step:
  "active_listed s \<Longrightarrow> selects_listed s a \<Longrightarrow> active_listed (app_step configs nodeName s a)"
  by (cases a) (auto simp: active_listed_def reduce_sys_def init_effect_def Let_def
      dest: getActiveNode_SomeD first_of_SomeD)

lemma rust_in_step_step:
  "sys_rust s = app_activeNode (sys_state s) \<Longrightarrow> selects_listed s a \<Longrightarrow> \<not> deletes_active s a \<Longrightarrow>
   sys_rust (app_step configs nodeName s a) = app_activeNode (sys_state (app_step configs nodeName s a))"
  by (cases a) (auto simp: reduce_sys_def init_effect_def changeRustNode_def Let_def)

lemma rust_after_delete:
  "sys_rust s = Some n \<Longrightarrow> app_activeNode (sys_state s) = Some n \<Longrightarrow>
   (let s' = app_step configs nodeName s (App_deleteNode n)
    in sys_rust s' = Some n \<and> n \<notin> set (app_nodes (sys_state s')) \<and> app_activeNode (sys_state s') \<noteq> Some n)"
  by (auto simp: reduce_sys_def Let_def dest: first_of_SomeD)

text \<open>C31. The node that is shown and the node that is asked. While the user selects nodes of the list, the active
  node is always one of the list; and as long as the active node is not deleted, the requests go to
  it. When it is deleted, another node becomes active, but the requests still go to the deleted one.\<close>

theorem app_active_node:
  assumes "run_where selects_listed (app_step configs nodeName) (app_start st) (App_init # as)"
    and "s = foldl (app_step configs nodeName) (app_start st) (App_init # as)"
  shows "set_option (app_activeNode (sys_state s)) \<subseteq> set (app_nodes (sys_state s))
    \<and> (run_where (\<lambda>s a. \<not> deletes_active s a) (app_step configs nodeName) (app_start st) (App_init # as) \<longrightarrow>
        sys_rust s = app_activeNode (sys_state s)
        \<and> (\<forall>n. sys_rust s = Some n \<longrightarrow> (let s' = app_step configs nodeName s (App_deleteNode n)
             in sys_rust s' = Some n \<and> n \<notin> set (app_nodes (sys_state s')) \<and> app_activeNode (sys_state s') \<noteq> Some n)))"
proof (intro conjI impI)
  have start: "active_listed (app_start st)" "sys_rust (app_start st) = app_activeNode (sys_state (app_start st))"
    by (simp_all add: active_listed_def app_start_def appInitialState_def)
  show "set_option (app_activeNode (sys_state s)) \<subseteq> set (app_nodes (sys_state s))"
    using run_where_inv [where I = active_listed, OF assms(1) start(1)] active_listed_step unfolding assms(2) active_listed_def by blast
  assume "run_where (\<lambda>s a. \<not> deletes_active s a) (app_step configs nodeName) (app_start st) (App_init # as)"
  from run_where_conj [OF assms(1) this]
  have "run_where (\<lambda>s a. selects_listed s a \<and> \<not> deletes_active s a) (app_step configs nodeName) (app_start st) (App_init # as)"
    .
  then show rust: "sys_rust s = app_activeNode (sys_state s)"
    unfolding assms(2)
    by (rule run_where_inv [where I = "\<lambda>s. sys_rust s = app_activeNode (sys_state s)"])
      (use start(2) rust_in_step_step in auto)
  show "\<forall>n. sys_rust s = Some n \<longrightarrow> (let s' = app_step configs nodeName s (App_deleteNode n)
             in sys_rust s' = Some n \<and> n \<notin> set (app_nodes (sys_state s')) \<and> app_activeNode (sys_state s') \<noteq> Some n)"
    using rust by (intro allI impI rust_after_delete) simp_all
qed

theorem app_active_node_witness:
  "let s = foldl (app_step [sample_node ''a'', sample_node ''b''] None) (app_start None)
             [App_init, App_changeActiveNode (sample_node ''b'')];
       s' = app_step [sample_node ''a'', sample_node ''b''] None s (App_deleteNode (sample_node ''b''))
   in sys_rust s = Some (sample_node ''b'') \<and> sys_rust s' = Some (sample_node ''b'') \<and>
      app_activeNode (sys_state s') = Some (sample_node ''a'')"
  using app_active_node [of "[sample_node ''a'', sample_node ''b'']" None None "[App_changeActiveNode (sample_node ''b'')]", OF _ refl]
  by (simp add: sample_node_def Let_def reduce_sys_def init_effect_def getNodes_def getActiveNode_def app_start_def
      appInitialState_def stored_nodes_def first_of_def changeRustNode_def)

end
