(* ===== verification/Nodes_Tips.thy ===== *)
theory Nodes_Tips
  imports App_State
begin

text \<open>
  The synchronisation state of a node (\<open>features/nodes/overview/nodes-overview.service.ts\<close>), which the three
  nodes pages and the dashboard show: its blocks with their status and durations, and the four ledgers it
  downloads one after the other, each pending, loading or done.

  Times are nanoseconds, durations seconds, rounded up. A time that the node has not reached is absent
  (\<open>null\<close> in the response); arithmetic reads \<open>null\<close> as zero.
\<close>

section \<open>Data\<close>

datatype NodesOverviewNodeKindType = BOOTSTRAP | CATCHUP | SYNCED | PENDING | OFFLINE

fun kind_string :: "NodesOverviewNodeKindType \<Rightarrow> string" where
  "kind_string BOOTSTRAP = ''Bootstrap''"
| "kind_string CATCHUP = ''Catchup''"
| "kind_string SYNCED = ''Synced''"
| "kind_string PENDING = ''Pending''"
| "kind_string OFFLINE = ''Offline''"

datatype NodesOverviewNodeBlockStatus = APPLIED | APPLYING | FETCHED | FETCHING | MISSING

fun status_string :: "NodesOverviewNodeBlockStatus \<Rightarrow> string" where
  "status_string APPLIED = ''Applied''"
| "status_string APPLYING = ''Applying''"
| "status_string FETCHED = ''Fetched''"
| "status_string FETCHING = ''Fetching''"
| "status_string MISSING = ''Missing''"

datatype NodesOverviewLedgerStepState = Step_PENDING | Step_LOADING | Step_SUCCESS

record NodesOverviewBlock =
  nb_globalSlot :: int
  nb_height :: int
  nb_hash :: string
  nb_predHash :: string
  nb_status :: string
  nb_fetchStart :: "int option"
  nb_fetchEnd :: "int option"
  nb_applyStart :: "int option"
  nb_applyEnd :: "int option"
  nb_fetchDuration :: "int option"
  nb_applyDuration :: "int option"
  nb_isBestTip :: bool

record NodesOverviewSnarkedLedgerStep =
  sn_fetchHashesStart :: "int option"
  sn_fetchHashesEnd :: "int option"
  sn_fetchHashesDuration :: "int option"
  sn_fetchHashesPassedTime :: "int option"
  sn_fetchAccountsStart :: "int option"
  sn_fetchAccountsEnd :: "int option"
  sn_fetchAccountsDuration :: "int option"
  sn_fetchAccountsPassedTime :: "int option"

record NodesOverviewStagedLedgerStep =
  sg_fetchPartsStart :: "int option"
  sg_fetchPartsEnd :: "int option"
  sg_fetchPartsDuration :: "int option"
  sg_fetchPassedTime :: "int option"
  sg_reconstructStart :: "int option"
  sg_reconstructEnd :: "int option"
  sg_reconstructDuration :: "int option"
  sg_reconstructPassedTime :: "int option"

record NodesOverviewLedgerEpochStep =
  le_state :: NodesOverviewLedgerStepState
  le_snarked :: NodesOverviewSnarkedLedgerStep
  le_totalTime :: "int option"

record NodesOverviewRootStagedLedgerStep =
  lr_state :: NodesOverviewLedgerStepState
  lr_staged :: NodesOverviewStagedLedgerStep
  lr_totalTime :: "int option"

record NodesOverviewLedger =
  ld_stakingEpoch :: NodesOverviewLedgerEpochStep
  ld_nextEpoch :: NodesOverviewLedgerEpochStep
  ld_rootSnarked :: NodesOverviewLedgerEpochStep
  ld_rootStaged :: NodesOverviewRootStagedLedgerStep

record NodesOverviewNode =
  nn_name :: string
  nn_kind :: string
  nn_snarks :: "int option"
  nn_transactions :: "int option"
  nn_bestTipReceived :: string
  nn_bestTipReceivedTimestamp :: rat
  nn_bestTip :: "string option"
  nn_height :: "int option"
  nn_globalSlot :: "int option"
  nn_appliedBlocks :: nat
  nn_applyingBlocks :: nat
  nn_missingBlocks :: nat
  nn_fetchedBlocks :: nat
  nn_fetchingBlocks :: nat
  nn_ledgers :: NodesOverviewLedger
  nn_blocks :: "NodesOverviewBlock list"

text \<open>The response of \<open>/stats/sync\<close>.\<close>

record sync_snarked =
  fetch_hashes_start :: "int option"
  fetch_hashes_end :: "int option"
  fetch_accounts_start :: "int option"
  fetch_accounts_end :: "int option"

record sync_staged =
  fetch_parts_start :: "int option"
  fetch_parts_end :: "int option"
  reconstruct_start :: "int option"
  reconstruct_end :: "int option"

record sync_ledger =
  slg_snarked :: sync_snarked
  slg_staged :: sync_staged

record sync_ledgers =
  sls_staking_epoch :: "sync_ledger option"
  sls_next_epoch :: "sync_ledger option"
  sls_root :: "sync_ledger option"

record sync_block =
  sb_global_slot :: int
  sb_height :: int
  sb_hash :: string
  sb_pred_hash :: string
  sb_status :: string
  sb_fetch_start :: "int option"
  sb_fetch_end :: "int option"
  sb_apply_start :: "int option"
  sb_apply_end :: "int option"

record sync_tip =
  tp_kind :: string
  tp_best_tip_received :: int
  tp_synced :: "int option"
  tp_ledgers :: sync_ledgers
  tp_blocks :: "sync_block list"

section \<open>Durations\<close>

definition getDuration :: "int option \<Rightarrow> int option \<Rightarrow> int option" where
  "getDuration start end =
     (case (start, end) of
        (Some s, Some e) \<Rightarrow> if e \<noteq> 0 \<and> s \<noteq> 0 then Some \<lceil>of_int (e - s) / (1000000000 :: rat)\<rceil> else None
      | _ \<Rightarrow> None)"

text \<open>\<open>now\<close> is \<open>Date.now()\<close>, in milliseconds.\<close>

definition getPassed :: "int \<Rightarrow> int option \<Rightarrow> int option" where
  "getPassed now start =
     (case start of
        None \<Rightarrow> None
      | Some s \<Rightarrow> if s = 0 then None else Some \<lceil>of_int now / 1000 - of_int s / (1000000000 :: rat)\<rceil>)"

definition noneOfStepsCompleted :: "sync_ledger \<Rightarrow> bool" where
  "noneOfStepsCompleted step \<longleftrightarrow>
     \<not> truthy_num (fetch_hashes_start (slg_snarked step)) \<and> \<not> truthy_num (fetch_accounts_start (slg_snarked step))"

text \<open>The sum of two durations that may be \<open>null\<close>.\<close>

definition null_add :: "int option \<Rightarrow> int option \<Rightarrow> int" where
  "null_add x y = (case x of None \<Rightarrow> 0 | Some a \<Rightarrow> a) + (case y of None \<Rightarrow> 0 | Some b \<Rightarrow> b)"

section \<open>Ledgers\<close>

definition getSnarkedLedgerStep :: "int \<Rightarrow> sync_ledger option \<Rightarrow> NodesOverviewLedgerEpochStep" where
  "getSnarkedLedgerStep now step =
     (case step of
        None \<Rightarrow> \<lparr>le_state = Step_PENDING,
          le_snarked = \<lparr>sn_fetchHashesStart = None, sn_fetchHashesEnd = None, sn_fetchHashesDuration = None,
            sn_fetchHashesPassedTime = None, sn_fetchAccountsStart = None, sn_fetchAccountsEnd = None,
            sn_fetchAccountsDuration = None, sn_fetchAccountsPassedTime = None\<rparr>,
          le_totalTime = None\<rparr>
      | Some s \<Rightarrow> (let sn = slg_snarked s in
          \<lparr>le_state = (if noneOfStepsCompleted s then Step_PENDING else Step_LOADING),
           le_snarked = \<lparr>sn_fetchHashesStart = fetch_hashes_start sn, sn_fetchHashesEnd = fetch_hashes_end sn,
             sn_fetchHashesDuration = getDuration (fetch_hashes_start sn) (fetch_hashes_end sn),
             sn_fetchHashesPassedTime = getPassed now (fetch_hashes_start sn),
             sn_fetchAccountsStart = fetch_accounts_start sn, sn_fetchAccountsEnd = fetch_accounts_end sn,
             sn_fetchAccountsDuration = getDuration (fetch_accounts_start sn) (fetch_accounts_end sn),
             sn_fetchAccountsPassedTime = getPassed now (fetch_accounts_start sn)\<rparr>,
           le_totalTime = None\<rparr>))"

text \<open>What the code does to a step once a later ledger is past pending.\<close>

definition stepDone :: "NodesOverviewLedgerEpochStep \<Rightarrow> NodesOverviewLedgerEpochStep" where
  "stepDone step = step\<lparr>le_state := Step_SUCCESS,
     le_totalTime := Some (null_add (sn_fetchHashesDuration (le_snarked step)) (sn_fetchAccountsDuration (le_snarked step)))\<rparr>"

definition rootStagedStep :: "int \<Rightarrow> sync_ledger option \<Rightarrow> NodesOverviewRootStagedLedgerStep" where
  "rootStagedStep now rt =
     (case rt of
        None \<Rightarrow> \<lparr>lr_state = Step_PENDING,
          lr_staged = \<lparr>sg_fetchPartsStart = None, sg_fetchPartsEnd = None, sg_fetchPartsDuration = None,
            sg_fetchPassedTime = None, sg_reconstructStart = None, sg_reconstructEnd = None,
            sg_reconstructDuration = None, sg_reconstructPassedTime = None\<rparr>,
          lr_totalTime = None\<rparr>
      | Some r \<Rightarrow> (let sg = slg_staged r;
            fetched = getDuration (fetch_parts_start sg) (fetch_parts_end sg);
            rebuilt = getDuration (reconstruct_start sg) (reconstruct_end sg);
            built = truthy_num (reconstruct_end sg)
          in \<lparr>lr_state =
               (if built then Step_SUCCESS
                else if \<not> truthy_num (fetch_parts_start sg) \<and> \<not> truthy_num (reconstruct_start sg)
                then Step_PENDING else Step_LOADING),
              lr_staged = \<lparr>sg_fetchPartsStart = fetch_parts_start sg, sg_fetchPartsEnd = fetch_parts_end sg,
                sg_fetchPartsDuration = fetched, sg_fetchPassedTime = getPassed now (fetch_parts_start sg),
                sg_reconstructStart = reconstruct_start sg, sg_reconstructEnd = reconstruct_end sg,
                sg_reconstructDuration = rebuilt, sg_reconstructPassedTime = getPassed now (reconstruct_start sg)\<rparr>,
              lr_totalTime = (if built then Some (null_add fetched rebuilt) else None)\<rparr>))"

text \<open>Whether the staged root ledger was past pending when the code looked at it, which is before the end of the
  reconstruction makes it a success.\<close>

definition stagedStarted :: "sync_ledger option \<Rightarrow> bool" where
  "stagedStarted rt = (case rt of None \<Rightarrow> False
     | Some r \<Rightarrow> truthy_num (fetch_parts_start (slg_staged r)) \<or> truthy_num (reconstruct_start (slg_staged r)))"

definition getLedgers :: "int \<Rightarrow> sync_ledgers \<Rightarrow> NodesOverviewLedger" where
  "getLedgers now ls =
     (let rootSnarked = (if stagedStarted (sls_root ls) then stepDone (getSnarkedLedgerStep now (sls_root ls))
            else getSnarkedLedgerStep now (sls_root ls));
          nextEpoch = (if le_state rootSnarked \<noteq> Step_PENDING then stepDone (getSnarkedLedgerStep now (sls_next_epoch ls))
            else getSnarkedLedgerStep now (sls_next_epoch ls));
          stakingEpoch = (if le_state nextEpoch \<noteq> Step_PENDING then stepDone (getSnarkedLedgerStep now (sls_staking_epoch ls))
            else getSnarkedLedgerStep now (sls_staking_epoch ls))
      in \<lparr>ld_stakingEpoch = stakingEpoch, ld_nextEpoch = nextEpoch, ld_rootSnarked = rootSnarked,
          ld_rootStaged = rootStagedStep now (sls_root ls)\<rparr>)"

section \<open>Nodes\<close>

definition getKind :: "sync_tip \<Rightarrow> NodesOverviewNodeKindType" where
  "getKind node =
     (if tp_kind node = ''Synced'' then SYNCED
      else case tp_blocks node of
          [] \<Rightarrow> BOOTSTRAP
        | b # _ \<Rightarrow> if sb_hash b = [] then BOOTSTRAP else CATCHUP)"

definition mapTipBlock :: "sync_block \<Rightarrow> NodesOverviewBlock" where
  "mapTipBlock b =
     \<lparr>nb_globalSlot = sb_global_slot b, nb_height = sb_height b, nb_hash = sb_hash b, nb_predHash = sb_pred_hash b,
      nb_status = sb_status b, nb_fetchStart = sb_fetch_start b, nb_fetchEnd = sb_fetch_end b,
      nb_applyStart = sb_apply_start b, nb_applyEnd = sb_apply_end b,
      nb_fetchDuration = getDuration (sb_fetch_start b) (sb_fetch_end b),
      nb_applyDuration = getDuration (sb_apply_start b) (sb_apply_end b), nb_isBestTip = False\<rparr>"

definition markBestTip :: "NodesOverviewBlock list \<Rightarrow> NodesOverviewBlock list" where
  "markBestTip bs = (case bs of [] \<Rightarrow> [] | b # rest \<Rightarrow> b\<lparr>nb_isBestTip := True\<rparr> # rest)"

definition countStatus :: "NodesOverviewNodeBlockStatus \<Rightarrow> sync_block list \<Rightarrow> nat" where
  "countStatus st bs = length (filter (\<lambda>b. sb_status b = status_string st) bs)"

text \<open>\<open>toReadableDate\<close> and \<open>hasValue\<close> of the shared package are parameters; the details of the node are absent when
  the dashboard calls this.\<close>

definition mapNodeTip ::
  "(rat \<Rightarrow> string) \<Rightarrow> (int option \<Rightarrow> bool) \<Rightarrow> int \<Rightarrow> NodeDetailsResponse option \<Rightarrow> string \<Rightarrow> sync_tip \<Rightarrow> NodesOverviewNode" where
  "mapNodeTip toReadableDate hasValue now nodeDetails name node =
     \<lparr>nn_name = name,
      nn_kind = (case nodeDetails of
          Some d \<Rightarrow> sy_phase (nd_sync d)
        | None \<Rightarrow> if hasValue (tp_synced node) then kind_string SYNCED else tp_kind node),
      nn_snarks = map_option nd_snarks nodeDetails,
      nn_transactions = map_option nd_transactions nodeDetails,
      nn_bestTipReceived = toReadableDate (of_int (tp_best_tip_received node) / 1000000),
      nn_bestTipReceivedTimestamp = of_int (tp_best_tip_received node) / 1000000,
      nn_bestTip = map_option sb_hash (first_of (tp_blocks node)),
      nn_height = map_option sb_height (first_of (tp_blocks node)),
      nn_globalSlot = map_option sb_global_slot (first_of (tp_blocks node)),
      nn_appliedBlocks = countStatus APPLIED (tp_blocks node),
      nn_applyingBlocks = countStatus APPLYING (tp_blocks node),
      nn_missingBlocks = countStatus MISSING (tp_blocks node),
      nn_fetchedBlocks = countStatus FETCHED (tp_blocks node),
      nn_fetchingBlocks = countStatus FETCHING (tp_blocks node),
      nn_ledgers = getLedgers now (tp_ledgers node),
      nn_blocks = markBestTip (map mapTipBlock (tp_blocks node))\<rparr>"

definition mapNodeTipsResponse ::
  "(rat \<Rightarrow> string) \<Rightarrow> (int option \<Rightarrow> bool) \<Rightarrow> int \<Rightarrow> sync_tip list \<Rightarrow> NodeDetailsResponse option \<Rightarrow> string
     \<Rightarrow> js_error + NodesOverviewNode list" where
  "mapNodeTipsResponse toReadableDate hasValue now syncTips nodeDetails name =
     (if syncTips = [] then Inl (Error ''Empty response'')
      else Inr (map (mapNodeTip toReadableDate hasValue now nodeDetails name) syncTips))"

definition mapNodeTipsErrorResponse :: "int \<Rightarrow> string \<Rightarrow> NodesOverviewNode list" where
  "mapNodeTipsErrorResponse now name =
     [\<lparr>nn_name = name, nn_kind = kind_string OFFLINE, nn_snarks = Some 0, nn_transactions = Some 0,
       nn_bestTipReceived = ''-'', nn_bestTipReceivedTimestamp = 0, nn_bestTip = Some ''-'', nn_height = None,
       nn_globalSlot = Some 0, nn_appliedBlocks = 0, nn_applyingBlocks = 0, nn_missingBlocks = 0,
       nn_fetchedBlocks = 0, nn_fetchingBlocks = 0,
       nn_ledgers = getLedgers now \<lparr>sls_staking_epoch = None, sls_next_epoch = None, sls_root = None\<rparr>, nn_blocks = []\<rparr>]"

text \<open>\<open>getNodeTips\<close>: both requests succeed, or one of them fails.\<close>

definition getNodeTips ::
  "(rat \<Rightarrow> string) \<Rightarrow> (int option \<Rightarrow> bool) \<Rightarrow> int \<Rightarrow> string \<Rightarrow> http_error + sync_tip list \<times> NodeDetailsResponse
     \<Rightarrow> NodesOverviewNode list" where
  "getNodeTips toReadableDate hasValue now name response =
     (case response of
        Inl e \<Rightarrow> mapNodeTipsErrorResponse now name
      | Inr (syncTips, nodeDetails) \<Rightarrow>
          (case mapNodeTipsResponse toReadableDate hasValue now syncTips (Some nodeDetails) name of
             Inl e \<Rightarrow> mapNodeTipsErrorResponse now name
           | Inr nodes \<Rightarrow> nodes))"

section \<open>The order of the ledgers\<close>

text \<open>The states in the order in which the node downloads the ledgers.\<close>

definition ledger_states :: "NodesOverviewLedger \<Rightarrow> NodesOverviewLedgerStepState list" where
  "ledger_states l = [le_state (ld_stakingEpoch l), le_state (ld_nextEpoch l), le_state (ld_rootSnarked l),
     lr_state (ld_rootStaged l)]"

definition staircase :: "NodesOverviewLedgerStepState list \<Rightarrow> bool" where
  "staircase xs \<longleftrightarrow> (\<exists>a b c. b \<le> 1 \<and>
     xs = replicate a Step_SUCCESS @ replicate b Step_LOADING @ replicate c Step_PENDING)"

lemma staircase_pending: "list_all (\<lambda>x. x = Step_PENDING) xs \<Longrightarrow> staircase xs"
  unfolding staircase_def
  by (rule exI [of _ 0], rule exI [of _ 0], rule exI [of _ "length xs"]) (induction xs, auto)

lemma staircase_Nil [simp]: "staircase []"
  by (simp add: staircase_pending)

lemma staircase_loading: "list_all (\<lambda>x. x = Step_PENDING) xs \<Longrightarrow> staircase (Step_LOADING # xs)"
  unfolding staircase_def
  by (rule exI [of _ 0], rule exI [of _ 1], rule exI [of _ "length xs"]) (induction xs, auto)

lemma staircase_success: "staircase xs \<Longrightarrow> staircase (Step_SUCCESS # xs)"
  unfolding staircase_def by (elim exE conjE, rule exI [of _ "Suc a" for a]) auto

text \<open>Times that the node reports are consistent when a reconstruction that ended has started.\<close>

definition root_consistent :: "sync_ledgers \<Rightarrow> bool" where
  "root_consistent ls \<longleftrightarrow> (case sls_root ls of None \<Rightarrow> True
     | Some r \<Rightarrow> truthy_num (reconstruct_end (slg_staged r)) \<longrightarrow> stagedStarted (Some r))"

lemma stepDone_state [simp]: "le_state (stepDone s) = Step_SUCCESS"
  by (simp add: stepDone_def)

lemma snarked_step_state:
  "le_state (getSnarkedLedgerStep now x) \<in> {Step_PENDING, Step_LOADING} \<and> le_totalTime (getSnarkedLedgerStep now x) = None"
  by (auto simp: getSnarkedLedgerStep_def Let_def split: option.splits)

lemma rootStaged_state:
  "root_consistent ls \<Longrightarrow> lr_state (rootStagedStep now (sls_root ls)) = Step_PENDING \<longleftrightarrow> \<not> stagedStarted (sls_root ls)"
  by (auto simp: root_consistent_def rootStagedStep_def stagedStarted_def Let_def split: option.splits)

lemma rootStaged_total:
  "lr_totalTime (rootStagedStep now x) \<noteq> None \<longleftrightarrow> lr_state (rootStagedStep now x) = Step_SUCCESS"
  by (auto simp: rootStagedStep_def Let_def split: option.splits)

lemma snarked_step_total [simp]:
  "le_totalTime (getSnarkedLedgerStep now x) = None" "le_state (getSnarkedLedgerStep now x) \<noteq> Step_SUCCESS"
  "\<exists>t. le_totalTime (stepDone s) = Some t"
  using snarked_step_state [of now x] by (auto simp: stepDone_def)

text \<open>C24. The four ledgers form a staircase: in the order staking epoch, next epoch, snarked root, staged root
  some ledgers are done, then at most one is loading, and the rest is pending, whatever times the node
  reports, provided that a reconstruction that has ended has started. A ledger has a total time exactly when it
  is done.\<close>

theorem node_ledgers_staircase:
  assumes "root_consistent ls"
  shows "staircase (ledger_states (getLedgers now ls)) \<and>
    (le_totalTime (ld_stakingEpoch (getLedgers now ls)) \<noteq> None \<longleftrightarrow> le_state (ld_stakingEpoch (getLedgers now ls)) = Step_SUCCESS) \<and>
    (le_totalTime (ld_nextEpoch (getLedgers now ls)) \<noteq> None \<longleftrightarrow> le_state (ld_nextEpoch (getLedgers now ls)) = Step_SUCCESS) \<and>
    (le_totalTime (ld_rootSnarked (getLedgers now ls)) \<noteq> None \<longleftrightarrow> le_state (ld_rootSnarked (getLedgers now ls)) = Step_SUCCESS) \<and>
    (lr_totalTime (ld_rootStaged (getLedgers now ls)) \<noteq> None \<longleftrightarrow> lr_state (ld_rootStaged (getLedgers now ls)) = Step_SUCCESS)"
proof (intro conjI)
  let ?st = "rootStagedStep now (sls_root ls)"
  have st: "staircase [lr_state ?st]"
    by (cases "lr_state ?st") (simp_all add: staircase_pending staircase_loading staircase_success)
  consider "stagedStarted (sls_root ls)" | "lr_state ?st = Step_PENDING" "\<not> stagedStarted (sls_root ls)"
    using rootStaged_state [OF assms] by blast
  then show "staircase (ledger_states (getLedgers now ls))"
  proof cases
    case 1
    then show ?thesis using st by (simp add: ledger_states_def getLedgers_def Let_def staircase_success)
  next
    case 2
    then show ?thesis
      using snarked_step_state [of now "sls_root ls"] snarked_step_state [of now "sls_next_epoch ls"]
        snarked_step_state [of now "sls_staking_epoch ls"]
      by (auto simp: ledger_states_def getLedgers_def Let_def staircase_success staircase_loading staircase_pending)
  qed
qed (simp_all add: getLedgers_def Let_def rootStaged_total [simplified])

definition sample_ledger :: sync_ledger where
  "sample_ledger =
     \<lparr>slg_snarked = \<lparr>fetch_hashes_start = Some 1, fetch_hashes_end = Some 2, fetch_accounts_start = None,
        fetch_accounts_end = None\<rparr>,
      slg_staged = \<lparr>fetch_parts_start = None, fetch_parts_end = None, reconstruct_start = None, reconstruct_end = None\<rparr>\<rparr>"

theorem node_ledgers_staircase_witness:
  "staircase [Step_SUCCESS, Step_LOADING, Step_PENDING, Step_PENDING]"
proof -
  let ?ls = "\<lparr>sls_staking_epoch = None, sls_next_epoch = Some sample_ledger, sls_root = None\<rparr>"
  have "ledger_states (getLedgers 0 ?ls) = [Step_SUCCESS, Step_LOADING, Step_PENDING, Step_PENDING]"
    by (simp add: ledger_states_def getLedgers_def Let_def sample_ledger_def getSnarkedLedgerStep_def
        rootStagedStep_def stagedStarted_def noneOfStepsCompleted_def)
  moreover have "root_consistent ?ls" by (simp add: root_consistent_def)
  ultimately show ?thesis using node_ledgers_staircase [of ?ls 0] by simp
qed

section \<open>Blocks and answers\<close>

lemma status_string_inject [simp]: "status_string a = status_string b \<longleftrightarrow> a = b"
  by (cases a; cases b) simp_all

lemma status_string_range:
  "x \<in> range status_string \<longleftrightarrow> x \<in> set (map status_string [APPLIED, APPLYING, MISSING, FETCHED, FETCHING])"
  (is "?L \<longleftrightarrow> ?R")
proof
  assume ?L
  then obtain st where "x = status_string st" by blast
  then show ?R by (cases st) simp_all
qed (auto simp del: status_string.simps)

text \<open>Every block with a known status is counted once.\<close>

lemma countStatus_sum:
  "countStatus APPLIED bs + countStatus APPLYING bs + countStatus MISSING bs + countStatus FETCHED bs + countStatus FETCHING bs =
   length (filter (\<lambda>b. sb_status b \<in> range status_string) bs)"
  unfolding status_string_range
  by (induction bs) (auto simp: countStatus_def simp del: status_string.simps)

lemma getDuration_bounds:
  assumes "getDuration s e = Some d"
  shows "\<exists>s' e'. s = Some s' \<and> e = Some e' \<and> (d - 1) * 1000000000 < e' - s' \<and> e' - s' \<le> d * 1000000000"
proof -
  obtain s' e' where se: "s = Some s'" "e = Some e'" and d: "d = \<lceil>of_int (e' - s') / (1000000000 :: rat)\<rceil>"
    using assms by (auto simp: getDuration_def split: option.splits if_splits)
  have "of_int d - 1 < of_int (e' - s') / (1000000000 :: rat)" "of_int (e' - s') / (1000000000 :: rat) \<le> of_int d"
    unfolding d using ceiling_correct [of "of_int (e' - s') / (1000000000 :: rat)"] by simp_all
  then have "of_int ((d - 1) * 1000000000) < (of_int (e' - s') :: rat)" "(of_int (e' - s') :: rat) \<le> of_int (d * 1000000000)"
    by (simp_all add: field_simps)
  then show ?thesis using se by (simp only: of_int_less_iff of_int_le_iff) blast
qed

text \<open>What a node answers. The answer is never empty and never an exception; a failed request or an
  empty response gives one offline node. Otherwise there is one entry per tip, its five counts add up to the
  number of blocks with a known status, its best tip is the hash of the only block marked as best
  tip, and the fetch duration of a block is its time in seconds rounded up.\<close>

lemma node_tips_answer:
  "getNodeTips dt hv now name response \<noteq> [] \<and>
   (case response of
      Inl e \<Rightarrow> map nn_kind (getNodeTips dt hv now name response) = [kind_string OFFLINE]
    | Inr (tips, details) \<Rightarrow>
        if tips = [] then map nn_kind (getNodeTips dt hv now name response) = [kind_string OFFLINE]
        else list_all2 (\<lambda>tip node.
            nn_appliedBlocks node + nn_applyingBlocks node + nn_missingBlocks node + nn_fetchedBlocks node + nn_fetchingBlocks node =
              length (filter (\<lambda>b. sb_status b \<in> range status_string) (tp_blocks tip))
            \<and> map nb_hash (filter nb_isBestTip (nn_blocks node)) = (case nn_bestTip node of None \<Rightarrow> [] | Some h \<Rightarrow> [h])
            \<and> list_all (\<lambda>b. case (nb_fetchDuration b, nb_fetchStart b, nb_fetchEnd b) of
                  (Some d, Some st, Some en) \<Rightarrow> (d - 1) * 1000000000 < en - st \<and> en - st \<le> d * 1000000000
                | (Some d, _, _) \<Rightarrow> False
                | (None, _, _) \<Rightarrow> True) (nn_blocks node))
          tips (getNodeTips dt hv now name response))"
proof -
  have best: "map nb_hash (filter nb_isBestTip (markBestTip (map mapTipBlock bs))) =
      (case map_option sb_hash (first_of bs) of None \<Rightarrow> [] | Some h \<Rightarrow> [h])" for bs
    by (cases bs) (simp_all add: markBestTip_def first_of_def mapTipBlock_def filter_empty_conv)
  have dur: "list_all P (markBestTip (map mapTipBlock bs))"
    if "\<And>b bt. P ((mapTipBlock b)\<lparr>nb_isBestTip := bt\<rparr>)" for P bs
  proof -
    have "P (mapTipBlock b)" for b using that [where b = b and bt = False] by (simp add: mapTipBlock_def)
    with that show ?thesis by (cases bs) (auto simp: markBestTip_def list_all_iff)
  qed
  have "getNodeTips dt hv now name response \<noteq> []"
    by (auto simp: getNodeTips_def mapNodeTipsErrorResponse_def mapNodeTipsResponse_def split: sum.splits if_splits)
  then show ?thesis
    by (cases response)
      (auto simp: markBestTip_def [of "[]"] getNodeTips_def mapNodeTipsErrorResponse_def mapNodeTipsResponse_def mapNodeTip_def
        list.rel_map countStatus_sum best intro!: list.rel_refl_strong dur
        simp: mapTipBlock_def split: option.splits dest!: getDuration_bounds)
qed

end
