(* ===== verification/Nodes_Pages.thy ===== *)
theory Nodes_Pages
  imports Nodes_Tips
begin

text \<open>
  The three nodes pages (\<open>features/nodes\<close>): the overview asks every node of the application for its
  status and shows one row per node; the live page shows the events of the blocks of one
  tip; the bootstrap page shows statistics of the blocks of each tip. All three map the answers of
  \<^const>\<open>getNodeTips\<close>.

  \<open>sort\<close>, \<open>toggleItem\<close>, \<open>lastItem\<close>, \<open>hasValue\<close> and \<open>toReadableDate\<close> of the shared package are parameters. The live and
  bootstrap effects send the reducers an object that is not an array when a request fails, written \<open>None\<close>
  below; what the helpers of the shared package do with it is the parameter \<open>onObject\<close>.
\<close>

section \<open>Overview page\<close>

text \<open>A row before the first answer has a name and the kind \<open>PENDING\<close>, and no other field.\<close>

datatype overview_row = Pending_row string | Loaded_row NodesOverviewNode

fun row_name :: "overview_row \<Rightarrow> string" where
  "row_name (Pending_row n) = n"
| "row_name (Loaded_row node) = nn_name node"

record NodesOverviewState =
  nos_nodes :: "overview_row list"
  nos_activeNode :: "overview_row option"
  nos_sort :: tableSort

datatype NodesOverviewActions =
    NODES_OVERVIEW_INIT
  | NODES_OVERVIEW_GET_NODES
  | NODES_OVERVIEW_GET_NODES_SUCCESS "NodesOverviewNode list"
  | NODES_OVERVIEW_GET_NODE_STATUS MinaNode
  | NODES_OVERVIEW_GET_NODE_STATUS_SUCCESS "NodesOverviewNode option"
  | NODES_OVERVIEW_SORT_NODES tableSort
  | NODES_OVERVIEW_SET_ACTIVE_NODE "overview_row option"
  | NODES_OVERVIEW_CLOSE

definition overviewInitialState :: "MinaNode list \<Rightarrow> NodesOverviewState" where
  "overviewInitialState configs =
     \<lparr>nos_nodes = map (Pending_row \<circ> mn_name) configs, nos_activeNode = None,
      nos_sort = \<lparr>sortBy = ''kind'', sortDirection = DSC\<rparr>\<rparr>"

definition sortOverviewNodes :: "overview_row sorter \<Rightarrow> overview_row list \<Rightarrow> tableSort \<Rightarrow> overview_row list" where
  "sortOverviewNodes srt node ts = srt node ts"

fun overviewReducer ::
  "overview_row sorter \<Rightarrow> MinaNode list \<Rightarrow> NodesOverviewState \<Rightarrow> NodesOverviewActions \<Rightarrow> NodesOverviewState" where
  "overviewReducer srt configs state (NODES_OVERVIEW_GET_NODE_STATUS_SUCCESS currentNode) =
     (let nodes = (case currentNode of
          None \<Rightarrow> nos_nodes state
        | Some n \<Rightarrow>
            (case find_index (\<lambda>r. row_name r = nn_name n) (nos_nodes state) of
               Some i \<Rightarrow> (nos_nodes state)[i := Loaded_row n]
             | None \<Rightarrow> nos_nodes state @ [Loaded_row n]))
      in state\<lparr>nos_nodes := sortOverviewNodes srt nodes (nos_sort state),
           nos_activeNode := Option.bind (nos_activeNode state)
             (\<lambda>a. List.find (\<lambda>r. row_name r = row_name a) nodes)\<rparr>)"
| "overviewReducer srt configs state (NODES_OVERVIEW_SORT_NODES payload) =
     state\<lparr>nos_sort := payload, nos_nodes := sortOverviewNodes srt (nos_nodes state) payload\<rparr>"
| "overviewReducer srt configs state (NODES_OVERVIEW_SET_ACTIVE_NODE payload) = state\<lparr>nos_activeNode := payload\<rparr>"
| "overviewReducer srt configs state NODES_OVERVIEW_CLOSE = overviewInitialState configs"
| "overviewReducer srt configs state _ = state"

text \<open>\<open>getNodes$\<close> emits one action per node at once, and each emission clears \<open>pendingRequest\<close>.\<close>

fun overviewGetNodes_effect ::
  "MinaNode list \<Rightarrow> bool \<Rightarrow> NodesOverviewActions \<Rightarrow> bool \<times> NodesOverviewActions list" where
  "overviewGetNodes_effect nodes pendingRequest NODES_OVERVIEW_GET_NODES =
     (if pendingRequest then (pendingRequest, [])
      else (nodes = [], map NODES_OVERVIEW_GET_NODE_STATUS nodes))"
| "overviewGetNodes_effect nodes pendingRequest _ = (pendingRequest, [])"

text \<open>\<open>getNodeStatus$\<close>: requests run side by side (\<open>mergeMap\<close>), and each answers with its first tip.\<close>

definition overviewGetNodeStatus_effect ::
  "(rat \<Rightarrow> string) \<Rightarrow> (int option \<Rightarrow> bool) \<Rightarrow> int \<Rightarrow> MinaNode \<Rightarrow> http_error + sync_tip list \<times> NodeDetailsResponse
     \<Rightarrow> NodesOverviewActions" where
  "overviewGetNodeStatus_effect toReadableDate hasValue now node response =
     NODES_OVERVIEW_GET_NODE_STATUS_SUCCESS
       (first_of (getNodeTips toReadableDate hasValue now (mn_name node) response))"

section \<open>Live page\<close>

record NodesLiveBlockEvent =
  ev_datetime :: string
  ev_timestamp :: int
  ev_height :: int
  ev_message :: string
  ev_status :: string
  ev_elapsed :: "int option"
  ev_isBestTip :: bool

record NodesLiveNode = NodesOverviewNode +
  nl_index :: nat
  nl_events :: "NodesLiveBlockEvent list"

record NodesLiveState =
  nls_nodes :: "NodesLiveNode list"
  nls_activeNode :: "NodesLiveNode option"
  nls_sort :: tableSort
  nls_openSidePanel :: bool
  nls_filteredEvents :: "NodesLiveBlockEvent list"
  nls_filters :: "string list"

datatype NodesLiveActions =
    NODES_LIVE_INIT
  | NODES_LIVE_GET_NODES bool
  | NODES_LIVE_GET_NODES_SUCCESS "NodesLiveNode list option"
  | NODES_LIVE_SORT_EVENTS tableSort
  | NODES_LIVE_SET_ACTIVE_NODE string
  | NODES_LIVE_TOGGLE_SIDE_PANEL
  | NODES_LIVE_TOGGLE_FILTER string
  | NODES_LIVE_CLOSE

text \<open>The events of one block; an event that is pushed has no elapsed time when it starts something.\<close>

definition live_event ::
  "(rat \<Rightarrow> string) \<Rightarrow> NodesOverviewBlock \<Rightarrow> bool \<Rightarrow> NodesOverviewNodeBlockStatus \<Rightarrow> string \<Rightarrow> int option \<Rightarrow> int option
     \<Rightarrow> NodesLiveBlockEvent list" where
  "live_event toReadableDate block isBestTip message st elapsed time =
     (case time of
        None \<Rightarrow> []
      | Some t \<Rightarrow> if t = 0 then []
          else [\<lparr>ev_datetime = toReadableDate (of_int t / 1000000), ev_timestamp = t, ev_height = nb_height block,
                 ev_message = status_string message, ev_status = st, ev_elapsed = elapsed, ev_isBestTip = isBestTip\<rparr>])"

definition blockEvents :: "(rat \<Rightarrow> string) \<Rightarrow> bool \<Rightarrow> NodesOverviewBlock \<Rightarrow> NodesLiveBlockEvent list" where
  "blockEvents toReadableDate isBestTip block =
     live_event toReadableDate block isBestTip FETCHING ''Started'' None (nb_fetchStart block) @
     live_event toReadableDate block isBestTip FETCHED ''Completed'' (nb_fetchDuration block) (nb_fetchEnd block) @
     live_event toReadableDate block isBestTip APPLYING ''Started'' None (nb_applyStart block) @
     live_event toReadableDate block isBestTip APPLIED ''Completed'' (nb_applyDuration block) (nb_applyEnd block)"

definition getEvents :: "(rat \<Rightarrow> string) \<Rightarrow> NodesOverviewNode \<Rightarrow> NodesLiveBlockEvent list" where
  "getEvents toReadableDate node =
     concat (map (\<lambda>(block, index). blockEvents toReadableDate (index = 0) block)
       (zip (nn_blocks node) [0 ..< length (nn_blocks node)]))"

definition getLiveNodeTips :: "(rat \<Rightarrow> string) \<Rightarrow> NodesOverviewNode list \<Rightarrow> NodesLiveNode list" where
  "getLiveNodeTips toReadableDate nodes =
     (let shown = rev (filter (\<lambda>n. nn_kind n \<noteq> kind_string OFFLINE) nodes)
      in map (\<lambda>(node, index). NodesOverviewNode.extend node
             (NodesLiveNode.fields index (getEvents toReadableDate node)))
           (zip shown [0 ..< length shown]))"

definition liveInitialState :: "bool \<Rightarrow> NodesLiveState" where
  "liveInitialState isDesktop =
     \<lparr>nls_nodes = [], nls_activeNode = None, nls_sort = \<lparr>sortBy = ''timestamp'', sortDirection = DSC\<rparr>,
      nls_openSidePanel = isDesktop, nls_filteredEvents = [], nls_filters = []\<rparr>"

definition sortEvents ::
  "NodesLiveBlockEvent sorter \<Rightarrow> NodesLiveBlockEvent list \<Rightarrow> tableSort \<Rightarrow> NodesLiveBlockEvent list" where
  "sortEvents srt events ts = srt events ts"

definition filterEvents :: "NodesLiveBlockEvent list \<Rightarrow> string list \<Rightarrow> NodesLiveBlockEvent list" where
  "filterEvents events filters =
     (if filters = [] then events
      else let es = (if ''best tip'' \<in> set filters then filter ev_isBestTip events else events)
           in if list_ex (\<lambda>f. f \<in> status_string ` {APPLIED, APPLYING, FETCHED, FETCHING, MISSING}) filters
              then filter (\<lambda>e. ev_message e \<in> set filters) es else es)"

record live_env =
  lv_sort :: "NodesLiveBlockEvent sorter"
  lv_toggleItem :: "string list \<Rightarrow> string \<Rightarrow> string list"
  lv_lastItem :: "NodesLiveNode list \<Rightarrow> NodesLiveNode option"
  lv_onObject :: "NodesLiveState \<Rightarrow> js_error + NodesLiveState"
  lv_isDesktop :: bool

text \<open>The events that are shown of a node.\<close>

definition shownEvents :: "live_env \<Rightarrow> tableSort \<Rightarrow> string list \<Rightarrow> NodesLiveBlockEvent list \<Rightarrow> NodesLiveBlockEvent list" where
  "shownEvents env ts filters events = filterEvents (sortEvents (lv_sort env) events ts) filters"

fun liveReducer :: "live_env \<Rightarrow> NodesLiveState \<Rightarrow> NodesLiveActions \<Rightarrow> js_error + NodesLiveState" where
  "liveReducer env state (NODES_LIVE_GET_NODES_SUCCESS (Some payload)) =
     (let activeNode = (case nls_activeNode state of
          Some a \<Rightarrow> List.find (\<lambda>node. nn_bestTip node = nn_bestTip a) payload
        | None \<Rightarrow> lv_lastItem env payload)
      in Inr (state\<lparr>nls_nodes := payload, nls_activeNode := activeNode,
           nls_filteredEvents := shownEvents env (nls_sort state) (nls_filters state)
             (case activeNode of None \<Rightarrow> [] | Some a \<Rightarrow> nl_events a)\<rparr>))"
| "liveReducer env state (NODES_LIVE_GET_NODES_SUCCESS None) =
     (if nls_activeNode state \<noteq> None then Inl TypeError else lv_onObject env state)"
| "liveReducer env state (NODES_LIVE_SET_ACTIVE_NODE payloadHash) =
     (case List.find (\<lambda>node. nn_bestTip node = Some payloadHash) (nls_nodes state) of
        None \<Rightarrow> Inr state
      | Some a \<Rightarrow> Inr (state\<lparr>nls_activeNode := Some a,
          nls_filteredEvents := shownEvents env (nls_sort state) (nls_filters state) (nl_events a)\<rparr>))"
| "liveReducer env state (NODES_LIVE_SORT_EVENTS payload) =
     (case nls_activeNode state of
        None \<Rightarrow> Inl TypeError
      | Some a \<Rightarrow> Inr (state\<lparr>nls_sort := payload,
          nls_filteredEvents := shownEvents env payload (nls_filters state) (nl_events a)\<rparr>))"
| "liveReducer env state NODES_LIVE_TOGGLE_SIDE_PANEL =
     Inr (state\<lparr>nls_openSidePanel := \<not> nls_openSidePanel state,
       nls_activeNode := (if nls_openSidePanel state then None else nls_activeNode state)\<rparr>)"
| "liveReducer env state (NODES_LIVE_TOGGLE_FILTER payload) =
     (let filters = lv_toggleItem env (nls_filters state) payload
      in case nls_activeNode state of
           None \<Rightarrow> Inl TypeError
         | Some a \<Rightarrow> Inr (state\<lparr>nls_filters := filters,
             nls_filteredEvents := shownEvents env (nls_sort state) filters (nl_events a)\<rparr>))"
| "liveReducer env state NODES_LIVE_CLOSE = Inr (liveInitialState (lv_isDesktop env))"
| "liveReducer env state NODES_LIVE_INIT = Inr state"
| "liveReducer env state (NODES_LIVE_GET_NODES _) = Inr state"

text \<open>\<open>getNodes$\<close>: the filter looks at \<open>payload?.force\<close> and at \<open>pendingRequest\<close>, also for the close action, which
  has no payload.\<close>

definition liveGetNodes_effect ::
  "string \<Rightarrow> (bool, NodesLiveActions, unit, NodesLiveNode list, NodesLiveActions dispatched) effect" where
  "liveGetNodes_effect now =
     \<lparr>on_action = (\<lambda>action pendingRequest. case action of
          NODES_LIVE_GET_NODES force \<Rightarrow>
            if force \<or> \<not> pendingRequest then (True, Switch_request ()) else (pendingRequest, Filtered)
        | NODES_LIVE_CLOSE \<Rightarrow> if \<not> pendingRequest then (pendingRequest, Switch_empty) else (pendingRequest, Filtered)
        | _ \<Rightarrow> (pendingRequest, Filtered)),
      on_value = (\<lambda>_ payload _. (False, [Dispatch (NODES_LIVE_GET_NODES_SUCCESS (Some payload))])),
      on_error = (\<lambda>e _. (False, catchErrorAndRepeat now GENERIC (NODES_LIVE_GET_NODES_SUCCESS None) e))\<rparr>"

interpretation live_flag: request_flag "liveGetNodes_effect now" id
  by unfold_locales (auto simp: liveGetNodes_effect_def split: NodesLiveActions.splits if_splits)

interpretation live_close: drops_close "liveGetNodes_effect now" id "\<lambda>a. a = NODES_LIVE_CLOSE"
  by unfold_locales (simp add: liveGetNodes_effect_def)

section \<open>Bootstrap page\<close>

record NodesBootstrapNode = NodesOverviewNode +
  bn_index :: nat
  bn_appliedBlocksAvg :: rat
  bn_appliedBlocksMin :: int
  bn_appliedBlocksMax :: int
  bn_fetchedBlocksAvg :: rat
  bn_fetchedBlocksMin :: int
  bn_fetchedBlocksMax :: int

record NodesBootstrapState =
  nbs_nodes :: "NodesBootstrapNode list"
  nbs_activeNode :: "NodesBootstrapNode option"
  nbs_sort :: tableSort
  nbs_openSidePanel :: bool

datatype NodesBootstrapActions =
    NODES_BOOTSTRAP_INIT
  | NODES_BOOTSTRAP_GET_NODES bool
  | NODES_BOOTSTRAP_GET_NODES_SUCCESS "NodesBootstrapNode list option"
  | NODES_BOOTSTRAP_SORT_NODES tableSort
  | NODES_BOOTSTRAP_SET_ACTIVE_BLOCK "NodesBootstrapNode option"
  | NODES_BOOTSTRAP_TOGGLE_SIDE_PANEL
  | NODES_BOOTSTRAP_CLOSE

text \<open>A duration that is \<open>null\<close> counts as zero in a sum and in \<open>Math.min\<close> and \<open>Math.max\<close>.\<close>

definition or_zero :: "int option \<Rightarrow> int" where
  "or_zero d = (case d of None \<Rightarrow> 0 | Some x \<Rightarrow> x)"

definition durationsAvg :: "int option list \<Rightarrow> rat" where
  "durationsAvg ds = of_int (foldl (\<lambda>sum d. sum + or_zero d) 0 ds) / of_nat (if ds = [] then 1 else length ds)"

definition durationsMin :: "int option list \<Rightarrow> int" where
  "durationsMin ds = (case map or_zero ds of [] \<Rightarrow> 0 | x # xs \<Rightarrow> foldl min x xs)"

definition durationsMax :: "int option list \<Rightarrow> int" where
  "durationsMax ds = foldr max (map or_zero ds) 0"

definition bootstrapNode :: "(int option \<Rightarrow> bool) \<Rightarrow> nat \<Rightarrow> NodesOverviewNode \<Rightarrow> NodesBootstrapNode" where
  "bootstrapNode hasValue index node =
     (let appliedBlocks = filter (\<lambda>b. nb_status b = status_string APPLIED \<and> hasValue (nb_applyStart b)) (nn_blocks node);
          fetchedBlocks = filter (\<lambda>b. nb_status b = status_string FETCHED \<and> hasValue (nb_fetchStart b)) (nn_blocks node);
          applyDurations = map nb_applyDuration appliedBlocks;
          fetchDurations = map nb_fetchDuration fetchedBlocks
      in NodesOverviewNode.extend
           (node\<lparr>nn_fetchedBlocks := length fetchedBlocks, nn_appliedBlocks := length appliedBlocks,
             nn_globalSlot := map_option nb_globalSlot (first_of (nn_blocks node)),
             nn_height := map_option nb_height (first_of (nn_blocks node))\<rparr>)
           (NodesBootstrapNode.fields index (durationsAvg applyDurations) (durationsMin applyDurations)
             (durationsMax applyDurations) (durationsAvg fetchDurations) (durationsMin fetchDurations)
             (durationsMax fetchDurations)))"

definition getBootstrapNodeTips :: "(int option \<Rightarrow> bool) \<Rightarrow> NodesOverviewNode list \<Rightarrow> NodesBootstrapNode list" where
  "getBootstrapNodeTips hasValue nodes =
     (let shown = filter (\<lambda>n. nn_kind n \<noteq> kind_string OFFLINE) nodes
      in map (\<lambda>(node, index). bootstrapNode hasValue index node) (zip shown [0 ..< length shown]))"

definition bootstrapInitialState :: "bool \<Rightarrow> NodesBootstrapState" where
  "bootstrapInitialState isDesktop =
     \<lparr>nbs_nodes = [], nbs_activeNode = None, nbs_sort = \<lparr>sortBy = ''index'', sortDirection = ASC\<rparr>,
      nbs_openSidePanel = isDesktop\<rparr>"

definition sortBootstrapNodes ::
  "NodesBootstrapNode sorter \<Rightarrow> NodesBootstrapNode list \<Rightarrow> tableSort \<Rightarrow> NodesBootstrapNode list" where
  "sortBootstrapNodes srt node ts = srt node ts"

fun bootstrapReducer ::
  "NodesBootstrapNode sorter \<Rightarrow> (NodesBootstrapState \<Rightarrow> js_error + NodesBootstrapState) \<Rightarrow> bool
     \<Rightarrow> NodesBootstrapState \<Rightarrow> NodesBootstrapActions \<Rightarrow> js_error + NodesBootstrapState" where
  "bootstrapReducer srt onObject isDesktop state (NODES_BOOTSTRAP_GET_NODES_SUCCESS (Some payload)) =
     Inr (state\<lparr>nbs_nodes := sortBootstrapNodes srt payload (nbs_sort state),
       nbs_activeNode := Option.bind (nbs_activeNode state) (\<lambda>a. List.find (\<lambda>n. bn_index n = bn_index a) payload)\<rparr>)"
| "bootstrapReducer srt onObject isDesktop state (NODES_BOOTSTRAP_GET_NODES_SUCCESS None) = onObject state"
| "bootstrapReducer srt onObject isDesktop state (NODES_BOOTSTRAP_SET_ACTIVE_BLOCK payload) =
     Inr (state\<lparr>nbs_activeNode := payload,
       nbs_openSidePanel := (if payload \<noteq> None then True else nbs_openSidePanel state)\<rparr>)"
| "bootstrapReducer srt onObject isDesktop state (NODES_BOOTSTRAP_SORT_NODES payload) =
     Inr (state\<lparr>nbs_sort := payload, nbs_nodes := sortBootstrapNodes srt (nbs_nodes state) payload\<rparr>)"
| "bootstrapReducer srt onObject isDesktop state NODES_BOOTSTRAP_TOGGLE_SIDE_PANEL =
     Inr (state\<lparr>nbs_openSidePanel := \<not> nbs_openSidePanel state,
       nbs_activeNode := (if nbs_openSidePanel state then None else nbs_activeNode state)\<rparr>)"
| "bootstrapReducer srt onObject isDesktop state NODES_BOOTSTRAP_CLOSE = Inr (bootstrapInitialState isDesktop)"
| "bootstrapReducer srt onObject isDesktop state NODES_BOOTSTRAP_INIT = Inr state"
| "bootstrapReducer srt onObject isDesktop state (NODES_BOOTSTRAP_GET_NODES _) = Inr state"

definition bootstrapGetNodes_effect ::
  "string \<Rightarrow> (bool, NodesBootstrapActions, unit, NodesBootstrapNode list, NodesBootstrapActions dispatched) effect" where
  "bootstrapGetNodes_effect now =
     \<lparr>on_action = (\<lambda>action pendingRequest. case action of
          NODES_BOOTSTRAP_GET_NODES force \<Rightarrow>
            if force \<or> \<not> pendingRequest then (True, Switch_request ()) else (pendingRequest, Filtered)
        | NODES_BOOTSTRAP_CLOSE \<Rightarrow>
            if \<not> pendingRequest then (pendingRequest, Switch_empty) else (pendingRequest, Filtered)
        | _ \<Rightarrow> (pendingRequest, Filtered)),
      on_value = (\<lambda>_ payload _. (False, [Dispatch (NODES_BOOTSTRAP_GET_NODES_SUCCESS (Some payload))])),
      on_error = (\<lambda>e _. (False, catchErrorAndRepeat now GENERIC (NODES_BOOTSTRAP_GET_NODES_SUCCESS None) e))\<rparr>"

interpretation bootstrap_flag: request_flag "bootstrapGetNodes_effect now" id
  by unfold_locales (auto simp: bootstrapGetNodes_effect_def split: NodesBootstrapActions.splits if_splits)

interpretation bootstrap_close: drops_close "bootstrapGetNodes_effect now" id "\<lambda>a. a = NODES_BOOTSTRAP_CLOSE"
  by unfold_locales (simp add: bootstrapGetNodes_effect_def)

section \<open>The overview and the order of the answers\<close>

lemma getNodeTips_name: "n \<in> set (getNodeTips dt hv now name response) \<Longrightarrow> nn_name n = name"
  by (auto simp: getNodeTips_def mapNodeTipsErrorResponse_def mapNodeTipsResponse_def mapNodeTip_def
      split: sum.splits if_splits)

lemma filter_distinct_nth:
  assumes "distinct (map f xs)" and "i < length xs" and "f (xs ! i) = k"
  shows "filter (\<lambda>x. f x \<noteq> k) xs = take i xs @ drop (Suc i) xs"
proof -
  have xs: "xs = take i xs @ xs ! i # drop (Suc i) xs" by (rule id_take_nth_drop [OF assms(2)])
  have "f x \<noteq> k" if "x \<in> set (take i xs) \<union> set (drop (Suc i) xs)" for x
    using assms(1) that unfolding assms(3) [symmetric] by (subst (asm) xs) (auto simp: image_iff)
  then have "filter (\<lambda>x. f x \<noteq> k) (take i xs @ xs ! i # drop (Suc i) xs) = take i xs @ drop (Suc i) xs"
    using assms(3) by (simp add: filter_id_conv)
  then show ?thesis by (simp flip: xs)
qed

lemma overview_status_step:
  assumes "sorter_permutes srt" and "distinct (map row_name (nos_nodes s))"
    and s'_def: "s' = overviewReducer srt configs s (NODES_OVERVIEW_GET_NODE_STATUS_SUCCESS (Some n))"
  shows "mset (nos_nodes s') = filter_mset (\<lambda>r. row_name r \<noteq> nn_name n) (mset (nos_nodes s)) + {#Loaded_row n#}"
    and "distinct (map row_name (nos_nodes s'))"
proof -
  let ?xs = "nos_nodes s"
  define ys where "ys = (case find_index (\<lambda>r. row_name r = nn_name n) ?xs of
      Some i \<Rightarrow> ?xs[i := Loaded_row n] | None \<Rightarrow> ?xs @ [Loaded_row n])"
  have s': "mset (nos_nodes s') = mset ys"
    by (simp add: s'_def ys_def sortOverviewNodes_def sorter_mset [OF assms(1)] Let_def)
  have "mset ys = filter_mset (\<lambda>r. row_name r \<noteq> nn_name n) (mset ?xs) + {#Loaded_row n#} \<and> distinct (map row_name ys)"
  proof (cases "find_index (\<lambda>r. row_name r = nn_name n) ?xs")
    case None
    have "ys = ?xs @ [Loaded_row n]" unfolding ys_def None by simp
    moreover have "\<forall>r \<in> set ?xs. row_name r \<noteq> nn_name n" using None by simp
    ultimately show ?thesis using assms(2) by (auto simp flip: mset_filter intro: filter_True)
  next
    case (Some i)
    note i = find_index_SomeD(1,2) [OF Some]
    have "mset (take i ?xs @ drop (Suc i) ?xs) + {#Loaded_row n#} = mset ys"
      using i(1) by (simp add: ys_def Some upd_conv_take_nth_drop)
    moreover have "map row_name ys = map row_name ?xs"
      using i by (simp add: ys_def Some map_update list_update_same_conv)
    ultimately show ?thesis
      using assms(2) filter_distinct_nth [OF assms(2) i] by (metis mset_filter)
  qed
  then show "mset (nos_nodes s') = filter_mset (\<lambda>r. row_name r \<noteq> nn_name n) (mset ?xs) + {#Loaded_row n#}"
    and "distinct (map row_name (nos_nodes s'))"
    using s' by (simp, metis mset_eq_imp_distinct_iff mset_map)
qed

lemma overview_status_run:
  assumes "sorter_permutes srt" and "distinct (map row_name (nos_nodes s))" and "distinct (map nn_name ns)"
  shows "mset (nos_nodes (foldl (overviewReducer srt configs) s
        (map (\<lambda>n. NODES_OVERVIEW_GET_NODE_STATUS_SUCCESS (Some n)) ns))) =
    filter_mset (\<lambda>r. row_name r \<notin> nn_name ` set ns) (mset (nos_nodes s)) + mset (map Loaded_row ns)"
  using assms(2,3)
proof (induction ns arbitrary: s)
  case (Cons n ns)
  note step = overview_status_step [OF assms(1) Cons.prems(1) refl, of configs n]
  have "filter_mset (\<lambda>r. row_name r \<notin> nn_name ` set ns) {#Loaded_row n#} = {#Loaded_row n#}"
    using Cons.prems(2) by auto
  with Cons.IH [OF step(2)] Cons.prems(2) step(1) show ?case
    by (simp del: overviewReducer.simps add: filter_filter_mset conj_commute)
qed simp

text \<open>C22. The overview does not depend on the order in which the nodes answer. A request for the nodes asks
  each of them once; when all have answered, or failed, in whatever order, the table has one loaded row for
  each of them with the first tip of its answer, and a pending row for each configured node that
  was not asked.\<close>

theorem overview_any_order:
  assumes "sorter_permutes srt" and "distinct (map mn_name configs)" and "distinct (map mn_name nodes)"
    and "mset order = mset nodes"
  shows "snd (overviewGetNodes_effect nodes False NODES_OVERVIEW_GET_NODES) = map NODES_OVERVIEW_GET_NODE_STATUS nodes
    \<and> mset (nos_nodes (foldl (overviewReducer srt configs) (overviewInitialState configs)
          (map (\<lambda>n. overviewGetNodeStatus_effect dt hv now n (answer n)) order))) =
        mset (map (Pending_row \<circ> mn_name) (filter (\<lambda>c. mn_name c \<notin> mn_name ` set nodes) configs)) +
        mset (map (\<lambda>n. Loaded_row (hd (getNodeTips dt hv now (mn_name n) (answer n)))) nodes)"
proof
  let ?tip = "\<lambda>n. hd (getNodeTips dt hv now (mn_name n) (answer n))"
  have ne: "getNodeTips dt hv now (mn_name n) (answer n) \<noteq> []" for n
    by (auto simp: getNodeTips_def mapNodeTipsErrorResponse_def mapNodeTipsResponse_def split: sum.splits if_splits)
  then have name: "nn_name (?tip n) = mn_name n" for n
    using getNodeTips_name [OF hd_in_set [OF ne]] by simp
  have act: "overviewGetNodeStatus_effect dt hv now n (answer n) = NODES_OVERVIEW_GET_NODE_STATUS_SUCCESS (Some (?tip n))" for n
    using ne [of n] by (simp add: overviewGetNodeStatus_effect_def first_of_def split: list.splits)
  have acts: "map (\<lambda>n. overviewGetNodeStatus_effect dt hv now n (answer n)) order =
      map (\<lambda>n. NODES_OVERVIEW_GET_NODE_STATUS_SUCCESS (Some n)) (map ?tip order)"
    by (simp add: act)
  have set: "set order = set nodes" using assms(4) by (metis set_mset_mset)
  have "distinct (map mn_name order)" using assms(3,4) by (metis mset_eq_imp_distinct_iff mset_map)
  then have d: "distinct (map nn_name (map ?tip order))" by (simp add: name comp_def)
  have d0: "distinct (map row_name (nos_nodes (overviewInitialState configs)))"
    using assms(2) by (simp add: overviewInitialState_def comp_def)
  have "mset (map (\<lambda>n. Loaded_row (?tip n)) order) = mset (map (\<lambda>n. Loaded_row (?tip n)) nodes)"
    using assms(4) by (simp only: mset_map)
  then show "mset (nos_nodes (foldl (overviewReducer srt configs) (overviewInitialState configs)
          (map (\<lambda>n. overviewGetNodeStatus_effect dt hv now n (answer n)) order))) =
        mset (map (Pending_row \<circ> mn_name) (filter (\<lambda>c. mn_name c \<notin> mn_name ` set nodes) configs)) +
        mset (map (\<lambda>n. Loaded_row (?tip n)) nodes)"
    unfolding acts overview_status_run [OF assms(1) d0 d]
    by (simp add: overviewInitialState_def name set image_image filter_map comp_def flip: mset_filter mset_map)
qed simp

theorem overview_any_order_witness:
  "mset (map row_name (nos_nodes (foldl (overviewReducer (\<lambda>xs _. xs) [sample_node ''a'', sample_node ''b''])
      (overviewInitialState [sample_node ''a'', sample_node ''b''])
      (map (\<lambda>n. overviewGetNodeStatus_effect (\<lambda>_. []) (\<lambda>x. x \<noteq> None) 0 n (Inl \<lparr>err_message = [], err_status = None\<rparr>))
        [sample_node ''c'', sample_node ''a''])))) = {#''b'', ''a'', ''c''#}"
proof -
  let ?nodes = "[sample_node ''a'', sample_node ''c'']"
  let ?answer = "\<lambda>_ :: MinaNode. Inl \<lparr>err_message = [], err_status = None\<rparr> :: http_error + sync_tip list \<times> NodeDetailsResponse"
  have h: "sorter_permutes (\<lambda>xs _. xs)" "distinct (map mn_name [sample_node ''a'', sample_node ''b''])"
    "distinct (map mn_name ?nodes)" "mset [sample_node ''c'', sample_node ''a''] = mset ?nodes"
    by (simp_all add: sorter_permutes_def sample_node_def)
  show ?thesis
    using arg_cong [OF overview_any_order [OF h, of "\<lambda>_. []" "\<lambda>x. x \<noteq> None" 0 ?answer, THEN conjunct2],
        of "image_mset row_name"]
    by (simp add: sample_node_def getNodeTips_def mapNodeTipsErrorResponse_def)
qed

section \<open>The live view\<close>

definition live_view :: "live_env \<Rightarrow> NodesLiveState \<Rightarrow> bool" where
  "live_view env s \<longleftrightarrow> (\<forall>a. nls_activeNode s = Some a \<longrightarrow> a \<in> set (nls_nodes s) \<and>
     nls_filteredEvents s = shownEvents env (nls_sort s) (nls_filters s) (nl_events a))"

lemma live_view_step:
  assumes "\<And>xs a. lv_lastItem env xs = Some a \<Longrightarrow> a \<in> set xs"
    and "live_view env s" and "act \<noteq> NODES_LIVE_GET_NODES_SUCCESS None" and "liveReducer env s act = Inr s'"
  shows "live_view env s'"
  using assms(2-4)
  by (cases "(env, s, act)" rule: liveReducer.cases)
    (auto simp: live_view_def Let_def liveInitialState_def dest: find_Some_in assms(1) split: option.splits if_splits)

lemma live_view_run:
  assumes "\<And>xs a. lv_lastItem env xs = Some a \<Longrightarrow> a \<in> set xs"
  shows "live_view env s \<Longrightarrow> NODES_LIVE_GET_NODES_SUCCESS None \<notin> set as \<Longrightarrow>
    reduce_all (liveReducer env) s as = Inr s' \<Longrightarrow> live_view env s'"
proof (induction as arbitrary: s)
  case (Cons act as)
  then obtain s1 where "liveReducer env s act = Inr s1" "reduce_all (liveReducer env) s1 as = Inr s'"
    by (auto split: sum.splits)
  with Cons live_view_step [where s = s and act = act and s' = s1, OF assms] show ?case by auto
qed simp

lemma blockEvents_best: "ev \<in> set (blockEvents dt bt b) \<Longrightarrow> ev_isBestTip ev = bt"
  by (auto simp: blockEvents_def live_event_def split: option.splits if_splits)

lemma getEvents_Cons:
  assumes "nn_blocks node = b # bs"
  shows "getEvents dt node = blockEvents dt True b @ concat (map (blockEvents dt False) bs)"
proof -
  have "map (\<lambda>(block, index). blockEvents dt (index = 0) block) (zip bs [Suc 0 ..< Suc (length bs)]) =
      map (blockEvents dt False) bs"
    by (rule nth_equalityI) (auto simp del: upt_Suc)
  then show ?thesis by (simp add: getEvents_def assms upt_conv_Cons del: upt_Suc)
qed

lemma best_tip_events:
  "filterEvents (getEvents dt node) [''best tip''] =
   (case nn_blocks node of [] \<Rightarrow> [] | b # _ \<Rightarrow> blockEvents dt True b)"
proof (cases "nn_blocks node")
  case Nil
  then show ?thesis by (simp add: getEvents_def filterEvents_def)
next
  case (Cons b bs)
  have "filter ev_isBestTip (blockEvents dt True b) = blockEvents dt True b"
    "filter ev_isBestTip (concat (map (blockEvents dt False) bs)) = []"
    by (auto simp: filter_id_conv filter_empty_conv dest: blockEvents_best)
  then show ?thesis by (simp add: getEvents_Cons [OF Cons] Cons filterEvents_def)
qed

text \<open>The live page shows what it says. In every state the page reaches with answers of the service, the active
  tip is one of the tips, and the table has its events, sorted and filtered by the current choices;
  the filter \<open>best tip\<close> on the events of a node leaves those of its first block. The reducer fails only when
  the user sorts or filters while no tip is active.\<close>

lemma live_page_view:
  assumes "\<And>xs a. lv_lastItem env xs = Some a \<Longrightarrow> a \<in> set xs"
    and "reduce_all (liveReducer env) (liveInitialState (lv_isDesktop env)) as = Inr s"
    and "NODES_LIVE_GET_NODES_SUCCESS None \<notin> set as" and "act \<noteq> NODES_LIVE_GET_NODES_SUCCESS None"
  shows "(\<forall>a. nls_activeNode s = Some a \<longrightarrow> a \<in> set (nls_nodes s) \<and>
      nls_filteredEvents s = filterEvents (lv_sort env (nl_events a) (nls_sort s)) (nls_filters s))
    \<and> filterEvents (getEvents dt node) [''best tip''] =
        (case nn_blocks node of [] \<Rightarrow> [] | b # _ \<Rightarrow> blockEvents dt True b)
    \<and> ((\<exists>e. liveReducer env s act = Inl e) \<longleftrightarrow>
        nls_activeNode s = None \<and> act \<in> range NODES_LIVE_SORT_EVENTS \<union> range NODES_LIVE_TOGGLE_FILTER)"
proof (intro conjI)
  have "live_view env (liveInitialState (lv_isDesktop env))" by (simp add: live_view_def liveInitialState_def)
  from live_view_run [OF assms(1) this assms(3,2)]
  show "\<forall>a. nls_activeNode s = Some a \<longrightarrow> a \<in> set (nls_nodes s) \<and>
      nls_filteredEvents s = filterEvents (lv_sort env (nl_events a) (nls_sort s)) (nls_filters s)"
    by (simp add: live_view_def shownEvents_def sortEvents_def)
  show "(\<exists>e. liveReducer env s act = Inl e) \<longleftrightarrow>
      nls_activeNode s = None \<and> act \<in> range NODES_LIVE_SORT_EVENTS \<union> range NODES_LIVE_TOGGLE_FILTER"
    using assms(4) by (cases "(env, s, act)" rule: liveReducer.cases)
      (auto simp: Let_def split: option.splits)
qed (rule best_tip_events)

definition sample_live_env :: live_env where
  "sample_live_env = \<lparr>lv_sort = (\<lambda>xs _. xs), lv_toggleItem = (\<lambda>xs x. x # xs),
     lv_lastItem = (\<lambda>xs. if xs = [] then None else Some (last xs)), lv_onObject = (\<lambda>_. Inl TypeError), lv_isDesktop = True\<rparr>"

lemma live_page_view_witness:
  "\<exists>e. liveReducer sample_live_env ((liveInitialState True)\<lparr>nls_openSidePanel := False\<rparr>) (NODES_LIVE_TOGGLE_FILTER ''best tip'') = Inl e"
proof -
  have l: "lv_lastItem sample_live_env xs = Some a \<Longrightarrow> a \<in> set xs" for xs a
    by (auto simp: sample_live_env_def split: if_splits)
  have r: "reduce_all (liveReducer sample_live_env) (liveInitialState (lv_isDesktop sample_live_env))
      [NODES_LIVE_TOGGLE_SIDE_PANEL] = Inr ((liveInitialState True)\<lparr>nls_openSidePanel := False\<rparr>)"
    by (simp add: sample_live_env_def liveInitialState_def)
  show ?thesis
    using live_page_view [OF l r, of "NODES_LIVE_TOGGLE_FILTER ''best tip''"] by (simp add: liveInitialState_def)
qed

section \<open>Bootstrap statistics\<close>

lemma foldl_sum: "foldl (\<lambda>sum d. sum + or_zero d) a ds = a + sum_list (map or_zero ds)"
  by (induction ds arbitrary: a) simp_all

lemma foldl_min_in: "foldl min (x :: int) xs \<in> insert x (set xs) \<and> (\<forall>y \<in> insert x (set xs). foldl min x xs \<le> y)"
proof (induction xs arbitrary: x)
  case (Cons z zs)
  from Cons.IH [of "min x z"] show ?case by (auto simp: min_def split: if_splits)
qed simp

lemma foldr_max_ge: "x \<in> set xs \<Longrightarrow> x \<le> foldr max xs (a :: int)"
  by (induction xs) (auto simp: max_def)

lemma sum_list_bounds:
  "(\<And>x. x \<in> set xs \<Longrightarrow> lo \<le> x \<and> x \<le> hi) \<Longrightarrow>
   int (length xs) * lo \<le> sum_list xs \<and> sum_list xs \<le> int (length xs) * hi"
  by (induction xs) (auto simp: algebra_simps, fastforce+)

lemma durations_bounds:
  assumes "\<And>d. d \<in> set ds \<Longrightarrow> 0 \<le> or_zero d"
  shows "0 \<le> durationsMin ds \<and> of_int (durationsMin ds) \<le> durationsAvg ds \<and> durationsAvg ds \<le> of_int (durationsMax ds)"
proof (cases ds)
  case Nil
  then show ?thesis by (simp add: durationsMin_def durationsAvg_def durationsMax_def)
next
  case (Cons d rest)
  let ?xs = "map or_zero ds" and ?n = "rat_of_nat (length ds)"
  have mn: "durationsMin ds \<in> set ?xs" "\<And>x. x \<in> set ?xs \<Longrightarrow> durationsMin ds \<le> x"
    using foldl_min_in [of "or_zero d" "map or_zero rest"] by (auto simp: durationsMin_def Cons)
  have mx: "x \<le> durationsMax ds" if "x \<in> set ?xs" for x
    using foldr_max_ge [OF that] by (simp add: durationsMax_def)
  have "int (length ds) * durationsMin ds \<le> sum_list ?xs \<and> sum_list ?xs \<le> int (length ds) * durationsMax ds"
    using sum_list_bounds [of ?xs "durationsMin ds" "durationsMax ds"] mn(2) mx by simp
  then have "rat_of_int (int (length ds) * durationsMin ds) \<le> of_int (sum_list ?xs)"
    "of_int (sum_list ?xs) \<le> rat_of_int (int (length ds) * durationsMax ds)"
    by (simp_all only: of_int_le_iff)
  moreover have "durationsAvg ds = of_int (sum_list ?xs) / ?n" "0 < ?n"
    by (simp_all add: durationsAvg_def foldl_sum Cons)
  moreover have "0 \<le> durationsMin ds" using mn(1) assms by auto
  ultimately show ?thesis by (simp add: pos_le_divide_eq pos_divide_le_eq mult.commute)
qed

lemma getDuration_nonneg:
  assumes "getDuration s e = Some d" and "\<And>s' e'. s = Some s' \<Longrightarrow> e = Some e' \<Longrightarrow> s' \<le> e'"
  shows "0 \<le> d"
  using getDuration_bounds [OF assms(1)] assms(2) by fastforce

text \<open>Blocks whose times do not run backwards.\<close>

definition times_forward :: "sync_block \<Rightarrow> bool" where
  "times_forward b \<longleftrightarrow>
     (\<forall>s e. sb_fetch_start b = Some s \<longrightarrow> sb_fetch_end b = Some e \<longrightarrow> s \<le> e) \<and>
     (\<forall>s e. sb_apply_start b = Some s \<longrightarrow> sb_apply_end b = Some e \<longrightarrow> s \<le> e)"

lemma markBestTip_durations:
  "b \<in> set (markBestTip (map mapTipBlock bs)) \<Longrightarrow>
   \<exists>c \<in> set bs. nb_applyDuration b = getDuration (sb_apply_start c) (sb_apply_end c) \<and>
     nb_fetchDuration b = getDuration (sb_fetch_start c) (sb_fetch_end c)"
  by (cases bs) (auto simp: markBestTip_def mapTipBlock_def)

lemma tip_durations_nonneg:
  assumes "list_all times_forward (tp_blocks tip)" and "b \<in> set (nn_blocks (mapNodeTip dt hv now d name tip))"
  shows "0 \<le> or_zero (nb_applyDuration b) \<and> 0 \<le> or_zero (nb_fetchDuration b)"
proof -
  obtain c where "c \<in> set (tp_blocks tip)"
    and d: "nb_applyDuration b = getDuration (sb_apply_start c) (sb_apply_end c)"
      "nb_fetchDuration b = getDuration (sb_fetch_start c) (sb_fetch_end c)"
    using assms(2) markBestTip_durations by (auto simp: mapNodeTip_def)
  then have "times_forward c" using assms(1) by (auto simp: list_all_iff)
  then show ?thesis unfolding d
    by (auto simp: or_zero_def times_forward_def split: option.splits dest!: getDuration_nonneg)
qed

text \<open>The statistics of the bootstrap page are consistent. When the times of the blocks do not run
  backwards, then for the applied and for the fetched blocks of every row the smallest duration is at
  least zero and at most the average, which is at most the largest; a row counts at most its blocks, its
  index is its position, and its height is that of its first block.\<close>

lemma bootstrap_statistics:
  assumes "list_all (\<lambda>tip. list_all times_forward (tp_blocks tip)) tips"
    and "rows = getBootstrapNodeTips hv (getNodeTips dt hv' now name (Inr (tips, details)))" and "i < length rows"
  shows "0 \<le> bn_appliedBlocksMin (rows ! i)
    \<and> of_int (bn_appliedBlocksMin (rows ! i)) \<le> bn_appliedBlocksAvg (rows ! i)
    \<and> bn_appliedBlocksAvg (rows ! i) \<le> of_int (bn_appliedBlocksMax (rows ! i))
    \<and> 0 \<le> bn_fetchedBlocksMin (rows ! i)
    \<and> of_int (bn_fetchedBlocksMin (rows ! i)) \<le> bn_fetchedBlocksAvg (rows ! i)
    \<and> bn_fetchedBlocksAvg (rows ! i) \<le> of_int (bn_fetchedBlocksMax (rows ! i))
    \<and> nn_appliedBlocks (rows ! i) + nn_fetchedBlocks (rows ! i) \<le> length (nn_blocks (rows ! i))
    \<and> bn_index (rows ! i) = i
    \<and> nn_height (rows ! i) = map_option nb_height (first_of (nn_blocks (rows ! i)))"
proof -
  define shown where "shown = filter (\<lambda>n. nn_kind n \<noteq> kind_string OFFLINE) (getNodeTips dt hv' now name (Inr (tips, details)))"
  have row: "rows ! i = bootstrapNode hv i (shown ! i)" and i: "i < length shown"
    using assms(2,3) by (simp_all add: getBootstrapNodeTips_def shown_def Let_def)
  have "shown ! i \<in> set (getNodeTips dt hv' now name (Inr (tips, details)))" "nn_kind (shown ! i) \<noteq> kind_string OFFLINE"
    using nth_mem [OF i] by (auto simp: shown_def)
  then obtain tip where tip: "tip \<in> set tips" "shown ! i = mapNodeTip dt hv' now (Some details) name tip"
    by (auto simp: getNodeTips_def mapNodeTipsResponse_def mapNodeTipsErrorResponse_def split: if_splits)
  then have nonneg: "0 \<le> or_zero (nb_applyDuration b) \<and> 0 \<le> or_zero (nb_fetchDuration b)"
    if "b \<in> set (nn_blocks (shown ! i))" for b
    using assms(1) tip_durations_nonneg that by (auto simp: list_all_iff)
  have counts: "length (filter (\<lambda>b. nb_status b = status_string APPLIED \<and> P b) bs) +
      length (filter (\<lambda>b. nb_status b = status_string FETCHED \<and> Q b) bs) \<le> length bs" for P Q and bs :: "NodesOverviewBlock list"
    by (induction bs) (auto simp del: status_string.simps)
  define applied where "applied = map nb_applyDuration (filter (\<lambda>b. nb_status b = status_string APPLIED \<and> hv (nb_applyStart b)) (nn_blocks (shown ! i)))"
  define fetched where "fetched = map nb_fetchDuration (filter (\<lambda>b. nb_status b = status_string FETCHED \<and> hv (nb_fetchStart b)) (nn_blocks (shown ! i)))"
  have "\<And>d. d \<in> set applied \<Longrightarrow> 0 \<le> or_zero d" "\<And>d. d \<in> set fetched \<Longrightarrow> 0 \<le> or_zero d"
    using nonneg by (auto simp: applied_def fetched_def)
  note durations_bounds [of applied, OF this(1)] durations_bounds [of fetched, OF this(2)]
  then show ?thesis
    unfolding row using counts [of "\<lambda>b. hv (nb_applyStart b)" "nn_blocks (shown ! i)" "\<lambda>b. hv (nb_fetchStart b)"]
    by (simp add: bootstrapNode_def Let_def NodesOverviewNode.defs NodesBootstrapNode.defs
        applied_def fetched_def del: status_string.simps)
qed

definition sample_tip :: sync_tip where
  "sample_tip = \<lparr>tp_kind = ''Synced'', tp_best_tip_received = 0, tp_synced = None,
     tp_ledgers = \<lparr>sls_staking_epoch = None, sls_next_epoch = None, sls_root = None\<rparr>,
     tp_blocks = [\<lparr>sb_global_slot = 7, sb_height = 5, sb_hash = ''h'', sb_pred_hash = ''g'', sb_status = ''Applied'',
       sb_fetch_start = None, sb_fetch_end = None, sb_apply_start = Some 1, sb_apply_end = Some 2000000001\<rparr>]\<rparr>"

definition sample_details :: NodeDetailsResponse where
  "sample_details = \<lparr>nd_best_tip = None, nd_sync = \<lparr>sy_time = None, sy_status = ''x'', sy_target = JNull, sy_phase = ''Synced''\<rparr>,
     nd_transactions = 0, nd_peers = [], nd_total_jobs = 0, nd_snarks = 0, nd_chain_id = None,
     nd_current_attempt = None, nd_previous_attempt = None\<rparr>"

lemma bootstrap_statistics_witness:
  "let rows = getBootstrapNodeTips (\<lambda>x. x \<noteq> None) (getNodeTips (\<lambda>_. []) (\<lambda>x. x \<noteq> None) 0 ''n'' (Inr ([sample_tip], sample_details)))
   in length rows = 1 \<and> bn_index (rows ! 0) = 0 \<and> bn_appliedBlocksAvg (rows ! 0) \<le> of_int (bn_appliedBlocksMax (rows ! 0))"
proof -
  define rows where
    "rows = getBootstrapNodeTips (\<lambda>x. x \<noteq> None) (getNodeTips (\<lambda>_. []) (\<lambda>x. x \<noteq> None) 0 ''n'' (Inr ([sample_tip], sample_details)))"
  have l: "length rows = 1"
    by (simp add: rows_def getBootstrapNodeTips_def getNodeTips_def mapNodeTipsResponse_def mapNodeTip_def sample_details_def)
  have "list_all (\<lambda>tip. list_all times_forward (tp_blocks tip)) [sample_tip]"
    by (simp add: sample_tip_def times_forward_def)
  from bootstrap_statistics [OF this rows_def, of 0] l show ?thesis
    unfolding rows_def [symmetric] Let_def by simp
qed

end
