(* ===== verification/Dashboard.thy ===== *)
theory Dashboard
  imports Nodes_Tips Store_Reducer
begin

text \<open>
  The dashboard (\<open>features/dashboard\<close>): the peers of the active node with the requests each has
  answered, the synchronisation state of the node (\<^const>\<open>mapNodeTipsResponse\<close>) and the progress of the
  ledger downloads. The two components \<open>dashboard-ledger\<close> and \<open>dashboard-blocks-sync\<close> compute percentages and
  remaining times from that state, and their computations are modelled here as well; their drawing is not.

  \<open>sort\<close>, \<open>lastItem\<close>, \<open>toReadableDate\<close> and \<open>hasValue\<close> of the shared package are parameters.
\<close>

section \<open>Data\<close>

record DashboardPeer =
  dp_peerId :: string
  dp_status :: string
  dp_datetime :: string
  dp_timestamp :: int
  dp_address :: "string option"
  dp_bestTip :: "string option"
  dp_globalSlot :: "int option"
  dp_bestTipTimestamp :: "int option"
  dp_bestTipDatetime :: string
  dp_height :: "int option"
  dp_requests :: nat

datatype DashboardPeerStatus = Peer_CONNECTED | Peer_CONNECTING | Peer_DISCONNECTED

fun peer_status_string :: "DashboardPeerStatus \<Rightarrow> string" where
  "peer_status_string Peer_CONNECTED = ''Connected''"
| "peer_status_string Peer_CONNECTING = ''Connecting''"
| "peer_status_string Peer_DISCONNECTED = ''Disconnected''"

record DashboardPeersStats =
  ps_connected :: nat
  ps_connecting :: nat
  ps_disconnected :: nat

record DashboardLedgerStepStats =
  lst_fetched :: "nat option"
  lst_estimation :: "nat option"

record DashboardPeerRpcResponses =
  rr_peerId :: string
  rr_requestsMade :: nat

record DashboardRpcStats =
  rs_peerResponses :: "DashboardPeerRpcResponses list"
  rs_stakingLedger :: "DashboardLedgerStepStats option"
  rs_nextLedger :: "DashboardLedgerStepStats option"
  rs_snarkedRootLedger :: "DashboardLedgerStepStats option"
  rs_stagedRootLedger :: "DashboardLedgerStepStats option"

text \<open>The fields of the state that the reducer never changes from zero are left out of the record.\<close>

record DashboardState =
  ds_peers :: "DashboardPeer list"
  ds_peersStats :: DashboardPeersStats
  ds_peersSort :: tableSort
  ds_nodes :: "NodesOverviewNode list"
  ds_rpcStats :: DashboardRpcStats

record dashboardPayload =
  dpl_peers :: "DashboardPeer list"
  dpl_ledger :: "NodesOverviewNode list"
  dpl_rpcStats :: DashboardRpcStats

datatype DashboardActions =
    DASHBOARD_INIT
  | DASHBOARD_GET_DATA bool
  | DASHBOARD_GET_DATA_SUCCESS dashboardPayload
  | DASHBOARD_GET_PEERS
  | DASHBOARD_GET_PEERS_SUCCESS "DashboardPeer list"
  | DASHBOARD_PEERS_SORT tableSort
  | DASHBOARD_CLOSE

section \<open>Service\<close>

record PeersResponse =
  pe_peer_id :: string
  pe_best_tip :: "string option"
  pe_time :: int
  pe_best_tip_height :: "int option"
  pe_best_tip_global_slot :: "int option"
  pe_best_tip_timestamp :: "int option"
  pe_connection_status :: string
  pe_address :: "string option"

definition getPeers :: "(rat \<Rightarrow> string) \<Rightarrow> PeersResponse list \<Rightarrow> DashboardPeer list" where
  "getPeers toReadableDate response = map (\<lambda>peer.
     \<lparr>dp_peerId = pe_peer_id peer, dp_status = pe_connection_status peer,
      dp_datetime = toReadableDate (of_int (pe_time peer) / 1000000), dp_timestamp = pe_time peer,
      dp_address = pe_address peer, dp_bestTip = pe_best_tip peer, dp_globalSlot = pe_best_tip_global_slot peer,
      dp_bestTipTimestamp = pe_best_tip_timestamp peer,
      dp_bestTipDatetime = (case pe_best_tip_timestamp peer of
          None \<Rightarrow> ''-''
        | Some t \<Rightarrow> if t = 0 then ''-'' else toReadableDate (of_int t / 1000000)),
      dp_height = pe_best_tip_height peer, dp_requests = 0\<rparr>) response"

definition getTips ::
  "(rat \<Rightarrow> string) \<Rightarrow> (int option \<Rightarrow> bool) \<Rightarrow> int \<Rightarrow> string \<Rightarrow> http_error + sync_tip list \<Rightarrow> NodesOverviewNode list" where
  "getTips toReadableDate hasValue now name response =
     (case response of
        Inl e \<Rightarrow> mapNodeTipsErrorResponse now name
      | Inr tips \<Rightarrow>
          (case mapNodeTipsResponse toReadableDate hasValue now tips None name of
             Inl e \<Rightarrow> mapNodeTipsErrorResponse now name
           | Inr nodes \<Rightarrow> nodes))"

text \<open>The response of \<open>/state/message-progress\<close>: per peer the number of answers of each kind.\<close>

record MessageProgressResponse =
  mp_messages_stats :: "(string \<times> (string \<times> nat) list) list"
  mp_staking_ledger_sync :: "DashboardLedgerStepStats option"
  mp_next_epoch_ledger_sync :: "DashboardLedgerStepStats option"
  mp_root_ledger_sync :: "(DashboardLedgerStepStats \<times> (nat \<times> nat) option) option"

definition mapMessageProgressResponse :: "MessageProgressResponse \<Rightarrow> DashboardRpcStats" where
  "mapMessageProgressResponse progress =
     (let stagedPart = Option.bind (mp_root_ledger_sync progress) snd
      in \<lparr>rs_peerResponses = map (\<lambda>(peerId, responses).
            \<lparr>rr_peerId = peerId, rr_requestsMade = foldl (\<lambda>sum curr. sum + snd curr) 0 responses\<rparr>)
            (mp_messages_stats progress),
          rs_stakingLedger = mp_staking_ledger_sync progress,
          rs_nextLedger = mp_next_epoch_ledger_sync progress,
          rs_snarkedRootLedger = map_option fst (mp_root_ledger_sync progress),
          rs_stagedRootLedger = Some \<lparr>lst_fetched = map_option fst stagedPart, lst_estimation = map_option snd stagedPart\<rparr>\<rparr>)"

section \<open>Reducer\<close>

definition no_rpcStats :: DashboardRpcStats where
  "no_rpcStats = \<lparr>rs_peerResponses = [], rs_stakingLedger = None, rs_nextLedger = None, rs_snarkedRootLedger = None,
     rs_stagedRootLedger = None\<rparr>"

definition dashboardInitialState :: DashboardState where
  "dashboardInitialState =
     \<lparr>ds_peers = [], ds_peersStats = \<lparr>ps_connected = 0, ps_connecting = 0, ps_disconnected = 0\<rparr>,
      ds_peersSort = \<lparr>sortBy = ''height'', sortDirection = DSC\<rparr>, ds_nodes = [], ds_rpcStats = no_rpcStats\<rparr>"

definition sortPeers :: "DashboardPeer sorter \<Rightarrow> DashboardPeer list \<Rightarrow> tableSort \<Rightarrow> DashboardPeer list" where
  "sortPeers srt node ts = srt node ts"

definition peersStatsOf :: "DashboardPeer list \<Rightarrow> DashboardPeersStats" where
  "peersStatsOf peers =
     (let with = (\<lambda>st. length (filter (\<lambda>p. dp_status p = peer_status_string st) peers))
      in \<lparr>ps_connected = with Peer_CONNECTED, ps_connecting = with Peer_CONNECTING,
          ps_disconnected = with Peer_DISCONNECTED\<rparr>)"

definition requestsOf :: "DashboardRpcStats \<Rightarrow> string \<Rightarrow> nat" where
  "requestsOf rpc peerId =
     (case List.find (\<lambda>r. rr_peerId r = peerId) (rs_peerResponses rpc) of
        None \<Rightarrow> 0 | Some r \<Rightarrow> rr_requestsMade r)"

fun dashboardReducer :: "DashboardPeer sorter \<Rightarrow> DashboardState \<Rightarrow> DashboardActions \<Rightarrow> DashboardState" where
  "dashboardReducer srt state (DASHBOARD_GET_DATA force) =
     (if force then dashboardInitialState\<lparr>ds_peersSort := ds_peersSort state\<rparr> else state)"
| "dashboardReducer srt state (DASHBOARD_PEERS_SORT payload) =
     state\<lparr>ds_peersSort := payload, ds_peers := sortPeers srt (ds_peers state) payload\<rparr>"
| "dashboardReducer srt state (DASHBOARD_GET_DATA_SUCCESS payload) =
     (let peers = sortPeers srt
          (map (\<lambda>p. p\<lparr>dp_requests := requestsOf (dpl_rpcStats payload) (dp_peerId p)\<rparr>) (dpl_peers payload))
          (ds_peersSort state)
      in state\<lparr>ds_peers := peers, ds_peersStats := peersStatsOf peers, ds_nodes := dpl_ledger payload,
           ds_rpcStats := dpl_rpcStats payload\<rparr>)"
| "dashboardReducer srt state DASHBOARD_CLOSE = dashboardInitialState"
| "dashboardReducer srt state _ = state"

section \<open>Effects\<close>

definition dashboardInit_effect :: "DashboardActions \<Rightarrow> DashboardActions option" where
  "dashboardInit_effect action = (case action of DASHBOARD_INIT \<Rightarrow> Some (DASHBOARD_GET_DATA False) | _ \<Rightarrow> None)"

text \<open>\<open>getData$\<close>: the three requests answer together. No component dispatches the close action. Reading the address of an absent active node throws in
  \<open>switchMap\<close>, which is the request \<open>None\<close> that can only fail.\<close>

definition dashboardGetData_effect ::
  "string \<Rightarrow> (bool, DashboardActions \<times> MinaNode option, MinaNode option,
     DashboardPeer list \<times> NodesOverviewNode list \<times> DashboardRpcStats, DashboardActions dispatched) effect" where
  "dashboardGetData_effect now =
     \<lparr>on_action = (\<lambda>(action, activeNode) pendingRequest. case action of
          DASHBOARD_GET_DATA force \<Rightarrow>
            if force \<or> \<not> pendingRequest then (True, Switch_request activeNode) else (pendingRequest, Filtered)
        | DASHBOARD_CLOSE \<Rightarrow> if \<not> pendingRequest then (pendingRequest, Switch_empty) else (pendingRequest, Filtered)
        | _ \<Rightarrow> (pendingRequest, Filtered)),
      on_value = (\<lambda>_ (peers, ledger, rpcStats) _. (False, [Dispatch (DASHBOARD_GET_DATA_SUCCESS
        \<lparr>dpl_peers = peers, dpl_ledger = ledger, dpl_rpcStats = rpcStats\<rparr>)])),
      on_error = (\<lambda>e _. (False, catchErrorAndRepeat now GENERIC (DASHBOARD_GET_DATA_SUCCESS
        \<lparr>dpl_peers = [], dpl_ledger = [], dpl_rpcStats = no_rpcStats\<rparr>) e))\<rparr>"

interpretation dashboard_flag: request_flag "dashboardGetData_effect now" id
  by unfold_locales (auto simp: dashboardGetData_effect_def split: DashboardActions.splits if_splits prod.splits)

interpretation dashboard_close: drops_close "dashboardGetData_effect now" id "\<lambda>(a, _). a = DASHBOARD_CLOSE"
  by unfold_locales (auto simp: dashboardGetData_effect_def)

section \<open>Progress of the ledgers\<close>

text \<open>A percentage; \<open>None\<close> is \<open>Infinity\<close>, the quotient of a positive number by zero.\<close>

type_synonym percentage = "rat option"

definition stepProgress :: "DashboardLedgerStepStats option \<Rightarrow> percentage" where
  "stepProgress stats =
     (case (Option.bind stats lst_fetched, Option.bind stats lst_estimation) of
        (Some f, Some e) \<Rightarrow> if e \<noteq> 0 then Some (of_nat f / of_nat e * 100) else if f = 0 then Some 0 else None
      | _ \<Rightarrow> Some 0)"

definition percentage_add :: "percentage \<Rightarrow> percentage \<Rightarrow> percentage" where
  "percentage_add x y = (case (x, y) of (Some a, Some b) \<Rightarrow> Some (a + b) | _ \<Rightarrow> None)"

text \<open>The common part of the two functions \<open>calculateProgressTime\<close>, on a time in milliseconds.\<close>

definition agoText :: "int \<Rightarrow> string \<Rightarrow> int \<Rightarrow> string" where
  "agoText now action timestamp =
     (let minutesAgo = (now - timestamp) div 60000;
          hoursAgo = minutesAgo div 60;
          daysAgo = hoursAgo div 24
      in if daysAgo > 0 then action @ '' '' @ show_int daysAgo @ ''d ago''
         else if hoursAgo > 0 then action @ '' '' @ show_int hoursAgo @ ''h ago''
         else if minutesAgo > 0 then action @ '' '' @ show_int minutesAgo @ ''m ago''
         else action @ '' <1m ago'')"

definition calculateProgressTime :: "int \<Rightarrow> int option \<Rightarrow> string \<Rightarrow> string" where
  "calculateProgressTime now timestamp action =
     agoText now action (case timestamp of None \<Rightarrow> 0 | Some n \<Rightarrow> \<lceil>of_int n / (1000000 :: rat)\<rceil>)"

record remainingTime =
  rem_previous :: "nat option"
  rem_seconds :: "int option"

text \<open>The estimate of the time that is left, updated when two answers in a row have something downloaded; \<open>now\<close> is
  in milliseconds and an absent start time counts as zero.\<close>

definition updateRemaining ::
  "int \<Rightarrow> int option \<Rightarrow> DashboardLedgerStepStats option \<Rightarrow> remainingTime \<Rightarrow> remainingTime" where
  "updateRemaining now start stats r =
     (let startTime = (case start of None \<Rightarrow> 0 | Some t \<Rightarrow> of_int t / (1000000 :: rat));
          current = Option.bind stats lst_fetched
      in \<lparr>rem_previous = current,
          rem_seconds = (case (rem_previous r, current, Option.bind stats lst_estimation) of
             (Some p, Some c, Some e) \<Rightarrow>
               if p \<noteq> 0 \<and> c \<noteq> 0 \<and> startTime < of_int now
               then Some \<lfloor>(of_nat e - of_nat c) / of_nat c * (of_int now - startTime) / 1000\<rfloor> else rem_seconds r
           | _ \<Rightarrow> rem_seconds r)\<rparr>)"

record ledgerView =
  lvw_ledgers :: NodesOverviewLedger
  lvw_loading :: "bool \<times> bool \<times> bool \<times> bool"
  lvw_progress :: "string option"
  lvw_staking :: percentage
  lvw_next :: percentage
  lvw_rootSnarked :: percentage
  lvw_rootStaged :: percentage
  lvw_total :: percentage
  lvw_fetchedParts :: "nat option \<times> nat"
  lvw_remainingStaking :: remainingTime
  lvw_remainingNext :: remainingTime
  lvw_remainingSnarked :: remainingTime
  lvw_remainingStaged :: remainingTime
  lvw_reconstructTimer :: bool
  lvw_reconstructRunning :: bool
  lvw_remainingReconstruct :: int

definition initialSnarked :: NodesOverviewLedgerEpochStep where
  "initialSnarked = \<lparr>le_state = Step_PENDING,
     le_snarked = \<lparr>sn_fetchHashesStart = Some 0, sn_fetchHashesEnd = Some 0, sn_fetchHashesDuration = None,
       sn_fetchHashesPassedTime = None, sn_fetchAccountsStart = Some 0, sn_fetchAccountsEnd = Some 0,
       sn_fetchAccountsDuration = None, sn_fetchAccountsPassedTime = None\<rparr>,
     le_totalTime = None\<rparr>"

definition initialStaged :: NodesOverviewRootStagedLedgerStep where
  "initialStaged = \<lparr>lr_state = Step_PENDING,
     lr_staged = \<lparr>sg_fetchPartsStart = Some 0, sg_fetchPartsEnd = Some 0, sg_fetchPartsDuration = None,
       sg_fetchPassedTime = None, sg_reconstructStart = Some 0, sg_reconstructEnd = Some 0,
       sg_reconstructDuration = None, sg_reconstructPassedTime = None\<rparr>,
     lr_totalTime = None\<rparr>"

definition initialLedgers :: NodesOverviewLedger where
  "initialLedgers = \<lparr>ld_stakingEpoch = initialSnarked, ld_nextEpoch = initialSnarked,
     ld_rootSnarked = initialSnarked, ld_rootStaged = initialStaged\<rparr>"

definition setProgressTime :: "int \<Rightarrow> NodesOverviewLedger \<Rightarrow> string option \<Rightarrow> string option" where
  "setProgressTime now ls progress =
     (if \<not> truthy_num (sn_fetchHashesStart (le_snarked (ld_stakingEpoch ls))) then progress
      else if lr_state (ld_rootStaged ls) = Step_SUCCESS
      then Some (calculateProgressTime now (sg_reconstructEnd (lr_staged (ld_rootStaged ls))) ''finished'')
      else Some (calculateProgressTime now (sn_fetchHashesStart (le_snarked (ld_stakingEpoch ls))) ''started''))"

definition doneOr :: "NodesOverviewLedgerStepState \<Rightarrow> percentage \<Rightarrow> percentage" where
  "doneOr st p = (if st = Step_SUCCESS then Some 100 else p)"

definition stagedProgress :: "NodesOverviewStagedLedgerStep \<Rightarrow> rat" where
  "stagedProgress sg = (if truthy_num (sg_fetchPartsEnd sg) then 50 else 0) +
     (if truthy_num (sg_reconstructEnd sg) then 50 else 0)"

text \<open>The handler of \<open>listenToNodesChanges\<close> in \<open>dashboard-ledger\<close>.\<close>

definition ledgerViewStep :: "bool \<Rightarrow> int \<Rightarrow> NodesOverviewNode list \<Rightarrow> DashboardRpcStats \<Rightarrow> ledgerView \<Rightarrow> ledgerView" where
  "ledgerViewStep isWebNode now nodes rpc v =
     (case nodes of
        [] \<Rightarrow> v\<lparr>lvw_ledgers := initialLedgers, lvw_loading := (False, False, False, False), lvw_progress := None,
          lvw_staking := Some 0, lvw_next := Some 0, lvw_rootSnarked := Some 0, lvw_rootStaged := Some 0,
          lvw_total := Some 0, lvw_fetchedParts := (Some 0, 0)\<rparr>
      | node # _ \<Rightarrow>
          (let ls = nn_ledgers node;
               loading = (\<lambda>st. st = Step_LOADING);
               staged = lr_staged (ld_rootStaged ls);
               partial = stagedProgress staged;
               startTimer = (partial < 100 \<and> isWebNode \<and> truthy_num (sg_fetchPartsEnd staged) \<and> \<not> lvw_reconstructTimer v);
               staking = doneOr (le_state (ld_stakingEpoch ls)) (stepProgress (rs_stakingLedger rpc));
               nxt = doneOr (le_state (ld_nextEpoch ls)) (stepProgress (rs_nextLedger rpc));
               rootSnarked = doneOr (le_state (ld_rootSnarked ls)) (stepProgress (rs_snarkedRootLedger rpc));
               rootStaged = doneOr (lr_state (ld_rootStaged ls)) (Some partial);
               total = percentage_add (percentage_add (percentage_add staking nxt) rootSnarked) rootStaged
           in v\<lparr>lvw_ledgers := ls,
                lvw_loading := (loading (le_state (ld_stakingEpoch ls)), loading (le_state (ld_nextEpoch ls)),
                  loading (le_state (ld_rootSnarked ls)), loading (lr_state (ld_rootStaged ls))),
                lvw_progress := setProgressTime now ls (lvw_progress v),
                lvw_staking := staking, lvw_next := nxt, lvw_rootSnarked := rootSnarked, lvw_rootStaged := rootStaged,
                lvw_total := map_option (\<lambda>t. t / 4) total,
                lvw_fetchedParts := (case Option.bind (rs_stagedRootLedger rpc) lst_estimation of
                    Some e \<Rightarrow> if e \<noteq> 0 then (Option.bind (rs_stagedRootLedger rpc) lst_fetched, e) else lvw_fetchedParts v
                  | None \<Rightarrow> lvw_fetchedParts v),
                lvw_remainingStaking := updateRemaining now (sn_fetchHashesStart (le_snarked (ld_stakingEpoch ls)))
                  (rs_stakingLedger rpc) (lvw_remainingStaking v),
                lvw_remainingNext := updateRemaining now (sn_fetchHashesStart (le_snarked (ld_nextEpoch ls)))
                  (rs_nextLedger rpc) (lvw_remainingNext v),
                lvw_remainingSnarked := updateRemaining now (sn_fetchHashesStart (le_snarked (ld_rootSnarked ls)))
                  (rs_snarkedRootLedger rpc) (lvw_remainingSnarked v),
                lvw_remainingStaged := (if isWebNode
                  then updateRemaining now (sg_fetchPartsStart staged) (rs_stagedRootLedger rpc) (lvw_remainingStaged v)
                  else lvw_remainingStaged v),
                lvw_reconstructTimer := (startTimer \<or> lvw_reconstructTimer v),
                lvw_reconstructRunning :=
                  (if startTimer then True else if partial = 100 then False else lvw_reconstructRunning v)\<rparr>))"

text \<open>The countdown of \<open>startTimerForReconstruct\<close>: one tick of the interval, with the number that
  \<open>Math.floor(Math.random() * 2)\<close> gives; the interval is cleared when the countdown meets that number plus two.
  The field \<open>reconstructTimer\<close> keeps the identifier of a cleared interval.\<close>

definition reconstructTick :: "ledgerView \<Rightarrow> nat \<Rightarrow> ledgerView" where
  "reconstructTick v r =
     (if \<not> lvw_reconstructRunning v then v
      else v\<lparr>lvw_remainingReconstruct := lvw_remainingReconstruct v - 1,
             lvw_reconstructRunning := (lvw_remainingReconstruct v - 1 \<noteq> int r + 2)\<rparr>)"

section \<open>Synchronisation of the blocks\<close>

definition syncProgressTime :: "int \<Rightarrow> rat option \<Rightarrow> string" where
  "syncProgressTime now timestamp =
     (case timestamp of
        None \<Rightarrow> ''Pending''
      | Some t \<Rightarrow> if t = 0 then ''Pending''
          else agoText now ''Synced'' \<lceil>t / 1000000\<rceil>)"

record blocksSyncView =
  bs_fetched :: "nat option"
  bs_fetchedPercentage :: string
  bs_applied :: "nat option"
  bs_appliedPercentage :: "nat option"
  bs_root :: "int option"
  bs_rootText :: string
  bs_bestTipBlock :: "int option"
  bs_bestTipBlockSyncedText :: string
  bs_targetBlock :: "int option"
  bs_syncProgress :: "string option"
  bs_remaining :: "int option"
  bs_lengthWithoutRoot :: "nat option"

definition extractPeersData :: "DashboardPeer list \<Rightarrow> int" where
  "extractPeersData peers =
     foldl (\<lambda>acc p. case dp_height p of None \<Rightarrow> acc | Some h \<Rightarrow> if h > acc then h else acc) 0 peers"

definition syncPercentage :: "nat \<Rightarrow> nat \<Rightarrow> nat" where
  "syncPercentage n len = n * 100 div (if len = 0 then 100 else len)"

text \<open>The time that is left until 291 blocks are applied. \<open>Infinity\<close> as start (no block has one) makes the
  speed zero or less.\<close>

definition remainingBlocks :: "int \<Rightarrow> NodesOverviewBlock list \<Rightarrow> int option \<Rightarrow> int option" where
  "remainingBlocks now blocks old =
     (let blocksFetched = length (filter (\<lambda>b. truthy_num (nb_fetchEnd b)) blocks);
          blocksApplied = length (filter (\<lambda>b. truthy_num (nb_applyEnd b)) blocks);
          starts = concat (map (\<lambda>b. case nb_fetchStart b of None \<Rightarrow> [] | Some t \<Rightarrow> if t = 0 then [] else [t]) blocks);
          total = blocksFetched + blocksApplied * 5
      in if blocksApplied < 291
         then (case starts of
                 [] \<Rightarrow> old
               | t # ts \<Rightarrow>
                   (let seconds = (of_int now - of_int (foldl min t ts) / 1000000) / (1000 :: rat)
                    in if total = 0 \<or> seconds < 0 then old
                       else if seconds = 0 then Some 0
                       else Some \<lceil>(of_int (291 * 6 - int total)) / (of_nat total / seconds)\<rceil>))
         else None)"

text \<open>\<open>slice(n)\<close> of a string is \<^const>\<open>drop\<close>. The functions read the last block through \<open>lastItem\<close>.\<close>

definition extractNodesData ::
  "(NodesOverviewBlock list \<Rightarrow> NodesOverviewBlock option) \<Rightarrow> int \<Rightarrow> NodesOverviewNode \<Rightarrow> blocksSyncView
     \<Rightarrow> js_error + blocksSyncView" where
  "extractNodesData lastItem now node v =
     (let blocks = nn_blocks node;
          tip = (case blocks of
             [] \<Rightarrow> Inr v
           | b # _ \<Rightarrow>
               (case lastItem blocks of
                  None \<Rightarrow> Inl TypeError
                | Some l \<Rightarrow>
                    (let text = ''Fetched '' @ drop 7 (syncProgressTime now (Some (nn_bestTipReceivedTimestamp node * 1000000)))
                     in Inr (v\<lparr>bs_bestTipBlock := Some (nb_height b), bs_bestTipBlockSyncedText := text,
                          bs_syncProgress := Some (if nb_status l \<noteq> status_string APPLIED then ''Pending'' else drop 8 text)\<rparr>))));
          rest = drop 1 blocks;
          fetched = length (filter (\<lambda>b. nb_status b \<notin> {status_string MISSING, status_string FETCHING}) rest);
          applied = length (filter (\<lambda>b. nb_status b = status_string APPLIED) rest);
          counts = (\<lambda>w. w\<lparr>bs_lengthWithoutRoot := Some (length rest), bs_fetched := Some fetched, bs_applied := Some applied,
            bs_fetchedPercentage := dec (syncPercentage fetched (length rest)) @ ''%'',
            bs_appliedPercentage := Some (syncPercentage applied (length rest))\<rparr>)
      in case tip of
           Inl e \<Rightarrow> Inl e
         | Inr w \<Rightarrow>
             if length blocks = 291
             then (case (lastItem blocks, blocks) of
                     (Some l, b # _) \<Rightarrow>
                       Inr (counts (w\<lparr>bs_root := Some (nb_height l),
                         bs_rootText := syncProgressTime now (map_option of_int (nb_applyEnd l)),
                         bs_bestTipBlockSyncedText := (if nb_status b = status_string APPLIED
                           then ''Synced'' @ '' '' @ drop 7 (bs_bestTipBlockSyncedText w)
                           else bs_bestTipBlockSyncedText w)\<rparr>))
                   | _ \<Rightarrow> Inl TypeError)
             else Inr (counts (w\<lparr>bs_root := None, bs_rootText := ''Pending''\<rparr>)))"

text \<open>The handler of \<open>listenToNodesChanges\<close> in \<open>dashboard-blocks-sync\<close>, and the action it dispatches.\<close>

definition blocksSyncStep ::
  "(NodesOverviewBlock list \<Rightarrow> NodesOverviewBlock option) \<Rightarrow> int \<Rightarrow> NodesOverviewNode list \<Rightarrow> DashboardPeer list
     \<Rightarrow> blocksSyncView \<Rightarrow> js_error + blocksSyncView \<times> AppActions list" where
  "blocksSyncStep lastItem now nodes peers v =
     (case nodes of
        [] \<Rightarrow> Inr (v\<lparr>bs_fetched := None, bs_fetchedPercentage := ''-'', bs_applied := None, bs_appliedPercentage := None,
          bs_root := None, bs_rootText := ''Pending'', bs_bestTipBlock := None, bs_bestTipBlockSyncedText := ''Pending'',
          bs_targetBlock := None, bs_syncProgress := None\<rparr>, [])
      | node # _ \<Rightarrow>
          map_sum (\<lambda>e. e) (\<lambda>w. (w\<lparr>bs_targetBlock := Some (extractPeersData peers)\<rparr>,
              if bs_appliedPercentage w = Some 100 then [App_getNodeDetails] else []))
            (extractNodesData lastItem now node
              (v\<lparr>bs_remaining := remainingBlocks now (nn_blocks node) (bs_remaining v)\<rparr>)))"

section \<open>Peers\<close>

lemma peersStatsOf_mset: "mset xs = mset ys \<Longrightarrow> peersStatsOf xs = peersStatsOf ys"
  unfolding peersStatsOf_def Let_def by (metis mset_filter size_mset)

definition stats_match :: "DashboardState \<Rightarrow> bool" where
  "stats_match s \<longleftrightarrow> ds_peersStats s = peersStatsOf (ds_peers s)"

lemma dashboard_stats_inv:
  assumes "sorter_permutes srt"
  shows "total_reducer_invariant (dashboardReducer srt) dashboardInitialState stats_match"
proof
  show init: "stats_match dashboardInitialState"
    by (simp add: stats_match_def dashboardInitialState_def peersStatsOf_def)
  show "stats_match (dashboardReducer srt s a)" if "stats_match s" for s a
    using that init by (cases "(srt, s, a)" rule: dashboardReducer.cases)
      (auto simp: stats_match_def sortPeers_def Let_def intro!: peersStatsOf_mset sorter_mset [OF assms, symmetric])
qed

lemma find_map_of:
  "List.find (\<lambda>r. rr_peerId r = k) (map (\<lambda>(p, rs). \<lparr>rr_peerId = p, rr_requestsMade = f rs\<rparr>) xs) =
   map_option (\<lambda>rs. \<lparr>rr_peerId = k, rr_requestsMade = f rs\<rparr>) (map_of xs k)"
  by (induction xs) auto

lemma foldl_snd_sum: "foldl (\<lambda>sum curr. sum + snd curr) n rs = n + sum_list (map snd rs)" for n :: nat
  by (induction rs arbitrary: n) simp_all

lemma requests_of_progress:
  "requestsOf (mapMessageProgressResponse progress) peerId =
   (case map_of (mp_messages_stats progress) peerId of None \<Rightarrow> 0 | Some rs \<Rightarrow> sum_list (map snd rs))"
  by (simp add: requestsOf_def mapMessageProgressResponse_def Let_def find_map_of foldl_snd_sum split: option.splits)

text \<open>The peers of the dashboard. Whatever actions were dispatched, the counters of connected, connecting and
  disconnected peers are those of the table. When new data arrive, the table has exactly the peers of
  the response, and each shows the sum of the answers that the message statistics list for it, or zero.\<close>

lemma dashboard_peers:
  assumes "sorter_permutes srt" and "s = foldl (dashboardReducer srt) dashboardInitialState as"
    and "s' = dashboardReducer srt s (DASHBOARD_GET_DATA_SUCCESS
       \<lparr>dpl_peers = getPeers dt peers, dpl_ledger = ledger, dpl_rpcStats = mapMessageProgressResponse progress\<rparr>)"
  shows "ds_peersStats s = peersStatsOf (ds_peers s)
    \<and> mset (map dp_peerId (ds_peers s')) = mset (map pe_peer_id peers)
    \<and> (\<forall>p \<in> set (ds_peers s'). dp_requests p =
         (case map_of (mp_messages_stats progress) (dp_peerId p) of None \<Rightarrow> 0 | Some rs \<Rightarrow> sum_list (map snd rs)))"
proof (intro conjI)
  show "ds_peersStats s = peersStatsOf (ds_peers s)"
    using total_reducer_invariant.inv_foldl [OF dashboard_stats_inv [OF assms(1)], of as]
    by (simp add: assms(2) stats_match_def)
  have m: "mset (ds_peers s') = mset (map (\<lambda>p. p\<lparr>dp_requests := requestsOf (mapMessageProgressResponse progress) (dp_peerId p)\<rparr>)
      (getPeers dt peers))" (is "_ = mset ?ps")
    by (simp add: assms(3) Let_def sortPeers_def sorter_mset [OF assms(1)])
  then have set: "set (ds_peers s') = set ?ps" by (rule mset_eq_setD)
  have ids: "mset (map dp_peerId (ds_peers s')) = mset (map dp_peerId ?ps)" by (simp only: mset_map m)
  from ids show "mset (map dp_peerId (ds_peers s')) = mset (map pe_peer_id peers)"
    by (simp add: getPeers_def comp_def flip: mset_map)
  show "\<forall>p \<in> set (ds_peers s'). dp_requests p =
         (case map_of (mp_messages_stats progress) (dp_peerId p) of None \<Rightarrow> 0 | Some rs \<Rightarrow> sum_list (map snd rs))"
    unfolding set by (auto simp: requests_of_progress)
qed

definition sample_peer :: "string \<Rightarrow> PeersResponse" where
  "sample_peer n = \<lparr>pe_peer_id = n, pe_best_tip = None, pe_time = 0, pe_best_tip_height = None, pe_best_tip_global_slot = None,
     pe_best_tip_timestamp = None, pe_connection_status = ''Connected'', pe_address = None\<rparr>"

lemma dashboard_peers_witness:
  "\<exists>s'. s' = dashboardReducer (\<lambda>xs _. xs) dashboardInitialState (DASHBOARD_GET_DATA_SUCCESS
       \<lparr>dpl_peers = getPeers (\<lambda>_. []) [sample_peer ''a''], dpl_ledger = [], dpl_rpcStats = mapMessageProgressResponse
          \<lparr>mp_messages_stats = [(''a'', [(''x'', 2), (''y'', 3)])], mp_staking_ledger_sync = None,
           mp_next_epoch_ledger_sync = None, mp_root_ledger_sync = None\<rparr>\<rparr>) \<and>
     map dp_requests (ds_peers s') = [5]"
  using dashboard_peers [of "\<lambda>xs _. xs" dashboardInitialState "[]" _ "\<lambda>_. []" "[sample_peer ''a'']" "[]"
      "\<lparr>mp_messages_stats = [(''a'', [(''x'', 2), (''y'', 3)])], mp_staking_ledger_sync = None,
           mp_next_epoch_ledger_sync = None, mp_root_ledger_sync = None\<rparr>", OF _ _ refl]
  by (simp add: sorter_permutes_def getPeers_def sample_peer_def sortPeers_def Let_def)

section \<open>Ledger progress\<close>

text \<open>No more was downloaded than estimated.\<close>

definition within_estimate :: "DashboardLedgerStepStats option \<Rightarrow> bool" where
  "within_estimate stats \<longleftrightarrow>
     (case (Option.bind stats lst_fetched, Option.bind stats lst_estimation) of (Some f, Some e) \<Rightarrow> f \<le> e | _ \<Rightarrow> True)"

lemma stepProgress_bounds:
  assumes "within_estimate stats"
  shows "\<exists>p. doneOr st (stepProgress stats) = Some p \<and> 0 \<le> p \<and> p \<le> 100"
proof -
  have "rat_of_nat f / rat_of_nat e * 100 \<le> 100" if "f \<le> e" "e \<noteq> 0" for f e
    using that by (simp add: divide_le_eq)
  then show ?thesis
    using assms by (auto simp: doneOr_def stepProgress_def within_estimate_def split: option.splits)
qed

lemma stagedProgress_bounds: "0 \<le> stagedProgress sg \<and> stagedProgress sg \<le> 100"
  by (simp add: stagedProgress_def)

lemma ledgers_all_done:
  assumes "root_consistent ls" and "lr_state (ld_rootStaged (getLedgers now ls)) = Step_SUCCESS"
  shows "le_state (ld_rootSnarked (getLedgers now ls)) = Step_SUCCESS"
    "le_state (ld_nextEpoch (getLedgers now ls)) = Step_SUCCESS"
    "le_state (ld_stakingEpoch (getLedgers now ls)) = Step_SUCCESS"
proof -
  have "stagedStarted (sls_root ls)"
    using assms(2) rootStaged_state [OF assms(1), of now] by (auto simp: getLedgers_def Let_def)
  then show "le_state (ld_rootSnarked (getLedgers now ls)) = Step_SUCCESS"
    "le_state (ld_nextEpoch (getLedgers now ls)) = Step_SUCCESS"
    "le_state (ld_stakingEpoch (getLedgers now ls)) = Step_SUCCESS"
    by (simp_all add: getLedgers_def Let_def)
qed

lemma rootStaged_percent:
  "doneOr (lr_state (rootStagedStep now x)) (Some (stagedProgress (lr_staged (rootStagedStep now x)))) = Some 100
   \<longleftrightarrow> lr_state (rootStagedStep now x) = Step_SUCCESS"
  by (auto simp: doneOr_def rootStagedStep_def stagedProgress_def Let_def split: option.splits if_splits)

text \<open>C25. The progress of the dashboard. When the node's times are consistent and it has downloaded no more than
  it estimated, the total progress is a percentage between 0 and 100, and it is 100 exactly when the last ledger,
  the staged root, is done; an empty answer resets it to 0.\<close>

theorem ledger_total_progress:
  assumes "root_consistent ls" and "nn_ledgers node = getLedgers now ls"
    and "within_estimate (rs_stakingLedger rpc)" and "within_estimate (rs_nextLedger rpc)"
    and "within_estimate (rs_snarkedRootLedger rpc)"
  shows "\<exists>t. lvw_total (ledgerViewStep isWebNode now (node # nodes) rpc v) = Some t \<and> 0 \<le> t \<and> t \<le> 100
     \<and> (t = 100 \<longleftrightarrow> lr_state (ld_rootStaged (nn_ledgers node)) = Step_SUCCESS)
     \<and> lvw_total (ledgerViewStep isWebNode now [] rpc v) = Some 0"
proof -
  let ?l = "getLedgers now ls"
  obtain a where a: "doneOr (le_state (ld_stakingEpoch ?l)) (stepProgress (rs_stakingLedger rpc)) = Some a" "0 \<le> a" "a \<le> 100"
    using stepProgress_bounds [OF assms(3)] by blast
  obtain b where b: "doneOr (le_state (ld_nextEpoch ?l)) (stepProgress (rs_nextLedger rpc)) = Some b" "0 \<le> b" "b \<le> 100"
    using stepProgress_bounds [OF assms(4)] by blast
  obtain c where c: "doneOr (le_state (ld_rootSnarked ?l)) (stepProgress (rs_snarkedRootLedger rpc)) = Some c" "0 \<le> c" "c \<le> 100"
    using stepProgress_bounds [OF assms(5)] by blast
  have "\<exists>d. doneOr (lr_state (ld_rootStaged ?l)) (Some (stagedProgress (lr_staged (ld_rootStaged ?l)))) = Some d \<and> 0 \<le> d \<and> d \<le> 100"
    using stagedProgress_bounds by (simp add: doneOr_def)
  then obtain d where d: "doneOr (lr_state (ld_rootStaged ?l)) (Some (stagedProgress (lr_staged (ld_rootStaged ?l)))) = Some d"
    "0 \<le> d" "d \<le> 100" by blast
  have t: "lvw_total (ledgerViewStep isWebNode now (node # nodes) rpc v) = Some ((a + b + c + d) / 4)"
    by (simp add: ledgerViewStep_def assms(2) a(1) b(1) c(1) d(1) percentage_add_def Let_def)
  have d100: "d = 100 \<longleftrightarrow> lr_state (ld_rootStaged ?l) = Step_SUCCESS"
    using rootStaged_percent [of now "sls_root ls"] d(1) by (simp add: getLedgers_def Let_def)
  have "a = 100 \<and> b = 100 \<and> c = 100" if "lr_state (ld_rootStaged ?l) = Step_SUCCESS"
    using ledgers_all_done [OF assms(1) that] a(1) b(1) c(1) by (simp add: doneOr_def)
  then have "(a + b + c + d) / 4 = 100 \<longleftrightarrow> lr_state (ld_rootStaged ?l) = Step_SUCCESS"
    using d100 a(3) b(3) c(3) d(3) by auto
  moreover have "lvw_total (ledgerViewStep isWebNode now [] rpc v) = Some 0" by (simp add: ledgerViewStep_def)
  ultimately show ?thesis
    using a(2,3) b(2,3) c(2,3) d(2,3) by (intro exI [of _ "(a + b + c + d) / 4"]) (simp add: t assms(2))
qed

definition sample_view :: ledgerView where
  "sample_view = \<lparr>lvw_ledgers = initialLedgers, lvw_loading = (False, False, False, False), lvw_progress = None,
     lvw_staking = Some 0, lvw_next = Some 0, lvw_rootSnarked = Some 0, lvw_rootStaged = Some 0, lvw_total = None,
     lvw_fetchedParts = (Some 0, 0), lvw_remainingStaking = \<lparr>rem_previous = None, rem_seconds = None\<rparr>,
     lvw_remainingNext = \<lparr>rem_previous = None, rem_seconds = None\<rparr>,
     lvw_remainingSnarked = \<lparr>rem_previous = None, rem_seconds = None\<rparr>,
     lvw_remainingStaged = \<lparr>rem_previous = None, rem_seconds = None\<rparr>,
     lvw_reconstructTimer = False, lvw_reconstructRunning = False, lvw_remainingReconstruct = 20\<rparr>"

theorem ledger_total_progress_witness:
  "\<exists>t. lvw_total (ledgerViewStep False 0 (mapNodeTipsErrorResponse 0 ''n'') no_rpcStats sample_view) = Some t \<and> 0 \<le> t \<and> t < 100"
proof -
  let ?ls = "\<lparr>sls_staking_epoch = None, sls_next_epoch = None, sls_root = None\<rparr>"
  let ?node = "hd (mapNodeTipsErrorResponse 0 ''n'')"
  have n: "mapNodeTipsErrorResponse 0 ''n'' = [?node]" by (simp add: mapNodeTipsErrorResponse_def)
  have h: "root_consistent ?ls" "nn_ledgers ?node = getLedgers 0 ?ls" "within_estimate None"
    by (simp_all add: root_consistent_def mapNodeTipsErrorResponse_def within_estimate_def)
  have "lr_state (ld_rootStaged (nn_ledgers ?node)) \<noteq> Step_SUCCESS"
    by (simp add: h(2) getLedgers_def Let_def rootStagedStep_def)
  then show ?thesis
    using ledger_total_progress [of ?ls ?node 0 no_rpcStats False "[]" sample_view] h
    by (subst n) (force simp: no_rpcStats_def)
qed

section \<open>The countdown\<close>

text \<open>What happens after the timer was started: a tick with its draw, or an answer of the node.\<close>

datatype countdown_event = Countdown_tick nat | Node_answer bool int "NodesOverviewNode list" DashboardRpcStats

definition countdown_step :: "ledgerView \<Rightarrow> countdown_event \<Rightarrow> ledgerView" where
  "countdown_step v ev = (case ev of
      Countdown_tick r \<Rightarrow> reconstructTick v r
    | Node_answer isWebNode now nodes rpc \<Rightarrow> ledgerViewStep isWebNode now nodes rpc v)"

fun countdown_draws :: "countdown_event list \<Rightarrow> nat list" where
  "countdown_draws [] = []"
| "countdown_draws (Countdown_tick r # evs) = r # countdown_draws evs"
| "countdown_draws (Node_answer _ _ _ _ # evs) = countdown_draws evs"

text \<open>An answer in which the parts of the staged ledger are fetched and the reconstruction has ended.\<close>

definition reconstructed :: "countdown_event \<Rightarrow> bool" where
  "reconstructed ev = (case ev of
      Node_answer _ _ (node # _) _ \<Rightarrow>
        truthy_num (sg_fetchPartsEnd (lr_staged (ld_rootStaged (nn_ledgers node)))) \<and>
        truthy_num (sg_reconstructEnd (lr_staged (ld_rootStaged (nn_ledgers node))))
    | _ \<Rightarrow> False)"

text \<open>The draws at which the countdown stops: one at the seventeenth tick, or zero at the eighteenth.\<close>

definition draws_stop :: "nat list \<Rightarrow> bool" where
  "draws_stop rs \<longleftrightarrow> (16 < length rs \<and> rs ! 16 = 1) \<or> (17 < length rs \<and> rs ! 17 = 0)"

lemma countdown_draws_append [simp]: "countdown_draws (xs @ ys) = countdown_draws xs @ countdown_draws ys"
  by (induction xs rule: countdown_draws.induct) auto

lemma draws_stop_snoc:
  assumes "\<not> draws_stop rs" and "r \<le> 1"
  shows "draws_stop (rs @ [r]) \<longleftrightarrow> 20 - int (length rs) - 1 = int r + 2"
proof -
  have "(r = 1 \<longleftrightarrow> \<not> r = 0)" using assms(2) by linarith
  then show ?thesis using assms by (auto simp: draws_stop_def nth_append)
qed

lemma draws_stop_append: "draws_stop rs \<Longrightarrow> draws_stop (rs @ rs')"
  by (auto simp: draws_stop_def nth_append)

lemma stagedProgress_100: "stagedProgress staged = 100 \<longleftrightarrow> truthy_num (sg_fetchPartsEnd staged) \<and> truthy_num (sg_reconstructEnd staged)"
  by (simp add: stagedProgress_def)

lemma answer_countdown:
  assumes "lvw_reconstructTimer v"
  shows "lvw_reconstructTimer (ledgerViewStep isWebNode now nodes rpc v)"
    and "lvw_remainingReconstruct (ledgerViewStep isWebNode now nodes rpc v) = lvw_remainingReconstruct v"
    and "lvw_reconstructRunning (ledgerViewStep isWebNode now nodes rpc v) \<longleftrightarrow>
      lvw_reconstructRunning v \<and> \<not> reconstructed (Node_answer isWebNode now nodes rpc)"
  using assms by (cases nodes; simp add: ledgerViewStep_def Let_def reconstructed_def stagedProgress_100)+

lemma tick_countdown:
  "lvw_reconstructTimer (reconstructTick v r) = lvw_reconstructTimer v"
  "lvw_reconstructRunning v \<Longrightarrow> lvw_remainingReconstruct (reconstructTick v r) = lvw_remainingReconstruct v - 1 \<and>
     (lvw_reconstructRunning (reconstructTick v r) \<longleftrightarrow> lvw_remainingReconstruct v - 1 \<noteq> int r + 2)"
  "\<not> lvw_reconstructRunning v \<Longrightarrow> reconstructTick v r = v"
  by (simp_all add: reconstructTick_def)

lemma countdown_run:
  assumes "lvw_reconstructTimer v" and "lvw_reconstructRunning v" and "lvw_remainingReconstruct v = 20"
  shows "list_all (\<lambda>r. r \<le> 1) (countdown_draws evs) \<Longrightarrow>
    lvw_reconstructTimer (foldl countdown_step v evs) \<and>
    (lvw_reconstructRunning (foldl countdown_step v evs) \<longleftrightarrow> \<not> list_ex reconstructed evs \<and> \<not> draws_stop (countdown_draws evs)) \<and>
    (lvw_reconstructRunning (foldl countdown_step v evs) \<longrightarrow>
       lvw_remainingReconstruct (foldl countdown_step v evs) = 20 - int (length (countdown_draws evs))) \<and>
    (\<not> list_ex reconstructed evs \<and> draws_stop (countdown_draws evs) \<longrightarrow>
       lvw_remainingReconstruct (foldl countdown_step v evs) = (if countdown_draws evs ! 16 = 1 then 3 else 2))"
proof (induction evs rule: rev_induct)
  case Nil
  show ?case using assms by (simp add: draws_stop_def)
next
  case (snoc ev evs)
  let ?v = "foldl countdown_step v evs" and ?rs = "countdown_draws evs"
  have IH: "lvw_reconstructTimer ?v" "lvw_reconstructRunning ?v \<longleftrightarrow> \<not> list_ex reconstructed evs \<and> \<not> draws_stop ?rs"
    "lvw_reconstructRunning ?v \<longrightarrow> lvw_remainingReconstruct ?v = 20 - int (length ?rs)"
    "\<not> list_ex reconstructed evs \<and> draws_stop ?rs \<longrightarrow> lvw_remainingReconstruct ?v = (if ?rs ! 16 = 1 then 3 else 2)"
    using snoc by simp_all
  show ?case
  proof (cases ev)
    case (Node_answer w now nodes rpc)
    then have w: "foldl countdown_step v (evs @ [ev]) = ledgerViewStep w now nodes rpc ?v" "countdown_draws (evs @ [ev]) = ?rs"
      by (simp_all add: countdown_step_def)
    show ?thesis unfolding w using IH(2-4) by (simp add: answer_countdown [OF IH(1)] Node_answer) blast
  next
    case (Countdown_tick r)
    have r: "r \<le> 1" using snoc.prems Countdown_tick by simp
    show ?thesis
    proof (cases "lvw_reconstructRunning ?v")
      case True
      then have stop: "draws_stop (?rs @ [r]) \<longleftrightarrow> 20 - int (length ?rs) - 1 = int r + 2" using IH(2) draws_stop_snoc [OF _ r] by blast
      have three: "int r + 2 = (if (?rs @ [r]) ! 16 = 1 then 3 else 2)" if "20 - int (length ?rs) - 1 = int r + 2"
      proof -
        have "length ?rs = 16 \<and> r = 1 \<or> length ?rs = 17 \<and> r = 0" using that r by linarith
        then show ?thesis using True IH(2) by (auto simp: nth_append draws_stop_def)
      qed
      have "\<not> reconstructed ev" by (simp add: Countdown_tick reconstructed_def)
      moreover have w: "foldl countdown_step v (evs @ [ev]) = reconstructTick ?v r" "countdown_draws (evs @ [ev]) = ?rs @ [r]"
        by (simp_all add: countdown_step_def Countdown_tick)
      ultimately show ?thesis unfolding w using True IH stop three tick_countdown(1,2) [of ?v r] by (auto split: if_splits)
    next
      case False
      then have "\<not> list_ex reconstructed evs \<Longrightarrow> draws_stop ?rs" using IH(2) by blast
      moreover have "draws_stop ?rs \<Longrightarrow> (?rs @ [r]) ! 16 = ?rs ! 16" by (auto simp: draws_stop_def nth_append)
      moreover have "\<not> reconstructed ev" by (simp add: Countdown_tick reconstructed_def)
      moreover have w: "foldl countdown_step v (evs @ [ev]) = ?v" "countdown_draws (evs @ [ev]) = ?rs @ [r]"
        by (simp_all add: countdown_step_def Countdown_tick tick_countdown(3) [OF False])
      ultimately show ?thesis unfolding w using False IH(1,4) draws_stop_append [of ?rs "[r]"] by simp blast
    qed
  qed
qed

text \<open>C37. The countdown of the reconstruction, which starts at 20 and draws 0 or 1 at every tick, whatever ticks and answers of the node
  follow one another: it is stopped exactly by an answer in which the parts are fetched and the reconstruction has ended, by
  the draw of one at the seventeenth tick (at three), or by the draw of zero at the eighteenth (at two). As long as it runs it
  shows 20 less the number of ticks; so without such an answer and with neither draw it goes on and passes zero.\<close>

theorem reconstruct_countdown:
  assumes "lvw_reconstructTimer v" and "lvw_reconstructRunning v" and "lvw_remainingReconstruct v = 20"
    and "list_all (\<lambda>r. r \<le> 1) (countdown_draws evs)"
  shows "let w = foldl countdown_step v evs; rs = countdown_draws evs
     in (lvw_reconstructRunning w \<longleftrightarrow>
          \<not> list_ex reconstructed evs \<and> \<not> (16 < length rs \<and> rs ! 16 = 1) \<and> \<not> (17 < length rs \<and> rs ! 17 = 0))
      \<and> (lvw_reconstructRunning w \<longrightarrow> lvw_remainingReconstruct w = 20 - int (length rs))
      \<and> (\<not> lvw_reconstructRunning w \<and> \<not> list_ex reconstructed evs \<longrightarrow> lvw_remainingReconstruct w = (if rs ! 16 = 1 then 3 else 2))"
  using countdown_run [OF assms] by (auto simp: draws_stop_def Let_def)

theorem reconstruct_countdown_witness:
  "lvw_remainingReconstruct (foldl countdown_step (sample_view\<lparr>lvw_reconstructTimer := True, lvw_reconstructRunning := True\<rparr>)
     (Node_answer True 0 [] no_rpcStats # map Countdown_tick (replicate 17 0 @ replicate 13 1))) = - 10"
proof -
  let ?evs = "Node_answer True 0 [] no_rpcStats # map Countdown_tick (replicate 17 0 @ replicate 13 1)"
  let ?v = "sample_view\<lparr>lvw_reconstructTimer := True, lvw_reconstructRunning := True\<rparr>"
  have draws: "countdown_draws (map Countdown_tick rs) = rs" for rs by (induction rs) auto
  have no: "\<not> list_ex reconstructed ?evs" by (auto simp: reconstructed_def list_ex_iff)
  have rs: "countdown_draws ?evs = replicate 17 0 @ replicate 13 1" by (simp only: countdown_draws.simps draws)
  have "lvw_reconstructRunning (foldl countdown_step ?v ?evs) \<longrightarrow>
      lvw_remainingReconstruct (foldl countdown_step ?v ?evs) = 20 - int (length (replicate 17 0 @ replicate 13 (1 :: nat)))"
    and "lvw_reconstructRunning (foldl countdown_step ?v ?evs)"
    using reconstruct_countdown [of ?v ?evs] no unfolding rs Let_def by (auto simp: sample_view_def nth_append list_all_iff)
  then show ?thesis by simp
qed

section \<open>Percentages of the blocks\<close>

lemma syncPercentage_mono: "m \<le> n \<Longrightarrow> syncPercentage m len \<le> syncPercentage n len"
  by (simp add: syncPercentage_def div_le_mono)

lemma syncPercentage_le: "n \<le> len \<Longrightarrow> syncPercentage n len \<le> 100"
proof (cases "len = 0")
  case False
  assume "n \<le> len"
  then have "n * 100 div len \<le> len * 100 div len" by (intro div_le_mono) simp
  with False show ?thesis by (simp add: syncPercentage_def)
qed (simp add: syncPercentage_def)

lemma syncPercentage_100:
  assumes "n \<le> len"
  shows "syncPercentage n len = 100 \<longleftrightarrow> n = len \<and> len \<noteq> 0"
proof (cases "len = 0")
  case False
  have "n * 100 div len < 100" if "n < len"
    using that False by (simp add: div_less_iff_less_mult)
  with assms False show ?thesis by (cases "n = len") (auto simp: syncPercentage_def)
qed (use assms in \<open>simp add: syncPercentage_def\<close>)

lemma length_filter_all: "length (filter P xs) = length xs \<longleftrightarrow> (\<forall>x \<in> set xs. P x)"
  by (metis filter_True filter_id_conv length_filter_less less_irrefl_nat)

lemma extractNodesData_counts:
  assumes "extractNodesData lastItem now node v = Inr w"
  defines "rest \<equiv> drop 1 (nn_blocks node)"
  shows "bs_fetchedPercentage w = dec (syncPercentage
       (length (filter (\<lambda>b. nb_status b \<notin> {status_string MISSING, status_string FETCHING}) rest)) (length rest)) @ ''%''"
    and "bs_appliedPercentage w = Some (syncPercentage
       (length (filter (\<lambda>b. nb_status b = status_string APPLIED) rest)) (length rest))"
  using assms(1)
  by (auto simp: extractNodesData_def rest_def Let_def simp del: status_string.simps
      split: sum.splits option.splits list.splits if_splits)

lemma highest_peer:
  "let r = foldl (\<lambda>acc p. case dp_height p of None \<Rightarrow> acc | Some h \<Rightarrow> if h > acc then h else acc) a peers
   in a \<le> r \<and> (\<forall>p \<in> set peers. \<forall>h. dp_height p = Some h \<longrightarrow> h \<le> r) \<and> (r = a \<or> (\<exists>p \<in> set peers. dp_height p = Some r))"
proof (induction peers arbitrary: a)
  case (Cons p ps)
  show ?case
  proof (cases "dp_height p")
    case None
    then show ?thesis using Cons.IH [of a] by (simp add: Let_def)
  next
    case (Some h)
    then show ?thesis using Cons.IH [of "if h > a then h else a"] by (auto simp: Let_def split: if_splits)
  qed
qed simp

text \<open>The percentages of the synchronisation. The applied percentage is at most the fetched one, which is at most
  100; the applied percentage is 100, and the details of the node are asked for again, exactly when there are blocks
  besides the first and all of these are applied. The target is the greatest height of a peer, or zero.\<close>

lemma blocks_sync_percentages:
  assumes "blocksSyncStep lastItem now (node # nodes) peers v = Inr (w, actions)"
  shows "\<exists>f a. bs_fetchedPercentage w = dec f @ ''%'' \<and> bs_appliedPercentage w = Some a \<and> a \<le> f \<and> f \<le> 100
    \<and> (a = 100 \<longleftrightarrow> drop 1 (nn_blocks node) \<noteq> [] \<and> (\<forall>b \<in> set (drop 1 (nn_blocks node)). nb_status b = status_string APPLIED))
    \<and> actions = (if a = 100 then [App_getNodeDetails] else [])
    \<and> (\<exists>t. bs_targetBlock w = Some t \<and> 0 \<le> t \<and> (\<forall>p \<in> set peers. \<forall>h. dp_height p = Some h \<longrightarrow> h \<le> t)
         \<and> (t = 0 \<or> (\<exists>p \<in> set peers. dp_height p = Some t)))"
proof -
  let ?rest = "drop 1 (nn_blocks node)"
  let ?F = "filter (\<lambda>b. nb_status b \<notin> {status_string MISSING, status_string FETCHING}) ?rest"
  let ?A = "filter (\<lambda>b. nb_status b = status_string APPLIED) ?rest"
  obtain w' where e: "extractNodesData lastItem now node
      (v\<lparr>bs_remaining := remainingBlocks now (nn_blocks node) (bs_remaining v)\<rparr>) = Inr w'"
    and w: "w = w'\<lparr>bs_targetBlock := Some (extractPeersData peers)\<rparr>"
    and act: "actions = (if bs_appliedPercentage w' = Some 100 then [App_getNodeDetails] else [])"
    using assms by (auto simp: blocksSyncStep_def map_sum_def split: sum.splits)
  note counts = extractNodesData_counts [OF e]
  have "length ?A \<le> length ?F" by (rule length_filter_mono) auto
  then have "syncPercentage (length ?A) (length ?rest) \<le> syncPercentage (length ?F) (length ?rest)"
    by (rule syncPercentage_mono)
  moreover have "syncPercentage (length ?F) (length ?rest) \<le> 100" by (rule syncPercentage_le) (rule length_filter_le)
  moreover have "syncPercentage (length ?A) (length ?rest) = 100 \<longleftrightarrow> ?rest \<noteq> [] \<and> (\<forall>b \<in> set ?rest. nb_status b = status_string APPLIED)"
    unfolding syncPercentage_100 [OF length_filter_le] length_filter_all by auto
  moreover have "\<exists>t. bs_targetBlock w = Some t \<and> 0 \<le> t \<and> (\<forall>p \<in> set peers. \<forall>h. dp_height p = Some h \<longrightarrow> h \<le> t)
         \<and> (t = 0 \<or> (\<exists>p \<in> set peers. dp_height p = Some t))"
    using highest_peer [where a = 0 and peers = peers] by (simp add: w extractPeersData_def Let_def)
  moreover have "bs_fetchedPercentage w = dec (syncPercentage (length ?F) (length ?rest)) @ ''%''"
    "bs_appliedPercentage w = Some (syncPercentage (length ?A) (length ?rest))"
    using counts by (simp_all add: w del: status_string.simps)
  ultimately show ?thesis
    using act counts(2) by (intro exI conjI) (assumption | simp add: w)+
qed

lemma blocks_sync_percentages_witness:
  "\<exists>w. blocksSyncStep (\<lambda>bs. if bs = [] then None else Some (last bs)) 0 (mapNodeTipsErrorResponse 0 ''n'') []
       \<lparr>bs_fetched = None, bs_fetchedPercentage = ''-'', bs_applied = None, bs_appliedPercentage = None, bs_root = None,
        bs_rootText = ''Pending'', bs_bestTipBlock = None, bs_bestTipBlockSyncedText = ''Pending'', bs_targetBlock = None,
        bs_syncProgress = None, bs_remaining = None, bs_lengthWithoutRoot = None\<rparr> = Inr (w, [])
     \<and> (\<exists>a. bs_appliedPercentage w = Some a \<and> a < 100)"
proof -
  let ?v = "\<lparr>bs_fetched = None, bs_fetchedPercentage = ''-'', bs_applied = None, bs_appliedPercentage = None, bs_root = None,
        bs_rootText = ''Pending'', bs_bestTipBlock = None, bs_bestTipBlockSyncedText = ''Pending'', bs_targetBlock = None,
        bs_syncProgress = None, bs_remaining = None, bs_lengthWithoutRoot = None\<rparr>"
  let ?last = "\<lambda>bs :: NodesOverviewBlock list. if bs = [] then None else Some (last bs)"
  obtain node where n: "mapNodeTipsErrorResponse 0 ''n'' = [node]" and b: "nn_blocks node = []"
    by (simp add: mapNodeTipsErrorResponse_def)
  obtain w acts where r: "blocksSyncStep ?last 0 [node] [] ?v = Inr (w, acts)"
    by (simp add: blocksSyncStep_def extractNodesData_def b)
  have "acts = []" "\<exists>a. bs_appliedPercentage w = Some a \<and> a < 100"
    using blocks_sync_percentages [OF r] by (auto simp: b)
  with r show ?thesis by (auto simp: n)
qed

end
