(* ===== verification/Network_Pages.thy ===== *)
theory Network_Pages
  imports Network_Messages
begin

text \<open>
  The blocks, connections and bootstrap statistics pages of the network section (\<open>features/network\<close>). The
  blocks page shows when the messages with a block arrived, relative to the first of them; the connections page
  polls the connections of the debugger; the statistics page shows the requests of the peer discovery.

  The blocks, connections and messages pages poll the same way: a timer asks while the field \<open>waitingForServer\<close> is
  not set, a request sets it and a response clears it. The locale \<open>polled_page\<close> states what the three have in
  common and is interpreted on each.

  \<open>sort\<close> and \<open>toReadableDate\<close> of the shared package are parameters.
\<close>

section \<open>Polling\<close>

text \<open>A tick of the timer of a page: the action it dispatches, if any, reaches the pipeline.\<close>

definition tick_step ::
  "('f, 'a, 'q, 'r, 'o) effect \<Rightarrow> ('f \<Rightarrow> 'a option) \<Rightarrow> ('f, 'q) rx_state \<Rightarrow> ('f, 'q) rx_state" where
  "tick_step E tick s =
     (case tick (fst s) of
        None \<Rightarrow> s
      | Some a \<Rightarrow> (case rx_apply E (Rx_action a) s of None \<Rightarrow> s | Some (out, s') \<Rightarrow> s'))"

locale polled_page =
  fixes E :: "(network_fields, 'a, 'q, 'r, 'o) effect" and tick :: "network_fields \<Rightarrow> 'a option"
    and live :: "network_fields \<Rightarrow> bool"
  assumes tick_waits: "waitingForServer f \<Longrightarrow> tick f = None"
    and tick_sends: "live f \<Longrightarrow> \<not> waitingForServer f \<Longrightarrow>
      \<exists>a f' q. tick f = Some a \<and> on_action E a f = (f', Switch_request q) \<and> waitingForServer f'"
    and value_frees: "on_value E q v f = (f', out) \<Longrightarrow> \<not> waitingForServer f' \<and> live f' = live f"
    and error_keeps: "on_error E e f = (f', out) \<Longrightarrow> f' = f"
begin

text \<open>After a response the next tick sends a request.\<close>

lemma poll_continues:
  assumes "live f" and "rx_step E (f, Some q) (Rx_value v) out s"
  shows "snd s = None \<and> snd (tick_step E tick s) \<noteq> None \<and> waitingForServer (fst (tick_step E tick s))"
proof -
  obtain f' where s: "s = (f', None)" and ov: "on_value E q v f = (f', out)" using assms(2) by auto
  from value_frees [OF ov] assms(1) have "live f'" "\<not> waitingForServer f'" by auto
  from tick_sends [OF this] show ?thesis by (auto simp: s tick_step_def)
qed

text \<open>After an error no tick ever sends one.\<close>

lemma poll_stalls:
  assumes "waitingForServer f" and "rx_step E (f, Some q) (Rx_error e) out s"
  shows "s = (f, None) \<and> (tick_step E tick ^^ n) s = s"
proof -
  obtain f' where s: "s = (f', None)" and oe: "on_error E e f = (f', out)" using assms(2) by auto
  from error_keeps [OF oe] have "f' = f" by simp
  moreover have "tick_step E tick (f, None) = (f, None)" by (simp add: tick_step_def tick_waits [OF assms(1)])
  then have "(tick_step E tick ^^ n) (f, None) = (f, None)" by (induction n) simp_all
  ultimately show ?thesis by (simp add: s)
qed

end

interpretation messages_poll: polled_page "getMessages_effect debugger dt now"
  "\<lambda>f. map_option (\<lambda>a. (a, state)) (init_tick f)" streamActive
  by unfold_locales (auto simp: getMessages_effect_def init_tick_def split: prod.splits)

section \<open>Blocks page\<close>

record NetworkBlock =
  nk_messageKind :: string
  nk_producerId :: string
  nk_hash :: string
  nk_date :: string
  nk_timestamp :: string
  nk_sender :: string
  nk_receiver :: string
  nk_messageId :: int
  nk_height :: int
  nk_globalSlot :: int
  nk_incoming :: string
  nk_sentLatency :: "rat option"
  nk_receivedLatency :: "rat option"

record NetworkBlocksState =
  nks_blocks :: "NetworkBlock list"
  nks_filteredBlocks :: "NetworkBlock list"
  nks_stream :: bool
  nks_sort :: tableSort
  nks_openSidePanel :: bool
  nks_allFilters :: "string list"
  nks_activeFilters :: "string list"
  nks_activeBlock :: "int option"
  nks_earliestBlock :: "int option"

datatype NetworkBlocksActions =
    NETWORK_BLOCKS_INIT
  | NETWORK_BLOCKS_CLOSE
  | NETWORK_BLOCKS_GET_BLOCKS "int option"
  | NETWORK_BLOCKS_GET_BLOCKS_SUCCESS "NetworkBlock list"
  | NETWORK_BLOCKS_SORT tableSort
  | NETWORK_BLOCKS_TOGGLE_SIDE_PANEL
  | NETWORK_BLOCKS_TOGGLE_FILTER string
  | NETWORK_BLOCKS_SET_ACTIVE_BLOCK "int option" bool
  | NETWORK_BLOCKS_GET_EARLIEST_BLOCK
  | NETWORK_BLOCKS_SET_EARLIEST_BLOCK "int option"

record rawBlockEvent =
  be_message_kind :: string
  be_producer_id :: string
  be_hash :: string
  be_secs :: nat
  be_nanos :: nat
  be_sender_addr :: string
  be_receiver_addr :: string
  be_block_height :: int
  be_global_slot :: int
  be_message_id :: int
  be_incoming :: bool

text \<open>The loop of \<open>getTimestamp\<close> that fills the nanoseconds to nine digits.\<close>

function padNanos :: "string \<Rightarrow> string" where
  "padNanos newNano = (if length newNano < 9 then padNanos (CHR 0x30 # newNano) else newNano)"
  by pat_completeness auto
termination
  by (relation "measure (\<lambda>s. 9 - length s)") auto

declare padNanos.simps [simp del]

definition getTimestamp :: "rawBlockEvent \<Rightarrow> string" where
  "getTimestamp ev = dec (be_secs ev) @ padNanos (dec (be_nanos ev))"

text \<open>\<open>BigInt\<close> of a string of digits, and \<open>reduce\<close> without a start value, which throws on an empty array.\<close>

definition js_BigInt :: "string \<Rightarrow> int" where
  "js_BigInt s = int (of_radix 10 s)"

fun fastest :: "int list \<Rightarrow> js_error + int" where
  "fastest [] = Inl TypeError"
| "fastest (t # ts) = Inr (foldl (\<lambda>t1 t2. if t2 < t1 then t2 else t1) t ts)"

definition latency :: "string \<Rightarrow> int \<Rightarrow> rat" where
  "latency timestamp fastestTime = of_int (js_BigInt timestamp - fastestTime) / 1000000000"

definition mapBlock :: "(rat \<Rightarrow> string) \<Rightarrow> int \<Rightarrow> rawBlockEvent \<Rightarrow> NetworkBlock" where
  "mapBlock toReadableDate fastestTime ev =
     \<lparr>nk_messageKind = be_message_kind ev, nk_producerId = be_producer_id ev, nk_hash = be_hash ev,
      nk_date = toReadableDate (of_nat (be_secs ev) * 1000 + of_nat (be_nanos ev) / 1000000),
      nk_timestamp = getTimestamp ev, nk_sender = be_sender_addr ev, nk_receiver = be_receiver_addr ev,
      nk_messageId = be_message_id ev, nk_height = be_block_height ev, nk_globalSlot = be_global_slot ev,
      nk_incoming = (if be_incoming ev then ''Incoming'' else ''Outgoing''),
      nk_sentLatency = (if be_incoming ev then None else Some (latency (getTimestamp ev) fastestTime)),
      nk_receivedLatency = (if be_incoming ev then Some (latency (getTimestamp ev) fastestTime) else None)\<rparr>"

text \<open>The response is \<open>null\<close> (\<open>None\<close>) for a block the debugger does not know.\<close>

definition mapBlocks :: "(rat \<Rightarrow> string) \<Rightarrow> rawBlockEvent list option \<Rightarrow> js_error + NetworkBlock list" where
  "mapBlocks toReadableDate blocks =
     (case blocks of
        None \<Rightarrow> Inr []
      | Some events \<Rightarrow>
          map_sum (\<lambda>e. e) (\<lambda>t. map (mapBlock toReadableDate t) events) (fastest (map (js_BigInt \<circ> getTimestamp) events)))"

definition getEarliestBlockHeight :: "int option option \<Rightarrow> js_error + int option" where
  "getEarliestBlockHeight response =
     (case response of None \<Rightarrow> Inl (Error ''No blocks found!'') | Some h \<Rightarrow> Inr h)"

definition networkBlocksInitialState :: NetworkBlocksState where
  "networkBlocksInitialState =
     \<lparr>nks_blocks = [], nks_filteredBlocks = [], nks_stream = True, nks_sort = \<lparr>sortBy = ''date'', sortDirection = ASC\<rparr>,
      nks_openSidePanel = False, nks_allFilters = [], nks_activeFilters = [], nks_activeBlock = None, nks_earliestBlock = None\<rparr>"

definition getFilteredBlocks :: "NetworkBlock list \<Rightarrow> string list \<Rightarrow> NetworkBlock list" where
  "getFilteredBlocks allBlocks activeFilters =
     (if activeFilters \<noteq> [] then filter (\<lambda>b. nk_hash b \<in> set activeFilters) allBlocks else allBlocks)"

definition sortBlocks :: "NetworkBlock sorter \<Rightarrow> NetworkBlock list \<Rightarrow> tableSort \<Rightarrow> NetworkBlock list" where
  "sortBlocks srt blocks ts = srt blocks ts"

definition applyNewLatencies :: "NetworkBlock list \<Rightarrow> js_error + NetworkBlock list" where
  "applyNewLatencies blocks =
     map_sum (\<lambda>e. e) (\<lambda>t. map (\<lambda>b.
         b\<lparr>nk_receivedLatency := map_option (\<lambda>_. latency (nk_timestamp b) t) (nk_receivedLatency b),
           nk_sentLatency := map_option (\<lambda>_. latency (nk_timestamp b) t) (nk_sentLatency b)\<rparr>) blocks)
       (fastest (map (js_BigInt \<circ> nk_timestamp) blocks))"

text \<open>\<open>Array.from(new Set(xs))\<close> keeps the first occurrence of each value.\<close>

definition distinct_first :: "'a list \<Rightarrow> 'a list" where
  "distinct_first xs = rev (remdups (rev xs))"

fun networkBlocksReducer ::
  "NetworkBlock sorter \<Rightarrow> NetworkBlocksState \<Rightarrow> NetworkBlocksActions \<Rightarrow> js_error + NetworkBlocksState" where
  "networkBlocksReducer srt state (NETWORK_BLOCKS_GET_BLOCKS_SUCCESS payload) =
     (let blocks = sortBlocks srt payload (nks_sort state);
          filteredBlocks = getFilteredBlocks blocks (nks_activeFilters state)
      in case (if nks_activeFilters state \<noteq> [] then applyNewLatencies filteredBlocks else Inr filteredBlocks) of
           Inl e \<Rightarrow> Inl e
         | Inr shown \<Rightarrow> Inr (state\<lparr>nks_blocks := blocks, nks_filteredBlocks := shown,
             nks_allFilters := distinct_first (map nk_hash payload)\<rparr>))"
| "networkBlocksReducer srt state (NETWORK_BLOCKS_SORT payload) =
     Inr (state\<lparr>nks_filteredBlocks := sortBlocks srt (nks_filteredBlocks state) payload, nks_sort := payload\<rparr>)"
| "networkBlocksReducer srt state NETWORK_BLOCKS_TOGGLE_SIDE_PANEL =
     Inr (state\<lparr>nks_openSidePanel := \<not> nks_openSidePanel state\<rparr>)"
| "networkBlocksReducer srt state (NETWORK_BLOCKS_TOGGLE_FILTER payload) =
     (let activeFilters = (if payload \<in> set (nks_activeFilters state)
            then filter (\<lambda>f. f \<noteq> payload) (nks_activeFilters state) else nks_activeFilters state @ [payload]);
          filteredBlocks = getFilteredBlocks (nks_blocks state) activeFilters
      in case applyNewLatencies (sortBlocks srt filteredBlocks (nks_sort state)) of
           Inl e \<Rightarrow> Inl e
         | Inr shown \<Rightarrow> Inr (state\<lparr>nks_activeFilters := activeFilters, nks_filteredBlocks := shown\<rparr>))"
| "networkBlocksReducer srt state (NETWORK_BLOCKS_SET_ACTIVE_BLOCK h fetchNew) =
     Inr (state\<lparr>nks_activeBlock := h, nks_activeFilters := (if fetchNew then [] else nks_activeFilters state)\<rparr>)"
| "networkBlocksReducer srt state (NETWORK_BLOCKS_SET_EARLIEST_BLOCK h) = Inr (state\<lparr>nks_earliestBlock := h\<rparr>)"
| "networkBlocksReducer srt state NETWORK_BLOCKS_CLOSE = Inr networkBlocksInitialState"
| "networkBlocksReducer srt state NETWORK_BLOCKS_INIT = Inr state"
| "networkBlocksReducer srt state (NETWORK_BLOCKS_GET_BLOCKS _) = Inr state"
| "networkBlocksReducer srt state NETWORK_BLOCKS_GET_EARLIEST_BLOCK = Inr state"

subsection \<open>Effects\<close>

text \<open>\<open>earliestBlock$\<close>: the actions after the answer, and whether the router opens the block.\<close>

definition earliestBlock_effect ::
  "string \<Rightarrow> NetworkBlocksState \<Rightarrow> http_error + int option option \<Rightarrow> NetworkBlocksActions dispatched list \<times> bool" where
  "earliestBlock_effect now state response =
     (case response of
        Inl e \<Rightarrow> (catchErrorAndRepeat now DEBUGGER (NETWORK_BLOCKS_SET_EARLIEST_BLOCK None) e, False)
      | Inr r \<Rightarrow>
          (case getEarliestBlockHeight r of
             Inl err \<Rightarrow> (catchErrorAndRepeat now DEBUGGER (NETWORK_BLOCKS_SET_EARLIEST_BLOCK None)
                 \<lparr>err_message = (case err of Error msg \<Rightarrow> msg | TypeError \<Rightarrow> []), err_status = None\<rparr>, False)
           | Inr h \<Rightarrow>
               if truthy_num (nks_activeBlock state) then ([Dispatch (NETWORK_BLOCKS_SET_EARLIEST_BLOCK h)], False)
               else ([Dispatch (NETWORK_BLOCKS_SET_EARLIEST_BLOCK h), Dispatch (NETWORK_BLOCKS_SET_ACTIVE_BLOCK h False),
                      Dispatch NETWORK_BLOCKS_INIT], True)))"

text \<open>\<open>getBlocks$\<close>: the request is for the block of the action or the active one; a response that cannot be
  mapped is an error of the pipeline, which \<open>on_error\<close> handles.\<close>

definition getBlocks_effect ::
  "string \<Rightarrow> (network_fields, NetworkBlocksActions \<times> NetworkBlocksState, int option, NetworkBlock list,
     NetworkBlocksActions dispatched) effect" where
  "getBlocks_effect now =
     \<lparr>on_action = (\<lambda>(action, state) f. case action of
          NETWORK_BLOCKS_GET_BLOCKS h \<Rightarrow>
            (f\<lparr>streamActive := nks_stream state, waitingForServer := True\<rparr>,
             Switch_request (if truthy_num h then h else nks_activeBlock state))
        | _ \<Rightarrow> (f, Filtered)),
      on_value = (\<lambda>_ payload f. (f\<lparr>waitingForServer := False\<rparr>, [Dispatch (NETWORK_BLOCKS_GET_BLOCKS_SUCCESS payload)])),
      on_error = (\<lambda>e f. (f, catchErrorAndRepeat now DEBUGGER (NETWORK_BLOCKS_GET_BLOCKS_SUCCESS []) e))\<rparr>"

definition blocks_tick :: "network_fields \<Rightarrow> NetworkBlocksActions option" where
  "blocks_tick f = (if \<not> waitingForServer f then Some (NETWORK_BLOCKS_GET_BLOCKS None) else None)"

definition setActiveBlock_effect :: "NetworkBlocksActions \<Rightarrow> NetworkBlocksActions option" where
  "setActiveBlock_effect action =
     (case action of
        NETWORK_BLOCKS_SET_ACTIVE_BLOCK h fetchNew \<Rightarrow> if fetchNew then Some (NETWORK_BLOCKS_GET_BLOCKS h) else None
      | _ \<Rightarrow> None)"

definition blocksClose_effect :: "network_fields \<Rightarrow> network_fields" where
  "blocksClose_effect f = f\<lparr>streamActive := False\<rparr>"

interpretation blocks_poll: polled_page "getBlocks_effect now"
  "\<lambda>f. map_option (\<lambda>a. (a, state)) (blocks_tick f)" "\<lambda>_. True"
  by unfold_locales (auto simp: getBlocks_effect_def blocks_tick_def)

section \<open>Connections page\<close>

record NetworkConnection =
  cn_connectionId :: int
  cn_addr :: string
  cn_pid :: int
  cn_fd :: int
  cn_incoming :: string
  cn_date :: string
  cn_timestamp :: rat
  cn_alias :: string
  cn_stats_in :: json
  cn_stats_out :: json

record NetworkConnectionsState =
  ncs_connections :: "NetworkConnection list"
  ncs_activeConnection :: "NetworkConnection option"
  ncs_stream :: bool
  ncs_limit :: nat
  ncs_direction :: NetworkMessagesDirection

datatype NetworkConnectionsActions =
    NETWORK_CONNECTIONS_INIT
  | NETWORK_CONNECTIONS_CLOSE
  | NETWORK_CONNECTIONS_GET_CONNECTIONS
  | NETWORK_CONNECTIONS_GET_CONNECTIONS_SUCCESS "NetworkConnection list"
  | NETWORK_CONNECTIONS_SELECT_CONNECTION "NetworkConnection option"
  | NETWORK_CONNECTIONS_GO_LIVE
  | NETWORK_CONNECTIONS_PAUSE

record rawConnectionItem =
  ri_id :: int
  ri_addr :: string
  ri_pid :: int
  ri_fd :: int
  ri_secs :: nat
  ri_nanos :: nat
  ri_incoming :: bool
  ri_alias :: string
  ri_stats_in :: json
  ri_stats_out :: json

definition getConnections_url :: "string \<Rightarrow> nat \<Rightarrow> int option \<Rightarrow> NetworkMessagesDirection \<Rightarrow> string" where
  "getConnections_url debugger limit connId direction =
     debugger @ ''/connections?limit='' @ dec limit @ ''&direction='' @ direction_string (Some direction) @ url_param ''id'' connId"

definition mapNetworkConnectionsResponse ::
  "(rat \<Rightarrow> string) \<Rightarrow> rawConnectionItem list \<Rightarrow> NetworkMessagesDirection \<Rightarrow> NetworkConnection list" where
  "mapNetworkConnectionsResponse toReadableDate connections direction =
     map (\<lambda>item. let timestamp = of_nat (ri_secs item) * 1000 + of_nat (ri_nanos item) / 1000000
       in \<lparr>cn_connectionId = ri_id item, cn_addr = ri_addr item, cn_pid = ri_pid item, cn_fd = ri_fd item,
           cn_incoming = (if ri_incoming item then ''Incoming'' else ''Outgoing''), cn_date = toReadableDate timestamp,
           cn_timestamp = timestamp, cn_alias = ri_alias item, cn_stats_in = ri_stats_in item, cn_stats_out = ri_stats_out item\<rparr>)
       (if direction = REVERSE then rev connections else connections)"

definition networkConnectionsInitialState :: NetworkConnectionsState where
  "networkConnectionsInitialState =
     \<lparr>ncs_connections = [], ncs_activeConnection = None, ncs_stream = False, ncs_limit = 1000, ncs_direction = REVERSE\<rparr>"

fun networkConnectionsReducer :: "NetworkConnectionsState \<Rightarrow> NetworkConnectionsActions \<Rightarrow> NetworkConnectionsState" where
  "networkConnectionsReducer state (NETWORK_CONNECTIONS_GET_CONNECTIONS_SUCCESS payload) = state\<lparr>ncs_connections := payload\<rparr>"
| "networkConnectionsReducer state (NETWORK_CONNECTIONS_SELECT_CONNECTION payload) = state\<lparr>ncs_activeConnection := payload\<rparr>"
| "networkConnectionsReducer state NETWORK_CONNECTIONS_INIT = state\<lparr>ncs_stream := True\<rparr>"
| "networkConnectionsReducer state NETWORK_CONNECTIONS_GO_LIVE = state\<lparr>ncs_stream := True\<rparr>"
| "networkConnectionsReducer state NETWORK_CONNECTIONS_PAUSE = state\<lparr>ncs_stream := False\<rparr>"
| "networkConnectionsReducer state NETWORK_CONNECTIONS_CLOSE = networkConnectionsInitialState"
| "networkConnectionsReducer state NETWORK_CONNECTIONS_GET_CONNECTIONS = state"

definition getConnections_effect ::
  "string \<Rightarrow> (rat \<Rightarrow> string) \<Rightarrow> string \<Rightarrow>
   (network_fields, NetworkConnectionsActions \<times> NetworkConnectionsState, string \<times> NetworkMessagesDirection,
     rawConnectionItem list, NetworkConnectionsActions dispatched) effect" where
  "getConnections_effect debugger toReadableDate now =
     \<lparr>on_action = (\<lambda>(action, state) f.
        if action \<in> {NETWORK_CONNECTIONS_GET_CONNECTIONS, NETWORK_CONNECTIONS_GO_LIVE}
        then (f\<lparr>streamActive := ncs_stream state, waitingForServer := True\<rparr>,
              Switch_request (getConnections_url debugger (ncs_limit state) None (ncs_direction state), ncs_direction state))
        else (f, Filtered)),
      on_value = (\<lambda>(url, direction) items f. (f\<lparr>waitingForServer := False\<rparr>,
        [Dispatch (NETWORK_CONNECTIONS_GET_CONNECTIONS_SUCCESS (mapNetworkConnectionsResponse toReadableDate items direction))])),
      on_error = (\<lambda>e f. (f, catchErrorAndRepeat now DEBUGGER (NETWORK_CONNECTIONS_GET_CONNECTIONS_SUCCESS []) e))\<rparr>"

definition connections_tick :: "network_fields \<Rightarrow> NetworkConnectionsActions option" where
  "connections_tick f = (if streamActive f \<and> \<not> waitingForServer f then Some NETWORK_CONNECTIONS_GET_CONNECTIONS else None)"

text \<open>The \<open>tap\<close>s of \<open>init$\<close>, \<open>pause$\<close>, \<open>goLive$\<close> and \<open>close$\<close>, and the action that \<open>goLive$\<close> dispatches.\<close>

fun connections_tap :: "NetworkConnectionsActions \<Rightarrow> NetworkConnectionsState \<Rightarrow> network_fields \<Rightarrow> network_fields" where
  "connections_tap NETWORK_CONNECTIONS_INIT state f = f\<lparr>streamActive := ncs_stream state\<rparr>"
| "connections_tap NETWORK_CONNECTIONS_PAUSE state f = f\<lparr>streamActive := False\<rparr>"
| "connections_tap NETWORK_CONNECTIONS_GO_LIVE state f = f\<lparr>streamActive := True\<rparr>"
| "connections_tap NETWORK_CONNECTIONS_CLOSE state f = f\<lparr>streamActive := False\<rparr>"
| "connections_tap _ state f = f"

definition goLive_effect :: "NetworkConnectionsActions \<Rightarrow> NetworkConnectionsActions option" where
  "goLive_effect action = (if action = NETWORK_CONNECTIONS_GO_LIVE then Some NETWORK_CONNECTIONS_GET_CONNECTIONS else None)"

interpretation connections_poll: polled_page "getConnections_effect debugger dt now"
  "\<lambda>f. map_option (\<lambda>a. (a, state)) (connections_tick f)" streamActive
  by unfold_locales (auto simp: getConnections_effect_def connections_tick_def split: prod.splits)

section \<open>Bootstrap statistics page\<close>

datatype NetworkBootstrapPeerType = Peer_NEW | Peer_EXISTING

record NetworkBootstrapStatsRequest =
  nr_type :: string
  nr_address :: string
  nr_start :: int
  nr_finish :: "int option"
  nr_durationInSecs :: "int option"
  nr_peerId :: string
  nr_existingPeers :: nat
  nr_newPeers :: nat
  nr_error :: "string option"
  nr_typeErr :: string
  nr_closestPeers :: "(string \<times> NetworkBootstrapPeerType) list"

record NetworkBootstrapStatsState =
  nst_boostrapStats :: "NetworkBootstrapStatsRequest list"
  nst_activeBootstrapRequest :: "NetworkBootstrapStatsRequest option"
  nst_sort :: tableSort

datatype NetworkBootstrapStatsActions =
    NETWORK_BOOTSTRAP_STATS_INIT
  | NETWORK_BOOTSTRAP_STATS_CLOSE
  | NETWORK_BOOTSTRAP_STATS_GET_BOOTSTRAP_STATS
  | NETWORK_BOOTSTRAP_STATS_GET_BOOTSTRAP_STATS_SUCCESS "NetworkBootstrapStatsRequest list"
  | NETWORK_BOOTSTRAP_STATS_SORT tableSort
  | NETWORK_BOOTSTRAP_STATS_SET_ACTIVE_BOOTSTRAP_REQUEST "NetworkBootstrapStatsRequest option"

record BootstrapStatsRequest =
  br_type :: string
  br_address :: string
  br_start :: int
  br_finish :: "int option"
  br_peer_id :: string
  br_error :: "string option"
  br_closest_peers :: "(string \<times> NetworkBootstrapPeerType) list option"

definition mapBootstrapStats :: "BootstrapStatsRequest list \<Rightarrow> NetworkBootstrapStatsRequest list" where
  "mapBootstrapStats requests = map (\<lambda>request.
     let peers = (case br_closest_peers request of None \<Rightarrow> [] | Some ps \<Rightarrow> ps)
     in \<lparr>nr_type = br_type request, nr_address = br_address request, nr_start = br_start request,
         nr_finish = br_finish request,
         nr_durationInSecs = (case br_finish request of
             Some f \<Rightarrow> if f \<noteq> 0 then Some \<lceil>of_int (f - br_start request) / (1000000000 :: rat)\<rceil> else None
           | None \<Rightarrow> None),
         nr_peerId = br_peer_id request,
         nr_existingPeers = length (filter (\<lambda>(_, t). t = Peer_EXISTING) peers),
         nr_newPeers = length (filter (\<lambda>(_, t). t = Peer_NEW) peers),
         nr_error = br_error request,
         nr_typeErr = br_type request @ (case br_error request of
             Some err \<Rightarrow> if err \<noteq> [] then ''- '' @ err else []
           | None \<Rightarrow> []),
         nr_closestPeers = peers\<rparr>) requests"

definition bootstrapStatsInitialState :: NetworkBootstrapStatsState where
  "bootstrapStatsInitialState =
     \<lparr>nst_boostrapStats = [], nst_activeBootstrapRequest = None, nst_sort = \<lparr>sortBy = ''start'', sortDirection = ASC\<rparr>\<rparr>"

definition sortRequests ::
  "NetworkBootstrapStatsRequest sorter \<Rightarrow> NetworkBootstrapStatsRequest list \<Rightarrow> tableSort \<Rightarrow> NetworkBootstrapStatsRequest list" where
  "sortRequests srt requests ts = srt requests ts"

fun networkBootstrapStatsReducer ::
  "NetworkBootstrapStatsRequest sorter \<Rightarrow> NetworkBootstrapStatsState \<Rightarrow> NetworkBootstrapStatsActions
     \<Rightarrow> NetworkBootstrapStatsState" where
  "networkBootstrapStatsReducer srt state (NETWORK_BOOTSTRAP_STATS_GET_BOOTSTRAP_STATS_SUCCESS payload) =
     state\<lparr>nst_boostrapStats := sortRequests srt payload (nst_sort state)\<rparr>"
| "networkBootstrapStatsReducer srt state (NETWORK_BOOTSTRAP_STATS_SET_ACTIVE_BOOTSTRAP_REQUEST payload) =
     state\<lparr>nst_activeBootstrapRequest := payload\<rparr>"
| "networkBootstrapStatsReducer srt state (NETWORK_BOOTSTRAP_STATS_SORT payload) =
     state\<lparr>nst_sort := payload, nst_boostrapStats := sortRequests srt (nst_boostrapStats state) payload\<rparr>"
| "networkBootstrapStatsReducer srt state NETWORK_BOOTSTRAP_STATS_CLOSE = bootstrapStatsInitialState"
| "networkBootstrapStatsReducer srt state _ = state"

definition bootstrapStatsInit_effect :: "NetworkBootstrapStatsActions \<Rightarrow> NetworkBootstrapStatsActions option" where
  "bootstrapStatsInit_effect action =
     (case action of NETWORK_BOOTSTRAP_STATS_INIT \<Rightarrow> Some NETWORK_BOOTSTRAP_STATS_GET_BOOTSTRAP_STATS | _ \<Rightarrow> None)"

text \<open>\<open>getBootstrapStats$\<close>: the \<open>tap\<close> that clears \<open>pendingRequest\<close> stands before \<open>catchErrorAndRepeat\<close>, so an error
  skips it.\<close>

definition getBootstrapStats_effect ::
  "string \<Rightarrow> (bool, NetworkBootstrapStatsActions, unit, NetworkBootstrapStatsRequest list,
     NetworkBootstrapStatsActions dispatched) effect" where
  "getBootstrapStats_effect now =
     \<lparr>on_action = (\<lambda>action pendingRequest. case action of
          NETWORK_BOOTSTRAP_STATS_GET_BOOTSTRAP_STATS \<Rightarrow>
            if \<not> pendingRequest then (True, Switch_request ()) else (pendingRequest, Filtered)
        | NETWORK_BOOTSTRAP_STATS_CLOSE \<Rightarrow> (False, Switch_empty)
        | _ \<Rightarrow> (pendingRequest, Filtered)),
      on_value = (\<lambda>_ payload _. (False, [Dispatch (NETWORK_BOOTSTRAP_STATS_GET_BOOTSTRAP_STATS_SUCCESS payload)])),
      on_error = (\<lambda>e pendingRequest. (pendingRequest,
        catchErrorAndRepeat now RUST (NETWORK_BOOTSTRAP_STATS_GET_BOOTSTRAP_STATS_SUCCESS []) e))\<rparr>"

interpretation bootstrapStats_close: cancel_on_close "getBootstrapStats_effect now" "\<lambda>a. a = NETWORK_BOOTSTRAP_STATS_CLOSE"
  by unfold_locales (simp add: getBootstrapStats_effect_def)

section \<open>Latencies\<close>

definition event_time :: "rawBlockEvent \<Rightarrow> nat" where
  "event_time ev = be_secs ev * 1000000000 + be_nanos ev"

lemma padNanos_replicate: "padNanos s = replicate (9 - length s) CHR 0x30 @ s"
proof (induction s rule: padNanos.induct)
  case (1 s)
  show ?case
  proof (cases "length s < 9")
    case True
    then have "9 - length s = Suc (9 - length (CHR 0x30 # s))" by simp
    then have "replicate (9 - length s) CHR 0x30 @ s = replicate (9 - length (CHR 0x30 # s)) CHR 0x30 @ CHR 0x30 # s"
      by (simp only: replicate_Suc append_Cons replicate_app_Cons_same)
    with 1 True show ?thesis by (simp add: padNanos.simps [of s])
  qed (simp add: padNanos.simps [of s])
qed

lemma of_radix_zeros: "of_radix b (replicate n CHR 0x30) = 0"
proof (induction n)
  case (Suc n)
  have "of_radix b (replicate (Suc n) CHR 0x30) = of_radix b (replicate n CHR 0x30 @ [CHR 0x30])"
    by (simp only: replicate_append_same replicate_Suc)
  also have "\<dots> = 0" using Suc by (simp add: digit_value_def)
  finally show ?case .
qed simp

text \<open>The timestamp text of an event is its time in nanoseconds.\<close>

lemma timestamp_value:
  assumes "be_nanos ev < 1000000000"
  shows "js_BigInt (getTimestamp ev) = int (event_time ev)"
proof -
  have "length (dec (be_nanos ev)) \<le> Suc 8"
    using assms by (intro length_to_radix_le) simp_all
  then have "length (padNanos (dec (be_nanos ev))) = 9" by (simp add: padNanos_replicate)
  moreover have "of_radix 10 (padNanos (dec (be_nanos ev))) = be_nanos ev"
    by (simp add: padNanos_replicate of_radix_append of_radix_zeros of_to_radix)
  ultimately show ?thesis
    by (simp add: js_BigInt_def getTimestamp_def of_radix_append of_to_radix event_time_def)
qed

lemma foldl_fastest: "foldl (\<lambda>t1 t2. if t2 < t1 then t2 else t1) (t :: int) ts = Min (insert t (set ts))"
proof (induction ts arbitrary: t)
  case (Cons u us)
  have "foldl (\<lambda>t1 t2. if t2 < t1 then t2 else t1) t (u # us) = Min (insert (min t u) (set us))"
    using Cons.IH by (simp add: min_def)
  also have "\<dots> = Min (insert t (set (u # us)))"
    by (cases "us = []") (simp_all add: Min_insert min.assoc)
  finally show ?case .
qed simp

lemma fastest_Min: "xs \<noteq> [] \<Longrightarrow> fastest xs = Inr (Min (set xs))"
  by (cases xs) (simp_all add: foldl_fastest)

lemma fastest_error: "(\<exists>e. fastest xs = Inl e) \<longleftrightarrow> xs = []"
  by (cases xs) simp_all

text \<open>C29. Latencies on the blocks page. When the nanoseconds are below a second, the text of a timestamp is the
  time of the event in nanoseconds, and every event has one latency, as receiver or as sender, which is
  its time after the earliest event in seconds; so latencies are not negative and the earliest event has
  latency zero. A block with no events makes the mapping fail, and an unknown block has no rows.\<close>

theorem network_block_latencies:
  assumes "list_all (\<lambda>ev. be_nanos ev < 1000000000) events" and "events \<noteq> []"
    and "t0 = Min (event_time ` set events)"
  shows "mapBlocks dt (Some events) = Inr (map (mapBlock dt (int t0)) events)
    \<and> (\<forall>ev \<in> set events. js_BigInt (nk_timestamp (mapBlock dt (int t0) ev)) = int (event_time ev) \<and> t0 \<le> event_time ev
        \<and> (if be_incoming ev then nk_receivedLatency (mapBlock dt (int t0) ev) else nk_sentLatency (mapBlock dt (int t0) ev))
            = Some (of_nat (event_time ev - t0) / 1000000000)
        \<and> (if be_incoming ev then nk_sentLatency (mapBlock dt (int t0) ev) else nk_receivedLatency (mapBlock dt (int t0) ev)) = None)
    \<and> (\<exists>ev \<in> set events. event_time ev = t0)
    \<and> mapBlocks dt (Some []) = Inl TypeError \<and> mapBlocks dt None = Inr []"
proof (intro conjI ballI)
  have ts: "js_BigInt (getTimestamp ev) = int (event_time ev)" if "ev \<in> set events" for ev
    using that assms(1) timestamp_value by (auto simp: list_all_iff)
  have "Min (set (map (js_BigInt \<circ> getTimestamp) events)) = Min (int ` event_time ` set events)"
    using ts by (simp add: image_image cong: image_cong)
  also have "\<dots> = int t0"
    using assms(2,3) by (simp add: mono_Min_commute [of int, symmetric] mono_def)
  finally show "mapBlocks dt (Some events) = Inr (map (mapBlock dt (int t0)) events)"
    using fastest_Min [of "map (js_BigInt \<circ> getTimestamp) events"] assms(2) by (simp add: mapBlocks_def)
  have "t0 \<in> event_time ` set events"
    unfolding assms(3) by (rule Min_in) (use assms(2) in simp_all)
  then show "\<exists>ev \<in> set events. event_time ev = t0" by auto
  fix ev assume ev: "ev \<in> set events"
  show "js_BigInt (nk_timestamp (mapBlock dt (int t0) ev)) = int (event_time ev)" by (simp add: mapBlock_def ts [OF ev])
  show le: "t0 \<le> event_time ev" using ev assms(3) by simp
  show "(if be_incoming ev then nk_receivedLatency (mapBlock dt (int t0) ev) else nk_sentLatency (mapBlock dt (int t0) ev))
            = Some (of_nat (event_time ev - t0) / 1000000000)"
    using le by (simp add: mapBlock_def latency_def ts [OF ev] of_nat_diff)
  show "(if be_incoming ev then nk_sentLatency (mapBlock dt (int t0) ev) else nk_receivedLatency (mapBlock dt (int t0) ev)) = None"
    by (simp add: mapBlock_def)
qed (simp_all add: mapBlocks_def)

definition sample_event :: "nat \<Rightarrow> nat \<Rightarrow> bool \<Rightarrow> rawBlockEvent" where
  "sample_event s n i = \<lparr>be_message_kind = ''k'', be_producer_id = ''p'', be_hash = ''h'', be_secs = s, be_nanos = n,
     be_sender_addr = ''a'', be_receiver_addr = ''b'', be_block_height = 1, be_global_slot = 1, be_message_id = 1, be_incoming = i\<rparr>"

theorem network_block_latencies_witness:
  "\<exists>bs. mapBlocks (\<lambda>_. []) (Some [sample_event 2 5 True, sample_event 1 7 False]) = Inr bs \<and>
     nk_sentLatency (bs ! 1) = Some 0 \<and> nk_receivedLatency (bs ! 0) = Some (999999998 / 1000000000)"
  using network_block_latencies [of "[sample_event 2 5 True, sample_event 1 7 False]" 1000000007 "\<lambda>_. []"]
  by (simp add: sample_event_def event_time_def)

section \<open>Filters of the blocks page\<close>

lemma applyNewLatencies_error: "(\<exists>e. applyNewLatencies bs = Inl e) \<longleftrightarrow> bs = []"
  using fastest_error [of "map (js_BigInt \<circ> nk_timestamp) bs"] by (auto simp: applyNewLatencies_def map_sum_def split: sum.splits)

lemma sorter_Nil: "sorter_permutes srt \<Longrightarrow> srt xs ts = [] \<longleftrightarrow> xs = []"
  by (metis sorter_length length_0_conv)

definition toggled_filters :: "string list \<Rightarrow> string \<Rightarrow> string list" where
  "toggled_filters fs x = (if x \<in> set fs then filter (\<lambda>f. f \<noteq> x) fs else fs @ [x])"

text \<open>When the reducer of the blocks page throws: exactly when a response arrives while filters are active that
  none of its blocks matches, or when a filter is toggled and no block is left. So a request that fails while a
  filter is active makes the reducer throw, since the pipeline then dispatches an empty list of blocks.\<close>

lemma network_blocks_throw:
  assumes "sorter_permutes srt"
  shows "((\<exists>e. networkBlocksReducer srt s (NETWORK_BLOCKS_GET_BLOCKS_SUCCESS payload) = Inl e) \<longleftrightarrow>
        nks_activeFilters s \<noteq> [] \<and> (\<forall>b \<in> set payload. nk_hash b \<notin> set (nks_activeFilters s)))
    \<and> ((\<exists>e. networkBlocksReducer srt s (NETWORK_BLOCKS_TOGGLE_FILTER x) = Inl e) \<longleftrightarrow>
        getFilteredBlocks (nks_blocks s) (toggled_filters (nks_activeFilters s) x) = [])
    \<and> ((\<nexists>p. a = NETWORK_BLOCKS_GET_BLOCKS_SUCCESS p) \<and> (\<nexists>y. a = NETWORK_BLOCKS_TOGGLE_FILTER y) \<longrightarrow>
        (\<exists>s'. networkBlocksReducer srt s a = Inr s'))
    \<and> (nks_activeFilters s \<noteq> [] \<longrightarrow> rx_step (getBlocks_effect now) (f, Some q) (Rx_error err) out r \<longrightarrow>
        (\<exists>act e. Dispatch act \<in> set out \<and> networkBlocksReducer srt s act = Inl e))"
proof (intro conjI impI)
  let ?F = "getFilteredBlocks (srt payload (nks_sort s)) (nks_activeFilters s)"
  have "?F = [] \<longleftrightarrow> (\<forall>b \<in> set payload. nk_hash b \<notin> set (nks_activeFilters s))" if "nks_activeFilters s \<noteq> []"
    using that by (simp add: getFilteredBlocks_def filter_empty_conv sorter_set [OF assms])
  then show get: "(\<exists>e. networkBlocksReducer srt s (NETWORK_BLOCKS_GET_BLOCKS_SUCCESS payload) = Inl e) \<longleftrightarrow>
        nks_activeFilters s \<noteq> [] \<and> (\<forall>b \<in> set payload. nk_hash b \<notin> set (nks_activeFilters s))" for payload
    using applyNewLatencies_error [of "getFilteredBlocks (srt payload (nks_sort s)) (nks_activeFilters s)"]
      sorter_set [OF assms, of payload]
    by (auto simp: Let_def sortBlocks_def getFilteredBlocks_def filter_empty_conv split: sum.splits)
  show "(\<exists>e. networkBlocksReducer srt s (NETWORK_BLOCKS_TOGGLE_FILTER x) = Inl e) \<longleftrightarrow>
        getFilteredBlocks (nks_blocks s) (toggled_filters (nks_activeFilters s) x) = []"
    using applyNewLatencies_error [of "srt (getFilteredBlocks (nks_blocks s) (toggled_filters (nks_activeFilters s) x)) (nks_sort s)"]
      sorter_Nil [OF assms]
    by (auto simp: Let_def sortBlocks_def toggled_filters_def split: sum.splits)
  show "\<exists>s'. networkBlocksReducer srt s a = Inr s'"
    if "(\<nexists>p. a = NETWORK_BLOCKS_GET_BLOCKS_SUCCESS p) \<and> (\<nexists>y. a = NETWORK_BLOCKS_TOGGLE_FILTER y)"
    using that by (cases a) auto
  assume "nks_activeFilters s \<noteq> []" and "rx_step (getBlocks_effect now) (f, Some q) (Rx_error err) out r"
  then show "\<exists>act e. Dispatch act \<in> set out \<and> networkBlocksReducer srt s act = Inl e"
    using get [of "[]"] by (intro exI [of _ "NETWORK_BLOCKS_GET_BLOCKS_SUCCESS []"])
      (auto simp: getBlocks_effect_def catchErrorAndRepeat_def simp del: networkBlocksReducer.simps)
qed

lemma network_blocks_throw_witness:
  "\<exists>e. networkBlocksReducer (\<lambda>xs _. xs) (networkBlocksInitialState\<lparr>nks_activeFilters := [''h'']\<rparr>)
     (NETWORK_BLOCKS_GET_BLOCKS_SUCCESS []) = Inl e"
  using network_blocks_throw [of "\<lambda>xs _. xs" "networkBlocksInitialState\<lparr>nks_activeFilters := [''h'']\<rparr>" "[]"]
  by (simp add: sorter_permutes_def networkBlocksInitialState_def del: networkBlocksReducer.simps)

section \<open>Polling after an error\<close>

lemma bootstrapStats_stuck:
  "rx_run (getBootstrapStats_effect now) s evs outs s' \<Longrightarrow> s = (True, None) \<Longrightarrow>
   Rx_action NETWORK_BOOTSTRAP_STATS_CLOSE \<notin> set evs \<Longrightarrow> s' = (True, None) \<and> outs = []"
proof (induction rule: rx_run.induct)
  case (run_Cons s ev out s1 evs outs s2)
  then have "s1 = (True, None) \<and> out = []"
    by (cases ev) (auto simp: rx_step_apply getBootstrapStats_effect_def split: NetworkBootstrapStatsActions.splits)
  with run_Cons show ?case by auto
qed simp

text \<open>C36. One failed request stops the polling of three network pages. On the messages, blocks and connections pages
  the next tick of the timer sends a request after a response, but after a failure no tick does, since
  \<open>waitingForServer\<close> stays set. The statistics page likewise sends no request after a failure until it is closed.\<close>

theorem network_pages_stall:
  assumes "waitingForServer f" and "streamActive f"
  shows "(rx_step (getMessages_effect d dt now) (f, Some q1) (Rx_value v1) out1 s1 \<longrightarrow>
        snd (tick_step (getMessages_effect d dt now) (\<lambda>f. map_option (\<lambda>a. (a, st1)) (init_tick f)) s1) \<noteq> None)
    \<and> (rx_step (getMessages_effect d dt now) (f, Some q1) (Rx_error e) out1 s1 \<longrightarrow>
        (tick_step (getMessages_effect d dt now) (\<lambda>f. map_option (\<lambda>a. (a, st1)) (init_tick f)) ^^ n) s1 = (f, None))
    \<and> (rx_step (getBlocks_effect now) (f, Some q2) (Rx_value v2) out2 s2 \<longrightarrow>
        snd (tick_step (getBlocks_effect now) (\<lambda>f. map_option (\<lambda>a. (a, st2)) (blocks_tick f)) s2) \<noteq> None)
    \<and> (rx_step (getBlocks_effect now) (f, Some q2) (Rx_error e) out2 s2 \<longrightarrow>
        (tick_step (getBlocks_effect now) (\<lambda>f. map_option (\<lambda>a. (a, st2)) (blocks_tick f)) ^^ n) s2 = (f, None))
    \<and> (rx_step (getConnections_effect d dt now) (f, Some q3) (Rx_value v3) out3 s3 \<longrightarrow>
        snd (tick_step (getConnections_effect d dt now) (\<lambda>f. map_option (\<lambda>a. (a, st3)) (connections_tick f)) s3) \<noteq> None)
    \<and> (rx_step (getConnections_effect d dt now) (f, Some q3) (Rx_error e) out3 s3 \<longrightarrow>
        (tick_step (getConnections_effect d dt now) (\<lambda>f. map_option (\<lambda>a. (a, st3)) (connections_tick f)) ^^ n) s3 = (f, None))
    \<and> (rx_run (getBootstrapStats_effect now) (True, Some ()) (Rx_error e # evs) out4 s4 \<longrightarrow>
        Rx_action NETWORK_BOOTSTRAP_STATS_CLOSE \<notin> set evs \<longrightarrow> s4 = (True, None))"
proof (intro conjI impI)
  assume "rx_run (getBootstrapStats_effect now) (True, Some ()) (Rx_error e # evs) out4 s4"
    and close: "Rx_action NETWORK_BOOTSTRAP_STATS_CLOSE \<notin> set evs"
  then obtain out outs s where "rx_step (getBootstrapStats_effect now) (True, Some ()) (Rx_error e) out s"
    and run: "rx_run (getBootstrapStats_effect now) s evs outs s4" by (auto simp: rx_run_Cons)
  then have "s = (True, None)" by (auto simp: getBootstrapStats_effect_def)
  with bootstrapStats_stuck [OF run _ close] show "s4 = (True, None)" by simp
qed (use messages_poll.poll_continues messages_poll.poll_stalls blocks_poll.poll_continues blocks_poll.poll_stalls
      connections_poll.poll_continues connections_poll.poll_stalls assms in \<open>metis\<close>)+

theorem network_pages_stall_witness:
  "(tick_step (getBlocks_effect ''t'') (\<lambda>f. map_option (\<lambda>a. (a, networkBlocksInitialState)) (blocks_tick f)) ^^ 9)
     (\<lparr>streamActive = True, waitingForServer = True\<rparr>, None) = (\<lparr>streamActive = True, waitingForServer = True\<rparr>, None)"
  using network_pages_stall [of "\<lparr>streamActive = True, waitingForServer = True\<rparr>"]
  by (simp add: getBlocks_effect_def)

end
