(* ===== verification/Production_Overview.thy ===== *)
theory Production_Overview
  imports Store_Reducer Effect_Pipeline
begin

text \<open>
  The overview page of block production (\<open>features/block-production/overview\<close>): the epochs of a producer, the
  slots of the chosen epoch and the rewards. The service maps the answers of the node, the effects
  chain the requests (the details of an epoch ask for the epochs around it and for its slots), the reducer
  collects the three answers in one object, and the components colour the slots, lay them out in a grid and
  count them.

  \<open>Intl.NumberFormat\<close> (\<open>fmt\<close>), \<open>toReadableDate\<close> and \<open>hasValue\<close> are parameters. A slot of the route that is missing or not a
  number is \<open>None\<close>: the code only compares it with slots and reads its truth.
\<close>

section \<open>Data\<close>

datatype BlockStatus =
    Status_Empty | Status_ToBeProduced | Status_Orphaned | Status_OrphanedPending
  | Status_Canonical | Status_CanonicalPending | Status_Foreign | Status_Missed

record BlockProductionOverviewWindow =
  pw_start :: int
  pw_end :: int
  pw_canonical :: int
  pw_missed :: int
  pw_orphaned :: int
  pw_futureRights :: int
  pw_interval :: "int \<times> int"

record BlockProductionOverviewSlot =
  os_slot :: int
  os_globalSlot :: int
  os_height :: "int option"
  os_time :: int
  os_status :: BlockStatus
  os_finished :: bool
  os_canonical :: bool
  os_orphaned :: bool
  os_missed :: bool
  os_futureRights :: bool
  os_hash :: "string option"
  os_active :: bool

record BlockProductionOverviewEpochDetails =
  ed_epochNumber :: int
  ed_totalSlots :: int
  ed_wonSlots :: int
  ed_canonical :: int
  ed_orphaned :: int
  ed_missed :: int
  ed_futureRights :: int
  ed_slotStart :: int
  ed_slotEnd :: int
  ed_expectedRewards :: "string option"
  ed_earnedRewards :: "string option"
  ed_balanceDelegated :: "string option"
  ed_balanceProducer :: "string option"
  ed_balanceStaked :: "string option"

record BlockProductionOverviewAllStats =
  as_wonSlots :: int
  as_totalSlots :: int
  as_canonical :: int
  as_orphaned :: int
  as_missed :: int
  as_futureRights :: int
  as_expectedRewards :: string
  as_earnedRewards :: string

record BlockProductionOverviewFilters =
  pf_canonical :: bool
  pf_orphaned :: bool
  pf_missed :: bool
  pf_future :: bool

text \<open>An epoch of the list, without the optional details and slots.\<close>

record BlockProductionOverviewEpoch =
  pe_epochNumber :: int
  pe_windows :: "BlockProductionOverviewWindow list"
  pe_finishedWindows :: nat
  pe_isLastEpoch :: bool

text \<open>The active epoch is put together from three answers: the epoch of the list, the details and the slots, each of
  which may be missing.\<close>

record active_epoch =
  ae_epoch :: "BlockProductionOverviewEpoch option"
  ae_details :: "BlockProductionOverviewEpochDetails option"
  ae_slots :: "BlockProductionOverviewSlot list option"

datatype overview_scale = Linear | Adaptive

record BlockProductionOverviewState =
  po_epochs :: "BlockProductionOverviewEpoch list"
  po_activeEpoch :: "active_epoch option"
  po_activeEpochNumber :: "int option"
  po_allTimeStats :: "BlockProductionOverviewAllStats option"
  po_filters :: BlockProductionOverviewFilters
  po_activeSlot :: "BlockProductionOverviewSlot option"
  po_activeSlotRoute :: "int option"
  po_scale :: overview_scale
  po_isLoading :: bool
  po_isCalculatingVRF :: bool

datatype BlockProductionOverviewActions =
    Overview_init
  | Overview_close
  | GetEpochs "int option"
  | GetEpochsSuccess "BlockProductionOverviewEpoch list"
  | GetSlots "int option"
  | GetSlotsSuccess "BlockProductionOverviewSlot list"
  | GetEpochDetails "int option"
  | GetEpochDetailsSuccess "BlockProductionOverviewEpochDetails option"
  | GetRewardsStats
  | GetRewardsStatsSuccess "BlockProductionOverviewAllStats option"
  | ChangeFilters BlockProductionOverviewFilters
  | ChangeScale overview_scale
  | SetActiveSlot "int option"

text \<open>The answers of the node.\<close>

record window_response =
  wr_won_slots :: int
  wr_canonical :: int
  wr_orphaned :: int
  wr_missed :: int
  wr_future_rights :: int
  wr_slot_start :: int
  wr_slot_end :: int
  wr_expected_rewards :: js_number
  wr_earned_rewards :: js_number
  wr_is_current :: bool

record BlockProductionEpochPaginationResponse =
  ep_epoch_number :: int
  ep_balance_delegated :: string
  ep_balance_producer :: string
  ep_balance_staked :: string
  ep_summary :: "window_response option"
  ep_sub_windows :: "window_response list"

record AllStatsResponse =
  sr_won_slots :: int
  sr_canonical :: int
  sr_orphaned :: int
  sr_missed :: int
  sr_future_rights :: int
  sr_expected_rewards :: string
  sr_earned_rewards :: string

record SlotResponse =
  sl_slot :: int
  sl_global_slot :: int
  sl_block_status :: BlockStatus
  sl_timestamp :: int
  sl_state_hash :: "string option"
  sl_height :: "int option"

section \<open>Service\<close>

text \<open>\<open>Number(x) / ONE_BILLION\<close> as text.\<close>

definition mina_amount :: "(js_number \<Rightarrow> string) \<Rightarrow> js_number \<Rightarrow> string" where
  "mina_amount fmt n = fmt (case n of Finite q \<Rightarrow> Finite (q / 1000000000) | NaN \<Rightarrow> NaN)"

definition epoch_path :: "int option \<Rightarrow> string" where
  "epoch_path epochNumber = (case epochNumber of None \<Rightarrow> ''latest'' | Some n \<Rightarrow> show_int n)"

definition getEpochDetails_url :: "int option \<Rightarrow> string" where
  "getEpochDetails_url epochNumber = ''/epoch/summary/'' @ epoch_path epochNumber"

text \<open>The answer is one epoch or an array of them, of which the first is taken.\<close>

datatype epoch_answer = One_epoch BlockProductionEpochPaginationResponse
  | Epochs "BlockProductionEpochPaginationResponse list"

definition epochDetails ::
  "(js_number \<Rightarrow> string) \<Rightarrow> BlockProductionEpochPaginationResponse \<Rightarrow> BlockProductionOverviewEpochDetails" where
  "epochDetails fmt response =
     (case ep_summary response of
        None \<Rightarrow>
          \<lparr>ed_epochNumber = ep_epoch_number response, ed_totalSlots = 0, ed_wonSlots = 0, ed_canonical = 0, ed_orphaned = 0,
           ed_missed = 0, ed_futureRights = 0, ed_slotStart = 0, ed_slotEnd = 0, ed_expectedRewards = None,
           ed_earnedRewards = None, ed_balanceDelegated = None, ed_balanceProducer = None, ed_balanceStaked = None\<rparr>
      | Some sm \<Rightarrow>
          \<lparr>ed_epochNumber = ep_epoch_number response,
           ed_totalSlots = wr_canonical sm + wr_orphaned sm + wr_missed sm + wr_future_rights sm,
           ed_wonSlots = wr_won_slots sm, ed_canonical = wr_canonical sm, ed_orphaned = wr_orphaned sm,
           ed_missed = wr_missed sm, ed_futureRights = wr_future_rights sm, ed_slotStart = wr_slot_start sm,
           ed_slotEnd = wr_slot_end sm, ed_expectedRewards = Some (mina_amount fmt (wr_expected_rewards sm)),
           ed_earnedRewards = Some (mina_amount fmt (wr_earned_rewards sm)),
           ed_balanceDelegated = Some (mina_amount fmt (js_Number (ep_balance_delegated response))),
           ed_balanceProducer = Some (mina_amount fmt (js_Number (ep_balance_producer response))),
           ed_balanceStaked = Some (mina_amount fmt (js_Number (ep_balance_staked response)))\<rparr>)"

fun getEpochDetails_map ::
  "(js_number \<Rightarrow> string) \<Rightarrow> epoch_answer \<Rightarrow> js_error + BlockProductionOverviewEpochDetails" where
  "getEpochDetails_map fmt (One_epoch response) = Inr (epochDetails fmt response)"
| "getEpochDetails_map fmt (Epochs []) = Inl TypeError"
| "getEpochDetails_map fmt (Epochs (response # _)) = Inr (epochDetails fmt response)"

definition getSlots_urls :: "int option \<Rightarrow> string \<times> string" where
  "getSlots_urls epochNumber = (''/epoch/'' @ epoch_path epochNumber, ''/node/current_slot'')"

definition overviewSlot :: "nat option \<Rightarrow> nat \<Rightarrow> SlotResponse \<Rightarrow> BlockProductionOverviewSlot" where
  "overviewSlot activeSlotIndex i slot =
     \<lparr>os_slot = sl_slot slot, os_globalSlot = sl_global_slot slot, os_height = sl_height slot, os_time = sl_timestamp slot,
      os_status = sl_block_status slot,
      os_finished = ((case activeSlotIndex of None \<Rightarrow> False | Some k \<Rightarrow> i < k) \<and> sl_block_status slot \<noteq> Status_Empty),
      os_canonical = (sl_block_status slot = Status_Canonical \<or> sl_block_status slot = Status_CanonicalPending),
      os_orphaned = (sl_block_status slot = Status_Orphaned \<or> sl_block_status slot = Status_OrphanedPending),
      os_missed = (sl_block_status slot = Status_Missed),
      os_futureRights = (sl_block_status slot = Status_ToBeProduced),
      os_hash = sl_state_hash slot, os_active = (activeSlotIndex = Some i)\<rparr>"

definition getSlots_map :: "SlotResponse list \<Rightarrow> int \<Rightarrow> BlockProductionOverviewSlot list" where
  "getSlots_map response current_global_slot =
     (let activeSlotIndex = find_index (\<lambda>slot. sl_global_slot slot = current_global_slot) response
      in map (\<lambda>(slot, i). overviewSlot activeSlotIndex i slot) (zip response [0 ..< length response]))"

text \<open>\<open>getEpochs\<close> with the limit that is its default; a missing number is written into the path as it is.\<close>

definition getEpochs_url :: "(int option \<Rightarrow> bool) \<Rightarrow> int option \<Rightarrow> nat \<Rightarrow> string" where
  "getEpochs_url hasValue epochNumber limit =
     (let n = (if hasValue epochNumber then map_option (\<lambda>e. max (e + 3) 6) epochNumber else epochNumber)
      in ''/epoch/summary/'' @ (case n of None \<Rightarrow> ''undefined'' | Some k \<Rightarrow> show_int k) @ ''?limit='' @ dec (limit + 2))"

definition overviewWindow :: "window_response \<Rightarrow> BlockProductionOverviewWindow" where
  "overviewWindow w =
     \<lparr>pw_start = wr_slot_start w, pw_end = wr_slot_end w, pw_canonical = wr_canonical w, pw_missed = wr_missed w,
      pw_orphaned = wr_orphaned w, pw_futureRights = wr_future_rights w, pw_interval = (wr_slot_start w, wr_slot_end w)\<rparr>"

definition getEpochs_map :: "BlockProductionEpochPaginationResponse list \<Rightarrow> BlockProductionOverviewEpoch list" where
  "getEpochs_map response =
     map (\<lambda>epoch.
       \<lparr>pe_epochNumber = ep_epoch_number epoch, pe_windows = map overviewWindow (ep_sub_windows epoch),
        pe_finishedWindows = (case find_index wr_is_current (ep_sub_windows epoch) of None \<Rightarrow> 0 | Some i \<Rightarrow> i + 1),
        pe_isLastEpoch = list_ex (\<lambda>w. wr_future_rights w > 0) (ep_sub_windows epoch)\<rparr>) (rev response)"

definition getRewardsAllTimeStats :: "(js_number \<Rightarrow> string) \<Rightarrow> AllStatsResponse \<Rightarrow> BlockProductionOverviewAllStats" where
  "getRewardsAllTimeStats fmt response =
     \<lparr>as_wonSlots = sr_won_slots response,
      as_totalSlots = sr_canonical response + sr_orphaned response + sr_missed response + sr_future_rights response,
      as_canonical = sr_canonical response, as_orphaned = sr_orphaned response, as_missed = sr_missed response,
      as_futureRights = sr_future_rights response,
      as_expectedRewards = mina_amount fmt (js_Number (sr_expected_rewards response)),
      as_earnedRewards = mina_amount fmt (js_Number (sr_earned_rewards response))\<rparr>"

section \<open>Reducer\<close>

definition SLOTS_PER_EPOCH :: nat where
  "SLOTS_PER_EPOCH = 7140"

definition productionOverviewInitialState :: BlockProductionOverviewState where
  "productionOverviewInitialState =
     \<lparr>po_epochs = [], po_activeEpoch = None, po_activeEpochNumber = None, po_allTimeStats = None,
      po_filters = \<lparr>pf_canonical = True, pf_orphaned = True, pf_missed = True, pf_future = True\<rparr>,
      po_activeSlot = None, po_activeSlotRoute = None, po_scale = Adaptive, po_isLoading = True, po_isCalculatingVRF = False\<rparr>"

text \<open>The spread \<open>...state.activeEpoch\<close>: an epoch that is not there has no field.\<close>

definition spread_epoch :: "active_epoch option \<Rightarrow> active_epoch" where
  "spread_epoch e = (case e of None \<Rightarrow> \<lparr>ae_epoch = None, ae_details = None, ae_slots = None\<rparr> | Some a \<Rightarrow> a)"

definition find_slot :: "int option \<Rightarrow> BlockProductionOverviewSlot list \<Rightarrow> BlockProductionOverviewSlot option" where
  "find_slot route slots = List.find (\<lambda>s. Some (os_slot s) = route) slots"

fun blockProductionOverviewReducer ::
  "BlockProductionOverviewState \<Rightarrow> BlockProductionOverviewActions \<Rightarrow> js_error + BlockProductionOverviewState" where
  "blockProductionOverviewReducer state (GetEpochsSuccess epochs) =
     Inr (state\<lparr>po_epochs := epochs,
       po_activeEpoch := Some (let a = spread_epoch (po_activeEpoch state)
         in case List.find (\<lambda>e. Some (pe_epochNumber e) = po_activeEpochNumber state) epochs of
              None \<Rightarrow> a | Some e \<Rightarrow> a\<lparr>ae_epoch := Some e\<rparr>)\<rparr>)"
| "blockProductionOverviewReducer state (GetEpochDetails epochNumber) =
     Inr (state\<lparr>po_activeEpochNumber := epochNumber\<rparr>)"
| "blockProductionOverviewReducer state (GetEpochDetailsSuccess details) =
     Inr (state\<lparr>po_activeEpoch := Some ((spread_epoch (po_activeEpoch state))\<lparr>ae_details := details\<rparr>),
       po_activeEpochNumber := (if truthy_num (po_activeEpochNumber state) then po_activeEpochNumber state
         else map_option ed_epochNumber details)\<rparr>)"
| "blockProductionOverviewReducer state (GetSlotsSuccess slots) =
     Inr (state\<lparr>po_activeEpoch := Some ((spread_epoch (po_activeEpoch state))\<lparr>ae_slots := Some slots\<rparr>),
       po_activeSlot := find_slot (po_activeSlotRoute state) slots,
       po_isLoading := False,
       po_isCalculatingVRF := (length slots \<noteq> 0 \<and> length slots \<noteq> SLOTS_PER_EPOCH)\<rparr>)"
| "blockProductionOverviewReducer state (ChangeFilters filters) = Inr (state\<lparr>po_filters := filters\<rparr>)"
| "blockProductionOverviewReducer state (GetRewardsStatsSuccess stats) = Inr (state\<lparr>po_allTimeStats := stats\<rparr>)"
| "blockProductionOverviewReducer state (ChangeScale scale) = Inr (state\<lparr>po_scale := scale\<rparr>)"
| "blockProductionOverviewReducer state (SetActiveSlot slot) =
     (case po_activeEpoch state of
        None \<Rightarrow> Inr (state\<lparr>po_activeSlotRoute := slot, po_activeSlot := None\<rparr>)
      | Some a \<Rightarrow>
          (case ae_slots a of
             None \<Rightarrow> Inl TypeError
           | Some slots \<Rightarrow> Inr (state\<lparr>po_activeSlotRoute := slot, po_activeSlot := find_slot slot slots\<rparr>)))"
| "blockProductionOverviewReducer state Overview_close = Inr productionOverviewInitialState"
| "blockProductionOverviewReducer state Overview_init = Inr state"
| "blockProductionOverviewReducer state (GetEpochs _) = Inr state"
| "blockProductionOverviewReducer state (GetSlots _) = Inr state"
| "blockProductionOverviewReducer state GetRewardsStats = Inr state"

section \<open>Effects\<close>

text \<open>What the effects do: dispatch an action, or navigate to the epoch and, when one is chosen, its slot.\<close>

datatype overview_output = Out "BlockProductionOverviewActions dispatched" | Navigate "int list"

type_synonym ('q, 'r) overview_effect =
  "(unit, BlockProductionOverviewActions \<times> BlockProductionOverviewState, 'q, 'r, overview_output) effect"

definition epoch_route :: "int option \<Rightarrow> int \<Rightarrow> int list" where
  "epoch_route activeSlotRoute epochNumber =
     epochNumber # (if truthy_num activeSlotRoute then [the activeSlotRoute] else [])"

text \<open>The request remembers the slot of the route in the state that came with the action.\<close>

definition getActiveEpochDetails_effect ::
  "string \<Rightarrow> (string \<times> int option, BlockProductionOverviewEpochDetails) overview_effect" where
  "getActiveEpochDetails_effect now =
     \<lparr>on_action = (\<lambda>(action, state) f. case action of
          GetEpochDetails n \<Rightarrow> (f, Switch_request (getEpochDetails_url n, po_activeSlotRoute state))
        | Overview_close \<Rightarrow> (f, Switch_empty)
        | _ \<Rightarrow> (f, Filtered)),
      on_value = (\<lambda>(url, slotRoute) payload f.
        (f, [Navigate (epoch_route slotRoute (ed_epochNumber payload)),
             Out (Dispatch (GetEpochDetailsSuccess (Some payload))),
             Out (Dispatch (GetEpochs (Some (ed_epochNumber payload)))),
             Out (Dispatch (GetSlots (Some (ed_epochNumber payload))))])),
      on_error = (\<lambda>e f. (f, map Out (catchErrorAndRepeat now GENERIC (GetEpochDetailsSuccess None) e)))\<rparr>"

definition getEpochs_effect ::
  "(int option \<Rightarrow> bool) \<Rightarrow> string \<Rightarrow> (string, BlockProductionOverviewEpoch list) overview_effect" where
  "getEpochs_effect hasValue now =
     \<lparr>on_action = (\<lambda>(action, state) f. case action of
          GetEpochs n \<Rightarrow> (f, Switch_request (getEpochs_url hasValue n 5))
        | Overview_close \<Rightarrow> (f, Switch_empty)
        | _ \<Rightarrow> (f, Filtered)),
      on_value = (\<lambda>_ epochs f. (f, [Out (Dispatch (GetEpochsSuccess epochs))])),
      on_error = (\<lambda>e f. (f, map Out (catchErrorAndRepeat now GENERIC (GetEpochsSuccess []) e)))\<rparr>"

text \<open>The slots are those of the epoch in the state, not of the action.\<close>

definition getActiveEpochSlots_effect ::
  "string \<Rightarrow> (string \<times> string, BlockProductionOverviewSlot list) overview_effect" where
  "getActiveEpochSlots_effect now =
     \<lparr>on_action = (\<lambda>(action, state) f. case action of
          GetSlots n \<Rightarrow> (f, Switch_request (getSlots_urls (po_activeEpochNumber state)))
        | Overview_close \<Rightarrow> (f, Switch_empty)
        | _ \<Rightarrow> (f, Filtered)),
      on_value = (\<lambda>_ slots f. (f, [Out (Dispatch (GetSlotsSuccess slots))])),
      on_error = (\<lambda>e f. (f, map Out (catchErrorAndRepeat now GENERIC (GetSlotsSuccess []) e)))\<rparr>"

definition getRewardsStats_effect :: "string \<Rightarrow> (string, BlockProductionOverviewAllStats) overview_effect" where
  "getRewardsStats_effect now =
     \<lparr>on_action = (\<lambda>(action, state) f. case action of
          GetRewardsStats \<Rightarrow> (f, Switch_request ''/summary'')
        | Overview_close \<Rightarrow> (f, Switch_empty)
        | _ \<Rightarrow> (f, Filtered)),
      on_value = (\<lambda>_ stats f. (f, [Out (Dispatch (GetRewardsStatsSuccess (Some stats)))])),
      on_error = (\<lambda>e f. (f, map Out (catchErrorAndRepeat now GENERIC (GetRewardsStatsSuccess None) e)))\<rparr>"

lemmas overview_effect_defs =
  getActiveEpochDetails_effect_def getEpochs_effect_def getActiveEpochSlots_effect_def getRewardsStats_effect_def

interpretation epochDetails_close: cancel_on_close "getActiveEpochDetails_effect now" "\<lambda>(a, s). a = Overview_close"
  by unfold_locales (auto simp: overview_effect_defs)

interpretation epochs_close: cancel_on_close "getEpochs_effect hv now" "\<lambda>(a, s). a = Overview_close"
  by unfold_locales (auto simp: overview_effect_defs)

interpretation epochSlots_close: cancel_on_close "getActiveEpochSlots_effect now" "\<lambda>(a, s). a = Overview_close"
  by unfold_locales (auto simp: overview_effect_defs)

interpretation rewards_close: cancel_on_close "getRewardsStats_effect now" "\<lambda>(a, s). a = Overview_close"
  by unfold_locales (auto simp: overview_effect_defs)

section \<open>Components\<close>

text \<open>\<open>getSlotColor\<close> and \<open>getSlotText\<close> of the slots component: a cascade that the active slot overrides.\<close>

definition getSlotColor :: "BlockProductionOverviewSlot \<Rightarrow> BlockProductionOverviewFilters option \<Rightarrow> string" where
  "getSlotColor d filters =
     (let on_filter = (\<lambda>f. case filters of None \<Rightarrow> False | Some fs \<Rightarrow> f fs);
          shade = (\<lambda>f. if on_filter f then ''primary'' else ''tertiary'');
          color = (if os_finished d then ''selected-tertiary'' else ''base-container'');
          color = (if os_canonical d then ''success-'' @ shade pf_canonical
                   else if os_orphaned d then ''special-selected-alt-1-'' @ shade pf_orphaned
                   else if os_missed d then ''warn-'' @ shade pf_missed
                   else if os_futureRights d then ''base-'' @ (if on_filter pf_future then ''secondary'' else ''divider'')
                   else if \<not> os_finished d then ''base-container'' else color);
          color = (if os_active d then ''selected-primary'' else color)
      in ''var(--'' @ color @ '')'')"

definition getSlotText :: "BlockProductionOverviewSlot \<Rightarrow> string" where
  "getSlotText d =
     (let txt = (if os_finished d then ''Block by another producer'' else []);
          txt = (if os_canonical d then ''Canonical Block Produced''
                  else if os_orphaned d then ''Orphaned Block Produced''
                  else if os_missed d then ''Missed Block''
                  else if os_futureRights d then ''Right to produce a block''
                  else if \<not> os_finished d then ''Empty Slot'' else txt)
      in if os_active d then ''Currently producing'' else txt)"

text \<open>The grid of the slots: squares of eight pixels with a margin of one. For a width below nine pixels there is no
  square in a row, and the remainder and the quotient by zero of the code are not numbers.\<close>

definition slotsPerRow :: "nat \<Rightarrow> nat" where
  "slotsPerRow width = width div (8 + 1)"

definition setX :: "nat \<Rightarrow> nat \<Rightarrow> nat option" where
  "setX per_row i = (if per_row = 0 then None else Some ((i mod per_row) * (8 + 1)))"

definition setY :: "nat \<Rightarrow> nat \<Rightarrow> nat option" where
  "setY per_row i = (if per_row = 0 then None else Some ((i div per_row) * (8 + 1)))"

text \<open>The totals of the toolbar: canonical, orphaned, missed and future slots.\<close>

definition toolbarTotals :: "active_epoch \<Rightarrow> nat \<times> nat \<times> nat \<times> nat" where
  "toolbarTotals epoch =
     (case ae_slots epoch of
        None \<Rightarrow> (0, 0, 0, 0)
      | Some slots \<Rightarrow> (length (filter os_canonical slots), length (filter os_orphaned slots),
          length (filter os_missed slots), length (filter os_futureRights slots)))"

text \<open>\<open>Math.round(n / total * 100) + '%'\<close> of the side panel, with the quotients by zero.\<close>

definition slotsUsed :: "BlockProductionOverviewEpochDetails \<Rightarrow> string" where
  "slotsUsed details =
     (let used = ed_canonical details + ed_orphaned details + ed_missed details
      in (if ed_totalSlots details = 0
          then (if used = 0 then ''NaN'' else if used > 0 then ''Infinity'' else ''-Infinity'')
          else show_int \<lfloor>(of_int used :: rat) / of_int (ed_totalSlots details) * 100 + 1 / 2\<rfloor>) @ ''%'')"

record epoch_extras =
  ex_balanceProducer :: "string option"
  ex_balanceDelegated :: "string option"
  ex_balanceStaked :: "string option"
  ex_epochStarted :: string
  ex_epochEnds :: string
  ex_slotsUsed :: string

text \<open>What the side panel shows of an epoch that passed its filters: slots and details are there.\<close>

definition epochExtras :: "(int \<Rightarrow> string) \<Rightarrow> active_epoch \<Rightarrow> epoch_extras option" where
  "epochExtras toReadableDate epoch =
     (case (ae_slots epoch, ae_details epoch) of
        (Some slots, Some d) \<Rightarrow>
          if slots = [] then None
          else let timeOf = (\<lambda>g. case List.find (\<lambda>slot. os_globalSlot slot = g) slots of
                     None \<Rightarrow> ''-'' | Some s \<Rightarrow> toReadableDate (os_time s * 1000))
            in Some \<lparr>ex_balanceProducer = ed_balanceProducer d, ex_balanceDelegated = ed_balanceDelegated d,
                 ex_balanceStaked = ed_balanceStaked d, ex_epochStarted = timeOf (ed_slotStart d),
                 ex_epochEnds = timeOf (ed_slotEnd d), ex_slotsUsed = slotsUsed d\<rparr>
      | _ \<Rightarrow> None)"

text \<open>\<open>viewInMinaScan\<close>: the network of the node, in lower case, and the hash of the slot; either may be missing.\<close>

definition viewInMinaScan :: "string option \<Rightarrow> string option \<Rightarrow> string" where
  "viewInMinaScan network hash =
     ''https://minascan.io/'' @ (case network of None \<Rightarrow> ''undefined'' | Some n \<Rightarrow> js_toLowerCase n) @ ''/block/'' @
     (case hash of None \<Rightarrow> ''null'' | Some h \<Rightarrow> h)"

section \<open>The state of the page\<close>

definition shown_slots :: "BlockProductionOverviewState \<Rightarrow> BlockProductionOverviewSlot list option" where
  "shown_slots s = Option.bind (po_activeEpoch s) ae_slots"

text \<open>The active slot, the loading flag and the flag for an unfinished evaluation are functions of the slots that are
  shown and of the slot of the route.\<close>

definition overview_state_ok :: "BlockProductionOverviewState \<Rightarrow> bool" where
  "overview_state_ok s \<longleftrightarrow>
     po_activeSlot s = Option.bind (shown_slots s) (find_slot (po_activeSlotRoute s)) \<and>
     po_isLoading s = (shown_slots s = None) \<and>
     po_isCalculatingVRF s = (case shown_slots s of None \<Rightarrow> False | Some xs \<Rightarrow> length xs \<notin> {0, SLOTS_PER_EPOCH})"

lemma spread_epoch_slots [simp]: "ae_slots (spread_epoch (po_activeEpoch s)) = shown_slots s"
  by (simp add: spread_epoch_def shown_slots_def split: option.splits)

lemma shown_slots_simps [simp]:
  "shown_slots (s\<lparr>po_activeEpoch := e\<rparr>) = Option.bind e ae_slots"
  "shown_slots (s\<lparr>po_epochs := es\<rparr>) = shown_slots s"
  "shown_slots (s\<lparr>po_activeEpochNumber := n\<rparr>) = shown_slots s"
  "shown_slots (s\<lparr>po_allTimeStats := st\<rparr>) = shown_slots s"
  "shown_slots (s\<lparr>po_filters := fs\<rparr>) = shown_slots s"
  "shown_slots (s\<lparr>po_activeSlot := sl\<rparr>) = shown_slots s"
  "shown_slots (s\<lparr>po_activeSlotRoute := r\<rparr>) = shown_slots s"
  "shown_slots (s\<lparr>po_scale := sc\<rparr>) = shown_slots s"
  "shown_slots (s\<lparr>po_isLoading := b\<rparr>) = shown_slots s"
  "shown_slots (s\<lparr>po_isCalculatingVRF := b\<rparr>) = shown_slots s"
  by (simp_all add: shown_slots_def)

lemma case_option_ex: "(case k of None \<Rightarrow> False | Some j \<Rightarrow> P j) \<longleftrightarrow> (\<exists>j. k = Some j \<and> P j)"
  by (cases k) simp_all

interpretation productionOverview: reducer_invariant blockProductionOverviewReducer productionOverviewInitialState
  overview_state_ok
proof
  show "overview_state_ok productionOverviewInitialState"
    by (simp add: overview_state_ok_def shown_slots_def productionOverviewInitialState_def)
  fix s a s' assume ok: "overview_state_ok s" and step: "blockProductionOverviewReducer s a = Inr s'"
  show "overview_state_ok s'"
  proof (cases a)
    case (GetEpochsSuccess epochs)
    with step ok show ?thesis
      by (cases "List.find (\<lambda>e. Some (pe_epochNumber e) = po_activeEpochNumber s) epochs")
        (auto simp: overview_state_ok_def)
  next
    case (SetActiveSlot slot)
    with step ok show ?thesis
      by (auto simp: overview_state_ok_def shown_slots_def split: option.splits)
  next
    case Overview_close
    with step show ?thesis
      by (auto simp: overview_state_ok_def shown_slots_def productionOverviewInitialState_def)
  qed (use step ok in \<open>auto simp: overview_state_ok_def\<close>)
qed

lemma overview_reducer_throws:
  "blockProductionOverviewReducer s a = Inl e \<longleftrightarrow>
   e = TypeError \<and> (\<exists>slot. a = SetActiveSlot slot) \<and> po_activeEpoch s \<noteq> None \<and> shown_slots s = None"
  by (cases a) (auto simp: shown_slots_def split: option.splits)

text \<open>The state of the overview page is consistent after any actions that were handled: the active slot is the one of
  the route among the slots that are shown, the page is loading exactly while it has no slots, and the evaluation
  is shown as unfinished exactly for slots that are neither none nor a whole epoch. The next action throws
  exactly when it chooses a slot while an epoch is there and the page is still loading.\<close>

lemma production_overview_state:
  assumes "reduce_all blockProductionOverviewReducer productionOverviewInitialState as = Inr s"
  shows "po_activeSlot s = Option.bind (shown_slots s) (find_slot (po_activeSlotRoute s)) \<and>
    (po_isLoading s \<longleftrightarrow> shown_slots s = None) \<and>
    (po_isCalculatingVRF s \<longleftrightarrow> (\<exists>xs. shown_slots s = Some xs \<and> xs \<noteq> [] \<and> length xs \<noteq> 7140)) \<and>
    (\<forall>a. (\<exists>e. blockProductionOverviewReducer s a = Inl e) \<longleftrightarrow>
       (\<exists>slot. a = SetActiveSlot slot) \<and> po_activeEpoch s \<noteq> None \<and> po_isLoading s)"
  using productionOverview.inv_reachable [OF assms]
  by (auto simp: overview_state_ok_def overview_reducer_throws SLOTS_PER_EPOCH_def split: option.splits)

lemma production_overview_state_witness:
  "\<exists>s. reduce_all blockProductionOverviewReducer productionOverviewInitialState
         [GetEpochDetails (Some 3), GetEpochDetailsSuccess None] = Inr s \<and> po_isLoading s \<and>
       (\<exists>e. blockProductionOverviewReducer s (SetActiveSlot (Some 1)) = Inl e)"
proof -
  have "\<exists>s. reduce_all blockProductionOverviewReducer productionOverviewInitialState
      [GetEpochDetails (Some 3), GetEpochDetailsSuccess None] = Inr s \<and> po_isLoading s \<and> po_activeEpoch s \<noteq> None"
    by (simp add: productionOverviewInitialState_def)
  then obtain s where s: "reduce_all blockProductionOverviewReducer productionOverviewInitialState
      [GetEpochDetails (Some 3), GetEpochDetailsSuccess None] = Inr s" "po_isLoading s" "po_activeEpoch s \<noteq> None"
    by blast
  with production_overview_state [OF s(1)] show ?thesis by blast
qed

section \<open>The slots of an epoch\<close>

lemma length_getSlots_map [simp]: "length (getSlots_map response cur) = length response"
  by (simp add: getSlots_map_def Let_def)

lemma nth_getSlots_map:
  "i < length response \<Longrightarrow> getSlots_map response cur ! i =
     overviewSlot (find_index (\<lambda>slot. sl_global_slot slot = cur) response) i (response ! i)"
  by (simp add: getSlots_map_def Let_def)

lemma count_nth: "length (filter P xs) = card {i. i < length xs \<and> P (xs ! i)}"
  by (rule length_filter_conv_card)

lemma active_count:
  "length (filter os_active (getSlots_map response cur)) = (if cur \<in> sl_global_slot ` set response then 1 else 0)"
proof (cases "find_index (\<lambda>slot. sl_global_slot slot = cur) response")
  case None
  have "{i. i < length response \<and> os_active (getSlots_map response cur ! i)} = {}"
    unfolding Collect_empty_eq by (auto simp: nth_getSlots_map overviewSlot_def None)
  with None show ?thesis by (auto simp: count_nth)
next
  case (Some k)
  note k = find_index_SomeD [OF Some]
  have "{i. i < length response \<and> os_active (getSlots_map response cur ! i)} = {k}"
    using k(1) by (auto simp: nth_getSlots_map overviewSlot_def Some)
  moreover have "cur \<in> sl_global_slot ` set response" using k(1,2) by force
  ultimately show ?thesis by (simp add: count_nth)
qed

text \<open>The text for a slot by the status of its block: \<open>past\<close> when the current slot comes later in the epoch.\<close>

fun status_text :: "bool \<Rightarrow> BlockStatus \<Rightarrow> string" where
  "status_text past Status_Empty = ''Empty Slot''"
| "status_text past Status_ToBeProduced = ''Right to produce a block''"
| "status_text past Status_Orphaned = ''Orphaned Block Produced''"
| "status_text past Status_OrphanedPending = ''Orphaned Block Produced''"
| "status_text past Status_Canonical = ''Canonical Block Produced''"
| "status_text past Status_CanonicalPending = ''Canonical Block Produced''"
| "status_text past Status_Foreign = (if past then ''Block by another producer'' else ''Empty Slot'')"
| "status_text past Status_Missed = ''Missed Block''"

lemma overviewSlot_text:
  "getSlotText (overviewSlot k i slot) =
     (if k = Some i then ''Currently producing''
      else status_text (case k of None \<Rightarrow> False | Some j \<Rightarrow> i < j) (sl_block_status slot))"
  by (cases "sl_block_status slot") (simp_all add: getSlotText_def overviewSlot_def split: option.splits)

lemma filter_status_split:
  "length (filter os_canonical xs) + length (filter os_orphaned xs) + length (filter os_missed xs) +
   length (filter os_futureRights xs) + length (filter (\<lambda>s. os_status s \<in> {Status_Empty, Status_Foreign}) xs) = length xs"
  if "\<And>s. s \<in> set xs \<Longrightarrow> \<exists>k i r. s = overviewSlot k i r" for xs
  using that
proof (induction xs)
  case (Cons s xs)
  then obtain k i r where s: "s = overviewSlot k i r" by (metis list.set_intros(1))
  from Cons show ?case by (cases "sl_block_status r") (auto simp: s overviewSlot_def)
qed simp

lemma getSlots_map_slots: "s \<in> set (getSlots_map response cur) \<Longrightarrow> \<exists>k i r. s = overviewSlot k i r"
  by (auto simp: getSlots_map_def Let_def)

text \<open>C26. The slots keep the order of the node. A slot is shown as producing exactly when it is the first with the
  current global slot, so at most one is; every other shows the text of the status of its block, where a
  block of another producer is told from an empty slot only before the current slot. The four totals of the toolbar
  and the empty and foreign slots add up to the slots of the epoch.\<close>

theorem production_slots_view:
  assumes "i < length response"
  shows "let slots = getSlots_map response cur;
             k = find_index (\<lambda>slot. sl_global_slot slot = cur) response;
             (canonical, orphaned, missed, future) = toolbarTotals (epoch\<lparr>ae_slots := Some slots\<rparr>)
         in map os_globalSlot slots = map sl_global_slot response \<and>
            (os_active (slots ! i) \<longleftrightarrow> k = Some i) \<and> length (filter os_active slots) \<le> 1 \<and>
            getSlotText (slots ! i) = (if k = Some i then ''Currently producing''
              else status_text (\<exists>j. k = Some j \<and> i < j) (sl_block_status (response ! i))) \<and>
            canonical + orphaned + missed + future +
              length (filter (\<lambda>r. sl_block_status r \<in> {Status_Empty, Status_Foreign}) response) = length response"
proof -
  let ?slots = "getSlots_map response cur"
  let ?k = "find_index (\<lambda>slot. sl_global_slot slot = cur) response"
  have "map os_globalSlot ?slots = map sl_global_slot response" and st: "map os_status ?slots = map sl_block_status response"
    by (simp_all add: list_eq_iff_nth_eq nth_getSlots_map overviewSlot_def)
  moreover have "length (filter (\<lambda>s. os_status s \<in> {Status_Empty, Status_Foreign}) ?slots) =
      length (filter (\<lambda>r. sl_block_status r \<in> {Status_Empty, Status_Foreign}) response)"
    using arg_cong [OF st, of "\<lambda>ss. length (filter (\<lambda>x. x \<in> {Status_Empty, Status_Foreign}) ss)"]
    by (simp add: filter_map o_def)
  moreover have "(case ?k of None \<Rightarrow> False | Some j \<Rightarrow> i < j) \<longleftrightarrow> (\<exists>j. ?k = Some j \<and> i < j)"
    by (rule case_option_ex)
  moreover have "os_active (?slots ! i) \<longleftrightarrow> ?k = Some i"
    using assms by (simp add: nth_getSlots_map overviewSlot_def)
  ultimately show ?thesis
    using assms filter_status_split [of "getSlots_map response cur", OF getSlots_map_slots]
    by (simp add: Let_def toolbarTotals_def active_count nth_getSlots_map overviewSlot_text)
qed

theorem production_slots_view_witness:
  "let r = \<lambda>g st. \<lparr>sl_slot = g, sl_global_slot = g, sl_block_status = st, sl_timestamp = 0, sl_state_hash = None, sl_height = None\<rparr>;
       response = [r 5 Status_Foreign, r 6 Status_Empty, r 7 Status_ToBeProduced]
   in getSlotText (getSlots_map response 7 ! 0) = ''Block by another producer'' \<and>
      getSlotText (getSlots_map response 99 ! 0) = ''Empty Slot''"
  using production_slots_view [of 0 "[\<lparr>sl_slot = 5, sl_global_slot = 5, sl_block_status = Status_Foreign, sl_timestamp = 0,
      sl_state_hash = None, sl_height = None\<rparr>, \<lparr>sl_slot = 6, sl_global_slot = 6, sl_block_status = Status_Empty,
      sl_timestamp = 0, sl_state_hash = None, sl_height = None\<rparr>, \<lparr>sl_slot = 7, sl_global_slot = 7,
      sl_block_status = Status_ToBeProduced, sl_timestamp = 0, sl_state_hash = None, sl_height = None\<rparr>]" 7]
    production_slots_view [of 0 "[\<lparr>sl_slot = 5, sl_global_slot = 5, sl_block_status = Status_Foreign, sl_timestamp = 0,
      sl_state_hash = None, sl_height = None\<rparr>, \<lparr>sl_slot = 6, sl_global_slot = 6, sl_block_status = Status_Empty,
      sl_timestamp = 0, sl_state_hash = None, sl_height = None\<rparr>, \<lparr>sl_slot = 7, sl_global_slot = 7,
      sl_block_status = Status_ToBeProduced, sl_timestamp = 0, sl_state_hash = None, sl_height = None\<rparr>]" 99]
  by (simp add: Let_def split: prod.splits)

section \<open>The grid\<close>

text \<open>The squares of the grid: when a row has room for one, every square lies inside the width, and the squares of two
  slots do not overlap.\<close>

lemma production_slot_grid:
  assumes "9 \<le> width" and "i \<noteq> j"
  shows "\<exists>x y x' y'. setX (slotsPerRow width) i = Some x \<and> setY (slotsPerRow width) i = Some y \<and>
    setX (slotsPerRow width) j = Some x' \<and> setY (slotsPerRow width) j = Some y' \<and> x + 8 < width \<and>
    (x + 8 < x' \<or> x' + 8 < x \<or> y + 8 < y' \<or> y' + 8 < y)"
proof -
  define n where "n = slotsPerRow width"
  have n: "0 < n" "n * 9 \<le> width" using assms(1) by (auto simp: n_def slotsPerRow_def)
  have "i mod n < n" using n(1) by simp
  then have "(i mod n) * 9 + 9 \<le> n * 9" by linarith
  moreover have "i mod n \<noteq> j mod n \<or> i div n \<noteq> j div n" using assms(2) by (metis div_mult_mod_eq)
  ultimately show ?thesis using n unfolding n_def [symmetric] setX_def setY_def by auto
qed

lemma production_slot_grid_witness:
  "setX (slotsPerRow 30) 4 = Some 9 \<and> setY (slotsPerRow 30) 4 = Some 9 \<and> (9 :: nat) + 8 < 30"
  using production_slot_grid [of 30 4 5] by (simp add: slotsPerRow_def setX_def setY_def)

section \<open>Choosing an epoch\<close>

text \<open>Choosing an epoch, or the latest one. When the node answers with details of the epoch that was asked for, the
  page navigates to it, and the two requests that follow are for the same epoch: its slots, and a window of seven epochs
  whose last number is at least that of the epoch and less than seven above it. Once the three answers arrived, the
  active epoch has its number, details and slots.\<close>

lemma production_epoch_requests:
  assumes "0 \<le> ed_epochNumber d" and "n \<noteq> None \<Longrightarrow> n = Some (ed_epochNumber d)" and "\<And>x. hasValue (Some x)"
    and "\<exists>e \<in> set epochs. pe_epochNumber e = ed_epochNumber d"
  shows "\<exists>s1 s2 m.
    blockProductionOverviewReducer s (GetEpochDetails n) = Inr s1 \<and>
    on_action (getActiveEpochDetails_effect now) (GetEpochDetails n, s1) () =
      ((), Switch_request (''/epoch/summary/'' @ epoch_path n, po_activeSlotRoute s)) \<and>
    snd (on_value (getActiveEpochDetails_effect now) (url, po_activeSlotRoute s) d ()) =
      [Navigate (epoch_route (po_activeSlotRoute s) (ed_epochNumber d)), Out (Dispatch (GetEpochDetailsSuccess (Some d))),
       Out (Dispatch (GetEpochs (Some (ed_epochNumber d)))), Out (Dispatch (GetSlots (Some (ed_epochNumber d))))] \<and>
    blockProductionOverviewReducer s1 (GetEpochDetailsSuccess (Some d)) = Inr s2 \<and>
    on_action (getEpochs_effect hasValue now) (GetEpochs (Some (ed_epochNumber d)), s2) () =
      ((), Switch_request (''/epoch/summary/'' @ show_int m @ ''?limit=7'')) \<and>
    ed_epochNumber d \<le> m \<and> m < ed_epochNumber d + 7 \<and>
    on_action (getActiveEpochSlots_effect now) (GetSlots (Some (ed_epochNumber d)), s2) () =
      ((), Switch_request (''/epoch/'' @ show_int (ed_epochNumber d), ''/node/current_slot'')) \<and>
    (\<exists>s' a e. reduce_all blockProductionOverviewReducer s2 [GetEpochsSuccess epochs, GetSlotsSuccess slots] = Inr s' \<and>
       po_activeEpoch s' = Some a \<and> ae_epoch a = Some e \<and> pe_epochNumber e = ed_epochNumber d \<and>
       ae_details a = Some d \<and> ae_slots a = Some slots)"
proof -
  define s1 where "s1 = s\<lparr>po_activeEpochNumber := n\<rparr>"
  define s2 where "s2 = s1\<lparr>po_activeEpoch := Some ((spread_epoch (po_activeEpoch s1))\<lparr>ae_details := Some d\<rparr>),
    po_activeEpochNumber := Some (ed_epochNumber d)\<rparr>"
  have r1: "blockProductionOverviewReducer s (GetEpochDetails n) = Inr s1" by (simp add: s1_def)
  have r2: "blockProductionOverviewReducer s1 (GetEpochDetailsSuccess (Some d)) = Inr s2"
    using assms(2) by (cases n) (auto simp: s1_def s2_def)
  have route: "po_activeSlotRoute s1 = po_activeSlotRoute s" by (simp add: s1_def)
  have number: "po_activeEpochNumber s2 = Some (ed_epochNumber d)" by (simp add: s2_def)
  obtain b where b: "po_activeEpoch s2 = Some b" "ae_details b = Some d" by (simp add: s2_def)
  obtain e where e: "List.find (\<lambda>e. pe_epochNumber e = ed_epochNumber d) epochs = Some e"
    using assms(4) by (cases "List.find (\<lambda>e. pe_epochNumber e = ed_epochNumber d) epochs") (auto simp: find_None_iff)
  have "pe_epochNumber e = ed_epochNumber d" using find_Some_in [OF e] by simp
  with b have "\<exists>s' a e. reduce_all blockProductionOverviewReducer s2 [GetEpochsSuccess epochs, GetSlotsSuccess slots] = Inr s' \<and>
       po_activeEpoch s' = Some a \<and> ae_epoch a = Some e \<and> pe_epochNumber e = ed_epochNumber d \<and>
       ae_details a = Some d \<and> ae_slots a = Some slots"
    by (simp add: number e spread_epoch_def)
  moreover have "dec 7 = ''7''" by (simp add: to_radix.simps [of 10 7] radix_digit_def) code_simp
  then have "on_action (getEpochs_effect hasValue now) (GetEpochs (Some (ed_epochNumber d)), s2) () =
      ((), Switch_request (''/epoch/summary/'' @ show_int (max (ed_epochNumber d + 3) 6) @ ''?limit=7''))"
    by (simp add: overview_effect_defs getEpochs_url_def assms(3))
  ultimately show ?thesis
    using r1 r2 assms(1)
    by - (rule exI [of _ s1], rule exI [of _ s2], rule exI [of _ "max (ed_epochNumber d + 3) 6"],
      simp add: getActiveEpochDetails_effect_def getActiveEpochSlots_effect_def getEpochDetails_url_def
        getSlots_urls_def epoch_path_def route number
        del: blockProductionOverviewReducer.simps reduce_all.simps)
qed

definition sample_epoch_details :: BlockProductionOverviewEpochDetails where
  "sample_epoch_details = epochDetails (\<lambda>_. []) \<lparr>ep_epoch_number = 2, ep_balance_delegated = [], ep_balance_producer = [],
     ep_balance_staked = [], ep_summary = None, ep_sub_windows = []\<rparr>"

lemma production_epoch_requests_witness:
  "\<exists>s1 s2. blockProductionOverviewReducer productionOverviewInitialState (GetEpochDetails None) = Inr s1 \<and>
     blockProductionOverviewReducer s1 (GetEpochDetailsSuccess (Some sample_epoch_details)) = Inr s2 \<and>
     on_action (getActiveEpochSlots_effect []) (GetSlots (Some 2), s2) () =
       ((), Switch_request (''/epoch/'' @ show_int 2, ''/node/current_slot''))"
proof -
  have "ed_epochNumber sample_epoch_details = 2" by (simp add: sample_epoch_details_def epochDetails_def)
  with production_epoch_requests [of sample_epoch_details None "\<lambda>x. x \<noteq> None"
      "[\<lparr>pe_epochNumber = 2, pe_windows = [], pe_finishedWindows = 0, pe_isLastEpoch = False\<rparr>]"
      productionOverviewInitialState "[]" "[]" "[]"]
  show ?thesis by auto
qed

end
