(* ===== verification/State_Actions.thy ===== *)
theory State_Actions
  imports Store_Reducer Effect_Pipeline
begin

text \<open>
  The state actions page (\<open>features/state/actions\<close>): how often and how long the node executed each of its actions in a
  slot. The service groups the actions by the words their names begin with, the reducer sorts the groups
  and hides what a search does not match, and the effects ask for a slot.

  JavaScript objects with string keys are association lists in insertion order with distinct keys; the names of the
  actions are words in camel case (no array index and no name of a property that every object has). \<open>sort\<close>,
  \<open>toReadableDate\<close> and \<open>isMobile\<close> of the shared package are parameters. \<open>Array.prototype.sort\<close> is stable.
\<close>

section \<open>Data\<close>

record StateActionColumn =
  sc_count :: nat
  sc_maxTime :: rat
  sc_meanTime :: rat
  sc_totalTime :: rat
  sc_squareCount :: nat

record StateActionGroupAction =
  ga_display :: bool
  ga_title :: string
  ga_fullTitle :: string
  ga_totalTime :: rat
  ga_meanTime :: rat
  ga_totalCount :: nat
  ga_columns :: "StateActionColumn list"

record StateActionGroup =
  sg_groupName :: string
  sg_count :: nat
  sg_totalTime :: rat
  sg_meanTime :: rat
  sg_actions :: "StateActionGroupAction list"
  sg_display :: bool

record StateActionsStats =
  ss_time :: string
  ss_level :: "int option"
  ss_hash :: "string option"
  ss_cpuIdle :: "rat option"
  ss_cpuBusy :: "rat option"

text \<open>The statistics start as the empty object; \<open>None\<close> is \<open>undefined\<close>, after a failed request.\<close>

datatype shown_stats = Empty_object | Stats StateActionsStats

record StateActionsState =
  sa_groups :: "StateActionGroup list"
  sa_filteredGroups :: "StateActionGroup list"
  sa_openSidePanel :: bool
  sa_earliestSlot :: "int option"
  sa_activeSlot :: "int option"
  sa_currentSort :: tableSort
  sa_activeSearch :: string
  sa_stats :: "shown_stats option"

text \<open>A failed request is reported with an empty array instead of a pair, the payload \<open>None\<close>.\<close>

datatype StateActionsActions =
    STATE_ACTIONS_GET_EARLIEST_SLOT bool
  | STATE_ACTIONS_GET_EARLIEST_SLOT_SUCCESS "int option"
  | STATE_ACTIONS_GET_ACTIONS "int option"
  | STATE_ACTIONS_GET_ACTIONS_SUCCESS "(StateActionsStats \<times> StateActionGroup list) option"
  | STATE_ACTIONS_CLOSE
  | STATE_ACTIONS_TOGGLE_SIDE_PANEL
  | STATE_ACTIONS_SORT tableSort
  | STATE_ACTIONS_SEARCH string

text \<open>The answer of the node: for each action and each range of durations the calls and the times in nanoseconds.\<close>

record range_stats =
  rs_total_calls :: nat
  rs_total_duration :: rat
  rs_max_duration :: rat

type_synonym action_stats = "(string \<times> (string \<times> range_stats) list) list"

record stats_response =
  sp_block_hash :: "string option"
  sp_block_level :: "int option"
  sp_time :: "int option"
  sp_cpu_busy :: "rat option"
  sp_cpu_idle :: "rat option"
  sp_stats :: action_stats

section \<open>Service\<close>

definition getEarliestSlot_path :: string where
  "getEarliestSlot_path = ''/stats/actions?id=latest''"

definition getActions_path :: "int option \<Rightarrow> string" where
  "getActions_path slot = ''/stats/actions?id='' @ (case slot of None \<Rightarrow> ''undefined'' | Some s \<Rightarrow> show_int s)"

definition mapActionStats :: "(rat \<Rightarrow> string) \<Rightarrow> stats_response \<Rightarrow> StateActionsStats" where
  "mapActionStats toReadableDate response =
     \<lparr>ss_time = (if truthy_num (sp_time response) then toReadableDate (of_int (the (sp_time response)) / 1000000) else ''-''),
      ss_level = sp_block_level response, ss_hash = sp_block_hash response,
      ss_cpuIdle = sp_cpu_idle response, ss_cpuBusy = sp_cpu_busy response\<rparr>"

definition convertTimesToSeconds :: "action_stats \<Rightarrow> action_stats" where
  "convertTimesToSeconds response =
     map (\<lambda>(key, ranges). (key, map (\<lambda>(timeKey, r).
       (timeKey, r\<lparr>rs_total_duration := rs_total_duration r / 1000000000,
                   rs_max_duration := rs_max_duration r / 1000000000\<rparr>)) ranges)) response"

definition getMeanTime :: "rat \<Rightarrow> nat \<Rightarrow> rat" where
  "getMeanTime duration calls = (if duration \<noteq> 0 \<and> calls \<noteq> 0 then duration / of_nat calls else 0)"

text \<open>The loop of \<open>getSquareCount\<close>, which divides until less than one is left.\<close>

function squareLoop :: "rat \<Rightarrow> nat \<Rightarrow> nat" where
  "squareLoop calls squareCount = (if calls \<ge> 1 then squareLoop (calls / 10) (squareCount + 1) else squareCount)"
  by pat_completeness auto
termination
proof (relation "measure (\<lambda>(calls, _). nat \<lfloor>calls\<rfloor>)")
  fix calls :: rat and n :: nat
  assume "calls \<ge> 1"
  then have "1 \<le> \<lfloor>calls\<rfloor>" by simp
  moreover have "\<lfloor>calls / 10\<rfloor> < \<lfloor>calls\<rfloor>"
  proof -
    have "calls < of_int \<lfloor>calls\<rfloor> + 1" by (rule floor_less_iff [THEN iffD1, of calls "\<lfloor>calls\<rfloor> + 1", simplified])
    also have "(of_int \<lfloor>calls\<rfloor> :: rat) + 1 \<le> 10 * of_int \<lfloor>calls\<rfloor>" using \<open>1 \<le> \<lfloor>calls\<rfloor>\<close> by linarith
    finally show ?thesis by (simp add: floor_less_iff)
  qed
  ultimately show "((calls / 10, n + 1), calls, n) \<in> measure (\<lambda>(calls, _). nat \<lfloor>calls\<rfloor>)" by simp
qed simp

declare squareLoop.simps [simp del]

definition getSquareCount :: "nat \<Rightarrow> nat" where
  "getSquareCount calls = min (squareLoop (of_nat calls) 0) 8"

subsection \<open>Groups\<close>

definition is_upper :: "char \<Rightarrow> bool" where
  "is_upper c = (let n = of_char c :: nat in 65 \<le> n \<and> n \<le> 90)"

text \<open>\<open>name.split(/(?=[A-Z])/)\<close>: a cut before every capital but the first character.\<close>

fun split_upper :: "string \<Rightarrow> string list" where
  "split_upper [] = [[]]"
| "split_upper [c] = [[c]]"
| "split_upper (c # d # cs) =
     (if is_upper d then [c] # split_upper (d # cs)
      else (c # hd (split_upper (d # cs))) # tl (split_upper (d # cs)))"

text \<open>The values of \<open>sliceBuildup\<close>.\<close>

fun buildups :: "string \<Rightarrow> string list \<Rightarrow> string list" where
  "buildups sliceBuildup [] = []"
| "buildups sliceBuildup (slice # slices) = (sliceBuildup @ slice) # buildups (sliceBuildup @ slice) slices"

definition name_prefixes :: "string \<Rightarrow> string list" where
  "name_prefixes actionName = buildups [] (split_upper actionName)"

text \<open>\<open>groups[k] = groups[k] || []; groups[k].push(v)\<close>, and \<open>groups[k] = v\<close>.\<close>

fun push_at :: "'k \<Rightarrow> 'v \<Rightarrow> ('k \<times> 'v list) list \<Rightarrow> ('k \<times> 'v list) list" where
  "push_at k v [] = [(k, [v])]"
| "push_at k v ((k', vs) # gs) = (if k' = k then (k', vs @ [v]) # gs else (k', vs) # push_at k v gs)"

fun put_at :: "'k \<Rightarrow> 'v \<Rightarrow> ('k \<times> 'v) list \<Rightarrow> ('k \<times> 'v) list" where
  "put_at k v [] = [(k, v)]"
| "put_at k v ((k', v') # gs) = (if k' = k then (k', v) # gs else (k', v') # put_at k v gs)"

definition prefixGroups :: "string list \<Rightarrow> (string \<times> string list) list" where
  "prefixGroups statsActionNames =
     foldl (\<lambda>groups actionName. foldl (\<lambda>groups p. push_at p actionName groups) groups (name_prefixes actionName))
       [] statsActionNames"

definition take_group ::
  "(string \<times> string list) list \<times> string list \<Rightarrow> string \<times> string list \<Rightarrow> (string \<times> string list) list \<times> string list" where
  "take_group = (\<lambda>(groups, usedActions) (groupName, actions).
     let actions = filter (\<lambda>actionName. actionName \<notin> set usedActions) actions
     in if length actions > 1 then (put_at groupName actions groups, usedActions @ actions) else (groups, usedActions))"

definition finalGroups :: "string list \<Rightarrow> (string \<times> string list) list \<times> string list" where
  "finalGroups statsActionNames =
     (let sortedGroups = sort_key (\<lambda>g. - int (length (fst g))) (prefixGroups statsActionNames)
      in foldl take_group ([], []) (filter (\<lambda>g. length (snd g) > 1) sortedGroups))"

definition getGroupNames :: "string list \<Rightarrow> (string \<times> string list) list" where
  "getGroupNames statsActionNames =
     (let (groups, usedActions) = finalGroups statsActionNames;
          ungrouped = filter (\<lambda>actionName. actionName \<notin> set usedActions) statsActionNames
      in foldl (\<lambda>gs name. put_at name [name] gs) groups ungrouped)"

definition mapColumn :: "range_stats \<Rightarrow> StateActionColumn" where
  "mapColumn r =
     \<lparr>sc_count = rs_total_calls r, sc_maxTime = rs_max_duration r,
      sc_meanTime = getMeanTime (rs_total_duration r) (rs_total_calls r), sc_totalTime = rs_total_duration r,
      sc_squareCount = getSquareCount (rs_total_calls r)\<rparr>"

definition mapAction :: "string \<Rightarrow> string \<times> (string \<times> range_stats) list \<Rightarrow> StateActionGroupAction" where
  "mapAction groupName = (\<lambda>(actionName, ranges).
     let columns = map (mapColumn \<circ> snd) ranges;
         totalCount = sum_list (map sc_count columns);
         totalTime = sum_list (map sc_totalTime columns)
     in \<lparr>ga_display = True, ga_title = (if actionName \<noteq> groupName then js_remove_sub groupName actionName else []),
         ga_fullTitle = actionName, ga_totalTime = totalTime, ga_meanTime = getMeanTime totalTime totalCount,
         ga_totalCount = totalCount, ga_columns = columns\<rparr>)"

definition mapActions :: "action_stats \<Rightarrow> StateActionGroup list" where
  "mapActions response0 =
     (let response = convertTimesToSeconds response0
      in map (\<lambda>(groupName, names).
           let actions = map (mapAction groupName) (filter (\<lambda>a. fst a \<in> set names) response);
               count = sum_list (map ga_totalCount actions);
               totalTime = sum_list (map ga_totalTime actions)
           in \<lparr>sg_groupName = groupName, sg_count = count, sg_totalTime = totalTime,
               sg_meanTime = getMeanTime totalTime count, sg_actions = actions, sg_display = True\<rparr>)
           (getGroupNames (map fst response)))"

section \<open>Reducer\<close>

definition stateActionsInitialState :: "bool \<Rightarrow> StateActionsState" where
  "stateActionsInitialState isMobile =
     \<lparr>sa_groups = [], sa_filteredGroups = [], sa_openSidePanel = \<not> isMobile, sa_earliestSlot = None, sa_activeSlot = None,
      sa_currentSort = \<lparr>sortBy = ''totalTime'', sortDirection = DSC\<rparr>, sa_activeSearch = [], sa_stats = Some Empty_object\<rparr>"

definition action_matches :: "string \<Rightarrow> StateActionGroupAction \<Rightarrow> bool" where
  "action_matches toSearch action = js_includes (js_toLowerCase (ga_fullTitle action)) (js_toLowerCase toSearch)"

definition searchActionsInGroups :: "string \<Rightarrow> StateActionGroup list \<Rightarrow> StateActionGroup list" where
  "searchActionsInGroups toSearch groups =
     (if toSearch = [] then map (\<lambda>group. group\<lparr>sg_display := True\<rparr>) groups
      else map (\<lambda>group.
             let actions = map (\<lambda>action. action\<lparr>ga_display := action_matches toSearch action\<rparr>) (sg_actions group)
             in group\<lparr>sg_actions := actions, sg_display := list_ex ga_display actions\<rparr>) groups)"

definition sortGroups :: "StateActionGroup sorter \<Rightarrow> StateActionGroup list \<Rightarrow> tableSort \<Rightarrow> StateActionGroup list" where
  "sortGroups srt blocks ts = srt blocks ts"

text \<open>The reducer after a failed request sorts \<open>undefined\<close>: what the shared package makes of it is the parameter
  \<open>sortUndefined\<close>.\<close>

record state_actions_env =
  sn_sort :: "StateActionGroup sorter"
  sn_sortUndefined :: "tableSort \<Rightarrow> js_error + StateActionGroup list"
  sn_isMobile :: bool

fun stateActionsReducer :: "state_actions_env \<Rightarrow> StateActionsState \<Rightarrow> StateActionsActions \<Rightarrow> js_error + StateActionsState" where
  "stateActionsReducer env state (STATE_ACTIONS_GET_ACTIONS slot) = Inr (state\<lparr>sa_activeSlot := slot\<rparr>)"
| "stateActionsReducer env state (STATE_ACTIONS_GET_ACTIONS_SUCCESS payload) =
     (case (case payload of
              Some (stats, gs) \<Rightarrow> Inr (sortGroups (sn_sort env) gs (sa_currentSort state))
            | None \<Rightarrow> sn_sortUndefined env (sa_currentSort state)) of
        Inl e \<Rightarrow> Inl e
      | Inr groups \<Rightarrow> Inr (state\<lparr>sa_groups := groups,
          sa_filteredGroups := searchActionsInGroups (sa_activeSearch state) groups, sa_stats := map_option (Stats \<circ> fst) payload\<rparr>))"
| "stateActionsReducer env state STATE_ACTIONS_TOGGLE_SIDE_PANEL =
     Inr (state\<lparr>sa_openSidePanel := \<not> sa_openSidePanel state\<rparr>)"
| "stateActionsReducer env state (STATE_ACTIONS_GET_EARLIEST_SLOT_SUCCESS payload) = Inr (state\<lparr>sa_earliestSlot := payload\<rparr>)"
| "stateActionsReducer env state (STATE_ACTIONS_SORT payload) =
     Inr (state\<lparr>sa_currentSort := payload, sa_filteredGroups := sortGroups (sn_sort env) (sa_filteredGroups state) payload\<rparr>)"
| "stateActionsReducer env state (STATE_ACTIONS_SEARCH payload) =
     Inr (state\<lparr>sa_activeSearch := payload,
       sa_filteredGroups := sortGroups (sn_sort env) (searchActionsInGroups payload (sa_groups state)) (sa_currentSort state)\<rparr>)"
| "stateActionsReducer env state STATE_ACTIONS_CLOSE = Inr (stateActionsInitialState (sn_isMobile env))"
| "stateActionsReducer env state (STATE_ACTIONS_GET_EARLIEST_SLOT _) = Inr state"

section \<open>Effects\<close>

text \<open>\<open>getEarliestSlot$\<close>: the request remembers the active slot and the \<open>force\<close> flag. The outputs are actions; a
  navigation to the slot goes with each request for its actions.\<close>

definition getEarliestSlot_effect ::
  "string \<Rightarrow> (unit, StateActionsActions \<times> StateActionsState, int option \<times> bool, int, StateActionsActions dispatched) effect" where
  "getEarliestSlot_effect now =
     \<lparr>on_action = (\<lambda>(action, state) f. case action of
          STATE_ACTIONS_GET_EARLIEST_SLOT force \<Rightarrow> (f, Switch_request (sa_activeSlot state, force))
        | STATE_ACTIONS_CLOSE \<Rightarrow> (f, Switch_empty)
        | _ \<Rightarrow> (f, Filtered)),
      on_value = (\<lambda>(activeSlot, force) payload f.
        (f, Dispatch (STATE_ACTIONS_GET_EARLIEST_SLOT_SUCCESS (Some payload)) #
            (if (case activeSlot of None \<Rightarrow> True | Some a \<Rightarrow> a > payload) \<or> force
             then [Dispatch (STATE_ACTIONS_GET_ACTIONS (Some payload))] else []))),
      on_error = (\<lambda>e f. (f, catchErrorAndRepeat now GENERIC (STATE_ACTIONS_GET_EARLIEST_SLOT_SUCCESS None) e))\<rparr>"

definition getActions_effect ::
  "string \<Rightarrow> (unit, StateActionsActions \<times> StateActionsState, string, StateActionsStats \<times> StateActionGroup list,
     StateActionsActions dispatched) effect" where
  "getActions_effect now =
     \<lparr>on_action = (\<lambda>(action, state) f. case action of
          STATE_ACTIONS_GET_ACTIONS slot \<Rightarrow> (f, Switch_request (getActions_path (sa_activeSlot state)))
        | STATE_ACTIONS_CLOSE \<Rightarrow> (f, Switch_empty)
        | _ \<Rightarrow> (f, Filtered)),
      on_value = (\<lambda>_ payload f. (f, [Dispatch (STATE_ACTIONS_GET_ACTIONS_SUCCESS (Some payload))])),
      on_error = (\<lambda>e f. (f, catchErrorAndRepeat now GENERIC (STATE_ACTIONS_GET_ACTIONS_SUCCESS None) e))\<rparr>"

interpretation earliestSlot_close: cancel_on_close "getEarliestSlot_effect now" "\<lambda>(a, s). a = STATE_ACTIONS_CLOSE"
  by unfold_locales (auto simp: getEarliestSlot_effect_def)

interpretation actions_close: cancel_on_close "getActions_effect now" "\<lambda>(a, s). a = STATE_ACTIONS_CLOSE"
  by unfold_locales (auto simp: getActions_effect_def)

section \<open>Prefixes of names\<close>

lemma split_upper_ne [simp]: "split_upper s \<noteq> []"
  by (induction s rule: split_upper.induct) simp_all

lemma concat_split_upper [simp]: "concat (split_upper s) = s"
proof (induction s rule: split_upper.induct)
  case (3 c d cs)
  then show ?case by (cases "split_upper (d # cs)") auto
qed simp_all

lemma split_upper_slices: "s \<noteq> [] \<Longrightarrow> [] \<notin> set (split_upper s)"
proof (induction s rule: split_upper.induct)
  case (3 c d cs)
  then show ?case by (cases "split_upper (d # cs)") auto
qed simp_all

lemma buildups_prefix: "p \<in> set (buildups acc ss) \<Longrightarrow> \<exists>r. acc @ concat ss = p @ r"
proof (induction ss arbitrary: acc)
  case (Cons s ss)
  from Cons.prems consider "p = acc @ s" | "p \<in> set (buildups (acc @ s) ss)" by auto
  then show ?case using Cons.IH [of "acc @ s"] by cases auto
qed simp

lemma buildups_whole: "ss \<noteq> [] \<Longrightarrow> acc @ concat ss \<in> set (buildups acc ss)"
proof (induction ss arbitrary: acc)
  case (Cons s ss)
  then show ?case using Cons.IH [of "acc @ s"] by (cases "ss = []") auto
qed simp

lemma buildups_longer: "[] \<notin> set ss \<Longrightarrow> p \<in> set (buildups acc ss) \<Longrightarrow> length acc < length p"
proof (induction ss arbitrary: acc)
  case (Cons s ss)
  then show ?case using Cons.IH [of "acc @ s"] by fastforce
qed simp

lemma buildups_distinct: "[] \<notin> set ss \<Longrightarrow> distinct (buildups acc ss)"
proof (induction ss arbitrary: acc)
  case (Cons s ss)
  then show ?case using buildups_longer [of ss "acc @ s" "acc @ s"] by auto
qed simp

lemma name_prefixes_prefix: "p \<in> set (name_prefixes n) \<Longrightarrow> \<exists>r. n = p @ r"
  using buildups_prefix [of p "[]" "split_upper n"] by (simp add: name_prefixes_def)

lemma name_prefixes_self [simp]: "n \<in> set (name_prefixes n)"
  using buildups_whole [of "split_upper n" "[]"] by (simp add: name_prefixes_def)

lemma name_prefixes_distinct [simp]: "distinct (name_prefixes n)"
  using buildups_distinct [OF split_upper_slices, of n "[]"] by (cases "n = []") (simp_all add: name_prefixes_def)

section \<open>The groups partition the actions\<close>

definition group_of :: "('k \<times> 'v list) list \<Rightarrow> 'k \<Rightarrow> 'v list" where
  "group_of gs k = (case map_of gs k of None \<Rightarrow> [] | Some vs \<Rightarrow> vs)"

lemma group_of_push: "group_of (push_at k v gs) k' = group_of gs k' @ (if k' = k then [v] else [])"
  by (induction k v gs rule: push_at.induct) (auto simp: group_of_def)

lemma keys_push: "distinct (map fst gs) \<Longrightarrow>
  distinct (map fst (push_at k v gs)) \<and> set (map fst (push_at k v gs)) = insert k (set (map fst gs))"
  by (induction k v gs rule: push_at.induct) auto

lemma group_of_pushes:
  "distinct ps \<Longrightarrow> group_of (foldl (\<lambda>gs p. push_at p v gs) gs ps) k = group_of gs k @ (if k \<in> set ps then [v] else [])"
  by (induction ps arbitrary: gs) (auto simp: group_of_push)

lemma keys_pushes: "distinct (map fst gs) \<Longrightarrow> distinct (map fst (foldl (\<lambda>gs p. push_at p v gs) gs ps))"
  by (induction ps arbitrary: gs) (auto simp: keys_push)

lemma prefixGroups_fold:
  "group_of (foldl (\<lambda>gs n. foldl (\<lambda>gs p. push_at p n gs) gs (name_prefixes n)) gs ns) k =
   group_of gs k @ filter (\<lambda>n. k \<in> set (name_prefixes n)) ns"
  by (induction ns arbitrary: gs) (auto simp: group_of_pushes)

lemma prefixGroups_group: "group_of (prefixGroups names) k = filter (\<lambda>n. k \<in> set (name_prefixes n)) names"
  by (simp add: prefixGroups_def prefixGroups_fold) (simp add: group_of_def)

lemma prefixGroups_keys: "distinct (map fst (prefixGroups names))"
proof -
  have "distinct (map fst gs) \<Longrightarrow>
      distinct (map fst (foldl (\<lambda>gs n. foldl (\<lambda>gs p. push_at p n gs) gs (name_prefixes n)) gs names))" for gs
    by (induction names arbitrary: gs) (auto intro: keys_pushes)
  then show ?thesis by (simp add: prefixGroups_def)
qed

lemma prefixGroups_iff:
  "(k, vs) \<in> set (prefixGroups names) \<Longrightarrow> vs = filter (\<lambda>n. k \<in> set (name_prefixes n)) names"
  using prefixGroups_group [of names k] map_of_is_SomeI [OF prefixGroups_keys, of k vs names] by (simp add: group_of_def)

lemma prefixGroups_shared:
  assumes "k \<in> set (name_prefixes n)" and "n \<in> set names"
  shows "(k, filter (\<lambda>n. k \<in> set (name_prefixes n)) names) \<in> set (prefixGroups names)"
proof -
  have "group_of (prefixGroups names) k \<noteq> []"
    using assms by (auto simp: prefixGroups_group filter_empty_conv)
  then obtain vs where "map_of (prefixGroups names) k = Some vs" by (auto simp: group_of_def split: option.splits)
  then have "(k, vs) \<in> set (prefixGroups names)" by (rule map_of_SomeD)
  with prefixGroups_iff [OF this] show ?thesis by simp
qed

lemma put_at_fresh [simp]: "k \<notin> fst ` set gs \<Longrightarrow> put_at k v gs = gs @ [(k, v)]"
  by (induction k v gs rule: put_at.induct) auto

lemma put_all_fresh:
  "distinct ns \<Longrightarrow> set ns \<inter> fst ` set gs = {} \<Longrightarrow> foldl (\<lambda>gs n. put_at n [n] gs) gs ns = gs @ map (\<lambda>n. (n, [n])) ns"
proof (induction ns arbitrary: gs)
  case (Cons n ns)
  have "foldl (\<lambda>gs n. put_at n [n] gs) (gs @ [(n, [n])]) ns = (gs @ [(n, [n])]) @ map (\<lambda>n. (n, [n])) ns"
    using Cons.prems by (intro Cons.IH) auto
  with Cons.prems show ?case by simp
qed simp

text \<open>What holds of the groups taken so far: they are disjoint, \<open>P\<close> relates each name to its actions, and a
  group that is named like an action has used it.\<close>

definition groups_ok ::
  "(string \<Rightarrow> string \<Rightarrow> bool) \<Rightarrow> string set \<Rightarrow> (string \<times> string list) list \<times> string list \<Rightarrow> bool" where
  "groups_ok P N = (\<lambda>(groups, used). used = concat (map snd groups) \<and> distinct used \<and> distinct (map fst groups) \<and>
     (\<forall>(g, as) \<in> set groups. as \<noteq> [] \<and> (\<forall>a \<in> set as. P g a)) \<and> (\<forall>g \<in> fst ` set groups. g \<in> N \<longrightarrow> g \<in> set used))"

lemma take_group_ok:
  assumes ok: "groups_ok P N (groups, used)" and fresh: "g \<notin> fst ` set groups"
    and group: "distinct as" "\<forall>a \<in> set as. P g a" "g \<in> N \<Longrightarrow> g \<in> set as"
  shows "groups_ok P N (take_group (groups, used) (g, as))"
    and "set used \<subseteq> set (snd (take_group (groups, used) (g, as)))"
    and "length (filter (\<lambda>a. a \<notin> set (snd (take_group (groups, used) (g, as)))) as) \<le> 1"
    and "fst ` set (fst (take_group (groups, used) (g, as))) \<subseteq> insert g (fst ` set groups)"
proof -
  define bs where "bs = filter (\<lambda>a. a \<notin> set used) as"
  have eq: "take_group (groups, used) (g, as) =
      (if length bs > 1 then (groups @ [(g, bs)], used @ bs) else (groups, used))"
    using fresh by (simp add: take_group_def bs_def Let_def)
  have "groups_ok P N (groups @ [(g, bs)], used @ bs)" if "length bs > 1"
  proof -
    have "bs \<noteq> []" using that by auto
    moreover have "g \<in> N \<Longrightarrow> g \<in> set (used @ bs)" using group(3) by (auto simp: bs_def)
    moreover have "distinct (used @ bs)" using ok group(1) by (auto simp: groups_ok_def bs_def)
    moreover have "\<forall>a \<in> set bs. P g a" using group(2) by (auto simp: bs_def)
    ultimately show ?thesis using ok fresh by (auto simp: groups_ok_def)
  qed
  with ok show "groups_ok P N (take_group (groups, used) (g, as))" by (simp add: eq)
  show "set used \<subseteq> set (snd (take_group (groups, used) (g, as)))" by (auto simp: eq)
  have "filter (\<lambda>a. a \<notin> set (used @ bs)) as = []" by (auto simp: bs_def filter_empty_conv)
  then show "length (filter (\<lambda>a. a \<notin> set (snd (take_group (groups, used) (g, as)))) as) \<le> 1"
    by (cases "length bs > 1") (simp_all add: eq bs_def)
  show "fst ` set (fst (take_group (groups, used) (g, as))) \<subseteq> insert g (fst ` set groups)" by (auto simp: eq)
qed

lemma take_groups_ok:
  assumes "groups_ok P N s" and "distinct (map fst L)" and "fst ` set (fst s) \<inter> fst ` set L = {}"
    and "\<And>g as. (g, as) \<in> set L \<Longrightarrow> distinct as \<and> (\<forall>a \<in> set as. P g a) \<and> (g \<in> N \<longrightarrow> g \<in> set as)"
  shows "groups_ok P N (foldl take_group s L) \<and> set (snd s) \<subseteq> set (snd (foldl take_group s L)) \<and>
    (\<forall>(g, as) \<in> set L. length (filter (\<lambda>a. a \<notin> set (snd (foldl take_group s L))) as) \<le> 1)"
  using assms
proof (induction L arbitrary: s)
  case (Cons x L)
  obtain g as groups used where x: "x = (g, as)" and s: "s = (groups, used)" by (cases x, cases s)
  let ?s = "take_group s x"
  have fresh: "g \<notin> fst ` set groups" using Cons.prems(3) by (auto simp: x s)
  note step = take_group_ok [OF Cons.prems(1) [unfolded s] fresh, of as, folded s x]
  have g: "distinct as" "\<forall>a \<in> set as. P g a" "g \<in> N \<Longrightarrow> g \<in> set as" using Cons.prems(4) [of g as] by (auto simp: x)
  have "g \<notin> fst ` set L" "fst ` set groups \<inter> fst ` set L = {}" using Cons.prems(2,3) by (auto simp: x s)
  then have "fst ` set (fst ?s) \<inter> fst ` set L = {}" using step(4) [OF g] by (simp add: s) blast
  then have rest: "groups_ok P N (foldl take_group ?s L) \<and> set (snd ?s) \<subseteq> set (snd (foldl take_group ?s L)) \<and>
      (\<forall>(g, as) \<in> set L. length (filter (\<lambda>a. a \<notin> set (snd (foldl take_group ?s L))) as) \<le> 1)"
    by (intro Cons.IH [OF step(1) [OF g]]) (use Cons.prems(2) in simp_all, rule Cons.prems(4), simp)
  have "length (filter (\<lambda>a. a \<notin> set (snd (foldl take_group ?s L))) as) \<le> length (filter (\<lambda>a. a \<notin> set (snd ?s)) as)"
    using rest by (intro length_filter_mono) auto
  with rest step(2,3) [OF g] show ?case by (auto simp: x s)
qed simp

lemma finalGroups_ok:
  assumes "distinct names"
  shows "groups_ok (\<lambda>g a. a \<in> set names \<and> g \<in> set (name_prefixes a)) (set names) (finalGroups names)"
    and "p \<in> set (name_prefixes a) \<Longrightarrow> p \<in> set (name_prefixes b) \<Longrightarrow> a \<noteq> b \<Longrightarrow> a \<in> set names \<Longrightarrow> b \<in> set names \<Longrightarrow>
      a \<in> set (snd (finalGroups names)) \<or> b \<in> set (snd (finalGroups names))"
proof -
  define L where "L = filter (\<lambda>g. length (snd g) > 1) (sort_key (\<lambda>g. - int (length (fst g))) (prefixGroups names))"
  have final: "finalGroups names = foldl take_group ([], []) L" by (simp add: finalGroups_def L_def Let_def)
  have "distinct (map fst (sort_key (\<lambda>g. - int (length (fst g))) (prefixGroups names)))"
    using prefixGroups_keys [of names] by (metis mset_map mset_sort mset_eq_imp_distinct_iff)
  then have "distinct (map fst L)" unfolding L_def by (rule distinct_map_filter)
  moreover have "distinct as \<and> (\<forall>a \<in> set as. a \<in> set names \<and> g \<in> set (name_prefixes a)) \<and> (g \<in> set names \<longrightarrow> g \<in> set as)"
    if "(g, as) \<in> set L" for g as
  proof -
    have "as = filter (\<lambda>n. g \<in> set (name_prefixes n)) names"
      using that by (intro prefixGroups_iff) (auto simp: L_def)
    with assms show ?thesis by auto
  qed
  moreover have "groups_ok (\<lambda>g a. a \<in> set names \<and> g \<in> set (name_prefixes a)) (set names) ([], [])"
    by (simp add: groups_ok_def)
  ultimately have all: "groups_ok (\<lambda>g a. a \<in> set names \<and> g \<in> set (name_prefixes a)) (set names) (finalGroups names) \<and>
      set (snd ([] :: (string \<times> string list) list, [] :: string list)) \<subseteq> set (snd (finalGroups names)) \<and>
      (\<forall>(g, as) \<in> set L. length (filter (\<lambda>a. a \<notin> set (snd (finalGroups names))) as) \<le> 1)"
    unfolding final by (intro take_groups_ok) simp_all
  then show "groups_ok (\<lambda>g a. a \<in> set names \<and> g \<in> set (name_prefixes a)) (set names) (finalGroups names)" ..
  assume p: "p \<in> set (name_prefixes a)" "p \<in> set (name_prefixes b)" "a \<noteq> b" "a \<in> set names" "b \<in> set names"
  let ?as = "filter (\<lambda>n. p \<in> set (name_prefixes n)) names"
  have two: "length xs > 1" if "a \<in> set xs" "b \<in> set xs" for xs
    using that p(3) by (cases xs; cases "tl xs") auto
  have "(p, ?as) \<in> set L" using prefixGroups_shared [OF p(1,4)] two [of ?as] p by (auto simp: L_def)
  with all have "\<not> length (filter (\<lambda>a. a \<notin> set (snd (finalGroups names))) ?as) > 1" by fastforce
  with two [of "filter (\<lambda>a. a \<notin> set (snd (finalGroups names))) ?as"] p
  show "a \<in> set (snd (finalGroups names)) \<or> b \<in> set (snd (finalGroups names))" by auto
qed

lemma finalGroups_size:
  assumes "finalGroups names = (groups, used)" and "(g, as) \<in> set groups"
  shows "length as > 1"
proof -
  have put: "set (put_at k v gs) \<subseteq> insert (k, v) (set gs)" for k v and gs :: "(string \<times> string list) list"
    by (induction k v gs rule: put_at.induct) auto
  have run: "\<forall>(g, as) \<in> set (fst s). length as > 1 \<Longrightarrow> \<forall>(g, as) \<in> set (fst (foldl take_group s L)). length as > 1" for s L
  proof (induction L arbitrary: s)
    case (Cons x L)
    have "\<forall>(g, as) \<in> set (fst (take_group s x)). length as > 1"
      using Cons.prems by (cases s; cases x) (fastforce simp: take_group_def Let_def split: if_splits dest!: subsetD [OF put])
    then show ?case using Cons.IH by simp
  qed simp
  have "\<forall>(g, as) \<in> set (fst (finalGroups names)). length as > 1"
    unfolding finalGroups_def Let_def by (intro run) simp
  with assms show ?thesis by auto
qed

lemma getGroupNames_eq:
  assumes "distinct names" and fg: "finalGroups names = (groups, used)"
  shows "getGroupNames names = groups @ map (\<lambda>n. (n, [n])) (filter (\<lambda>n. n \<notin> set used) names)"
proof -
  have "groups_ok (\<lambda>g a. a \<in> set names \<and> g \<in> set (name_prefixes a)) (set names) (groups, used)"
    using finalGroups_ok(1) [OF assms(1)] by (simp add: fg)
  then have "set (filter (\<lambda>n. n \<notin> set used) names) \<inter> fst ` set groups = {}" by (auto simp: groups_ok_def)
  then show ?thesis using assms(1) put_all_fresh [of "filter (\<lambda>n. n \<notin> set used) names" groups]
    by (simp add: getGroupNames_def fg)
qed

lemma getGroupNames_partition:
  assumes "distinct names"
  shows "distinct (concat (map snd (getGroupNames names)))" and "set (concat (map snd (getGroupNames names))) = set names"
    and "(g, as) \<in> set (getGroupNames names) \<Longrightarrow> a \<in> set as \<Longrightarrow> \<exists>r. a = g @ r"
    and "distinct (map fst (getGroupNames names))"
proof -
  obtain groups used where fg: "finalGroups names = (groups, used)" by (cases "finalGroups names")
  note eq = getGroupNames_eq [OF assms fg]
  have ok: "groups_ok (\<lambda>g a. a \<in> set names \<and> g \<in> set (name_prefixes a)) (set names) (groups, used)"
    using finalGroups_ok(1) [OF assms] by (simp add: fg)
  have used: "used = concat (map snd groups)" "distinct used" using ok by (auto simp: groups_ok_def)
  have all: "concat (map snd (getGroupNames names)) = used @ filter (\<lambda>n. n \<notin> set used) names"
    by (simp add: eq used(1) o_def)
  have sub: "set used \<subseteq> set names" using ok by (fastforce simp: groups_ok_def)
  show "distinct (concat (map snd (getGroupNames names)))" using used(2) assms unfolding all by auto
  show "set (concat (map snd (getGroupNames names))) = set names" using sub unfolding all by auto
  show "distinct (map fst (getGroupNames names))" using ok assms by (auto simp: eq groups_ok_def o_def)
  assume "(g, as) \<in> set (getGroupNames names)" and a: "a \<in> set as"
  then consider "(g, as) \<in> set groups" | "a = g" unfolding eq by auto
  then show "\<exists>r. a = g @ r"
  proof cases
    case 1
    with ok a have "g \<in> set (name_prefixes a)" by (fastforce simp: groups_ok_def)
    then show ?thesis by (rule name_prefixes_prefix)
  qed simp
qed

section \<open>The groups of a response\<close>

lemma filter_groups_mset:
  "distinct (concat (map snd gs)) \<Longrightarrow>
   mset (concat (map (\<lambda>(g, as). filter (\<lambda>x. f x \<in> set as) xs) gs)) = mset (filter (\<lambda>x. f x \<in> set (concat (map snd gs))) xs)"
proof (induction gs)
  case (Cons y gs)
  obtain g as where y: "y = (g, as)" by (cases y)
  have "filter_mset (\<lambda>x. f x \<in> set as) (mset xs) + filter_mset (\<lambda>x. f x \<in> set (concat (map snd gs))) (mset xs) =
      filter_mset (\<lambda>x. f x \<in> set as \<or> f x \<in> set (concat (map snd gs))) (mset xs)"
    using Cons.prems by (induction xs) (auto simp: y)
  with Cons show ?case by (simp add: y)
qed simp

lemma sum_list_concat: "sum_list (concat xss) = sum_list (map sum_list xss)"
  for xss :: "nat list list"
  by (induction xss) simp_all

definition response_calls :: "(string \<times> range_stats) list \<Rightarrow> nat" where
  "response_calls ranges = sum_list (map (rs_total_calls \<circ> snd) ranges)"

lemma mapAction_simps [simp]:
  "ga_fullTitle (mapAction g x) = fst x" "ga_totalCount (mapAction g x) = response_calls (snd x)"
  by (cases x; simp add: mapAction_def mapColumn_def response_calls_def Let_def o_def)+

lemma js_remove_sub_prefix: "js_remove_sub g (g @ r) = r"
  by (cases g; cases r) (auto simp: js_startsWith_iff)

lemma mapAction_title: "\<exists>r. fst x = g @ r \<Longrightarrow> g @ ga_title (mapAction g x) = fst x"
  by (cases x) (auto simp: mapAction_def Let_def js_remove_sub_prefix)

lemma convertTimes_fst [simp]: "map fst (convertTimesToSeconds response) = map fst response"
  by (simp add: convertTimesToSeconds_def comp_def case_prod_beta)

lemma convertTimes_calls:
  "map (response_calls \<circ> snd) (convertTimesToSeconds response) = map (response_calls \<circ> snd) response"
  by (simp add: convertTimesToSeconds_def response_calls_def comp_def case_prod_beta)

text \<open>C9. The groups of a response: every action of the response is in exactly one group, the group and the title
  of an action make up its name, the groups have different names, and their counts add up to the calls of all
  actions.\<close>

theorem state_actions_partition:
  assumes "distinct (map fst response)"
  shows "let groups = mapActions response
    in mset (concat (map (\<lambda>g. map ga_fullTitle (sg_actions g)) groups)) = mset (map fst response) \<and>
       distinct (map sg_groupName groups) \<and>
       (\<forall>g \<in> set groups. \<forall>a \<in> set (sg_actions g). sg_groupName g @ ga_title a = ga_fullTitle a) \<and>
       sum_list (map sg_count groups) = sum_list (map (response_calls \<circ> snd) response)"
proof -
  define resp where "resp = convertTimesToSeconds response"
  define gs where "gs = getGroupNames (map fst resp)"
  let ?part = "\<lambda>as. filter (\<lambda>a. fst a \<in> set as) resp"
  have d: "distinct (map fst resp)" using assms by (simp add: resp_def)
  note part = getGroupNames_partition [OF d, folded gs_def]
  have groups: "mapActions response = map (\<lambda>(g, as).
      let actions = map (mapAction g) (?part as); count = sum_list (map ga_totalCount actions);
          totalTime = sum_list (map ga_totalTime actions)
      in \<lparr>sg_groupName = g, sg_count = count, sg_totalTime = totalTime, sg_meanTime = getMeanTime totalTime count,
          sg_actions = actions, sg_display = True\<rparr>) gs"
    by (simp add: mapActions_def gs_def resp_def Let_def)
  have all: "mset (concat (map (\<lambda>(g, as). ?part as) gs)) = mset resp"
    using filter_groups_mset [OF part(1), of fst resp] unfolding part(2) by (simp flip: mset_filter)
  have "concat (map (\<lambda>g. map ga_fullTitle (sg_actions g)) (mapActions response)) =
      map fst (concat (map (\<lambda>(g, as). ?part as) gs))"
    by (simp add: groups map_concat comp_def case_prod_beta Let_def)
  then have "mset (concat (map (\<lambda>g. map ga_fullTitle (sg_actions g)) (mapActions response))) = mset (map fst response)"
    using all by (simp only: mset_map) (simp flip: mset_map add: resp_def)
  moreover have "distinct (map sg_groupName (mapActions response))"
    using part(4) by (simp add: groups comp_def case_prod_beta Let_def)
  moreover have "sg_groupName g @ ga_title a = ga_fullTitle a"
    if "g \<in> set (mapActions response)" "a \<in> set (sg_actions g)" for g a
  proof -
    from that obtain k as x where "(k, as) \<in> set gs" "fst x \<in> set as" "sg_groupName g = k" "a = mapAction k x"
      by (auto simp: groups Let_def)
    with part(3) [of k as "fst x"] show ?thesis by (simp add: mapAction_title)
  qed
  moreover have "sum_list (map sg_count (mapActions response)) =
      sum_list (map (response_calls \<circ> snd) (concat (map (\<lambda>(g, as). ?part as) gs)))"
    by (simp add: groups map_concat sum_list_concat comp_def case_prod_beta Let_def)
  then have "sum_list (map sg_count (mapActions response)) = sum_list (map (response_calls \<circ> snd) response)"
    using arg_cong [OF all, of "\<lambda>m. sum_mset (image_mset (response_calls \<circ> snd) m)"] convertTimes_calls [of response]
    by (simp flip: mset_map sum_mset_sum_list add: resp_def)
  ultimately show ?thesis by (auto simp: Let_def)
qed

theorem state_actions_partition_witness:
  "let r = \<lparr>rs_total_calls = 3, rs_total_duration = 1, rs_max_duration = 1\<rparr>;
       groups = mapActions [(''PeerAdd'', [([], r)]), (''Check'', []), (''PeerDrop'', [([], r)])]
   in mset (concat (map (\<lambda>g. map ga_fullTitle (sg_actions g)) groups)) = mset [''PeerAdd'', ''Check'', ''PeerDrop''] \<and>
      sum_list (map sg_count groups) = 6"
  using state_actions_partition [of "[(''PeerAdd'', [([], \<lparr>rs_total_calls = 3, rs_total_duration = 1, rs_max_duration = 1\<rparr>)]),
      (''Check'', []), (''PeerDrop'', [([], \<lparr>rs_total_calls = 3, rs_total_duration = 1, rs_max_duration = 1\<rparr>)])]"]
  by (simp add: Let_def response_calls_def)

text \<open>Actions that end up in a group of their own do not share a leading word: of two actions whose names begin
  with the same words, at least one is in a group with another action.\<close>

lemma state_actions_grouping:
  assumes "distinct names" and "a \<in> set names" and "b \<in> set names" and "a \<noteq> b"
    and "p \<in> set (name_prefixes a)" and "p \<in> set (name_prefixes b)"
  shows "\<exists>g as. (g, as) \<in> set (getGroupNames names) \<and> length as > 1 \<and> (a \<in> set as \<or> b \<in> set as)"
proof -
  obtain groups used where fg: "finalGroups names = (groups, used)" by (cases "finalGroups names")
  have ok: "groups_ok (\<lambda>g a. a \<in> set names \<and> g \<in> set (name_prefixes a)) (set names) (groups, used)"
    using finalGroups_ok(1) [OF assms(1)] by (simp add: fg)
  have "a \<in> set used \<or> b \<in> set used" using finalGroups_ok(2) [OF assms(1,5,6,4,2,3)] by (simp add: fg)
  with ok obtain g as where "(g, as) \<in> set groups" "a \<in> set as \<or> b \<in> set as" by (fastforce simp: groups_ok_def)
  then show ?thesis using finalGroups_size [OF fg] unfolding getGroupNames_eq [OF assms(1) fg] by fastforce
qed

lemma state_actions_grouping_witness:
  "\<exists>g as. (g, as) \<in> set (getGroupNames [''PeerAdd'', ''Check'', ''PeerDrop'']) \<and> length as > 1 \<and>
     (''PeerAdd'' \<in> set as \<or> ''PeerDrop'' \<in> set as)"
proof -
  have "''Peer'' \<in> set (name_prefixes ''PeerAdd'')" "''Peer'' \<in> set (name_prefixes ''PeerDrop'')" by code_simp+
  then show ?thesis using state_actions_grouping [of "[''PeerAdd'', ''Check'', ''PeerDrop'']" "''PeerAdd''" "''PeerDrop''" "''Peer''"]
    by simp
qed

section \<open>Squares\<close>

lemma floor_tenth: "\<lfloor>q / 10\<rfloor> = \<lfloor>q\<rfloor> div 10" for q :: rat
proof (rule floor_unique)
  have "10 * (\<lfloor>q\<rfloor> div 10) \<le> \<lfloor>q\<rfloor>" by simp
  then have "of_int (10 * (\<lfloor>q\<rfloor> div 10)) \<le> q" by (simp only: le_floor_iff)
  then show "of_int (\<lfloor>q\<rfloor> div 10) \<le> q / 10" by simp
  have "\<lfloor>q\<rfloor> < 10 * (\<lfloor>q\<rfloor> div 10 + 1)" by presburger
  then have "q < of_int (10 * (\<lfloor>q\<rfloor> div 10 + 1))" by (simp only: floor_less_iff)
  then show "q / 10 < of_int (\<lfloor>q\<rfloor> div 10) + 1" by simp
qed

lemma squareLoop_digits:
  "0 \<le> q \<Longrightarrow> squareLoop q k = k + (if q < 1 then 0 else length (dec (nat \<lfloor>q\<rfloor>)))"
proof (induction q k rule: squareLoop.induct)
  case (1 q k)
  show ?case
  proof (cases "q < 1")
    case True
    then show ?thesis by (simp add: squareLoop.simps [of q k])
  next
    case False
    have t: "nat \<lfloor>q / 10\<rfloor> = nat \<lfloor>q\<rfloor> div 10" using "1.prems" by (simp add: floor_tenth nat_div_distrib)
    have "squareLoop q k = squareLoop (q / 10) (k + 1)" using False by (simp add: squareLoop.simps [of q k])
    also have "\<dots> = k + 1 + (if q / 10 < 1 then 0 else length (dec (nat \<lfloor>q / 10\<rfloor>)))"
      using "1.prems" False by (intro "1.IH") auto
    also have "\<dots> = k + length (dec (nat \<lfloor>q\<rfloor>))"
    proof (cases "q / 10 < 1")
      case True
      then have "\<lfloor>q\<rfloor> < 10" by (simp add: floor_less_iff)
      then have "nat \<lfloor>q\<rfloor> < 10" by linarith
      then show ?thesis using True by (simp add: to_radix.simps [of 10 "nat \<lfloor>q\<rfloor>"])
    next
      case False
      then have "10 \<le> \<lfloor>q\<rfloor>" by (simp add: le_floor_iff)
      then have "\<not> nat \<lfloor>q\<rfloor> < 10" by linarith
      then show ?thesis using False by (simp add: to_radix.simps [of 10 "nat \<lfloor>q\<rfloor>"] t)
    qed
    finally show ?thesis using False by simp
  qed
qed

text \<open>The loop that counts the squares of a column ends, and its result is the number of decimal digits of
  the calls, up to eight; a column without calls has none.\<close>

lemma state_actions_squares:
  "getSquareCount calls = (if calls = 0 then 0 else min (length (dec calls)) 8)"
  using squareLoop_digits [of "of_nat calls" 0] by (simp add: getSquareCount_def)

section \<open>The groups that are shown\<close>

definition state_actions_ok :: "StateActionsState \<Rightarrow> bool" where
  "state_actions_ok s \<longleftrightarrow> mset (sa_filteredGroups s) = mset (searchActionsInGroups (sa_activeSearch s) (sa_groups s))"

lemma search_mset:
  "mset xs = mset ys \<Longrightarrow> mset (searchActionsInGroups t xs) = mset (searchActionsInGroups t ys)"
  by (auto simp: searchActionsInGroups_def)

lemma state_actions_step:
  assumes "sorter_permutes (sn_sort env)" and "state_actions_ok s" and "stateActionsReducer env s a = Inr s'"
  shows "state_actions_ok s'"
  using assms(2,3) by (cases "(env, s, a)" rule: stateActionsReducer.cases)
    (auto simp: state_actions_ok_def sortGroups_def sorter_mset [OF assms(1)] stateActionsInitialState_def
      searchActionsInGroups_def split: sum.splits option.splits prod.splits)

lemma state_actions_run:
  assumes "sorter_permutes (sn_sort env)"
    and "reduce_all (stateActionsReducer env) (stateActionsInitialState mobile) as = Inr s"
  shows "state_actions_ok s"
proof -
  have "state_actions_ok t \<Longrightarrow> reduce_all (stateActionsReducer env) t as = Inr s \<Longrightarrow> state_actions_ok s" for t
    using state_actions_step [OF assms(1)] by (induction as arbitrary: t) (auto split: sum.splits)
  moreover have "state_actions_ok (stateActionsInitialState mobile)"
    by (simp add: state_actions_ok_def stateActionsInitialState_def searchActionsInGroups_def)
  ultimately show ?thesis using assms(2) by blast
qed

lemma search_displays:
  assumes "g \<in> set (searchActionsInGroups t gs)" and "t \<noteq> []"
  shows "(sg_display g \<longleftrightarrow> (\<exists>a \<in> set (sg_actions g). action_matches t a)) \<and>
    (\<forall>a \<in> set (sg_actions g). ga_display a \<longleftrightarrow> action_matches t a)"
  using assms by (auto simp: searchActionsInGroups_def action_matches_def list_ex_iff Let_def) blast

text \<open>After any actions the page shows the groups of the last response, each once and in some order; while a search is
  active, an action is displayed exactly when its name has the searched text, and a group exactly when one of its actions is.\<close>

lemma state_actions_view:
  assumes "sorter_permutes (sn_sort env)"
    and "reduce_all (stateActionsReducer env) (stateActionsInitialState mobile) as = Inr s"
  shows "mset (map sg_groupName (sa_filteredGroups s)) = mset (map sg_groupName (sa_groups s)) \<and>
    (sa_activeSearch s \<noteq> [] \<longrightarrow> (\<forall>g \<in> set (sa_filteredGroups s).
       (sg_display g \<longleftrightarrow> (\<exists>a \<in> set (sg_actions g). action_matches (sa_activeSearch s) a)) \<and>
       (\<forall>a \<in> set (sg_actions g). ga_display a \<longleftrightarrow> action_matches (sa_activeSearch s) a)))"
proof -
  have ok: "mset (sa_filteredGroups s) = mset (searchActionsInGroups (sa_activeSearch s) (sa_groups s))"
    using state_actions_run [OF assms] by (simp add: state_actions_ok_def)
  have "map sg_groupName (searchActionsInGroups t gs) = map sg_groupName gs" for t gs
    by (auto simp: searchActionsInGroups_def Let_def)
  then have "mset (map sg_groupName (sa_filteredGroups s)) = mset (map sg_groupName (sa_groups s))"
    using arg_cong [OF ok, of "image_mset sg_groupName"] by (simp flip: mset_map)
  moreover have "set (sa_filteredGroups s) = set (searchActionsInGroups (sa_activeSearch s) (sa_groups s))"
    using ok by (metis set_mset_mset)
  ultimately show ?thesis using search_displays by metis
qed

definition sample_state_actions :: StateActionsState where
  "sample_state_actions = (let env = \<lparr>sn_sort = (\<lambda>xs ts. xs), sn_sortUndefined = (\<lambda>_. Inr []), sn_isMobile = False\<rparr>
     in case reduce_all (stateActionsReducer env) (stateActionsInitialState False)
          [STATE_ACTIONS_SEARCH ''x'', STATE_ACTIONS_GET_ACTIONS_SUCCESS (Some (\<lparr>ss_time = [], ss_level = None, ss_hash = None,
             ss_cpuIdle = None, ss_cpuBusy = None\<rparr>, []))] of Inl _ \<Rightarrow> stateActionsInitialState True | Inr s \<Rightarrow> s)"

lemma state_actions_view_witness:
  "mset (map sg_groupName (sa_filteredGroups sample_state_actions)) = mset (map sg_groupName (sa_groups sample_state_actions)) \<and>
   sa_activeSearch sample_state_actions = ''x''"
  using state_actions_view [of "\<lparr>sn_sort = (\<lambda>xs ts. xs), sn_sortUndefined = (\<lambda>_. Inr []), sn_isMobile = False\<rparr>" False
      "[STATE_ACTIONS_SEARCH ''x'', STATE_ACTIONS_GET_ACTIONS_SUCCESS (Some (\<lparr>ss_time = [], ss_level = None, ss_hash = None,
          ss_cpuIdle = None, ss_cpuBusy = None\<rparr>, []))]" sample_state_actions]
  by (simp add: sample_state_actions_def sorter_permutes_def sortGroups_def stateActionsInitialState_def)

end
