(* ===== verification/Leaderboard.thy ===== *)
theory Leaderboard
  imports Store_Reducer Effect_Pipeline Date_Helper
begin

text \<open>
  The leaderboard (\<open>features/leaderboard\<close>): the scores that the heartbeat function writes, with the prizes for uptime and
  for produced blocks, the table that shows them, and the files with the results that can be downloaded.

  The two collections of the database, \<open>scores\<close> and \<open>maxScore\<close>, are arguments; the table sort of the shared package
  is a parameter. Percentages are exact rationals with two decimals. \<open>Array.prototype.sort\<close> is stable.
\<close>

section \<open>Data\<close>

record HeartbeatSummary =
  hs_publicKey :: string
  hs_isWhale :: bool
  hs_uptimePercentage :: rat
  hs_blocksProduced :: nat
  hs_uptimePrize :: bool
  hs_blocksPrize :: bool
  hs_score :: nat
  hs_maxScore :: nat

record score_doc =
  sd_publicKey :: string
  sd_score :: nat
  sd_blocksProduced :: nat

record max_score_doc =
  md_id :: string
  md_value :: nat

record LeaderboardState =
  lb_filteredHeartbeatSummaries :: "HeartbeatSummary list"
  lb_heartbeatSummaries :: "HeartbeatSummary list"
  lb_search :: "string option"
  lb_sortBy :: tableSort
  lb_isLoading :: bool

datatype LeaderboardActions =
    Leaderboard_init
  | Leaderboard_close
  | GetHeartbeats
  | GetHeartbeatsSuccess "HeartbeatSummary list"
  | Leaderboard_changeFilters "string option"
  | Leaderboard_sort tableSort

section \<open>Service\<close>

text \<open>\<open>Number(x.toFixed(2))\<close> for a number that is not negative.\<close>

definition toFixed2 :: "rat \<Rightarrow> rat" where
  "toFixed2 q = of_int \<lfloor>q * 100 + 1 / 2\<rfloor> / 100"

definition getUptimePercentage :: "nat \<Rightarrow> nat \<Rightarrow> rat" where
  "getUptimePercentage score maxScore =
     (if maxScore = 0 then 0 else toFixed2 (of_nat score / of_nat maxScore * 100))"

definition whale_keys :: "string list" where
  "whale_keys = [''B62qkiqPXFDayJV8JutYvjerERZ35EKrdmdcXh3j1rDUHRs1bJkFFcX'',
     ''B62qpQT46XiGQs7KhcczifvvYcnx7fbTzKj8a83UcT2BhPEs5mYnzdp'']"

definition maxScoreRightNow :: "max_score_doc list \<Rightarrow> nat" where
  "maxScoreRightNow maxScore = (case List.find (\<lambda>c. md_id c = ''current'') maxScore of None \<Rightarrow> 0 | Some c \<Rightarrow> md_value c)"

definition summaryItem :: "nat \<Rightarrow> score_doc \<Rightarrow> HeartbeatSummary" where
  "summaryItem maxScore score =
     \<lparr>hs_publicKey = sd_publicKey score, hs_isWhale = list_ex (js_includes (sd_publicKey score)) whale_keys,
      hs_uptimePercentage = getUptimePercentage (sd_score score) maxScore, hs_blocksProduced = sd_blocksProduced score,
      hs_uptimePrize = False, hs_blocksPrize = False, hs_score = sd_score score, hs_maxScore = maxScore\<rparr>"

text \<open>\<open>score > 0.3333 * this.maxScoreRightNow\<close>, and \<open>Math.max\<close>, which is below every number for no arguments.\<close>

definition eligible_score :: "nat \<Rightarrow> nat \<Rightarrow> bool" where
  "eligible_score maxScore score \<longleftrightarrow> (of_nat score :: rat) > 3333 / 10000 * of_nat maxScore"

fun math_max :: "nat list \<Rightarrow> nat option" where
  "math_max [] = None"
| "math_max (x # xs) = Some (foldl max x xs)"

text \<open>The value at the fifth place of a list sorted in descending order.\<close>

definition fifth_place :: "('a \<Rightarrow> rat) \<Rightarrow> 'a list \<Rightarrow> rat" where
  "fifth_place f xs = (let ys = sort_key (\<lambda>i. - f i) xs in if 4 < length ys then f (ys ! 4) else 0)"

definition getHeartbeatsSummaries :: "score_doc list \<Rightarrow> max_score_doc list \<Rightarrow> HeartbeatSummary list" where
  "getHeartbeatsSummaries scores maxScore =
     (let m = maxScoreRightNow maxScore;
          items = map (summaryItem m) scores;
          fifthPlacePercentageByUptime = fifth_place hs_uptimePercentage (filter (\<lambda>i. \<not> hs_isWhale i) items);
          highestProducedBlocks = math_max (map hs_blocksProduced
            (filter (\<lambda>item. eligible_score m (hs_score item)) (filter (\<lambda>i. \<not> hs_isWhale i) items)))
      in map (\<lambda>item. item
           \<lparr>hs_uptimePrize := (if hs_isWhale item then False else hs_uptimePercentage item \<ge> fifthPlacePercentageByUptime),
            hs_blocksPrize := (if hs_isWhale item then False else Some (hs_blocksProduced item) = highestProducedBlocks)\<rparr>) items)"

text \<open>\<open>getUptime\<close> of the web node's own key; the first document of the maximum is read without a check.\<close>

definition getUptime :: "string option \<Rightarrow> score_doc list \<Rightarrow> max_score_doc list \<Rightarrow> js_error + rat \<times> string" where
  "getUptime privateKey scores maxScore =
     (case List.find (\<lambda>score. Some (sd_publicKey score) = map_option (js_remove_first (CHR 0x0A)) privateKey) scores of
        None \<Rightarrow> Inr (0, [])
      | Some activeEntry \<Rightarrow>
          (case maxScore of
             [] \<Rightarrow> Inl TypeError
           | c # _ \<Rightarrow> Inr (getUptimePercentage (sd_score activeEntry) (md_value c),
               getElapsedTimeInMinsAndHours (sd_score activeEntry * 5))))"

subsection \<open>Files\<close>

definition is_capital :: "char \<Rightarrow> bool" where
  "is_capital c = (let n = of_char c :: nat in 65 \<le> n \<and> n \<le> 90)"

definition camelCaseToTitle :: "string \<Rightarrow> string" where
  "camelCaseToTitle camelCase =
     (case concat (map (\<lambda>c. if is_capital c then [CHR 0x20, c] else [c]) camelCase) of
        [] \<Rightarrow> [] | c # cs \<Rightarrow> upper_char c # cs)"

text \<open>The key of a header: its first character in lower case, without the first space.\<close>

definition header_key :: "string \<Rightarrow> string" where
  "header_key header = js_remove_first (CHR 0x20) (case header of [] \<Rightarrow> [] | c # cs \<Rightarrow> lower_char c # cs)"

text \<open>A cell: the field of the row, with the quotes escaped by a backslash.\<close>

definition csv_cell :: "string \<Rightarrow> string" where
  "csv_cell v = CHR 0x22 # concat (map (\<lambda>c. if c = CHR 0x22 then [CHR 0x5C, c] else [c]) v) @ [CHR 0x22]"

type_synonym csv_row = "(string \<times> string) list"

definition row_field :: "csv_row \<Rightarrow> string \<Rightarrow> string" where
  "row_field row key = (case map_of row key of None \<Rightarrow> ''undefined'' | Some v \<Rightarrow> v)"

definition csvString :: "string list \<Rightarrow> csv_row list \<Rightarrow> string" where
  "csvString names filteredData =
     (let headers = map camelCaseToTitle names
      in join_with [CHR 0x0A] (join_with '','' headers #
           map (\<lambda>row. join_with '','' (map (\<lambda>header. csv_cell (row_field row (header_key header))) headers)) filteredData))"

text \<open>The rows of the four files.\<close>

definition lotteryRows :: "nat \<Rightarrow> score_doc list \<Rightarrow> score_doc list" where
  "lotteryRows maxScore scoresData =
     sort_key (\<lambda>r. - int (sd_score r)) (filter (\<lambda>r. eligible_score maxScore (sd_score r)) scoresData)"

definition downloadUptimeLottery :: "nat \<Rightarrow> score_doc list \<Rightarrow> string" where
  "downloadUptimeLottery maxScore scoresData =
     csvString [''publicKey'', ''score'']
       (map (\<lambda>r. [(''publicKey'', sd_publicKey r), (''score'', dec (sd_score r))]) (lotteryRows maxScore scoresData))"

definition highestUptimeRows :: "nat \<Rightarrow> score_doc list \<Rightarrow> score_doc list" where
  "highestUptimeRows maxScore scoresData =
     (let filteredData = lotteryRows maxScore scoresData;
          fifthPlaceByUptime = fifth_place (\<lambda>r. of_nat (sd_score r)) filteredData
      in filter (\<lambda>r. of_nat (sd_score r) \<ge> fifthPlaceByUptime) filteredData)"

definition downloadHighestUptime :: "nat \<Rightarrow> score_doc list \<Rightarrow> string" where
  "downloadHighestUptime maxScore scoresData =
     csvString [''publicKey'', ''score'']
       (map (\<lambda>r. [(''publicKey'', sd_publicKey r), (''score'', dec (sd_score r))]) (highestUptimeRows maxScore scoresData))"

definition mostProducedRows :: "nat \<Rightarrow> score_doc list \<Rightarrow> score_doc list" where
  "mostProducedRows maxScore scoresData =
     (let filteredData = sort_key (\<lambda>r. - int (sd_blocksProduced r))
            (filter (\<lambda>r. eligible_score maxScore (sd_score r)) scoresData)
      in filter (\<lambda>r. Some (sd_blocksProduced r) = math_max (map sd_blocksProduced filteredData)) filteredData)"

definition downloadMostProducedBlocks :: "nat \<Rightarrow> score_doc list \<Rightarrow> string" where
  "downloadMostProducedBlocks maxScore scoresData =
     csvString [''publicKey'', ''blocksProduced'']
       (map (\<lambda>r. [(''publicKey'', sd_publicKey r), (''blocksProduced'', dec (sd_blocksProduced r))])
         (mostProducedRows maxScore scoresData))"

text \<open>The text of a number with two decimals.\<close>

definition show_hundredths :: "rat \<Rightarrow> string" where
  "show_hundredths q =
     (let n = nat \<lfloor>q * 100\<rfloor>
      in dec (n div 100) @ (if n mod 100 = 0 then []
           else if n mod 10 = 0 then ''.'' @ dec (n mod 100 div 10) else ''.'' @ padStart 2 (CHR 0x30) (dec (n mod 100))))"

text \<open>The rows of \<open>downloadAll\<close> also have the date of the last update, which is no column of the file.\<close>

definition downloadAll :: "nat \<Rightarrow> score_doc list \<Rightarrow> string" where
  "downloadAll maxScore scoresData =
     csvString [''publicKey'', ''score'', ''uptime'', ''producedBlocks'']
       (map (\<lambda>r. [(''publicKey'', sd_publicKey r), (''score'', dec (sd_score r) @ '' / '' @ dec maxScore),
           (''uptime'', show_hundredths (getUptimePercentage (sd_score r) maxScore) @ ''%''),
           (''uptimeTime'', dec (sd_score r)), (''producedBlocks'', dec (sd_blocksProduced r))])
         (sort_key (\<lambda>r. - int (sd_score r)) scoresData))"

section \<open>Reducer and effect\<close>

definition leaderboardInitialState :: LeaderboardState where
  "leaderboardInitialState =
     \<lparr>lb_filteredHeartbeatSummaries = [], lb_heartbeatSummaries = [], lb_search = Some [],
      lb_sortBy = \<lparr>sortBy = ''uptimePercentage'', sortDirection = DSC\<rparr>, lb_isLoading = True\<rparr>"

definition sortHeartbeats :: "HeartbeatSummary sorter \<Rightarrow> HeartbeatSummary list \<Rightarrow> tableSort \<Rightarrow> HeartbeatSummary list" where
  "sortHeartbeats srt node ts =
     (let data = srt node ts;
          whales = sort_key (\<lambda>d. - hs_uptimePercentage d) (filter hs_isWhale data);
          nonWhales = filter (\<lambda>d. \<not> hs_isWhale d) data
      in nonWhales @ whales)"

definition filterHeartbeats :: "HeartbeatSummary list \<Rightarrow> string option \<Rightarrow> HeartbeatSummary list" where
  "filterHeartbeats summaries search =
     filter (\<lambda>summary. case search of
         None \<Rightarrow> True
       | Some s \<Rightarrow> s = [] \<or> js_includes (js_toLowerCase (hs_publicKey summary)) (js_toLowerCase s)) summaries"

fun leaderboardReducer :: "HeartbeatSummary sorter \<Rightarrow> LeaderboardState \<Rightarrow> LeaderboardActions \<Rightarrow> LeaderboardState" where
  "leaderboardReducer srt state (GetHeartbeatsSuccess summaries) =
     state\<lparr>lb_isLoading := False, lb_heartbeatSummaries := summaries,
       lb_filteredHeartbeatSummaries := sortHeartbeats srt (filterHeartbeats summaries (lb_search state)) (lb_sortBy state)\<rparr>"
| "leaderboardReducer srt state (Leaderboard_changeFilters search) =
     state\<lparr>lb_search := search,
       lb_filteredHeartbeatSummaries := sortHeartbeats srt (filterHeartbeats (lb_heartbeatSummaries state) search) (lb_sortBy state)\<rparr>"
| "leaderboardReducer srt state (Leaderboard_sort ts) =
     state\<lparr>lb_sortBy := ts,
       lb_filteredHeartbeatSummaries := sortHeartbeats srt (lb_filteredHeartbeatSummaries state) ts\<rparr>"
| "leaderboardReducer srt state _ = state"

text \<open>\<open>getHeartbeats$\<close>: what one emission of the database, or its failure, dispatches. The collections are live, so
  there may be any number of emissions.\<close>

definition getHeartbeats_effect ::
  "string \<Rightarrow> http_error + score_doc list \<times> max_score_doc list \<Rightarrow> LeaderboardActions dispatched list" where
  "getHeartbeats_effect now emission =
     (case emission of
        Inl e \<Rightarrow> catchErrorAndRepeat now GENERIC (GetHeartbeatsSuccess []) e
      | Inr (scores, maxScore) \<Rightarrow> [Dispatch (GetHeartbeatsSuccess (getHeartbeatsSummaries scores maxScore))])"

text \<open>\<open>sortBy\<close> of the filters component: the same column again reverses the direction.\<close>

definition toggleSort :: "tableSort \<Rightarrow> string \<Rightarrow> tableSort" where
  "toggleSort currentSort column =
     \<lparr>sortBy = column,
      sortDirection = (if column \<noteq> sortBy currentSort then sortDirection currentSort
        else if sortDirection currentSort = ASC then DSC else ASC)\<rparr>"

section \<open>Prizes\<close>

lemma count_greater:
  fixes ys :: "rat list"
  assumes "sorted_wrt (\<ge>) ys" and "k < length ys"
  shows "x \<ge> ys ! k \<longleftrightarrow> length (filter (\<lambda>y. y > x) ys) \<le> k"
proof -
  let ?I = "{i. i < length ys \<and> ys ! i > x}"
  have desc: "i \<le> j \<Longrightarrow> j < length ys \<Longrightarrow> ys ! i \<ge> ys ! j" for i j
    using assms(1) by (cases "i = j") (auto simp: sorted_wrt_iff_nth_less)
  show ?thesis
  proof
    assume x: "x \<ge> ys ! k"
    have "?I \<subseteq> {..<k}" using desc x by (auto simp: not_less [symmetric]) (meson desc le_less_trans not_less x)
    then have "card ?I \<le> card {..<k}" by (intro card_mono) auto
    then show "length (filter (\<lambda>y. y > x) ys) \<le> k" by (simp add: length_filter_conv_card)
  next
    assume "length (filter (\<lambda>y. y > x) ys) \<le> k"
    then have small: "card ?I \<le> k" by (simp add: length_filter_conv_card)
    show "x \<ge> ys ! k"
    proof (rule ccontr)
      assume "\<not> x \<ge> ys ! k"
      then have "x < ys ! k" by simp
      then have "{..k} \<subseteq> ?I" using desc [OF _ assms(2)] assms(2) by (auto intro: less_le_trans)
      then have "card {..k} \<le> card ?I" by (intro card_mono) auto
      with small show False by simp
    qed
  qed
qed

lemma fifth_place_count:
  assumes "x \<ge> 0"
  shows "x \<ge> fifth_place f xs \<longleftrightarrow> length (filter (\<lambda>i. f i > x) xs) < 5"
proof -
  define ys where "ys = sort_key (\<lambda>i. - f i) xs"
  have "sorted (map (\<lambda>i. - f i) ys)" by (simp add: ys_def)
  then have desc: "sorted_wrt (\<ge>) (map f ys)" by (simp add: sorted_map sorted_wrt_map)
  have "mset (filter (\<lambda>y. y > x) (map f ys)) = mset (map f (filter (\<lambda>i. f i > x) xs))"
    by (simp add: ys_def filter_map o_def flip: image_mset_filter_mset_swap mset_filter) (simp add: mset_filter)
  then have count: "length (filter (\<lambda>y. y > x) (map f ys)) = length (filter (\<lambda>i. f i > x) xs)"
    by (metis length_map size_mset)
  have len: "length ys = length xs" by (simp add: ys_def)
  show ?thesis
  proof (cases "4 < length xs")
    case True
    with count_greater [OF desc, of 4 x] count len show ?thesis
      by (simp add: fifth_place_def Let_def flip: ys_def) linarith
  next
    case False
    moreover have "length (filter (\<lambda>i. f i > x) xs) < 5"
      using False length_filter_le [of "\<lambda>i. f i > x" xs] by linarith
    ultimately show ?thesis using assms len by (simp add: fifth_place_def Let_def flip: ys_def)
  qed
qed

lemma math_max_iff: "Some x = math_max xs \<longleftrightarrow> x \<in> set xs \<and> (\<forall>y \<in> set xs. y \<le> x)"
proof (cases xs)
  case (Cons a as)
  have "foldl max a as = fold max as a" unfolding foldl_conv_fold by (simp add: max.commute)
  also have "\<dots> = Max (set (a # as))" by (rule Max.set_eq_fold [symmetric])
  finally show ?thesis by (auto simp: Cons simp del: set_simps intro: Max_eqI [symmetric] Max_in Max_ge)
qed simp

lemma getUptimePercentage_nonneg: "getUptimePercentage score m \<ge> 0"
proof -
  have "0 \<le> \<lfloor>(of_nat score / of_nat m * 100 :: rat) * 100 + 1 / 2\<rfloor>" by simp
  then show ?thesis by (simp add: getUptimePercentage_def toFixed2_def)
qed

text \<open>C5. The prizes. A participant that is not a whale has the uptime prize exactly when fewer than five others that are no
  whales have a higher percentage, and the blocks prize exactly when it produced as many blocks as one of the
  eligible participants (no whale, with more than a third of the highest score) and no eligible one produced more. Whales
  have no prize.\<close>

theorem leaderboard_prizes:
  assumes "i < length scores"
  shows "let rows = getHeartbeatsSummaries scores maxScore; m = maxScoreRightNow maxScore;
             others = filter (\<lambda>r. \<not> hs_isWhale r) rows; eligible = filter (\<lambda>r. eligible_score m (hs_score r)) others;
             row = rows ! i
         in hs_publicKey row = sd_publicKey (scores ! i) \<and>
            (hs_uptimePrize row \<longleftrightarrow> \<not> hs_isWhale row \<and>
               length (filter (\<lambda>r. hs_uptimePercentage r > hs_uptimePercentage row) others) < 5) \<and>
            (hs_blocksPrize row \<longleftrightarrow> \<not> hs_isWhale row \<and>
               (\<exists>r \<in> set eligible. hs_blocksProduced r = hs_blocksProduced row) \<and>
               (\<forall>r \<in> set eligible. hs_blocksProduced r \<le> hs_blocksProduced row))"
proof -
  define m where "m = maxScoreRightNow maxScore"
  define items where "items = map (summaryItem m) scores"
  define plain where "plain = filter (\<lambda>i. \<not> hs_isWhale i) items"
  define fifth where "fifth = fifth_place hs_uptimePercentage plain"
  define high where "high = math_max (map hs_blocksProduced (filter (\<lambda>i. eligible_score m (hs_score i)) plain))"
  define prize where "prize = (\<lambda>item :: HeartbeatSummary. item
     \<lparr>hs_uptimePrize := (if hs_isWhale item then False else hs_uptimePercentage item \<ge> fifth),
      hs_blocksPrize := (if hs_isWhale item then False else Some (hs_blocksProduced item) = high)\<rparr>)"
  have rows: "getHeartbeatsSummaries scores maxScore = map prize items"
    by (simp add: getHeartbeatsSummaries_def Let_def prize_def fifth_def high_def plain_def items_def m_def)
  have keep [simp]: "hs_isWhale (prize x) = hs_isWhale x" "hs_uptimePercentage (prize x) = hs_uptimePercentage x"
    "hs_score (prize x) = hs_score x" "hs_blocksProduced (prize x) = hs_blocksProduced x" for x
    by (simp_all add: prize_def)
  have others: "filter (\<lambda>r. \<not> hs_isWhale r) (map prize items) = map prize plain"
    by (simp add: filter_map o_def plain_def)
  let ?x = "items ! i"
  have row: "map prize items ! i = prize ?x" using assms by (simp add: items_def)
  have "hs_uptimePercentage ?x \<ge> 0" using assms by (simp add: items_def summaryItem_def getUptimePercentage_nonneg)
  then have "hs_uptimePercentage ?x \<ge> fifth \<longleftrightarrow>
      length (filter (\<lambda>r. hs_uptimePercentage r > hs_uptimePercentage ?x) plain) < 5"
    unfolding fifth_def by (rule fifth_place_count)
  moreover have "Some (hs_blocksProduced ?x) = high \<longleftrightarrow>
      (\<exists>r \<in> set plain. eligible_score m (hs_score r) \<and> hs_blocksProduced r = hs_blocksProduced ?x) \<and>
      (\<forall>r \<in> set plain. eligible_score m (hs_score r) \<longrightarrow> hs_blocksProduced r \<le> hs_blocksProduced ?x)"
    unfolding high_def math_max_iff by (auto intro: image_eqI [OF sym])
  moreover have "hs_publicKey (prize ?x) = sd_publicKey (scores ! i)"
    using assms by (simp add: items_def summaryItem_def prize_def)
  moreover have "hs_uptimePrize (prize x) \<longleftrightarrow> \<not> hs_isWhale x \<and> hs_uptimePercentage x \<ge> fifth"
    "hs_blocksPrize (prize x) \<longleftrightarrow> \<not> hs_isWhale x \<and> Some (hs_blocksProduced x) = high" for x
    by (simp_all add: prize_def)
  ultimately show ?thesis
    unfolding rows Let_def m_def [symmetric] others row
    by (auto simp: filter_map o_def)
qed

theorem leaderboard_prizes_witness:
  "let rows = getHeartbeatsSummaries [\<lparr>sd_publicKey = ''a'', sd_score = 9, sd_blocksProduced = 2\<rparr>,
         \<lparr>sd_publicKey = ''b'', sd_score = 1, sd_blocksProduced = 2\<rparr>] [\<lparr>md_id = ''current'', md_value = 10\<rparr>]
   in hs_blocksPrize (rows ! 1)"
proof -
  have "\<not> list_ex (js_includes ''a'') whale_keys" "\<not> list_ex (js_includes ''b'') whale_keys" by code_simp+
  then show ?thesis
    using leaderboard_prizes [of 1 "[\<lparr>sd_publicKey = ''a'', sd_score = 9, sd_blocksProduced = 2\<rparr>,
        \<lparr>sd_publicKey = ''b'', sd_score = 1, sd_blocksProduced = 2\<rparr>]" "[\<lparr>md_id = ''current'', md_value = 10\<rparr>]"]
    by (simp add: getHeartbeatsSummaries_def summaryItem_def maxScoreRightNow_def eligible_score_def Let_def)
qed

section \<open>The table\<close>

definition leaderboard_ok :: "LeaderboardState \<Rightarrow> bool" where
  "leaderboard_ok s \<longleftrightarrow>
     mset (lb_filteredHeartbeatSummaries s) = mset (filterHeartbeats (lb_heartbeatSummaries s) (lb_search s)) \<and>
     (\<exists>xs ys. lb_filteredHeartbeatSummaries s = xs @ ys \<and> (\<forall>x \<in> set xs. \<not> hs_isWhale x) \<and> (\<forall>y \<in> set ys. hs_isWhale y) \<and>
        sorted_wrt (\<lambda>a b. hs_uptimePercentage a \<ge> hs_uptimePercentage b) ys)"

lemma sortHeartbeats_mset: "sorter_permutes srt \<Longrightarrow> mset (sortHeartbeats srt xs ts) = mset xs"
proof -
  assume "sorter_permutes srt"
  then have "mset (srt xs ts) = mset xs" by (rule sorter_mset)
  moreover have "filter_mset (\<lambda>d. \<not> hs_isWhale d) M + filter_mset hs_isWhale M = M" for M
    by (metis add.commute multiset_partition)
  ultimately show ?thesis by (simp add: sortHeartbeats_def Let_def)
qed

lemma sortHeartbeats_whales:
  "\<exists>as bs. sortHeartbeats srt xs ts = as @ bs \<and> (\<forall>x \<in> set as. \<not> hs_isWhale x) \<and> (\<forall>y \<in> set bs. hs_isWhale y) \<and>
     sorted_wrt (\<lambda>a b. hs_uptimePercentage a \<ge> hs_uptimePercentage b) bs"
proof -
  let ?bs = "sort_key (\<lambda>d. - hs_uptimePercentage d) (filter hs_isWhale (srt xs ts))"
  have "sorted (map (\<lambda>d. - hs_uptimePercentage d) ?bs)" by simp
  then have "sorted_wrt (\<lambda>a b. hs_uptimePercentage a \<ge> hs_uptimePercentage b) ?bs" by (simp add: sorted_map)
  then show ?thesis
    by (intro exI [of _ "filter (\<lambda>d. \<not> hs_isWhale d) (srt xs ts)"] exI [of _ ?bs]) (simp add: sortHeartbeats_def Let_def)
qed

lemma leaderboard_step: "sorter_permutes srt \<Longrightarrow> leaderboard_ok s \<Longrightarrow> leaderboard_ok (leaderboardReducer srt s a)"
  by (cases a) (simp_all add: leaderboard_ok_def sortHeartbeats_mset sortHeartbeats_whales)

text \<open>After any actions the table has exactly the participants whose key has the searched text, each once, with the
  whales after all others and in descending order of uptime.\<close>

lemma leaderboard_view:
  assumes "sorter_permutes srt" and "s = foldl (leaderboardReducer srt) leaderboardInitialState as"
  shows "mset (lb_filteredHeartbeatSummaries s) = mset (filterHeartbeats (lb_heartbeatSummaries s) (lb_search s)) \<and>
     (\<exists>xs ys. lb_filteredHeartbeatSummaries s = xs @ ys \<and> (\<forall>x \<in> set xs. \<not> hs_isWhale x) \<and> (\<forall>y \<in> set ys. hs_isWhale y) \<and>
        sorted_wrt (\<lambda>a b. hs_uptimePercentage a \<ge> hs_uptimePercentage b) ys)"
proof -
  have "leaderboard_ok t \<Longrightarrow> leaderboard_ok (foldl (leaderboardReducer srt) t as)" for t
    using leaderboard_step [OF assms(1)] by (induction as arbitrary: t) simp_all
  moreover have "leaderboard_ok leaderboardInitialState"
    by (simp add: leaderboard_ok_def leaderboardInitialState_def filterHeartbeats_def)
  ultimately show ?thesis unfolding assms(2) leaderboard_ok_def [symmetric] by blast
qed

lemma leaderboard_view_witness:
  "mset (lb_filteredHeartbeatSummaries (leaderboardReducer (\<lambda>xs ts. xs) leaderboardInitialState
     (GetHeartbeatsSuccess [summaryItem 1 \<lparr>sd_publicKey = ''a'', sd_score = 1, sd_blocksProduced = 0\<rparr>]))) =
   {#summaryItem 1 \<lparr>sd_publicKey = ''a'', sd_score = 1, sd_blocksProduced = 0\<rparr>#}"
  using leaderboard_view [OF _ refl, of "\<lambda>xs ts. xs"
      "[GetHeartbeatsSuccess [summaryItem 1 \<lparr>sd_publicKey = ''a'', sd_score = 1, sd_blocksProduced = 0\<rparr>]]"]
  by (simp add: sorter_permutes_def leaderboardInitialState_def filterHeartbeats_def)

section \<open>The files\<close>

text \<open>Names in camel case: a small letter first, no space, at most one capital.\<close>

definition simple_camel :: "string \<Rightarrow> bool" where
  "simple_camel h \<longleftrightarrow> h \<noteq> [] \<and> lower_char (upper_char (hd h)) = hd h \<and> \<not> is_capital (hd h) \<and> CHR 0x20 \<notin> set h \<and>
     length (filter is_capital h) \<le> 1"

lemma spaced_no_capital: "filter is_capital h = [] \<Longrightarrow> concat (map (\<lambda>c. if is_capital c then [CHR 0x20, c] else [c]) h) = h"
  by (induction h) (auto split: if_splits)

lemma remove_spaced:
  "CHR 0x20 \<notin> set h \<Longrightarrow> length (filter is_capital h) \<le> 1 \<Longrightarrow>
   js_remove_first (CHR 0x20) (concat (map (\<lambda>c. if is_capital c then [CHR 0x20, c] else [c]) h)) = h"
proof (induction h)
  case (Cons c h)
  show ?case
  proof (cases "is_capital c")
    case True
    with Cons.prems have "filter is_capital h = []" by simp
    with True show ?thesis by (simp add: js_remove_first_def spaced_no_capital)
  next
    case False
    moreover have "c \<noteq> CHR 0x20" using Cons.prems(1) by auto
    ultimately show ?thesis using Cons by (simp add: js_remove_first_def)
  qed
qed (simp add: js_remove_first_def)

lemma header_key_title:
  assumes "simple_camel h"
  shows "header_key (camelCaseToTitle h) = h"
proof -
  obtain c cs where h: "h = c # cs" using assms by (cases h) (auto simp: simple_camel_def)
  let ?sp = "\<lambda>h. concat (map (\<lambda>c. if is_capital c then [CHR 0x20, c] else [c]) h)"
  have c: "\<not> is_capital c" "lower_char (upper_char c) = c" using assms by (auto simp: simple_camel_def h)
  then have "?sp h = c # ?sp cs" by (simp add: h)
  then have "header_key (camelCaseToTitle h) = js_remove_first (CHR 0x20) (?sp h)"
    using c by (simp add: header_key_def camelCaseToTitle_def)
  then show ?thesis using remove_spaced [of h] assms by (simp add: simple_camel_def)
qed

lemma csvString_cells:
  assumes "list_all simple_camel names"
  shows "csvString names rows =
    join_with [CHR 0x0A] (join_with '','' (map camelCaseToTitle names) #
      map (\<lambda>row. join_with '','' (map (\<lambda>name. csv_cell (row_field row name)) names)) rows)"
  using assms by (simp add: csvString_def Let_def o_def list_all_iff header_key_title cong: map_cong)

text \<open>The four files: the first line has the titles of the columns, and each further line the quoted fields of one
  row, in the order of the titles: the key of every column is read back from its title.\<close>

lemma leaderboard_csv:
  "downloadUptimeLottery m scores = join_with [CHR 0x0A] (''Public Key,Score'' #
     map (\<lambda>r. csv_cell (sd_publicKey r) @ '','' @ csv_cell (dec (sd_score r))) (lotteryRows m scores)) \<and>
   downloadHighestUptime m scores = join_with [CHR 0x0A] (''Public Key,Score'' #
     map (\<lambda>r. csv_cell (sd_publicKey r) @ '','' @ csv_cell (dec (sd_score r))) (highestUptimeRows m scores)) \<and>
   downloadMostProducedBlocks m scores = join_with [CHR 0x0A] (''Public Key,Blocks Produced'' #
     map (\<lambda>r. csv_cell (sd_publicKey r) @ '','' @ csv_cell (dec (sd_blocksProduced r))) (mostProducedRows m scores)) \<and>
   downloadAll m scores = join_with [CHR 0x0A] (''Public Key,Score,Uptime,Produced Blocks'' #
     map (\<lambda>r. csv_cell (sd_publicKey r) @ '','' @ csv_cell (dec (sd_score r) @ '' / '' @ dec m) @ '','' @
       csv_cell (show_hundredths (getUptimePercentage (sd_score r) m) @ ''%'') @ '','' @ csv_cell (dec (sd_blocksProduced r)))
       (sort_key (\<lambda>r. - int (sd_score r)) scores))"
proof -
  have camel: "simple_camel ''publicKey''" "simple_camel ''score''" "simple_camel ''blocksProduced''" "simple_camel ''uptime''"
    "simple_camel ''producedBlocks''" by code_simp+
  have title: "camelCaseToTitle ''publicKey'' = ''Public Key''" "camelCaseToTitle ''score'' = ''Score''"
    "camelCaseToTitle ''blocksProduced'' = ''Blocks Produced''" "camelCaseToTitle ''uptime'' = ''Uptime''"
    "camelCaseToTitle ''producedBlocks'' = ''Produced Blocks''" by code_simp+
  show ?thesis
    unfolding downloadUptimeLottery_def downloadHighestUptime_def downloadMostProducedBlocks_def downloadAll_def
    by (simp add: csvString_cells camel title row_field_def o_def)
qed

lemma lotteryRows_set [simp]: "set (lotteryRows m scores) = {r \<in> set scores. eligible_score m (sd_score r)}"
  by (auto simp: lotteryRows_def)

text \<open>Who is in the files. Eligible are all participants with more than a third of the highest score, whales included. The
  lottery has the eligible ones, the uptime file those with fewer than five eligible ones of a higher score, and the
  blocks file those that no eligible one exceeds.\<close>

lemma leaderboard_exports:
  "set (lotteryRows m scores) = {r \<in> set scores. eligible_score m (sd_score r)} \<and>
   set (highestUptimeRows m scores) = {r \<in> set scores. eligible_score m (sd_score r) \<and>
     length (filter (\<lambda>q. eligible_score m (sd_score q) \<and> sd_score q > sd_score r) scores) < 5} \<and>
   set (mostProducedRows m scores) = {r \<in> set scores. eligible_score m (sd_score r) \<and>
     (\<nexists>q. q \<in> set scores \<and> eligible_score m (sd_score q) \<and> sd_blocksProduced q > sd_blocksProduced r)}"
proof -
  have "(of_nat (sd_score r) :: rat) \<ge> fifth_place (\<lambda>r. of_nat (sd_score r)) (lotteryRows m scores) \<longleftrightarrow>
      length (filter (\<lambda>q. eligible_score m (sd_score q) \<and> sd_score q > sd_score r) scores) < 5" for r :: score_doc
  proof -
    have "mset (filter (\<lambda>q. sd_score q > sd_score r) (lotteryRows m scores)) =
        mset (filter (\<lambda>q. eligible_score m (sd_score q) \<and> sd_score q > sd_score r) scores)"
      by (simp add: lotteryRows_def filter_filter_mset conj_commute)
    from arg_cong [OF this, of size]
    have "length (filter (\<lambda>q. sd_score q > sd_score r) (lotteryRows m scores)) =
        length (filter (\<lambda>q. eligible_score m (sd_score q) \<and> sd_score q > sd_score r) scores)" by (simp only: size_mset)
    then show ?thesis using fifth_place_count [of "of_nat (sd_score r)" "\<lambda>r. of_nat (sd_score r)" "lotteryRows m scores"] by simp
  qed
  then have "set (highestUptimeRows m scores) = {r \<in> set scores. eligible_score m (sd_score r) \<and>
     length (filter (\<lambda>q. eligible_score m (sd_score q) \<and> sd_score q > sd_score r) scores) < 5}"
    by (simp only: highestUptimeRows_def Let_def set_filter lotteryRows_set mem_Collect_eq conj_assoc)
  moreover have "set (mostProducedRows m scores) = {r \<in> set scores. eligible_score m (sd_score r) \<and>
     (\<nexists>q. q \<in> set scores \<and> eligible_score m (sd_score q) \<and> sd_blocksProduced q > sd_blocksProduced r)}"
    by (auto simp: mostProducedRows_def math_max_iff not_less)
  ultimately show ?thesis by simp
qed

end
