(* ===== verification/Dht_Graph.thy ===== *)
theory Dht_Graph
  imports Node_Dht
begin

text \<open>
  The binary tree of the DHT graph (\<open>features/network/dht-graph/network-dht-graph-binary-tree\<close>): the
  comparison the peers are sorted with, \<open>EqualDistanceAlgorithm\<close>, which inserts the peers into a tree by the digits
  of their binary distance, cleans it up, stretches every branch to one length and removes the empty
  nodes, and the colours of the nodes.

  A peer is its index in the list of peers (the code passes references to the elements of that list), and
  \<open>None\<close> is the placeholder whose binary distance is \<open>'-'\<close>. The static counters of the class are
  arguments and results. A node made by the insertion has no children or two.
\<close>

section \<open>Sorting\<close>

text \<open>The loop of the comparison; beyond the end of the second distance the digits differ.\<close>

fun sortPeers_loop :: "string \<Rightarrow> string \<Rightarrow> int" where
  "sortPeers_loop [] b = 0"
| "sortPeers_loop (x # xs) [] = (if x = CHR ''1'' then 1 else - 1)"
| "sortPeers_loop (x # xs) (y # ys) =
     (if x = y then sortPeers_loop xs ys else if x = CHR ''1'' then 1 else - 1)"

definition sortPeers :: "NetworkNodeDhtPeer \<Rightarrow> NetworkNodeDhtPeer \<Rightarrow> int" where
  "sortPeers a b = sortPeers_loop (dht_binaryDistance a) (dht_binaryDistance b)"

text \<open>\<open>Array.prototype.sort\<close> with a consistent comparison is stable; this is insertion sort.\<close>

fun insert_cmp :: "('a \<Rightarrow> 'a \<Rightarrow> int) \<Rightarrow> 'a \<Rightarrow> 'a list \<Rightarrow> 'a list" where
  "insert_cmp c x [] = [x]"
| "insert_cmp c x (y # ys) = (if c x y \<le> 0 then x # y # ys else y # insert_cmp c x ys)"

definition js_sort :: "('a \<Rightarrow> 'a \<Rightarrow> int) \<Rightarrow> 'a list \<Rightarrow> 'a list" where
  "js_sort c xs = foldr (insert_cmp c) xs []"

definition graph_peers :: "NetworkNodeDhtPeer list \<Rightarrow> NetworkNodeDhtPeer list" where
  "graph_peers peers = js_sort sortPeers peers"

section \<open>The tree\<close>

datatype DhtGraphNode =
  DhtNode (node_peer: "nat option") (node_children: "DhtGraphNode list")
    (prevBranch: "int option") (node_id: "nat option")

definition bd :: "NetworkNodeDhtPeer list \<Rightarrow> nat \<Rightarrow> string" where
  "bd peers i = (if i < length peers then dht_binaryDistance (peers ! i) else [])"

definition digit_is :: "char \<Rightarrow> string \<Rightarrow> nat \<Rightarrow> bool" where
  "digit_is c s k \<longleftrightarrow> k < length s \<and> s ! k = c"

definition direction :: "string \<Rightarrow> nat \<Rightarrow> nat" where
  "direction distance level = (if digit_is (CHR ''0'') distance level then 0 else 1)"

text \<open>The condition under which an empty node takes the peer itself instead of getting children: the node is the
  second child of a parent whose first child is a peer without children, and no later peer shares the
  digits above.\<close>

definition takes_place :: "NetworkNodeDhtPeer list \<Rightarrow> DhtGraphNode option \<Rightarrow> nat \<Rightarrow> nat \<Rightarrow> bool" where
  "takes_place peers sibling i level \<longleftrightarrow>
     0 < level \<and> digit_is (CHR ''1'') (bd peers i) (level - 1) \<and>
     (case sibling of
        None \<Rightarrow> False
      | Some s \<Rightarrow> node_children s = [] \<and>
          (case node_peer s of
             None \<Rightarrow> False
           | Some j \<Rightarrow> take (level - 1) (bd peers j) = take (level - 1) (bd peers i))) \<and>
     list_all (\<lambda>p. take (level - 1) (dht_binaryDistance p) \<noteq> take (level - 1) (bd peers i)) (drop (Suc i) peers)"

text \<open>\<open>existingNodePeer\<close>: the search always finds the peer of a node.\<close>

definition existing_peer :: "NetworkNodeDhtPeer list \<Rightarrow> nat \<Rightarrow> nat" where
  "existing_peer peers j =
     (case find_index (\<lambda>p. dht_binaryDistance p = bd peers j) peers of Some e \<Rightarrow> e | None \<Rightarrow> j)"

definition new_children :: "nat \<Rightarrow> nat \<Rightarrow> nat \<Rightarrow> DhtGraphNode list" where
  "new_children i d n =
     (if d = 0 then [DhtNode (Some i) [] (Some 0) (Some n), DhtNode None [] (Some 1) (Some (n + 1))]
      else [DhtNode None [] (Some 0) (Some (n + 1)), DhtNode (Some i) [] (Some 1) (Some n)])"

lemma bd_length_le: "length (bd peers i) \<le> sum_list (map (length \<circ> dht_binaryDistance) peers)"
  by (auto simp: bd_def intro!: member_le_sum_list)

lemma level_measure:
  "\<not> length (bd peers i) < level \<Longrightarrow>
     sum_list (map (length \<circ> dht_binaryDistance) peers) - level
     < Suc (sum_list (map (length \<circ> dht_binaryDistance) peers)) - level"
  using bd_length_le [of peers i] by linarith

text \<open>\<open>sibling\<close> is the first child of the parent, \<open>n\<close> the counter \<open>id\<close>.\<close>

function insertPeer ::
  "NetworkNodeDhtPeer list \<Rightarrow> DhtGraphNode option \<Rightarrow> nat \<Rightarrow> nat \<Rightarrow> DhtGraphNode \<Rightarrow> nat \<Rightarrow> DhtGraphNode \<times> nat" where
  "insertPeer peers sibling i level node n =
     (if level > length (bd peers i) then (node, n)
      else let d = direction (bd peers i) level
      in case node_children node of
           [c0, c1] \<Rightarrow>
             (let c = (if d = 0 then c0 else c1);
                  put = (\<lambda>x. DhtNode (node_peer node) (if d = 0 then [x, c1] else [c0, x])
                               (prevBranch node) (node_id node))
              in case node_peer c of
                   Some j \<Rightarrow>
                     (let e = DhtNode None [] (Some (int d)) (Some n);
                          (a, n1) = insertPeer peers (Some (if d = 0 then e else c0)) (existing_peer peers j)
                                      (level + 1) e (n + 1);
                          (b, n2) = insertPeer peers (Some (if d = 0 then a else c0)) i (level + 1) a n1
                      in (put b, n2))
                 | None \<Rightarrow>
                     (let (b, n1) = insertPeer peers (Some c0) i (level + 1) c n in (put b, n1)))
         | _ \<Rightarrow>
             if takes_place peers sibling i level then (DhtNode (Some i) [] (Some 1) (Some n), n + 1)
             else (DhtNode (node_peer node) (new_children i d n) (prevBranch node) (node_id node), n + 2))"
  by pat_completeness auto
termination
  by (relation "measure (\<lambda>(peers, sibling, i, level, node, n).
        Suc (sum_list (map (length \<circ> dht_binaryDistance) peers)) - level)")
    (auto simp: level_measure)

declare insertPeer.simps [simp del]

fun insert_all :: "NetworkNodeDhtPeer list \<Rightarrow> nat list \<Rightarrow> DhtGraphNode \<Rightarrow> nat \<Rightarrow> DhtGraphNode \<times> nat" where
  "insert_all peers [] rt n = (rt, n)"
| "insert_all peers (i # is) rt n =
     (let (rt', n') = insertPeer peers None i 0 rt n in insert_all peers is rt' n')"

fun cleanUpTree :: "DhtGraphNode \<Rightarrow> DhtGraphNode" where
  "cleanUpTree (DhtNode p [c0, c1] b k) =
     (if node_peer c0 = None \<and> node_peer c1 \<noteq> None then DhtNode (node_peer c1) [] b k
      else DhtNode p [cleanUpTree c0, cleanUpTree c1] b k)"
| "cleanUpTree node = node"

fun findMaxDistance :: "DhtGraphNode \<Rightarrow> nat \<Rightarrow> nat \<Rightarrow> nat" where
  "findMaxDistance (DhtNode p [c0, c1] b k) distance m =
     findMaxDistance c1 (distance + 1) (findMaxDistance c0 (distance + 1) m)"
| "findMaxDistance node distance m = max m distance"

text \<open>\<open>pos\<close> is the index of the node among the children of its parent; the root has none.\<close>

function makeEqualDistancesForAllNodes ::
  "NetworkNodeDhtPeer list \<Rightarrow> nat \<Rightarrow> int option \<Rightarrow> DhtGraphNode \<Rightarrow> nat \<Rightarrow> DhtGraphNode" where
  "makeEqualDistancesForAllNodes peers m pos (DhtNode p [] b k) distance =
     (if distance < m
      then case p of
          None \<Rightarrow> DhtNode p [] b k
        | Some i \<Rightarrow>
            if digit_is (CHR ''0'') (bd peers i) distance
            then DhtNode None [makeEqualDistancesForAllNodes peers m (Some 0) (DhtNode (Some i) [] (Some 0) None) (distance + 1)] b k
            else if digit_is (CHR ''1'') (bd peers i) distance
            then DhtNode None [makeEqualDistancesForAllNodes peers m (Some 0) (DhtNode (Some i) [] (Some 1) None) (distance + 1)] b k
            else DhtNode p [] b k
      else DhtNode p [] b k)"
| "makeEqualDistancesForAllNodes peers m pos (DhtNode p [c0] b k) distance =
     (if distance = m then DhtNode p [c0] b k
      else DhtNode p [makeEqualDistancesForAllNodes peers m (Some 0) c0 (distance + 1)]
             (if distance < m then pos else b) k)"
| "makeEqualDistancesForAllNodes peers m pos (DhtNode p (c0 # c1 # cs) b k) distance =
     (if distance = m then DhtNode p (c0 # c1 # cs) b k
      else DhtNode p (makeEqualDistancesForAllNodes peers m (Some 0) c0 (distance + 1)
             # makeEqualDistancesForAllNodes peers m (Some 1) c1 (distance + 1) # cs)
             (if distance < m then pos else b) k)"
  by pat_completeness auto
termination
  by (relation "measure (\<lambda>(peers, m, pos, node, distance). m - distance + size node)") auto

text \<open>An empty node is taken out of the children of its parent, and the walk goes on with the child that
  moved to its place.\<close>

definition empty_node :: "DhtGraphNode \<Rightarrow> bool" where
  "empty_node node \<longleftrightarrow> node_children node = [] \<and> node_peer node = None"

fun removeEmptyNodes :: "DhtGraphNode \<Rightarrow> DhtGraphNode" where
  "removeEmptyNodes (DhtNode p [c0, c1] b k) =
     DhtNode p ((if empty_node c0 then [] else [removeEmptyNodes c0])
                @ (if empty_node c1 then [] else [removeEmptyNodes c1])) b k"
| "removeEmptyNodes (DhtNode p [c0] b k) =
     DhtNode p (if empty_node c0 then [] else [removeEmptyNodes c0]) b k"
| "removeEmptyNodes node = node"

text \<open>The tree, and the static counters \<open>maxDistance\<close> and \<open>id\<close> afterwards.\<close>

definition createBinaryTree ::
  "NetworkNodeDhtPeer list \<Rightarrow> nat \<times> nat \<Rightarrow> DhtGraphNode option \<times> nat \<times> nat" where
  "createBinaryTree peers = (\<lambda>(maxDistance, n).
     (if peers = [] then (None, maxDistance, n)
      else let (t1, n') = insert_all peers [1..<length peers] (DhtNode (Some 0) [] None None) n;
               t2 = cleanUpTree t1;
               m = findMaxDistance t2 0 maxDistance;
               t3 = makeEqualDistancesForAllNodes peers m None t2 0
           in (Some (removeEmptyNodes t3), m, n')))"

section \<open>Colours\<close>

definition isOrigin :: "NetworkNodeDhtPeer list \<Rightarrow> NetworkNodeDhtPeer \<Rightarrow> bool" where
  "isOrigin peers peer \<longleftrightarrow> dht_key peer = dht_key (hd peers)"

definition circle_fill :: "NetworkNodeDhtPeer list \<Rightarrow> NetworkNodeDhtPeer \<Rightarrow> string" where
  "circle_fill peers peer =
     (if isOrigin peers peer then ''var(--base-surface)''
      else if dht_connection peer = ''Connected'' then ''var(--success-primary)''
      else if dht_connection peer = ''Can Connect'' \<or> dht_connection peer = ''Not Connected''
        then ''var(--base-tertiary)''
      else if dht_connection peer = ''Cannot Connect'' then ''var(--warn-primary)''
      else ''var(--base-secondary)'')"

section \<open>Ordered peers\<close>

text \<open>Binary distances of one length, in strictly increasing order.\<close>

definition binary_string :: "nat \<Rightarrow> string \<Rightarrow> bool" where
  "binary_string L s \<longleftrightarrow> length s = L \<and> list_all (\<lambda>c. c = CHR ''0'' \<or> c = CHR ''1'') s"

definition peers_ordered :: "nat \<Rightarrow> NetworkNodeDhtPeer list \<Rightarrow> bool" where
  "peers_ordered L peers \<longleftrightarrow>
     list_all (\<lambda>p. binary_string L (dht_binaryDistance p)) peers \<and> sorted_wrt (\<lambda>a b. sortPeers a b < 0) peers"

lemma bd_binary: "peers_ordered L ps \<Longrightarrow> i < length ps \<Longrightarrow> binary_string L (bd ps i)"
  by (simp add: peers_ordered_def bd_def list_all_length)

lemma bd_length: "peers_ordered L ps \<Longrightarrow> i < length ps \<Longrightarrow> length (bd ps i) = L"
  using bd_binary by (auto simp: binary_string_def)

lemma bd_digit:
  "peers_ordered L ps \<Longrightarrow> i < length ps \<Longrightarrow> k < L \<Longrightarrow> bd ps i ! k = CHR ''0'' \<or> bd ps i ! k = CHR ''1''"
  using bd_binary [of L ps i] by (auto simp: binary_string_def list_all_length)

text \<open>The first digit in which two distances differ.\<close>

lemma sortPeers_loop_neg:
  "sortPeers_loop a b < 0 \<Longrightarrow> binary_string L a \<Longrightarrow> binary_string L b \<Longrightarrow>
   \<exists>k < L. take k a = take k b \<and> a ! k = CHR ''0'' \<and> b ! k = CHR ''1''"
proof (induction a b arbitrary: L rule: sortPeers_loop.induct)
  case (3 x xs y ys)
  obtain M where L: "L = Suc M" and bin: "binary_string M xs" "binary_string M ys"
    using "3.prems"(2,3) by (cases L) (auto simp: binary_string_def)
  show ?case
  proof (cases "x = y")
    case True
    with "3.prems"(1) "3.IH" [OF _ _ bin] obtain k where "k < M" "take k xs = take k ys"
      "xs ! k = CHR ''0''" "ys ! k = CHR ''1''" by auto
    with True L show ?thesis by (intro exI [of _ "Suc k"]) auto
  next
    case False
    with "3.prems" L show ?thesis by (intro exI [of _ 0]) (auto simp: binary_string_def split: if_splits)
  qed
qed (auto simp: binary_string_def)

lemma ordered_differ:
  assumes "peers_ordered L ps" and "j < i" and "i < length ps"
  obtains k where "k < L" "take k (bd ps j) = take k (bd ps i)" "bd ps j ! k = CHR ''0''" "bd ps i ! k = CHR ''1''"
proof -
  have "sortPeers (ps ! j) (ps ! i) < 0"
    using assms by (auto simp: peers_ordered_def sorted_wrt_iff_nth_less)
  then have "sortPeers_loop (bd ps j) (bd ps i) < 0" using assms by (simp add: sortPeers_def bd_def)
  from sortPeers_loop_neg [OF this bd_binary bd_binary] assms that show ?thesis by auto
qed

text \<open>After a common prefix, a later peer has no smaller digit, and two peers never have the same distance.\<close>

lemma ordered_digit:
  assumes "peers_ordered L ps" and "j < i" and "i < length ps" and "l < L"
    and "take l (bd ps j) = take l (bd ps i)" and "bd ps j ! l = CHR ''1''"
  shows "bd ps i ! l = CHR ''1''"
proof -
  obtain k where k: "k < L" "take k (bd ps j) = take k (bd ps i)" "bd ps j ! k = CHR ''0''" "bd ps i ! k = CHR ''1''"
    using ordered_differ [OF assms(1-3)] .
  have eq: "bd ps j ! m = bd ps i ! m" if "take n (bd ps j) = take n (bd ps i)" "m < n" for m n
    using arg_cong [OF that(1), of "\<lambda>s. s ! m"] that(2) by simp
  consider "k < l" | "k = l" | "l < k" by linarith
  then show ?thesis
  proof cases
    case 1
    with eq [OF assms(5)] k show ?thesis by simp
  next
    case 2
    with k assms(6) show ?thesis by simp
  next
    case 3
    with eq [OF k(2)] assms(6) show ?thesis by simp
  qed
qed

lemma ordered_prefix_less:
  assumes "peers_ordered L ps" and "j < i" and "i < length ps" and "take l (bd ps j) = take l (bd ps i)"
  shows "l < L"
proof (rule ccontr)
  assume "\<not> l < L"
  with assms have "bd ps j = bd ps i" using bd_length [OF assms(1)] by auto
  moreover obtain k where "bd ps j ! k = CHR ''0''" "bd ps i ! k = CHR ''1''"
    using ordered_differ [OF assms(1-3)] .
  ultimately show False by simp
qed

lemma existing_peer_ordered:
  assumes "peers_ordered L ps" and "j < length ps"
  shows "existing_peer ps j = j"
proof -
  have "find_index (\<lambda>p. dht_binaryDistance p = bd ps j) ps = Some j"
  proof (rule find_index_SomeI)
    show "dht_binaryDistance (ps ! j) = bd ps j" using assms(2) by (simp add: bd_def)
    fix k assume k: "k < j"
    then have "bd ps k \<noteq> bd ps j" using ordered_prefix_less [OF assms(1) k assms(2), of L] by auto
    with k assms(2) show "dht_binaryDistance (ps ! k) \<noteq> bd ps j" by (simp add: bd_def)
  qed (rule assms(2))
  then show ?thesis by (simp add: existing_peer_def)
qed

lemma bd_take_Suc:
  assumes "peers_ordered L ps" and "i < length ps" and "l < L"
  shows "take (Suc l) (bd ps i) = take l (bd ps i) @ [bd ps i ! l]"
  using assms bd_length [OF assms(1,2)] by (simp add: take_Suc_conv_app_nth)

section \<open>Insertion\<close>

text \<open>The peers of a tree from left to right, and those below a node.\<close>

fun leaves :: "DhtGraphNode \<Rightarrow> nat list" where
  "leaves (DhtNode p [] b k) = (case p of None \<Rightarrow> [] | Some i \<Rightarrow> [i])"
| "leaves (DhtNode p (c # cs) b k) = concat (map leaves (c # cs))"

definition kid_leaves :: "DhtGraphNode \<Rightarrow> nat list" where
  "kid_leaves t = concat (map leaves (node_children t))"

lemma leaves_kids: "node_children t \<noteq> [] \<Longrightarrow> leaves t = kid_leaves t"
  by (cases t rule: leaves.cases) (auto simp: kid_leaves_def)

lemma leaves_leaf: "node_children t = [] \<Longrightarrow> leaves t = (case node_peer t of None \<Rightarrow> [] | Some i \<Rightarrow> [i])"
  by (cases t rule: leaves.cases) auto

text \<open>A peer sits only on a node without children, whose path is a prefix of its distance; below a node on the path
  \<open>\<pi>\<close> there are two children, not both empty.\<close>

definition label_ok :: "NetworkNodeDhtPeer list \<Rightarrow> string \<Rightarrow> DhtGraphNode \<Rightarrow> bool" where
  "label_ok ps \<pi> c \<longleftrightarrow> (case node_peer c of
      None \<Rightarrow> True
    | Some j \<Rightarrow> node_children c = [] \<and> j < length ps \<and> take (length \<pi>) (bd ps j) = \<pi>)"

fun kids_ok :: "NetworkNodeDhtPeer list \<Rightarrow> nat \<Rightarrow> string \<Rightarrow> DhtGraphNode \<Rightarrow> bool" where
  "kids_ok ps L \<pi> (DhtNode p [] b k) = True"
| "kids_ok ps L \<pi> (DhtNode p [c0, c1] b k) =
     (length \<pi> < L \<and> leaves c0 @ leaves c1 \<noteq> [] \<and>
      prevBranch c0 = Some 0 \<and> prevBranch c1 = Some 1 \<and>
      label_ok ps (\<pi> @ ''0'') c0 \<and> kids_ok ps L (\<pi> @ ''0'') c0 \<and>
      label_ok ps (\<pi> @ ''1'') c1 \<and> kids_ok ps L (\<pi> @ ''1'') c1)"
| "kids_ok ps L \<pi> _ = False"

text \<open>A second child that is a peer has a sibling without children.\<close>

fun sibling_ok :: "DhtGraphNode \<Rightarrow> bool" where
  "sibling_ok (DhtNode p [c0, c1] b k) =
     ((node_peer c1 \<noteq> None \<longrightarrow> node_children c0 = []) \<and> sibling_ok c0 \<and> sibling_ok c1)"
| "sibling_ok _ = True"

lemma take_prefix: "take (length (\<pi> @ [x])) s = \<pi> @ [x] \<Longrightarrow> take (length \<pi>) s = \<pi>"
  by (metis append_eq_conv_conj append_take_drop_id append_assoc)

lemma leaves_prefix:
  "kids_ok ps L \<pi> t \<Longrightarrow> label_ok ps \<pi> t \<Longrightarrow> j \<in> set (leaves t) \<Longrightarrow> j < length ps \<and> take (length \<pi>) (bd ps j) = \<pi>"
proof (induction ps L \<pi> t rule: kids_ok.induct)
  case (1 ps L \<pi> p b k)
  then show ?case by (auto simp: label_ok_def split: option.splits)
next
  case (2 ps L \<pi> p c0 c1 b k)
  then consider "j \<in> set (leaves c0)" | "j \<in> set (leaves c1)" by auto
  then show ?case
    using 2 take_prefix [of \<pi> "CHR ''0''"] take_prefix [of \<pi> "CHR ''1''"] by cases auto
qed auto

lemma digit_take: "take (Suc l) s = \<pi> @ [x] \<Longrightarrow> length \<pi> = l \<Longrightarrow> l < length s \<and> s ! l = x"
  by (metis append_eq_conv_conj length_append_singleton length_take lessI min_less_iff_conj nth_append_length nth_take)

definition inserted :: "NetworkNodeDhtPeer list \<Rightarrow> nat \<Rightarrow> string \<Rightarrow> DhtGraphNode \<Rightarrow> nat \<Rightarrow> DhtGraphNode \<Rightarrow> bool" where
  "inserted ps L \<pi> node i node' \<longleftrightarrow>
     node_children node' \<noteq> [] \<and> node_peer node' = node_peer node \<and> prevBranch node' = prevBranch node \<and>
     kids_ok ps L \<pi> node' \<and> sibling_ok node' \<and> kid_leaves node' = kid_leaves node @ [i]"

definition insert_pre ::
  "NetworkNodeDhtPeer list \<Rightarrow> nat \<Rightarrow> DhtGraphNode option \<Rightarrow> nat \<Rightarrow> string \<Rightarrow> DhtGraphNode \<Rightarrow> bool" where
  "insert_pre ps L sib i \<pi> node \<longleftrightarrow>
     kids_ok ps L \<pi> node \<and> sibling_ok node \<and> i < length ps \<and> take (length \<pi>) (bd ps i) = \<pi> \<and>
     (\<forall>j \<in> set (kid_leaves node). j < i) \<and>
     (node_children node = [] \<longrightarrow> length \<pi> < L \<or> takes_place ps sib i (length \<pi>))"

definition insert_correct :: "NetworkNodeDhtPeer list \<Rightarrow> nat \<Rightarrow> nat \<Rightarrow> bool" where
  "insert_correct ps L l \<longleftrightarrow>
     (\<forall>\<pi> node i sib n. length \<pi> = l \<longrightarrow> insert_pre ps L sib i \<pi> node \<longrightarrow>
        (let node' = fst (insertPeer ps sib i l node n)
         in if node_children node = [] \<and> takes_place ps sib i l
            then node' = DhtNode (Some i) [] (Some 1) (Some n)
            else inserted ps L \<pi> node i node'))"

lemma insert_correctD:
  assumes "insert_correct ps L (Suc (length \<pi>))" and "insert_pre ps L sib i (\<pi> @ [x]) node"
  shows "if node_children node = [] \<and> takes_place ps sib i (Suc (length \<pi>))
    then fst (insertPeer ps sib i (Suc (length \<pi>)) node n) = DhtNode (Some i) [] (Some 1) (Some n)
    else inserted ps L (\<pi> @ [x]) node i (fst (insertPeer ps sib i (Suc (length \<pi>)) node n))"
  using assms unfolding insert_correct_def Let_def by (metis length_append_singleton)

lemma insert_correct_leaf:
  assumes "peers_ordered L ps" and "insert_pre ps L sib i \<pi> node" and "node_children node = []"
  shows "let node' = fst (insertPeer ps sib i (length \<pi>) node n)
    in if takes_place ps sib i (length \<pi>) then node' = DhtNode (Some i) [] (Some 1) (Some n)
       else inserted ps L \<pi> node i node'"
proof (cases "takes_place ps sib i (length \<pi>)")
  case True
  have "length \<pi> \<le> length (bd ps i)"
    using assms(2) by (metis insert_pre_def length_take min.cobounded1)
  with True assms(3) show ?thesis by (subst insertPeer.simps) (simp add: Let_def)
next
  case False
  with assms have l: "length \<pi> < L" and i: "i < length ps" and pre: "take (length \<pi>) (bd ps i) = \<pi>"
    by (auto simp: insert_pre_def)
  note len = bd_length [OF assms(1) i]
  have Suc: "take (Suc (length \<pi>)) (bd ps i) = \<pi> @ [bd ps i ! length \<pi>]"
    using bd_take_Suc [OF assms(1) i l] pre by simp
  have "fst (insertPeer ps sib i (length \<pi>) node n) =
      DhtNode (node_peer node) (new_children i (direction (bd ps i) (length \<pi>)) n) (prevBranch node) (node_id node)"
    using False assms(3) l len by (subst insertPeer.simps) (simp add: Let_def)
  then show ?thesis
    using False l len i Suc bd_digit [OF assms(1) i l] assms(3)
    by (auto simp: Let_def inserted_def new_children_def direction_def digit_is_def label_ok_def kid_leaves_def)
qed

lemma takes_place_not_later:
  assumes "j < i" and "i < length ps" and "take l (bd ps j) = take l (bd ps i)"
  shows "\<not> takes_place ps sib j (Suc l)"
proof
  assume "takes_place ps sib j (Suc l)"
  then have "\<forall>p \<in> set (drop (Suc j) ps). take l (dht_binaryDistance p) \<noteq> take l (bd ps j)"
    by (simp add: takes_place_def list_all_iff)
  moreover have "ps ! i \<in> set (drop (Suc j) ps)"
    using assms(1,2) by (auto simp: in_set_conv_nth intro!: exI [of _ "i - Suc j"])
  ultimately show False using assms by (auto simp: bd_def)
qed

text \<open>On the last level the second child takes the peer itself.\<close>

lemma takes_place_last:
  assumes "peers_ordered L ps" and "i < length ps" and "L = Suc (length \<pi>)"
    and "take L (bd ps i) = \<pi> @ ''1''"
    and "label_ok ps (\<pi> @ ''0'') c0" and "kids_ok ps L (\<pi> @ ''0'') c0" and "leaves c0 \<noteq> []"
  shows "takes_place ps (Some c0) i L"
proof -
  have i: "take (length \<pi>) (bd ps i) = \<pi>" "bd ps i ! length \<pi> = CHR ''1''" "length \<pi> < length (bd ps i)"
    using assms(4) take_prefix [of \<pi> "CHR ''1''" "bd ps i"] digit_take [of "length \<pi>" "bd ps i" \<pi> "CHR ''1''"]
    by (auto simp: assms(3))
  have c0: "node_children c0 = []"
    using assms(3,6) by (cases "(ps, L, \<pi> @ ''0'', c0)" rule: kids_ok.cases) auto
  with assms(7) obtain k where k: "node_peer c0 = Some k"
    by (auto simp: leaves_leaf split: option.splits)
  with assms(5) have pre: "take (length \<pi>) (bd ps k) = \<pi>"
    by (auto simp: label_ok_def intro: take_prefix)
  have later: "take (length \<pi>) (bd ps m) \<noteq> take (length \<pi>) (bd ps i)" if "i < m" "m < length ps" for m
  proof
    assume eq: "take (length \<pi>) (bd ps m) = take (length \<pi>) (bd ps i)"
    have l: "length \<pi> < L" using assms(3) by simp
    have "bd ps m ! length \<pi> = CHR ''1''"
      by (rule ordered_digit [OF assms(1) that l eq [symmetric] i(2)])
    with eq i(2) have "take L (bd ps i) = take L (bd ps m)"
      using bd_take_Suc [OF assms(1) that(2) l] bd_take_Suc [OF assms(1,2) l] assms(3) by simp
    from ordered_prefix_less [OF assms(1) that this] show False by simp
  qed
  have "list_all (\<lambda>p. take (length \<pi>) (dht_binaryDistance p) \<noteq> take (length \<pi>) (bd ps i)) (drop (Suc i) ps)"
    using later [of "Suc i + n" for n] by (auto simp: list_all_length bd_def)
  with i c0 k pre show ?thesis by (simp add: takes_place_def assms(3) digit_is_def)
qed

text \<open>A node that is a peer is replaced by an inner node with that peer and the new one.\<close>

lemma reinsert:
  assumes "peers_ordered L ps" and "insert_correct ps L (length \<pi>)" and "j < i" and "i < length ps"
    and "take (length \<pi>) (bd ps j) = \<pi>" and "take (length \<pi>) (bd ps i) = \<pi>" and "\<pi> \<noteq> []"
    and "insertPeer ps s1 j (length \<pi>) (DhtNode None [] br k) n = (x, n1)"
    and "insertPeer ps s2 i (length \<pi>) x n1 = (y, n2)"
  shows "kids_ok ps L \<pi> y \<and> sibling_ok y \<and> node_peer y = None \<and> prevBranch y = br \<and> node_children y \<noteq> []
    \<and> leaves y = [j, i]"
proof -
  obtain l where l: "length \<pi> = Suc l" using assms(7) by (cases \<pi>) auto
  have lt: "length \<pi> < L" by (rule ordered_prefix_less [OF assms(1,3,4)]) (simp add: assms(5,6))
  have "take l (bd ps j) = take l (bd ps i)"
    using assms(5,6) l by (metis Suc_n_not_le_n nat_le_linear take_take min.absorb1)
  with takes_place_not_later [OF assms(3,4)] l have no: "\<not> takes_place ps s1 j (length \<pi>)" by simp
  have "insert_pre ps L s1 j \<pi> (DhtNode None [] br k)"
    using assms lt by (simp add: insert_pre_def kid_leaves_def)
  with assms(2,8) no have x: "inserted ps L \<pi> (DhtNode None [] br k) j x"
    unfolding insert_correct_def Let_def by (metis fst_conv)
  then have "insert_pre ps L s2 i \<pi> x"
    using assms by (auto simp: insert_pre_def inserted_def kid_leaves_def)
  with assms(2,9) x have "inserted ps L \<pi> x i y"
    unfolding insert_correct_def Let_def by (metis fst_conv inserted_def)
  with x show ?thesis by (auto simp: inserted_def leaves_kids kid_leaves_def)
qed

text \<open>The step at an inner node, for the two digits.\<close>

lemma insert_correct_zero:
  assumes ord: "peers_ordered L ps" and IH: "insert_correct ps L (Suc (length \<pi>))"
    and pre: "insert_pre ps L sib i \<pi> (DhtNode p [c0, c1] b k)" and bit: "bd ps i ! length \<pi> = CHR ''0''"
  shows "inserted ps L \<pi> (DhtNode p [c0, c1] b k) i (fst (insertPeer ps sib i (length \<pi>) (DhtNode p [c0, c1] b k) n))"
proof -
  let ?\<pi> = "\<pi> @ ''0''" and ?l = "Suc (length \<pi>)"
  from pre have l: "length \<pi> < L" and i: "i < length ps" and pi: "take (length \<pi>) (bd ps i) = \<pi>"
    and less: "\<And>j. j \<in> set (leaves c0) \<union> set (leaves c1) \<Longrightarrow> j < i"
    and k0: "kids_ok ps L ?\<pi> c0" "label_ok ps ?\<pi> c0" "prevBranch c0 = Some 0" "sibling_ok c0"
    and k1: "kids_ok ps L (\<pi> @ ''1'') c1" "label_ok ps (\<pi> @ ''1'') c1" "prevBranch c1 = Some 1" "sibling_ok c1"
    and ne: "leaves c0 @ leaves c1 \<noteq> []"
    by (auto simp: insert_pre_def kid_leaves_def)
  note len = bd_length [OF ord i]
  have i0: "take ?l (bd ps i) = ?\<pi>" using bd_take_Suc [OF ord i l] pi bit by simp
  have c1: "leaves c1 = []"
  proof (rule ccontr)
    assume "leaves c1 \<noteq> []"
    then obtain j where j: "j \<in> set (leaves c1)" by (cases "leaves c1") auto
    with leaves_prefix [OF k1(1,2) j] have jp: "take ?l (bd ps j) = \<pi> @ ''1''" by simp
    then have "bd ps j ! length \<pi> = CHR ''1''" "take (length \<pi>) (bd ps j) = \<pi>"
      using digit_take [of "length \<pi>" "bd ps j" \<pi>] take_prefix [of \<pi> "CHR ''1''" "bd ps j"] by auto
    with ordered_digit [OF ord less i l, of j] j pi bit show False by simp
  qed
  with ne have c0ne: "leaves c0 \<noteq> []" by simp
  have p1: "node_peer c1 = None" using c1 k1(2) by (auto simp: label_ok_def leaves_leaf split: option.splits)
  have d: "direction (bd ps i) (length \<pi>) = 0" using l len bit by (simp add: direction_def digit_is_def)
  have put: "inserted ps L \<pi> (DhtNode p [c0, c1] b k) i (DhtNode p [y, c1] b k)"
    if "kids_ok ps L ?\<pi> y" "sibling_ok y" "node_peer y = None" "prevBranch y = Some 0" "leaves y = leaves c0 @ [i]" for y
    using that l k1 c1 p1 by (simp add: inserted_def label_ok_def kid_leaves_def)
  show ?thesis
  proof (cases "node_peer c0")
    case None
    have kid: "node_children c0 \<noteq> []" using c0ne None by (auto simp: leaves_leaf)
    have "insert_pre ps L (Some c0) i ?\<pi> c0"
      using k0 i i0 kid less by (simp add: insert_pre_def leaves_kids)
    from insert_correctD [OF IH this, of n] kid
    have "inserted ps L ?\<pi> c0 i (fst (insertPeer ps (Some c0) i ?l c0 n))" by simp
    then have "inserted ps L \<pi> (DhtNode p [c0, c1] b k) i (DhtNode p [fst (insertPeer ps (Some c0) i ?l c0 n), c1] b k)"
      using None k0(3) kid by (intro put) (auto simp: inserted_def leaves_kids)
    then show ?thesis using d l len None by (subst insertPeer.simps) (auto simp: Let_def split: prod.splits)
  next
    case (Some j)
    with k0(2) have j: "node_children c0 = []" "j < length ps" "take ?l (bd ps j) = ?\<pi>"
      by (auto simp: label_ok_def)
    with Some less have ji: "j < i" by (simp add: leaves_leaf)
    let ?e = "DhtNode None [] (Some 0) (Some n)"
    obtain x n1 where x: "insertPeer ps (Some ?e) j ?l ?e (n + 1) = (x, n1)" by fastforce
    obtain y n2 where y: "insertPeer ps (Some x) i ?l x n1 = (y, n2)" by fastforce
    have "inserted ps L \<pi> (DhtNode p [c0, c1] b k) i (DhtNode p [y, c1] b k)"
      using reinsert [OF ord _ ji i, of ?\<pi> "Some ?e" "Some 0" "Some n" "n + 1" x n1 "Some x" y n2] IH j(1,3) i0 x y Some
      by (intro put) (auto simp: leaves_leaf)
    then show ?thesis
      using d l len Some x y existing_peer_ordered [OF ord j(2)] by (subst insertPeer.simps) (simp add: Let_def)
  qed
qed

lemma insert_correct_one:
  assumes ord: "peers_ordered L ps" and IH: "insert_correct ps L (Suc (length \<pi>))"
    and pre: "insert_pre ps L sib i \<pi> (DhtNode p [c0, c1] b k)" and bit: "bd ps i ! length \<pi> = CHR ''1''"
  shows "inserted ps L \<pi> (DhtNode p [c0, c1] b k) i (fst (insertPeer ps sib i (length \<pi>) (DhtNode p [c0, c1] b k) n))"
proof -
  let ?\<pi> = "\<pi> @ ''1''" and ?l = "Suc (length \<pi>)"
  from pre have l: "length \<pi> < L" and i: "i < length ps" and pi: "take (length \<pi>) (bd ps i) = \<pi>"
    and less: "\<And>j. j \<in> set (leaves c0) \<union> set (leaves c1) \<Longrightarrow> j < i"
    and k0: "kids_ok ps L (\<pi> @ ''0'') c0" "label_ok ps (\<pi> @ ''0'') c0" "prevBranch c0 = Some 0" "sibling_ok c0"
    and k1: "kids_ok ps L ?\<pi> c1" "label_ok ps ?\<pi> c1" "prevBranch c1 = Some 1" "sibling_ok c1"
    and ne: "leaves c0 @ leaves c1 \<noteq> []"
    by (auto simp: insert_pre_def kid_leaves_def)
  note len = bd_length [OF ord i]
  have i1: "take ?l (bd ps i) = ?\<pi>" using bd_take_Suc [OF ord i l] pi bit by simp
  have d: "direction (bd ps i) (length \<pi>) = 1" using l len bit by (simp add: direction_def digit_is_def)
  have put: "inserted ps L \<pi> (DhtNode p [c0, c1] b k) i (DhtNode p [c0, y] b k)"
    if "kids_ok ps L ?\<pi> y" "label_ok ps ?\<pi> y" "sibling_ok y" "node_peer y \<noteq> None \<longrightarrow> node_children c0 = []"
      "prevBranch y = Some 1" "leaves y = leaves c1 @ [i]" for y
    using that l k0 by (simp add: inserted_def kid_leaves_def)
  show ?thesis
  proof (cases "node_peer c1")
    case None
    let ?y = "fst (insertPeer ps (Some c0) i ?l c1 n)"
    have "takes_place ps (Some c0) i ?l" if "node_children c1 = []" "\<not> ?l < L"
    proof -
      have L: "L = ?l" using that(2) l by simp
      show ?thesis
        using takes_place_last [OF ord i L, of c0] that(1) i1 k0 ne None by (simp add: leaves_leaf L)
    qed
    then have p: "insert_pre ps L (Some c0) i ?\<pi> c1"
      using k1 i i1 less by (cases "node_children c1 = []") (auto simp: insert_pre_def leaves_kids kid_leaves_def)
    have "inserted ps L \<pi> (DhtNode p [c0, c1] b k) i (DhtNode p [c0, ?y] b k)"
    proof (cases "node_children c1 = [] \<and> takes_place ps (Some c0) i ?l")
      case True
      with insert_correctD [OF IH p, of n] have y: "?y = DhtNode (Some i) [] (Some 1) (Some n)" by simp
      have "node_children c0 = []" using True by (auto simp: takes_place_def)
      with True None i i1 show ?thesis
        unfolding y by (intro put) (auto simp: label_ok_def leaves_leaf)
    next
      case False
      with insert_correctD [OF IH p, of n] have "inserted ps L ?\<pi> c1 i ?y" by (simp split: if_splits)
      with None k1(3) show ?thesis
        by (intro put) (auto simp: inserted_def label_ok_def leaves_kids kid_leaves_def leaves_leaf,
            metis kid_leaves_def leaves_kids leaves_leaf list.simps(8) concat.simps(1) append_Nil option.simps(4))
    qed
    then show ?thesis using d l len None by (subst insertPeer.simps) (auto simp: Let_def split: prod.splits)
  next
    case (Some j)
    with k1(2) have j: "node_children c1 = []" "j < length ps" "take ?l (bd ps j) = ?\<pi>"
      by (auto simp: label_ok_def)
    with Some less have ji: "j < i" by (simp add: leaves_leaf)
    let ?e = "DhtNode None [] (Some 1) (Some n)"
    obtain x n1 where x: "insertPeer ps (Some c0) j ?l ?e (n + 1) = (x, n1)" by fastforce
    obtain y n2 where y: "insertPeer ps (Some c0) i ?l x n1 = (y, n2)" by fastforce
    have "inserted ps L \<pi> (DhtNode p [c0, c1] b k) i (DhtNode p [c0, y] b k)"
      using reinsert [OF ord _ ji i, of ?\<pi> "Some c0" "Some 1" "Some n" "n + 1" x n1 "Some c0" y n2] IH j(1,3) i1 x y Some
      by (intro put) (auto simp: leaves_leaf label_ok_def)
    then show ?thesis
      using d l len Some x y existing_peer_ordered [OF ord j(2)] by (subst insertPeer.simps) (simp add: Let_def)
  qed
qed

lemma insert_correct_all:
  assumes "peers_ordered L ps" and "l \<le> L"
  shows "insert_correct ps L l"
  using assms(2)
proof (induction l rule: inc_induct)
  case base
  show ?case
    unfolding insert_correct_def
  proof (intro allI impI)
    fix \<pi> node i sib n
    assume l: "length \<pi> = L" and pre: "insert_pre ps L sib i \<pi> node"
    have kid: "node_children node = []"
      using pre l by (cases "(ps, L, \<pi>, node)" rule: kids_ok.cases) (auto simp: insert_pre_def)
    show "let node' = fst (insertPeer ps sib i L node n)
      in if node_children node = [] \<and> takes_place ps sib i L then node' = DhtNode (Some i) [] (Some 1) (Some n)
         else inserted ps L \<pi> node i node'"
      using insert_correct_leaf [OF assms(1) pre kid] l kid by simp
  qed
next
  case (step l)
  show ?case
    unfolding insert_correct_def
  proof (intro allI impI)
    fix \<pi> node i sib n
    assume l: "length \<pi> = l" and pre: "insert_pre ps L sib i \<pi> node"
    show "let node' = fst (insertPeer ps sib i l node n)
      in if node_children node = [] \<and> takes_place ps sib i l then node' = DhtNode (Some i) [] (Some 1) (Some n)
         else inserted ps L \<pi> node i node'"
    proof (cases "node_children node = []")
      case True
      with insert_correct_leaf [OF assms(1) pre True] l show ?thesis by simp
    next
      case False
      with pre obtain p c0 c1 b k where node: "node = DhtNode p [c0, c1] b k"
        by (cases "(ps, L, \<pi>, node)" rule: kids_ok.cases) (auto simp: insert_pre_def)
      have "i < length ps" using pre by (simp add: insert_pre_def)
      from bd_digit [OF assms(1) this step.hyps(2)] show ?thesis
        using insert_correct_zero [OF assms(1) step.IH [folded l] pre [unfolded node]]
          insert_correct_one [OF assms(1) step.IH [folded l] pre [unfolded node]] l
        by (auto simp: Let_def node)
    qed
  qed
qed

text \<open>All peers but the first, in their order.\<close>

lemma insert_all_ok:
  assumes ord: "peers_ordered L ps"
  shows "kids_ok ps L [] t \<Longrightarrow> sibling_ok t \<Longrightarrow> kid_leaves t = [1..<a] \<Longrightarrow> 1 \<le> a \<Longrightarrow> a \<le> length ps \<Longrightarrow>
    insert_all ps [a..<length ps] t n = (t', n') \<Longrightarrow>
    kids_ok ps L [] t' \<and> sibling_ok t' \<and> kid_leaves t' = [1..<length ps] \<and> node_peer t' = node_peer t
      \<and> prevBranch t' = prevBranch t"
proof (induction "length ps - a" arbitrary: a t n)
  case 0
  then show ?case by simp
next
  case (Suc d)
  then have a: "a < length ps" by simp
  obtain u n1 where u: "insertPeer ps None a 0 t n = (u, n1)" by fastforce
  have "0 < L" using ordered_prefix_less [OF ord, of 0 a 0] a Suc.prems(4) by simp
  then have "insert_pre ps L None a [] t" using Suc.prems a by (simp add: insert_pre_def)
  moreover have "\<forall>node i sib n. insert_pre ps L sib i [] node \<longrightarrow>
      inserted ps L [] node i (fst (insertPeer ps sib i 0 node n))"
    using insert_correct_all [OF ord, of 0] by (simp add: insert_correct_def takes_place_def)
  ultimately have "inserted ps L [] t a u" using u by (metis fst_conv)
  moreover have "[1..<Suc a] = [1..<a] @ [a]" using Suc.prems(4) by simp
  moreover have "insert_all ps [Suc a..<length ps] u n1 = (t', n')"
    using Suc.prems(6) a u by (simp add: upt_conv_Cons)
  ultimately show ?case
    using Suc.hyps(1) [of "Suc a" u n1] Suc.hyps(2) Suc.prems a by (auto simp: inserted_def)
qed

section \<open>Cleaning up\<close>

lemma cleanUpTree_ok:
  "kids_ok ps L \<pi> t \<Longrightarrow> label_ok ps \<pi> t \<Longrightarrow> sibling_ok t \<Longrightarrow>
   kids_ok ps L \<pi> (cleanUpTree t) \<and> label_ok ps \<pi> (cleanUpTree t) \<and> leaves (cleanUpTree t) = leaves t
     \<and> prevBranch (cleanUpTree t) = prevBranch t"
proof (induction ps L \<pi> t rule: kids_ok.induct)
  case (2 ps L \<pi> p c0 c1 b k)
  show ?case
  proof (cases "node_peer c0 = None \<and> node_peer c1 \<noteq> None")
    case True
    with 2 have "leaves c0 = []" by (auto simp: leaves_leaf)
    moreover from True obtain j where "node_peer c1 = Some j" by auto
    ultimately show ?thesis
      using 2 True take_prefix [of \<pi> "CHR ''1''"] by (auto simp: label_ok_def leaves_leaf)
  next
    case False
    then show ?thesis using 2 by (auto simp: label_ok_def split: option.splits)
  qed
qed auto

section \<open>The greatest distance\<close>

fun hgt :: "DhtGraphNode \<Rightarrow> nat" where
  "hgt (DhtNode p [c0, c1] b k) = Suc (max (hgt c0) (hgt c1))"
| "hgt (DhtNode p [] b k) = 0"
| "hgt _ = 0"

lemma findMaxDistance_hgt: "findMaxDistance t distance m = max m (distance + hgt t)"
  by (induction t distance m rule: findMaxDistance.induct) auto

lemma hgt_le: "kids_ok ps L \<pi> t \<Longrightarrow> length \<pi> \<le> L \<Longrightarrow> length \<pi> + hgt t \<le> L"
  by (induction ps L \<pi> t rule: kids_ok.induct) (auto simp: max_def)

text \<open>The digits up to the height of the tree tell the peers apart.\<close>

lemma take_mono_neq:
  assumes "take m s \<noteq> take m t" and "m \<le> n"
  shows "take n s \<noteq> take n t"
proof
  assume "take n s = take n t"
  then have "take m (take n s) = take m (take n t)" by simp
  with assms show False by (simp add: min_def)
qed

lemma leaves_distinct:
  "kids_ok ps L \<pi> t \<Longrightarrow> label_ok ps \<pi> t \<Longrightarrow>
   sorted_wrt (\<lambda>i j. take (length \<pi> + hgt t) (bd ps i) \<noteq> take (length \<pi> + hgt t) (bd ps j)) (leaves t)"
proof (induction ps L \<pi> t rule: kids_ok.induct)
  case (2 ps L \<pi> p c0 c1 b k)
  let ?h = "length \<pi> + hgt (DhtNode p [c0, c1] b k)"
  have cross: "take ?h (bd ps i) \<noteq> take ?h (bd ps j)" if "i \<in> set (leaves c0)" "j \<in> set (leaves c1)" for i j
  proof -
    have "take (Suc (length \<pi>)) (bd ps i) = \<pi> @ ''0''" "take (Suc (length \<pi>)) (bd ps j) = \<pi> @ ''1''"
      using 2 leaves_prefix [of ps L "\<pi> @ ''0''" c0 i] leaves_prefix [of ps L "\<pi> @ ''1''" c1 j] that by auto
    then have "take (Suc (length \<pi>)) (bd ps i) \<noteq> take (Suc (length \<pi>)) (bd ps j)" by simp
    from take_mono_neq [OF this, of ?h] show ?thesis by simp
  qed
  have IH: "sorted_wrt (\<lambda>i j. take (Suc (length \<pi>) + hgt c0) (bd ps i) \<noteq> take (Suc (length \<pi>) + hgt c0) (bd ps j))
      (leaves c0)"
    "sorted_wrt (\<lambda>i j. take (Suc (length \<pi>) + hgt c1) (bd ps i) \<noteq> take (Suc (length \<pi>) + hgt c1) (bd ps j))
      (leaves c1)"
    using 2 by simp_all
  have "sorted_wrt (\<lambda>i j. take ?h (bd ps i) \<noteq> take ?h (bd ps j)) (leaves c0)"
    by (rule sorted_wrt_mono_rel [OF _ IH(1)], erule take_mono_neq, simp)
  moreover have "sorted_wrt (\<lambda>i j. take ?h (bd ps i) \<noteq> take ?h (bd ps j)) (leaves c1)"
    by (rule sorted_wrt_mono_rel [OF _ IH(2)], erule take_mono_neq, simp)
  ultimately show ?case using cross by (simp add: sorted_wrt_append)
qed (auto split: option.splits)

section \<open>Equal distances\<close>

text \<open>The branches that the links from the root to a peer are labelled with.\<close>

fun bpaths :: "DhtGraphNode \<Rightarrow> (int option list \<times> nat) list" where
  "bpaths (DhtNode p [] b k) = (case p of None \<Rightarrow> [] | Some i \<Rightarrow> [([], i)])"
| "bpaths (DhtNode p (c # cs) b k) =
     concat (map (\<lambda>c. map (\<lambda>(path, i). (prevBranch c # path, i)) (bpaths c)) (c # cs))"

definition branches :: "string \<Rightarrow> int option list" where
  "branches s = map (\<lambda>c. Some (if c = CHR ''0'' then 0 else 1)) s"

text \<open>Every node with children has a peer below it, and one child or two.\<close>

fun grown :: "DhtGraphNode \<Rightarrow> bool" where
  "grown (DhtNode p [] b k) = True"
| "grown (DhtNode p [c0] b k) = (bpaths c0 \<noteq> [] \<and> grown c0)"
| "grown (DhtNode p [c0, c1] b k) = (bpaths c0 @ bpaths c1 \<noteq> [] \<and> grown c0 \<and> grown c1)"
| "grown _ = False"

definition stretched :: "NetworkNodeDhtPeer list \<Rightarrow> nat \<Rightarrow> nat \<Rightarrow> nat list \<Rightarrow> (int option list \<times> nat) list" where
  "stretched ps m d is = map (\<lambda>i. (branches (drop d (take m (bd ps i))), i)) is"

lemma drop_take_Cons:
  "d < m \<Longrightarrow> m \<le> length s \<Longrightarrow> drop d (take m s) = s ! d # drop (Suc d) (take m s)"
  by (simp add: Cons_nth_drop_Suc [symmetric])

lemma makeEqual_leaf:
  assumes ord: "peers_ordered L ps" and i: "i < length ps" and m: "m \<le> L"
  shows "d \<le> m \<Longrightarrow>
    (let t = makeEqualDistancesForAllNodes ps m pos (DhtNode (Some i) [] b k) d
     in bpaths t = stretched ps m d [i] \<and> prevBranch t = b \<and> grown t)"
proof (induction "m - d" arbitrary: d pos b k)
  case 0
  then show ?case by (simp add: stretched_def branches_def)
next
  case (Suc e)
  note len = bd_length [OF ord i]
  from Suc have d: "d < m" by simp
  with m have "bd ps i ! d = CHR ''0'' \<or> bd ps i ! d = CHR ''1''" by (intro bd_digit [OF ord i]) simp
  moreover have "drop d (take m (bd ps i)) = bd ps i ! d # drop (Suc d) (take m (bd ps i))"
    using d m len by (intro drop_take_Cons) auto
  ultimately show ?case
    using Suc.hyps(1) [of "Suc d"] Suc.hyps(2) d m len
    by (auto simp: Let_def stretched_def branches_def digit_is_def)
qed

lemma makeEqual_ok:
  assumes ord: "peers_ordered L ps" and m: "m \<le> L"
  shows "kids_ok ps L \<pi> t \<Longrightarrow> label_ok ps \<pi> t \<Longrightarrow> pos = prevBranch t \<Longrightarrow> length \<pi> + hgt t \<le> m \<Longrightarrow>
    (let t' = makeEqualDistancesForAllNodes ps m pos t (length \<pi>)
     in bpaths t' = stretched ps m (length \<pi>) (leaves t) \<and> prevBranch t' = prevBranch t \<and> grown t')"
proof (induction t arbitrary: \<pi> pos rule: hgt.induct)
  case (1 p c0 c1 b k)
  then have lt: "length \<pi> < m" by simp
  let ?E = "makeEqualDistancesForAllNodes ps m"
  have ne: "leaves c0 @ leaves c1 \<noteq> []" using "1.prems"(1) by simp
  have c0: "bpaths (?E (Some 0) c0 (Suc (length \<pi>))) = stretched ps m (Suc (length \<pi>)) (leaves c0)"
    "prevBranch (?E (Some 0) c0 (Suc (length \<pi>))) = Some 0" "grown (?E (Some 0) c0 (Suc (length \<pi>)))"
    using "1.IH"(1) [of "\<pi> @ ''0''" "Some 0"] "1.prems" by (auto simp: Let_def)
  have c1: "bpaths (?E (Some 1) c1 (Suc (length \<pi>))) = stretched ps m (Suc (length \<pi>)) (leaves c1)"
    "prevBranch (?E (Some 1) c1 (Suc (length \<pi>))) = Some 1" "grown (?E (Some 1) c1 (Suc (length \<pi>)))"
    using "1.IH"(2) [of "\<pi> @ ''1''" "Some 1"] "1.prems" by (auto simp: Let_def)
  have step: "stretched ps m (length \<pi>) xs =
      map (\<lambda>(path, i). (Some (if x = CHR ''0'' then 0 else 1) # path, i)) (stretched ps m (Suc (length \<pi>)) xs)"
    if pre: "\<And>j. j \<in> set xs \<Longrightarrow> j < length ps \<and> take (Suc (length \<pi>)) (bd ps j) = \<pi> @ [x]" for xs x
  proof -
    have "drop (length \<pi>) (take m (bd ps j)) = x # drop (Suc (length \<pi>)) (take m (bd ps j))" if "j \<in> set xs" for j
      using drop_take_Cons [OF lt, of "bd ps j"] pre [OF that] bd_length [OF ord, of j] m
        digit_take [of "length \<pi>" "bd ps j" \<pi> x] by simp
    then show ?thesis by (auto simp: stretched_def branches_def)
  qed
  have "stretched ps m (length \<pi>) (leaves c0) =
      map (\<lambda>(path, i). (Some 0 # path, i)) (stretched ps m (Suc (length \<pi>)) (leaves c0))"
    using step [of "leaves c0" "CHR ''0''"] leaves_prefix [of ps L "\<pi> @ ''0''" c0] "1.prems"(1) by simp
  moreover have "stretched ps m (length \<pi>) (leaves c1) =
      map (\<lambda>(path, i). (Some 1 # path, i)) (stretched ps m (Suc (length \<pi>)) (leaves c1))"
    using step [of "leaves c1" "CHR ''1''"] leaves_prefix [of ps L "\<pi> @ ''1''" c1] "1.prems"(1) by simp
  moreover have "stretched ps m (length \<pi>) (leaves c0 @ leaves c1)
      = stretched ps m (length \<pi>) (leaves c0) @ stretched ps m (length \<pi>) (leaves c1)"
    by (simp add: stretched_def)
  ultimately show ?case
    using lt c0 c1 ne "1.prems"(3) by (auto simp: Let_def stretched_def)
next
  case (2 p b k)
  then show ?case
    using makeEqual_leaf [OF ord _ m, of _ "length \<pi>" pos b k]
    by (cases p) (auto simp: Let_def stretched_def label_ok_def)
qed auto

section \<open>Empty nodes\<close>

text \<open>Every node without children is a peer.\<close>

fun full_tree :: "DhtGraphNode \<Rightarrow> bool" where
  "full_tree (DhtNode p [] b k) = (p \<noteq> None)"
| "full_tree (DhtNode p (c # cs) b k) = list_all full_tree (c # cs)"

lemma removeEmptyNodes_ok:
  "grown t \<Longrightarrow> \<not> empty_node t \<Longrightarrow>
   bpaths (removeEmptyNodes t) = bpaths t \<and> full_tree (removeEmptyNodes t)
     \<and> prevBranch (removeEmptyNodes t) = prevBranch t \<and> node_peer (removeEmptyNodes t) = node_peer t"
proof (induction t rule: grown.induct)
  case (2 p c0 b k)
  then show ?case by (cases c0 rule: bpaths.cases) (auto simp: empty_node_def)
next
  case (3 p c0 c1 b k)
  have "bpaths c = []" if "empty_node c" for c
    using that by (cases c rule: bpaths.cases) (auto simp: empty_node_def)
  with 3 show ?case by auto
qed (auto simp: empty_node_def)

section \<open>The graph of the peers\<close>

fun bits_value :: "string \<Rightarrow> nat" where
  "bits_value [] = 0"
| "bits_value (x # xs) = (if x = CHR ''1'' then 2 ^ length xs else 0) + bits_value xs"

lemma bits_value_less: "bits_value s < 2 ^ length s"
  by (induction s) auto

lemma sortPeers_loop_value:
  "binary_string L a \<Longrightarrow> binary_string L b \<Longrightarrow>
   (sortPeers_loop a b < 0 \<longleftrightarrow> bits_value a < bits_value b) \<and> (sortPeers_loop a b \<le> 0 \<longleftrightarrow> bits_value a \<le> bits_value b)"
proof (induction a b arbitrary: L rule: sortPeers_loop.induct)
  case (3 x xs y ys)
  then have "length xs = length ys" by (auto simp: binary_string_def)
  with 3 "3.IH" [of "length xs"] bits_value_less [of xs] bits_value_less [of ys] show ?case
    by (auto simp: binary_string_def)
qed (auto simp: binary_string_def)

lemma js_sort_key:
  "(\<And>x y. x \<in> set xs \<Longrightarrow> y \<in> set xs \<Longrightarrow> c x y \<le> 0 \<longleftrightarrow> f x \<le> (f y :: nat)) \<Longrightarrow> js_sort c xs = sort_key f xs"
proof (induction xs)
  case (Cons x xs)
  have "insert_cmp c x ys = insort_key f x ys" if "set ys \<subseteq> set xs" for ys
    using that Cons.prems by (induction ys) auto
  with Cons show ?case by (simp add: js_sort_def)
qed (simp add: js_sort_def)

lemma graph_peers_ordered:
  assumes "list_all (\<lambda>p. binary_string L (dht_binaryDistance p)) peers" and "distinct (map dht_binaryDistance peers)"
  shows "peers_ordered L (graph_peers peers) \<and> mset (graph_peers peers) = mset peers"
proof -
  let ?f = "\<lambda>p. bits_value (dht_binaryDistance p)"
  have eq: "graph_peers peers = sort_key ?f peers"
    unfolding graph_peers_def
  proof (rule js_sort_key)
    fix x y assume "x \<in> set peers" "y \<in> set peers"
    with assms(1) have "binary_string L (dht_binaryDistance x)" "binary_string L (dht_binaryDistance y)"
      by (auto simp: list_all_iff)
    from sortPeers_loop_value [OF this] show "sortPeers x y \<le> 0 \<longleftrightarrow> ?f x \<le> ?f y" by (simp add: sortPeers_def)
  qed
  have bin: "list_all (\<lambda>p. binary_string L (dht_binaryDistance p)) (graph_peers peers)"
    using assms(1) by (simp add: eq list_all_iff)
  have dist: "distinct (map dht_binaryDistance (graph_peers peers))"
    using assms(2) by (simp add: eq distinct_map)
  have "sortPeers (graph_peers peers ! i) (graph_peers peers ! j) < 0" if "i < j" "j < length (graph_peers peers)" for i j
  proof -
    let ?a = "graph_peers peers ! i" and ?b = "graph_peers peers ! j"
    have ab: "binary_string L (dht_binaryDistance ?a)" "binary_string L (dht_binaryDistance ?b)"
      using bin that by (auto simp: list_all_length)
    have "?f ?a \<le> ?f ?b"
      using sorted_nth_mono [of "map ?f (graph_peers peers)" i j] that by (simp add: eq)
    moreover have "?f ?a \<noteq> ?f ?b"
    proof
      assume "?f ?a = ?f ?b"
      with sortPeers_loop_value [OF ab] sortPeers_loop_neg [OF _ ab] sortPeers_loop_value [OF ab(2,1)]
      have "sortPeers_loop (dht_binaryDistance ?a) (dht_binaryDistance ?b) = 0" by auto
      moreover have "a = b" if "sortPeers_loop a b = 0" "length a = length b" for a b
        using that by (induction a b rule: sortPeers_loop.induct) (auto split: if_splits)
      ultimately have "dht_binaryDistance ?a = dht_binaryDistance ?b" using ab by (simp add: binary_string_def)
      with dist that show False by (simp add: distinct_conv_nth)
    qed
    ultimately show ?thesis using sortPeers_loop_value [OF ab] by (simp add: sortPeers_def)
  qed
  with bin show ?thesis by (simp add: peers_ordered_def sorted_wrt_iff_nth_less) (simp add: eq)
qed

lemma branches_inj:
  assumes "binary_string L a" and "binary_string L b" and "branches (take m a) = branches (take m b)"
  shows "take m a = take m b"
proof -
  have inj: "xs = ys" if "length xs = length ys" "branches xs = branches ys"
    "\<forall>c \<in> set xs. c = CHR ''0'' \<or> c = CHR ''1''" "\<forall>c \<in> set ys. c = CHR ''0'' \<or> c = CHR ''1''" for xs ys
    using that by (induction xs ys rule: list_induct2) (auto simp: branches_def split: if_splits)
  show ?thesis
    using assms by (intro inj) (auto simp: binary_string_def list_all_iff dest: in_set_takeD)
qed

lemma root_not_replaced:
  assumes "kids_ok ps L [] (DhtNode (Some 0) [c0, c1] b k)" and "sibling_ok (DhtNode (Some 0) [c0, c1] b k)"
    and "leaves c0 @ leaves c1 = [1..<n]" and "3 \<le> n"
  shows "\<not> (node_peer c0 = None \<and> node_peer c1 \<noteq> None)"
proof
  assume *: "node_peer c0 = None \<and> node_peer c1 \<noteq> None"
  with assms have "leaves c0 = []" by (auto simp: leaves_leaf)
  moreover have "length (leaves c1) = 1" using * assms(1) by (auto simp: label_ok_def leaves_leaf)
  moreover have "length (leaves c0 @ leaves c1) = n - 1" using assms(3) by simp
  ultimately show False using assms(4) by simp
qed

lemma sorted_wrt_distinct_map: "sorted_wrt (\<lambda>i j. f i \<noteq> f j) xs \<Longrightarrow> distinct (map f xs)"
  by (induction xs) auto

lemma branches_distinct:
  assumes "peers_ordered L ps" and "h \<le> m"
    and "sorted_wrt (\<lambda>i j. take h (bd ps i) \<noteq> take h (bd ps j)) xs" and "set xs \<subseteq> {..<length ps}"
  shows "sorted_wrt (\<lambda>i j. branches (take m (bd ps i)) \<noteq> branches (take m (bd ps j))) xs"
proof (rule sorted_wrt_mono_rel [OF _ assms(3)], rule notI)
  fix i j
  assume ij: "i \<in> set xs" "j \<in> set xs" and ne: "take h (bd ps i) \<noteq> take h (bd ps j)"
    and eq: "branches (take m (bd ps i)) = branches (take m (bd ps j))"
  have "i < length ps" "j < length ps" using ij assms(4) by auto
  from branches_inj [OF bd_binary [OF assms(1) this(1)] bd_binary [OF assms(1) this(2)] eq]
  show False using take_mono_neq [OF ne assms(2)] by simp
qed

lemma createBinaryTree_ordered:
  assumes ord: "peers_ordered L ps" and n: "3 \<le> length ps" and m0: "m0 \<le> L"
  shows "\<exists>t m c'. createBinaryTree ps (m0, c) = (Some t, m, c') \<and> node_peer t = Some 0 \<and> m0 \<le> m \<and> m \<le> L
    \<and> bpaths t = map (\<lambda>i. (branches (take m (bd ps i)), i)) [1..<length ps]
    \<and> distinct (map fst (bpaths t)) \<and> full_tree t"
proof -
  let ?n = "length ps"
  obtain t1 c' where t1: "insert_all ps [1..<?n] (DhtNode (Some 0) [] None None) c = (t1, c')" by fastforce
  have ok: "kids_ok ps L [] t1" "sibling_ok t1" "kid_leaves t1 = [1..<?n]" "node_peer t1 = Some 0" "prevBranch t1 = None"
    using insert_all_ok [OF ord, of "DhtNode (Some 0) [] None None" 1 c t1 c'] t1 n by (auto simp: kid_leaves_def)
  have "[] \<noteq> [Suc 0..<?n]" using n by (auto dest: arg_cong [of _ _ length])
  then obtain c0 c1 k where t1': "t1 = DhtNode (Some 0) [c0, c1] None k"
    using ok by (cases "(ps, L, [] :: string, t1)" rule: kids_ok.cases) (auto simp: kid_leaves_def)
  have lv: "leaves c0 @ leaves c1 = [1..<?n]" using ok(3) by (simp add: t1' kid_leaves_def)
  define a0 where "a0 = cleanUpTree c0"
  define a1 where "a1 = cleanUpTree c1"
  define t2 where "t2 = DhtNode None [a0, a1] None k"
  have t2: "cleanUpTree t1 = DhtNode (Some 0) [a0, a1] None k"
    using root_not_replaced [OF ok(1,2) [unfolded t1'] lv n] unfolding t1' a0_def a1_def cleanUpTree.simps by (rule if_not_P)
  have a: "kids_ok ps L [] t2 \<and> label_ok ps [] t2 \<and> leaves t2 = [1..<?n]"
    using cleanUpTree_ok [of ps L "''0''" c0] cleanUpTree_ok [of ps L "''1''" c1] ok(1,2) lv
    by (simp add: t1' t2_def a0_def a1_def label_ok_def)
  define m where "m = findMaxDistance (cleanUpTree t1) 0 m0"
  have m: "m = max m0 (hgt t2)" by (simp add: m_def t2 findMaxDistance_hgt t2_def)
  have mL: "m \<le> L" "hgt t2 \<le> m" "m0 \<le> m" using m0 a hgt_le [of ps L "[]" t2] by (auto simp: m)
  define t3 where "t3 = makeEqualDistancesForAllNodes ps m None t2 0"
  have t3: "bpaths t3 = stretched ps m 0 [1..<?n]" "grown t3"
    using makeEqual_ok [OF ord mL(1), of "[]" t2 None] a mL(2) by (auto simp: Let_def t3_def t2_def)
  obtain e0 e1 where t3': "t3 = DhtNode None [e0, e1] None k"
    "makeEqualDistancesForAllNodes ps m None (cleanUpTree t1) 0 = DhtNode (Some 0) [e0, e1] None k"
    using mL(2) by (auto simp: t3_def t2 t2_def)
  define t where "t = removeEmptyNodes (DhtNode (Some 0) [e0, e1] None k)"
  have r: "bpaths t = stretched ps m 0 [1..<?n]" "full_tree t" "node_peer t = Some 0"
    using removeEmptyNodes_ok [of "DhtNode (Some 0) [e0, e1] None k"] t3
    unfolding t_def by (auto simp: t3'(1) empty_node_def)
  have "sorted_wrt (\<lambda>i j. branches (take m (bd ps i)) \<noteq> branches (take m (bd ps j))) [1..<?n]"
    by (rule branches_distinct [OF ord mL(2)]) (use leaves_distinct [of ps L "[]" t2] a in auto)
  from sorted_wrt_distinct_map [OF this] have "distinct (map fst (bpaths t))"
    by (simp add: r(1) stretched_def comp_def)
  moreover have "createBinaryTree ps (m0, c) = (Some t, m, c')"
    using n t1 by (auto simp: createBinaryTree_def Let_def m_def [symmetric] t3'(2) t_def [symmetric] simp del: removeEmptyNodes.simps)
  ultimately show ?thesis using r mL by (auto simp: stretched_def)
qed

text \<open>For three peers or more with different binary distances of one length, the graph has the closest peer at
  its root and every other peer exactly once: from left to right in the order of the distances, all at
  the same depth, reached by links labelled with the first digits of its distance, which tell it from every other
  peer; no empty node is left at the end of a branch.\<close>

lemma graph_tree:
  assumes "list_all (\<lambda>p. binary_string L (dht_binaryDistance p)) peers"
    and "distinct (map dht_binaryDistance peers)" and "3 \<le> length peers" and "maxDistance \<le> L"
  shows "\<exists>t m c'. createBinaryTree (graph_peers peers) (maxDistance, c) = (Some t, m, c')
    \<and> mset (graph_peers peers) = mset peers \<and> node_peer t = Some 0 \<and> maxDistance \<le> m \<and> m \<le> L
    \<and> bpaths t = map (\<lambda>i. (branches (take m (bd (graph_peers peers) i)), i)) [1..<length peers]
    \<and> distinct (map fst (bpaths t)) \<and> full_tree t"
proof -
  have o: "peers_ordered L (graph_peers peers)" and m: "mset (graph_peers peers) = mset peers"
    using graph_peers_ordered [OF assms(1,2)] by auto
  have "length (graph_peers peers) = length peers" using arg_cong [OF m, of size] by simp
  with createBinaryTree_ordered [OF o _ assms(4), of c] assms(3) m show ?thesis by simp
qed

section \<open>The graph of a response\<close>

text \<open>The subscription of \<open>ngAfterViewInit\<close>: the peers of the service, sorted, and their tree. \<open>None\<close> is an answer that
  the service cannot map, after which there is no graph.\<close>

definition graphOfResponse :: "DhtPeersResponse \<Rightarrow> nat \<times> nat \<Rightarrow>
    (NetworkNodeDhtPeer list \<times> DhtGraphNode option \<times> nat \<times> nat) option" where
  "graphOfResponse response counters =
     map_option (\<lambda>payload. let newPeers = graph_peers (pl_peers payload)
       in (newPeers, createBinaryTree newPeers counters)) (mapDhtPeers response)"

abbreviation xor_distance :: "NetworkNodeDhtPeer \<Rightarrow> nat" where
  "xor_distance p \<equiv> of_radix 16 (dht_hexDistance p)"

lemma to_radix_2_digits: "list_all (\<lambda>c. c = CHR ''0'' \<or> c = CHR ''1'') (to_radix 2 n)"
proof (induction n rule: less_induct)
  case (less n)
  have d: "radix_digit k = CHR ''0'' \<or> radix_digit k = CHR ''1''" if "k < 2" for k
  proof -
    have "radix_digit 0 = CHR ''0''" "radix_digit 1 = CHR ''1''" by code_simp+
    with that show ?thesis by (metis less_2_cases One_nat_def)
  qed
  show ?case
  proof (cases "n < 2")
    case True
    with d show ?thesis by (simp add: to_radix.simps [of 2 n])
  next
    case False
    with less.IH [of "n div 2"] d [of "n mod 2"] show ?thesis by (simp add: to_radix.simps [of 2 n])
  qed
qed

lemma hexToBinary_binary:
  assumes "hexToBinary hex = Some b" and "of_radix 16 hex < 2 ^ 256"
  shows "binary_string 256 b" and "of_radix 2 b = of_radix 16 hex"
proof -
  have b: "b = padStart 256 (CHR ''0'') (to_radix 2 (of_radix 16 hex))"
    using assms(1) by (simp add: hexToBinary_def split: if_splits)
  have "length (to_radix 2 (of_radix 16 hex)) \<le> 256"
    using length_to_radix_le [of 2 "of_radix 16 hex" 255] assms(2) by simp
  then have "length b = 256" by (simp add: b length_padStart)
  moreover have "list_all (\<lambda>c. c = CHR ''0'' \<or> c = CHR ''1'') (replicate k (CHR ''0''))" for k
    by (induction k) simp_all
  ultimately show "binary_string 256 b"
    using to_radix_2_digits [of "of_radix 16 hex"] unfolding binary_string_def
    by (simp add: b padStart_def)
  show "of_radix 2 b = of_radix 16 hex" by (simp add: b padStart_def of_to_radix)
qed

lemma mapEntry_binary:
  "mapEntry key i bucket entry = Some p \<Longrightarrow> hexToBinary (dht_hexDistance p) = Some (dht_binaryDistance p)"
  by (auto simp: mapEntry_def split: option.splits)

lemma all_some_eq: "all_some xs = Some ys \<longleftrightarrow> xs = map Some ys"
  by (induction xs arbitrary: ys) (auto split: option.splits simp: Cons_eq_map_conv)

lemma in_set_concat_mapE:
  assumes "y \<in> set (concat (map (\<lambda>i. map (f i) (g i)) xs))"
  obtains i x where "y = f i x"
  using assms by auto

lemma mapped_binary:
  assumes "mapDhtPeers response = Some payload" and "p \<in> set (pl_peers payload)"
  shows "hexToBinary (dht_hexDistance p) = Some (dht_binaryDistance p)"
proof -
  obtain entries where e: "flattenBuckets (rs_this_key response) (rs_buckets response) = Some entries"
    "pl_peers payload = originFirst (rs_this_key response) entries"
    using assms(1) by (auto simp: mapDhtPeers_def)
  have "p \<in> set entries" using assms(2) e(2) originFirst_mset by (metis set_mset_mset)
  then have "Some p \<in> set (map Some entries)" by simp
  then obtain i entry where "Some p = mapEntry (rs_this_key response) i (rs_buckets response ! i) entry"
    unfolding e(1) [unfolded flattenBuckets_def all_some_eq, symmetric] by (rule in_set_concat_mapE)
  from mapEntry_binary [OF this [symmetric]] show ?thesis .
qed

lemma bits_value_of_radix: "binary_string L s \<Longrightarrow> bits_value s = of_radix 2 s"
proof (induction s arbitrary: L)
  case (Cons c cs)
  have "digit_value (CHR ''0'') = 0" "digit_value (CHR ''1'') = 1" by code_simp+
  moreover have "of_radix 2 (c # cs) = digit_value c * 2 ^ length cs + of_radix 2 cs"
    using of_radix_append [of 2 "[c]" cs] by (simp add: of_radix_def)
  ultimately show ?case using Cons by (auto simp: binary_string_def)
qed simp

text \<open>C6. The graph that is drawn for an answer of the node with three entries or more at different XOR distances of at most
  256 bits: the peers are those of the table, by strictly increasing distance; the root is the closest peer and every
  other peer is in the tree exactly once, from left to right in that order, all at the same depth, on the path of the
  first binary digits of its distance, which tell it from every other peer; no empty node is left at the end of a branch.\<close>

theorem dht_graph_tree:
  assumes "mapDhtPeers response = Some payload" and "3 \<le> length (pl_peers payload)"
    and "\<forall>p \<in> set (pl_peers payload). xor_distance p < 2 ^ 256"
    and "distinct (map xor_distance (pl_peers payload))" and "maxDistance \<le> 256"
  shows "\<exists>peers t m c'. graphOfResponse response (maxDistance, c) = Some (peers, Some t, m, c')
    \<and> mset peers = mset (pl_peers payload) \<and> sorted_wrt (\<lambda>p q. xor_distance p < xor_distance q) peers
    \<and> node_peer t = Some 0 \<and> maxDistance \<le> m \<and> m \<le> 256
    \<and> bpaths t = map (\<lambda>i. (branches (take m (bd peers i)), i)) [1..<length peers]
    \<and> distinct (map fst (bpaths t)) \<and> full_tree t"
proof -
  let ?ps = "pl_peers payload"
  have bin: "binary_string 256 (dht_binaryDistance p) \<and> of_radix 2 (dht_binaryDistance p) = xor_distance p"
    if "p \<in> set ?ps" for p
    using hexToBinary_binary mapped_binary [OF assms(1) that] assms(3) that by blast
  then have "distinct (map (of_radix 2 \<circ> dht_binaryDistance) ?ps)"
    using assms(4) by (simp add: comp_def cong: map_cong)
  then have d: "distinct (map dht_binaryDistance ?ps)" by (simp add: distinct_map inj_on_def)
  have b: "list_all (\<lambda>p. binary_string 256 (dht_binaryDistance p)) ?ps" using bin by (simp add: list_all_iff)
  have o: "peers_ordered 256 (graph_peers ?ps)" and m: "mset (graph_peers ?ps) = mset ?ps"
    using graph_peers_ordered [OF b d] by auto
  have s: "set (graph_peers ?ps) = set ?ps" "length (graph_peers ?ps) = length ?ps"
    using arg_cong [OF m, of set_mset] arg_cong [OF m, of size] by simp_all
  have "sorted_wrt (\<lambda>p q. xor_distance p < xor_distance q) (graph_peers ?ps)"
  proof (rule sorted_wrt_mono_rel)
    show "sorted_wrt (\<lambda>p q. sortPeers p q < 0) (graph_peers ?ps)" using o by (simp add: peers_ordered_def)
  next
    fix p q assume "p \<in> set (graph_peers ?ps)" "q \<in> set (graph_peers ?ps)" and less: "sortPeers p q < 0"
    then have "p \<in> set ?ps" "q \<in> set ?ps" by (simp_all add: s)
    note pq = bin [OF this(1)] bin [OF this(2)]
    with less sortPeers_loop_value have "bits_value (dht_binaryDistance p) < bits_value (dht_binaryDistance q)"
      unfolding sortPeers_def by blast
    with pq show "xor_distance p < xor_distance q" using bits_value_of_radix by metis
  qed
  then show ?thesis
    using graph_tree [OF b d assms(2,5), of c] by (simp add: graphOfResponse_def assms(1) s(2) Let_def)
qed

definition dist_entry :: "string \<Rightarrow> Entry" where
  "dist_entry h = (demo_entry h)\<lparr>en_dist := h\<rparr>"

definition graph_bucket :: Bucket where
  "graph_bucket = \<lparr>bk_max_dist = ''ff'', bk_entries = map dist_entry [''5'', ''0'', ''4'']\<rparr>"

definition graph_response :: DhtPeersResponse where
  "graph_response = \<lparr>rs_this_key = ''0'', rs_buckets = [graph_bucket]\<rparr>"

lemma graph_entry:
  assumes "h \<noteq> []" and "list_all hex_char h"
  obtains p where "mapEntry ''0'' 0 graph_bucket (dist_entry h) = Some p" "dht_key p = h" "dht_hexDistance p = h"
  using assms by (simp add: mapEntry_def dist_entry_def demo_entry_def hexToBinary_def)

lemma graph_response_mapped:
  "\<exists>payload. mapDhtPeers graph_response = Some payload \<and> map dht_hexDistance (pl_peers payload) = [''0'', ''5'', ''4'']"
proof -
  have h: "list_all hex_char ''5''" "list_all hex_char ''0''" "list_all hex_char ''4''" by code_simp+
  obtain p where p: "mapEntry ''0'' 0 graph_bucket (dist_entry ''5'') = Some p" "dht_key p = ''5''" "dht_hexDistance p = ''5''"
    by (rule graph_entry [OF _ h(1)]) simp
  obtain q where q: "mapEntry ''0'' 0 graph_bucket (dist_entry ''0'') = Some q" "dht_key q = ''0''" "dht_hexDistance q = ''0''"
    by (rule graph_entry [OF _ h(2)]) simp
  obtain r where r: "mapEntry ''0'' 0 graph_bucket (dist_entry ''4'') = Some r" "dht_key r = ''4''" "dht_hexDistance r = ''4''"
    by (rule graph_entry [OF _ h(3)]) simp
  have "bk_entries graph_bucket = map dist_entry [''5'', ''0'', ''4'']" by (simp add: graph_bucket_def)
  then have "flattenBuckets ''0'' [graph_bucket] = Some [p, q, r]"
    using p(1) q(1) r(1) by (simp add: flattenBuckets_def)
  moreover have "originFirst ''0'' [p, q, r] = [q, p, r]"
    using p(2) q(2) r(2) by (simp add: originFirst_def)
  ultimately show ?thesis using p(3) q(3) r(3) by (simp add: mapDhtPeers_def graph_response_def)
qed

theorem dht_graph_tree_witness:
  "\<exists>peers t m c'. graphOfResponse graph_response (0, 0) = Some (peers, Some t, m, c')
    \<and> full_tree t \<and> map snd (bpaths t) = [1, 2]"
proof -
  obtain payload where p: "mapDhtPeers graph_response = Some payload"
    and h: "map dht_hexDistance (pl_peers payload) = [''0'', ''5'', ''4'']"
    using graph_response_mapped by (elim exE conjE) (rule that)
  have v: "map (of_radix 16) [''0'', ''5'', ''4''] = [0, 5, 4]" by code_simp
  have x: "map xor_distance (pl_peers payload) = [0, 5, 4]"
    using arg_cong [OF h, of "map (of_radix 16)"] unfolding v by (simp add: comp_def)
  have l: "length (pl_peers payload) = 3" using arg_cong [OF x, of length] by simp
  have "list_all (\<lambda>n. n < 2 ^ 256) (map xor_distance (pl_peers payload))" unfolding x by simp
  then have r: "\<forall>p \<in> set (pl_peers payload). xor_distance p < 2 ^ 256"
    unfolding list_all_iff set_map ball_simps .
  have "distinct (map xor_distance (pl_peers payload))" unfolding x by simp
  from dht_graph_tree [OF p _ r this, of 0 0] l obtain peers t m c' where
    t: "graphOfResponse graph_response (0, 0) = Some (peers, Some t, m, c')" "full_tree t"
      "mset peers = mset (pl_peers payload)" "map snd (bpaths t) = [1..<length peers]" by (auto simp: comp_def)
  have "length peers = 3" using arg_cong [OF t(3), of size] l by simp
  with t show ?thesis by (simp add: upt_rec)
qed

definition graph_peer :: "string \<Rightarrow> NetworkNodeDhtPeer" where
  "graph_peer d = demo_peer\<lparr>dht_binaryDistance := d\<rparr>"

text \<open>With one other peer, in the far half of the space, cleaning up replaces the origin by that peer.\<close>

lemma dht_graph_origin_lost:
  "createBinaryTree (map graph_peer [''000'', ''100'']) (0, 0) = (Some (DhtNode (Some 1) [] None None), 0, 2)"
  by code_simp

text \<open>Two peers with the same distance are both lost.\<close>

lemma dht_graph_duplicates_lost:
  "(case createBinaryTree (map graph_peer [''000'', ''100'', ''100'']) (0, 0) of (t, _) \<Rightarrow> map_option bpaths t) = Some []"
  by code_simp

text \<open>The greatest distance is kept from one graph to the next: a small tree is stretched to the depth of the
  greatest tree shown before.\<close>

lemma dht_graph_distance_kept:
  "maxDistance \<le> L \<Longrightarrow> peers_ordered L ps \<Longrightarrow> 3 \<le> length ps \<Longrightarrow>
   maxDistance \<le> fst (snd (createBinaryTree ps (maxDistance, c)))"
  using createBinaryTree_ordered [of L ps maxDistance c] by auto

end
