(* ===== verification/Network_Filters.thy ===== *)
theory Network_Filters
  imports Network_Messages
begin

text \<open>
  The components of the network messages page that drive its reducer (\<open>features/network/messages\<close>): the table of
  available filters and the filter panel, which writes the active filters into the address of the page;
  the message table, which reads them back when the page is opened; the footer with its page buttons; and the side
  panel with the details of a message.

  The tooltips of the filters are a parameter, a function from the value of a filter to its text. A query
  parameter that is not there is \<open>None\<close>; \<open>Number(undefined)\<close> is \<open>NaN\<close>, which the code treats as it treats
  \<open>undefined\<close>, and is \<open>None\<close> too.
\<close>

section \<open>Available filters\<close>

type_synonym filter_table = "string \<times> (NetworkMessagesFilterTypes \<times> string \<times> string) list"

definition filters_transport :: "filter_table list" where
  "filters_transport =
    [(''/multistream/1.0.0'',
       [(STREAM_KIND, ''Multistream'', ''/multistream/1.0.0'')]),
     (''/coda/mplex/1.0.0'',
       [(STREAM_KIND, ''Coda mplex'', ''/coda/mplex/1.0.0'')]),
     (''/coda/yamux/1.0.0'',
       [(STREAM_KIND, ''Coda yamux'', ''/coda/yamux/1.0.0'')])]"

definition filters_noise_kad :: "filter_table list" where
  "filters_noise_kad =
    [(''/noise'',
       [(MESSAGE_KIND, ''Handshake'', ''handshake_payload''),
        (MESSAGE_KIND, ''Failed to decrypt'', ''failed_to_decrypt'')]),
     (''/coda/kad/1.0.0'',
       [(MESSAGE_KIND, ''Put Value'', ''put_value''),
        (MESSAGE_KIND, ''Get Value'', ''get_value''),
        (MESSAGE_KIND, ''Add Provider'', ''add_provider''),
        (MESSAGE_KIND, ''Get Providers'', ''get_providers''),
        (MESSAGE_KIND, ''Find Node'', ''find_node''),
        (MESSAGE_KIND, ''Ping'', ''ping'')])]"

definition filters_mina :: "filter_table list" where
  "filters_mina =
    [(''/mina/peer-exchange'',
       [(STREAM_KIND, ''Peer Exchange'', ''/mina/peer-exchange'')]),
     (''/mina/bitswap-exchange'',
       [(STREAM_KIND, ''Bitswap Exchange'', ''/mina/bitswap-exchange'')]),
     (''/mina/node-status'',
       [(STREAM_KIND, ''Node Status'', ''/mina/node-status'')])]"

definition filters_ipfs :: "filter_table list" where
  "filters_ipfs =
    [(''/ipfs/id/1.0.0'',
       [(STREAM_KIND, ''Identify'', ''/ipfs/id/1.0.0'')]),
     (''/ipfs/id/push/1.0.0'',
       [(STREAM_KIND, ''IPFS Push'', ''/ipfs/id/push/1.0.0'')]),
     (''/p2p/id/delta/1.0.0'',
       [(STREAM_KIND, ''IPFS Delta'', ''/p2p/id/delta/1.0.0'')])]"

definition filters_meshsub :: "filter_table list" where
  "filters_meshsub =
    [(''/meshsub/1.1.0'',
       [(MESSAGE_KIND, ''Subscribe'', ''subscribe''),
        (MESSAGE_KIND, ''Unsubscribe'', ''unsubscribe''),
        (MESSAGE_KIND, ''iWant'', ''meshsub_iwant''),
        (MESSAGE_KIND, ''iHave'', ''meshsub_ihave''),
        (MESSAGE_KIND, ''Prune'', ''meshsub_prune''),
        (MESSAGE_KIND, ''Graft'', ''meshsub_graft''),
        (MESSAGE_KIND, ''Publish New State'', ''publish_new_state''),
        (MESSAGE_KIND, ''Publish Snark Pool Diff'', ''publish_snark_pool_diff''),
        (MESSAGE_KIND, ''Publish Transaction Pool Diff'', ''publish_transaction_pool_diff'')])]"

definition filters_rpcs :: "filter_table list" where
  "filters_rpcs =
    [(''coda/rpcs/0.0.1'',
       [(MESSAGE_KIND, ''Get some initial peers'', ''get_some_initial_peers''),
        (MESSAGE_KIND, ''Get staged ledger aux and pending coinbases at hash'', ''get_staged_ledger_aux_and_pending_coinbases_at_hash''),
        (MESSAGE_KIND, ''Answer sync ledger query'', ''answer_sync_ledger_query''),
        (MESSAGE_KIND, ''Get ancestry'', ''get_ancestry''),
        (MESSAGE_KIND, ''Get best tip'', ''get_best_tip''),
        (MESSAGE_KIND, ''Get node status'', ''get_node_status''),
        (MESSAGE_KIND, ''Get transition chain proof'', ''get_transition_chain_proof''),
        (MESSAGE_KIND, ''Get transition chain'', ''get_transition_chain''),
        (MESSAGE_KIND, ''Get transition knowledge'', ''get_transition_knowledge''),
        (MESSAGE_KIND, ''Get epoch ledger'', ''get_epoch_ledger''),
        (MESSAGE_KIND, ''Versioned rpc menu'', ''__Versioned_rpc.Menu''),
        (MESSAGE_KIND, ''Ban notify'', ''ban_notify'')])]"

definition filters_unknown :: "filter_table list" where
  "filters_unknown =
    [(''unknown'',
       [(STREAM_KIND, ''Unknown'', ''unknown'')])]"

definition filter_tables :: "filter_table list list" where
  "filter_tables = [filters_transport, filters_noise_kad, filters_mina, filters_ipfs, filters_meshsub, filters_rpcs,
     filters_unknown]"

record NetworkMessagesFilterCategory =
  fc_name :: string
  fc_filters :: "NetworkMessagesFilter list"

definition filter_of ::
  "(string \<Rightarrow> string) \<Rightarrow> NetworkMessagesFilterTypes \<times> string \<times> string \<Rightarrow> NetworkMessagesFilter" where
  "filter_of tooltip = (\<lambda>(ty, display, v).
     \<lparr>nf_type = ty, nf_display = display, nf_value = FString v, nf_tooltip = Some (tooltip v)\<rparr>)"

definition networkAvailableFilters :: "(string \<Rightarrow> string) \<Rightarrow> NetworkMessagesFilterCategory list list" where
  "networkAvailableFilters tooltip =
     map (map (\<lambda>(name, fs). \<lparr>fc_name = name, fc_filters = map (filter_of tooltip) fs\<rparr>)) filter_tables"

section \<open>The filter panel\<close>

text \<open>The active filters may hold \<open>undefined\<close> (below), whose type cannot be read.\<close>

definition active_types :: "NetworkMessagesFilter option list \<Rightarrow> js_error + NetworkMessagesFilter list" where
  "active_types activeFilters = sum_map (\<lambda>f. case f of None \<Rightarrow> Inl TypeError | Some x \<Rightarrow> Inr x) activeFilters"

fun truthy_value :: "filter_value \<Rightarrow> bool" where
  "truthy_value (FString s) = (s \<noteq> [])"
| "truthy_value (FNumber i) = (i \<noteq> 0)"

definition kind_param :: "NetworkMessagesFilterTypes \<Rightarrow> NetworkMessagesFilter list \<Rightarrow> string" where
  "kind_param ty fs = join_with '','' (map (\<lambda>f. filter_value_string (nf_value f)) (filter (\<lambda>f. nf_type f = ty) fs))"

definition text_param :: "string \<Rightarrow> string \<Rightarrow> (string \<times> string) list" where
  "text_param key v = (if v \<noteq> [] then [(key, v)] else [])"

definition addr_param :: "NetworkMessagesFilter list \<Rightarrow> (string \<times> string) list" where
  "addr_param fs = (case List.find (\<lambda>f. nf_type f = ADDRESS) fs of
      Some f \<Rightarrow> if truthy_value (nf_value f) then [(''addr'', filter_value_string (nf_value f))] else []
    | None \<Rightarrow> [])"

definition time_params :: "TimestampInterval option \<Rightarrow> (string \<times> string) list" where
  "time_params timestamp = (case timestamp of
      Some ts \<Rightarrow> if truthy_num (ti_from ts)
        then (''from'', show_int (the (ti_from ts))) # (case ti_to ts of Some t \<Rightarrow> [(''to'', show_int t)] | None \<Rightarrow> [])
        else []
    | None \<Rightarrow> [])"

definition addFiltersToRoute ::
  "NetworkMessagesFilter option list \<Rightarrow> TimestampInterval option \<Rightarrow> string option
     \<Rightarrow> js_error + (string \<times> string) list" where
  "addFiltersToRoute activeFilters timestamp activeNodeName =
     (case active_types activeFilters of
        Inl e \<Rightarrow> Inl e
      | Inr fs \<Rightarrow> Inr (text_param ''stream_kind'' (kind_param STREAM_KIND fs)
          @ text_param ''message_kind'' (kind_param MESSAGE_KIND fs)
          @ addr_param fs
          @ time_params timestamp
          @ (case activeNodeName of Some n \<Rightarrow> text_param ''node'' n | None \<Rightarrow> [])))"

definition togglePayload :: "NetworkMessagesFilter list \<Rightarrow> bool \<Rightarrow> filterPayload" where
  "togglePayload filters add = \<lparr>fp_filters = filters, fp_add = add, fp_timestamp = None, fp_direction = None\<rparr>"

definition toggleFilter :: "NetworkMessagesFilter list \<Rightarrow> NetworkMessagesFilter \<Rightarrow> NetworkMessagesActions" where
  "toggleFilter activeFilters f = NETWORK_TOGGLE_FILTER (togglePayload [f] (f \<notin> set activeFilters))"

definition filterByCategory ::
  "NetworkMessagesFilter list \<Rightarrow> NetworkMessagesFilterCategory \<Rightarrow> NetworkMessagesActions" where
  "filterByCategory activeFilters category =
     NETWORK_TOGGLE_FILTER (togglePayload (fc_filters category)
       (\<not> list_all (\<lambda>f. f \<in> set activeFilters) (fc_filters category)))"

section \<open>The message table\<close>

definition getFilter :: "NetworkMessage \<Rightarrow> NetworkMessagesFilter" where
  "getFilter message =
     \<lparr>nf_type = ADDRESS, nf_display = nm_address message, nf_value = FString (nm_address message), nf_tooltip = None\<rparr>"

definition filterByAddress :: "NetworkMessagesFilter list \<Rightarrow> NetworkMessage \<Rightarrow> NetworkMessagesActions" where
  "filterByAddress activeFilters message =
     NETWORK_TOGGLE_FILTER (togglePayload [getFilter message]
       (\<not> (\<exists>f \<in> set activeFilters. nf_value f = FString (nm_address message))))"

definition clearFilters :: "NetworkMessagesFilter list \<Rightarrow> NetworkMessagesActions" where
  "clearFilters activeFilters = NETWORK_TOGGLE_FILTER (togglePayload activeFilters False)"

definition availableFilters :: "(string \<Rightarrow> string) \<Rightarrow> NetworkMessagesFilter list" where
  "availableFilters tooltip = concat (map (\<lambda>cs. concat (map fc_filters cs)) (networkAvailableFilters tooltip))"

text \<open>A value of the address that no available filter has becomes \<open>undefined\<close>.\<close>

definition kind_filters ::
  "(string \<Rightarrow> string) \<Rightarrow> string option \<Rightarrow> NetworkMessagesFilter option list" where
  "kind_filters tooltip param = (case param of
      None \<Rightarrow> []
    | Some s \<Rightarrow> map (\<lambda>v. List.find (\<lambda>f. nf_value f = FString v) (availableFilters tooltip)) (js_split (CHR '','') s))"

definition getFiltersFromTheRoute ::
  "(string \<Rightarrow> string) \<Rightarrow> (string \<Rightarrow> string option) \<Rightarrow> NetworkMessagesFilter option list" where
  "getFiltersFromTheRoute tooltip queryParams =
     (case queryParams ''addr'' of
        Some address \<Rightarrow> if address \<noteq> []
          then [Some \<lparr>nf_type = ADDRESS, nf_display = address, nf_value = FString address, nf_tooltip = None\<rparr>] else []
      | None \<Rightarrow> [])
     @ kind_filters tooltip (queryParams ''stream_kind'')
     @ kind_filters tooltip (queryParams ''message_kind'')"

text \<open>What the table dispatches when the page is opened. \<open>route_number\<close> is \<open>Number\<close> on the integers that identify
  messages and times.\<close>

definition route_number :: "string option \<Rightarrow> int option" where
  "route_number s = (case s of
      None \<Rightarrow> None
    | Some t \<Rightarrow> (case js_Number t of Finite q \<Rightarrow> Some \<lfloor>q\<rfloor> | NaN \<Rightarrow> None))"

datatype route_dispatch =
    Route_specific int "NetworkMessagesFilter option list" TimestampInterval "NetworkMessagesDirection option"
  | Route_toggle "NetworkMessagesFilter option list" TimestampInterval "NetworkMessagesDirection option"
  | Route_timestamp TimestampInterval "NetworkMessagesDirection option"
  | Route_messages

definition table_listenToRouteChange ::
  "(string \<Rightarrow> string) \<Rightarrow> string option \<Rightarrow> (string \<times> string) list \<Rightarrow> route_dispatch" where
  "table_listenToRouteChange tooltip messageId queryParams =
     (let idFromRoute = route_number messageId;
          params = map_of queryParams
      in if idFromRoute \<noteq> None \<or> filter (\<lambda>(key, _). key \<noteq> ''node'') queryParams \<noteq> []
         then let filters = getFiltersFromTheRoute tooltip params;
                  timestamp = \<lparr>ti_from = route_number (params ''from''), ti_to = route_number (params ''to'')\<rparr>;
                  dir = (case params ''from'' of Some t \<Rightarrow> if t \<noteq> [] then Some FORWARD else None | None \<Rightarrow> None)
              in case idFromRoute of
                   Some i \<Rightarrow> Route_specific i filters timestamp dir
                 | None \<Rightarrow> if filters \<noteq> [] then Route_toggle filters timestamp dir else Route_timestamp timestamp dir
         else Route_messages)"

text \<open>The row that is scrolled to: the one of the address (an identifier \<open>0\<close> counts as none), else the last.\<close>

definition table_scrollToElement :: "int option \<Rightarrow> NetworkMessage list \<Rightarrow> nat option" where
  "table_scrollToElement idFromRoute rows =
     (if truthy_num idFromRoute then find_index (\<lambda>r. Some (nm_id r) = idFromRoute) rows
      else find_index (\<lambda>r. nm_id r = nm_id (last rows)) rows)"

definition table_onRowClick :: "NetworkMessage option \<Rightarrow> NetworkMessage \<Rightarrow> NetworkMessagesActions list" where
  "table_onRowClick activeRow row =
     (if Some (nm_id row) \<noteq> map_option nm_id activeRow then [NETWORK_SET_ACTIVE_ROW (Some row)] else [])"

section \<open>The footer\<close>

definition start_id :: "NetworkMessagesState \<Rightarrow> int option" where
  "start_id state = map_option nm_id (ap_start (nms_activePage state))"

definition end_id :: "NetworkMessagesState \<Rightarrow> int option" where
  "end_id state = map_option nm_id (ap_end (nms_activePage state))"

text \<open>\<open>===\<close> between a field that may be \<open>null\<close> and an identifier that may be \<open>undefined\<close>.\<close>

definition js_same :: "int js \<Rightarrow> int option \<Rightarrow> bool" where
  "js_same x y \<longleftrightarrow> x = js_of_option y"

definition footer_isFirstPage :: "NetworkMessagesState \<Rightarrow> bool" where
  "footer_isFirstPage state =
     (let ap = nms_activePage state
      in start_id state = Some 0
         \<or> js_falsy (ap_firstPageIdWithTimestamp ap) \<and> length (nms_messages state) < nms_limit state
         \<or> js_same (ap_firstPageIdWithFilters ap) (start_id state)
         \<or> \<not> js_falsy (ap_firstPageIdWithTimestamp ap)
           \<and> (case (start_id state, ap_firstPageIdWithTimestamp ap) of (Some i, Val t) \<Rightarrow> i \<le> t | _ \<Rightarrow> False))"

definition footer_isLastPage :: "NetworkMessagesState \<Rightarrow> js_error + bool" where
  "footer_isLastPage state =
     (let ap = nms_activePage state
      in if nms_stream state
            \<or> js_falsy (ap_firstPageIdWithTimestamp ap)
              \<and> (nms_pages state = [] \<or> end_id state = last (nms_pages state))
         then Inr True
         else case end_id state of
             None \<Rightarrow> Inl TypeError
           | Some i \<Rightarrow> Inr (ap_lastPageIdWithFilters ap = Val i \<or> ap_lastPageIdWithTimestamp ap = Val i))"

definition previousPage :: "NetworkMessagesState \<Rightarrow> TimestampInterval option \<Rightarrow> js_error + NetworkMessagesActions" where
  "previousPage state currentTimestamp = (case start_id state of
      None \<Rightarrow> Inl TypeError
    | Some i \<Rightarrow> Inr (case currentTimestamp of
        Some ts \<Rightarrow> NETWORK_GET_PAGINATED_MESSAGES (Some (i - int (nms_limit state))) (Some FORWARD)
          (Some \<lparr>ti_from = None, ti_to = ti_to ts\<rparr>)
      | None \<Rightarrow> NETWORK_GET_PAGINATED_MESSAGES (Some (i - 1)) (Some REVERSE) None))"

definition nextPage :: "NetworkMessagesState \<Rightarrow> TimestampInterval option \<Rightarrow> js_error + NetworkMessagesActions" where
  "nextPage state currentTimestamp = (case end_id state of
      None \<Rightarrow> Inl TypeError
    | Some i \<Rightarrow> Inr (NETWORK_GET_PAGINATED_MESSAGES (Some (i + 1)) (Some FORWARD)
        (map_option (\<lambda>ts. \<lparr>ti_from = None, ti_to = ti_to ts\<rparr>) currentTimestamp)))"

definition firstPage :: "NetworkMessagesState \<Rightarrow> TimestampInterval option \<Rightarrow> NetworkMessagesActions" where
  "firstPage state currentTimestamp = (case currentTimestamp of
      Some ts \<Rightarrow> NETWORK_GET_PAGINATED_MESSAGES (js_option (ap_firstPageIdWithTimestamp (nms_activePage state)))
        (Some FORWARD) (Some \<lparr>ti_from = None, ti_to = ti_to ts\<rparr>)
    | None \<Rightarrow> NETWORK_GET_PAGINATED_MESSAGES (Some 0) (Some FORWARD) None)"

definition lastPage :: "NetworkMessagesState \<Rightarrow> TimestampInterval option \<Rightarrow> NetworkMessagesActions" where
  "lastPage state currentTimestamp = (case currentTimestamp of
      Some ts \<Rightarrow> NETWORK_GET_PAGINATED_MESSAGES None (Some REVERSE) (Some \<lparr>ti_from = ti_to ts, ti_to = ti_from ts\<rparr>)
    | None \<Rightarrow> NETWORK_GET_PAGINATED_MESSAGES
        (if nms_pages state = [] then None else last (nms_pages state)) (Some REVERSE) None)"

definition clearTimestampInterval :: NetworkMessagesActions where
  "clearTimestampInterval = NETWORK_SET_TIMESTAMP_INTERVAL \<lparr>ti_from = None, ti_to = None\<rparr> (Some REVERSE)"

text \<open>The text of the interval; the date pipe is a parameter that takes a time and a format.\<close>

definition footer_activeInterval :: "(int \<Rightarrow> string \<Rightarrow> string) \<Rightarrow> int \<Rightarrow> int \<Rightarrow> string" where
  "footer_activeInterval datePipe from to =
     (let f = datePipe (from * 1000) ''MMM d, H:mm:ss'';
          t = datePipe (to * 1000) ''MMM d, H:mm:ss'';
          t' = (if hd (js_split (CHR '','') f) = hd (js_split (CHR '','') t) then datePipe (to * 1000) ''H:mm:ss'' else t)
      in f @ '' - '' @ t')"

section \<open>The details of a message\<close>

text \<open>\<open>getFullMessage$\<close> is a \<open>mergeMap\<close>: every request stays in flight until it is answered, and an error ends
  them all. \<open>None\<close> for an answer to a request that is not in flight.\<close>

datatype full_event = Full_ask int | Full_answer int json | Full_error string

fun getFullMessage_step :: "int list \<Rightarrow> full_event \<Rightarrow> (int list \<times> NetworkMessagesActions list) option" where
  "getFullMessage_step pending (Full_ask i) = Some (pending @ [i], [])"
| "getFullMessage_step pending (Full_answer i v) =
     (if i \<in> set pending then Some (remove1 i pending, [NETWORK_GET_FULL_MESSAGE_SUCCESS (Some v)]) else None)"
| "getFullMessage_step pending (Full_error msg) =
     (if pending = [] then None else Some ([], [NETWORK_GET_FULL_MESSAGE_SUCCESS (Some (JStr msg))]))"

definition getMessageHex_effect ::
  "string \<Rightarrow> (unit, NetworkMessagesActions, int, string, NetworkMessagesActions dispatched) effect" where
  "getMessageHex_effect now =
     \<lparr>on_action = (\<lambda>action f. case action of NETWORK_GET_MESSAGE_HEX i \<Rightarrow> (f, Switch_request i) | _ \<Rightarrow> (f, Filtered)),
      on_value = (\<lambda>_ hex f. (f, [Dispatch (NETWORK_GET_MESSAGE_HEX_SUCCESS hex)])),
      on_error = (\<lambda>e f. (f, catchErrorAndRepeat now DEBUGGER (NETWORK_GET_MESSAGE_HEX_SUCCESS ''Error fetching hex'') e))\<rparr>"

definition getConnection_effect ::
  "string \<Rightarrow> (unit, NetworkMessagesActions, int, NetworkMessageConnection, NetworkMessagesActions dispatched) effect" where
  "getConnection_effect now =
     \<lparr>on_action = (\<lambda>action f. case action of NETWORK_GET_CONNECTION i \<Rightarrow> (f, Switch_request i) | _ \<Rightarrow> (f, Filtered)),
      on_value = (\<lambda>_ c f. (f, [Dispatch (NETWORK_GET_CONNECTION_SUCCESS (Inr c))])),
      on_error = (\<lambda>e f. (f, catchErrorAndRepeat now DEBUGGER
        (NETWORK_GET_CONNECTION_SUCCESS (Inl ''Error fetching connection'')) e))\<rparr>"

text \<open>The side panel: the hexadecimal text that is shown, and the file that is saved.\<close>

definition getActiveRowHexDisplayedValue :: "string \<Rightarrow> string" where
  "getActiveRowHexDisplayedValue hex =
     (if length hex < 600 then hex else take 500 hex @ ''...'' @ drop (length hex - 9) hex)"

definition jsonTooBig :: "json \<Rightarrow> bool" where
  "jsonTooBig message = (case message of
      JNum n \<Rightarrow> n > 10485760
    | JStr t \<Rightarrow> (case js_Number t of Finite q \<Rightarrow> q > 10485760 | NaN \<Rightarrow> False)
    | _ \<Rightarrow> False)"

definition download_fileName :: "int \<Rightarrow> string" where
  "download_fileName selectedTabIndex = (if selectedTabIndex = 2 then ''message_hex.txt'' else ''network_data.json'')"

text \<open>The address that is downloaded when the message is too big to show; otherwise the details at hand are saved.\<close>

definition downloadJson_url :: "string \<Rightarrow> bool \<Rightarrow> int \<Rightarrow> NetworkMessage \<Rightarrow> string option" where
  "downloadJson_url debuggerURL tooBig selectedTabIndex activeRow =
     (if tooBig \<and> selectedTabIndex = 1 then Some (debuggerURL @ ''/message/'' @ show_int (nm_id activeRow)) else None)"

definition downloadBinary_url :: "string \<Rightarrow> NetworkMessage \<Rightarrow> string" where
  "downloadBinary_url debuggerURL activeRow = debuggerURL @ ''/message_bin/'' @ show_int (nm_id activeRow)"

section \<open>Facts on the table\<close>

definition flat_filters :: "(NetworkMessagesFilterTypes \<times> string \<times> string) list" where
  "flat_filters = concat (map (\<lambda>cs. concat (map snd cs)) filter_tables)"

lemma availableFilters_flat: "availableFilters tooltip = map (filter_of tooltip) flat_filters"
  by (simp add: availableFilters_def networkAvailableFilters_def flat_filters_def map_concat comp_def split_def)

lemma flat_filters_distinct: "distinct (map (\<lambda>(_, _, v). v) flat_filters)"
  by code_simp

lemma flat_filters_plain: "list_all (\<lambda>(ty, _, v). v \<noteq> [] \<and> CHR '','' \<notin> set v \<and> ty \<noteq> ADDRESS) flat_filters"
  by code_simp

lemma available_value:
  assumes "f \<in> set (availableFilters tooltip)"
  obtains v where "nf_value f = FString v" "v \<noteq> []" "CHR '','' \<notin> set v" "nf_type f \<noteq> ADDRESS"
  using assms flat_filters_plain by (auto simp: availableFilters_flat filter_of_def list_all_iff)

lemma find_available:
  assumes "f \<in> set (availableFilters tooltip)" and "nf_value f = FString v"
  shows "List.find (\<lambda>g. nf_value g = FString v) (availableFilters tooltip) = Some f"
proof -
  have inj: "inj_on (\<lambda>(_, _, v). v) (set flat_filters)" using flat_filters_distinct by (simp add: distinct_map)
  have same: "(a, b) = (a', b')" if "(a, b, v) \<in> set flat_filters" "(a', b', v) \<in> set flat_filters" for a b a' b'
    using inj_onD [OF inj _ that] by simp
  have "g = f" if "g \<in> set (availableFilters tooltip)" "nf_value g = FString v" for g
    using assms that same by (fastforce simp: availableFilters_flat filter_of_def)
  moreover obtain g where "List.find (\<lambda>g. nf_value g = FString v) (availableFilters tooltip) = Some g"
    using assms by (cases "List.find (\<lambda>g. nf_value g = FString v) (availableFilters tooltip)") (auto simp: find_None_iff)
  ultimately show ?thesis by (auto dest: find_Some_in)
qed

section \<open>Numbers in the address\<close>

lemma js_trim_id: "s \<noteq> [] \<Longrightarrow> \<not> js_space (hd s) \<Longrightarrow> \<not> js_space (last s) \<Longrightarrow> js_trim s = s"
proof -
  have "t \<noteq> [] \<Longrightarrow> \<not> js_space (hd t) \<Longrightarrow> dropWhile js_space t = t" for t by (cases t) auto
  then show "s \<noteq> [] \<Longrightarrow> \<not> js_space (hd s) \<Longrightarrow> \<not> js_space (last s) \<Longrightarrow> js_trim s = s"
    by (simp add: js_trim_def hd_rev)
qed

lemma digit_not_space: "js_isDigit c \<Longrightarrow> \<not> js_space c" "js_isDigit c \<Longrightarrow> c \<noteq> CHR 0x2D \<and> c \<noteq> CHR 0x2B"
  by (auto simp: js_isDigit_def js_space_def Let_def)

lemma dec_ends: "js_isDigit (hd (dec n))" "js_isDigit (last (dec n))"
  using dec_digits [of n] by (simp_all add: list_all_iff)

lemma js_Number_show_int: "js_Number (show_int i) = Finite (of_int i)"
proof -
  have take: "takeWhile js_isDigit (dec n) = dec n" for n using dec_digits [of n] by (simp add: list_all_iff)
  have nat: "js_Number (dec n) = Finite (of_nat n)" for n
  proof -
    obtain c cs where c: "dec n = c # cs" by (cases "dec n") auto
    then have "c \<noteq> CHR 0x2D" "c \<noteq> CHR 0x2B" using dec_ends(1) [of n] digit_not_space(2) by auto
    moreover have "js_trim (dec n) = dec n" using dec_ends digit_not_space(1) by (intro js_trim_id) auto
    moreover have "of_radix 10 (dec n) = n" by (simp add: of_to_radix)
    ultimately show ?thesis using take [of n] by (simp add: js_Number_def Let_def c)
  qed
  have neg: "js_Number (CHR 0x2D # dec n) = Finite (- of_nat n)" for n
  proof -
    have "js_trim (CHR 0x2D # dec n) = CHR 0x2D # dec n"
      using dec_ends(2) [of n] digit_not_space(1) by (intro js_trim_id) (auto simp: js_space_def)
    moreover have "of_radix 10 (dec n) = n" by (simp add: of_to_radix)
    ultimately show ?thesis by (simp add: js_Number_def Let_def take del: takeWhile_eq_all_conv)
  qed
  show ?thesis by (cases "i < 0") (simp_all add: show_int_def nat neg)
qed

lemma route_number_show_int [simp]: "route_number (Some (show_int i)) = Some i"
  by (simp add: route_number_def js_Number_show_int)

lemma show_int_not_Nil [simp]: "show_int i \<noteq> []"
  by (simp add: show_int_def)

section \<open>Filters in the address\<close>

lemma kind_filters_param:
  assumes "\<forall>f \<in> set fs. nf_type f = ty \<longrightarrow> f \<in> set (availableFilters tooltip)"
  shows "kind_filters tooltip (if kind_param ty fs \<noteq> [] then Some (kind_param ty fs) else None)
    = map Some (filter (\<lambda>f. nf_type f = ty) fs)"
proof -
  define gs where "gs = filter (\<lambda>f. nf_type f = ty) fs"
  define vs where "vs = map (\<lambda>f. filter_value_string (nf_value f)) gs"
  have g: "g \<in> set (availableFilters tooltip)" if "g \<in> set gs" for g using assms that by (auto simp: gs_def)
  have k: "kind_param ty fs = join_with '','' vs" by (simp add: kind_param_def gs_def vs_def)
  show ?thesis
  proof (cases "gs = []")
    case True
    then show ?thesis by (simp add: k vs_def kind_filters_def gs_def [symmetric])
  next
    case False
    have plain: "w \<noteq> [] \<and> CHR '','' \<notin> set w" if "w \<in> set vs" for w
    proof -
      from that obtain f where f: "f \<in> set gs" "w = filter_value_string (nf_value f)" by (auto simp: vs_def)
      from g [OF f(1)] show ?thesis by (rule available_value) (simp add: f(2))
    qed
    obtain v ws where vs: "vs = v # ws" using False by (cases gs) (auto simp: vs_def)
    with plain have ne: "join_with '','' vs \<noteq> []" by (cases ws) auto
    have "js_split (CHR '','') (join_with '','' vs) = vs" using vs plain by (intro js_split_join) auto
    moreover have "List.find (\<lambda>f. nf_value f = FString (filter_value_string (nf_value g))) (availableFilters tooltip) = Some g"
      if "g \<in> set gs" for g
      using find_available [OF g [OF that]] by (rule available_value [OF g [OF that]]) simp
    ultimately show ?thesis using ne by (simp add: k kind_filters_def vs_def gs_def [symmetric])
  qed
qed

text \<open>The filters that the panel and the table can make active.\<close>

definition page_filter :: "(string \<Rightarrow> string) \<Rightarrow> NetworkMessagesFilter \<Rightarrow> bool" where
  "page_filter tooltip f \<longleftrightarrow> f \<in> set (availableFilters tooltip)
     \<or> (\<exists>a. a \<noteq> [] \<and> f = \<lparr>nf_type = ADDRESS, nf_display = a, nf_value = FString a, nf_tooltip = None\<rparr>)"

text \<open>The order in which the filters come back, of several addresses only the first.\<close>

definition route_order :: "NetworkMessagesFilter list \<Rightarrow> NetworkMessagesFilter list" where
  "route_order fs = take 1 (filter (\<lambda>f. nf_type f = ADDRESS) fs) @ filter (\<lambda>f. nf_type f = STREAM_KIND) fs
     @ filter (\<lambda>f. nf_type f = MESSAGE_KIND) fs"

lemma active_types_Some: "active_types (map Some fs) = Inr fs"
  by (induction fs) (auto simp: active_types_def)

lemma take_filter_find: "take (Suc 0) (filter P xs) = (case List.find P xs of Some x \<Rightarrow> [x] | None \<Rightarrow> [])"
  by (induction xs) auto

lemma addFilters_params:
  assumes "addFiltersToRoute (map Some fs) ts node = Inr params"
  shows "map_of params ''stream_kind'' = (if kind_param STREAM_KIND fs \<noteq> [] then Some (kind_param STREAM_KIND fs) else None)"
    "map_of params ''message_kind'' = (if kind_param MESSAGE_KIND fs \<noteq> [] then Some (kind_param MESSAGE_KIND fs) else None)"
    "map_of params ''addr'' = (case List.find (\<lambda>f. nf_type f = ADDRESS) fs of
       Some f \<Rightarrow> if truthy_value (nf_value f) then Some (filter_value_string (nf_value f)) else None | None \<Rightarrow> None)"
    "map_of params ''from'' = (case ts of Some t \<Rightarrow> if truthy_num (ti_from t) then Some (show_int (the (ti_from t))) else None
       | None \<Rightarrow> None)"
    "route_number (map_of params ''from'') = (case ts of Some t \<Rightarrow> if truthy_num (ti_from t) then ti_from t else None | None \<Rightarrow> None)"
    "route_number (map_of params ''to'') = (case ts of Some t \<Rightarrow> if truthy_num (ti_from t) then ti_to t else None | None \<Rightarrow> None)"
proof -
  let ?node = "case node of Some n \<Rightarrow> text_param ''node'' n | None \<Rightarrow> []"
  have p: "map_of params = map_of ?node ++ map_of (time_params ts) ++ map_of (addr_param fs)
      ++ map_of (text_param ''message_kind'' (kind_param MESSAGE_KIND fs))
      ++ map_of (text_param ''stream_kind'' (kind_param STREAM_KIND fs))"
    using assms by (auto simp: addFiltersToRoute_def active_types_Some)
  have t: "map_of (text_param key v) k = (if k = key \<and> v \<noteq> [] then Some v else None)" for key v k
    by (simp add: text_param_def)
  have n: "map_of ?node k = None" if "k \<noteq> ''node''" for k using that by (auto simp: t split: option.split)
  have a: "map_of (addr_param fs) k = (if k = ''addr'' then (case List.find (\<lambda>f. nf_type f = ADDRESS) fs of
      Some f \<Rightarrow> if truthy_value (nf_value f) then Some (filter_value_string (nf_value f)) else None | None \<Rightarrow> None) else None)" for k
    by (auto simp: addr_param_def split: option.split)
  have o: "map_of (time_params ts) k = None" if "k \<noteq> ''from''" "k \<noteq> ''to''" for k
    using that by (auto simp: time_params_def split: option.split)
  note rules = p map_add_def t n a o
  show "map_of params ''stream_kind'' = (if kind_param STREAM_KIND fs \<noteq> [] then Some (kind_param STREAM_KIND fs) else None)"
    by (simp add: rules)
  show "map_of params ''message_kind'' = (if kind_param MESSAGE_KIND fs \<noteq> [] then Some (kind_param MESSAGE_KIND fs) else None)"
    by (simp add: rules)
  show "map_of params ''addr'' = (case List.find (\<lambda>f. nf_type f = ADDRESS) fs of
       Some f \<Rightarrow> if truthy_value (nf_value f) then Some (filter_value_string (nf_value f)) else None | None \<Rightarrow> None)"
    by (simp add: rules split: option.split)
  show f: "map_of params ''from'' = (case ts of Some t \<Rightarrow> if truthy_num (ti_from t) then Some (show_int (the (ti_from t)))
       else None | None \<Rightarrow> None)"
    by (simp add: rules time_params_def split: option.split)
  show "route_number (map_of params ''from'') = (case ts of Some t \<Rightarrow> if truthy_num (ti_from t) then ti_from t else None
       | None \<Rightarrow> None)"
    by (auto simp: f route_number_def [of None] split: option.split elim!: truthy_num.elims)
  show "route_number (map_of params ''to'') = (case ts of Some t \<Rightarrow> if truthy_num (ti_from t) then ti_to t else None
       | None \<Rightarrow> None)"
    by (simp add: rules time_params_def route_number_def [of None] split: option.split)
qed

lemma getFiltersFromTheRoute_params:
  assumes "\<forall>f \<in> set fs. page_filter tooltip f" and "addFiltersToRoute (map Some fs) ts node = Inr params"
  shows "getFiltersFromTheRoute tooltip (map_of params) = map Some (route_order fs)"
proof -
  have avail: "\<forall>f \<in> set fs. nf_type f = ty \<longrightarrow> f \<in> set (availableFilters tooltip)" if "ty \<noteq> ADDRESS" for ty
    using assms(1) that by (auto simp: page_filter_def)
  have addr: "(case map_of params ''addr'' of Some address \<Rightarrow> if address \<noteq> []
        then [Some \<lparr>nf_type = ADDRESS, nf_display = address, nf_value = FString address, nf_tooltip = None\<rparr>] else []
      | None \<Rightarrow> []) = map Some (take 1 (filter (\<lambda>f. nf_type f = ADDRESS) fs))"
  proof (cases "List.find (\<lambda>f. nf_type f = ADDRESS) fs")
    case (Some f)
    with find_Some_in [OF Some] assms(1) obtain a where "a \<noteq> []"
      "f = \<lparr>nf_type = ADDRESS, nf_display = a, nf_value = FString a, nf_tooltip = None\<rparr>"
      by (auto simp: page_filter_def elim: available_value)
    with Some show ?thesis by (simp add: addFilters_params [OF assms(2)] take_filter_find)
  qed (simp add: addFilters_params [OF assms(2)] take_filter_find)
  show ?thesis
    unfolding getFiltersFromTheRoute_def addr addFilters_params(1,2) [OF assms(2)]
    using kind_filters_param [OF avail, of STREAM_KIND] kind_filters_param [OF avail, of MESSAGE_KIND]
    by (simp add: route_order_def)
qed

text \<open>C21. The filters of the page survive in its address: opening the address that the filter panel writes adds
  the same filters (of several addresses only the first), with the same time interval when its beginning is set.\<close>

theorem network_filters_roundtrip:
  assumes "\<forall>f \<in> set fs. page_filter tooltip f" and "fs \<noteq> []"
  shows "\<exists>params. addFiltersToRoute (map Some fs) (Some ts) node = Inr params
    \<and> table_listenToRouteChange tooltip None params =
        Route_toggle (map Some (route_order fs))
          (if truthy_num (ti_from ts) then ts else \<lparr>ti_from = None, ti_to = None\<rparr>)
          (if truthy_num (ti_from ts) then Some FORWARD else None)"
proof -
  obtain params where p: "addFiltersToRoute (map Some fs) (Some ts) node = Inr params"
    by (simp add: addFiltersToRoute_def active_types_Some)
  have "nf_type f \<in> {STREAM_KIND, MESSAGE_KIND, ADDRESS}" for f by (cases "nf_type f") auto
  then have ne: "route_order fs \<noteq> []"
    using assms(2) by (cases fs) (auto simp: route_order_def filter_empty_conv)
  then have "getFiltersFromTheRoute tooltip (map_of params) \<noteq> []"
    using getFiltersFromTheRoute_params [OF assms(1) p] by simp
  then obtain k v where "map_of params k = Some v" "k \<noteq> ''node''"
    by (auto simp: getFiltersFromTheRoute_def kind_filters_def split: option.splits)
  then have nonempty: "filter (\<lambda>(key, _). key \<noteq> ''node'') params \<noteq> []"
    by (auto simp: filter_empty_conv dest!: map_of_SomeD)
  show ?thesis
    using p nonempty ne addFilters_params(4-6) [OF p] getFiltersFromTheRoute_params [OF assms(1) p]
    by (cases "truthy_num (ti_from ts)") (simp_all add: table_listenToRouteChange_def route_number_def [of None] Let_def)
qed

definition addr_filter :: NetworkMessagesFilter where
  "addr_filter = \<lparr>nf_type = ADDRESS, nf_display = ''1.2.3.4:80'', nf_value = FString ''1.2.3.4:80'', nf_tooltip = None\<rparr>"

definition ping_filter :: NetworkMessagesFilter where
  "ping_filter = filter_of (\<lambda>_. []) (MESSAGE_KIND, ''Ping'', ''ping'')"

lemma ping_filter_available: "ping_filter \<in> set (availableFilters (\<lambda>_. []))"
proof -
  have "(MESSAGE_KIND, ''Ping'', ''ping'') \<in> set flat_filters" by code_simp
  then show ?thesis by (simp add: availableFilters_flat ping_filter_def)
qed

theorem network_filters_roundtrip_witness:
  "\<exists>params. addFiltersToRoute [Some ping_filter, Some addr_filter] (Some \<lparr>ti_from = Some 5, ti_to = Some 9\<rparr>) None = Inr params
    \<and> table_listenToRouteChange (\<lambda>_. []) None params =
        Route_toggle [Some addr_filter, Some ping_filter] \<lparr>ti_from = Some 5, ti_to = Some 9\<rparr> (Some FORWARD)"
proof -
  have f: "\<forall>f \<in> set [ping_filter, addr_filter]. page_filter (\<lambda>_. []) f"
    using ping_filter_available by (simp add: page_filter_def addr_filter_def)
  have "route_order [ping_filter, addr_filter] = [addr_filter, ping_filter]"
    by (simp add: route_order_def ping_filter_def addr_filter_def filter_of_def)
  then show ?thesis
    using network_filters_roundtrip [OF f, of "\<lparr>ti_from = Some 5, ti_to = Some 9\<rparr>" None] by simp
qed

text \<open>A kind that the panel does not offer comes back from the address as \<open>undefined\<close>; once it is among the
  active filters, the panel fails when it writes the address.\<close>

lemma unknown_kind_undefined:
  "getFiltersFromTheRoute (\<lambda>_. []) (map_of [(''message_kind'', ''no_such_kind'')]) = [None]"
  "addFiltersToRoute [None] ts node = Inl TypeError"
proof -
  have "list_all (\<lambda>(_, _, v). v \<noteq> ''no_such_kind'') flat_filters" by code_simp
  then have "List.find (\<lambda>f. nf_value f = FString ''no_such_kind'') (availableFilters (\<lambda>_. [])) = None"
    by (auto simp: find_None_iff availableFilters_flat filter_of_def list_all_iff)
  then show "getFiltersFromTheRoute (\<lambda>_. []) (map_of [(''message_kind'', ''no_such_kind'')]) = [None]"
    by (simp add: getFiltersFromTheRoute_def kind_filters_def)
  show "addFiltersToRoute [None] ts node = Inl TypeError" by (simp add: addFiltersToRoute_def active_types_def)
qed

section \<open>Toggling filters\<close>

definition active_after :: "NetworkMessagesState \<Rightarrow> NetworkMessagesActions \<Rightarrow> NetworkMessagesFilter list" where
  "active_after state action = nms_activeFilters (networkMessagesReducer state action)"

lemma active_after_toggle:
  "active_after state (NETWORK_TOGGLE_FILTER p) = toggledFilters p (nms_activeFilters state)"
  by (simp add: active_after_def toggleFilterCase_def Let_def)

text \<open>A click on a filter makes it active when it is not and removes it when it is, and touches no other filter;
  a second click restores the active filters. A click on a category makes all of its filters active, or removes
  them when all of them are.\<close>

lemma network_toggle_filter:
  assumes "\<forall>g \<in> set (nms_activeFilters state). nf_value g = nf_value f \<longrightarrow> g = f"
  shows "set (active_after state (toggleFilter (nms_activeFilters state) f)) =
      (if f \<in> set (nms_activeFilters state) then set (nms_activeFilters state) - {f} else insert f (set (nms_activeFilters state)))"
    "let state' = networkMessagesReducer state (toggleFilter (nms_activeFilters state) f)
     in set (active_after state' (toggleFilter (nms_activeFilters state') f)) = set (nms_activeFilters state)"
proof -
  let ?as = "nms_activeFilters state"
  have one: "set (toggledFilters (togglePayload [f] (f \<notin> set as)) as) =
      (if f \<in> set as then set as - {f} else insert f (set as))"
    if "\<forall>g \<in> set as. nf_value g = nf_value f \<longrightarrow> g = f" for as
    using that by (auto simp: toggledFilters_def togglePayload_def)
  show first: "set (active_after state (toggleFilter ?as f)) =
      (if f \<in> set ?as then set ?as - {f} else insert f (set ?as))"
    using one [OF assms] by (simp add: toggleFilter_def active_after_toggle)
  define state' where "state' = networkMessagesReducer state (toggleFilter ?as f)"
  have s': "set (nms_activeFilters state') = (if f \<in> set ?as then set ?as - {f} else insert f (set ?as))"
    using first by (simp add: active_after_def state'_def)
  then have "\<forall>g \<in> set (nms_activeFilters state'). nf_value g = nf_value f \<longrightarrow> g = f"
    using assms by (auto split: if_splits)
  from one [OF this] s' have "set (active_after state' (toggleFilter (nms_activeFilters state') f)) = set ?as"
    by (auto simp: toggleFilter_def active_after_toggle split: if_splits)
  then show "let state' = networkMessagesReducer state (toggleFilter ?as f)
     in set (active_after state' (toggleFilter (nms_activeFilters state') f)) = set ?as"
    by (simp add: Let_def state'_def)
qed

lemma network_filter_category:
  assumes "\<forall>f \<in> set (fc_filters c). \<forall>g \<in> set (nms_activeFilters state). nf_value g = nf_value f \<longrightarrow> g = f"
  shows "(if set (fc_filters c) \<subseteq> set (nms_activeFilters state)
    then set (active_after state (filterByCategory (nms_activeFilters state) c)) = set (nms_activeFilters state) - set (fc_filters c)
    else set (active_after state (filterByCategory (nms_activeFilters state) c)) = set (nms_activeFilters state) \<union> set (fc_filters c))"
  using assms
  by (auto simp: filterByCategory_def active_after_toggle toggledFilters_def togglePayload_def list_all_iff subset_iff)

section \<open>The page buttons\<close>

text \<open>While no message is known the pages end with \<open>undefined\<close>, or there are none.\<close>

definition footer_inv :: "NetworkMessagesState \<Rightarrow> bool" where
  "footer_inv state \<longleftrightarrow>
     (None \<in> set (nms_pages state) \<longrightarrow> last (nms_pages state) = None) \<and>
     (ap_end (nms_activePage state) = None \<longrightarrow>
        js_falsy (ap_firstPageIdWithTimestamp (nms_activePage state)) \<and>
        (nms_pages state = [] \<or> last (nms_pages state) = None)) \<and>
     (ap_end (nms_activePage state) = None \<longleftrightarrow> ap_start (nms_activePage state) = None)"

lemma js_sort_numbers_last: "None \<in> set xs \<Longrightarrow> last (js_sort_numbers xs) = None"
proof -
  assume "None \<in> set xs"
  then have "filter (\<lambda>x. x = None) xs \<noteq> []" by (auto simp: filter_empty_conv)
  then have "last (js_sort_numbers xs) \<in> set (filter (\<lambda>x. x = None) xs)"
    unfolding js_sort_numbers_def by (metis last_appendR last_in_set)
  then show "last (js_sort_numbers xs) = None" by simp
qed

lemma js_sort_numbers_set: "set (js_sort_numbers xs) = set xs"
  by (auto simp: js_sort_numbers_def image_iff)

lemma setPages_last:
  assumes "None \<in> set (nms_pages state) \<longrightarrow> last (nms_pages state) = None"
  shows "(None \<in> set (setPages page state) \<longrightarrow> last (setPages page state) = None)
    \<and> (ap_id page = None \<longrightarrow> last (setPages page state) = None)"
  using assms js_sort_numbers_last [of "nms_pages state @ [ap_id page]"]
  by (auto simp: setPages_def Let_def js_sort_numbers_set)

lemma footer_inv_step: "footer_inv state \<Longrightarrow> footer_inv (networkMessagesReducer state action)"
proof (induction state action rule: networkMessagesReducer.induct)
  case (2 state payload)
  let ?page = "setActivePage payload state"
  have pages: "(None \<in> set (setPages ?page state) \<longrightarrow> last (setPages ?page state) = None)
      \<and> (ap_id ?page = None \<longrightarrow> last (setPages ?page state) = None)"
    using 2 by (intro setPages_last) (simp add: footer_inv_def)
  have "ap_end ?page = None \<longrightarrow> ap_id ?page = None \<and> js_falsy (ap_firstPageIdWithTimestamp ?page)"
    "ap_end ?page = None \<longleftrightarrow> ap_start ?page = None"
    by (auto simp: setActivePage_def emptyActivePage_def Let_def)
  with pages show ?case by (auto simp: footer_inv_def Let_def)
qed (auto simp: footer_inv_def toggleFilterCase_def Let_def emptyActivePage_def networkMessagesInitialState_def)

interpretation footer_state: total_reducer_invariant networkMessagesReducer networkMessagesInitialState footer_inv
proof
  show "footer_inv networkMessagesInitialState"
    by (simp add: footer_inv_def networkMessagesInitialState_def emptyActivePage_def)
qed (rule footer_inv_step)

text \<open>Whatever was dispatched, the footer can tell whether the last page is shown, and the button for the next page,
  which is disabled on the last page, finds the message it starts from.\<close>

lemma network_footer_total:
  "let state = foldl networkMessagesReducer networkMessagesInitialState as
   in \<exists>b. footer_isLastPage state = Inr b \<and> (b \<or> (\<exists>i. nextPage state ts = Inr (NETWORK_GET_PAGINATED_MESSAGES (Some i) (Some FORWARD)
          (map_option (\<lambda>t. \<lparr>ti_from = None, ti_to = ti_to t\<rparr>) ts)) \<and> end_id state = Some (i - 1)))"
proof -
  define state where "state = foldl networkMessagesReducer networkMessagesInitialState as"
  have inv: "footer_inv state" unfolding state_def by (rule footer_state.inv_foldl)
  show ?thesis
  proof (cases "end_id state")
    case None
    with inv have "footer_isLastPage state = Inr True"
      by (auto simp: footer_inv_def footer_isLastPage_def end_id_def Let_def)
    then show ?thesis by (auto simp: state_def [symmetric] Let_def)
  next
    case (Some i)
    then have "\<exists>b. footer_isLastPage state = Inr b" by (auto simp: footer_isLastPage_def Let_def)
    with Some show ?thesis by (auto simp: state_def [symmetric] nextPage_def intro: exI [of _ "i + 1"])
  qed
qed

text \<open>The button for the previous page has no such guard: after a filter is toggled, and before the answer
  arrives, a full table is not taken for the first page although its first message is unknown.\<close>

lemma network_previous_page_fails:
  assumes "length (nms_messages state) \<ge> nms_limit state"
  shows "let state' = networkMessagesReducer state (NETWORK_TOGGLE_FILTER p)
    in \<not> footer_isFirstPage state' \<and> previousPage state' ts = Inl TypeError"
  using assms
  by (simp add: toggleFilterCase_def Let_def footer_isFirstPage_def previousPage_def start_id_def emptyActivePage_def js_same_def)

section \<open>Details of another message\<close>

text \<open>C38. The request for the hexadecimal text of a message is not cancelled when another message is chosen on
  another tab: the answer is stored for the new message, and going back to the tab shows it and asks for nothing.\<close>

theorem network_stale_hex:
  assumes "nms_activeRow state = Some a" and "nms_activeTab state = 2" and "nms_activeRowHex state = None"
    and "nm_id a \<noteq> nm_id b" and "hex \<noteq> []"
  shows "setActiveRow_effect state = Some (NETWORK_GET_MESSAGE_HEX (nm_id a))
    \<and> rx_run (getMessageHex_effect now) ((), None)
        [Rx_action (NETWORK_GET_MESSAGE_HEX (nm_id a)), Rx_action (NETWORK_CHANGE_TAB 1),
         Rx_action (hd (table_onRowClick (Some a) b)), Rx_value hex]
        [Dispatch (NETWORK_GET_MESSAGE_HEX_SUCCESS hex)] ((), None)
    \<and> (let state' = foldl networkMessagesReducer state
          [NETWORK_CHANGE_TAB 1, hd (table_onRowClick (Some a) b), NETWORK_GET_MESSAGE_HEX_SUCCESS hex, NETWORK_CHANGE_TAB 2]
       in nms_activeRow state' = Some b \<and> nms_activeRowHex state' = Some hex \<and> setActiveRow_effect state' = None)"
  using assms
  by (simp add: rx_run_Cons getMessageHex_effect_def table_onRowClick_def setActiveRow_effect_def Let_def)

definition hex_row :: "int \<Rightarrow> NetworkMessage" where
  "hex_row i = \<lparr>nm_id = i, nm_connectionId = 1, nm_address = ''1.2.3.4:80'', nm_size = 4, nm_incoming = ''Incoming'',
     nm_timestamp = [], nm_streamKind = ''unknown'', nm_messageKind = JNull, nm_failedToDecryptPercentage = None\<rparr>"

theorem network_stale_hex_witness:
  "let state' = foldl networkMessagesReducer
       (networkMessagesInitialState\<lparr>nms_activeRow := Some (hex_row 1), nms_activeTab := 2\<rparr>)
       [NETWORK_CHANGE_TAB 1, NETWORK_SET_ACTIVE_ROW (Some (hex_row 2)), NETWORK_GET_MESSAGE_HEX_SUCCESS ''00'', NETWORK_CHANGE_TAB 2]
   in nms_activeRow state' = Some (hex_row 2) \<and> nms_activeRowHex state' = Some ''00''"
proof -
  let ?s = "networkMessagesInitialState\<lparr>nms_activeRow := Some (hex_row 1), nms_activeTab := 2\<rparr>"
  have "nms_activeRow ?s = Some (hex_row 1)" "nms_activeTab ?s = 2" "nms_activeRowHex ?s = None"
    "nm_id (hex_row 1) \<noteq> nm_id (hex_row 2)" "''00'' \<noteq> []"
    by (simp_all add: networkMessagesInitialState_def hex_row_def)
  from network_stale_hex [OF this, of "[]"] show ?thesis
    by (simp add: table_onRowClick_def hex_row_def Let_def)
qed

end
