(* ===== verification/Fuzzing.thy ===== *)
theory Fuzzing
  imports Effect_Pipeline Store_Reducer
begin

text \<open>
  The fuzzing page, which shows the coverage reports of the fuzzer: the service that maps the reports
  (\<open>features/fuzzing/fuzzing.service.ts\<close>), the reducer, the effects, and what the toolbar, the tables and the
  page component compute. The date formatter and the table sorter of the shared package are parameters, and
  so is the number of milliseconds that \<open>new Date\<close> reads from a formatted date.

  A report line is coloured by a loop over its counters and turned into HTML character by character;
  \<open>fuzzing_html_render\<close> reads that HTML back the way a browser does.
\<close>

section \<open>Directories\<close>

record FuzzingDirectory =
  fd_fullName :: string
  fd_name :: string
  fd_date :: string
  fd_dateNumber :: int

definition directoryOf ::
  "(string \<Rightarrow> js_error + string) \<Rightarrow> (string \<Rightarrow> int) \<Rightarrow> string \<Rightarrow> FuzzingDirectory" where
  "directoryOf toReadableDate getTime directory =
     (let (date, dateNumber) = (case toReadableDate (hd (js_split (CHR ''_'') directory)) of
            Inl e \<Rightarrow> (''-'', 0)
          | Inr d \<Rightarrow> (d, getTime d))
      in \<lparr>fd_fullName = directory,
          fd_name = (if js_includes directory ''_'' then join_with ''_'' (tl (js_split (CHR ''_'') directory))
            else directory),
          fd_date = date, fd_dateNumber = dateNumber\<rparr>)"

definition mapGetDirectoryNamesResponse ::
  "(string \<Rightarrow> js_error + string) \<Rightarrow> (string \<Rightarrow> int) \<Rightarrow> string list \<Rightarrow> FuzzingDirectory list" where
  "mapGetDirectoryNamesResponse toReadableDate getTime dirNames =
     sort_key (\<lambda>d. - fd_dateNumber d) (map (directoryOf toReadableDate getTime) dirNames)"

definition getRootDirectoryContent_url :: string where
  "getRootDirectoryContent_url = ''assets/reports/index.json''"

section \<open>Files\<close>

record FuzzingFile =
  ff_name :: string
  ff_coverage :: rat
  ff_path :: string

definition getFiles_url :: "string \<Rightarrow> string" where
  "getFiles_url activeDir = ''assets/reports/'' @ activeDir @ ''/rustindex.json''"

definition mapFiles :: "(string \<times> rat \<times> string) list \<Rightarrow> FuzzingFile list" where
  "mapFiles files = map (\<lambda>(n, c, p). \<lparr>ff_name = n, ff_coverage = c, ff_path = p\<rparr>) files"

section \<open>File details\<close>

record raw_counter =
  rc_col_start :: int
  rc_col_end :: int
  rc_count :: int

record raw_line =
  rl_line :: string
  rl_counters :: "raw_counter list"

record raw_file =
  rf_filename :: string
  rf_lines :: "raw_line list"

record FuzzingLineCounter =
  lc_colStart :: int
  lc_colEnd :: int
  lc_count :: nat

text \<open>The colour of a line; without counters the code returns the line object itself.\<close>

datatype line_color = Color string | Line_object raw_line

record FuzzingLine =
  fl_line :: string
  fl_lineColor :: line_color
  fl_html :: string
  fl_lineHits :: "nat option"
  fl_counters :: "FuzzingLineCounter list"

record FuzzingFileDetails =
  fdt_filename :: string
  fdt_executedLines :: nat
  fdt_lines :: "FuzzingLine list"

text \<open>The loop of \<open>getLineColor\<close>; a \<open>break\<close> ends it with the colour \<open>aware\<close>.\<close>

fun lineColorLoop :: "string \<Rightarrow> raw_counter list \<Rightarrow> string" where
  "lineColorLoop lineColor [] = lineColor"
| "lineColorLoop lineColor (counter # counters) =
     (if rc_count counter > 0
      then if lineColor = ''warn'' then ''aware'' else lineColorLoop ''success'' counters
      else if lineColor = ''success'' then ''aware'' else lineColorLoop ''warn'' counters)"

definition getLineColor :: "raw_line \<Rightarrow> line_color" where
  "getLineColor line =
     (if rl_counters line = [] then Line_object line else Color (lineColorLoop ''aware'' (rl_counters line)))"

definition escape_char :: "char \<Rightarrow> string" where
  "escape_char c = (if c = CHR '' '' then ''&nbsp;''
     else if c = CHR ''<'' then ''&lt;'' else if c = CHR ''>'' then ''&gt;'' else [c])"

definition span_open :: "nat \<Rightarrow> string" where
  "span_open n =
     ''<span style='' @ [CHR 0x22] @ ''color:var(--base-primary);background:var(--''
     @ (if n = 0 then ''warn'' else ''success'') @ ''-secondary)'' @ [CHR 0x22] @ '' h='' @ [CHR 0x22]
     @ dec n @ [CHR 0x22] @ ''>''"

definition counter_at :: "FuzzingLineCounter list \<Rightarrow> nat \<Rightarrow> FuzzingLineCounter option" where
  "counter_at counters column =
     List.find (\<lambda>counter. lc_colStart counter \<le> int column \<and> lc_colEnd counter \<ge> int column) counters"

fun colorChars :: "FuzzingLineCounter list \<Rightarrow> nat \<Rightarrow> string \<Rightarrow> string" where
  "colorChars counters i [] = []"
| "colorChars counters i (c # cs) =
     (let counter = counter_at counters i
      in (case counter of Some k \<Rightarrow> if int i = lc_colStart k then span_open (lc_count k) else [] | None \<Rightarrow> [])
         @ escape_char c
         @ (case counter of Some k \<Rightarrow> if int i = lc_colEnd k then ''</span>'' else [] | None \<Rightarrow> [])
         @ colorChars counters (Suc i) cs)"

text \<open>The two calls of \<open>replace\<close> with a global pattern, one after the other.\<close>

definition escape_angles :: "string \<Rightarrow> string" where
  "escape_angles line =
     concat (map (\<lambda>c. if c = CHR ''>'' then ''&gt;'' else [c])
       (concat (map (\<lambda>c. if c = CHR ''<'' then ''&lt;'' else [c]) line)))"

definition colorLineCounters :: "string \<Rightarrow> FuzzingLineCounter list \<Rightarrow> string" where
  "colorLineCounters line counters =
     (if counters = [] then escape_angles line else colorChars counters 0 line)"

definition mapCounter :: "raw_counter \<Rightarrow> FuzzingLineCounter" where
  "mapCounter counter =
     \<lparr>lc_colStart = rc_col_start counter, lc_colEnd = rc_col_end counter, lc_count = nat \<bar>rc_count counter\<bar>\<rparr>"

definition mapLine :: "raw_line \<Rightarrow> FuzzingLine" where
  "mapLine line =
     (let counters = map mapCounter (rl_counters line)
      in \<lparr>fl_line = rl_line line, fl_lineColor = getLineColor line,
          fl_html = colorLineCounters (rl_line line) counters,
          fl_lineHits = (if counters \<noteq> [] then Some (Max (set (map lc_count counters))) else None),
          fl_counters = counters\<rparr>)"

definition getFileDetails_url :: "string \<Rightarrow> string \<Rightarrow> string" where
  "getFileDetails_url activeDir name = ''assets/reports/'' @ activeDir @ ''/'' @ name"

definition mapFileDetails :: "raw_file \<Rightarrow> FuzzingFileDetails" where
  "mapFileDetails file =
     \<lparr>fdt_filename = rf_filename file,
      fdt_executedLines = length (filter (\<lambda>line. rl_counters line \<noteq> []) (rf_lines file)),
      fdt_lines = map mapLine (rf_lines file)\<rparr>"

section \<open>The colour of a line\<close>

lemma lineColorLoop_spec:
  "lineColorLoop ''success'' cs = (if \<forall>c \<in> set cs. rc_count c > 0 then ''success'' else ''aware'')"
  "lineColorLoop ''warn'' cs = (if \<forall>c \<in> set cs. rc_count c \<le> 0 then ''warn'' else ''aware'')"
  by (induction cs) auto

lemma getLineColor_spec:
  "getLineColor line =
     (if rl_counters line = [] then Line_object line
      else if \<forall>c \<in> set (rl_counters line). rc_count c > 0 then Color ''success''
      else if \<forall>c \<in> set (rl_counters line). rc_count c \<le> 0 then Color ''warn''
      else Color ''aware'')"
  by (cases "rl_counters line") (auto simp: getLineColor_def lineColorLoop_spec)

section \<open>What the HTML of a line shows\<close>

text \<open>A browser reading the HTML: an opening tag sets the number of hits of the text that follows, a
  closing tag ends it, the three entities stand for their characters.\<close>

definition tag_hits :: "string \<Rightarrow> nat" where
  "tag_hits body = of_radix 10 (rev (takeWhile js_isDigit (drop 1 (rev body))))"

definition entity :: "string \<Rightarrow> char option" where
  "entity n = map_of [(''nbsp'', CHR '' ''), (''lt'', CHR ''<''), (''gt'', CHR ''>'')] n"

definition upto_char :: "char \<Rightarrow> string \<Rightarrow> string" where
  "upto_char d s = takeWhile (\<lambda>c. c \<noteq> d) s"

definition after_char :: "char \<Rightarrow> string \<Rightarrow> string" where
  "after_char d s = drop 1 (dropWhile (\<lambda>c. c \<noteq> d) s)"

lemma length_after_char: "length (after_char d s) \<le> length s"
  using length_dropWhile_le [of "\<lambda>c. c \<noteq> d" s] by (simp add: after_char_def)

function render :: "nat option \<Rightarrow> string \<Rightarrow> (char \<times> nat option) list" where
  "render cur [] = []"
| "render cur (c # cs) =
     (if c = CHR ''<''
      then render (if upto_char (CHR ''>'') cs = ''/span'' then None else Some (tag_hits (upto_char (CHR ''>'') cs)))
             (after_char (CHR ''>'') cs)
      else case (if c = CHR ''&'' then entity (upto_char (CHR '';'') cs) else None) of
        Some e \<Rightarrow> (e, cur) # render cur (after_char (CHR '';'') cs)
      | None \<Rightarrow> (c, cur) # render cur cs)"
  by pat_completeness auto
termination
  by (relation "measure (length \<circ> snd)") (auto simp: less_Suc_eq_le length_after_char)

lemma upto_after_append:
  assumes "d \<notin> set s"
  shows "upto_char d (s @ d # r) = s" "after_char d (s @ d # r) = r"
  using assms by (simp_all add: upto_char_def after_char_def takeWhile_append dropWhile_append)

lemma digit_not:
  "js_isDigit c \<Longrightarrow> c \<noteq> CHR ''>''" "js_isDigit c \<Longrightarrow> c \<noteq> CHR 0x22"
  by (auto simp: js_isDigit_def Let_def)

text \<open>The text between the angle brackets of an opening tag, and the hits read from it.\<close>

definition tag_body :: "nat \<Rightarrow> string" where
  "tag_body n = butlast (tl (span_open n))"

lemma tag_body_eq:
  "tag_body n = ''span style='' @ [CHR 0x22] @ ''color:var(--base-primary);background:var(--''
     @ (if n = 0 then ''warn'' else ''success'') @ ''-secondary)'' @ [CHR 0x22] @ '' h='' @ [CHR 0x22]
     @ dec n @ [CHR 0x22]"
  by (simp add: tag_body_def span_open_def butlast_append)

lemma span_open_eq: "span_open n = CHR ''<'' # tag_body n @ [CHR ''>'']"
  by (simp add: tag_body_eq span_open_def)

lemma tag_body_plain: "CHR ''>'' \<notin> set (tag_body n)"
  using dec_digits [of n] digit_not(1) by (auto simp: tag_body_eq list_all_iff)

lemma tag_hits_body: "tag_hits (tag_body n) = n"
proof -
  have "takeWhile js_isDigit (rev (dec n) @ CHR 0x22 # xs) = rev (dec n)" for xs
    using dec_digits [of n] digit_not(2) [of "CHR 0x22"] by (auto simp: takeWhile_append list_all_iff)
  then show ?thesis by (simp add: tag_hits_def tag_body_eq of_to_radix)
qed

lemma render_span_open: "render cur (span_open n @ r) = render (Some n) r"
proof -
  have "tag_body n \<noteq> ''/span''" by (simp add: tag_body_eq)
  then show ?thesis
    using upto_after_append [OF tag_body_plain [of n], of r] by (simp add: span_open_eq tag_hits_body)
qed

lemma render_span_close: "render cur (''</span>'' @ r) = render None r"
  using upto_after_append [of "CHR ''>''" "''/span''" r] by simp

lemma render_escape:
  assumes "c \<noteq> CHR ''&''"
  shows "render cur (escape_char c @ r) = (c, cur) # render cur r"
  using assms upto_after_append [of "CHR '';''" "''nbsp''" r] upto_after_append [of "CHR '';''" "''lt''" r]
    upto_after_append [of "CHR '';''" "''gt''" r]
  by (auto simp: escape_char_def entity_def)

text \<open>Counters in the order of their columns. The ranges include both ends, and a counter may begin in the column in which the one before it
  ends: the report generator splits counters so.\<close>

definition covers :: "FuzzingLineCounter \<Rightarrow> int \<Rightarrow> bool" where
  "covers k i \<longleftrightarrow> lc_colStart k \<le> i \<and> i \<le> lc_colEnd k"

fun ordered_counters :: "FuzzingLineCounter list \<Rightarrow> bool" where
  "ordered_counters [] = True"
| "ordered_counters (k # ks) =
     (0 \<le> lc_colStart k \<and> lc_colStart k \<le> lc_colEnd k \<and> list_all (\<lambda>l. lc_colEnd k \<le> lc_colStart l) ks
      \<and> ordered_counters ks)"

text \<open>The hits a column should be shown with: those of the first counter that covers it, unless an earlier counter covers the column in which
  that counter begins; its span is then never opened.\<close>

definition hits_at :: "FuzzingLineCounter list \<Rightarrow> int \<Rightarrow> nat option" where
  "hits_at ks i = (case List.find (\<lambda>k. covers k i) ks of
      None \<Rightarrow> None
    | Some k \<Rightarrow> if List.find (\<lambda>l. covers l (lc_colStart k)) ks = Some k then Some (lc_count k) else None)"

lemma counter_at_covers: "counter_at ks i = List.find (\<lambda>k. covers k (int i)) ks"
  by (simp add: counter_at_def covers_def)

lemma counter_at_SomeD: "counter_at ks i = Some k \<Longrightarrow> k \<in> set ks \<and> covers k (int i)"
  by (auto simp: counter_at_def covers_def dest: find_Some_in)

lemma ordered_counters_start: "ordered_counters ks \<Longrightarrow> k \<in> set ks \<Longrightarrow> 0 \<le> lc_colStart k"
  by (induction ks) auto

text \<open>From one column to the next inside the range of a counter, the first counter changes only where an earlier one ends.\<close>

lemma counter_at_before:
  assumes "ordered_counters ks" and "counter_at ks j = Some l" and "counter_at ks (Suc j) = Some k" and "covers k (int j)"
  shows "l = k \<or> lc_colEnd l = int j \<and> lc_colStart k = int j"
  using assms
proof (induction ks)
  case (Cons a ks)
  show ?case
  proof (cases "covers a (int j)")
    case True
    then have l: "l = a" using Cons.prems(2) by (simp add: counter_at_covers)
    show ?thesis
    proof (cases "covers a (int (Suc j))")
      case True
      then show ?thesis using Cons.prems(3) l by (simp add: counter_at_covers del: of_nat_Suc)
    next
      case False
      then have "k \<in> set ks" using Cons.prems(3) by (auto simp: counter_at_covers simp del: of_nat_Suc dest: find_Some_in)
      then have "lc_colEnd a \<le> lc_colStart k" using Cons.prems(1) by (auto simp: list_all_iff)
      then show ?thesis using l True Cons.prems(4) by (auto simp: covers_def)
    qed
  next
    case False
    then have "\<not> covers a (int (Suc j))" using Cons.prems(3,4) by (auto simp: counter_at_covers simp del: of_nat_Suc)
    then show ?thesis using False Cons by (simp add: counter_at_covers del: of_nat_Suc)
  qed
qed (simp add: counter_at_def)

text \<open>The hits in force when column \<open>i\<close> is reached: those of a span that was opened before it and not closed.\<close>

definition open_at :: "FuzzingLineCounter list \<Rightarrow> nat \<Rightarrow> nat option" where
  "open_at ks i = (case i of 0 \<Rightarrow> None | Suc j \<Rightarrow>
     (case counter_at ks j of Some k \<Rightarrow> if lc_colEnd k = int j then None else hits_at ks (int j) | None \<Rightarrow> None))"

lemma open_at_start:
  assumes "ordered_counters ks"
  shows "(case counter_at ks i of Some k \<Rightarrow> if int i = lc_colStart k then Some (lc_count k) else open_at ks i
    | None \<Rightarrow> open_at ks i) = hits_at ks (int i)"
proof (cases "counter_at ks i")
  case None
  have "open_at ks i = None"
  proof (rule ccontr)
    assume "open_at ks i \<noteq> None"
    then obtain j k where i: "i = Suc j" and k: "counter_at ks j = Some k" and ne: "lc_colEnd k \<noteq> int j"
      by (auto simp: open_at_def split: nat.splits option.splits if_splits)
    with counter_at_SomeD [OF k] have "k \<in> set ks" "covers k (int i)" by (auto simp: covers_def)
    with None show False by (auto simp: counter_at_covers find_None_iff)
  qed
  with None show ?thesis by (simp add: hits_at_def counter_at_covers)
next
  case (Some k)
  then have find: "List.find (\<lambda>k. covers k (int i)) ks = Some k" by (simp add: counter_at_covers)
  show ?thesis
  proof (cases "int i = lc_colStart k")
    case True
    then show ?thesis using find by (simp add: Some hits_at_def)
  next
    case False
    from counter_at_SomeD [OF Some] have k: "k \<in> set ks" "covers k (int i)" by auto
    with False ordered_counters_start [OF assms k(1)] obtain j where i: "i = Suc j"
      by (cases i) (auto simp: covers_def)
    with k False have cov: "covers k (int j)" "lc_colEnd k \<noteq> int j" by (auto simp: covers_def)
    then obtain l where l: "counter_at ks j = Some l" using k(1) by (cases "counter_at ks j") (auto simp: counter_at_covers find_None_iff)
    note fl = l [unfolded counter_at_covers]
    from counter_at_before [OF assms l Some [unfolded i] cov(1)] show ?thesis
    proof
      assume "l = k"
      with fl find have "hits_at ks (int j) = hits_at ks (int i)" by (simp add: hits_at_def)
      moreover have "open_at ks i = hits_at ks (int j)" using l \<open>l = k\<close> cov(2) by (simp add: open_at_def i)
      ultimately show ?thesis using False by (simp add: Some)
    next
      assume e: "lc_colEnd l = int j \<and> lc_colStart k = int j"
      then have "hits_at ks (int i) = None" using find fl cov(2) by (auto simp: hits_at_def)
      moreover have "open_at ks i = None" using l e by (simp add: open_at_def i)
      ultimately show ?thesis using False by (simp add: Some)
    qed
  qed
qed

lemma render_colorChars:
  assumes "ordered_counters ks" and "CHR ''&'' \<notin> set cs"
  shows "render (open_at ks i) (colorChars ks i cs) = map (\<lambda>j. (cs ! j, hits_at ks (int (i + j)))) [0..<length cs]"
  using assms(2)
proof (induction cs arbitrary: i)
  case Nil
  then show ?case by simp
next
  case (Cons c cs)
  let ?cur = "hits_at ks (int i)"
  let ?r = "(case counter_at ks i of Some k \<Rightarrow> if int i = lc_colEnd k then ''</span>'' else [] | None \<Rightarrow> [])
      @ colorChars ks (Suc i) cs"
  have none: "counter_at ks i = None \<Longrightarrow> ?cur = None" by (simp add: hits_at_def counter_at_covers)
  have close: "render ?cur ?r = render (open_at ks (Suc i)) (colorChars ks (Suc i) cs)"
  proof (cases "counter_at ks i")
    case None
    then show ?thesis by (simp add: open_at_def none)
  next
    case (Some k)
    then show ?thesis by (cases "int i = lc_colEnd k") (simp_all add: open_at_def render_span_close eq_commute [of "int i"] del: append_Cons)
  qed
  have "render (open_at ks i) (colorChars ks i (c # cs)) = render ?cur (escape_char c @ ?r)"
  proof (cases "counter_at ks i")
    case None
    then have "open_at ks i = ?cur" using open_at_start [OF assms(1), of i] by simp
    with None show ?thesis by (simp add: Let_def)
  next
    case (Some k)
    show ?thesis
    proof (cases "int i = lc_colStart k")
      case True
      then have "?cur = Some (lc_count k)" using open_at_start [OF assms(1), of i] by (simp add: Some)
      then show ?thesis using Some True by (simp add: Let_def render_span_open)
    next
      case False
      then have "open_at ks i = ?cur" using open_at_start [OF assms(1), of i] by (simp add: Some)
      with Some False show ?thesis by (simp add: Let_def)
    qed
  qed
  also have "\<dots> = (c, ?cur) # render (open_at ks (Suc i)) (colorChars ks (Suc i) cs)"
    using Cons.prems by (subst render_escape) (auto simp: close)
  also have "\<dots> = map (\<lambda>j. ((c # cs) ! j, hits_at ks (int (i + j)))) [0..<length (c # cs)]"
    using Cons.IH [of "Suc i"] Cons.prems
    by (simp add: upt_conv_Cons map_Suc_upt [symmetric] comp_def add.left_commute del: upt_Suc)
  finally show ?case .
qed

lemma escape_angles_Cons:
  "escape_angles (c # cs) = (if c = CHR ''<'' then ''&lt;'' else if c = CHR ''>'' then ''&gt;'' else [c]) @ escape_angles cs"
  by (simp add: escape_angles_def)

lemma render_escape_angles:
  "CHR ''&'' \<notin> set cs \<Longrightarrow> render cur (escape_angles cs) = map (\<lambda>c. (c, cur)) cs"
proof (induction cs)
  case Nil
  then show ?case by (simp add: escape_angles_def)
next
  case (Cons c cs)
  then show ?case
    using upto_after_append [of "CHR '';''" "''lt''" "escape_angles cs"]
      upto_after_append [of "CHR '';''" "''gt''" "escape_angles cs"]
    by (auto simp: escape_angles_Cons entity_def)
qed

lemma fuzzing_html_render:
  assumes "ordered_counters ks" and "CHR ''&'' \<notin> set line"
  shows "render None (colorLineCounters line ks) = map (\<lambda>j. (line ! j, hits_at ks (int j))) [0..<length line]"
proof (cases "ks = []")
  case True
  have "map (\<lambda>c. (c, None)) line = map (\<lambda>j. (line ! j, None :: nat option)) [0..<length line]"
    by (rule nth_equalityI) auto
  with True assms(2) show ?thesis
    by (simp add: colorLineCounters_def render_escape_angles hits_at_def)
next
  case False
  with render_colorChars [OF assms, of 0] show ?thesis by (simp add: colorLineCounters_def open_at_def)
qed

section \<open>State, actions and reducer\<close>

text \<open>\<open>{ ...undefined }\<close> is the empty object, which is neither \<open>undefined\<close> nor a file.\<close>

datatype active_file = No_file | Empty_object | File FuzzingFile

record FuzzingState =
  fz_directories :: "FuzzingDirectory list"
  fz_activeDirectory :: "FuzzingDirectory option"
  fz_files :: "FuzzingFile list"
  fz_filteredFiles :: "FuzzingFile list"
  fz_activeFile :: active_file
  fz_activeFileDetails :: "FuzzingFileDetails option"
  fz_sort :: tableSort
  fz_filterText :: "string option"

definition fuzzingInitialState :: FuzzingState where
  "fuzzingInitialState =
     \<lparr>fz_directories = [], fz_activeDirectory = None, fz_files = [], fz_filteredFiles = [],
      fz_activeFile = No_file, fz_activeFileDetails = None,
      fz_sort = \<lparr>sortBy = ''path'', sortDirection = ASC\<rparr>, fz_filterText = None\<rparr>"

datatype FuzzingActions =
    FuzzingInit
  | FuzzingClose
  | FuzzingGetDirectories
  | FuzzingGetDirectoriesSuccess "FuzzingDirectory list"
  | FuzzingSetActiveDirectory "FuzzingDirectory option"
  | FuzzingGetFiles
  | FuzzingGetFilesSuccess "FuzzingFile list"
  | FuzzingGetFileDetails active_file
  | FuzzingGetFileDetailsSuccess FuzzingFileDetails
  | FuzzingSort tableSort
  | FuzzingFilterFiles string

definition filterFiles :: "FuzzingFile list \<Rightarrow> string option \<Rightarrow> FuzzingFile list" where
  "filterFiles files filterText = filter (\<lambda>file. case filterText of
       None \<Rightarrow> True
     | Some t \<Rightarrow> t = [] \<or> js_includes (js_toLowerCase (ff_path file)) t) files"

text \<open>Two values of the state with the same JSON text are equal: their fields are strings, numbers and
  lists of them.\<close>

fun fuzzingReducer ::
  "FuzzingFile sorter \<Rightarrow> FuzzingState \<Rightarrow> FuzzingActions \<Rightarrow> js_error + FuzzingState" where
  "fuzzingReducer sortFiles state (FuzzingGetDirectoriesSuccess payload) =
     Inr (if payload = fz_directories state then state else state\<lparr>fz_directories := payload\<rparr>)"
| "fuzzingReducer sortFiles state (FuzzingSetActiveDirectory payload) =
     (case payload of
        None \<Rightarrow> Inl TypeError
      | Some dir \<Rightarrow> Inr (
          if Some (fd_fullName dir) = map_option fd_fullName (fz_activeDirectory state) then state
          else state\<lparr>fz_activeDirectory := Some dir, fz_activeFile := No_file, fz_activeFileDetails := None\<rparr>))"
| "fuzzingReducer sortFiles state (FuzzingGetFilesSuccess payload) =
     (let files = sortFiles payload (fz_sort state);
          filteredFiles = filterFiles files (fz_filterText state)
      in Inr (if filteredFiles = fz_filteredFiles state then state
              else state\<lparr>fz_files := files, fz_filteredFiles := filteredFiles\<rparr>))"
| "fuzzingReducer sortFiles state (FuzzingGetFileDetails payload) = Inr (state\<lparr>fz_activeFile := payload\<rparr>)"
| "fuzzingReducer sortFiles state (FuzzingGetFileDetailsSuccess payload) =
     Inr (if Some payload = fz_activeFileDetails state then state
          else state\<lparr>fz_activeFile := (case fz_activeFile state of No_file \<Rightarrow> Empty_object | f \<Rightarrow> f),
                     fz_activeFileDetails := Some payload\<rparr>)"
| "fuzzingReducer sortFiles state (FuzzingSort payload) =
     Inr (state\<lparr>fz_filteredFiles := sortFiles (fz_filteredFiles state) payload, fz_sort := payload\<rparr>)"
| "fuzzingReducer sortFiles state (FuzzingFilterFiles payload) =
     (let fuzzingFiles = filterFiles (fz_files state) (Some payload);
          filteredFiles = sortFiles fuzzingFiles (fz_sort state)
      in Inr (state\<lparr>fz_filterText := Some payload, fz_filteredFiles := filteredFiles\<rparr>))"
| "fuzzingReducer sortFiles state FuzzingClose = Inr fuzzingInitialState"
| "fuzzingReducer sortFiles state FuzzingInit = Inr state"
| "fuzzingReducer sortFiles state FuzzingGetDirectories = Inr state"
| "fuzzingReducer sortFiles state FuzzingGetFiles = Inr state"

section \<open>Effects\<close>

text \<open>The pipelines read the state after the action; a \<open>TypeError\<close> raised while the request is built takes the
  place of the request, and the pipeline sees it as an error.\<close>

definition fuzzing_getDirectories_effect ::
  "string \<Rightarrow> (unit, FuzzingActions, string, FuzzingDirectory list, FuzzingActions dispatched) effect" where
  "fuzzing_getDirectories_effect now =
     \<lparr>on_action = (\<lambda>action f. case action of
          FuzzingGetDirectories \<Rightarrow> (f, Switch_request getRootDirectoryContent_url)
        | _ \<Rightarrow> (f, Filtered)),
      on_value = (\<lambda>_ payload f. (f, [Dispatch (FuzzingGetDirectoriesSuccess payload)])),
      on_error = (\<lambda>e f. (f, [ErrorAdd (addError now e GENERIC), Dispatch (FuzzingGetDirectoriesSuccess [])]))\<rparr>"

definition active_fullName :: "FuzzingState \<Rightarrow> js_error + string" where
  "active_fullName state =
     (case fz_activeDirectory state of None \<Rightarrow> Inl TypeError | Some d \<Rightarrow> Inr (fd_fullName d))"

definition fuzzing_getFiles_effect ::
  "string \<Rightarrow> (unit, FuzzingActions \<times> FuzzingState, js_error + string, FuzzingFile list,
     FuzzingActions dispatched) effect" where
  "fuzzing_getFiles_effect now =
     \<lparr>on_action = (\<lambda>(action, state) f. case action of
          FuzzingGetFiles \<Rightarrow> (f, Switch_request (map_sum (\<lambda>e. e) getFiles_url (active_fullName state)))
        | FuzzingSetActiveDirectory _ \<Rightarrow>
            (f, Switch_request (map_sum (\<lambda>e. e) getFiles_url (active_fullName state)))
        | _ \<Rightarrow> (f, Filtered)),
      on_value = (\<lambda>_ payload f. (f, [Dispatch (FuzzingGetFilesSuccess payload)])),
      on_error = (\<lambda>e f. (f, [ErrorAdd (addError now e GENERIC), Dispatch (FuzzingGetFilesSuccess [])]))\<rparr>"

definition no_details :: FuzzingFileDetails where
  "no_details = \<lparr>fdt_filename = [], fdt_executedLines = 0, fdt_lines = []\<rparr>"

text \<open>The name of the empty object is \<open>undefined\<close>.\<close>

fun active_name :: "active_file \<Rightarrow> string" where
  "active_name (File f) = ff_name f"
| "active_name _ = ''undefined''"

definition fuzzing_getFileDetails_effect ::
  "string \<Rightarrow> (unit, FuzzingActions \<times> FuzzingState, js_error + string, FuzzingFileDetails,
     FuzzingActions dispatched) effect" where
  "fuzzing_getFileDetails_effect now =
     \<lparr>on_action = (\<lambda>(action, state) f. case action of
          FuzzingGetFileDetails payload \<Rightarrow>
            if payload = No_file then (f, Filtered)
            else (f, Switch_request (map_sum (\<lambda>e. e) (\<lambda>d. getFileDetails_url d (active_name payload))
                   (active_fullName state)))
        | _ \<Rightarrow> (f, Filtered)),
      on_value = (\<lambda>_ payload f. (f, [Dispatch (FuzzingGetFileDetailsSuccess payload)])),
      on_error = (\<lambda>e f. (f, [ErrorAdd (addError now e GENERIC),
        Dispatch (FuzzingGetFileDetailsSuccess no_details)]))\<rparr>"

section \<open>The components of the page\<close>

text \<open>The toolbar: the mean coverage of the files shown (\<open>0 / 0\<close> without files) and its colour, and the text
  that the search box filters by.\<close>

definition overallCoverage :: "FuzzingFile list \<Rightarrow> js_number" where
  "overallCoverage files =
     (if files = [] then NaN
      else Finite (foldl (\<lambda>acc file. acc + ff_coverage file) 0 files / of_nat (length files)))"

definition coverageColor :: "js_number \<Rightarrow> string" where
  "coverageColor overall = (case overall of
       Finite q \<Rightarrow> if q > 80 then ''success'' else if q > 50 then ''aware'' else ''warn''
     | NaN \<Rightarrow> ''warn'')"

definition fuzzing_search :: "string \<Rightarrow> FuzzingActions" where
  "fuzzing_search value = FuzzingFilterFiles (js_toLowerCase (js_trim value))"

text \<open>The page polls every five seconds.\<close>

definition fuzzing_tick :: "FuzzingDirectory option \<Rightarrow> FuzzingActions list" where
  "fuzzing_tick activeDirectory =
     FuzzingGetDirectories # (if activeDirectory \<noteq> None then [FuzzingGetFiles] else [])"

definition fuzzing_isActiveRow :: "active_file \<Rightarrow> bool \<Rightarrow> bool" where
  "fuzzing_isActiveRow row isActiveRow =
     (if row \<noteq> No_file \<and> \<not> isActiveRow then True
      else if row = No_file \<and> isActiveRow then False else isActiveRow)"

definition fuzzing_files_tick :: "active_file \<Rightarrow> FuzzingActions list" where
  "fuzzing_files_tick activeFile = (if activeFile \<noteq> No_file then [FuzzingGetFileDetails activeFile] else [])"

text \<open>The list of directories arrives (the listener ignores an empty one): the actions dispatched and the
  path of the route that is left.\<close>

definition fuzzing_listenToDirectories ::
  "string option \<Rightarrow> FuzzingDirectory option \<Rightarrow> FuzzingDirectory list \<Rightarrow> FuzzingActions list \<times> string option" where
  "fuzzing_listenToDirectories pathFromRoute activeDirectory directories =
     (if directories = [] then ([], pathFromRoute)
      else case pathFromRoute of
        Some path \<Rightarrow>
          ((case List.find (\<lambda>dir. fd_fullName dir = path) directories of
              Some payload \<Rightarrow> [FuzzingSetActiveDirectory (Some payload)] | None \<Rightarrow> []), None)
      | None \<Rightarrow>
          (if activeDirectory = None then [FuzzingSetActiveDirectory (Some (hd directories))] else [], None))"

definition fuzzing_listenToFiles ::
  "string option \<Rightarrow> FuzzingFile list \<Rightarrow> FuzzingActions list \<times> string option" where
  "fuzzing_listenToFiles pathFromRoute files =
     (case pathFromRoute of
        Some path \<Rightarrow>
          (case List.find (\<lambda>file. ff_path file = path) files of
             Some payload \<Rightarrow> ([FuzzingGetFileDetails (File payload)], None)
           | None \<Rightarrow> ([], pathFromRoute))
      | None \<Rightarrow> ([], pathFromRoute))"

text \<open>A click on a file, and the button that closes the code panel: the actions, then the address.\<close>

definition fuzzing_onRowClick :: "active_file \<Rightarrow> FuzzingDirectory \<Rightarrow> FuzzingFile \<Rightarrow> FuzzingActions list \<times> string list" where
  "fuzzing_onRowClick activeFile activeDirectory file =
     ((case activeFile of File a \<Rightarrow> if ff_path a \<noteq> ff_path file then [FuzzingGetFileDetails (File file)] else []
       | _ \<Rightarrow> [FuzzingGetFileDetails (File file)]),
      [''fuzzing'', fd_fullName activeDirectory, ff_path file])"

definition fuzzing_closeSidePanel :: "FuzzingActions list \<times> string list" where
  "fuzzing_closeSidePanel = ([FuzzingGetFileDetails No_file], [''fuzzing''])"

section \<open>Directory names\<close>

lemma directoryOf_name:
  "fd_name (directoryOf rd gt s) =
     (if CHR ''_'' \<in> set s then drop (Suc (length (hd (js_split (CHR ''_'') s)))) s else s)"
proof (cases "CHR ''_'' \<in> set s")
  case True
  obtain w ws where w: "js_split (CHR ''_'') s = w # ws" by (cases "js_split (CHR ''_'') s") auto
  have "count_list s (CHR ''_'') \<noteq> 0" using True by (simp add: count_list_0_iff)
  with w length_js_split [of "CHR ''_''" s] obtain v vs where ws: "ws = v # vs" by (cases ws) auto
  have "s = w @ CHR ''_'' # join_with ''_'' (v # vs)"
    using join_js_split [of "CHR ''_''" s] by (simp add: w ws)
  then have "drop (Suc (length w)) s = join_with ''_'' (v # vs)"
    using append_eq_conv_conj [of "w @ [CHR ''_'']" "join_with ''_'' (v # vs)" s] by simp
  with True show ?thesis by (simp add: directoryOf_def Let_def js_includes_char w ws split: sum.splits)
qed (simp add: directoryOf_def Let_def js_includes_char split: sum.splits)

section \<open>The files shown\<close>

lemma mset_filterFiles:
  "mset xs = mset ys \<Longrightarrow> mset (filterFiles xs t) = mset (filterFiles ys t)"
  by (simp add: filterFiles_def mset_filter)

definition fuzzing_shown :: "FuzzingState \<Rightarrow> bool" where
  "fuzzing_shown s \<longleftrightarrow> mset (fz_filteredFiles s) = mset (filterFiles (fz_files s) (fz_filterText s))"

lemma fuzzing_shown_step:
  assumes "sorter_permutes srt" and "fuzzing_shown s" and "fuzzingReducer srt s a = Inr s'"
  shows "fuzzing_shown s'"
  using assms
  by (cases a) (auto simp: fuzzing_shown_def fuzzingInitialState_def filterFiles_def sorter_mset Let_def
      split: if_splits option.splits)

lemma fuzzing_shown_init: "fuzzing_shown fuzzingInitialState"
  by (simp add: fuzzing_shown_def fuzzingInitialState_def filterFiles_def)

text \<open>Whatever the page does, the files it shows are those of its list that the search selects; and
  right after an answer it shows exactly the files of that answer that the search selects, in the
  order of the table. An action fails only when no directory is given for the active one.\<close>

lemma fuzzing_files_shown:
  assumes "sorter_permutes srt" and "reduce_all (fuzzingReducer srt) fuzzingInitialState as = Inr s"
  shows "mset (fz_filteredFiles s) = mset (filterFiles (fz_files s) (fz_filterText s))
    \<and> (\<exists>s'. fuzzingReducer srt s (FuzzingGetFilesSuccess p) = Inr s'
          \<and> fz_filteredFiles s' = filterFiles (srt p (fz_sort s)) (fz_filterText s))
    \<and> (fuzzingReducer srt s a = Inl e \<longleftrightarrow> a = FuzzingSetActiveDirectory None \<and> e = TypeError)"
proof -
  have inv: "reducer_invariant (fuzzingReducer srt) fuzzingInitialState fuzzing_shown"
    by unfold_locales (auto intro: fuzzing_shown_init fuzzing_shown_step [OF assms(1)])
  have "fuzzing_shown s" by (rule reducer_invariant.inv_reachable [OF inv assms(2)])
  moreover have "fuzzingReducer srt s a = Inl e \<longleftrightarrow> a = FuzzingSetActiveDirectory None \<and> e = TypeError"
    by (cases a) (auto simp: Let_def split: option.splits)
  ultimately show ?thesis by (auto simp: fuzzing_shown_def Let_def)
qed

definition fz_file :: "string \<Rightarrow> FuzzingFile" where
  "fz_file p = \<lparr>ff_name = p @ ''.json'', ff_coverage = 40, ff_path = p\<rparr>"

lemma fuzzing_files_shown_witness:
  "\<exists>s. reduce_all (fuzzingReducer (\<lambda>xs ts. xs)) fuzzingInitialState
        [FuzzingGetFilesSuccess [fz_file ''a.rs'', fz_file ''b.rs''], FuzzingFilterFiles ''b''] = Inr s
    \<and> mset (fz_filteredFiles s) = mset (filterFiles (fz_files s) (fz_filterText s))
    \<and> fz_filteredFiles s = [fz_file ''b.rs'']"
proof -
  have perm: "sorter_permutes (\<lambda>xs ts. xs :: FuzzingFile list)" by (simp add: sorter_permutes_def)
  obtain s where s: "reduce_all (fuzzingReducer (\<lambda>xs ts. xs)) fuzzingInitialState
        [FuzzingGetFilesSuccess [fz_file ''a.rs'', fz_file ''b.rs''], FuzzingFilterFiles ''b''] = Inr s"
      and f: "fz_filteredFiles s = [fz_file ''b.rs'']"
    by (simp add: fuzzingInitialState_def filterFiles_def fz_file_def js_toLowerCase_def lower_char_def Let_def)
  have "mset (fz_filteredFiles s) = mset (filterFiles (fz_files s) (fz_filterText s))"
    using fuzzing_files_shown [OF perm s] by simp
  with s f show ?thesis by blast
qed

text \<open>An answer whose selected files are those already shown is dropped as a whole: a later change of the
  search text selects among the files of the earlier answer.\<close>

lemma fuzzing_stale_files:
  assumes "sorter_permutes srt"
    and "filterFiles (srt p (fz_sort s)) (fz_filterText s) = fz_filteredFiles s"
  shows "\<exists>s'. reduce_all (fuzzingReducer srt) s [FuzzingGetFilesSuccess p, FuzzingFilterFiles t] = Inr s'
    \<and> fz_files s' = fz_files s
    \<and> mset (fz_filteredFiles s') = mset (filterFiles (fz_files s) (Some t))"
  using assms by (simp add: Let_def sorter_mset)

section \<open>Lines\<close>

text \<open>C12. A line of a report without an ampersand, whose counters are in the order of their columns and overlap at most in the column in which
  one ends and the next begins, is shown character by character as it is. A character has the hits of the first counter
  that covers its column; it has none when no counter does, or when that counter begins in a column that an earlier
  counter covers, whose span is never opened. The colour of the line says whether all, none or some of its counters were
  hit, and its hits are the largest count.\<close>

theorem fuzzing_line_shown:
  assumes "ordered_counters (map mapCounter (rl_counters line))" and "CHR ''&'' \<notin> set (rl_line line)"
  shows "render None (fl_html (mapLine line)) =
      map (\<lambda>j. (rl_line line ! j, hits_at (map mapCounter (rl_counters line)) (int j))) [0..<length (rl_line line)]
    \<and> (rl_counters line \<noteq> [] \<longrightarrow>
        fl_lineColor (mapLine line) = Color
          (if \<forall>c \<in> set (rl_counters line). rc_count c > 0 then ''success''
           else if \<forall>c \<in> set (rl_counters line). rc_count c \<le> 0 then ''warn'' else ''aware'')
        \<and> (\<exists>c \<in> set (rl_counters line). fl_lineHits (mapLine line) = Some (nat \<bar>rc_count c\<bar>)
             \<and> (\<forall>d \<in> set (rl_counters line). \<bar>rc_count d\<bar> \<le> \<bar>rc_count c\<bar>)))"
proof -
  have hits: "\<exists>c \<in> set cs. Max (set (map lc_count (map mapCounter cs))) = nat \<bar>rc_count c\<bar>
      \<and> (\<forall>d \<in> set cs. \<bar>rc_count d\<bar> \<le> \<bar>rc_count c\<bar>)" if "cs \<noteq> []" for cs
  proof -
    let ?M = "set (map lc_count (map mapCounter cs))"
    have "Max ?M \<in> ?M" using that by (intro Max_in) auto
    then obtain c where c: "c \<in> set cs" "Max ?M = nat \<bar>rc_count c\<bar>" by (auto simp: mapCounter_def)
    have "nat \<bar>rc_count d\<bar> \<le> Max ?M" if "d \<in> set cs" for d
      using that by (intro Max_ge) (auto simp: mapCounter_def image_iff)
    with c show ?thesis by (intro bexI [of _ c]) fastforce+
  qed
  show ?thesis
    using fuzzing_html_render [OF assms] hits [of "rl_counters line"]
    by (simp add: mapLine_def Let_def getLineColor_spec)
qed

text \<open>The second counter begins where the first one ends.\<close>

definition fz_line :: raw_line where
  "fz_line = \<lparr>rl_line = ''a < b'', rl_counters =
     [\<lparr>rc_col_start = 0, rc_col_end = 1, rc_count = 3\<rparr>, \<lparr>rc_col_start = 1, rc_col_end = 2, rc_count = 5\<rparr>,
      \<lparr>rc_col_start = 4, rc_col_end = 4, rc_count = 0\<rparr>]\<rparr>"

theorem fuzzing_line_shown_witness:
  "render None (fl_html (mapLine fz_line)) =
     [(CHR ''a'', Some 3), (CHR '' '', Some 3), (CHR ''<'', None), (CHR '' '', None), (CHR ''b'', Some 0)]
   \<and> fl_lineColor (mapLine fz_line) = Color ''aware''"
proof -
  have d: "ordered_counters (map mapCounter (rl_counters fz_line))" and a: "CHR ''&'' \<notin> set (rl_line fz_line)"
    by (simp_all add: fz_line_def mapCounter_def)
  show ?thesis
    using fuzzing_line_shown [OF d a] by (simp add: fz_line_def mapCounter_def hits_at_def covers_def upt_rec numeral_eq_Suc)
qed

text \<open>When no two counters share a column, every counter that covers a column is shown there.\<close>

lemma hits_at_disjoint:
  assumes "sorted_wrt (\<lambda>k l. lc_colEnd k < lc_colStart l) ks" and "k \<in> set ks" and "covers k i"
  shows "hits_at ks i = Some (lc_count k)"
proof -
  have find: "List.find (\<lambda>l. covers l x) ks = Some k" if "covers k x" for x
    using assms(1,2) that by (induction ks) (auto simp: covers_def)
  have "covers k (lc_colStart k)" using assms(3) by (auto simp: covers_def)
  with find assms(3) show ?thesis by (simp add: hits_at_def)
qed

text \<open>A counter that begins in the last column of the counter before it is not shown.\<close>

lemma touching_counter_lost:
  assumes "lc_colEnd k = lc_colStart l" and "lc_colStart k \<le> lc_colEnd k" and "lc_colEnd k < i" and "i \<le> lc_colEnd l"
  shows "hits_at [k, l] i = None"
  using assms by (auto simp: hits_at_def covers_def)

text \<open>The ampersand is not escaped: an entity written in the source of the report is shown decoded.\<close>

lemma fuzzing_entity_decoded: "render None (colorLineCounters ''&lt;'' []) = [(CHR ''<'', None)]"
  by (simp add: colorLineCounters_def escape_angles_def entity_def upto_char_def after_char_def)

text \<open>A negative count colours the line as missed and its text as hit.\<close>

lemma fuzzing_negative_count:
  "let line = \<lparr>rl_line = ''x'', rl_counters = [\<lparr>rc_col_start = 0, rc_col_end = 0, rc_count = - 1\<rparr>]\<rparr>
   in fl_lineColor (mapLine line) = Color ''warn'' \<and> render None (fl_html (mapLine line)) = [(CHR ''x'', Some 1)]"
proof -
  let ?l = "\<lparr>rl_line = ''x'', rl_counters = [\<lparr>rc_col_start = 0, rc_col_end = 0, rc_count = - 1\<rparr>]\<rparr>"
  show ?thesis
    using fuzzing_html_render [of "map mapCounter (rl_counters ?l)" "rl_line ?l"]
    by (simp add: mapLine_def Let_def getLineColor_def mapCounter_def hits_at_def covers_def)
qed

section \<open>The code panel\<close>

text \<open>The request for the details of a file is not cancelled when the code panel is closed: its answer
  is dispatched, puts an empty object in place of the active file, which opens the panel again, and the next
  poll asks for a report named \<open>undefined\<close>.\<close>

lemma fuzzing_panel_reopens:
  assumes "fz_activeDirectory s = Some d" and "fz_activeFileDetails s \<noteq> Some details"
  shows "\<exists>s'. rx_run (fuzzing_getFileDetails_effect now) ((), None)
        [Rx_action (FuzzingGetFileDetails (File f), s), Rx_action (hd (fst fuzzing_closeSidePanel), s), Rx_value details]
        [Dispatch (FuzzingGetFileDetailsSuccess details)] ((), None)
    \<and> reduce_all (fuzzingReducer srt) s
        (FuzzingGetFileDetails (File f) # fst fuzzing_closeSidePanel @ [FuzzingGetFileDetailsSuccess details]) = Inr s'
    \<and> fuzzing_isActiveRow (fz_activeFile s') False
    \<and> (\<exists>a. fuzzing_files_tick (fz_activeFile s') = [a]
        \<and> on_action (fuzzing_getFileDetails_effect now) (a, s') () =
            ((), Switch_request (Inr (''assets/reports/'' @ fd_fullName d @ ''/undefined''))))"
  using assms
  by (simp add: rx_run_Cons fuzzing_getFileDetails_effect_def fuzzing_closeSidePanel_def fuzzing_isActiveRow_def
      fuzzing_files_tick_def active_fullName_def getFileDetails_url_def)

lemma fuzzing_panel_reopens_witness:
  "\<exists>s'. reduce_all (fuzzingReducer (\<lambda>xs ts. xs)) (fuzzingInitialState\<lparr>fz_activeDirectory := Some
         \<lparr>fd_fullName = ''0_run'', fd_name = ''run'', fd_date = ''-'', fd_dateNumber = 0\<rparr>\<rparr>)
       [FuzzingGetFileDetails (File (fz_file ''a.rs'')), FuzzingGetFileDetails No_file,
        FuzzingGetFileDetailsSuccess no_details] = Inr s'
     \<and> fuzzing_isActiveRow (fz_activeFile s') False"
  using fuzzing_panel_reopens [of "fuzzingInitialState\<lparr>fz_activeDirectory := Some
         \<lparr>fd_fullName = ''0_run'', fd_name = ''run'', fd_date = ''-'', fd_dateNumber = 0\<rparr>\<rparr>"
      "\<lparr>fd_fullName = ''0_run'', fd_name = ''run'', fd_date = ''-'', fd_dateNumber = 0\<rparr>" no_details "[]"
      "fz_file ''a.rs''" "\<lambda>xs ts. xs"]
  by (auto simp: fuzzingInitialState_def fuzzing_closeSidePanel_def)

end
