(* ===== verification/Web_Node.thy ===== *)
theory Web_Node
  imports App_Config
begin

text \<open>
  The web node in the browser: the service that loads and starts it (\<open>core/services/web-node.service.ts\<close>), the
  progress of its download (\<open>core/helpers/file-progress.helper.ts\<close>), the upload of a key and the page that
  initialises it (\<open>features/web-node\<close>).

  The WebAssembly module, the zip library, \<open>JSON.parse\<close> and the sources of randomness and time are parameters
  or arguments. The initialisation page is an event system: its state holds the running timers of the browser
  with the local variables of their callbacks, and an event is a progress report of the service, a timer that
  fires, a report of the download or an error.
\<close>

section \<open>The service\<close>

record PrivateStake =
  ps_publicKey :: string
  ps_password :: "string option"
  ps_stake :: json

record key_pair =
  kp_publicKey :: "string option"
  kp_privateKey :: "string option"

text \<open>The network of the arguments is a name or the number of a cluster.\<close>

datatype web_network = Net_name string | Net_cluster int

fun truthy_network :: "web_network option \<Rightarrow> bool" where
  "truthy_network None = False"
| "truthy_network (Some (Net_name s)) = (s \<noteq> [])"
| "truthy_network (Some (Net_cluster i)) = (i \<noteq> 0)"

record webnode_args =
  wa_network :: "web_network option"
  wa_block_producer :: "(string \<times> string) option"

definition hasWebNodeConfig :: "MinaNode list \<Rightarrow> bool" where
  "hasWebNodeConfig configs = list_ex mn_isWebNode configs"

text \<open>The key pair (secret key first in the arguments) and the network the node is started with; \<open>secrets\<close> is the
  answer for \<open>assets/webnode/web-node-secrets.json\<close>, asked for without arguments.\<close>

definition loadWasm :: "webnode_args option \<Rightarrow> key_pair \<Rightarrow> key_pair \<times> web_network" where
  "loadWasm args secrets = (case args of
      None \<Rightarrow> (secrets, Net_name ''devnet'')
    | Some a \<Rightarrow>
        ((case wa_block_producer a of
            Some (sec_key, pub_key) \<Rightarrow> \<lparr>kp_publicKey = Some pub_key, kp_privateKey = Some sec_key\<rparr>
          | None \<Rightarrow> \<lparr>kp_publicKey = None, kp_privateKey = None\<rparr>),
         if truthy_network (wa_network a) then the (wa_network a) else Net_name ''devnet''))"

definition webnode_urls :: "string \<Rightarrow> web_network \<Rightarrow> string \<times> string option" where
  "webnode_urls origin network = (case network of
      Net_cluster n \<Rightarrow> (let url = origin @ ''/clusters/'' @ show_int n @ ''/'' in (url @ ''seeds'', Some (url @ ''genesis/config'')))
    | Net_name _ \<Rightarrow> (''https://bootnodes.minaprotocol.com/networks/devnet-webrtc.txt'', None))"

text \<open>The key the node produces blocks with: \<open>null\<close>, the uploaded stake with its password, or a plain key.\<close>

datatype run_key = No_key | Stake_key json "string option" | Plain_key "string option"

definition webnode_privateKey :: "bool \<Rightarrow> PrivateStake option \<Rightarrow> key_pair \<Rightarrow> run_key" where
  "webnode_privateKey noBlockProduction privateStake keyPair =
     (if noBlockProduction then No_key
      else case privateStake of
          Some p \<Rightarrow> Stake_key (ps_stake p) (ps_password p)
        | None \<Rightarrow> Plain_key (kp_privateKey keyPair))"

text \<open>The \<open>tap\<close> of \<open>peers$\<close>: the first time a peer is connected it is reported, with the seconds since the start, and
  the progress becomes \<open>Connected\<close>.\<close>

definition peers_tap :: "int \<Rightarrow> int \<Rightarrow> string list \<Rightarrow> bool \<Rightarrow> bool \<times> (rat \<times> string) option" where
  "peers_tap now startTime connection_statuses firstPeerConnected =
     (if \<not> firstPeerConnected \<and> ''Connected'' \<in> set connection_statuses
      then (True, Some (of_int (now - startTime) / 1000, ''Connected''))
      else (firstPeerConnected, None))"

text \<open>\<open>path.split('?id=')[1]\<close>, and the slot as a number when it is one.\<close>

fun after_sub :: "string \<Rightarrow> string \<Rightarrow> string option" where
  "after_sub t [] = (if t = [] then Some [] else None)"
| "after_sub t (c # cs) = (if js_startsWith (c # cs) t then Some (drop (length t) (c # cs)) else after_sub t cs)"

fun before_sub :: "string \<Rightarrow> string \<Rightarrow> string" where
  "before_sub t [] = []"
| "before_sub t (c # cs) = (if js_startsWith (c # cs) t then [] else c # before_sub t cs)"

datatype action_slot = Slot_number rat | Slot_text "string option"

definition webnode_actions_slot :: "string \<Rightarrow> action_slot" where
  "webnode_actions_slot path =
     (let slot = map_option (before_sub ''?id='') (after_sub ''?id='' path)
      in case slot of
           None \<Rightarrow> Slot_text None
         | Some t \<Rightarrow> (case js_Number t of Finite q \<Rightarrow> Slot_number q | NaN \<Rightarrow> Slot_text (Some t)))"

section \<open>Memory, devices and keys\<close>

record memory_descriptor =
  md_initial :: js_number
  md_maximum :: js_number
  md_shared :: bool

definition webnode_memory :: "(string \<Rightarrow> string option) \<Rightarrow> memory_descriptor" where
  "webnode_memory queryParams =
     (let given = (\<lambda>k. case queryParams k of Some v \<Rightarrow> if v \<noteq> [] then Some v else None | None \<Rightarrow> None)
      in \<lparr>md_initial = (case given ''initial'' of Some v \<Rightarrow> js_Number v | None \<Rightarrow> Finite 176),
          md_maximum = (case given ''maximum'' of Some v \<Rightarrow> js_Number v | None \<Rightarrow> Finite 65536),
          md_shared = (case given ''shared'' of Some v \<Rightarrow> v = ''true'' | None \<Rightarrow> True)\<rparr>)"

text \<open>Whether the device is supported, and whether it is a phone.\<close>

definition checkIfDeviceIsSupported :: "bool \<Rightarrow> bool \<Rightarrow> nat \<Rightarrow> bool \<times> bool" where
  "checkIfDeviceIsSupported ios firefox iosVersion =
     (if ios then (iosVersion \<ge> 18, True) else if firefox then (False, False) else (True, False))"

text \<open>The state of the upload, with the fields of the service and the features of the configuration that it changes.\<close>

record upload_state =
  up_validFiles :: bool
  up_error :: bool
  up_uploadedFileName :: "string option"
  up_features :: "string list"
  up_privateStake :: "PrivateStake option"
  up_noBlockProduction :: bool

definition strip_newlines :: "string \<Rightarrow> string" where
  "strip_newlines s = filter (\<lambda>c. c \<noteq> CHR 0x0A \<and> c \<noteq> CHR 0x0D) s"

definition js_endsWith :: "string \<Rightarrow> string \<Rightarrow> bool" where
  "js_endsWith s t = js_startsWith (rev s) (rev t)"

text \<open>\<open>files\<close> are the entries of the archive that could be read, \<open>failed\<close> says whether the archive or an entry of
  it could not; \<open>parse\<close> is \<open>JSON.parse\<close>. An exception of \<open>parse\<close> is lost in the promise.\<close>

definition onFileSelected ::
  "(string \<Rightarrow> js_error + json) \<Rightarrow> string \<Rightarrow> bool \<Rightarrow> (string \<times> string) list \<Rightarrow> upload_state \<Rightarrow> upload_state" where
  "onFileSelected parse zipName failed files s0 =
     (let s = s0\<lparr>up_uploadedFileName := Some zipName\<rparr>;
          error = (up_error s \<or> failed);
          content = (\<lambda>P. map_option snd (List.find (\<lambda>(name, _). P name) files));
          publicKey = content (\<lambda>n. js_endsWith n ''.pub'');
          password = map_option strip_newlines (content (\<lambda>n. js_includes n ''password''));
          stake = content (\<lambda>n. \<not> js_includes n ''password'' \<and> \<not> js_endsWith n ''.pub'');
          falsy = (\<lambda>v. v = None \<or> v = Some [])
      in if error \<or> falsy publicKey \<or> falsy stake then s\<lparr>up_error := True\<rparr>
         else case parse (the stake) of
             Inl _ \<Rightarrow> s\<lparr>up_error := error\<rparr>
           | Inr j \<Rightarrow> s\<lparr>up_error := error, up_validFiles := True,
               up_privateStake := Some \<lparr>ps_publicKey = the publicKey, ps_password = password, ps_stake = j\<rparr>\<rparr>)"

definition clearFiles :: "upload_state \<Rightarrow> upload_state" where
  "clearFiles s = s\<lparr>up_validFiles := False, up_uploadedFileName := None, up_privateStake := None, up_error := False\<rparr>"

definition onStartDevelopWebnodeNonBP :: "upload_state \<Rightarrow> upload_state" where
  "onStartDevelopWebnodeNonBP s = s\<lparr>up_privateStake := None, up_noBlockProduction := True,
     up_features := filter (\<lambda>f. f \<noteq> ''block-production'') (up_features s)\<rparr>"

definition onStartDevelopWebnode :: "upload_state \<Rightarrow> upload_state" where
  "onStartDevelopWebnode s = s\<lparr>up_privateStake := None\<rparr>"

section \<open>Downloading\<close>

definition WASM_FILE_SIZE :: rat where "WASM_FILE_SIZE = 31556926"

definition is_wasm_asset :: "string \<Rightarrow> bool" where
  "is_wasm_asset resource = js_endsWith (js_toLowerCase resource) ''.wasm''"

text \<open>\<open>progress.toFixed(2)\<close>, read as a number again by the page.\<close>

definition toFixed2 :: "rat \<Rightarrow> rat" where
  "toFixed2 x = of_int \<lfloor>x * 100 + 1 / 2\<rfloor> / 100"

record progress_report =
  pr_progress :: rat
  pr_status :: string
  pr_downloaded :: rat

definition emitProgress :: "string \<Rightarrow> rat \<Rightarrow> progress_report" where
  "emitProgress status progress =
     \<lparr>pr_progress = toFixed2 progress, pr_status = status, pr_downloaded = progress * WASM_FILE_SIZE / 100\<rparr>"

text \<open>What reading the body gives: a chunk of some length, its end, or an error, which is reported by the loop and
  again by the surrounding handler.\<close>

datatype body_read = Chunk nat | Body_done | Body_error

fun read_body :: "nat \<Rightarrow> body_read list \<Rightarrow> progress_report list" where
  "read_body received [] = []"
| "read_body received (Chunk n # rs) =
     emitProgress ''pending'' (of_nat (received + n) / WASM_FILE_SIZE * 100) # read_body (received + n) rs"
| "read_body received (Body_done # rs) = [emitProgress ''complete'' (of_nat received / WASM_FILE_SIZE * 100)]"
| "read_body received (Body_error # rs) =
     (let r = emitProgress ''error'' (of_nat received / WASM_FILE_SIZE * 100) in [r, r])"

text \<open>The reports of one download; without a body the request itself failed.\<close>

definition download_reports :: "body_read list option \<Rightarrow> progress_report list" where
  "download_reports body = emitProgress ''pending'' 0 #
     (case body of None \<Rightarrow> [emitProgress ''error'' 0] | Some rs \<Rightarrow> read_body 0 rs)"

section \<open>Initialisation\<close>

datatype WebNodeStepStatus = DONE | LOADING | PENDING

record WebNodeLoadingStep =
  ws_name :: string
  ws_loaded :: bool
  ws_status :: WebNodeStepStatus

text \<open>The callbacks that the browser will call, with their local variables: the two intervals of the second and third
  step, the interval that runs to the end, the loop that catches up before the third step (start, counter,
  bound), and the timeouts that warn when a step is slow.\<close>

datatype web_timer = Second_step rat | Third_step rat | To_end rat | Catch_up rat nat rat | Slow_warning nat

record web_init =
  wi_loading :: "WebNodeLoadingStep list"
  wi_loadingMessage :: string
  wi_ready :: bool
  wi_hasError :: bool
  wi_hasWarn :: bool
  wi_errors :: "string list"
  wi_progress :: rat
  wi_svg :: bool
  wi_timers :: "(nat \<times> web_timer) list"
  wi_next :: nat
  wi_secondStepInterval :: "nat option"
  wi_thirdStepInterval :: "nat option"

definition web_initial :: web_init where
  "web_initial =
     \<lparr>wi_loading =
        [\<lparr>ws_name = ''Setting up browser for Web Node'', ws_loaded = False, ws_status = LOADING\<rparr>,
         \<lparr>ws_name = ''Getting ready to produce blocks'', ws_loaded = False, ws_status = PENDING\<rparr>,
         \<lparr>ws_name = ''Connecting directly to Mina network'', ws_loaded = False, ws_status = PENDING\<rparr>],
      wi_loadingMessage = [], wi_ready = False, wi_hasError = False, wi_hasWarn = False, wi_errors = [],
      wi_progress = 0, wi_svg = False, wi_timers = [], wi_next = 0,
      wi_secondStepInterval = None, wi_thirdStepInterval = None\<rparr>"

text \<open>\<open>ngOnInit\<close>: a web node that runs already is ready at once, and nothing is listened to (\<open>False\<close>).\<close>

definition web_ngOnInit :: "bool \<Rightarrow> bool \<Rightarrow> web_init \<times> bool" where
  "web_ngOnInit noBlockProduction loaded =
     (let s = (if noBlockProduction
               then web_initial\<lparr>wi_loading := (wi_loading web_initial)[1 := (wi_loading web_initial ! 1)\<lparr>ws_name := ''Starting the Web Node''\<rparr>]\<rparr>
               else web_initial)
      in if loaded
         then (s\<lparr>wi_loading := map (\<lambda>x. x\<lparr>ws_loaded := True, ws_status := DONE\<rparr>) (wi_loading s), wi_ready := True\<rparr>, False)
         else (s, True))"

text \<open>\<open>getStepPercentages\<close> on two random numbers of the unit interval.\<close>

definition getStepPercentages :: "rat \<Rightarrow> rat \<Rightarrow> int \<times> int \<times> int" where
  "getStepPercentages r1 r2 =
     (let first = \<lfloor>r1 * 15\<rfloor> + 65; second = \<lfloor>r2 * 2\<rfloor> + 15 in (first, second, 100 - first - second))"

definition set_step :: "nat \<Rightarrow> WebNodeStepStatus \<Rightarrow> web_init \<Rightarrow> web_init" where
  "set_step i status s = s\<lparr>wi_loading := (wi_loading s)[i := (wi_loading s ! i)\<lparr>ws_status := status\<rparr>]\<rparr>"

definition set_loaded :: "nat \<Rightarrow> web_init \<Rightarrow> web_init" where
  "set_loaded i s = s\<lparr>wi_loading := (wi_loading s)[i := (wi_loading s ! i)\<lparr>ws_loaded := True\<rparr>]\<rparr>"

definition updateLoadingMessage :: "string \<Rightarrow> web_init \<Rightarrow> web_init" where
  "updateLoadingMessage message s = (if wi_hasError s \<or> wi_hasWarn s then s else s\<lparr>wi_loadingMessage := message\<rparr>)"

definition updateProgressBar :: "rat \<Rightarrow> web_init \<Rightarrow> web_init" where
  "updateProgressBar newProgress s =
     (if newProgress \<ge> 100 then s\<lparr>wi_ready := True, wi_progress := 100\<rparr> else s\<lparr>wi_progress := newProgress\<rparr>)"

definition start_timer :: "web_timer \<Rightarrow> web_init \<Rightarrow> web_init" where
  "start_timer t s = s\<lparr>wi_timers := wi_timers s @ [(wi_next s, t)], wi_next := Suc (wi_next s)\<rparr>"

definition clear_timer :: "nat option \<Rightarrow> web_init \<Rightarrow> web_init" where
  "clear_timer h s = s\<lparr>wi_timers := filter (\<lambda>(k, _). Some k \<noteq> h) (wi_timers s)\<rparr>"

definition replace_timer :: "nat \<Rightarrow> web_timer \<Rightarrow> web_init \<Rightarrow> web_init" where
  "replace_timer k t s = s\<lparr>wi_timers := map (\<lambda>(j, u). if j = k then (j, t) else (j, u)) (wi_timers s)\<rparr>"

definition advanceProgressFor2ndStep :: "web_init \<Rightarrow> web_init" where
  "advanceProgressFor2ndStep s = (start_timer (Second_step 0) s)\<lparr>wi_secondStepInterval := Some (wi_next s)\<rparr>"

definition third_interval :: "web_init \<Rightarrow> web_init" where
  "third_interval s = (start_timer (Third_step 0) s)\<lparr>wi_thirdStepInterval := Some (wi_next s)\<rparr>"

definition advanceProgressFor3rdStep :: "rat \<times> rat \<times> rat \<Rightarrow> web_init \<Rightarrow> web_init" where
  "advanceProgressFor3rdStep pct s =
     (let currentProgress = wi_progress s;
          targetProgress = fst pct + fst (snd pct) - 1;
          diff = targetProgress - currentProgress
      in if 0 < diff then start_timer (Catch_up currentProgress 0 diff) s else third_interval s)"

definition goToEndProgress :: "web_init \<Rightarrow> web_init" where
  "goToEndProgress s = start_timer (To_end (wi_progress s)) s"

text \<open>The three progress reports of the service.\<close>

definition checkWebNodeProgress :: "rat \<times> rat \<times> rat \<Rightarrow> string \<Rightarrow> web_init \<Rightarrow> web_init" where
  "checkWebNodeProgress pct state s =
     (if state = ''Loaded''
      then advanceProgressFor2ndStep (set_step 1 LOADING (set_step 0 DONE (set_loaded 0
             (start_timer (Slow_warning 1) (updateLoadingMessage ''~5 seconds left'' s)))))
      else if state = ''Started''
      then advanceProgressFor3rdStep pct (set_step 2 LOADING (set_step 1 DONE (set_step 0 DONE
             (set_loaded 1 (set_loaded 0 (clear_timer (wi_secondStepInterval s)
               (start_timer (Slow_warning 2) (updateLoadingMessage ''~3 seconds left'' s))))))))
      else if state = ''Connected''
      then goToEndProgress (set_loaded 2 (set_loaded 1 (set_loaded 0 (set_step 2 DONE (set_step 1 DONE (set_step 0 DONE
             (clear_timer (wi_thirdStepInterval s) (updateLoadingMessage ''Web Node is ready'' s))))))))
      else s)"

text \<open>A timer fires.\<close>

definition fire_timer :: "rat \<times> rat \<times> rat \<Rightarrow> nat \<Rightarrow> web_timer \<Rightarrow> web_init \<Rightarrow> web_init" where
  "fire_timer pct k t s = (case t of
      Second_step progress \<Rightarrow>
        if progress < fst (snd pct) - 1
        then updateProgressBar (fst pct + (progress + 1 / 8)) (replace_timer k (Second_step (progress + 1 / 8)) s)
        else s
    | Third_step progress \<Rightarrow>
        if progress < snd (snd pct) - 1
        then updateProgressBar (fst pct + fst (snd pct) + (progress + 1 / 8)) (replace_timer k (Third_step (progress + 1 / 8)) s)
        else s
    | To_end progress \<Rightarrow>
        if progress \<le> 100 then updateProgressBar (progress + 1) (replace_timer k (To_end (progress + 1)) s)
        else clear_timer (Some k) s
    | Catch_up current i diff \<Rightarrow>
        (let s' = updateProgressBar (current + of_nat i) s
         in if of_nat (Suc i) < diff then replace_timer k (Catch_up current (Suc i) diff) s'
            else third_interval (clear_timer (Some k) s'))
    | Slow_warning i \<Rightarrow>
        (let s' = clear_timer (Some k) s
         in if \<not> wi_hasError s \<and> ws_status (wi_loading s ! i) \<noteq> DONE
            then (updateLoadingMessage ''Slower than usual'' s')\<lparr>wi_hasWarn := True\<rparr> else s'))"

datatype web_event = Progress string | Timer nat | Download rat | Failed string | View_ready

definition web_step :: "rat \<times> rat \<times> rat \<Rightarrow> web_init \<Rightarrow> web_event \<Rightarrow> web_init" where
  "web_step pct s ev = (case ev of
      Progress state \<Rightarrow> checkWebNodeProgress pct state s
    | Timer k \<Rightarrow> (case map_of (wi_timers s) k of Some t \<Rightarrow> fire_timer pct k t s | None \<Rightarrow> s)
    | Download progress \<Rightarrow> if wi_svg s then updateProgressBar (progress * fst pct / 100) s else s
    | Failed message \<Rightarrow>
        if message \<noteq> [] then s\<lparr>wi_errors := wi_errors s @ [message], wi_loadingMessage := message, wi_hasError := True\<rparr> else s
    | View_ready \<Rightarrow> s\<lparr>wi_svg := True\<rparr>)"

definition web_run :: "rat \<times> rat \<times> rat \<Rightarrow> web_init \<Rightarrow> web_event list \<Rightarrow> web_init" where
  "web_run pct = foldl (web_step pct)"

section \<open>When the page is ready\<close>

lemmas web_defs = set_step_def set_loaded_def updateLoadingMessage_def start_timer_def clear_timer_def replace_timer_def
  advanceProgressFor2ndStep_def third_interval_def goToEndProgress_def

definition pct_ok :: "rat \<times> rat \<times> rat \<Rightarrow> bool" where
  "pct_ok pct \<longleftrightarrow> (case pct of (a, b, c) \<Rightarrow> 65 \<le> a \<and> a \<le> 79 \<and> 15 \<le> b \<and> b \<le> 16 \<and> a + b + c = 100)"

lemma getStepPercentages_ok:
  assumes "0 \<le> r1" "r1 < 1" "0 \<le> r2" "r2 < 1"
  shows "case getStepPercentages r1 r2 of (a, b, c) \<Rightarrow> pct_ok (of_int a, of_int b, of_int c)"
proof -
  have "0 \<le> \<lfloor>r1 * 15\<rfloor>" "\<lfloor>r1 * 15\<rfloor> < 15" "0 \<le> \<lfloor>r2 * 2\<rfloor>" "\<lfloor>r2 * 2\<rfloor> < 2"
    using assms by (auto simp: floor_less_iff)
  then have "rat_of_int \<lfloor>r1 * 15\<rfloor> \<le> 14" "rat_of_int \<lfloor>r2 * 2\<rfloor> \<le> 1"
    "0 \<le> rat_of_int \<lfloor>r1 * 15\<rfloor>" "0 \<le> rat_of_int \<lfloor>r2 * 2\<rfloor>"
    using of_int_le_iff [of "\<lfloor>r1 * 15\<rfloor>" 14, where ?'a = rat] of_int_le_iff [of "\<lfloor>r2 * 2\<rfloor>" 1, where ?'a = rat] by auto
  then show ?thesis by (simp add: getStepPercentages_def Let_def pct_ok_def)
qed

text \<open>The local variables of the timers: never negative, and, as long as the node is not connected, no timer runs to the
  end.\<close>

fun timer_nonneg :: "web_timer \<Rightarrow> bool" where
  "timer_nonneg (Second_step p) = (0 \<le> p)"
| "timer_nonneg (Third_step p) = (0 \<le> p)"
| "timer_nonneg (To_end p) = (0 \<le> p)"
| "timer_nonneg (Catch_up c i d) = (0 \<le> c)"
| "timer_nonneg (Slow_warning i) = True"

fun timer_calm :: "rat \<times> rat \<times> rat \<Rightarrow> web_timer \<Rightarrow> bool" where
  "timer_calm pct (To_end p) = False"
| "timer_calm pct (Catch_up c i d) = (of_nat i < d \<and> c + d = fst pct + fst (snd pct) - 1)"
| "timer_calm pct _ = True"

definition web_bounded :: "web_init \<Rightarrow> bool" where
  "web_bounded s \<longleftrightarrow> 0 \<le> wi_progress s \<and> wi_progress s \<le> 100 \<and> (\<forall>(k, t) \<in> set (wi_timers s). timer_nonneg t)"

definition web_calm :: "rat \<times> rat \<times> rat \<Rightarrow> web_init \<Rightarrow> bool" where
  "web_calm pct s \<longleftrightarrow> \<not> wi_ready s \<and> wi_progress s < 100 \<and> (\<forall>(k, t) \<in> set (wi_timers s). timer_calm pct t)"

fun event_ok :: "web_event \<Rightarrow> bool" where
  "event_ok (Download p) = (0 \<le> p \<and> p \<le> 100)"
| "event_ok _ = True"

lemma fire_bounded:
  assumes "pct_ok pct" and "web_bounded s" and "map_of (wi_timers s) k = Some t"
  shows "web_bounded (fire_timer pct k t s)"
proof -
  obtain a b c where pct: "pct = (a, b, c)" by (cases pct)
  have "timer_nonneg t" using assms(2) map_of_SomeD [OF assms(3)] by (auto simp: web_bounded_def)
  with assms(1,2) show ?thesis
    by (cases t)
      (auto simp: pct pct_ok_def fire_timer_def web_bounded_def updateProgressBar_def web_defs Let_def split: if_splits)
qed

lemma web_bounded_step:
  assumes "pct_ok pct" and "web_bounded s" and "event_ok ev"
  shows "web_bounded (web_step pct s ev)"
proof (cases ev)
  case (Progress st)
  with assms show ?thesis
    by (auto simp: web_step_def checkWebNodeProgress_def advanceProgressFor3rdStep_def web_bounded_def web_defs Let_def)
next
  case (Timer k)
  with assms fire_bounded show ?thesis by (auto simp: web_step_def split: option.splits)
next
  case (Download p)
  with assms show ?thesis by (auto simp: web_step_def web_bounded_def updateProgressBar_def pct_ok_def)
qed (use assms in \<open>auto simp: web_step_def web_bounded_def\<close>)

lemma fire_calm:
  assumes "pct_ok pct" and "web_calm pct s" and "map_of (wi_timers s) k = Some t"
  shows "web_calm pct (fire_timer pct k t s)"
proof -
  obtain a b c where pct: "pct = (a, b, c)" by (cases pct)
  have "timer_calm pct t" using assms(2) map_of_SomeD [OF assms(3)] by (auto simp: web_calm_def)
  with assms(1,2) show ?thesis
    by (cases t)
      (auto simp: pct pct_ok_def fire_timer_def web_calm_def updateProgressBar_def web_defs Let_def split: if_splits)
qed

lemma web_calm_step:
  assumes "pct_ok pct" and "web_calm pct s" and "event_ok ev" and "ev \<noteq> Progress ''Connected''"
  shows "web_calm pct (web_step pct s ev)"
proof (cases ev)
  case (Progress st)
  with assms show ?thesis
    by (auto simp: web_step_def checkWebNodeProgress_def advanceProgressFor3rdStep_def web_calm_def web_defs Let_def)
next
  case (Timer k)
  with assms fire_calm show ?thesis by (auto simp: web_step_def split: option.splits)
next
  case (Download p)
  obtain a b c where pct: "pct = (a, b, c)" by (cases pct)
  have "p * a / 100 < 100"
  proof -
    have "p * a \<le> 100 * 79" using assms(1,3) Download by (intro mult_mono) (auto simp: pct pct_ok_def)
    then show ?thesis by simp
  qed
  with assms Download show ?thesis by (auto simp: web_step_def web_calm_def updateProgressBar_def pct)
qed (use assms in \<open>auto simp: web_step_def web_calm_def\<close>)

lemma web_run_snoc: "web_run pct s (evs @ [ev]) = web_step pct (web_run pct s evs) ev"
  by (simp add: web_run_def)

lemma web_initial_ok: "web_bounded web_initial" "web_calm pct web_initial"
  by (simp_all add: web_initial_def web_bounded_def web_calm_def)

lemma web_run_ok:
  assumes "pct_ok pct"
  shows "list_all event_ok evs \<Longrightarrow> web_bounded (web_run pct web_initial evs)
    \<and> (Progress ''Connected'' \<notin> set evs \<longrightarrow> web_calm pct (web_run pct web_initial evs))"
proof (induction evs rule: rev_induct)
  case Nil
  show ?case using web_initial_ok by (simp add: web_run_def)
next
  case (snoc ev evs)
  then have ok: "list_all event_ok evs" "event_ok ev" by simp_all
  from snoc.IH [OF ok(1)] web_bounded_step [OF assms _ ok(2)] web_calm_step [OF assms _ ok(2)]
  show ?case by (auto simp: web_run_snoc)
qed



section \<open>Becoming ready\<close>

lemma map_of_filter_other: "h \<noteq> Some e \<Longrightarrow> map_of (filter (\<lambda>(k, _). Some k \<noteq> h) xs) e = map_of xs e"
  by (induction xs) auto

lemma map_of_filter_key: "k \<noteq> e \<Longrightarrow> map_of (filter (\<lambda>(j, _). j \<noteq> k) xs) e = map_of xs e"
  by (induction xs) auto

lemma map_of_replace: "map_of (map (\<lambda>(j, u). if j = k then (j, t) else (j, u)) xs) e =
    (if e = k then map_option (\<lambda>_. t) (map_of xs e) else map_of xs e)"
  by (induction xs) auto

lemma map_of_snoc_other: "n \<noteq> e \<Longrightarrow> map_of (xs @ [(n, t)]) e = map_of xs e"
  by (simp add: map_of_append map_add_def split: option.split)

text \<open>The timer \<open>e\<close> runs to the end and stands at \<open>p\<close>.\<close>

definition ends_at :: "nat \<Rightarrow> rat \<Rightarrow> web_init \<Rightarrow> bool" where
  "ends_at e p s \<longleftrightarrow> map_of (wi_timers s) e = Some (To_end p) \<and> e < wi_next s \<and>
     wi_secondStepInterval s \<noteq> Some e \<and> wi_thirdStepInterval s \<noteq> Some e"

lemmas ends_simps = ends_at_def web_defs map_of_filter_other map_of_filter_key map_of_replace map_of_snoc_other map_add_def

lemma ends_at_other:
  assumes "ends_at e p s" and "ev \<noteq> Timer e"
  shows "ends_at e p (web_step pct s ev)"
proof (cases ev)
  case (Progress st)
  with assms show ?thesis
    by (auto simp: web_step_def checkWebNodeProgress_def advanceProgressFor3rdStep_def ends_simps Let_def)
next
  case (Timer k)
  with assms show ?thesis
    by (cases "map_of (wi_timers s) k")
      (auto simp: web_step_def fire_timer_def ends_simps updateProgressBar_def Let_def split: web_timer.splits)
next
  case (Download x)
  with assms show ?thesis by (auto simp: web_step_def ends_at_def updateProgressBar_def)
qed (use assms in \<open>auto simp: web_step_def ends_at_def\<close>)

lemma ends_at_fire:
  assumes "ends_at e p s" and "p \<le> 100"
  shows "ends_at e (p + 1) (web_step pct s (Timer e)) \<and> (99 \<le> p \<longrightarrow> wi_ready (web_step pct s (Timer e)))"
  using assms by (auto simp: web_step_def fire_timer_def ends_simps updateProgressBar_def)

lemma ready_stays: "wi_ready s \<Longrightarrow> wi_ready (web_step pct s ev)"
  by (auto simp: web_step_def fire_timer_def checkWebNodeProgress_def advanceProgressFor3rdStep_def web_defs
      updateProgressBar_def Let_def split: web_event.splits option.splits web_timer.splits)

lemma ready_run: "wi_ready s \<Longrightarrow> wi_ready (web_run pct s evs)"
  by (induction evs arbitrary: s) (auto simp: web_run_def ready_stays)

lemma ends_run_ready:
  "ends_at e p s \<Longrightarrow> p \<le> 100 \<Longrightarrow> 101 \<le> p + of_nat (count_list evs (Timer e)) \<Longrightarrow> wi_ready (web_run pct s evs)"
proof (induction evs arbitrary: p s)
  case (Cons ev evs)
  have run: "web_run pct s (ev # evs) = web_run pct (web_step pct s ev) evs" by (simp add: web_run_def)
  show ?case
  proof (cases "ev = Timer e")
    case False
    with Cons.IH [OF ends_at_other [OF Cons.prems(1) False]] Cons.prems(2,3) show ?thesis by (simp add: run)
  next
    case True
    from ends_at_fire [OF Cons.prems(1,2), of pct] True have
      e: "ends_at e (p + 1) (web_step pct s ev)" "99 \<le> p \<longrightarrow> wi_ready (web_step pct s ev)" by auto
    show ?thesis
    proof (cases "99 \<le> p")
      case True
      with e ready_run show ?thesis by (simp add: run)
    next
      case False
      with Cons.IH [OF e(1)] Cons.prems(3) \<open>ev = Timer e\<close> show ?thesis
        unfolding run by (simp add: algebra_simps)
    qed
  qed
qed simp

text \<open>The handles of the intervals, and the timers, are older than the next identifier.\<close>

definition handles_ok :: "web_init \<Rightarrow> bool" where
  "handles_ok s \<longleftrightarrow> (\<forall>h. wi_secondStepInterval s = Some h \<longrightarrow> h < wi_next s)
     \<and> (\<forall>h. wi_thirdStepInterval s = Some h \<longrightarrow> h < wi_next s) \<and> (\<forall>x \<in> set (wi_timers s). fst x < wi_next s)"

lemma fire_handles: "handles_ok s \<Longrightarrow> handles_ok (fire_timer pct k t s)"
  by (cases t) (auto simp: fire_timer_def handles_ok_def web_defs updateProgressBar_def Let_def less_Suc_eq)

lemma handles_step: "handles_ok s \<Longrightarrow> handles_ok (web_step pct s ev)"
proof (cases ev)
  case (Progress st)
  then show "handles_ok s \<Longrightarrow> handles_ok (web_step pct s ev)"
    by (auto simp: web_step_def checkWebNodeProgress_def advanceProgressFor3rdStep_def handles_ok_def web_defs Let_def less_Suc_eq)
next
  case (Timer k)
  then show "handles_ok s \<Longrightarrow> handles_ok (web_step pct s ev)"
    by (auto simp: web_step_def fire_handles split: option.splits)
qed (auto simp: web_step_def handles_ok_def updateProgressBar_def)

lemma handles_run: "handles_ok (web_run pct web_initial evs)"
proof (induction evs rule: rev_induct)
  case Nil
  show ?case by (simp add: web_run_def handles_ok_def web_initial_def)
qed (simp add: web_run_snoc handles_step)

text \<open>C20. Once a peer is connected the page becomes ready, whatever else happens, as soon as the timer that runs the
  progress to the end has fired 101 times.\<close>

theorem web_node_becomes_ready:
  assumes "pct_ok pct" and "list_all event_ok before"
    and "101 \<le> count_list after (Timer (wi_next (web_run pct web_initial before)))"
  shows "wi_ready (web_run pct web_initial (before @ Progress ''Connected'' # after))"
proof -
  define s where "s = web_run pct web_initial before"
  define s' where "s' = web_step pct s (Progress ''Connected'')"
  have b: "0 \<le> wi_progress s" "wi_progress s \<le> 100"
    using web_run_ok [OF assms(1,2)] by (auto simp: s_def web_bounded_def)
  have handles: "handles_ok s" by (simp add: s_def handles_run)
  then have fresh: "map_of (filter P (wi_timers s)) (wi_next s) = None" for P
    by (auto simp: map_of_eq_None_iff handles_ok_def)
  have "ends_at (wi_next s) (wi_progress s) s'"
    using handles fresh
    by (auto simp: handles_ok_def s'_def web_step_def checkWebNodeProgress_def ends_at_def web_defs map_add_def)
  moreover have "web_run pct web_initial (before @ Progress ''Connected'' # after) = web_run pct s' after"
    by (simp add: web_run_def s_def s'_def)
  moreover have "101 \<le> wi_progress s + of_nat (count_list after (Timer (wi_next s)))"
  proof -
    have "(101 :: rat) \<le> of_nat (count_list after (Timer (wi_next s)))"
      using assms(3) of_nat_mono [of 101 "count_list after (Timer (wi_next s))", where ?'a = rat] by (simp add: s_def)
    with b show ?thesis by simp
  qed
  ultimately show ?thesis using ends_run_ready [OF _ b(2)] by simp
qed

theorem web_node_becomes_ready_witness:
  "wi_ready (web_run (70, 15, 15) web_initial ([View_ready] @ Progress ''Connected'' # replicate 101 (Timer 0)))"
proof -
  have p: "pct_ok (70, 15, 15)" by (simp add: pct_ok_def)
  have e: "list_all event_ok [View_ready]" by simp
  have "wi_next (web_run (70, 15, 15) web_initial [View_ready]) = 0"
    by (simp add: web_run_def web_step_def web_initial_def)
  moreover have "count_list (replicate n (Timer 0)) (Timer 0) = n" for n by (induction n) auto
  ultimately have c: "101 \<le> count_list (replicate 101 (Timer 0)) (Timer (wi_next (web_run (70, 15, 15) web_initial [View_ready])))"
    by simp
  show ?thesis by (rule web_node_becomes_ready [OF p e c])
qed

text \<open>The loop that catches up before the third step is not stopped when a peer is connected: it lowers the
  progress again after the page has become ready.\<close>

lemma web_node_progress_falls:
  "let s = web_run (79, 16, 5) web_initial
       ([View_ready, Download 100, Progress ''Started'', Progress ''Connected''] @ replicate 21 (Timer 2))
   in wi_ready s \<and> wi_progress s = 100 \<and> wi_progress (web_step (79, 16, 5) s (Timer 1)) = 79"
  by code_simp

text \<open>A file bigger than the expected size makes the page ready before the node was started.\<close>

lemma web_node_ready_too_early:
  "wi_ready (web_run (79, 16, 5) web_initial [View_ready, Download 127])"
  by code_simp

section \<open>The steps shown\<close>

fun progress_reports :: "web_event list \<Rightarrow> string list" where
  "progress_reports [] = []"
| "progress_reports (Progress st # evs) =
     (if st \<in> {''Loaded'', ''Started'', ''Connected''} then st # progress_reports evs else progress_reports evs)"
| "progress_reports (_ # evs) = progress_reports evs"

definition statuses :: "web_init \<Rightarrow> WebNodeStepStatus list" where
  "statuses s = map ws_status (wi_loading s)"

definition report_statuses :: "WebNodeStepStatus list \<Rightarrow> string \<Rightarrow> WebNodeStepStatus list" where
  "report_statuses st r =
     (if r = ''Loaded'' then st[0 := DONE, 1 := LOADING]
      else if r = ''Started'' then st[0 := DONE, 1 := DONE, 2 := LOADING] else st[0 := DONE, 1 := DONE, 2 := DONE])"

lemma statuses_keep:
  "statuses (updateLoadingMessage m s) = statuses s" "statuses (start_timer t s) = statuses s"
  "statuses (clear_timer h s) = statuses s" "statuses (replace_timer k t s) = statuses s"
  "statuses (advanceProgressFor2ndStep s) = statuses s" "statuses (third_interval s) = statuses s"
  "statuses (advanceProgressFor3rdStep pct s) = statuses s" "statuses (goToEndProgress s) = statuses s"
  "statuses (updateProgressBar p s) = statuses s" "statuses (s\<lparr>wi_hasWarn := w\<rparr>) = statuses s"
  "statuses (s\<lparr>wi_svg := v\<rparr>) = statuses s"
  "statuses (s\<lparr>wi_errors := es, wi_loadingMessage := m, wi_hasError := b\<rparr>) = statuses s"
  by (simp_all add: statuses_def web_defs advanceProgressFor3rdStep_def updateProgressBar_def Let_def)

lemma statuses_set:
  "statuses (set_step i st s) = (statuses s)[i := st]" "statuses (set_loaded i s) = statuses s"
proof -
  show "statuses (set_step i st s) = (statuses s)[i := st]" by (simp add: statuses_def set_step_def map_update)
  show "statuses (set_loaded i s) = statuses s"
    by (cases "i < length (wi_loading s)") (auto simp: statuses_def set_loaded_def map_update list_update_same_conv list_update_beyond)
qed

lemma statuses_fire: "statuses (fire_timer pct k t s) = statuses s"
  by (cases t) (auto simp: fire_timer_def statuses_keep Let_def)

lemma statuses_run: "statuses (web_run pct s evs) = foldl report_statuses (statuses s) (progress_reports evs)"
proof (induction evs arbitrary: s)
  case Nil
  show ?case by (simp add: web_run_def)
next
  case (Cons ev evs)
  have "statuses (web_step pct s ev) = foldl report_statuses (statuses s) (progress_reports [ev])"
    by (cases ev) (auto simp: web_step_def checkWebNodeProgress_def statuses_keep statuses_set statuses_fire report_statuses_def
        split: option.splits)
  moreover have "progress_reports (ev # evs) = progress_reports [ev] @ progress_reports evs"
    by (cases ev) auto
  ultimately show ?case using Cons.IH [of "web_step pct s ev"] by (simp add: web_run_def)
qed

text \<open>An error keeps its message.\<close>

definition web_errors :: "web_init \<Rightarrow> bool" where
  "web_errors s \<longleftrightarrow> (wi_hasError s \<longrightarrow> wi_errors s \<noteq> [] \<and> wi_loadingMessage s = last (wi_errors s))"

lemma web_errors_step: "web_errors s \<Longrightarrow> web_errors (web_step pct s ev)"
  by (auto simp: web_step_def web_errors_def fire_timer_def checkWebNodeProgress_def advanceProgressFor3rdStep_def web_defs
      updateProgressBar_def Let_def split: web_event.splits option.splits web_timer.splits)

lemma web_errors_run: "web_errors (web_run pct web_initial evs)"
proof (induction evs rule: rev_induct)
  case Nil
  show ?case by (simp add: web_run_def web_errors_def web_initial_def)
qed (simp add: web_run_snoc web_errors_step)

text \<open>The service reports \<open>Loaded\<close>, \<open>Started\<close> and \<open>Connected\<close> in this order (a page opened later sees only the last of
  them): the steps before the one that is loading are done and those after it are pending, and the loading
  message is the last error once there was one.\<close>

lemma web_node_steps:
  assumes "progress_reports evs \<in> set (subseqs [''Loaded'', ''Started'', ''Connected''])"
  shows "map ws_status (wi_loading (web_run pct web_initial evs)) =
      (if ''Connected'' \<in> set (progress_reports evs) then [DONE, DONE, DONE]
       else if ''Started'' \<in> set (progress_reports evs) then [DONE, DONE, LOADING]
       else if ''Loaded'' \<in> set (progress_reports evs) then [DONE, LOADING, PENDING]
       else [LOADING, PENDING, PENDING])
    \<and> (wi_hasError (web_run pct web_initial evs) \<longrightarrow>
        wi_errors (web_run pct web_initial evs) \<noteq> []
        \<and> wi_loadingMessage (web_run pct web_initial evs) = last (wi_errors (web_run pct web_initial evs)))"
proof -
  have "statuses web_initial = [LOADING, PENDING, PENDING]" by (simp add: statuses_def web_initial_def)
  then have st: "map ws_status (wi_loading (web_run pct web_initial evs)) =
      foldl report_statuses [LOADING, PENDING, PENDING] (progress_reports evs)"
    using statuses_run [of pct web_initial evs] by (simp add: statuses_def)
  show ?thesis
    using assms web_errors_run [of pct evs] unfolding st
    by (auto simp: report_statuses_def web_errors_def numeral_2_eq_2)
qed

lemma web_node_steps_witness:
  "map ws_status (wi_loading (web_run (70, 15, 15) web_initial [Progress ''Loaded'', Failed ''no wasm''])) = [DONE, LOADING, PENDING]
   \<and> wi_loadingMessage (web_run (70, 15, 15) web_initial [Progress ''Loaded'', Failed ''no wasm'']) = ''no wasm''"
proof -
  let ?e = "[Progress ''Loaded'', Failed ''no wasm'']"
  have "progress_reports ?e \<in> set (subseqs [''Loaded'', ''Started'', ''Connected''])" by (simp add: Let_def)
  from web_node_steps [OF this, of "(70, 15, 15)"] show ?thesis
    by (simp add: web_run_def web_step_def)
qed

section \<open>Bytes and keys\<close>

lemma emitProgress_downloaded [simp]: "pr_downloaded (emitProgress st (of_nat n / WASM_FILE_SIZE * 100)) = of_nat n"
  by (simp add: emitProgress_def WASM_FILE_SIZE_def)

text \<open>A download reports exactly the bytes received so far, and \<open>complete\<close> once, at its end.\<close>

lemma read_body_chunks:
  "read_body r (map Chunk ns @ [Body_done]) =
     map (\<lambda>i. emitProgress ''pending'' (of_nat (r + sum_list (take (Suc i) ns)) / WASM_FILE_SIZE * 100)) [0..<length ns]
     @ [emitProgress ''complete'' (of_nat (r + sum_list ns) / WASM_FILE_SIZE * 100)]"
proof (induction ns arbitrary: r)
  case (Cons n ns)
  then show ?case by (simp add: upt_conv_Cons map_Suc_upt [symmetric] comp_def add.assoc del: upt_Suc)
qed simp

lemma web_download:
  "map pr_downloaded (download_reports (Some (map Chunk ns @ [Body_done]))) =
     map of_nat (0 # map (\<lambda>i. sum_list (take (Suc i) ns)) [0..<length ns] @ [sum_list ns])"
  "map pr_status (download_reports (Some (map Chunk ns @ [Body_done]))) = replicate (Suc (length ns)) ''pending'' @ [''complete'']"
proof -
  have "map (\<lambda>i. c) [0..<n] = replicate n c" for c :: string and n by (simp add: map_replicate_const)
  then show "map pr_status (download_reports (Some (map Chunk ns @ [Body_done]))) = replicate (Suc (length ns)) ''pending'' @ [''complete'']"
    unfolding download_reports_def by (simp add: read_body_chunks emitProgress_def comp_def)
  have "pr_downloaded (emitProgress ''pending'' 0) = 0" by (simp add: emitProgress_def)
  then show "map pr_downloaded (download_reports (Some (map Chunk ns @ [Body_done]))) =
     map of_nat (0 # map (\<lambda>i. sum_list (take (Suc i) ns)) [0..<length ns] @ [sum_list ns])"
    unfolding download_reports_def by (simp add: read_body_chunks comp_def) (simp add: emitProgress_def WASM_FILE_SIZE_def)
qed

text \<open>An archive is accepted when nothing failed, it has a public key, and its stake can be parsed; a second archive
  after a failed one is refused until the files are cleared.\<close>

lemma web_upload_valid:
  assumes "\<not> up_validFiles s"
  shows "up_validFiles (onFileSelected parse zipName failed files s) \<longleftrightarrow>
    \<not> up_error s \<and> \<not> failed
    \<and> (\<exists>n c. List.find (\<lambda>(name, _). js_endsWith name ''.pub'') files = Some (n, c) \<and> c \<noteq> [])
    \<and> (\<exists>n c j. List.find (\<lambda>(name, _). \<not> js_includes name ''password'' \<and> \<not> js_endsWith name ''.pub'') files = Some (n, c)
        \<and> c \<noteq> [] \<and> parse c = Inr j)"
  using assms by (auto simp: onFileSelected_def Let_def split: sum.splits option.splits)

lemma web_upload_retry:
  "up_error s \<Longrightarrow> up_validFiles (onFileSelected parse zipName failed files s) = up_validFiles s"
  "\<not> up_error (clearFiles s)"
  by (simp_all add: onFileSelected_def clearFiles_def Let_def)

text \<open>A stake that is not JSON is neither accepted nor reported.\<close>

lemma web_upload_silent:
  "onFileSelected (\<lambda>_. Inl (Error ''Unexpected token'')) ''k.zip'' False [(''k.pub'', ''B62''), (''k'', ''{'')] s
     = s\<lparr>up_uploadedFileName := Some ''k.zip''\<rparr> \<or> up_error s"
  by (auto simp: onFileSelected_def Let_def js_endsWith_def)

text \<open>Without block production no key is given to the node, whatever was uploaded.\<close>

lemma web_no_block_production:
  "webnode_privateKey (up_noBlockProduction (onStartDevelopWebnodeNonBP s)) stake kp = No_key"
  by (simp add: onStartDevelopWebnodeNonBP_def webnode_privateKey_def)

end
