(* ===== verification/Scan_Chart.thy ===== *)
theory Scan_Chart
  imports Scan_State
begin

text \<open>
  The components of the scan state page: the chart that draws one tree of jobs
  (\<open>scan-state-tree-chart\<close>), the toolbar with the search for a block, the page that polls, the list of trees and the
  side panel.

  \<open>buildTree\<close> links objects by reference from a stack; the objects are the cells of a store, in the order in which
  they are made. The traversal and the layout of D3 are arguments: \<open>desc\<close> lists the nodes of a hierarchy with their
  depths (documented as breadth first), \<open>part\<close> the rectangles of these nodes for a given size. Pixels are rationals.
\<close>

section \<open>The tree of a list of jobs\<close>

datatype SSTree = SSNode (ss_leaf: "ScanStateLeaf option") (ss_size: "nat option") (ss_children: "SSTree list")

record ss_obj =
  so_leaf :: "ScanStateLeaf option"
  so_size :: "nat option"
  so_children :: "nat list"

definition new_obj :: "ScanStateLeaf option \<Rightarrow> ss_obj" where
  "new_obj l = \<lparr>so_leaf = l, so_size = None, so_children = []\<rparr>"

definition leaf_at :: "ScanStateLeaf list \<Rightarrow> nat \<Rightarrow> ScanStateLeaf option" where
  "leaf_at leafs i = (if i < length leafs then Some (leafs ! i) else None)"

text \<open>A child is made, pushed to the children of the current node and to the stack.\<close>

definition add_child ::
  "ScanStateLeaf list \<Rightarrow> nat \<Rightarrow> nat \<Rightarrow> (nat \<times> nat) list \<times> ss_obj list \<Rightarrow> (nat \<times> nat) list \<times> ss_obj list" where
  "add_child leafs a i = (\<lambda>(stack, h).
     (if i < length leafs
      then ((length h, i) # stack,
            h[a := (h ! a)\<lparr>so_children := so_children (h ! a) @ [length h]\<rparr>] @ [new_obj (leaf_at leafs i)])
      else (stack, h)))"

definition set_size :: "ScanStateLeaf list \<Rightarrow> nat \<Rightarrow> nat \<Rightarrow> ss_obj list \<Rightarrow> ss_obj list" where
  "set_size leafs a i h =
     (if 2 * i + 1 \<ge> length leafs \<and> 2 * i + 2 \<ge> length leafs then h[a := (h ! a)\<lparr>so_size := Some 1\<rparr>] else h)"

lemma stack_measure: "(3 :: nat) ^ (n - (2 * i + 1)) + (if 2 * i + 2 < n then 3 ^ (n - (2 * i + 2)) else 0) < 3 ^ (n - i)"
  if "2 * i + 1 < n" for n i :: nat
proof -
  define k where "k = n - (2 * i + 1)"
  have n: "n - i = Suc (k + i)" and k: "n - (2 * i + 2) = k - 1" "0 < k" using that by (auto simp: k_def)
  have "(3 :: nat) ^ (k - 1) \<le> 3 ^ k" "(3 :: nat) ^ k \<le> 3 ^ (k + i)" by (simp_all add: power_increasing)
  moreover have "(0 :: nat) < 3 ^ k" by simp
  ultimately have "(3 :: nat) ^ k + 3 ^ (k - 1) < 3 ^ (n - i)" by (simp only: n power_Suc)
  then show ?thesis unfolding k(1) k_def [symmetric] by (cases "2 * i + 2 < n") (simp_all add: n)
qed

function buildTree_loop :: "ScanStateLeaf list \<Rightarrow> (nat \<times> nat) list \<Rightarrow> ss_obj list \<Rightarrow> ss_obj list" where
  "buildTree_loop leafs [] h = h"
| "buildTree_loop leafs ((a, i) # stack) h =
     (let (stack', h') = add_child leafs a (2 * i + 2) (add_child leafs a (2 * i + 1) (stack, h))
      in buildTree_loop leafs stack' (set_size leafs a i h'))"
  by pat_completeness auto
termination
proof (relation "measure (\<lambda>(leafs, stack, h). sum_list (map (\<lambda>(a, i). 3 ^ (length leafs - i)) stack))")
  fix leafs :: "ScanStateLeaf list" and a i stack h x stack' h'
  assume x: "x = add_child leafs a (2 * i + 2) (add_child leafs a (2 * i + 1) (stack, h))" "(stack', h') = x"
  have pos: "(0 :: nat) < 3 ^ (length leafs - i)" by simp
  show "((leafs, stack', set_size leafs a i h'), leafs, (a, i) # stack, h)
    \<in> measure (\<lambda>(leafs, stack, h). sum_list (map (\<lambda>(a, i). 3 ^ (length leafs - i)) stack))"
    using x stack_measure [of i "length leafs"] pos by (auto simp: add_child_def split: if_splits)
qed simp

text \<open>The objects reachable from an object; a child is always made after its parent.\<close>

function read_tree :: "ss_obj list \<Rightarrow> nat \<Rightarrow> SSTree" where
  "read_tree h a = SSNode (so_leaf (h ! a)) (so_size (h ! a))
     (map (read_tree h) (filter (\<lambda>c. a < c \<and> c < length h) (so_children (h ! a))))"
  by pat_completeness auto
termination by (relation "measure (\<lambda>(h, a). length h - a)") auto

declare read_tree.simps [simp del]

definition buildTree :: "ScanStateLeaf list \<Rightarrow> SSTree" where
  "buildTree leafs = read_tree (buildTree_loop leafs [(0, 0)] [new_obj (leaf_at leafs 0)]) 0"

section \<open>The chart\<close>

record cell_rect =
  cr_x0 :: rat
  cr_x1 :: rat
  cr_y0 :: rat
  cr_y1 :: rat

record chart_cell =
  cc_leaf :: "ScanStateLeaf option"
  cc_depth :: nat
  cc_rect :: cell_rect

abbreviation numOfRows :: nat where
  "numOfRows \<equiv> 8"

type_synonym descendants = "SSTree \<Rightarrow> (SSTree \<times> nat) list"
type_synonym partition = "rat \<times> rat \<Rightarrow> SSTree \<Rightarrow> cell_rect list"

definition chart_cells ::
  "descendants \<Rightarrow> partition \<Rightarrow> rat \<Rightarrow> rat \<Rightarrow> ScanStateLeaf list \<Rightarrow> chart_cell list" where
  "chart_cells desc part width height leafs =
     (let tree = buildTree leafs
      in map (\<lambda>((t, d), r). \<lparr>cc_leaf = ss_leaf t, cc_depth = d, cc_rect = r\<rparr>)
           (List.zip (desc tree) (part (width, height - 10) tree)))"

text \<open>The cells, and the width of the first cell of the seventh row; without such a cell its coordinates are read from
  \<open>undefined\<close>.\<close>

definition drawTree ::
  "descendants \<Rightarrow> partition \<Rightarrow> rat \<Rightarrow> rat \<Rightarrow> ScanStateLeaf list \<Rightarrow> js_error + chart_cell list \<times> rat" where
  "drawTree desc part width height leafs =
     (let cells = chart_cells desc part width height leafs
      in case filter (\<lambda>c. cc_depth c = numOfRows - 2) cells of
           [] \<Rightarrow> Inl TypeError
         | c # _ \<Rightarrow> Inr (cells, cr_x1 (cc_rect c) - cr_x0 (cc_rect c)))"

definition cell_transform :: "bool \<Rightarrow> rat \<Rightarrow> chart_cell \<Rightarrow> rat \<times> rat" where
  "cell_transform treeView leafWidth c =
     (let r = cc_rect c; d = cc_depth c
      in if \<not> treeView then (cr_x0 r, cr_y0 r)
         else let rowWidth = (if d < numOfRows - 2 then leafWidth / 2 ^ (numOfRows - d) else cr_x1 r - cr_x0 r);
                  x0 = (if d < numOfRows - 2 then (cr_x0 r + cr_x1 r) / 2 - rowWidth / 2 - leafWidth / 2 else cr_x0 r)
              in (x0, cr_y0 r))"

definition cell_width :: "bool \<Rightarrow> rat \<Rightarrow> chart_cell \<Rightarrow> rat" where
  "cell_width treeView leafWidth c =
     (if treeView \<and> cc_depth c < numOfRows - 1 then leafWidth else cr_x1 (cc_rect c) - cr_x0 (cc_rect c))"

definition rectsFill :: "ScanStateLeaf option \<Rightarrow> bool \<Rightarrow> string" where
  "rectsFill leaf highlight = (case leaf of
      None \<Rightarrow> ''var(--base-container)''
    | Some l \<Rightarrow>
        if lf_status l = Some Done then ''var(--special-selected-alt-2-tertiary)''
        else if lf_status l = Some Todo then ''var(--base-tertiary)''
        else if lf_status l = Some Pending
          then if highlight then ''var(--aware-tertiary)'' else ''var(--base-tertiary)''
        else ''var(--base-container)'')"

text \<open>Without a leaf the status is read from \<open>undefined\<close>, if the snarks are highlighted.\<close>

definition hasPulseEffect :: "ScanStateLeaf option \<Rightarrow> bool \<Rightarrow> js_error + bool" where
  "hasPulseEffect leaf highlight =
     (if \<not> highlight then Inr False
      else case leaf of
          None \<Rightarrow> Inl TypeError
        | Some l \<Rightarrow> Inr (lf_status l = Some Pending \<and> lf_snark l = None))"

text \<open>The rectangle around the active leaf: its index, width, height and position.\<close>

definition updateHighlightRect ::
  "bool \<Rightarrow> rat \<Rightarrow> chart_cell list \<Rightarrow> ScanStateLeaf option \<Rightarrow> (nat \<times> rat \<times> rat \<times> rat \<times> rat) option" where
  "updateHighlightRect treeView leafWidth cells activeLeaf =
     (case Option.bind activeLeaf lf_jobIndex of
        None \<Rightarrow> None
      | Some i \<Rightarrow>
          if i < length cells
          then let c = cells ! i; r = cc_rect c
               in Some (i, if treeView \<and> cc_depth c < numOfRows - 1 then leafWidth else cr_x1 r - cr_x0 r - 1,
                        cr_y1 r - cr_y0 r - 1, cell_transform treeView leafWidth c)
          else None)"

text \<open>The lines of the tree view.\<close>

definition line_shown :: "chart_cell \<Rightarrow> chart_cell \<Rightarrow> bool" where
  "line_shown source target \<longleftrightarrow> cc_depth source \<le> numOfRows - 3 \<and> cc_depth target \<le> numOfRows - 3"

definition line_ends :: "rat \<Rightarrow> chart_cell \<Rightarrow> chart_cell \<Rightarrow> (rat \<times> rat) \<times> (rat \<times> rat)" where
  "line_ends leafWidth source target =
     (let s = cc_rect source; t = cc_rect target;
          offset = leafWidth / 2 *
            (if cr_x0 s + fst (cell_transform True leafWidth source) > cr_x0 t + fst (cell_transform True leafWidth target)
             then - 1 else 1)
      in (((cr_x0 s + cr_x1 s) / 2 + offset, (cr_y0 s + cr_y1 s) / 2),
          ((cr_x0 t + cr_x1 t) / 2, cr_y0 t + 1 / 2)))"

definition line_stroke :: "ScanStateLeaf \<Rightarrow> ScanStateLeaf \<Rightarrow> string \<times> string" where
  "line_stroke source target =
     (if lf_status source = Some Empty \<or> lf_status target = Some Empty
      then (''var(--base-divider)'', ''1px'') else (''var(--base-tertiary)'', ''0.7px''))"

text \<open>The jobs under the chart.\<close>

definition baseJobs :: "ScanStateLeaf list \<Rightarrow> ScanStateLeaf list" where
  "baseJobs leafs = drop (length leafs - 128) leafs"

datatype job_shape = Circle | Star | Square | Triangle | Line

definition job_shape :: "ScanStateLeaf \<Rightarrow> job_shape" where
  "job_shape l =
     (if lf_kind l = Some ''Payment'' then Circle
      else if lf_kind l = Some ''Zkapp'' then Star
      else if lf_kind l = Some ''Coinbase'' then Square
      else if lf_kind l = Some ''FeeTransfer'' then Triangle
      else Line)"

text \<open>\<open>hasJob\<close> tells whether the leaf has a job at all; a job may have another kind.\<close>

definition job_fill :: "bool \<Rightarrow> ScanStateLeaf \<Rightarrow> string" where
  "job_fill hasJob l =
     (if \<not> hasJob then ''var(--base-tertiary)''
      else if lf_kind l = Some ''Coinbase'' then ''var(--code-teal)''
      else if lf_kind l = Some ''FeeTransfer'' then ''var(--code-purple)''
      else if lf_kind l = Some ''Payment'' then ''var(--base-primary)''
      else if lf_kind l = Some ''Zkapp'' then ''var(--code-magenta)''
      else ''var(--base-container)'')"

text \<open>The tooltip: status, colours, classes and horizontal position.\<close>

definition tooltip_status :: "ScanStateLeaf \<Rightarrow> ScanStateLeafStatus option + string" where
  "tooltip_status l =
     (if lf_status l = Some Pending \<and> lf_commitment l \<noteq> None \<and> lf_snark l = None then Inr ''Ongoing''
      else Inl (lf_status l))"

definition getColorByStatus :: "ScanStateLeafStatus option \<Rightarrow> bool \<Rightarrow> string" where
  "getColorByStatus status highlight =
     (if status = Some Done then ''var(--special-selected-alt-2-primary)''
      else if status = Some Todo then ''var(--base-primary)''
      else if status = Some Pending then if highlight then ''var(--aware-primary)'' else ''var(--base-primary)''
      else ''var(--base-tertiary)'')"

definition getClassByKind :: "string option \<Rightarrow> string" where
  "getClassByKind kind =
     (if kind = Some ''Coinbase'' then ''code-teal''
      else if kind = Some ''FeeTransfer'' then ''code-purple''
      else if kind = Some ''Zkapp'' then ''code-magenta''
      else if kind = Some ''Payment'' then ''primary''
      else ''tertiary'')"

definition tooltip_left :: "rat \<Rightarrow> rat \<Rightarrow> rat \<Rightarrow> rat \<Rightarrow> rat \<Rightarrow> rat" where
  "tooltip_left nodeLeft nodeWidth tooltipWidth chartLeft width =
     max (min (nodeLeft + nodeWidth / 2 - tooltipWidth / 2) (chartLeft + width - tooltipWidth)) chartLeft"

text \<open>A click on a cell: the action, and the job of the address.\<close>

definition cell_click :: "chart_cell \<Rightarrow> js_error + ScanStateActions \<times> string option" where
  "cell_click c = (case cc_leaf c of
      None \<Rightarrow> Inl TypeError
    | Some l \<Rightarrow> Inr (SCAN_STATE_SET_ACTIVE_LEAF (Some l), lf_bundle_job_id l))"

section \<open>The stack builds the heap\<close>

text \<open>The tree in which the node \<open>i\<close> has the children \<open>2i+1\<close> and \<open>2i+2\<close>.\<close>

function heap_tree :: "ScanStateLeaf list \<Rightarrow> nat \<Rightarrow> SSTree" where
  "heap_tree leafs i = SSNode (leaf_at leafs i) (if length leafs \<le> 2 * i + 1 then Some 1 else None)
     ((if 2 * i + 1 < length leafs then [heap_tree leafs (2 * i + 1)] else [])
      @ (if 2 * i + 2 < length leafs then [heap_tree leafs (2 * i + 2)] else []))"
  by pat_completeness auto
termination by (relation "measure (\<lambda>(leafs, i). length leafs - i)") auto

declare heap_tree.simps [simp del]

text \<open>What is on the stack: different objects, still without children and size, of the leaves with their indices.\<close>

definition stack_ok :: "ScanStateLeaf list \<Rightarrow> (nat \<times> nat) list \<Rightarrow> ss_obj list \<Rightarrow> bool" where
  "stack_ok leafs stack h \<longleftrightarrow> distinct (map fst stack) \<and>
     (\<forall>(a, i) \<in> set stack. a < length h \<and> h ! a = new_obj (leaf_at leafs i))"

text \<open>One round of the loop.\<close>

definition build_round :: "ScanStateLeaf list \<Rightarrow> nat \<Rightarrow> nat \<Rightarrow> (nat \<times> nat) list \<Rightarrow> ss_obj list
    \<Rightarrow> (nat \<times> nat) list \<times> ss_obj list" where
  "build_round leafs a i stack h =
     (let (stack', h') = add_child leafs a (2 * i + 2) (add_child leafs a (2 * i + 1) (stack, h))
      in (stack', set_size leafs a i h'))"

definition kids :: "ScanStateLeaf list \<Rightarrow> nat \<Rightarrow> nat list" where
  "kids leafs i = filter (\<lambda>j. j < length leafs) [2 * i + 1, 2 * i + 2]"

definition built_obj :: "ScanStateLeaf list \<Rightarrow> nat \<Rightarrow> nat \<Rightarrow> ss_obj" where
  "built_obj leafs i n = \<lparr>so_leaf = leaf_at leafs i, so_size = (if length leafs \<le> 2 * i + 1 then Some 1 else None),
     so_children = [n..<n + length (kids leafs i)]\<rparr>"

lemma build_round_eq:
  assumes "a < length h" and "h ! a = new_obj (leaf_at leafs i)"
  shows "build_round leafs a i stack h =
    (rev (List.zip [length h..<length h + length (kids leafs i)] (kids leafs i)) @ stack,
     h[a := built_obj leafs i (length h)] @ map (\<lambda>j. new_obj (leaf_at leafs j)) (kids leafs i))"
proof -
  consider "length leafs \<le> 2 * i + 1" | "length leafs = 2 * i + 2" | "2 * i + 2 < length leafs" by linarith
  then show ?thesis
    using assms
    by cases (auto simp: build_round_def add_child_def set_size_def kids_def built_obj_def new_obj_def upt_rec
        nth_append list_update_append)
qed

lemma stack_ok_round:
  assumes "stack_ok leafs ((a, i) # stack) h" and "build_round leafs a i stack h = (stack', h')"
  shows "stack_ok leafs stack' h'"
proof -
  have a: "a < length h" "h ! a = new_obj (leaf_at leafs i)" using assms(1) by (auto simp: stack_ok_def)
  let ?z = "List.zip [length h..<length h + length (kids leafs i)] (kids leafs i)"
  have s': "stack' = rev ?z @ stack"
    and h': "h' = h[a := built_obj leafs i (length h)] @ map (\<lambda>j. new_obj (leaf_at leafs j)) (kids leafs i)"
    using assms(2) build_round_eq [OF a] by auto
  have z: "map fst ?z = [length h..<length h + length (kids leafs i)]" by simp
  have "distinct (map fst stack')"
    using assms(1) z unfolding s' by (auto simp: stack_ok_def rev_map [symmetric] simp del: map_fst_zip)
  moreover have "b < length h' \<and> h' ! b = new_obj (leaf_at leafs j)" if "(b, j) \<in> set stack'" for b j
  proof (cases "(b, j) \<in> set stack")
    case True
    then have "b \<in> fst ` set stack" by force
    with True assms(1) have "b \<noteq> a" "b < length h" "h ! b = new_obj (leaf_at leafs j)" by (auto simp: stack_ok_def)
    then show ?thesis by (simp add: h' nth_append)
  next
    case False
    with that have "(b, j) \<in> set ?z" by (simp add: s')
    then obtain k where "k < length (kids leafs i)" "b = length h + k" "j = kids leafs i ! k"
      by (auto simp: set_zip)
    then show ?thesis by (simp add: h' nth_append)
  qed
  ultimately show ?thesis by (auto simp: stack_ok_def)
qed

lemma heap_tree_kids:
  "heap_tree leafs i = SSNode (leaf_at leafs i) (if length leafs \<le> 2 * i + 1 then Some 1 else None)
     (map (heap_tree leafs) (kids leafs i))"
  by (subst heap_tree.simps) (simp add: kids_def)

text \<open>The loop leaves the objects that are not on the stack alone and makes the tree of every object that is.\<close>

lemma build_loop_ok:
  "stack_ok leafs stack h \<Longrightarrow>
   (\<forall>b < length h. b \<notin> fst ` set stack \<longrightarrow> buildTree_loop leafs stack h ! b = h ! b)
   \<and> length h \<le> length (buildTree_loop leafs stack h)
   \<and> (\<forall>(a, i) \<in> set stack. read_tree (buildTree_loop leafs stack h) a = heap_tree leafs i)"
proof (induction leafs stack h rule: buildTree_loop.induct)
  case (2 leafs a i stack h)
  obtain stack' h' where rd: "build_round leafs a i stack h = (stack', h')" by fastforce
  let ?F = "buildTree_loop leafs stack' h'"
  have eq: "buildTree_loop leafs ((a, i) # stack) h = ?F"
    using rd by (auto simp: build_round_def split: prod.splits)
  have a: "a < length h" "h ! a = new_obj (leaf_at leafs i)" "a \<notin> fst ` set stack"
    using "2.prems" by (auto simp: stack_ok_def)
  let ?k = "length (kids leafs i)"
  have s': "stack' = rev (List.zip [length h..<length h + ?k] (kids leafs i)) @ stack"
    and h': "h' = h[a := built_obj leafs i (length h)] @ map (\<lambda>j. new_obj (leaf_at leafs j)) (kids leafs i)"
    using rd build_round_eq [OF a(1,2)] by auto
  obtain s1 h1 where x: "add_child leafs a (2 * i + 2) (add_child leafs a (2 * i + 1) (stack, h)) = (s1, h1)" by fastforce
  with rd have "stack' = s1" "h' = set_size leafs a i h1" by (auto simp: build_round_def)
  with "2.IH" [OF x [symmetric] refl] stack_ok_round [OF "2.prems" rd]
  have IH: "\<forall>b < length h'. b \<notin> fst ` set stack' \<longrightarrow> ?F ! b = h' ! b" "length h' \<le> length ?F"
    "\<forall>(b, j) \<in> set stack'. read_tree ?F b = heap_tree leafs j" by auto
  have fst': "fst ` set stack' = {length h..<length h + ?k} \<union> fst ` set stack"
    by (auto simp: s' image_Un set_map [symmetric] simp del: set_map)
  have "?F ! a = built_obj leafs i (length h)" using IH(1) a by (simp add: fst' h' nth_append)
  moreover have "filter (\<lambda>c. a < c \<and> c < length ?F) [length h..<length h + ?k] = [length h..<length h + ?k]"
    using a(1) IH(2) by (auto simp: filter_id_conv h')
  moreover have "map (read_tree ?F) [length h..<length h + ?k] = map (heap_tree leafs) (kids leafs i)"
  proof (rule nth_equalityI)
    fix m assume "m < length (map (read_tree ?F) [length h..<length h + ?k])"
    then have m: "m < ?k" by simp
    then have "(length h + m, kids leafs i ! m) \<in> set (List.zip [length h..<length h + ?k] (kids leafs i))"
      unfolding set_zip by (intro CollectI exI [of _ m]) simp
    then have "(length h + m, kids leafs i ! m) \<in> set stack'" by (simp add: s')
    with IH(3) have "read_tree ?F (length h + m) = heap_tree leafs (kids leafs i ! m)" by auto
    with m show "map (read_tree ?F) [length h..<length h + ?k] ! m = map (heap_tree leafs) (kids leafs i) ! m" by simp
  qed simp
  ultimately have "read_tree ?F a = heap_tree leafs i"
    by (simp add: read_tree.simps [of ?F a] heap_tree_kids [of leafs i] built_obj_def)
  moreover have "\<forall>b < length h. b \<notin> fst ` set ((a, i) # stack) \<longrightarrow> ?F ! b = h ! b"
    using IH(1) by (auto simp: fst' h' nth_append)
  moreover have "set stack \<subseteq> set stack'" "length h \<le> length h'" by (simp_all add: s' h')
  ultimately show ?case using IH(2,3) unfolding eq by auto
qed simp

lemma buildTree_heap: "buildTree leafs = heap_tree leafs 0"
  using build_loop_ok [of leafs "[(0, 0)]" "[new_obj (leaf_at leafs 0)]"] by (simp add: buildTree_def stack_ok_def)

section \<open>The order of the cells\<close>

text \<open>The order that D3 documents for the nodes of a hierarchy.\<close>

function breadth_first :: "(SSTree \<times> nat) list \<Rightarrow> (SSTree \<times> nat) list" where
  "breadth_first [] = []"
| "breadth_first ((t, d) # q) = (t, d) # breadth_first (q @ map (\<lambda>c. (c, Suc d)) (ss_children t))"
  by pat_completeness auto
termination
proof (relation "measure (\<lambda>q. sum_list (map (size \<circ> fst) q))")
  fix t d and q :: "(SSTree \<times> nat) list"
  have "sum_list (map (size \<circ> fst) (map (\<lambda>c. (c, Suc d)) (ss_children t))) < size t"
  proof (cases t)
    case (SSNode l s cs)
    have "sum_list (map size cs) \<le> size_list size cs" by (induction cs) auto
    then show ?thesis by (simp add: SSNode comp_def)
  qed
  then show "(q @ map (\<lambda>c. (c, Suc d)) (ss_children t), (t, d) # q) \<in> measure (\<lambda>q. sum_list (map (size \<circ> fst) q))"
    by simp
qed simp

definition breadth_first_desc :: "descendants \<Rightarrow> bool" where
  "breadth_first_desc desc \<longleftrightarrow> (\<forall>t. desc t = breadth_first [(t, 0)])"

fun heap_level :: "nat \<Rightarrow> nat" where
  "heap_level 0 = 0"
| "heap_level (Suc i) = Suc (heap_level (i div 2))"

lemma heap_level_iff: "heap_level i = d \<longleftrightarrow> 2 ^ d \<le> Suc i \<and> Suc i < 2 ^ Suc d"
proof (induction i arbitrary: d rule: heap_level.induct)
  case 1
  have "(1 :: nat) \<le> 2 ^ e" for e by simp
  then have "\<not> 2 * 2 ^ e \<le> Suc 0" for e :: nat by (metis One_nat_def Suc_1 mult_le_mono2 not_less_eq_eq order_trans nat_mult_1_right)
  then show ?case by (cases d) auto
next
  case (2 i)
  show ?case
  proof (cases d)
    case (Suc e)
    have "2 ^ e \<le> Suc (i div 2) \<longleftrightarrow> 2 * 2 ^ e \<le> Suc (Suc i)" "Suc (i div 2) < 2 * 2 ^ e \<longleftrightarrow> Suc (Suc i) < 2 * (2 * 2 ^ e)"
      by linarith+
    with 2 Suc show ?thesis by simp
  qed simp
qed

lemma breadth_first_heap:
  "i < length leafs \<or> i = length leafs \<Longrightarrow>
   breadth_first (map (\<lambda>j. (heap_tree leafs j, heap_level j)) [i..<min (length leafs) (2 * i + 1)]) =
   map (\<lambda>j. (heap_tree leafs j, heap_level j)) [i..<length leafs]"
proof (induction "length leafs - i" arbitrary: i)
  case (Suc k)
  let ?n = "length leafs" and ?f = "\<lambda>j. (heap_tree leafs j, heap_level j)"
  have i: "i < ?n" using Suc.hyps(2) by simp
  then have "[i..<min ?n (2 * i + 1)] = i # [Suc i..<min ?n (2 * i + 1)]" by (simp add: upt_conv_Cons)
  then have "breadth_first (map ?f [i..<min ?n (2 * i + 1)]) =
      ?f i # breadth_first (map ?f [Suc i..<min ?n (2 * i + 1)] @ map (\<lambda>c. (c, Suc (heap_level i))) (ss_children (heap_tree leafs i)))"
    by simp
  also have "map (\<lambda>c. (c, Suc (heap_level i))) (ss_children (heap_tree leafs i)) = map ?f (kids leafs i)"
    by (subst heap_tree_kids) (simp add: kids_def)
  also have "map ?f [Suc i..<min ?n (2 * i + 1)] @ map ?f (kids leafs i) = map ?f [Suc i..<min ?n (2 * Suc i + 1)]"
  proof -
    have "[Suc i..<min ?n (2 * i + 1)] @ kids leafs i = [Suc i..<min ?n (2 * Suc i + 1)]"
    proof -
      have "?n \<le> 2 * i + 1 \<or> ?n = 2 * i + 2 \<or> 2 * i + 3 \<le> ?n" by linarith
      then have "kids leafs i = [2 * i + 1..<min ?n (2 * i + 3)]" by (auto simp: kids_def min_def upt_rec)
      moreover have "[Suc i..<min ?n (2 * i + 1)] @ [2 * i + 1..<min ?n (2 * i + 3)] = [Suc i..<min ?n (2 * i + 3)]"
      proof (cases "2 * i + 1 \<le> ?n")
        case True
        define m where "m = min ?n (2 * i + 3) - (2 * i + 1)"
        have m: "min ?n (2 * i + 3) = (2 * i + 1) + m" using True by (simp add: m_def)
        show ?thesis unfolding m using True upt_add_eq_append [of "Suc i" "2 * i + 1" m] by (simp add: min_def)
      qed (simp add: min_def)
      ultimately show ?thesis by (simp add: numeral_3_eq_3)
    qed
    then show ?thesis by (simp only: map_append [symmetric])
  qed
  also have "breadth_first (map ?f [Suc i..<min ?n (2 * Suc i + 1)]) = map ?f [Suc i..<?n]"
  proof (rule Suc.hyps(1))
    show "k = length leafs - Suc i" using Suc.hyps(2) by simp
    show "Suc i < length leafs \<or> Suc i = length leafs" using i by linarith
  qed
  finally show ?case using i by (simp add: upt_conv_Cons)
qed simp

lemma desc_buildTree:
  assumes "breadth_first_desc desc" and "leafs \<noteq> []"
  shows "desc (buildTree leafs) = map (\<lambda>j. (heap_tree leafs j, heap_level j)) [0..<length leafs]"
  using breadth_first_heap [of 0 leafs] assms by (simp add: breadth_first_desc_def buildTree_heap upt_conv_Cons min_def)

section \<open>What the chart shows\<close>

definition layout_total :: "descendants \<Rightarrow> partition \<Rightarrow> bool" where
  "layout_total desc part \<longleftrightarrow> (\<forall>s t. length (part s t) = length (desc t))"

lemma chart_cells_nth:
  assumes "breadth_first_desc desc" and "layout_total desc part" and "leafs \<noteq> []"
  shows "length (chart_cells desc part width height leafs) = length leafs"
    and "i < length leafs \<Longrightarrow> cc_leaf (chart_cells desc part width height leafs ! i) = Some (leafs ! i)"
    and "i < length leafs \<Longrightarrow> cc_depth (chart_cells desc part width height leafs ! i) = heap_level i"
proof -
  have d: "desc (buildTree leafs) = map (\<lambda>j. (heap_tree leafs j, heap_level j)) [0..<length leafs]"
    by (rule desc_buildTree [OF assms(1,3)])
  have l: "length (part s (buildTree leafs)) = length leafs" for s
    using assms(2) [unfolded layout_total_def, rule_format, of s "buildTree leafs"] by (simp add: d)
  show "length (chart_cells desc part width height leafs) = length leafs"
    by (simp add: chart_cells_def d l Let_def)
  assume i: "i < length leafs"
  then show "cc_leaf (chart_cells desc part width height leafs ! i) = Some (leafs ! i)"
    "cc_depth (chart_cells desc part width height leafs ! i) = heap_level i"
    by (simp_all add: chart_cells_def d l Let_def heap_tree.simps [of leafs i] leaf_at_def)
qed

lemma drawTree_iff:
  assumes "breadth_first_desc desc" and "layout_total desc part" and "leafs \<noteq> []"
  shows "(\<exists>lw. drawTree desc part width height leafs = Inr (chart_cells desc part width height leafs, lw)) \<longleftrightarrow> 64 \<le> length leafs"
proof -
  let ?cs = "chart_cells desc part width height leafs"
  note nth = chart_cells_nth [OF assms, where width = width and height = height]
  have "filter (\<lambda>c. cc_depth c = numOfRows - 2) ?cs \<noteq> [] \<longleftrightarrow> (\<exists>i < length leafs. heap_level i = 6)"
  proof -
    have "(\<exists>c \<in> set ?cs. cc_depth c = 6) \<longleftrightarrow> (\<exists>i < length ?cs. cc_depth (?cs ! i) = 6)"
      by (metis in_set_conv_nth)
    also have "\<dots> \<longleftrightarrow> (\<exists>i < length leafs. heap_level i = 6)" using nth by metis
    finally show ?thesis by (simp add: filter_empty_conv)
  qed
  also have "\<dots> \<longleftrightarrow> 64 \<le> length leafs"
    by (auto simp: heap_level_iff intro: exI [of _ 63])
  finally show ?thesis by (auto simp: drawTree_def Let_def split: list.splits)
qed

text \<open>The jobs under a full chart of 255 jobs are those of its last row, from left to right.\<close>

lemma base_jobs_last_row:
  "length leafs = 255 \<Longrightarrow> baseJobs leafs = map (\<lambda>i. leafs ! i) (filter (\<lambda>i. heap_level i = 7) [0..<255])"
proof -
  assume len: "length leafs = 255"
  have "[0..<255] = [0..<127] @ [127..<255]" using upt_add_eq_append [of 0 127 128] by simp
  moreover have "filter (\<lambda>i. heap_level i = 7) [0..<127] = []" by (auto simp: filter_empty_conv heap_level_iff)
  moreover have "filter (\<lambda>i. heap_level i = 7) [127..<255] = [127..<255]" by (auto simp: filter_id_conv heap_level_iff)
  moreover have "drop 127 leafs = map (\<lambda>i. leafs ! i) [127..<length leafs]"
    by (rule nth_equalityI) simp_all
  ultimately show ?thesis unfolding baseJobs_def len by (simp only: filter_append append_Nil) simp
qed

text \<open>C14. The chart of a tree of a block. The stack of \<open>buildTree\<close> builds the tree in which the job \<open>i\<close> has the children
  \<open>2i+1\<close> and \<open>2i+2\<close>, so that the cells of the chart are the jobs of the tree, each once and in their order, the
  job \<open>i\<close> in the row of the number of binary digits of \<open>i + 1\<close>; the frame around the active job is on its own cell;
  and drawing succeeds exactly when the tree has 64 jobs or more, otherwise it throws.\<close>

theorem scan_chart_cells:
  assumes "mapScanState url snarkers (Some response) = Inr block" and "tree \<in> set (sb_trees block)"
    and "st_leafs tree \<noteq> []" and "breadth_first_desc desc" and "layout_total desc part"
    and "cells = chart_cells desc part width height (st_leafs tree)"
  shows "buildTree (st_leafs tree) = heap_tree (st_leafs tree) 0
    \<and> map cc_leaf cells = map Some (st_leafs tree)
    \<and> (\<forall>i < length cells. \<forall>d. cc_depth (cells ! i) = d \<longleftrightarrow> 2 ^ d \<le> i + 1 \<and> i + 1 < 2 ^ (d + 1))
    \<and> (\<forall>l \<in> set (st_leafs tree). \<exists>i place. updateHighlightRect treeView leafWidth cells (Some l) = Some (i, place)
         \<and> cc_leaf (cells ! i) = Some l)
    \<and> (if 64 \<le> length (st_leafs tree) then \<exists>lw. drawTree desc part width height (st_leafs tree) = Inr (cells, lw)
       else drawTree desc part width height (st_leafs tree) = Inl TypeError)"
proof (intro conjI)
  note nth = chart_cells_nth [OF assms(4,5,3), where width = width and height = height]
  show "buildTree (st_leafs tree) = heap_tree (st_leafs tree) 0" by (rule buildTree_heap)
  show "map cc_leaf cells = map Some (st_leafs tree)"
    by (rule nth_equalityI) (simp_all add: assms(6) nth)
  show "\<forall>i < length cells. \<forall>d. cc_depth (cells ! i) = d \<longleftrightarrow> 2 ^ d \<le> i + 1 \<and> i + 1 < 2 ^ (d + 1)"
    by (simp add: assms(6) nth heap_level_iff)
  show "\<forall>l \<in> set (st_leafs tree). \<exists>i place. updateHighlightRect treeView leafWidth cells (Some l) = Some (i, place)
      \<and> cc_leaf (cells ! i) = Some l"
  proof
    fix l assume "l \<in> set (st_leafs tree)"
    then obtain i where i: "i < length (st_leafs tree)" "l = st_leafs tree ! i" by (auto simp: in_set_conv_nth)
    obtain k t where "tree = mapTree k t"
      using assms(1,2) by (auto simp: mapScanState_def Let_def scanTrees_def)
    with i have "lf_jobIndex l = Some i" by (simp add: mapTree_def)
    with i show "\<exists>i place. updateHighlightRect treeView leafWidth cells (Some l) = Some (i, place) \<and> cc_leaf (cells ! i) = Some l"
      by (simp add: updateHighlightRect_def assms(6) nth Let_def)
  qed
  show "if 64 \<le> length (st_leafs tree) then \<exists>lw. drawTree desc part width height (st_leafs tree) = Inr (cells, lw)
     else drawTree desc part width height (st_leafs tree) = Inl TypeError"
    using drawTree_iff [OF assms(4,5,3), where width = width and height = height]
    by (auto simp: assms(6) drawTree_def Let_def split: list.splits)
qed

definition bf_desc :: descendants where
  "bf_desc t = breadth_first [(t, 0)]"

definition flat_part :: partition where
  "flat_part s t = map (\<lambda>_. \<lparr>cr_x0 = 0, cr_x1 = fst s, cr_y0 = 0, cr_y1 = 10\<rparr>) (bf_desc t)"

theorem scan_chart_cells_witness:
  "\<exists>block. mapScanState ''u'' [] (Some demo_scan) = Inr block \<and>
     drawTree bf_desc flat_part 800 100 (st_leafs (sb_trees block ! 0)) = Inl TypeError \<and>
     map cc_leaf (chart_cells bf_desc flat_part 800 100 (st_leafs (sb_trees block ! 0))) =
       map Some (st_leafs (sb_trees block ! 0))"
proof -
  obtain block where b: "mapScanState ''u'' [] (Some demo_scan) = Inr block" by (simp add: mapScanState_def Let_def)
  then have t: "sb_trees block = scanTrees (sr_scan_state demo_scan)" by (auto simp: mapScanState_def Let_def)
  let ?t = "sb_trees block ! 0"
  have "length (sb_trees block) = 2" "length (st_leafs ?t) = 2"
    by (simp_all add: t scanTrees_def demo_scan_def mapTree_def Let_def upt_rec)
  then have t0: "?t \<in> set (sb_trees block)" "st_leafs ?t \<noteq> []" "\<not> 64 \<le> length (st_leafs ?t)" by auto
  have d: "breadth_first_desc bf_desc" "layout_total bf_desc flat_part"
    by (simp_all add: breadth_first_desc_def bf_desc_def layout_total_def flat_part_def)
  from scan_chart_cells [OF b t0(1,2) d refl, where treeView = True and leafWidth = 1 and width = 800 and height = 100] t0(3) b show ?thesis by auto
qed

section \<open>Toolbar, page, list and side panel\<close>

fun truthy_height :: "height_or_hash js \<Rightarrow> bool" where
  "truthy_height (Val (Height n)) = (n \<noteq> 0)"
| "truthy_height (Val (Hash s)) = (s \<noteq> [])"
| "truthy_height _ = False"

definition getHeight :: "bool \<Rightarrow> height_or_hash js \<Rightarrow> ScanStateActions list" where
  "getHeight stream height = SCAN_STATE_GET_BLOCK height #
     (if stream \<and> truthy_height height then [SCAN_STATE_PAUSE]
      else if \<not> stream \<and> \<not> truthy_height height then [SCAN_STATE_START] else [])"

text \<open>The form: its value (\<open>None\<close> for \<open>null\<close>), whether the last search came from it, and what \<open>distinctUntilChanged\<close>
  remembers.\<close>

record scan_toolbar =
  tb_search :: "string option"
  tb_gotHeightFromForm :: bool
  tb_last :: "string option option"

definition toolbar_initial :: scan_toolbar where
  "toolbar_initial = \<lparr>tb_search = Some [], tb_gotHeightFromForm = False, tb_last = None\<rparr>"

definition clearForm :: "scan_toolbar \<Rightarrow> scan_toolbar" where
  "clearForm tb = tb\<lparr>tb_search := None\<rparr>"

definition toolbar_listenToTreesChanges :: "ScanStateBlock option \<Rightarrow> scan_toolbar \<Rightarrow> scan_toolbar" where
  "toolbar_listenToTreesChanges block tb =
     (let shown = (\<exists>v. tb_search tb = Some v \<and>
            (Option.bind block sb_hash = Some v \<or> map_option dec (Option.bind block sb_height) = Some v))
      in if \<not> shown \<and> tb_gotHeightFromForm tb then (clearForm tb)\<lparr>tb_gotHeightFromForm := False\<rparr> else tb)"

definition toolbar_focusout :: "bool \<Rightarrow> scan_toolbar \<Rightarrow> scan_toolbar \<times> ScanStateActions list" where
  "toolbar_focusout stream tb =
     (if tb_last tb = Some (tb_search tb) then (tb, [])
      else let tb' = tb\<lparr>tb_last := Some (tb_search tb)\<rparr>
        in case tb_search tb of
             None \<Rightarrow> (tb', [])
           | Some v \<Rightarrow> if v = [] then (tb', [])
               else (tb'\<lparr>tb_gotHeightFromForm := True\<rparr>, getHeight stream (Val (Hash (js_trim v)))))"

definition toggleTreeView :: "bool \<Rightarrow> bool \<Rightarrow> ScanStateActions list" where
  "toggleTreeView tree treeView = (if tree = treeView then [] else [SCAN_STATE_TOGGLE_TREE_VIEW])"

record scan_page =
  pg_heightOrHash :: "string option"
  pg_activeJobId :: "string option"
  pg_timer :: bool
  pg_nodeChanged :: bool

definition page_initial :: scan_page where
  "page_initial = \<lparr>pg_heightOrHash = None, pg_activeJobId = None, pg_timer = False, pg_nodeChanged = False\<rparr>"

definition page_getBlock :: "scan_page \<Rightarrow> scan_page \<times> ScanStateActions list" where
  "page_getBlock pg = (pg\<lparr>pg_nodeChanged := True\<rparr>,
     [SCAN_STATE_GET_BLOCK (if pg_nodeChanged pg then Undefined
        else js_of_option (map_option Hash (pg_heightOrHash pg)))])"

definition page_listenToStreamChange :: "bool \<Rightarrow> scan_page \<Rightarrow> scan_page" where
  "page_listenToStreamChange stream pg = pg\<lparr>pg_timer := stream\<rparr>"

definition page_tick :: "scan_page \<Rightarrow> ScanStateActions list" where
  "page_tick pg = (if pg_timer pg then [SCAN_STATE_GET_BLOCK Undefined] else [])"

text \<open>The two subscriptions to the route; the second takes the first value only.\<close>

definition page_listenToRoute ::
  "bool \<Rightarrow> string option \<Rightarrow> string option \<Rightarrow> scan_page \<Rightarrow> scan_page \<times> ScanStateActions list" where
  "page_listenToRoute isFirst heightOrHash jobId pg =
     (pg\<lparr>pg_heightOrHash := heightOrHash\<rparr>,
      (if scan_truthy_str jobId \<and> pg_activeJobId pg \<noteq> jobId then [SCAN_STATE_SET_ACTIVE_JOB_ID jobId] else [])
      @ (if isFirst \<and> scan_truthy_str heightOrHash then [SCAN_STATE_SET_ACTIVE_JOB_ID jobId] else []))"

definition list_listenToTreesChanges :: "ScanStateBlock \<Rightarrow> nat option \<times> ScanStateTree list \<times> bool" where
  "list_listenToTreesChanges block = (sb_height block, sb_trees block, sb_trees block = [])"

definition checkLatestHeight :: "ScanStateActions list" where
  "checkLatestHeight = [SCAN_STATE_GET_BLOCK Null, SCAN_STATE_START]"

definition trackTree :: "ScanStateTree \<Rightarrow> string" where
  "trackTree tree = dec (st_ongoing tree) @ dec (st_availableJobs tree) @ dec (st_completedSnarks tree)
     @ dec (st_empty tree) @ dec (st_coinbase tree) @ dec (st_payment tree) @ dec (st_zkApp tree)
     @ dec (st_feeTransfer tree) @ dec (st_merge tree)"

text \<open>The side panel: the number of snarkers with work and whether there are others; the actions and the job of the
  address.\<close>

definition panel_listenToBlockChange :: "ScanStateBlock \<Rightarrow> nat \<times> bool" where
  "panel_listenToBlockChange block =
     (let n = length (filter (\<lambda>s. sk_leafs s \<noteq> []) (sb_workingSnarkers block))
      in (n, length (sb_workingSnarkers block) \<noteq> n))"

definition openSnarkerDetails :: "ScanStateLeaf \<Rightarrow> ScanStateActions list \<times> string option" where
  "openSnarkerDetails leaf =
     ([SCAN_STATE_SET_ACTIVE_LEAF (Some (leaf\<lparr>lf_scrolling := Some True\<rparr>))], lf_bundle_job_id leaf)"

definition removeActiveJobId :: "ScanStateActions list \<times> string option" where
  "removeActiveJobId = ([SCAN_STATE_SET_ACTIVE_LEAF None], None)"

definition panel_toggleSidePanel :: "ScanStateActions list \<times> string option" where
  "panel_toggleSidePanel = (SCAN_STATE_TOGGLE_SIDE_PANEL # fst removeActiveJobId, snd removeActiveJobId)"

definition jobDetails :: "ScanStateLeaf \<Rightarrow> ScanStateLeaf" where
  "jobDetails leaf = leaf\<lparr>lf_jobIndex := None, lf_treeIndex := None, lf_scrolling := None\<rparr>"

text \<open>Asking for a height pauses the stream, asking for the latest block starts it, whatever it was before. The
  height 0 counts as the latest block: stepping back to the genesis block resumes the stream, whose next
  answer replaces the block.\<close>

lemma getHeight_stream:
  "ss_stream (fst (foldl (scanStateReducer d tv) (s, st) (getHeight (ss_stream s) h))) = (\<not> truthy_height h)"
  by (auto simp: getHeight_def)

lemma genesis_resumes:
  "ss_stream (fst (foldl (scanStateReducer d tv) (s, st) (getHeight (ss_stream s) (Val (Height 0)))))"
  using getHeight_stream [of d tv s st "Val (Height 0)"] by simp

text \<open>The button for the last block on a paused, idle page: its own load is dropped by the effect, the block is loaded
  by the first tick of the stream that it starts.\<close>

lemma last_block_by_stream:
  assumes "\<not> ss_stream s"
  shows "getHeight (ss_stream s) Null = checkLatestHeight
    \<and> rx_step (getScanState_effect now) (Null, None) (Rx_action (SCAN_STATE_GET_BLOCK Null)) [] (Null, None)
    \<and> (let s' = fst (foldl (scanStateReducer d tv) (s, st) checkLatestHeight)
       in page_tick (page_listenToStreamChange (ss_stream s') pg) = [SCAN_STATE_GET_BLOCK Undefined])
    \<and> rx_step (getScanState_effect now) (Null, None) (Rx_action (SCAN_STATE_GET_BLOCK Undefined)) [] (Undefined, Some Undefined)"
  using assms by (simp add: getHeight_def checkLatestHeight_def page_tick_def page_listenToStreamChange_def
      getScanState_effect_def)

text \<open>A search that was cleared by a newer block cannot be repeated: the second time its value is not a change.\<close>

lemma search_not_repeated:
  assumes "v \<noteq> []" and "tb_last tb \<noteq> Some (Some v)" and "sb_hash block \<noteq> Some v" and "map_option dec (sb_height block) \<noteq> Some v"
  shows "let (tb1, out1) = toolbar_focusout stream (tb\<lparr>tb_search := Some v\<rparr>);
             tb2 = toolbar_listenToTreesChanges (Some block) tb1;
             (tb3, out3) = toolbar_focusout stream (tb2\<lparr>tb_search := Some v\<rparr>)
         in SCAN_STATE_GET_BLOCK (Val (Hash (js_trim v))) \<in> set out1 \<and> tb_search tb2 = None \<and> out3 = []"
  using assms by (simp add: toolbar_focusout_def toolbar_listenToTreesChanges_def clearForm_def getHeight_def)

text \<open>The height of the address is asked for once; after a change of the node the latest block is.\<close>

lemma address_height_once:
  assumes "\<not> pg_nodeChanged pg"
  shows "let (pg1, out1) = page_getBlock pg; (pg2, out2) = page_getBlock pg1
     in out1 = [SCAN_STATE_GET_BLOCK (js_of_option (map_option Hash (pg_heightOrHash pg)))]
       \<and> out2 = [SCAN_STATE_GET_BLOCK Undefined]"
  using assms by (simp add: page_getBlock_def)

text \<open>The tooltip stays within the chart, and what a click selects is framed.\<close>

lemma tooltip_within:
  assumes "0 \<le> tooltipWidth" and "tooltipWidth \<le> width"
  shows "chartLeft \<le> tooltip_left nl nw tooltipWidth chartLeft width
    \<and> tooltip_left nl nw tooltipWidth chartLeft width + tooltipWidth \<le> chartLeft + width"
  using assms by (auto simp: tooltip_left_def min_def max_def)

lemma panel_error_iff: "snd (panel_listenToBlockChange block) \<longleftrightarrow> (\<exists>s \<in> set (sb_workingSnarkers block). sk_leafs s = [])"
proof -
  have "length xs = length (filter P xs) \<longleftrightarrow> (\<forall>x \<in> set xs. P x)" for P and xs :: "ScanStateWorkingSnarker list"
    by (metis filter_True length_filter_less less_irrefl)
  then show ?thesis by (auto simp: panel_listenToBlockChange_def Let_def)
qed

end
