(* ===== verification/Splits_Graph.thy ===== *)
theory Splits_Graph
  imports Network_Splits
begin

text \<open>
  The graph of the network splits page (\<open>dashboard-splits-graph\<close>): the adjacency and Laplacian matrices of the peers,
  the lines that are drawn, the places towards which the sets are pulled, the shapes and colours of the peers and
  the selection of a peer.

  The eigenvalues of the matrix (mathjs) are only logged, and the simulation of forces is D3; what is proved of the
  matrix is what its eigenvalues mean: the vectors it maps to zero.
\<close>

section \<open>The matrices\<close>

text \<open>\<open>[...new Set(xs)]\<close>: the first occurrences, in order.\<close>

definition js_unique :: "'a list \<Rightarrow> 'a list" where
  "js_unique xs = rev (remdups (rev xs))"

definition graph_addresses :: "DashboardSplitsPeer list \<Rightarrow> DashboardSplitsLink list \<Rightarrow> string list" where
  "graph_addresses peers links =
     js_unique (concat (map (\<lambda>link. [dl_source link, dl_target link]) links) @ map dp_address peers)"

definition zero_matrix :: "nat \<Rightarrow> int list list" where
  "zero_matrix n = replicate n (replicate n 0)"

definition set_entry :: "int list list \<Rightarrow> nat \<Rightarrow> nat \<Rightarrow> int \<Rightarrow> int list list" where
  "set_entry M i j v = M[i := (M ! i)[j := v]]"

definition indexOf :: "string list \<Rightarrow> string \<Rightarrow> nat option" where
  "indexOf xs x = find_index (\<lambda>y. y = x) xs"

definition link_entries :: "string list \<Rightarrow> int list list \<Rightarrow> DashboardSplitsLink \<Rightarrow> int list list" where
  "link_entries addresses M link =
     (case indexOf addresses (dl_source link) of
        None \<Rightarrow> M
      | Some i \<Rightarrow> (case indexOf addresses (dl_target link) of
            None \<Rightarrow> M
          | Some j \<Rightarrow> set_entry (set_entry M i j 1) j i 1))"

definition adjacencyMatrix :: "string list \<Rightarrow> DashboardSplitsLink list \<Rightarrow> int list list" where
  "adjacencyMatrix addresses links = foldl (link_entries addresses) (zero_matrix (length addresses)) links"

definition degreeMatrix :: "int list list \<Rightarrow> int list list" where
  "degreeMatrix A = foldl (\<lambda>D i. set_entry D i i (foldl (+) 0 (A ! i))) (zero_matrix (length A)) [0..<length A]"

definition laplacianMatrix :: "int list list \<Rightarrow> int list list" where
  "laplacianMatrix A =
     (let D = degreeMatrix A
      in map (\<lambda>i. map (\<lambda>j. if i = j then foldl (\<lambda>acc k. acc + A ! i ! k) 0 [0..<length (D ! i)]
                           else if A ! i ! j = 0 then 0 else - (A ! i ! j)) [0..<length (D ! i)])
           [0..<length D])"

section \<open>Drawing\<close>

text \<open>The field \<open>fetching\<close> of the component and whether a new state is drawn.\<close>

definition graph_update :: "bool \<Rightarrow> DashboardSplitsState \<Rightarrow> bool \<times> bool" where
  "graph_update fetching s =
     (let f = (if sp_fetching s then True else fetching)
      in if sp_peers s \<noteq> [] \<and> sp_links s \<noteq> [] \<and> f \<and> \<not> sp_fetching s then (False, True) else (f, False))"

text \<open>A line has references to two nodes; reading the address of a missing one throws.\<close>

type_synonym graph_line = "nat option \<times> nat option"

definition line_addr :: "DashboardSplitsPeer list \<Rightarrow> nat option \<Rightarrow> js_error + string" where
  "line_addr nodes r = (case r of None \<Rightarrow> Inl TypeError | Some i \<Rightarrow> Inr (dp_address (nodes ! i)))"

definition same_addr :: "DashboardSplitsPeer list \<Rightarrow> nat option \<Rightarrow> nat option \<Rightarrow> js_error + bool" where
  "same_addr nodes a b = (case line_addr nodes a of
      Inl e \<Rightarrow> Inl e
    | Inr x \<Rightarrow> (case line_addr nodes b of Inl e \<Rightarrow> Inl e | Inr y \<Rightarrow> Inr (x = y)))"

definition both_addr ::
  "DashboardSplitsPeer list \<Rightarrow> nat option \<Rightarrow> nat option \<Rightarrow> nat option \<Rightarrow> nat option \<Rightarrow> js_error + bool" where
  "both_addr nodes a b c d = (case same_addr nodes a b of
      Inl e \<Rightarrow> Inl e | Inr False \<Rightarrow> Inr False | Inr True \<Rightarrow> same_addr nodes c d)"

fun some_line :: "(graph_line \<Rightarrow> js_error + bool) \<Rightarrow> graph_line list \<Rightarrow> js_error + bool" where
  "some_line P [] = Inr False"
| "some_line P (l # ls) = (case P l of Inl e \<Rightarrow> Inl e | Inr True \<Rightarrow> Inr True | Inr False \<Rightarrow> some_line P ls)"

definition mutualConnection :: "DashboardSplitsPeer list \<Rightarrow> graph_line \<Rightarrow> graph_line list \<Rightarrow> js_error + bool" where
  "mutualConnection nodes line = some_line (\<lambda>l. both_addr nodes (fst l) (snd line) (snd l) (fst line))"

definition sameConnection :: "DashboardSplitsPeer list \<Rightarrow> graph_line \<Rightarrow> graph_line list \<Rightarrow> js_error + bool" where
  "sameConnection nodes line = some_line (\<lambda>l. both_addr nodes (fst l) (fst line) (snd l) (snd line))"

fun graph_lines ::
  "DashboardSplitsPeer list \<Rightarrow> graph_line list \<Rightarrow> DashboardSplitsLink list \<Rightarrow> js_error + graph_line list" where
  "graph_lines nodes lines [] = Inr lines"
| "graph_lines nodes lines (link # links) =
     (let line = (find_peer nodes (dl_source link), find_peer nodes (dl_target link))
      in case mutualConnection nodes line lines of
           Inl e \<Rightarrow> Inl e
         | Inr mutual \<Rightarrow> (case sameConnection nodes line lines of
               Inl e \<Rightarrow> Inl e
             | Inr same \<Rightarrow> graph_lines nodes (if \<not> mutual \<and> \<not> same then lines @ [line] else lines) links))"

text \<open>The shapes of a peer, by the name of its node.\<close>

definition node_includes :: "string \<Rightarrow> DashboardSplitsPeer \<Rightarrow> bool" where
  "node_includes t peer = (case dp_node peer of None \<Rightarrow> False | Some n \<Rightarrow> n \<noteq> [] \<and> js_includes (js_toLowerCase n) t)"

definition circle_node :: "DashboardSplitsPeer \<Rightarrow> bool" where
  "circle_node peer \<longleftrightarrow> dp_node peer = None \<or> dp_node peer = Some [] \<or>
     node_includes ''node'' peer \<or> node_includes ''generator'' peer"

definition peer_shapes :: "DashboardSplitsPeer \<Rightarrow> string list" where
  "peer_shapes peer =
     (if circle_node peer then [''circles''] else [])
     @ (if node_includes ''snark'' peer then [''triangles''] else [])
     @ (if node_includes ''prod'' peer then [''squares''] else [])
     @ (if node_includes ''seed'' peer then [''diamonds''] else [])"

text \<open>The place a set is pulled to: a cell of a square grid. \<open>Math.ceil(Math.sqrt(n))\<close> is found by counting.\<close>

function ceil_sqrt :: "nat \<Rightarrow> nat \<Rightarrow> nat" where
  "ceil_sqrt m n = (if n \<le> m * m then m else ceil_sqrt (Suc m) n)"
  by pat_completeness auto
termination
proof (relation "measure (\<lambda>(m, n). n - m)")
  fix m n :: nat
  assume "\<not> n \<le> m * m"
  moreover have "m \<le> m * m" by (cases m) auto
  ultimately have "m < n" by linarith
  then show "((Suc m, n), m, n) \<in> measure (\<lambda>(m, n). n - m)" by simp
qed simp

declare ceil_sqrt.simps [simp del]

definition matrixSize :: "nat \<Rightarrow> nat" where
  "matrixSize numberOfSets = ceil_sqrt 0 numberOfSets"

definition force_target :: "DashboardSplitsSet list \<Rightarrow> rat \<Rightarrow> rat \<Rightarrow> string \<Rightarrow> rat \<times> rat" where
  "force_target sets width height a =
     (let m = matrixSize (length sets)
      in case find_index (\<lambda>s. list_ex (\<lambda>p. dp_address p = a) (set_peers s)) sets of
           None \<Rightarrow> (width, height)
         | Some i \<Rightarrow> (of_nat (i mod m) * width / of_nat m, of_nat (i div m) * height / of_nat m))"

text \<open>The force \<open>bounds\<close> on one coordinate.\<close>

definition bound_coord :: "rat \<Rightarrow> rat \<Rightarrow> rat" where
  "bound_coord w x = min (if x > w then w - (x - w) else x) (if x < 0 then - x else x)"

text \<open>The colour of the border of a peer and the action of a click.\<close>

definition peer_stroke :: "DashboardSplitsLink list \<Rightarrow> bool \<Rightarrow> DashboardSplitsPeer \<Rightarrow> string" where
  "peer_stroke links active peer =
     ''var(--'' @ (if list_ex (\<lambda>l. dl_source l = dp_address peer \<or> dl_target l = dp_address peer) links
        then if active then ''selected'' else ''success'' else ''warn'') @ ''-primary)''"

definition graph_click ::
  "DashboardSplitsPeer list \<Rightarrow> DashboardSplitsPeer option \<Rightarrow> DashboardSplitsPeer \<Rightarrow> DashboardSplitsActions" where
  "graph_click peers activePeer peer =
     (let selectedPeer = List.find (\<lambda>p. dp_address p = dp_address peer) peers
      in DASHBOARD_SPLITS_SET_ACTIVE_PEER (if selectedPeer = activePeer then None else selectedPeer))"

text \<open>Which lines are lit when the mouse is over a peer.\<close>

definition hovered_line :: "DashboardSplitsPeer option \<Rightarrow> string \<Rightarrow> string \<times> string \<Rightarrow> bool" where
  "hovered_line activePeer a line \<longleftrightarrow> (fst line = a \<or> snd line = a) \<and>
     (case activePeer of None \<Rightarrow> True | Some p \<Rightarrow> snd line \<noteq> dp_address p \<and> fst line \<noteq> dp_address p)"

section \<open>The entries of the matrices\<close>

lemma set_js_unique [simp]: "set (js_unique xs) = set xs"
  by (simp add: js_unique_def)

lemma distinct_js_unique [simp]: "distinct (js_unique xs)"
  by (simp add: js_unique_def)

definition square :: "nat \<Rightarrow> int list list \<Rightarrow> bool" where
  "square n M \<longleftrightarrow> length M = n \<and> (\<forall>i < n. length (M ! i) = n)"

lemma square_zero [simp]: "square n (zero_matrix n)"
  by (simp add: square_def zero_matrix_def)

lemma square_set_entry [simp]: "square n M \<Longrightarrow> square n (set_entry M i j v)"
  by (cases "i < length M") (auto simp: square_def set_entry_def nth_list_update)

lemma set_entry_nth:
  "square n M \<Longrightarrow> i < n \<Longrightarrow> j < n \<Longrightarrow> k < n \<Longrightarrow> l < n \<Longrightarrow>
   set_entry M i j v ! k ! l = (if k = i \<and> l = j then v else M ! k ! l)"
  by (auto simp: square_def set_entry_def nth_list_update)

lemma indexOf_nth:
  assumes "x \<in> set xs"
  obtains i where "indexOf xs x = Some i" "i < length xs" "xs ! i = x"
proof -
  from assms have "indexOf xs x \<noteq> None" by (auto simp: indexOf_def)
  then obtain i where i: "indexOf xs x = Some i" by blast
  then show ?thesis using find_index_SomeD [of "\<lambda>y. y = x" xs i] that by (auto simp: indexOf_def)
qed

lemma square_link_entries: "square n M \<Longrightarrow> square n (link_entries addresses M link)"
  by (simp add: link_entries_def split: option.splits)

lemma link_entries_nth:
  assumes "square (length A) M" and "distinct A" and "dl_source link \<in> set A" and "dl_target link \<in> set A"
    and "k < length A" and "l < length A"
  shows "link_entries A M link ! k ! l = (if (A ! k, A ! l) \<in> adj [link] then 1 else M ! k ! l)"
proof -
  obtain i where i: "indexOf A (dl_source link) = Some i" "i < length A" "A ! i = dl_source link"
    using indexOf_nth [OF assms(3)] .
  obtain j where j: "indexOf A (dl_target link) = Some j" "j < length A" "A ! j = dl_target link"
    using indexOf_nth [OF assms(4)] .
  have e: "link_entries A M link ! k ! l = (if k = j \<and> l = i then 1 else if k = i \<and> l = j then 1 else M ! k ! l)"
    using assms(1,5,6) i j by (simp add: link_entries_def set_entry_nth [of "length A"])
  have m: "(A ! k, A ! l) \<in> adj [link] \<longleftrightarrow> k = i \<and> l = j \<or> k = j \<and> l = i"
  proof -
    have "A ! k = dl_source link \<longleftrightarrow> k = i" "A ! l = dl_source link \<longleftrightarrow> l = i"
      using assms(2,5,6) i(2) unfolding i(3) [symmetric] by (simp_all add: nth_eq_iff_index_eq)
    moreover have "A ! k = dl_target link \<longleftrightarrow> k = j" "A ! l = dl_target link \<longleftrightarrow> l = j"
      using assms(2,5,6) j(2) unfolding j(3) [symmetric] by (simp_all add: nth_eq_iff_index_eq)
    ultimately show ?thesis by (simp add: adj_def) blast
  qed
  show ?thesis
  proof (cases "k = i \<and> l = j \<or> k = j \<and> l = i")
    case True
    with m have "(A ! k, A ! l) \<in> adj [link]" by blast
    moreover from True e have "link_entries A M link ! k ! l = 1" by presburger
    ultimately show ?thesis by (simp only: if_True)
  next
    case False
    with m have "(A ! k, A ! l) \<notin> adj [link]" by blast
    moreover from False e have "link_entries A M link ! k ! l = M ! k ! l" by presburger
    ultimately show ?thesis by (simp only: if_False)
  qed
qed

lemma adj_Cons: "adj (l # ls) = adj [l] \<union> adj ls"
  by (auto simp: adj_def)

lemma foldl_link_entries:
  assumes "distinct A"
  shows "square (length A) M \<Longrightarrow> (\<forall>l \<in> set links. dl_source l \<in> set A \<and> dl_target l \<in> set A) \<Longrightarrow>
    square (length A) (foldl (link_entries A) M links) \<and>
    (\<forall>i < length A. \<forall>j < length A.
       foldl (link_entries A) M links ! i ! j = (if (A ! i, A ! j) \<in> adj links then 1 else M ! i ! j))"
proof (induction links arbitrary: M)
  case Nil
  then show ?case by (simp add: adj_def)
next
  case (Cons l ls)
  have l: "dl_source l \<in> set A" "dl_target l \<in> set A" using Cons.prems(2) by auto
  have ls: "\<forall>l \<in> set ls. dl_source l \<in> set A \<and> dl_target l \<in> set A" using Cons.prems(2) by auto
  from Cons.IH [OF square_link_entries [OF Cons.prems(1), where link = l and addresses = A] ls]
    link_entries_nth [OF Cons.prems(1) assms l]
  show ?case unfolding adj_Cons [of l ls] by auto
qed

lemma adjacencyMatrix_entries:
  assumes "A = graph_addresses peers links"
  shows "square (length A) (adjacencyMatrix A links)"
    and "i < length A \<Longrightarrow> j < length A \<Longrightarrow>
      adjacencyMatrix A links ! i ! j = (if (A ! i, A ! j) \<in> adj links then 1 else 0)"
proof -
  have "distinct A" "\<forall>l \<in> set links. dl_source l \<in> set A \<and> dl_target l \<in> set A"
    by (auto simp: assms graph_addresses_def)
  from foldl_link_entries [OF this(1) square_zero this(2)]
  show "square (length A) (adjacencyMatrix A links)"
    "i < length A \<Longrightarrow> j < length A \<Longrightarrow> adjacencyMatrix A links ! i ! j = (if (A ! i, A ! j) \<in> adj links then 1 else 0)"
    by (auto simp: adjacencyMatrix_def zero_matrix_def)
qed

lemma square_degreeMatrix: "square (length A) (degreeMatrix A)"
proof -
  have "square n M \<Longrightarrow> square n (foldl (\<lambda>D i. set_entry D i i (foldl (+) 0 (A ! i))) M xs)" for n M xs
    by (induction xs arbitrary: M) auto
  then show ?thesis by (simp add: degreeMatrix_def)
qed

lemma foldl_add_nth: "foldl (\<lambda>acc k. acc + f k) (z :: int) [0..<n] = z + (\<Sum>k < n. f k)"
  by (induction n) (simp_all add: algebra_simps)

lemma laplacianMatrix_entries:
  assumes "square n A"
  shows "square n (laplacianMatrix A)"
    and "i < n \<Longrightarrow> j < n \<Longrightarrow>
      laplacianMatrix A ! i ! j = (if i = j then \<Sum>k < n. A ! i ! k else - (A ! i ! j))"
  using assms square_degreeMatrix [of A]
  by (auto simp: laplacianMatrix_def square_def Let_def foldl_add_nth)

section \<open>The vectors that the Laplacian maps to zero\<close>

lemma laplacian_apply:
  fixes a :: "nat \<Rightarrow> nat \<Rightarrow> rat" and f :: "nat \<Rightarrow> rat"
  assumes "i < n" and "a i i = 0"
  shows "(\<Sum>j < n. (if i = j then \<Sum>k < n. a i k else - a i j) * f j) = (\<Sum>j < n. a i j * (f i - f j))"
proof -
  have "(\<Sum>j < n. (if i = j then \<Sum>k < n. a i k else - a i j) * f j) =
      (\<Sum>j < n. (if j = i then (\<Sum>k < n. a i k) * f j else 0) - a i j * f j)"
    using assms(2) by (intro sum.cong) auto
  also have "\<dots> = (\<Sum>k < n. a i k) * f i - (\<Sum>j < n. a i j * f j)"
    using assms(1) by (simp add: sum_subtractf)
  also have "\<dots> = (\<Sum>j < n. a i j * (f i - f j))"
    by (simp add: right_diff_distrib sum_subtractf sum_distrib_right)
  finally show ?thesis .
qed

lemma kernel_constant:
  fixes a :: "nat \<Rightarrow> nat \<Rightarrow> rat" and f :: "nat \<Rightarrow> rat"
  assumes sym: "\<And>i j. i < n \<Longrightarrow> j < n \<Longrightarrow> a i j = a j i" and nonneg: "\<And>i j. i < n \<Longrightarrow> j < n \<Longrightarrow> 0 \<le> a i j"
    and zero: "\<And>i. i < n \<Longrightarrow> (\<Sum>j < n. a i j * (f i - f j)) = 0"
    and "i < n" "j < n" "a i j \<noteq> 0"
  shows "f i = f j"
proof -
  have "(\<Sum>i < n. \<Sum>j < n. f i * (a i j * (f i - f j))) = (\<Sum>i < n. f i * (\<Sum>j < n. a i j * (f i - f j)))"
    by (simp add: sum_distrib_left)
  also have "\<dots> = 0" using zero by simp
  finally have s: "(\<Sum>i < n. \<Sum>j < n. f i * (a i j * (f i - f j))) = 0" .
  have "(\<Sum>i < n. \<Sum>j < n. f i * (a i j * (f i - f j))) = (\<Sum>j < n. \<Sum>i < n. f i * (a i j * (f i - f j)))"
    by (rule sum.swap)
  also have "\<dots> = (\<Sum>i < n. \<Sum>j < n. f j * (a i j * (f j - f i)))"
    using sym by (intro sum.cong refl) simp
  finally have "(\<Sum>i < n. \<Sum>j < n. f j * (a i j * (f j - f i))) = 0" using s by simp
  with s have "(\<Sum>i < n. \<Sum>j < n. f i * (a i j * (f i - f j)) + f j * (a i j * (f j - f i))) = 0"
    by (simp add: sum.distrib)
  moreover have "f i * (a i j * (f i - f j)) + f j * (a i j * (f j - f i)) = a i j * (f i - f j)\<^sup>2" for i j
    by (simp add: power2_eq_square algebra_simps)
  ultimately have "(\<Sum>i < n. \<Sum>j < n. a i j * (f i - f j)\<^sup>2) = 0" by simp
  moreover have pos: "0 \<le> a i j * (f i - f j)\<^sup>2" if "i < n" "j < n" for i j using nonneg that by simp
  ultimately have "(\<Sum>j < n. a i j * (f i - f j)\<^sup>2) = 0"
    using assms(4) by (subst (asm) sum_nonneg_eq_0_iff) (auto intro: sum_nonneg)
  with pos assms(4,5) have "a i j * (f i - f j)\<^sup>2 = 0"
    by (subst (asm) sum_nonneg_eq_0_iff) auto
  with assms(6) show ?thesis by simp
qed

text \<open>A function is constant along links exactly when it is constant on the sets.\<close>

lemma constant_on_sets:
  assumes "splits_wf peers links" and "parts_ok peers links sets"
  shows "(\<forall>(x, y) \<in> adj links. f x = f y) \<longleftrightarrow>
    (\<forall>s \<in> set sets. \<forall>p \<in> set (set_peers s). \<forall>q \<in> set (set_peers s). f (dp_address p) = f (dp_address q))"
proof
  assume edge: "\<forall>(x, y) \<in> adj links. f x = f y"
  have path: "f x = f y" if "linked links x y" for x y
    using that unfolding linked_def by (induction rule: rtrancl_induct) (use edge in auto)
  show "\<forall>s \<in> set sets. \<forall>p \<in> set (set_peers s). \<forall>q \<in> set (set_peers s). f (dp_address p) = f (dp_address q)"
  proof (intro ballI)
    fix s p q assume s: "s \<in> set sets" and p: "p \<in> set (set_peers s)" and q: "q \<in> set (set_peers s)"
    have "q \<in> set (concat (map set_peers sets))" using s q by auto
    then have "q \<in> set peers" using assms(2) unfolding parts_ok_def by (metis set_mset_mset)
    with assms(2) s p q have "linked links (dp_address p) (dp_address q)" unfolding parts_ok_def by blast
    then show "f (dp_address p) = f (dp_address q)" by (rule path)
  qed
next
  assume const: "\<forall>s \<in> set sets. \<forall>p \<in> set (set_peers s). \<forall>q \<in> set (set_peers s). f (dp_address p) = f (dp_address q)"
  show "\<forall>(x, y) \<in> adj links. f x = f y"
  proof safe
    fix x y assume xy: "(x, y) \<in> adj links"
    have known: "z \<in> dp_address ` set peers" if "(w, z) \<in> adj links" for w z
      using adj_known [OF assms(1) that] .
    moreover have "(y, x) \<in> adj links" using adj_sym xy by (auto simp: sym_def)
    ultimately obtain p q where pq: "p \<in> set peers" "x = dp_address p" "q \<in> set peers" "y = dp_address q"
      using xy by blast
    have "p \<in> set (concat (map set_peers sets))" using assms(2) pq(1) unfolding parts_ok_def by (metis set_mset_mset)
    then obtain s where s: "s \<in> set sets" "p \<in> set (set_peers s)" by auto
    have "linked links x y" using xy by (auto simp: linked_def)
    with assms(2) s pq have "q \<in> set (set_peers s)" unfolding parts_ok_def by blast
    with const s pq show "f x = f y" by blast
  qed
qed

text \<open>C8. What the Laplacian matrix of the page says about the splits. For peers with distinct addresses and links between
  different known addresses the matrix is square and symmetric, and a vector on the addresses is mapped to zero
  exactly when it is constant on every set that \<open>splitThePeers\<close> finds: the number of sets is the dimension of the
  kernel, so that the spectral gap that the page logs is zero exactly for a split network.\<close>

theorem splits_laplacian:
  fixes f :: "string \<Rightarrow> rat"
  assumes "sorter_permutes srt" and "splits_wf peers links" and "\<forall>l \<in> set links. dl_source l \<noteq> dl_target l"
    and "splitThePeers srt peers links = Inr sets" and "A = graph_addresses peers links"
    and "L = laplacianMatrix (adjacencyMatrix A links)"
  shows "length L = length A \<and> (\<forall>i < length A. length (L ! i) = length A \<and> (\<forall>j < length A. L ! i ! j = L ! j ! i))
    \<and> ((\<forall>i < length A. (\<Sum>j < length A. of_int (L ! i ! j) * f (A ! j)) = 0) \<longleftrightarrow>
       (\<forall>s \<in> set sets. \<forall>p \<in> set (set_peers s). \<forall>q \<in> set (set_peers s). f (dp_address p) = f (dp_address q)))"
proof -
  let ?n = "length A"
  define a :: "nat \<Rightarrow> nat \<Rightarrow> rat" where "a i j = (if (A ! i, A ! j) \<in> adj links then 1 else 0)" for i j
  note M = adjacencyMatrix_entries [OF assms(5)]
  note LM = laplacianMatrix_entries [OF M(1), folded assms(6)]
  have a_sym: "a i j = a j i" for i j using adj_sym [of links] by (auto simp: a_def sym_def)
  have a_diag: "a i i = 0" for i using assms(3) by (auto simp: a_def adj_def)
  have entry: "of_int (L ! i ! j) = (if i = j then \<Sum>k < ?n. a i k else - a i j)" if "i < ?n" "j < ?n" for i j
  proof -
    have e: "of_int (adjacencyMatrix A links ! i ! k) = a i k" if "k < ?n" for k
      using \<open>i < ?n\<close> that by (simp add: M(2) a_def)
    have "of_int (\<Sum>k < ?n. adjacencyMatrix A links ! i ! k) = (\<Sum>k < ?n. a i k)"
      unfolding of_int_sum by (intro sum.cong refl) (simp add: e)
    then show ?thesis using that e [of j] by (auto simp: LM(2))
  qed
  have row: "(\<Sum>j < ?n. of_int (L ! i ! j) * f (A ! j)) = (\<Sum>j < ?n. a i j * (f (A ! i) - f (A ! j)))" if "i < ?n" for i
  proof -
    have "(\<Sum>j < ?n. of_int (L ! i ! j) * f (A ! j)) = (\<Sum>j < ?n. (if i = j then \<Sum>k < ?n. a i k else - a i j) * f (A ! j))"
      using entry [OF that] by (intro sum.cong) auto
    also have "\<dots> = (\<Sum>j < ?n. a i j * (f (A ! i) - f (A ! j)))" by (rule laplacian_apply [OF that a_diag])
    finally show ?thesis .
  qed
  have addrs: "set A = dp_address ` set peers"
    using assms(2) by (auto simp: assms(5) graph_addresses_def splits_wf_def)
  obtain sets' where "splitThePeers srt peers links = Inr sets'" and "parts_ok peers links sets'"
    using split_parts_ok [OF assms(1,2)] by blast
  with assms(4) have parts: "parts_ok peers links sets" by simp
  have "(\<forall>i < ?n. (\<Sum>j < ?n. a i j * (f (A ! i) - f (A ! j))) = 0) \<longleftrightarrow> (\<forall>(x, y) \<in> adj links. f x = f y)"
  proof
    assume zero: "\<forall>i < ?n. (\<Sum>j < ?n. a i j * (f (A ! i) - f (A ! j))) = 0"
    show "\<forall>(x, y) \<in> adj links. f x = f y"
    proof safe
      fix x y assume xy: "(x, y) \<in> adj links"
      then have "x \<in> set A" "y \<in> set A" by (auto simp: assms(5) graph_addresses_def adj_def)
      then obtain i j where ij: "i < ?n" "j < ?n" "A ! i = x" "A ! j = y" by (auto simp: in_set_conv_nth)
      have "f (A ! i) = f (A ! j)"
        by (rule kernel_constant [of ?n a "\<lambda>i. f (A ! i)"]) (use zero a_sym ij xy in \<open>auto simp: a_def\<close>)
      with ij show "f x = f y" by simp
    qed
  next
    assume "\<forall>(x, y) \<in> adj links. f x = f y"
    then have "a i j * (f (A ! i) - f (A ! j)) = 0" for i j by (auto simp: a_def)
    then show "\<forall>i < ?n. (\<Sum>j < ?n. a i j * (f (A ! i) - f (A ! j))) = 0" by (simp only: sum.neutral_const) simp
  qed
  moreover note constant_on_sets [OF assms(2) parts, of f]
  moreover have "L ! i ! j = L ! j ! i" if "i < ?n" "j < ?n" for i j
    using that adj_sym [of links] by (auto simp: LM(2) M(2) sym_def)
  ultimately show ?thesis using LM(1) row by (auto simp: square_def)
qed

definition demo_part :: "string \<Rightarrow> rat" where
  "demo_part a = (if a = ''a'' \<or> a = ''c'' then 1 else 0)"

theorem splits_laplacian_witness:
  "list_all (\<lambda>i. (\<Sum>j < length (graph_addresses demo_peers demo_links).
        of_int (laplacianMatrix (adjacencyMatrix (graph_addresses demo_peers demo_links) demo_links) ! i ! j)
          * demo_part (graph_addresses demo_peers demo_links ! j)) = 0) [0..<length (graph_addresses demo_peers demo_links)]"
proof -
  have w: "sorter_permutes (\<lambda>xs _. xs)" "splits_wf demo_peers demo_links"
    "\<forall>l \<in> set demo_links. dl_source l \<noteq> dl_target l"
    by (simp_all add: sorter_permutes_def splits_wf_def demo_peers_def demo_links_def newPeer_def)
  note kernel = splits_laplacian [OF w demo_split refl refl, of demo_part, THEN conjunct2, THEN conjunct2]
  have "\<forall>i < length (graph_addresses demo_peers demo_links). (\<Sum>j < length (graph_addresses demo_peers demo_links).
        of_int (laplacianMatrix (adjacencyMatrix (graph_addresses demo_peers demo_links) demo_links) ! i ! j)
          * demo_part (graph_addresses demo_peers demo_links ! j)) = 0"
    unfolding kernel by (simp add: newPeer_def demo_part_def)
  then show ?thesis by (auto simp only: list_all_iff set_upt atLeastLessThan_iff)
qed

text \<open>A link from a peer to itself spoils the matrix: its row no longer adds up to zero.\<close>

lemma laplacian_self_link:
  "laplacianMatrix (adjacencyMatrix [''a''] [\<lparr>dl_source = ''a'', dl_target = ''a''\<rparr>]) = [[1]]"
  by code_simp

section \<open>The lines of the graph\<close>

definition line_pair :: "DashboardSplitsPeer list \<Rightarrow> graph_line \<Rightarrow> string set" where
  "line_pair nodes l = {addr nodes (the (fst l)), addr nodes (the (snd l))}"

definition full_line :: "graph_line \<Rightarrow> bool" where
  "full_line l \<longleftrightarrow> fst l \<noteq> None \<and> snd l \<noteq> None"

lemma both_addr_full:
  "a \<noteq> None \<Longrightarrow> b \<noteq> None \<Longrightarrow> c \<noteq> None \<Longrightarrow> d \<noteq> None \<Longrightarrow>
   both_addr nodes a b c d = Inr (addr nodes (the a) = addr nodes (the b) \<and> addr nodes (the c) = addr nodes (the d))"
  by (auto simp: both_addr_def same_addr_def line_addr_def split: bool.splits)

lemma some_line_total: "(\<And>l. l \<in> set ls \<Longrightarrow> P l = Inr (Q l)) \<Longrightarrow> some_line P ls = Inr (\<exists>l \<in> set ls. Q l)"
  by (induction ls) (auto split: bool.splits)

lemma line_known:
  assumes "list_all full_line lines" and "full_line line"
  shows "\<exists>mutual same. mutualConnection nodes line lines = Inr mutual \<and> sameConnection nodes line lines = Inr same \<and>
    (mutual \<or> same \<longleftrightarrow> line_pair nodes line \<in> line_pair nodes ` set lines)"
proof -
  let ?m = "\<lambda>l. addr nodes (the (fst l)) = addr nodes (the (snd line)) \<and> addr nodes (the (snd l)) = addr nodes (the (fst line))"
  let ?s = "\<lambda>l. addr nodes (the (fst l)) = addr nodes (the (fst line)) \<and> addr nodes (the (snd l)) = addr nodes (the (snd line))"
  have "mutualConnection nodes line lines = Inr (\<exists>l \<in> set lines. ?m l)"
    unfolding mutualConnection_def
    by (rule some_line_total) (use assms in \<open>auto simp: both_addr_full full_line_def list_all_iff\<close>)
  moreover have "sameConnection nodes line lines = Inr (\<exists>l \<in> set lines. ?s l)"
    unfolding sameConnection_def
    by (rule some_line_total) (use assms in \<open>auto simp: both_addr_full full_line_def list_all_iff\<close>)
  moreover have "(\<exists>l \<in> set lines. ?m l) \<or> (\<exists>l \<in> set lines. ?s l) \<longleftrightarrow> line_pair nodes line \<in> line_pair nodes ` set lines"
  proof -
    have "?m l \<or> ?s l \<longleftrightarrow> line_pair nodes line = line_pair nodes l" for l
      unfolding line_pair_def doubleton_eq_iff by metis
    then show ?thesis unfolding image_iff by blast
  qed
  ultimately show ?thesis by blast
qed

text \<open>Every link is drawn, and two peers are joined by one line however many links there are between them.\<close>

lemma graph_lines_once:
  assumes "splits_wf nodes all" and "set links \<subseteq> set all" and "list_all full_line lines" and "distinct (map (line_pair nodes) lines)"
  shows "\<exists>ls. graph_lines nodes lines links = Inr ls \<and> list_all full_line ls \<and> distinct (map (line_pair nodes) ls)
    \<and> line_pair nodes ` set ls = line_pair nodes ` set lines \<union> (\<lambda>l. {dl_source l, dl_target l}) ` set links"
  using assms(2-)
proof (induction links arbitrary: lines)
  case Nil
  then show ?case by simp
next
  case (Cons link links)
  let ?line = "(find_peer nodes (dl_source link), find_peer nodes (dl_target link))"
  have "dl_source link \<in> dp_address ` set nodes" "dl_target link \<in> dp_address ` set nodes"
    using assms(1) Cons.prems(1) by (auto simp: splits_wf_def)
  then obtain i j where ij: "find_peer nodes (dl_source link) = Some i" "addr nodes i = dl_source link"
    "find_peer nodes (dl_target link) = Some j" "addr nodes j = dl_target link"
    using find_peer_known by metis
  then have full: "full_line ?line" and pair: "line_pair nodes ?line = {dl_source link, dl_target link}"
    by (simp_all add: full_line_def line_pair_def)
  obtain mutual same where ms: "mutualConnection nodes ?line lines = Inr mutual" "sameConnection nodes ?line lines = Inr same"
    "mutual \<or> same \<longleftrightarrow> line_pair nodes ?line \<in> line_pair nodes ` set lines"
    using line_known [OF Cons.prems(2) full] by blast
  define lines' where "lines' = (if \<not> mutual \<and> \<not> same then lines @ [?line] else lines)"
  have "list_all full_line lines'" "distinct (map (line_pair nodes) lines')"
    "line_pair nodes ` set lines' = insert {dl_source link, dl_target link} (line_pair nodes ` set lines)"
    using Cons.prems(2,3) full ms(3) pair by (auto simp: lines'_def)
  moreover have "graph_lines nodes lines (link # links) = graph_lines nodes lines' links"
    by (simp add: Let_def ms(1,2) lines'_def)
  moreover have "set links \<subseteq> set all" using Cons.prems(1) by simp
  ultimately show ?case using Cons.IH [of lines'] by auto
qed

section \<open>Places, shapes and redrawing\<close>

lemma ceil_sqrt_ok: "n \<le> ceil_sqrt m n * ceil_sqrt m n"
  by (induction m n rule: ceil_sqrt.induct) (simp add: ceil_sqrt.simps)

text \<open>Different sets are pulled to different places of the chart.\<close>

lemma force_cells:
  assumes "i < length sets" and "j < length sets" and "m = matrixSize (length sets)"
  shows "i div m < m" and "i mod m < m" and "i div m = j div m \<Longrightarrow> i mod m = j mod m \<Longrightarrow> i = j"
proof -
  have n: "length sets \<le> m * m" using ceil_sqrt_ok [of "length sets" 0] by (simp add: assms(3) matrixSize_def)
  then have "0 < m" using assms(1) by (cases m) auto
  then show "i mod m < m" by simp
  show "i div m < m" using n assms(1) \<open>0 < m\<close> by (simp add: div_less_iff_less_mult)
  show "i div m = j div m \<Longrightarrow> i mod m = j mod m \<Longrightarrow> i = j" by (metis div_mult_mod_eq)
qed

text \<open>The force \<open>bounds\<close> reflects a peer at the far border but leaves it outside at the near one.\<close>

lemma bound_far: "0 \<le> x \<Longrightarrow> x \<le> 2 * w \<Longrightarrow> 0 \<le> bound_coord w x \<and> bound_coord w x \<le> w"
  by (auto simp: bound_coord_def min_def)

lemma bound_near_kept: "x < 0 \<Longrightarrow> 0 \<le> w \<Longrightarrow> bound_coord w x = x"
  by (auto simp: bound_coord_def)

text \<open>Some names have no shape, so that the peer is not drawn, and some have two.\<close>

lemma shapes_none: "peer_shapes (newPeer ''x'' (Some ''whale-1'')) = []"
  by code_simp

lemma shapes_two: "peer_shapes (newPeer ''x'' (Some ''snark-node'')) = [''circles'', ''triangles'']"
  by code_simp

text \<open>After a graph was drawn no state is drawn again before one that is fetching.\<close>

lemma graph_drawn_once:
  assumes "snd (graph_update f s)" and "list_all (\<lambda>s. \<not> sp_fetching s) ss"
  shows "\<not> snd (graph_update (foldl (\<lambda>f s. fst (graph_update f s)) (fst (graph_update f s)) ss) s')  \<or> sp_fetching s'"
proof -
  have "foldl (\<lambda>f s. fst (graph_update f s)) False ss = False"
    using assms(2) by (induction ss) (auto simp: graph_update_def Let_def)
  moreover have "fst (graph_update f s) = False"
    using assms(1) by (auto simp: graph_update_def Let_def split: if_splits)
  ultimately show ?thesis by (simp add: graph_update_def Let_def)
qed

end
