(* ===== verification/Memory_Treemap.thy ===== *)
theory Memory_Treemap
  imports Memory_Resources
begin

text \<open>
  The components of the memory page: the treemap, the table, the toolbar and the breadcrumbs, together with the
  store. A user event dispatches an action, the reducer makes the new state, and the listeners of the treemap
  run for the parts of the state that changed, in the order of their subscriptions.

  \<open>hier\<close> stands for the hierarchy that D3 makes of a resource (documented: a node per resource, with the nodes of its
  children, whose order \<open>sort\<close> may change). What the treemap shows is the resource whose children are drawn.
\<close>

section \<open>The treemap\<close>

datatype tm_node = TmNode (tm_data: MemoryResource) (tm_children: "tm_node list")

record treemap =
  tm_breadcrumbs :: "MemoryResource option list"
  tm_activeResource :: "MemoryResource option"
  tm_isFirstTime :: bool
  tm_lastClicked :: "MemoryResource option"
  tm_baseResource :: "MemoryResource option"
  tm_treemapView :: "TreemapView option"
  tm_treemap :: "tm_node option"
  tm_shown :: "MemoryResource option"

definition treemap_initial :: treemap where
  "treemap_initial = \<lparr>tm_breadcrumbs = [], tm_activeResource = None, tm_isFirstTime = True, tm_lastClicked = None,
     tm_baseResource = None, tm_treemapView = None, tm_treemap = None, tm_shown = None\<rparr>"

fun findNodeByName :: "nat \<Rightarrow> tm_node \<Rightarrow> tm_node option" where
  "findNodeByName k (TmNode d cs) =
     (if mr_id d = k then Some (TmNode d cs)
      else foldl (\<lambda>found item. case found of Some n \<Rightarrow> Some n | None \<Rightarrow> findNodeByName k item) None cs)"

text \<open>All nodes of a hierarchy, and the field \<open>parent\<close> of the node of a resource.\<close>

fun tm_all :: "tm_node \<Rightarrow> tm_node list" where
  "tm_all (TmNode d cs) = TmNode d cs # concat (map tm_all cs)"

definition tm_parent :: "tm_node \<Rightarrow> tm_node \<Rightarrow> tm_node option" where
  "tm_parent t n = List.find (\<lambda>p. n \<in> set (tm_children p)) (tm_all t)"

definition zoomIn :: "tm_node \<Rightarrow> treemap \<Rightarrow> treemap" where
  "zoomIn d tm = tm\<lparr>tm_lastClicked := Some (tm_data d), tm_shown := Some (tm_data d)\<rparr>"

text \<open>Zooming to a resource: the search reads the identifier of the resource, and its result is used unchecked.\<close>

definition zoomTo :: "MemoryResource option \<Rightarrow> treemap \<Rightarrow> js_error + treemap" where
  "zoomTo resource tm = (case (resource, tm_treemap tm) of
      (Some r, Some t) \<Rightarrow> (case findNodeByName (mr_id r) t of None \<Rightarrow> Inl TypeError | Some d \<Rightarrow> Inr (zoomIn d tm))
    | _ \<Rightarrow> Inl TypeError)"

definition listen_view :: "(MemoryResource \<Rightarrow> tm_node) \<Rightarrow> TreemapView \<Rightarrow> treemap \<Rightarrow> js_error + treemap" where
  "listen_view hier v tm = (case tm_treemapView tm of
      None \<Rightarrow> Inr (tm\<lparr>tm_treemapView := Some v\<rparr>)
    | Some _ \<Rightarrow> (case tm_baseResource tm of
        None \<Rightarrow> Inl TypeError
      | Some b \<Rightarrow> zoomTo (tm_activeResource tm) (tm\<lparr>tm_treemapView := Some v, tm_treemap := Some (hier b)\<rparr>)))"

definition listen_resource :: "(MemoryResource \<Rightarrow> tm_node) \<Rightarrow> MemoryResource option \<Rightarrow> treemap \<Rightarrow> treemap" where
  "listen_resource hier resource tm = (case resource of
      None \<Rightarrow> tm\<lparr>tm_shown := None, tm_isFirstTime := True, tm_baseResource := None, tm_lastClicked := None\<rparr>
    | Some r \<Rightarrow> tm\<lparr>tm_baseResource := Some r, tm_treemap := Some (hier r), tm_shown := Some r\<rparr>)"

definition listen_active :: "MemoryResource option \<Rightarrow> treemap \<Rightarrow> js_error + treemap" where
  "listen_active resource tm = (case resource of
      None \<Rightarrow> Inr tm
    | Some r \<Rightarrow>
        (let tm1 = tm\<lparr>tm_activeResource := Some r\<rparr>
         in if \<not> tm_isFirstTime tm \<and> tm_lastClicked tm \<noteq> Some r
            then map_sum id (\<lambda>tm2. tm2\<lparr>tm_isFirstTime := False\<rparr>) (zoomTo (Some r) (tm1\<lparr>tm_lastClicked := Some r\<rparr>))
            else Inr (tm1\<lparr>tm_isFirstTime := False\<rparr>)))"

text \<open>The listeners after a change of the state.\<close>

definition tm_notify ::
  "(MemoryResource \<Rightarrow> tm_node) \<Rightarrow> MemoryResourcesState \<Rightarrow> MemoryResourcesState \<Rightarrow> treemap \<Rightarrow> js_error + treemap" where
  "tm_notify hier old new tm =
     (case (if me_treemapView new \<noteq> me_treemapView old then listen_view hier (me_treemapView new) tm else Inr tm) of
        Inl e \<Rightarrow> Inl e
      | Inr tm1 \<Rightarrow>
          let tm2 = (if me_resource new \<noteq> me_resource old then listen_resource hier (me_resource new) tm1 else tm1)
          in case (if me_activeResource new \<noteq> me_activeResource old then listen_active (me_activeResource new) tm2 else Inr tm2) of
               Inl e \<Rightarrow> Inl e
             | Inr tm3 \<Rightarrow> Inr (tm3\<lparr>tm_breadcrumbs := me_breadcrumbs new\<rparr>))"

text \<open>The tile function: the layout fills the whole chart, and the result is scaled into the rectangle of the node.\<close>

definition tile_coord :: "rat \<Rightarrow> rat \<Rightarrow> rat \<Rightarrow> rat \<Rightarrow> rat" where
  "tile_coord whole lo hi c = lo + (c / whole) * (hi - lo)"

definition leaf_weight :: "MemoryResource \<Rightarrow> rat" where
  "leaf_weight d = (if mr_children d \<noteq> [] then 0 else if mr_value d \<noteq> 0 then mr_value d else 1 / 100)"

definition tooltip_x :: "rat \<Rightarrow> rat \<Rightarrow> rat \<Rightarrow> rat" where
  "tooltip_x clientX tooltipWidth innerWidth =
     (let x = clientX - tooltipWidth / 2 + 14; maxX = innerWidth - tooltipWidth - 14 in if x > maxX then maxX else x)"

text \<open>Whether the texts of a rectangle are shown.\<close>

definition texts_seen :: "rat \<Rightarrow> rat \<Rightarrow> rat \<Rightarrow> rat \<Rightarrow> nat \<Rightarrow> bool" where
  "texts_seen rectWidth rectHeight textWidth countWidth children \<longleftrightarrow>
     \<not> ((if children = 0 then textWidth else textWidth + countWidth + 20) > rectWidth \<or> rectHeight < 30)"

text \<open>The unit of a size in kilobytes and the number before it (printed with two digits).\<close>

definition resSize :: "rat \<Rightarrow> rat \<times> string" where
  "resSize kilobytes =
     (if kilobytes \<ge> 1048576 then (kilobytes / 1048576, ''GB'')
      else if kilobytes \<ge> 1024 then (kilobytes / 1024, ''MB'') else (kilobytes, ''KB''))"

section \<open>The page\<close>

text \<open>\<open>mp_seen\<close> is the state that the toolbar and the breadcrumbs hold: the last one with a resource.\<close>

record memory_page =
  mp_store :: MemoryResourcesState
  mp_storage :: memoryStorage
  mp_treemap :: treemap
  mp_seen :: "MemoryResourcesState option"

text \<open>The page when it is opened: every listener runs once for the state it finds.\<close>

definition memory_open :: "memoryStorage \<Rightarrow> memoryStorage \<Rightarrow> memory_page" where
  "memory_open loaded storage =
     \<lparr>mp_store = memoryInitialState loaded, mp_storage = storage,
      mp_treemap = treemap_initial\<lparr>tm_treemapView := Some (me_treemapView (memoryInitialState loaded))\<rparr>, mp_seen = None\<rparr>"

definition mem_dispatch ::
  "(MemoryResource \<Rightarrow> tm_node) \<Rightarrow> memoryStorage \<Rightarrow> MemoryResourcesActions \<Rightarrow> memory_page \<Rightarrow> js_error + memory_page" where
  "mem_dispatch hier loaded action p =
     (case memoryResourcesReducer loaded (mp_store p, mp_storage p) action of
        Inl e \<Rightarrow> Inl e
      | Inr (s, st) \<Rightarrow> (case tm_notify hier (mp_store p) s (mp_treemap p) of
            Inl e \<Rightarrow> Inl e
          | Inr tm \<Rightarrow> Inr \<lparr>mp_store = s, mp_storage = st, mp_treemap = tm,
              mp_seen = (if me_resource s = None then mp_seen p else Some s)\<rparr>))"

definition table_rows :: "memory_page \<Rightarrow> MemoryResource list" where
  "table_rows p = (case me_activeResource (mp_store p) of None \<Rightarrow> [] | Some r \<Rightarrow> mr_children r)"

definition memory_onRowClick ::
  "(MemoryResource \<Rightarrow> tm_node) \<Rightarrow> memoryStorage \<Rightarrow> MemoryResource \<Rightarrow> memory_page \<Rightarrow> js_error + memory_page" where
  "memory_onRowClick hier loaded row p =
     (if mr_children row = [] then Inr p else mem_dispatch hier loaded (MEMORY_RESOURCES_SET_ACTIVE_RESOURCE row) p)"

text \<open>A click on a rectangle of the treemap, and the key Escape.\<close>

definition tree_click ::
  "(MemoryResource \<Rightarrow> tm_node) \<Rightarrow> memoryStorage \<Rightarrow> tm_node \<Rightarrow> memory_page \<Rightarrow> js_error + memory_page" where
  "tree_click hier loaded d p =
     (if tm_children d = [] then Inr p
      else mem_dispatch hier loaded (MEMORY_RESOURCES_SET_ACTIVE_RESOURCE (tm_data d))
             (p\<lparr>mp_treemap := zoomIn d (mp_treemap p)\<rparr>))"

definition zoomOut ::
  "(MemoryResource \<Rightarrow> tm_node) \<Rightarrow> memoryStorage \<Rightarrow> tm_node \<Rightarrow> tm_node \<Rightarrow> memory_page \<Rightarrow> js_error + memory_page" where
  "zoomOut hier loaded t d p = (case tm_parent t d of
      None \<Rightarrow> Inl TypeError
    | Some q \<Rightarrow> mem_dispatch hier loaded (MEMORY_RESOURCES_SET_ACTIVE_RESOURCE (tm_data q))
        (p\<lparr>mp_treemap := zoomIn q (mp_treemap p)\<rparr>))"

definition onKeydownHandler :: "(MemoryResource \<Rightarrow> tm_node) \<Rightarrow> memoryStorage \<Rightarrow> memory_page \<Rightarrow> js_error + memory_page" where
  "onKeydownHandler hier loaded p =
     (let bs = tm_breadcrumbs (mp_treemap p)
      in if length bs > 1
         then case (last bs, tm_treemap (mp_treemap p)) of
             (Some b, Some t) \<Rightarrow> (case findNodeByName (mr_id b) t of
                 None \<Rightarrow> Inl TypeError | Some d \<Rightarrow> zoomOut hier loaded t d p)
           | _ \<Rightarrow> Inl TypeError
         else Inr p)"

text \<open>The breadcrumbs, and the toolbar. A click on an element that is not there changes nothing.\<close>

definition seen_breadcrumbs :: "memory_page \<Rightarrow> MemoryResource option list" where
  "seen_breadcrumbs p = (case mp_seen p of None \<Rightarrow> [] | Some s \<Rightarrow> me_breadcrumbs s)"

definition setActiveResource ::
  "(MemoryResource \<Rightarrow> tm_node) \<Rightarrow> memoryStorage \<Rightarrow> nat \<Rightarrow> memory_page \<Rightarrow> js_error + memory_page" where
  "setActiveResource hier loaded i p =
     (case (if i < length (seen_breadcrumbs p) then seen_breadcrumbs p ! i else None) of
        None \<Rightarrow> Inr p
      | Some b \<Rightarrow> mem_dispatch hier loaded (MEMORY_RESOURCES_SET_ACTIVE_RESOURCE b) p)"

definition toolbar_back :: "(MemoryResource \<Rightarrow> tm_node) \<Rightarrow> memoryStorage \<Rightarrow> memory_page \<Rightarrow> js_error + memory_page" where
  "toolbar_back hier loaded p =
     (let bs = seen_breadcrumbs p
      in if length bs < 2 then Inr p else setActiveResource hier loaded (length bs - 2) p)"

definition setTreemapView ::
  "(MemoryResource \<Rightarrow> tm_node) \<Rightarrow> memoryStorage \<Rightarrow> TreemapView \<Rightarrow> memory_page \<Rightarrow> js_error + memory_page" where
  "setTreemapView hier loaded v p =
     (if map_option me_treemapView (mp_seen p) = Some v then Inr p
      else mem_dispatch hier loaded (MEMORY_RESOURCES_SET_TREEMAP_VIEW v) p)"

definition setGranularity ::
  "(MemoryResource \<Rightarrow> tm_node) \<Rightarrow> memoryStorage \<Rightarrow> rat \<Rightarrow> memory_page \<Rightarrow> js_error + memory_page" where
  "setGranularity hier loaded g p =
     (if map_option me_granularity (mp_seen p) = Some g then Inr p
      else mem_dispatch hier loaded (MEMORY_RESOURCES_SET_GRANULARITY g) p)"

text \<open>The window is resized: the values are computed again, and the active resource is zoomed to and dispatched. Without a chart
  there is nothing to resize.\<close>

definition redrawChart :: "(MemoryResource \<Rightarrow> tm_node) \<Rightarrow> memoryStorage \<Rightarrow> memory_page \<Rightarrow> js_error + memory_page" where
  "redrawChart hier loaded p =
     (case (tm_shown (mp_treemap p), tm_baseResource (mp_treemap p)) of
        (Some _, Some b) \<Rightarrow>
          (let tm = (mp_treemap p)\<lparr>tm_treemap := Some (hier b)\<rparr>
           in case zoomTo (tm_activeResource tm) tm of
                Inl e \<Rightarrow> Inl e
              | Inr tm' \<Rightarrow> (case tm_lastClicked tm' of
                  None \<Rightarrow> Inl TypeError
                | Some r \<Rightarrow> mem_dispatch hier loaded (MEMORY_RESOURCES_SET_ACTIVE_RESOURCE r) (p\<lparr>mp_treemap := tm'\<rparr>)))
      | _ \<Rightarrow> Inl TypeError)"

text \<open>The rectangles on the chart: the children of the node that is shown.\<close>

definition drawn :: "memory_page \<Rightarrow> tm_node list" where
  "drawn p = (case (tm_shown (mp_treemap p), tm_treemap (mp_treemap p)) of
      (Some r, Some t) \<Rightarrow> (case findNodeByName (mr_id r) t of None \<Rightarrow> [] | Some n \<Rightarrow> tm_children n)
    | _ \<Rightarrow> [])"

text \<open>The events of the page: the answer to a request (with its threshold), clicks on a row of the table, on a rectangle, on a
  breadcrumb and on the arrow, the key Escape, the choice of a view, and a new size of the window.\<close>

datatype memory_event =
  Answer MemoryResourceTree rat | RowClick nat | RectClick nat | EscapeKey | CrumbClick nat | BackClick | ChooseView TreemapView | Resize

definition memory_step ::
  "(rat \<Rightarrow> string) \<Rightarrow> (MemoryResource \<Rightarrow> tm_node) \<Rightarrow> memoryStorage \<Rightarrow> memory_page \<Rightarrow> memory_event \<Rightarrow> js_error + memory_page" where
  "memory_step shw hier loaded p ev = (case ev of
      Answer response threshold \<Rightarrow>
        mem_dispatch hier loaded (MEMORY_RESOURCES_GET_SUCCESS (Some (mapMemoryResponse shw response threshold))) p
    | RowClick i \<Rightarrow> if i < length (table_rows p) then memory_onRowClick hier loaded (table_rows p ! i) p else Inr p
    | RectClick i \<Rightarrow> if i < length (drawn p) then tree_click hier loaded (drawn p ! i) p else Inr p
    | EscapeKey \<Rightarrow> onKeydownHandler hier loaded p
    | CrumbClick i \<Rightarrow> setActiveResource hier loaded i p
    | BackClick \<Rightarrow> toolbar_back hier loaded p
    | ChooseView v \<Rightarrow> setTreemapView hier loaded v p
    | Resize \<Rightarrow> redrawChart hier loaded p)"

section \<open>Paths of the tree\<close>

definition mpath :: "MemoryResource \<Rightarrow> MemoryResource list \<Rightarrow> bool" where
  "mpath r bs \<longleftrightarrow> bs \<noteq> [] \<and> hd bs = r \<and> successively (\<lambda>a b. b \<in> set (mr_children a)) bs"

lemma mpath_single [simp]: "mpath r [r]"
  by (simp add: mpath_def)

lemma mpath_Cons: "bs \<noteq> [] \<Longrightarrow> mpath r (a # bs) \<longleftrightarrow> a = r \<and> hd bs \<in> set (mr_children r) \<and> mpath (hd bs) bs"
  by (auto simp: mpath_def successively_Cons)

lemma mpath_snoc: "mpath r bs \<Longrightarrow> x \<in> set (mr_children (last bs)) \<Longrightarrow> mpath r (bs @ [x])"
  by (auto simp: mpath_def successively_append_iff)

lemma mpath_take: "mpath r bs \<Longrightarrow> i < length bs \<Longrightarrow> mpath r (take (Suc i) bs) \<and> last (take (Suc i) bs) = bs ! i"
proof -
  assume a: "mpath r bs" "i < length bs"
  then have "successively (\<lambda>a b. b \<in> set (mr_children a)) (take (Suc i) bs @ drop (Suc i) bs)" by (simp add: mpath_def)
  then have "successively (\<lambda>a b. b \<in> set (mr_children a)) (take (Suc i) bs)" unfolding successively_append_iff by blast
  moreover have "last (take (Suc i) bs) = bs ! i" using a(2) by (simp add: take_Suc_conv_app_nth)
  ultimately show ?thesis using a by (auto simp: mpath_def)
qed

lemma child_size: "x \<in> set (mr_children y) \<Longrightarrow> size x < size y"
proof (cases y)
  case (MemoryResource n cs v i)
  assume "x \<in> set (mr_children y)"
  then have "size x \<le> size_list size cs" by (simp add: MemoryResource size_list_estimation')
  then show ?thesis by (simp add: MemoryResource)
qed

lemma nodes_children: "y \<in> set (nodes r) \<Longrightarrow> x \<in> set (mr_children y) \<Longrightarrow> x \<in> set (nodes r)"
  by (induction r rule: nodes.induct) (auto, use nodes_self in blast)

lemma mpath_nodes: "mpath r bs \<Longrightarrow> set bs \<subseteq> set (nodes r)"
proof (induction bs rule: rev_induct)
  case (snoc x bs)
  show ?case
  proof (cases "bs = []")
    case False
    with snoc have "mpath r bs" "x \<in> set (mr_children (last bs))" by (auto simp: mpath_def successively_append_iff)
    with snoc.IH False show ?thesis using nodes_children [of "last bs" r x] by (auto dest: last_in_set)
  qed (use snoc.prems in \<open>simp add: mpath_def\<close>)
qed simp

lemma nodes_mpath: "x \<in> set (nodes r) \<Longrightarrow> \<exists>bs. mpath r bs \<and> last bs = x"
proof (induction r rule: nodes.induct)
  case (1 n cs v i)
  let ?r = "MemoryResource n cs v i"
  show ?case
  proof (cases "x = ?r")
    case False
    with "1.prems" obtain c where c: "c \<in> set cs" "x \<in> set (nodes c)" by auto
    with "1.IH" [OF c(1)] obtain bs where "mpath c bs" "last bs = x" by blast
    with c(1) show ?thesis by (intro exI [of _ "?r # bs"]) (auto simp: mpath_def successively_Cons)
  qed (auto intro: exI [of _ "[?r]"])
qed

lemma distinct_concat_same:
  "distinct (map f (concat (map g xs))) \<Longrightarrow> b \<in> set xs \<Longrightarrow> c \<in> set xs \<Longrightarrow> u \<in> set (g b) \<Longrightarrow> v \<in> set (g c) \<Longrightarrow> f u = f v \<Longrightarrow> b = c"
proof (induction xs)
  case (Cons x xs)
  have sep: "f y \<noteq> f z" if "y \<in> set (g x)" "z \<in> set (g w)" "w \<in> set xs" for y z w
    using Cons.prems(1) that by (auto simp: image_iff)
  show ?case
    using Cons.prems(2,3) sep [of u v c] sep [of v u b] Cons.prems(4-6) Cons.IH Cons.prems(1) by auto
qed simp

lemma mpath_unique:
  "distinct (map mr_id (nodes r)) \<Longrightarrow> mpath r bs \<Longrightarrow> mpath r cs \<Longrightarrow> mr_id (last bs) = mr_id (last cs) \<Longrightarrow> bs = cs"
proof (induction bs arbitrary: r cs)
  case (Cons b bs)
  obtain n ch v i where r: "r = MemoryResource n ch v i" by (cases r)
  have dist: "mr_id r \<notin> mr_id ` set (concat (map nodes ch))" "distinct (map mr_id (concat (map nodes ch)))"
    using Cons.prems(1) by (auto simp: r)
  have below: "last xs \<in> set (nodes (hd xs)) \<and> hd xs \<in> set ch" if "mpath r (r # xs)" "xs \<noteq> []" for xs
    using that mpath_Cons [of xs r r] mpath_nodes [of "hd xs" xs] by (auto simp: r)
  have not_root: "mr_id (last xs) \<noteq> mr_id r" if "mpath r (r # xs)" "xs \<noteq> []" for xs
    using below [OF that] dist(1) by (auto simp: image_iff) metis
  obtain cs' where cs: "cs = r # cs'" using Cons.prems(3) by (cases cs) (auto simp: mpath_def)
  have b: "b = r" using Cons.prems(2) by (simp add: mpath_def)
  show ?case
  proof (cases "bs = []")
    case True
    with Cons.prems(3,4) not_root [of cs'] show ?thesis by (cases "cs' = []") (auto simp: b cs)
  next
    case False
    have cs': "cs' \<noteq> []" using Cons.prems(2,4) not_root [of bs] False by (auto simp: b cs)
    note m = below [OF Cons.prems(2) [unfolded b] False] below [OF Cons.prems(3) [unfolded cs] cs']
    have same: "hd bs = hd cs'"
      using distinct_concat_same [OF dist(2), of "hd bs" "hd cs'" "last bs" "last cs'"] m Cons.prems(4) False cs'
      by (simp add: cs)
    have "distinct (map mr_id (nodes (hd bs)))"
      using dist(2) m(1) by (auto simp: distinct_concat_iff map_concat distinct_map_filter)
    then have "bs = cs'"
      using Cons.IH [of "hd bs" cs'] Cons.prems(2-4) False cs' same by (auto simp: b cs mpath_Cons)
    then show ?thesis by (simp add: b cs)
  qed
qed (simp add: mpath_def)

section \<open>The hierarchy\<close>

text \<open>What is documented of the hierarchy: a node has its resource, and the nodes of the children in some order.\<close>

fun hier_ok :: "tm_node \<Rightarrow> bool" where
  "hier_ok (TmNode d cs) \<longleftrightarrow> mset (map tm_data cs) = mset (mr_children d) \<and> (\<forall>c \<in> set cs. hier_ok c)"

definition hierarchy_of :: "(MemoryResource \<Rightarrow> tm_node) \<Rightarrow> bool" where
  "hierarchy_of hier \<longleftrightarrow> (\<forall>r. tm_data (hier r) = r \<and> hier_ok (hier r))"

lemma hier_ok_children: "hier_ok n \<Longrightarrow> mset (map tm_data (tm_children n)) = mset (mr_children (tm_data n))"
  by (cases n) simp

lemma hier_ok_children_set: "hier_ok n \<Longrightarrow> tm_data ` set (tm_children n) = set (mr_children (tm_data n))"
  using mset_eq_setD [OF hier_ok_children] by simp

lemma tm_all_ok: "n \<in> set (tm_all t) \<Longrightarrow> hier_ok t \<Longrightarrow> hier_ok n"
  by (induction t rule: tm_all.induct) auto

lemma tm_all_self [simp]: "t \<in> set (tm_all t)"
  by (cases t) simp

lemma tm_all_parent: "n \<in> set (tm_all t) \<Longrightarrow> n = t \<or> (\<exists>q \<in> set (tm_all t). n \<in> set (tm_children q))"
  by (induction t rule: tm_all.induct) fastforce

lemma tm_all_data: "hier_ok t \<Longrightarrow> tm_data ` set (tm_all t) = set (nodes (tm_data t))"
proof (induction t rule: tm_all.induct)
  case (1 d cs)
  have "tm_data ` set (tm_all (TmNode d cs)) = insert d (\<Union>c \<in> set cs. tm_data ` set (tm_all c))" by (simp add: image_UN)
  also have "\<dots> = insert d (\<Union>c \<in> set cs. set (nodes (tm_data c)))" using 1 by simp
  also have "\<dots> = insert d (\<Union>x \<in> tm_data ` set cs. set (nodes x))" by simp
  also have "\<dots> = set (nodes d)" using hier_ok_children_set [OF "1.prems"] by (cases d) simp
  finally show ?case by simp
qed

text \<open>The search is the first node in preorder with the identifier.\<close>

lemma findNodeByName_find: "findNodeByName k t = List.find (\<lambda>n. mr_id (tm_data n) = k) (tm_all t)"
proof (induction k t rule: findNodeByName.induct)
  case (1 k d cs)
  have append: "List.find P (xs @ ys) = (case List.find P xs of Some n \<Rightarrow> Some n | None \<Rightarrow> List.find P ys)"
    for P :: "tm_node \<Rightarrow> bool" and xs ys by (induction xs) auto
  have "foldl (\<lambda>found item. case found of Some n \<Rightarrow> Some n | None \<Rightarrow> findNodeByName k item) acc xs
      = (case acc of Some n \<Rightarrow> Some n | None \<Rightarrow> List.find (\<lambda>n. mr_id (tm_data n) = k) (concat (map tm_all xs)))"
    if "set xs \<subseteq> set cs" and "mr_id d \<noteq> k" for xs acc
    using that by (induction xs arbitrary: acc) (auto simp: append "1.IH" split: option.splits)
  then show ?case by simp
qed

lemma findNodeByName_data:
  assumes "hier_ok t" and "inj_on mr_id (set (nodes (tm_data t)))" and "x \<in> set (nodes (tm_data t))"
  obtains n where "findNodeByName (mr_id x) t = Some n" and "tm_data n = x" and "n \<in> set (tm_all t)"
proof -
  from assms(1,3) tm_all_data obtain m where m: "m \<in> set (tm_all t)" "tm_data m = x" by force
  then have "findNodeByName (mr_id x) t \<noteq> None" by (auto simp: findNodeByName_find find_None_iff)
  then obtain n where n: "findNodeByName (mr_id x) t = Some n" by blast
  then have "n \<in> set (tm_all t)" "mr_id (tm_data n) = mr_id x" by (auto simp: findNodeByName_find find_Some_iff)
  moreover from this have "tm_data n = x" using assms tm_all_data [OF assms(1)] by (auto dest!: inj_onD)
  ultimately show thesis using that n by blast
qed

section \<open>Navigation\<close>

definition tm_ready :: "(MemoryResource \<Rightarrow> tm_node) \<Rightarrow> MemoryResource \<Rightarrow> treemap \<Rightarrow> bool" where
  "tm_ready hier r tm \<longleftrightarrow> \<not> tm_isFirstTime tm \<and> tm_baseResource tm = Some r \<and> tm_treemap tm = Some (hier r) \<and>
     tm_treemapView tm \<noteq> None"

definition tm_at :: "MemoryResource \<Rightarrow> treemap \<Rightarrow> bool" where
  "tm_at x tm \<longleftrightarrow> tm_shown tm = Some x \<and> tm_lastClicked tm \<in> {None, Some x}"

definition store_at :: "MemoryResource \<Rightarrow> MemoryResource list \<Rightarrow> MemoryResourcesState \<Rightarrow> bool" where
  "store_at r bs st \<longleftrightarrow> me_resource st = Some r \<and> me_breadcrumbs st = map Some bs \<and> me_activeResource st = Some (last bs) \<and>
     mpath r bs \<and> mr_children (last bs) \<noteq> []"

text \<open>The page while the tree \<open>r\<close> is explored along the path \<open>bs\<close>.\<close>

definition page_at :: "(MemoryResource \<Rightarrow> tm_node) \<Rightarrow> MemoryResource \<Rightarrow> MemoryResource list \<Rightarrow> memory_page \<Rightarrow> bool" where
  "page_at hier r bs p \<longleftrightarrow> store_at r bs (mp_store p) \<and> mp_seen p = Some (mp_store p) \<and>
     tm_ready hier r (mp_treemap p) \<and> tm_at (last bs) (mp_treemap p) \<and> tm_activeResource (mp_treemap p) = Some (last bs) \<and>
     tm_breadcrumbs (mp_treemap p) = map Some bs"

text \<open>A tree that can be explored: identifiers occur once, only the root is called \<open>root\<close>, and it has children.\<close>

definition tree_ok :: "MemoryResource \<Rightarrow> bool" where
  "tree_ok r \<longleftrightarrow> distinct (map mr_id (nodes r)) \<and> root_unique r \<and> mr_children r \<noteq> []"

lemma zoomTo_at:
  assumes "hierarchy_of hier" and "tree_ok r" and "tm_ready hier r tm" and "x \<in> set (nodes r)"
  shows "zoomTo (Some x) tm = Inr (tm\<lparr>tm_lastClicked := Some x, tm_shown := Some x\<rparr>)"
proof -
  have h: "tm_data (hier r) = r" "hier_ok (hier r)" using assms(1) by (auto simp: hierarchy_of_def)
  obtain n where "findNodeByName (mr_id x) (hier r) = Some n" "tm_data n = x"
    using findNodeByName_data [OF h(2), of x] assms(2,4) h(1) by (auto simp: tree_ok_def root_unique_def)
  with assms(3) show ?thesis by (simp add: zoomTo_def zoomIn_def tm_ready_def)
qed

lemma listen_active_at:
  assumes "hierarchy_of hier" and "tree_ok r" and "tm_ready hier r tm" and "x \<in> set (nodes r)" and "tm_at y tm"
  obtains tm' where "listen_active (Some x) tm = Inr tm'" and "tm_ready hier r tm'" and "tm_at x tm'"
    and "tm_activeResource tm' = Some x"
proof -
  let ?t = "tm\<lparr>tm_activeResource := Some x, tm_lastClicked := Some x\<rparr>"
  have "tm_ready hier r ?t" using assms(3) by (simp add: tm_ready_def)
  from zoomTo_at [OF assms(1,2) this assms(4)] show thesis
    using that assms(3,5) by (cases "tm_lastClicked tm = Some x") (auto simp: listen_active_def tm_ready_def tm_at_def Let_def)
qed

text \<open>The breadcrumbs after a move to an element of the path or to a child of its end.\<close>

lemma next_path:
  assumes "tree_ok r" and "store_at r bs st" and "x \<in> set bs \<union> set (mr_children (last bs))"
  obtains cs where "nextBreadcrumbs st x = Inr (map Some cs)" and "mpath r cs" and "last cs = x"
proof -
  have bs: "mpath r bs" "me_breadcrumbs st = map Some bs" "me_resource st = Some r" "bs \<noteq> []"
    using assms(2) by (auto simp: store_at_def mpath_def)
  have sub: "set bs \<subseteq> set (nodes r)" using mpath_nodes [OF bs(1)] .
  have x: "x \<in> set (nodes r)" using assms(3) sub nodes_children [of "last bs" r x] last_in_set [OF bs(4)] by auto
  have inj: "inj_on mr_id (set (nodes r))" using assms(1) by (simp add: tree_ok_def root_unique_def)
  have name: "rn_executableName (mr_name x) = ''root'' \<longleftrightarrow> x = r" using assms(1) x by (simp add: tree_ok_def root_unique_def)
  consider "x = r" | i where "x \<noteq> r" "find_index (\<lambda>b. mr_id b = mr_id x) bs = Some i"
    | "x \<noteq> r" "find_index (\<lambda>b. mr_id b = mr_id x) bs = None" by blast
  then show thesis
  proof cases
    case 1
    with name bs(3) have "nextBreadcrumbs st x = Inr (map Some [r])" by (simp add: nextBreadcrumbs_def)
    from that [OF this] 1 show thesis by simp
  next
    case 2
    note D = find_index_SomeD [OF 2(2)]
    have "bs ! i = x" using D sub x inj by (auto dest!: inj_onD)
    moreover have "nextBreadcrumbs st x = Inr (map Some (take (Suc i) bs))"
      using name 2 by (simp add: nextBreadcrumbs_def bs(2) crumb_index_Some take_map)
    ultimately show thesis using that mpath_take [OF bs(1) D(1)] by blast
  next
    case 3
    then have "x \<notin> set bs" by auto
    with assms(3) have "mpath r (bs @ [x])" using mpath_snoc [OF bs(1)] by blast
    moreover have "nextBreadcrumbs st x = Inr (map Some (bs @ [x]))"
      using name 3(1) 3(2) by (simp only: nextBreadcrumbs_def bs(2) crumb_index_Some if_False sum.case option.case map_append list.map)
    ultimately show thesis using that [of "bs @ [x]"] by simp
  qed
qed

text \<open>Every move goes through this dispatch; the treemap may have zoomed to the resource before.\<close>

lemma dispatch_at:
  assumes "hierarchy_of hier" and "tree_ok r" and "store_at r bs (mp_store p)" and "mp_seen p = Some (mp_store p)"
    and "tm_ready hier r (mp_treemap p)" and "tm_at y (mp_treemap p)" and "y \<in> {last bs, x}"
    and "tm_activeResource (mp_treemap p) = Some (last bs)" and "tm_breadcrumbs (mp_treemap p) = map Some bs"
    and "x \<in> set bs \<union> set (mr_children (last bs))" and "mr_children x \<noteq> []"
  obtains q cs where "mem_dispatch hier loaded (MEMORY_RESOURCES_SET_ACTIVE_RESOURCE x) p = Inr q"
    and "page_at hier r cs q" and "last cs = x"
proof (cases "x = last bs")
  case True
  have "mem_dispatch hier loaded (MEMORY_RESOURCES_SET_ACTIVE_RESOURCE x) p = Inr p"
    using assms(3,4,9) True by (cases p) (simp add: mem_dispatch_def store_at_def tm_notify_def)
  moreover have "page_at hier r bs p" using assms True by (auto simp: page_at_def)
  ultimately show thesis using that True by blast
next
  case False
  obtain cs where cs: "nextBreadcrumbs (mp_store p) x = Inr (map Some cs)" "mpath r cs" "last cs = x"
    using next_path [OF assms(2,3,10)] .
  have "last cs \<in> set cs" using cs(2) by (simp add: mpath_def)
  then have "x \<in> set (nodes r)" using mpath_nodes [OF cs(2)] cs(3) by auto
  then obtain tm' where tm': "listen_active (Some x) (mp_treemap p) = Inr tm'" "tm_ready hier r tm'" "tm_at x tm'"
    "tm_activeResource tm' = Some x" using listen_active_at [OF assms(1,2,5) _ assms(6)] by blast
  let ?st = "(mp_store p)\<lparr>me_activeResource := Some x, me_breadcrumbs := map Some cs\<rparr>"
  let ?q = "\<lparr>mp_store = ?st, mp_storage = mp_storage p, mp_treemap = tm'\<lparr>tm_breadcrumbs := map Some cs\<rparr>, mp_seen = Some ?st\<rparr>"
  have "mem_dispatch hier loaded (MEMORY_RESOURCES_SET_ACTIVE_RESOURCE x) p = Inr ?q"
    using assms(3) False cs(1) tm'(1) by (simp add: mem_dispatch_def store_at_def tm_notify_def)
  moreover have "page_at hier r cs ?q"
    using assms(3,11) cs tm' by (auto simp: page_at_def store_at_def tm_ready_def tm_at_def)
  ultimately show thesis using that cs(3) by blast
qed

lemma path_children: "mpath r bs \<Longrightarrow> Suc i < length bs \<Longrightarrow> mr_children (bs ! i) \<noteq> []"
  by (auto simp: mpath_def successively_conv_nth dest: spec [of _ i])

lemma store_children: "store_at r bs st \<Longrightarrow> x \<in> set bs \<Longrightarrow> mr_children x \<noteq> []"
proof -
  assume a: "store_at r bs st" "x \<in> set bs"
  then obtain i where i: "i < length bs" "bs ! i = x" by (auto simp: in_set_conv_nth)
  show ?thesis
  proof (cases "Suc i < length bs")
    case True
    with path_children [of r bs i] a(1) i(2) show ?thesis by (simp add: store_at_def)
  next
    case False
    with i have "i = length bs - 1" "bs \<noteq> []" by auto
    with i(2) have "x = last bs" by (simp add: last_conv_nth)
    with a(1) show ?thesis by (simp add: store_at_def)
  qed
qed

text \<open>A move of the page, with the treemap where it is or zoomed to the resource already.\<close>

lemma move_at:
  assumes "hierarchy_of hier" and "tree_ok r" and "page_at hier r bs p"
    and "x \<in> set bs \<or> x \<in> set (mr_children (last bs)) \<and> mr_children x \<noteq> []"
  shows "\<exists>q cs. mem_dispatch hier loaded (MEMORY_RESOURCES_SET_ACTIVE_RESOURCE x) p = Inr q \<and> page_at hier r cs q \<and> last cs = x"
    and "tm_data n = x \<Longrightarrow> \<exists>q cs. mem_dispatch hier loaded (MEMORY_RESOURCES_SET_ACTIVE_RESOURCE x) (p\<lparr>mp_treemap := zoomIn n (mp_treemap p)\<rparr>)
      = Inr q \<and> page_at hier r cs q \<and> last cs = x"
proof -
  have st: "store_at r bs (mp_store p)" using assms(3) by (simp add: page_at_def)
  have ch: "mr_children x \<noteq> []" and x: "x \<in> set bs \<union> set (mr_children (last bs))"
    using assms(4) store_children [OF st] by auto
  show "\<exists>q cs. mem_dispatch hier loaded (MEMORY_RESOURCES_SET_ACTIVE_RESOURCE x) p = Inr q \<and> page_at hier r cs q \<and> last cs = x"
    by (rule dispatch_at [OF assms(1,2) st _ _ _ _ _ _ x ch, where loaded = loaded and y = "last bs"])
      (use assms(3) in \<open>auto simp: page_at_def\<close>)
  let ?p = "p\<lparr>mp_treemap := zoomIn n (mp_treemap p)\<rparr>"
  assume n: "tm_data n = x"
  have st': "store_at r bs (mp_store ?p)" using st by simp
  show "\<exists>q cs. mem_dispatch hier loaded (MEMORY_RESOURCES_SET_ACTIVE_RESOURCE x) ?p = Inr q \<and> page_at hier r cs q \<and> last cs = x"
    by (rule dispatch_at [OF assms(1,2) st' _ _ _ _ _ _ x ch, where loaded = loaded and y = x])
      (use assms(3) n in \<open>auto simp: page_at_def zoomIn_def tm_ready_def tm_at_def\<close>)
qed

text \<open>The node that is shown, and the node above it.\<close>

lemma page_last: "page_at hier r bs p \<Longrightarrow> last bs \<in> set (nodes r)"
  using mpath_nodes [of r bs] last_in_set [of bs] by (auto simp: page_at_def store_at_def mpath_def)

lemma shown_node:
  assumes "hierarchy_of hier" and "tree_ok r" and "page_at hier r bs p"
  obtains n where "findNodeByName (mr_id (last bs)) (hier r) = Some n" and "tm_data n = last bs" and "n \<in> set (tm_all (hier r))"
    and "drawn p = tm_children n" and "mset (map tm_data (tm_children n)) = mset (mr_children (last bs))"
proof -
  have h: "tm_data (hier r) = r" "hier_ok (hier r)" using assms(1) by (auto simp: hierarchy_of_def)
  have "last bs \<in> set (nodes r)" using page_last [OF assms(3)] .
  then obtain n where n: "findNodeByName (mr_id (last bs)) (hier r) = Some n" "tm_data n = last bs" "n \<in> set (tm_all (hier r))"
    using findNodeByName_data [OF h(2), of "last bs"] assms(2) h(1) by (auto simp: tree_ok_def root_unique_def)
  moreover have "drawn p = tm_children n" using assms(3) n(1) by (simp add: drawn_def page_at_def tm_at_def tm_ready_def)
  ultimately show thesis using that hier_ok_children [OF tm_all_ok [OF n(3) h(2)]] by simp
qed

lemma parent_node:
  assumes "hierarchy_of hier" and "tree_ok r" and "mpath r bs" and "length bs > 1"
    and "n \<in> set (tm_all (hier r))" and "tm_data n = last bs"
  obtains q where "tm_parent (hier r) n = Some q" and "tm_data q = bs ! (length bs - 2)"
proof -
  have h: "tm_data (hier r) = r" "hier_ok (hier r)" using assms(1) by (auto simp: hierarchy_of_def)
  have d: "distinct (map mr_id (nodes r))" using assms(2) by (simp add: tree_ok_def)
  have "last bs \<noteq> r"
  proof
    assume "last bs = r"
    then have "bs = [r]" using mpath_unique [OF d assms(3) mpath_single] by simp
    with assms(4) show False by simp
  qed
  then have "n \<noteq> hier r" using assms(6) h(1) by auto
  then have "tm_parent (hier r) n \<noteq> None"
    using tm_all_parent [OF assms(5)] by (auto simp: tm_parent_def find_None_iff)
  then obtain q where q: "tm_parent (hier r) n = Some q" by blast
  then have m: "q \<in> set (tm_all (hier r))" "n \<in> set (tm_children q)" by (auto simp: tm_parent_def find_Some_iff)
  have child: "last bs \<in> set (mr_children (tm_data q))"
    using hier_ok_children_set [OF tm_all_ok [OF m(1) h(2)]] m(2) assms(6) by force
  have "tm_data q \<in> set (nodes r)" using tm_all_data [OF h(2)] m(1) h(1) by auto
  from nodes_mpath [OF this] obtain cs where cs: "mpath r cs" "last cs = tm_data q" by blast
  have "bs = cs @ [last bs]"
    using mpath_unique [OF d assms(3) mpath_snoc [OF cs(1)], of "last bs"] child cs(2) by simp
  then have "bs ! (length bs - 2) = last cs" using cs(1) assms(4)
    by (metis (no_types, lifting) One_nat_def add_diff_cancel_right' diff_Suc_less diff_diff_left last_conv_nth length_append
        length_greater_0_conv list.size(3) list.size(4) mpath_def nth_append one_add_one add_0)
  with cs(2) q that show thesis by simp
qed

lemma escape_at:
  assumes "hierarchy_of hier" and "tree_ok r" and "page_at hier r bs p" and "length bs > 1"
  obtains n where "tm_data n = bs ! (length bs - 2)"
    and "onKeydownHandler hier loaded p
      = mem_dispatch hier loaded (MEMORY_RESOURCES_SET_ACTIVE_RESOURCE (tm_data n)) (p\<lparr>mp_treemap := zoomIn n (mp_treemap p)\<rparr>)"
proof -
  obtain d where d: "findNodeByName (mr_id (last bs)) (hier r) = Some d" "tm_data d = last bs" "d \<in> set (tm_all (hier r))"
    using shown_node [OF assms(1-3)] by metis
  have "mpath r bs" using assms(3) by (simp add: page_at_def store_at_def)
  from parent_node [OF assms(1,2) this assms(4) d(3,2)] obtain n where
    n: "tm_parent (hier r) d = Some n" "tm_data n = bs ! (length bs - 2)" .
  have "last (map Some bs) = Some (last bs)" using assms(4) by (intro last_map) auto
  then have "onKeydownHandler hier loaded p
      = mem_dispatch hier loaded (MEMORY_RESOURCES_SET_ACTIVE_RESOURCE (tm_data n)) (p\<lparr>mp_treemap := zoomIn n (mp_treemap p)\<rparr>)"
    using assms(3,4) d(1) n(1) by (simp add: onKeydownHandler_def zoomOut_def page_at_def tm_ready_def)
  with n(2) that show thesis by blast
qed

lemma answer_at:
  assumes "hierarchy_of hier" and "tree_ok r"
    and "page_at hier r' bs p \<or> (\<exists>loaded storage. p = memory_open loaded storage)"
  shows "\<exists>q. mem_dispatch hier loaded (MEMORY_RESOURCES_GET_SUCCESS (Some r)) p = Inr q \<and> page_at hier r [r] q"
  using assms(3)
proof
  assume "\<exists>loaded storage. p = memory_open loaded storage"
  then show ?thesis
    using assms(2) by (auto simp: memory_open_def mem_dispatch_def memoryInitialState_def tm_notify_def listen_resource_def
      listen_active_def treemap_initial_def page_at_def store_at_def tm_ready_def tm_at_def tree_ok_def Let_def)
next
  assume a: "page_at hier r' bs p"
  let ?st = "(mp_store p)\<lparr>me_resource := Some r, me_breadcrumbs := [Some r], me_activeResource := Some r\<rparr>"
  define tm where "tm = (if me_resource ?st \<noteq> me_resource (mp_store p) then listen_resource hier (Some r) (mp_treemap p) else mp_treemap p)"
  have ready: "tm_ready hier r tm" and act: "tm_activeResource tm = Some (last bs)"
    and clicked: "tm_lastClicked tm = tm_lastClicked (mp_treemap p)" "tm_shown tm \<noteq> None" "r \<noteq> r' \<Longrightarrow> tm_shown tm = Some r"
    "r = r' \<Longrightarrow> tm = mp_treemap p"
    using a by (auto simp: tm_def page_at_def store_at_def tm_ready_def tm_at_def listen_resource_def)
  have unfold: "mem_dispatch hier loaded (MEMORY_RESOURCES_GET_SUCCESS (Some r)) p
    = (case (if last bs \<noteq> r then listen_active (Some r) tm else Inr tm) of Inl e \<Rightarrow> Inl e
        | Inr tm3 \<Rightarrow> Inr \<lparr>mp_store = ?st, mp_storage = mp_storage p, mp_treemap = tm3\<lparr>tm_breadcrumbs := [Some r]\<rparr>, mp_seen = Some ?st\<rparr>)"
    using a by (auto simp: mem_dispatch_def tm_notify_def page_at_def store_at_def tm_def Let_def split: sum.splits)
  have st: "store_at r [r] ?st" using assms(2) by (simp add: store_at_def tree_ok_def)
  show ?thesis
  proof (cases "last bs = r")
    case True
    then have "tm_at r tm" using a clicked by (cases "r = r'") (auto simp: page_at_def tm_at_def)
    with True st ready act show ?thesis by (simp add: unfold page_at_def tm_at_def tm_ready_def)
  next
    case False
    have "zoomTo (Some r) (tm\<lparr>tm_activeResource := Some r, tm_lastClicked := Some r\<rparr>)
        = Inr (tm\<lparr>tm_activeResource := Some r, tm_lastClicked := Some r, tm_shown := Some r\<rparr>)"
      using zoomTo_at [OF assms(1,2), of "tm\<lparr>tm_activeResource := Some r, tm_lastClicked := Some r\<rparr>" r] ready
      by (simp add: tm_ready_def)
    moreover have "tm_lastClicked tm \<noteq> Some r" using a clicked(1) False by (auto simp: page_at_def tm_at_def)
    ultimately show ?thesis using False st ready
      by (simp add: unfold listen_active_def Let_def page_at_def tm_at_def tm_ready_def)
  qed
qed

lemma view_at:
  assumes "hierarchy_of hier" and "tree_ok r" and "page_at hier r bs p"
  shows "\<exists>q. setTreemapView hier loaded v p = Inr q \<and> page_at hier r bs q"
proof (cases "me_treemapView (mp_store p) = v")
  case True
  with assms(3) show ?thesis by (auto simp: setTreemapView_def page_at_def)
next
  case False
  let ?tm = "(mp_treemap p)\<lparr>tm_treemapView := Some v, tm_treemap := Some (hier r)\<rparr>"
  have "last bs \<in> set (nodes r)" using page_last [OF assms(3)] .
  moreover have "tm_ready hier r ?tm" using assms(3) by (simp add: page_at_def tm_ready_def)
  ultimately have "zoomTo (Some (last bs)) ?tm = Inr (?tm\<lparr>tm_lastClicked := Some (last bs), tm_shown := Some (last bs)\<rparr>)"
    using zoomTo_at [OF assms(1,2)] by blast
  with False assms(3) show ?thesis
    by (auto simp: setTreemapView_def mem_dispatch_def tm_notify_def listen_view_def page_at_def store_at_def tm_ready_def tm_at_def Let_def)
qed

lemma resize_at:
  assumes "hierarchy_of hier" and "tree_ok r" and "page_at hier r bs p"
  shows "\<exists>q. redrawChart hier loaded p = Inr q \<and> page_at hier r bs q"
proof -
  let ?tm = "(mp_treemap p)\<lparr>tm_treemap := Some (hier r)\<rparr>"
  have "last bs \<in> set (nodes r)" using page_last [OF assms(3)] .
  moreover have "tm_ready hier r ?tm" using assms(3) by (simp add: page_at_def tm_ready_def)
  ultimately have "zoomTo (Some (last bs)) ?tm = Inr (?tm\<lparr>tm_lastClicked := Some (last bs), tm_shown := Some (last bs)\<rparr>)"
    using zoomTo_at [OF assms(1,2)] by blast
  with assms(3) show ?thesis
    by (auto simp: redrawChart_def mem_dispatch_def tm_notify_def page_at_def store_at_def tm_ready_def tm_at_def Let_def)
qed

text \<open>Escape and the arrow: both dispatch the parent, one of them after zooming.\<close>

lemma dispatch_store:
  "mem_dispatch hier loaded a p = Inr q \<Longrightarrow> mem_dispatch hier loaded a (p\<lparr>mp_treemap := tm\<rparr>) = Inr q' \<Longrightarrow> mp_store q = mp_store q'"
  by (auto simp: mem_dispatch_def split: sum.splits prod.splits)

lemma path_to_parent:
  assumes "tree_ok r" and "mpath r bs" and "mpath r cs" and "last cs = bs ! (length bs - 2)" and "length bs > 1"
  shows "cs = butlast bs"
proof -
  let ?i = "length bs - 2"
  have "mpath r (take (Suc ?i) bs) \<and> last (take (Suc ?i) bs) = bs ! ?i" using mpath_take [OF assms(2)] assms(5) by simp
  moreover have "take (Suc ?i) bs = butlast bs" using assms(5) by (simp add: butlast_conv_take Suc_diff_Suc numeral_2_eq_2)
  ultimately show ?thesis using mpath_unique [of r cs "butlast bs"] assms(1,3,4) by (simp add: tree_ok_def)
qed

lemma up_agree:
  assumes "hierarchy_of hier" and "tree_ok r" and "page_at hier r bs p" and "length bs > 1"
  shows "\<exists>q q'. onKeydownHandler hier loaded p = Inr q \<and> toolbar_back hier loaded p = Inr q'
         \<and> mp_store q = mp_store q' \<and> tm_shown (mp_treemap q) = tm_shown (mp_treemap q')
         \<and> me_breadcrumbs (mp_store q) = map Some (butlast bs)"
proof -
  let ?x = "bs ! (length bs - 2)"
  have mem: "?x \<in> set bs" using assms(4) by simp
  obtain d where d: "tm_data d = ?x" "onKeydownHandler hier loaded p
    = mem_dispatch hier loaded (MEMORY_RESOURCES_SET_ACTIVE_RESOURCE (tm_data d)) (p\<lparr>mp_treemap := zoomIn d (mp_treemap p)\<rparr>)"
    using escape_at [OF assms] .
  obtain q cs where q: "onKeydownHandler hier loaded p = Inr q" "page_at hier r cs q" "last cs = ?x"
    using move_at(2) [OF assms(1-3) disjI1 [OF mem] d(1), of loaded] by (auto simp: d)
  have up: "toolbar_back hier loaded p = mem_dispatch hier loaded (MEMORY_RESOURCES_SET_ACTIVE_RESOURCE ?x) p"
    using assms(3,4) by (auto simp: toolbar_back_def setActiveResource_def seen_breadcrumbs_def page_at_def store_at_def)
  obtain q' cs' where q': "toolbar_back hier loaded p = Inr q'" "page_at hier r cs' q'" "last cs' = ?x"
    using move_at(1) [OF assms(1-3) disjI1 [OF mem], of loaded] by (auto simp: up)
  have "mp_store q' = mp_store q"
    using dispatch_store [OF q'(1) [unfolded up]] q(1) [unfolded d(2) d(1)] by blast
  moreover have "cs = butlast bs"
    using path_to_parent [OF assms(2) _ _ q(3) assms(4)] assms(3) q(2) by (simp add: page_at_def store_at_def)
  ultimately show ?thesis using q q' by (auto simp: page_at_def store_at_def tm_at_def)
qed

text \<open>The tree on the page after an event, and what is asked of the answers.\<close>

definition next_tree :: "(rat \<Rightarrow> string) \<Rightarrow> MemoryResource \<Rightarrow> memory_event \<Rightarrow> MemoryResource" where
  "next_tree shw r ev = (case ev of Answer response threshold \<Rightarrow> mapMemoryResponse shw response threshold | _ \<Rightarrow> r)"

definition answer_ok :: "(rat \<Rightarrow> string) \<Rightarrow> memory_event \<Rightarrow> bool" where
  "answer_ok shw ev \<longleftrightarrow> (case ev of
      Answer response threshold \<Rightarrow> ft_frames response \<noteq> [] \<and>
        (\<forall>x \<in> set (nodes (mapMemoryResponse shw response threshold)). rn_executableName (mr_name x) = ''root'' \<longrightarrow>
           x = mapMemoryResponse shw response threshold)
    | _ \<Rightarrow> True)"

lemma build_loop_empty: "fst (build_loop shw t fs k) = [] \<longleftrightarrow> fs = []"
  by (cases "(shw, t, fs, k)" rule: build_loop.cases) (auto split: prod.splits)

lemma answer_tree: "answer_ok shw (Answer response threshold) \<Longrightarrow> tree_ok (mapMemoryResponse shw response threshold)"
proof -
  let ?r = "mapMemoryResponse shw response threshold"
  assume a: "answer_ok shw (Answer response threshold)"
  have "mset (map mr_id (nodes ?r)) = mset [0..<frame_count response]" using mapMemoryResponse_tree [OF refl] by blast
  then have d: "distinct (map mr_id (nodes ?r))" by (metis distinct_upt mset_eq_imp_distinct_iff)
  have "rn_executableName (mr_name ?r) = ''root''" by (simp add: mapMemoryResponse_def split: prod.splits)
  with a d have "root_unique ?r" by (auto simp: root_unique_def answer_ok_def distinct_map)
  moreover have "sortChildren cs = [] \<longleftrightarrow> cs = []" for cs by (metis set_empty set_sortChildren)
  then have "mr_children ?r \<noteq> []"
    using a build_loop_empty [of shw threshold "ft_frames response" 0]
    by (auto simp: answer_ok_def mapMemoryResponse_def build_children_def split: prod.splits)
  ultimately show ?thesis using d by (simp add: tree_ok_def)
qed

lemma step_at:
  assumes "hierarchy_of hier" and "tree_ok r" and "page_at hier r bs p" and "answer_ok shw ev"
  shows "\<exists>q cs. memory_step shw hier loaded p ev = Inr q \<and> page_at hier (next_tree shw r ev) cs q \<and> tree_ok (next_tree shw r ev)"
proof -
  have st: "store_at r bs (mp_store p)" "mp_seen p = Some (mp_store p)" "seen_breadcrumbs p = map Some bs"
    using assms(3) by (auto simp: page_at_def seen_breadcrumbs_def store_at_def)
  have stay: "\<exists>q cs. Inr p = Inr q \<and> page_at hier r cs q \<and> tree_ok r" using assms(2,3) by auto
  have crumb: "\<exists>q cs. setActiveResource hier loaded i p = Inr q \<and> page_at hier r cs q \<and> tree_ok r" for i
    using move_at(1) [OF assms(1-3), of "bs ! i" loaded] stay assms(2)
    by (cases "i < length bs") (auto simp: setActiveResource_def st(3))
  obtain n where n: "drawn p = tm_children n" "mset (map tm_data (tm_children n)) = mset (mr_children (last bs))"
    "n \<in> set (tm_all (hier r))" using shown_node [OF assms(1-3)] by metis
  show ?thesis
  proof (cases ev)
    case (Answer response threshold)
    with answer_tree [of shw response threshold] answer_at [OF assms(1), of "mapMemoryResponse shw response threshold"] assms(3,4)
    show ?thesis by (fastforce simp: memory_step_def next_tree_def)
  next
    case (RowClick i)
    have "\<exists>q cs. memory_onRowClick hier loaded x p = Inr q \<and> page_at hier r cs q \<and> tree_ok r" if "x \<in> set (table_rows p)" for x
      using move_at(1) [OF assms(1-3), of x loaded] that stay assms(2) st(1)
      by (cases "mr_children x = []") (auto simp: memory_onRowClick_def table_rows_def store_at_def)
    with RowClick stay show ?thesis by (auto simp: memory_step_def next_tree_def)
  next
    case (RectClick i)
    have "\<exists>q cs. tree_click hier loaded d p = Inr q \<and> page_at hier r cs q \<and> tree_ok r" if d: "d \<in> set (tm_children n)" for d
    proof (cases "tm_children d = []")
      case False
      have "hier_ok n" using tm_all_ok [OF n(3)] assms(1) by (simp add: hierarchy_of_def)
      then have "hier_ok d" using d by (cases n) auto
      then have "mr_children (tm_data d) \<noteq> []" using hier_ok_children [of d] False by auto
      moreover have "tm_data d \<in> set (mr_children (last bs))" using mset_eq_setD [OF n(2)] d by auto
      ultimately show ?thesis using move_at(2) [OF assms(1-3), of "tm_data d" d loaded] False assms(2)
        by (auto simp: tree_click_def)
    qed (use stay in \<open>simp add: tree_click_def\<close>)
    with RectClick stay show ?thesis by (auto simp: memory_step_def next_tree_def n(1))
  next
    case EscapeKey
    show ?thesis
    proof (cases "length bs > 1")
      case True
      then have mem: "bs ! (length bs - 2) \<in> set bs" by simp
      obtain d where d: "tm_data d = bs ! (length bs - 2)" "onKeydownHandler hier loaded p
        = mem_dispatch hier loaded (MEMORY_RESOURCES_SET_ACTIVE_RESOURCE (tm_data d)) (p\<lparr>mp_treemap := zoomIn d (mp_treemap p)\<rparr>)"
        using escape_at [OF assms(1-3) True] .
      from move_at(2) [OF assms(1-3) disjI1 [OF mem] d(1), of loaded] EscapeKey assms(2)
      show ?thesis by (auto simp: memory_step_def next_tree_def d)
    next
      case False
      with EscapeKey stay assms(3) show ?thesis by (simp add: memory_step_def next_tree_def onKeydownHandler_def page_at_def)
    qed
  next
    case (CrumbClick i)
    with crumb show ?thesis by (simp add: memory_step_def next_tree_def)
  next
    case BackClick
    with crumb stay show ?thesis by (simp add: memory_step_def next_tree_def toolbar_back_def Let_def)
  next
    case (ChooseView v)
    with view_at [OF assms(1-3), of loaded v] assms(2) show ?thesis by (auto simp: memory_step_def next_tree_def)
  next
    case Resize
    with resize_at [OF assms(1-3), of loaded] assms(2) show ?thesis by (auto simp: memory_step_def next_tree_def)
  qed
qed

lemma steps_at:
  assumes "hierarchy_of hier" and "tree_ok r" and "page_at hier r bs p" and "list_all (answer_ok shw) evs"
  shows "\<exists>q cs. reduce_all (memory_step shw hier loaded) p evs = Inr q \<and> page_at hier (foldl (next_tree shw) r evs) cs q
    \<and> tree_ok (foldl (next_tree shw) r evs)"
  using assms(2-4)
proof (induction evs arbitrary: p r bs)
  case (Cons ev evs)
  from step_at [OF assms(1) Cons.prems(1,2), of shw ev loaded] Cons.prems(3) obtain q cs where
    "memory_step shw hier loaded p ev = Inr q" "page_at hier (next_tree shw r ev) cs q" "tree_ok (next_tree shw r ev)" by auto
  with Cons.IH [of "next_tree shw r ev" cs q] Cons.prems(3) show ?case by simp
qed auto

text \<open>C4. The memory page after any number of answers, clicks, keys, choices of a view and resizings, from the first answer on, when
  every answer has frames and names no resource but the root of its tree \<open>root\<close> (failed answers and choices of a granularity, which
  leave the page without a tree, are not among these events): nothing throws; the breadcrumbs are the path from the root of the tree answered last to the active resource; the
  treemap shows that resource, and both the treemap and the table have its children, of which there is at least one;
  and with more than one breadcrumb the key Escape and the arrow of the toolbar lead to the same state, one step up.\<close>

theorem memory_navigation:
  assumes "hierarchy_of hier" and "list_all (answer_ok shw) (Answer response threshold # evs)"
  shows "\<exists>p bs. reduce_all (memory_step shw hier loaded) (memory_open loaded storage) (Answer response threshold # evs) = Inr p
    \<and> mpath (foldl (next_tree shw) (mapMemoryResponse shw response threshold) evs) bs
    \<and> me_breadcrumbs (mp_store p) = map Some bs \<and> me_activeResource (mp_store p) = Some (last bs)
    \<and> tm_shown (mp_treemap p) = Some (last bs) \<and> table_rows p = mr_children (last bs) \<and> table_rows p \<noteq> []
    \<and> mset (map tm_data (drawn p)) = mset (table_rows p)
    \<and> (length bs > 1 \<longrightarrow> (\<exists>q q'. memory_step shw hier loaded p EscapeKey = Inr q \<and> memory_step shw hier loaded p BackClick = Inr q'
         \<and> mp_store q = mp_store q' \<and> tm_shown (mp_treemap q) = tm_shown (mp_treemap q')
         \<and> me_breadcrumbs (mp_store q) = map Some (butlast bs)))"
proof -
  let ?first = "mapMemoryResponse shw response threshold" and ?r = "foldl (next_tree shw) (mapMemoryResponse shw response threshold) evs"
  have ok: "answer_ok shw (Answer response threshold)" "list_all (answer_ok shw) evs" using assms(2) by auto
  have t0: "tree_ok ?first" using answer_tree [OF ok(1)] .
  obtain p0 where p0: "memory_step shw hier loaded (memory_open loaded storage) (Answer response threshold) = Inr p0" "page_at hier ?first [?first] p0"
    using answer_at [OF assms(1) t0 disjI2, of "memory_open loaded storage" loaded] by (auto simp: memory_step_def)
  obtain p bs where p: "reduce_all (memory_step shw hier loaded) p0 evs = Inr p" "page_at hier ?r bs p" "tree_ok ?r"
    using steps_at [OF assms(1) t0 p0(2) ok(2)] by blast
  have st: "store_at ?r bs (mp_store p)" "tm_shown (mp_treemap p) = Some (last bs)" using p(2) by (auto simp: page_at_def tm_at_def)
  obtain n where "mset (map tm_data (drawn p)) = mset (mr_children (last bs))" using shown_node [OF assms(1) p(3,2)] by metis
  moreover have rows: "table_rows p = mr_children (last bs)" using st(1) by (simp add: table_rows_def store_at_def)
  moreover have "\<exists>q q'. memory_step shw hier loaded p EscapeKey = Inr q \<and> memory_step shw hier loaded p BackClick = Inr q'
         \<and> mp_store q = mp_store q' \<and> tm_shown (mp_treemap q) = tm_shown (mp_treemap q')
         \<and> me_breadcrumbs (mp_store q) = map Some (butlast bs)" if "length bs > 1"
    using up_agree [OF assms(1) p(3,2) that] by (simp add: memory_step_def)
  ultimately show ?thesis using p0(1) p(1) st by (intro exI [of _ p] exI [of _ bs]) (simp add: store_at_def)
qed

text \<open>A hierarchy in the order of the resources.\<close>

fun plain_hierarchy :: "MemoryResource \<Rightarrow> tm_node" where
  "plain_hierarchy (MemoryResource n cs v i) = TmNode (MemoryResource n cs v i) (map plain_hierarchy cs)"

lemma plain_hierarchy_ok: "hierarchy_of plain_hierarchy"
proof -
  have d: "tm_data (plain_hierarchy r) = r" for r by (cases r) simp
  have "hier_ok (plain_hierarchy r)" for r by (induction r rule: plain_hierarchy.induct) (simp add: d comp_def)
  with d show ?thesis by (simp add: hierarchy_of_def)
qed

definition nested_frames :: MemoryResourceTree where
  "nested_frames = MemoryResourceTree (PlainName ''x'') 10
     [MemoryResourceTree (PlainName ''a'') 3 [], MemoryResourceTree (PlainName ''b'') 7 [MemoryResourceTree (PlainName ''c'') 7 []]]"

lemma nested_frames_tree:
  "mapMemoryResponse (\<lambda>_. []) nested_frames 512 =
     MemoryResource \<lparr>rn_executableName = ''root'', rn_functionName = None\<rparr>
       [MemoryResource \<lparr>rn_executableName = ''b'', rn_functionName = None\<rparr>
          [MemoryResource \<lparr>rn_executableName = ''c'', rn_functionName = None\<rparr> [] 7 1] 7 2,
        MemoryResource \<lparr>rn_executableName = ''a'', rn_functionName = None\<rparr> [] 3 0] 10 3"
proof -
  have "round2 10 = 10" "round2 3 = 3" "round2 7 = 7" by (simp_all add: round2_def floor_eq_iff)
  then show ?thesis by (simp add: mapMemoryResponse_def nested_frames_def build_children_def getFrameName_def sortChildren_def)
qed

theorem memory_navigation_witness:
  "\<exists>p bs. reduce_all (memory_step (\<lambda>_. []) plain_hierarchy \<lparr>mst_granularity = None, mst_view = None\<rparr>)
      (memory_open \<lparr>mst_granularity = None, mst_view = None\<rparr> \<lparr>mst_granularity = None, mst_view = None\<rparr>)
      [Answer nested_frames 512, RowClick 0, ChooseView DICE, EscapeKey, RectClick 0] = Inr p
    \<and> mpath (mapMemoryResponse (\<lambda>_. []) nested_frames 512) bs
    \<and> me_breadcrumbs (mp_store p) = map Some bs \<and> tm_shown (mp_treemap p) = Some (last bs)"
proof -
  let ?s = "\<lparr>mst_granularity = None, mst_view = None\<rparr>"
  let ?evs = "[RowClick 0, ChooseView DICE, EscapeKey, RectClick 0]"
  have "list_all (answer_ok (\<lambda>_. [])) (Answer nested_frames 512 # ?evs)"
    by (simp add: answer_ok_def nested_frames_tree) (simp add: nested_frames_def)
  from memory_navigation [OF plain_hierarchy_ok this, of ?s ?s] show ?thesis
    by (elim exE conjE) (rule exI, rule exI, intro conjI, assumption, simp_all add: next_tree_def)
qed

section \<open>While the tree is loading\<close>

text \<open>A new granularity empties the store and the chart at once; the toolbar still has the state before it. A choice of another
  view then makes a hierarchy of no resource, which throws; and the same granularity can be chosen again.\<close>

lemma granularity_empties:
  assumes "page_at hier r bs p" and "g \<noteq> me_granularity (mp_store p)"
  obtains q where "setGranularity hier loaded g p = Inr q" and "me_breadcrumbs (mp_store q) = []" and "tm_shown (mp_treemap q) = None"
    and "tm_baseResource (mp_treemap q) = None" and "mp_seen q = Some (mp_store p)" and "me_granularity (mp_store q) = g"
    and "tm_treemapView (mp_treemap q) \<noteq> None" and "me_treemapView (mp_store q) = me_treemapView (mp_store p)"
  using assms by (auto simp: setGranularity_def page_at_def store_at_def mem_dispatch_def tm_notify_def listen_resource_def
    listen_active_def tm_ready_def Let_def intro: that)

lemma view_while_loading:
  assumes "page_at hier r bs p" and "g \<noteq> me_granularity (mp_store p)" and "v \<noteq> me_treemapView (mp_store p)"
  obtains q where "setGranularity hier loaded g p = Inr q" and "setTreemapView hier loaded v q = Inl TypeError"
proof -
  obtain q where q: "setGranularity hier loaded g p = Inr q" "tm_baseResource (mp_treemap q) = None" "mp_seen q = Some (mp_store p)"
    "tm_treemapView (mp_treemap q) \<noteq> None" "me_treemapView (mp_store q) = me_treemapView (mp_store p)"
    using granularity_empties [OF assms(1,2)] by metis
  then have "setTreemapView hier loaded v q = Inl TypeError"
    using assms(3) by (auto simp: setTreemapView_def mem_dispatch_def tm_notify_def listen_view_def)
  with q(1) that show thesis by blast
qed

text \<open>The tiles stay inside the rectangle of their node, and the tooltip ends before the right edge of the window.\<close>

lemma tile_inside: "0 < whole \<Longrightarrow> 0 \<le> c \<Longrightarrow> c \<le> whole \<Longrightarrow> lo \<le> hi \<Longrightarrow> lo \<le> tile_coord whole lo hi c \<and> tile_coord whole lo hi c \<le> hi"
proof -
  assume a: "0 < whole" "0 \<le> c" "c \<le> whole" "lo \<le> hi"
  then have "0 \<le> c / whole" "c / whole \<le> 1" by (simp_all add: field_simps)
  then have "0 \<le> (c / whole) * (hi - lo)" and "(c / whole) * (hi - lo) \<le> 1 * (hi - lo)"
    using mult_nonneg_nonneg [of "c / whole" "hi - lo"] mult_right_mono [of "c / whole" 1 "hi - lo"] a(4) by (simp only: diff_ge_0_iff_ge)+
  then show ?thesis by (simp add: tile_coord_def)
qed

lemma tooltip_inside: "tooltip_x clientX tooltipWidth innerWidth + tooltipWidth \<le> innerWidth - 14"
  by (simp add: tooltip_x_def Let_def)

lemma resSize_below: "kilobytes < 1048576 * 1024 \<Longrightarrow> fst (resSize kilobytes) < 1024"
  by (simp add: resSize_def)

end
