(* ===== verification/Routed_Tables.thy ===== *)
theory Routed_Tables
  imports Mempool Work_Pool Won_Slots Nodes_Pages Network_Pages Node_Dht Network_Filters
begin

text \<open>
  The tables of the pages (\<open>shared/components/mina-table\<close> and the table component of each feature). A table takes the
  identifier of a row from the address when it is opened, waits for its rows, scrolls to that row and selects it; a
  click on a row dispatches it and changes the address.

  A component is a record with the rows, the active row and the identifier that waits; a listener or a click gives the new
  record and what the component does: scrolling, dispatching, navigating. The locale \<open>routed_table\<close> is the contract of a
  table with such links; the five pages whose listener of the active row only stores that row interpret it. The listeners of
  the mempool and of the won slots change the identifier that waits, and have lemmas of their own.
\<close>

section \<open>The table\<close>

record ('r, 'k) table_comp =
  rt_rows :: "'r list"
  rt_activeRow :: "'r option"
  rt_fromRoute :: "'k option"

datatype ('p, 'n) table_out = Scrolled int | Selected 'p | Navigated 'n

type_synonym ('r, 'k, 'p, 'n) table_result = "js_error + ('r, 'k) table_comp \<times> ('p, 'n) table_out list"

definition table_opened :: "('r, 'k) table_comp" where
  "table_opened = \<lparr>rt_rows = [], rt_activeRow = None, rt_fromRoute = None\<rparr>"

definition sortTable :: "string \<Rightarrow> tableSort \<Rightarrow> tableSort" where
  "sortTable col currentSort =
     \<lparr>sortBy = col, sortDirection =
        (if col \<noteq> sortBy currentSort then sortDirection currentSort
         else if sortDirection currentSort = ASC then DSC else ASC)\<rparr>"

text \<open>\<open>Math.round\<close> of a half goes up. The index is \<open>-1\<close> when no row is found.\<close>

definition topElements :: "rat \<Rightarrow> int" where
  "topElements offsetHeight = \<lfloor>offsetHeight / 2 / 36 + 1 / 2\<rfloor> - 3"

definition scrollToElement :: "int \<Rightarrow> ('r \<Rightarrow> bool) \<Rightarrow> 'r list \<Rightarrow> int" where
  "scrollToElement off rowFinder rows = (case find_index rowFinder rows of None \<Rightarrow> - 1 | Some i \<Rightarrow> int i) - off"

text \<open>A click in the table: the elements from the target upwards, with their attribute \<open>idx\<close> and whether they are the viewport.\<close>

fun click_index :: "(string option \<times> bool) list \<Rightarrow> js_number option" where
  "click_index [] = None"
| "click_index ((attr, viewport) # rest) =
     (let idx = (case attr of None \<Rightarrow> None | Some s \<Rightarrow> if s = [] then None else Some (js_Number s))
      in if idx \<noteq> None \<or> viewport then idx else click_index rest)"

definition onVsClick :: "'r list \<Rightarrow> (string option \<times> bool) list \<Rightarrow> 'r option option" where
  "onVsClick rows elements = (case click_index elements of
      None \<Rightarrow> None
    | Some (Finite q) \<Rightarrow> Some (if 0 \<le> q \<and> q = of_int \<lfloor>q\<rfloor> \<and> nat \<lfloor>q\<rfloor> < length rows then Some (rows ! nat \<lfloor>q\<rfloor>) else None)
    | Some NaN \<Rightarrow> Some None)"

section \<open>The components\<close>

definition listenToRouteChange :: "(string \<Rightarrow> 'k) \<Rightarrow> string option \<Rightarrow> ('r, 'k) table_comp \<Rightarrow> ('r, 'k) table_comp" where
  "listenToRouteChange conv param tb = (case param of
      None \<Rightarrow> tb
    | Some s \<Rightarrow> if s \<noteq> [] \<and> rt_rows tb = [] then tb\<lparr>rt_fromRoute := Some (conv s)\<rparr> else tb)"

text \<open>The rows listeners set the rows. \<open>rows[findIndex(finder)]\<close> is \<open>undefined\<close> for the index \<open>-1\<close>.\<close>

definition row_found :: "('r \<Rightarrow> bool) \<Rightarrow> 'r list \<Rightarrow> 'r option" where
  "row_found finder rows = (case find_index finder rows of None \<Rightarrow> None | Some i \<Rightarrow> Some (rows ! i))"

subsection \<open>SNARK work pool\<close>

definition workPoolTable_onRowClick ::
  "WorkPool option \<Rightarrow> (WorkPool, string) table_comp \<Rightarrow> (WorkPool, string, string, string) table_result" where
  "workPoolTable_onRowClick row tb = (case row of
      None \<Rightarrow> Inr (tb, [])
    | Some r \<Rightarrow> if map_option wk_id (rt_activeRow tb) \<noteq> Some (wk_id r)
        then Inr (tb, [Selected (wk_id r), Navigated (wk_id r)]) else Inr (tb, []))"

definition workPoolTable_rows ::
  "int \<Rightarrow> WorkPool list \<Rightarrow> (WorkPool, string) table_comp \<Rightarrow> (WorkPool, string, string, string) table_result" where
  "workPoolTable_rows off wp tb0 =
     (let tb = tb0\<lparr>rt_rows := wp\<rparr>
      in case rt_fromRoute tb of
           Some k \<Rightarrow> if k \<noteq> [] \<and> wp \<noteq> []
             then map_sum (\<lambda>e. e) (\<lambda>(t, out). (t, Scrolled (scrollToElement off (\<lambda>r. wk_id r = k) wp) # out))
               (workPoolTable_onRowClick (row_found (\<lambda>r. wk_id r = k) wp) (tb\<lparr>rt_fromRoute := None\<rparr>))
             else Inr (tb, [])
         | None \<Rightarrow> Inr (tb, []))"

subsection \<open>Mempool\<close>

definition mempoolTable_onRowClick ::
  "MempoolTransaction option \<Rightarrow> (MempoolTransaction, string) table_comp
     \<Rightarrow> (MempoolTransaction, string, MempoolTransaction option, string option) table_result" where
  "mempoolTable_onRowClick tx tb = (case tx of
      None \<Rightarrow> Inr (tb, [])
    | Some t \<Rightarrow> if map_option mt_txHash (rt_activeRow tb) \<noteq> Some (mt_txHash t)
        then Inr (tb, [Selected (Some t), Navigated (mt_txHash t)]) else Inr (tb, []))"

definition mempoolTable_rows ::
  "int \<Rightarrow> MempoolTransaction list \<Rightarrow> (MempoolTransaction, string) table_comp
     \<Rightarrow> (MempoolTransaction, string, MempoolTransaction option, string option) table_result" where
  "mempoolTable_rows off txs tb0 =
     (let tb = tb0\<lparr>rt_rows := txs\<rparr>
      in case rt_fromRoute tb of
           Some k \<Rightarrow> if k \<noteq> [] \<and> txs \<noteq> []
             then map_sum (\<lambda>e. e) (\<lambda>(t, out). (t, Scrolled (scrollToElement off (\<lambda>r. mt_txHash r = Some k) txs) # out))
               (mempoolTable_onRowClick (row_found (\<lambda>r. mt_txHash r = Some k) txs) (tb\<lparr>rt_fromRoute := None\<rparr>))
             else Inr (tb, [])
         | None \<Rightarrow> Inr (tb, []))"

text \<open>The listener of the active transaction; the first value is skipped.\<close>

definition mempoolTable_active ::
  "MempoolTransaction option \<Rightarrow> (MempoolTransaction, string) table_comp \<Rightarrow> (MempoolTransaction, string) table_comp" where
  "mempoolTable_active tx tb =
     (if rt_activeRow tb = None then tb\<lparr>rt_fromRoute := Option.bind tx mt_txHash, rt_activeRow := tx\<rparr>
      else tb\<lparr>rt_activeRow := tx\<rparr>)"

definition mempoolTable_clearFilters :: MempoolActions where
  "mempoolTable_clearFilters =
     MempoolChangeFilters \<lparr>mf_zkApp = True, mf_payment = True, mf_delegation = True, mf_search = Some []\<rparr>"

subsection \<open>Won slots\<close>

definition wonSlotsTable_onRowClick ::
  "bool \<Rightarrow> BlockProductionWonSlotsSlot option \<Rightarrow> (BlockProductionWonSlotsSlot, string) table_comp
     \<Rightarrow> (BlockProductionWonSlotsSlot, string, BlockProductionWonSlotsSlot, nat) table_result" where
  "wonSlotsTable_onRowClick isRealClick slot tb = (case slot of
      None \<Rightarrow> Inr (tb, [])
    | Some s \<Rightarrow> if map_option ws_globalSlot (rt_activeRow tb) \<noteq> Some (ws_globalSlot s) \<or> isRealClick
        then Inr (tb, [Selected s, Navigated (ws_globalSlot s)]) else Inr (tb, []))"

definition wonSlotsTable_rows ::
  "int \<Rightarrow> BlockProductionWonSlotsSlot list \<Rightarrow> (BlockProductionWonSlotsSlot, string) table_comp
     \<Rightarrow> (BlockProductionWonSlotsSlot, string, BlockProductionWonSlotsSlot, nat) table_result" where
  "wonSlotsTable_rows off slots tb0 =
     (if slots = [] then Inr (tb0, [])
      else let tb = tb0\<lparr>rt_rows := slots\<rparr>
           in case rt_fromRoute tb of
                Some k \<Rightarrow> if k \<noteq> []
                  then map_sum (\<lambda>e. e) (\<lambda>(t, out). (t, Scrolled (scrollToElement off (\<lambda>s. dec (ws_globalSlot s) = k) slots) # out))
                    (wonSlotsTable_onRowClick False (row_found (\<lambda>s. dec (ws_globalSlot s) = k) slots) (tb\<lparr>rt_fromRoute := None\<rparr>))
                  else Inr (tb, [])
              | None \<Rightarrow> Inr (tb, []))"

definition wonSlotsTable_active ::
  "BlockProductionWonSlotsSlot option \<Rightarrow> (BlockProductionWonSlotsSlot, string) table_comp
     \<Rightarrow> js_error + (BlockProductionWonSlotsSlot, string) table_comp" where
  "wonSlotsTable_active slot tb =
     (if rt_activeRow tb = None
      then case slot of
          None \<Rightarrow> Inl TypeError
        | Some s \<Rightarrow> Inr (tb\<lparr>rt_fromRoute := Some (dec (ws_globalSlot s)), rt_activeRow := slot\<rparr>)
      else Inr (tb\<lparr>rt_activeRow := slot\<rparr>))"

subsection \<open>Nodes overview and nodes bootstrap\<close>

text \<open>A click with no row: nothing when there is no active row; else the missing row is dispatched and reading its name throws.\<close>

definition overviewTable_onRowClick ::
  "overview_row option \<Rightarrow> (overview_row, string) table_comp \<Rightarrow> (overview_row, string, overview_row option, string) table_result" where
  "overviewTable_onRowClick row tb =
     (if map_option row_name (rt_activeRow tb) \<noteq> map_option row_name row
      then case row of None \<Rightarrow> Inl TypeError | Some r \<Rightarrow> Inr (tb, [Selected row, Navigated (row_name r)])
      else Inr (tb, []))"

definition overviewTable_rows ::
  "int \<Rightarrow> overview_row list \<Rightarrow> (overview_row, string) table_comp \<Rightarrow> (overview_row, string, overview_row option, string) table_result" where
  "overviewTable_rows off nodes tb0 =
     (if nodes = [] then Inr (tb0, [])
      else let tb = tb0\<lparr>rt_rows := nodes\<rparr>
           in case rt_fromRoute tb of
                Some k \<Rightarrow> if k \<noteq> []
                  then map_sum (\<lambda>e. e) (\<lambda>(t, out). (t, Scrolled (scrollToElement off (\<lambda>r. row_name r = k) nodes) # out))
                    (overviewTable_onRowClick (row_found (\<lambda>r. row_name r = k) nodes) (tb\<lparr>rt_fromRoute := None\<rparr>))
                  else Inr (tb, [])
              | None \<Rightarrow> Inr (tb, []))"

definition bootstrapTable_onRowClick ::
  "NodesBootstrapNode option \<Rightarrow> (NodesBootstrapNode, js_number) table_comp
     \<Rightarrow> (NodesBootstrapNode, js_number, NodesBootstrapNode option, nat) table_result" where
  "bootstrapTable_onRowClick row tb =
     (if map_option bn_index (rt_activeRow tb) \<noteq> map_option bn_index row
      then case row of None \<Rightarrow> Inl TypeError | Some r \<Rightarrow> Inr (tb, [Selected row, Navigated (bn_index r)])
      else Inr (tb, []))"

text \<open>The index of the address is a number; \<open>hasValue\<close> holds for every number.\<close>

definition bootstrapTable_rows ::
  "int \<Rightarrow> NodesBootstrapNode list \<Rightarrow> (NodesBootstrapNode, js_number) table_comp
     \<Rightarrow> (NodesBootstrapNode, js_number, NodesBootstrapNode option, nat) table_result" where
  "bootstrapTable_rows off nodes tb0 =
     (if nodes = [] then Inr (tb0, [])
      else let tb = tb0\<lparr>rt_rows := nodes\<rparr>
           in case rt_fromRoute tb of
                Some k \<Rightarrow>
                  map_sum (\<lambda>e. e) (\<lambda>(t, out). (t, Scrolled (scrollToElement off (\<lambda>r. Finite (of_nat (bn_index r)) = k) nodes) # out))
                    (bootstrapTable_onRowClick (row_found (\<lambda>r. Finite (of_nat (bn_index r)) = k) nodes) (tb\<lparr>rt_fromRoute := None\<rparr>))
              | None \<Rightarrow> Inr (tb, []))"

subsection \<open>Bootstrap statistics and node DHT\<close>

definition statsTable_onRowClick ::
  "NetworkBootstrapStatsRequest option \<Rightarrow> (NetworkBootstrapStatsRequest, string) table_comp
     \<Rightarrow> (NetworkBootstrapStatsRequest, string, NetworkBootstrapStatsRequest option, string) table_result" where
  "statsTable_onRowClick row tb =
     (if map_option nr_peerId (rt_activeRow tb) \<noteq> map_option nr_peerId row
      then case row of None \<Rightarrow> Inl TypeError | Some r \<Rightarrow> Inr (tb, [Selected row, Navigated (nr_peerId r)])
      else Inr (tb, []))"

definition statsTable_rows ::
  "int \<Rightarrow> NetworkBootstrapStatsRequest list \<Rightarrow> (NetworkBootstrapStatsRequest, string) table_comp
     \<Rightarrow> (NetworkBootstrapStatsRequest, string, NetworkBootstrapStatsRequest option, string) table_result" where
  "statsTable_rows off requests tb0 =
     (if requests = [] then Inr (tb0, [])
      else let tb = tb0\<lparr>rt_rows := requests\<rparr>
           in case rt_fromRoute tb of
                Some k \<Rightarrow> if k \<noteq> []
                  then Inr (tb\<lparr>rt_fromRoute := None\<rparr>,
                    [Scrolled (scrollToElement off (\<lambda>r. nr_peerId r = k) requests), Selected (List.find (\<lambda>r. nr_peerId r = k) requests)])
                  else Inr (tb, [])
              | None \<Rightarrow> Inr (tb, []))"

definition dhtTable_onRowClick ::
  "NetworkNodeDhtPeer option \<Rightarrow> (NetworkNodeDhtPeer, string) table_comp
     \<Rightarrow> (NetworkNodeDhtPeer, string, NetworkNodeDhtPeer option, string) table_result" where
  "dhtTable_onRowClick row tb =
     (if map_option dht_peerId (rt_activeRow tb) \<noteq> map_option dht_peerId row
      then case row of None \<Rightarrow> Inl TypeError | Some r \<Rightarrow> Inr (tb, [Selected row, Navigated (dht_peerId r)])
      else Inr (tb, []))"

definition dhtTable_rows ::
  "int \<Rightarrow> NetworkNodeDhtPeer list \<Rightarrow> (NetworkNodeDhtPeer, string) table_comp
     \<Rightarrow> (NetworkNodeDhtPeer, string, NetworkNodeDhtPeer option, string) table_result" where
  "dhtTable_rows off rows tb0 =
     (if rows = [] then Inr (tb0, [])
      else let tb = tb0\<lparr>rt_rows := rows\<rparr>
           in case rt_fromRoute tb of
                Some k \<Rightarrow> if k \<noteq> []
                  then Inr (tb\<lparr>rt_fromRoute := None\<rparr>,
                    [Scrolled (scrollToElement off (\<lambda>r. dht_peerId r = k) rows), Selected (List.find (\<lambda>r. dht_peerId r = k) rows)])
                  else Inr (tb, [])
              | None \<Rightarrow> Inr (tb, []))"

subsection \<open>Connections\<close>

text \<open>The identifier of the address is a number, and only scrolled to; zero and \<open>NaN\<close> count as none.\<close>

definition connectionsTable_onRowClick ::
  "NetworkConnection option \<Rightarrow> (NetworkConnection, js_number) table_comp
     \<Rightarrow> (NetworkConnection, js_number, NetworkConnection option, int) table_result" where
  "connectionsTable_onRowClick row tb = (case row of
      None \<Rightarrow> Inl TypeError
    | Some r \<Rightarrow> if Some (cn_connectionId r) \<noteq> map_option cn_connectionId (rt_activeRow tb)
        then Inr (tb, [Navigated (cn_connectionId r), Selected row]) else Inr (tb, []))"

definition connectionsTable_rows ::
  "int \<Rightarrow> NetworkConnection list \<Rightarrow> (NetworkConnection, js_number) table_comp
     \<Rightarrow> (NetworkConnection, js_number, NetworkConnection option, int) table_result" where
  "connectionsTable_rows off connections tb0 =
     (if connections = [] then Inr (tb0, [])
      else let tb = tb0\<lparr>rt_rows := connections\<rparr>
           in case rt_fromRoute tb of
                Some (Finite q) \<Rightarrow> if q \<noteq> 0
                  then Inr (tb\<lparr>rt_fromRoute := None\<rparr>,
                    [Scrolled (scrollToElement off (\<lambda>c. (of_int (cn_connectionId c) :: rat) = q) connections)])
                  else Inr (tb, [])
              | _ \<Rightarrow> Inr (tb, []))"

text \<open>The listener of the active row in the other tables.\<close>

definition table_active :: "'r option \<Rightarrow> ('r, 'k) table_comp \<Rightarrow> ('r, 'k) table_comp" where
  "table_active row tb = tb\<lparr>rt_activeRow := row\<rparr>"

section \<open>Links to a row\<close>

fun selections :: "('p, 'n) table_out list \<Rightarrow> 'p list" where
  "selections [] = []"
| "selections (Selected p # outs) = p # selections outs"
| "selections (_ # outs) = selections outs"

lemma selections_append [simp]: "selections (xs @ ys) = selections xs @ selections ys"
  by (induction xs rule: selections.induct) auto

lemma row_found_find [simp]: "row_found finder rows = List.find finder rows"
  unfolding row_found_def by (induction rows) (auto split: option.splits simp del: find_index_None)

text \<open>What the store tells a table: new rows, and a new active row (the row that a dispatch of the table selected among them).\<close>

datatype 'r table_event = Rows "'r list" | Active "'r option"

fun feed :: "('r list \<Rightarrow> ('r, 'k) table_comp \<Rightarrow> ('r, 'k, 'p, 'n) table_result) \<Rightarrow> 'r table_event list
    \<Rightarrow> ('r, 'k) table_comp \<Rightarrow> ('r, 'k, 'p, 'n) table_result" where
  "feed rows_changed [] tb = Inr (tb, [])"
| "feed rows_changed (Rows rows # evs) tb = (case rows_changed rows tb of
      Inl e \<Rightarrow> Inl e
    | Inr (tb1, out) \<Rightarrow> map_sum (\<lambda>e. e) (\<lambda>(tb2, out2). (tb2, out @ out2)) (feed rows_changed evs tb1))"
| "feed rows_changed (Active row # evs) tb = feed rows_changed evs (table_active row tb)"

fun first_rows :: "'r table_event list \<Rightarrow> 'r list" where
  "first_rows [] = []"
| "first_rows (Rows rows # evs) = (if rows = [] then first_rows evs else rows)"
| "first_rows (Active row # evs) = first_rows evs"

text \<open>No row becomes active before there are rows.\<close>

fun quiet_start :: "'r table_event list \<Rightarrow> bool" where
  "quiet_start [] \<longleftrightarrow> True"
| "quiet_start (Rows rows # evs) \<longleftrightarrow> rows \<noteq> [] \<or> quiet_start evs"
| "quiet_start (Active row # evs) \<longleftrightarrow> row = None \<and> quiet_start evs"

locale routed_table =
  fixes finder :: "'k \<Rightarrow> 'r \<Rightarrow> bool"
    and usable :: "'k \<Rightarrow> bool"
    and payload :: "'r \<Rightarrow> 'p"
    and proper :: "'p \<Rightarrow> bool"
    and rows_changed :: "'r list \<Rightarrow> ('r, 'k) table_comp \<Rightarrow> ('r, 'k, 'p, 'n) table_result"
  assumes payload_proper: "proper (payload r)"
    and no_rows: "\<exists>rs. rows_changed [] tb = Inr (tb\<lparr>rt_rows := rs\<rparr>, [])"
    and no_link: "rt_fromRoute tb = None \<Longrightarrow> rows \<noteq> [] \<Longrightarrow> rows_changed rows tb = Inr (tb\<lparr>rt_rows := rows\<rparr>, [])"
    and link: "rt_fromRoute tb = Some k \<Longrightarrow> usable k \<Longrightarrow> rt_activeRow tb = None \<Longrightarrow> rows \<noteq> [] \<Longrightarrow>
      \<exists>out. rows_changed rows tb = Inr (tb\<lparr>rt_rows := rows, rt_fromRoute := None\<rparr>, out) \<and>
        filter proper (selections out) = (case List.find (finder k) rows of Some r \<Rightarrow> [payload r] | None \<Rightarrow> [])"
begin

lemma feed_no_link: "rt_fromRoute tb = None \<Longrightarrow> \<exists>tb'. feed rows_changed evs tb = Inr (tb', []) \<and> rt_fromRoute tb' = None"
proof (induction evs arbitrary: tb)
  case (Cons ev evs)
  show ?case
  proof (cases ev)
    case (Rows rows)
    obtain rs where step: "rows_changed rows tb = Inr (tb\<lparr>rt_rows := rs\<rparr>, [])"
      using no_rows [of tb] no_link [OF Cons.prems] by (cases "rows = []") auto
    from Cons.IH [of "tb\<lparr>rt_rows := rs\<rparr>"] Cons.prems step Rows show ?thesis by auto
  qed (use Cons in \<open>simp add: table_active_def\<close>)
qed simp

lemma feed_link:
  "rt_fromRoute tb = Some k \<Longrightarrow> usable k \<Longrightarrow> rt_activeRow tb = None \<Longrightarrow> quiet_start evs \<Longrightarrow>
   \<exists>tb' out. feed rows_changed evs tb = Inr (tb', out) \<and>
     filter proper (selections out) = (case List.find (finder k) (first_rows evs) of Some r \<Rightarrow> [payload r] | None \<Rightarrow> []) \<and>
     (rt_fromRoute tb' = None \<longleftrightarrow> first_rows evs \<noteq> [])"
proof (induction evs arbitrary: tb)
  case (Cons ev evs)
  consider rows where "ev = Rows rows" "rows \<noteq> []" | "ev = Rows []" | row where "ev = Active row" by (cases ev) auto
  then show ?case
  proof cases
    case 1
    let ?t = "tb\<lparr>rt_rows := rows, rt_fromRoute := None\<rparr>"
    obtain out where out: "rows_changed rows tb = Inr (?t, out)"
      "filter proper (selections out) = (case List.find (finder k) rows of Some r \<Rightarrow> [payload r] | None \<Rightarrow> [])"
      using link [OF Cons.prems(1-3) 1(2)] by blast
    obtain tb' where "feed rows_changed evs ?t = Inr (tb', [])" "rt_fromRoute tb' = None" using feed_no_link [of ?t evs] by auto
    with out 1 show ?thesis by auto
  next
    case 2
    obtain rs where step: "rows_changed [] tb = Inr (tb\<lparr>rt_rows := rs\<rparr>, [])" using no_rows [of tb] by auto
    from Cons.IH [of "tb\<lparr>rt_rows := rs\<rparr>"] Cons.prems 2 step show ?thesis by auto
  next
    case 3
    with Cons show ?thesis by (simp add: table_active_def)
  qed
qed simp

end

lemma same_rows: "\<exists>rs. tb = tb\<lparr>rt_rows := rs\<rparr>"
  by (rule exI [of _ "rt_rows tb"]) simp

interpretation workPool_table:
  routed_table "\<lambda>k r. wk_id r = k" "\<lambda>k. k \<noteq> []" wk_id "\<lambda>_. True" "workPoolTable_rows off"
  by unfold_locales (auto simp: workPoolTable_rows_def workPoolTable_onRowClick_def Let_def split: option.splits intro: exI [of _ "[]"])

interpretation overview_table:
  routed_table "\<lambda>k r. row_name r = k" "\<lambda>k. k \<noteq> []" Some "\<lambda>p. p \<noteq> None" "overviewTable_rows off"
  by unfold_locales (auto simp: overviewTable_rows_def overviewTable_onRowClick_def Let_def split: option.splits intro: same_rows)

interpretation bootstrap_table:
  routed_table "\<lambda>k r. Finite (of_nat (bn_index r)) = k" "\<lambda>_. True" Some "\<lambda>p. p \<noteq> None" "bootstrapTable_rows off"
  by unfold_locales (auto simp: bootstrapTable_rows_def bootstrapTable_onRowClick_def Let_def split: option.splits intro: same_rows)

interpretation stats_table:
  routed_table "\<lambda>k r. nr_peerId r = k" "\<lambda>k. k \<noteq> []" Some "\<lambda>p. p \<noteq> None" "statsTable_rows off"
  by unfold_locales (auto simp: statsTable_rows_def Let_def split: option.splits intro: same_rows)

interpretation dht_table:
  routed_table "\<lambda>k r. dht_peerId r = k" "\<lambda>k. k \<noteq> []" Some "\<lambda>p. p \<noteq> None" "dhtTable_rows off"
  by unfold_locales (auto simp: dhtTable_rows_def Let_def split: option.splits intro: same_rows)

definition link_selects ::
  "('r \<Rightarrow> bool) \<Rightarrow> ('r \<Rightarrow> 'p) \<Rightarrow> ('p \<Rightarrow> bool) \<Rightarrow> 'r table_event list \<Rightarrow> ('r, 'k, 'p, 'n) table_result \<Rightarrow> bool" where
  "link_selects finder payload proper evs result \<longleftrightarrow> (\<exists>tb out. result = Inr (tb, out) \<and>
     filter proper (selections out) = (case List.find finder (first_rows evs) of Some r \<Rightarrow> [payload r] | None \<Rightarrow> []) \<and>
     (rt_fromRoute tb = None \<longleftrightarrow> first_rows evs \<noteq> []))"

text \<open>C17. A link to a row. On five pages (work pool, overview and bootstrap of the nodes, bootstrap statistics, node DHT), a table that
  is opened with the identifier of a row in the address, when no row becomes active before there are rows, dispatches,
  whatever rows and active rows the store tells it afterwards, exactly one row: the first one with this identifier among
  the first rows. When there is no such row among them, none is dispatched, and the identifier is given up nevertheless. (The
  dispatch of a missing row, which two of the pages make, is not counted.)\<close>

theorem table_links:
  assumes "s \<noteq> []" and "quiet_start pools" and "quiet_start overview" and "quiet_start bootstrap" and "quiet_start stats" and "quiet_start peers"
  shows "link_selects (\<lambda>r. wk_id r = s) wk_id (\<lambda>_. True) pools
      (feed (workPoolTable_rows off) pools (listenToRouteChange id (Some s) table_opened))
    \<and> link_selects (\<lambda>r. row_name r = s) Some (\<lambda>p. p \<noteq> None) overview
      (feed (overviewTable_rows off) overview (listenToRouteChange id (Some s) table_opened))
    \<and> link_selects (\<lambda>r. Finite (of_nat (bn_index r)) = js_Number s) Some (\<lambda>p. p \<noteq> None) bootstrap
      (feed (bootstrapTable_rows off) bootstrap (listenToRouteChange js_Number (Some s) table_opened))
    \<and> link_selects (\<lambda>r. nr_peerId r = s) Some (\<lambda>p. p \<noteq> None) stats
      (feed (statsTable_rows off) stats (listenToRouteChange id (Some s) table_opened))
    \<and> link_selects (\<lambda>r. dht_peerId r = s) Some (\<lambda>p. p \<noteq> None) peers
      (feed (dhtTable_rows off) peers (listenToRouteChange id (Some s) table_opened))"
proof -
  have opened: "rt_fromRoute (listenToRouteChange conv (Some s) table_opened) = Some (conv s)"
    "rt_activeRow (listenToRouteChange conv (Some s) table_opened) = None" for conv :: "string \<Rightarrow> 'k"
    using assms(1) by (auto simp: listenToRouteChange_def table_opened_def)
  show ?thesis
    unfolding link_selects_def
    by (intro conjI workPool_table.feed_link overview_table.feed_link
      bootstrap_table.feed_link stats_table.feed_link dht_table.feed_link opened assms TrueI) (simp_all add: opened assms)
qed

theorem table_links_witness:
  "\<exists>tb out. feed (overviewTable_rows 3) [Active None, Rows [], Rows [Pending_row ''a'', Pending_row ''b''], Active (Some (Pending_row ''b'')),
      Rows [Pending_row ''b'']] (listenToRouteChange id (Some ''b'') table_opened) = Inr (tb, out)
    \<and> filter (\<lambda>p. p \<noteq> None) (selections out) = [Some (Pending_row ''b'')] \<and> rt_fromRoute tb = None"
proof -
  let ?evs = "[Active None, Rows [], Rows [Pending_row ''a'', Pending_row ''b''], Active (Some (Pending_row ''b'')), Rows [Pending_row ''b'']]"
  have "link_selects (\<lambda>r. row_name r = ''b'') Some (\<lambda>p. p \<noteq> None) ?evs
      (feed (overviewTable_rows 3) ?evs (listenToRouteChange id (Some ''b'') table_opened))"
    using table_links [of "''b''" "[]" ?evs "[]" "[]" "[]" 3] by simp
  then show ?thesis by (auto simp: link_selects_def)
qed

text \<open>The listener of the mempool table stores the hash of the transaction that becomes active. A link is followed once nevertheless: the
  transaction is dispatched, its hash is stored again when the store makes it active, and the next rows with it give
  the hash up without a dispatch.\<close>

lemma mempool_link:
  assumes "s \<noteq> []" and "List.find (\<lambda>t. mt_txHash t = Some s) txs = Some y" and "List.find (\<lambda>t. mt_txHash t = Some s) txs' = Some y'"
  shows "\<exists>tb out tb' out'. mempoolTable_rows off txs (listenToRouteChange id (Some s) table_opened) = Inr (tb, out) \<and> selections out = [Some y]
    \<and> rt_fromRoute (mempoolTable_active (Some y) tb) = Some s
    \<and> mempoolTable_rows off txs' (mempoolTable_active (Some y) tb) = Inr (tb', out') \<and> selections out' = [] \<and> rt_fromRoute tb' = None"
proof -
  have "txs \<noteq> []" "txs' \<noteq> []" "mt_txHash y = Some s" "mt_txHash y' = Some s" using assms(2,3) by (auto simp: find_Some_iff)
  with assms show ?thesis
    by (simp add: listenToRouteChange_def table_opened_def mempoolTable_active_def mempoolTable_rows_def mempoolTable_onRowClick_def Let_def)
qed

text \<open>The table of the won slots follows no link itself: the slot that the store makes active with the slots of an answer replaces the
  identifier of the address, and the rows that follow dispatch nothing.\<close>

lemma wonSlots_link_replaced:
  assumes "a \<in> set slots" and "rt_activeRow tb = None"
  shows "\<exists>tb1 tb' out. wonSlotsTable_active (Some a) tb = Inr tb1 \<and> wonSlotsTable_rows off slots tb1 = Inr (tb', out) \<and> selections out = []"
proof -
  have ne: "slots \<noteq> []" "dec (ws_globalSlot a) \<noteq> []" using assms(1) by auto
  obtain b where b: "List.find (\<lambda>s. dec (ws_globalSlot s) = dec (ws_globalSlot a)) slots = Some b" "ws_globalSlot b = ws_globalSlot a"
    using assms(1) by (cases "List.find (\<lambda>s. dec (ws_globalSlot s) = dec (ws_globalSlot a)) slots") (auto simp: find_None_iff find_Some_iff to_radix_inject)
  show ?thesis using assms(2) ne b by (simp add: wonSlotsTable_active_def wonSlotsTable_rows_def wonSlotsTable_onRowClick_def Let_def)
qed

text \<open>What the pages do with a missing row differs. With an active row, the two pages of the nodes throw; the two pages of the
  network dispatch it, so that the active row is lost.\<close>

lemma missing_row_throws:
  "rt_fromRoute tb = Some k \<Longrightarrow> k \<noteq> [] \<Longrightarrow> rt_activeRow tb \<noteq> None \<Longrightarrow> rows \<noteq> [] \<Longrightarrow> \<forall>r \<in> set rows. row_name r \<noteq> k \<Longrightarrow>
   overviewTable_rows off rows tb = Inl TypeError"
  by (simp add: overviewTable_rows_def overviewTable_onRowClick_def Let_def find_None_iff [THEN iffD2])

lemma missing_row_dispatched:
  "rt_fromRoute tb = Some k \<Longrightarrow> k \<noteq> [] \<Longrightarrow> rows \<noteq> [] \<Longrightarrow> \<forall>r \<in> set rows. dht_peerId r \<noteq> k \<Longrightarrow>
   \<exists>tb' out. dhtTable_rows off rows tb = Inr (tb', out) \<and> selections out = [None]"
  by (auto simp: dhtTable_rows_def Let_def find_None_iff)

text \<open>A link to a connection is only scrolled to: the connection is not selected. The connection \<open>0\<close> is not even scrolled to.\<close>

lemma connections_not_selected:
  "\<exists>tb' out. feed (connectionsTable_rows off) evs tb = Inr (tb', out) \<and> selections out = []"
proof (induction "connectionsTable_rows off" evs tb rule: feed.induct [case_names Nil Rows Active])
  case (Rows rows evs tb)
  obtain tb1 out where one: "connectionsTable_rows off rows tb = Inr (tb1, out)" "selections out = []"
  proof -
    have "\<exists>tb1 out. connectionsTable_rows off rows tb = Inr (tb1, out) \<and> selections out = []"
      by (auto simp: connectionsTable_rows_def Let_def split: option.splits js_number.splits)
    with that show thesis by blast
  qed
  from Rows [OF one(1) refl] one show ?case by auto
qed simp_all

lemma connection_zero_not_scrolled:
  "rt_fromRoute tb = Some (js_Number ''0'') \<Longrightarrow> \<exists>tb'. connectionsTable_rows off rows tb = Inr (tb', [])"
proof -
  assume "rt_fromRoute tb = Some (js_Number ''0'')"
  moreover have "js_Number ''0'' = Finite 0" by code_simp
  ultimately show ?thesis by (simp add: connectionsTable_rows_def Let_def)
qed

text \<open>A transaction whose panel is closed before the next answer of the pool is opened again by this answer: the listener stored its
  hash when it became active.\<close>

lemma mempool_reopens:
  assumes "rt_activeRow tb = None" and "mt_txHash x = Some h" and "h \<noteq> []" and "List.find (\<lambda>t. mt_txHash t = Some h) txs = Some y"
  shows "\<exists>tb' out. mempoolTable_rows off txs (mempoolTable_active None (mempoolTable_active (Some x) tb)) = Inr (tb', out)
    \<and> selections out = [Some y]"
proof -
  have "txs \<noteq> []" using assms(4) by auto
  with assms show ?thesis by (auto simp: mempoolTable_active_def mempoolTable_rows_def mempoolTable_onRowClick_def Let_def)
qed

lemma mempool_answer_between:
  assumes "rt_activeRow tb = None" and "mt_txHash x = Some h" and "h \<noteq> []" and "List.find (\<lambda>t. mt_txHash t = Some h) txs = Some y" and "txs' \<noteq> []"
  shows "\<exists>tb1 out1 tb2. mempoolTable_rows off txs (mempoolTable_active (Some x) tb) = Inr (tb1, out1) \<and> selections out1 = []
    \<and> mempoolTable_rows off txs' (mempoolTable_active None tb1) = Inr (tb2, [])"
proof -
  have "txs \<noteq> []" using assms(4) by auto
  moreover have "mt_txHash y = Some h" using assms(4) by (auto simp: find_Some_iff)
  ultimately show ?thesis using assms
    by (auto simp: mempoolTable_active_def mempoolTable_rows_def mempoolTable_onRowClick_def Let_def)
qed

lemma won_slots_no_active: "wonSlotsTable_active None table_opened = Inl TypeError"
  by (simp add: wonSlotsTable_active_def table_opened_def)

section \<open>Clicks\<close>

fun navigations :: "('p, 'n) table_out list \<Rightarrow> 'n list" where
  "navigations [] = []"
| "navigations (Navigated n # outs) = n # navigations outs"
| "navigations (_ # outs) = navigations outs"

lemma navigations_append [simp]: "navigations (xs @ ys) = navigations xs @ navigations ys"
  by (induction xs rule: navigations.induct) auto

text \<open>Clicks on rows one after another; the store makes the dispatched row the active one, and the listener takes it.\<close>

fun click_rows :: "('r option \<Rightarrow> ('r, 'k) table_comp \<Rightarrow> ('r, 'k, 'p, 'n) table_result) \<Rightarrow> 'r list
    \<Rightarrow> ('r, 'k) table_comp \<Rightarrow> ('r, 'k, 'p, 'n) table_result" where
  "click_rows click [] tb = Inr (tb, [])"
| "click_rows click (r # rs) tb = (case click (Some r) tb of
      Inl e \<Rightarrow> Inl e
    | Inr (tb1, out) \<Rightarrow> map_sum (\<lambda>e. e) (\<lambda>(tb2, out2). (tb2, out @ out2))
        (click_rows click rs (if selections out = [] then tb1 else table_active (Some r) tb1)))"

locale row_clicks =
  fixes key :: "'r \<Rightarrow> 'n" and payload :: "'r \<Rightarrow> 'p"
    and click :: "'r option \<Rightarrow> ('r, 'k) table_comp \<Rightarrow> ('r, 'k, 'p, 'n) table_result"
  assumes same_row: "map_option key (rt_activeRow tb) = Some (key r) \<Longrightarrow> click (Some r) tb = Inr (tb, [])"
    and other_row: "map_option key (rt_activeRow tb) \<noteq> Some (key r) \<Longrightarrow>
      \<exists>out. click (Some r) tb = Inr (tb, out) \<and> selections out = [payload r] \<and> navigations out = [key r]"
begin

lemma clicks_follow:
  "\<exists>tb' out. click_rows click rs tb = Inr (tb', out) \<and> length (selections out) = length (navigations out) \<and>
     navigations out = (case map_option key (rt_activeRow tb) of
       None \<Rightarrow> remdups_adj (map key rs) | Some a \<Rightarrow> tl (remdups_adj (a # map key rs))) \<and>
     (rs \<noteq> [] \<longrightarrow> map_option key (rt_activeRow tb') = Some (key (last rs)))"
proof (induction rs arbitrary: tb)
  case Nil
  show ?case by (cases "rt_activeRow tb") auto
next
  case (Cons r rs)
  show ?case
  proof (cases "map_option key (rt_activeRow tb) = Some (key r)")
    case True
    with Cons.IH [of tb] same_row [OF True] show ?thesis by (auto split: if_splits)
  next
    case False
    let ?t = "table_active (Some r) tb"
    obtain out where out: "click (Some r) tb = Inr (tb, out)" "selections out = [payload r]" "navigations out = [key r]"
      using other_row [OF False] by blast
    have act: "rt_activeRow ?t = Some r" by (simp add: table_active_def)
    have ne: "remdups_adj (key r # map key rs) = key r # tl (remdups_adj (key r # map key rs))" by (simp add: remdups_adj_Cons split: list.splits)
    have skip: "tl (remdups_adj (a # key r # map key rs)) = remdups_adj (key r # map key rs)" if "a \<noteq> key r" for a
      using that by simp
    from Cons.IH [of ?t] out act False ne skip show ?thesis
      by (cases "rt_activeRow tb") (auto simp del: remdups_adj.simps(3))
  qed
qed

end

interpretation workPool_clicks: row_clicks wk_id wk_id workPoolTable_onRowClick
  by unfold_locales (auto simp: workPoolTable_onRowClick_def)

interpretation overview_clicks: row_clicks row_name Some overviewTable_onRowClick
  by unfold_locales (auto simp: overviewTable_onRowClick_def)

interpretation bootstrap_clicks: row_clicks bn_index Some bootstrapTable_onRowClick
  by unfold_locales (auto simp: bootstrapTable_onRowClick_def)

interpretation stats_clicks: row_clicks nr_peerId Some statsTable_onRowClick
  by unfold_locales (auto simp: statsTable_onRowClick_def)

interpretation dht_clicks: row_clicks dht_peerId Some dhtTable_onRowClick
  by unfold_locales (auto simp: dhtTable_onRowClick_def)

interpretation connections_clicks: row_clicks cn_connectionId Some connectionsTable_onRowClick
  by unfold_locales (auto simp: connectionsTable_onRowClick_def eq_commute [of "Some _"])

text \<open>Clicks. From a table with no active row the address follows the clicks: it changes once for every click on a row other than
  the one before, and the active row is the one clicked last. The won slots dispatch on every click.\<close>

lemma connections_clicks_follow:
  "rt_activeRow tb = None \<Longrightarrow> \<exists>tb' out. click_rows connectionsTable_onRowClick rs tb = Inr (tb', out) \<and>
     navigations out = remdups_adj (map cn_connectionId rs) \<and>
     (rs \<noteq> [] \<longrightarrow> map_option cn_connectionId (rt_activeRow tb') = Some (cn_connectionId (last rs)))"
  using connections_clicks.clicks_follow [of rs tb] by auto

lemma won_slots_click_twice:
  "\<exists>out. wonSlotsTable_onRowClick True (Some s) (tb\<lparr>rt_activeRow := Some s\<rparr>) = Inr (tb\<lparr>rt_activeRow := Some s\<rparr>, out) \<and> selections out = [s]"
  by (simp add: wonSlotsTable_onRowClick_def)

section \<open>Sorting and clicks in the table\<close>

lemma sortTable_twice: "sortTable col (sortTable col ts) = ts \<longleftrightarrow> sortBy ts = col"
  by (cases ts; cases "sortDirection ts") (auto simp: sortTable_def)

lemma sortTable_other: "col \<noteq> sortBy ts \<Longrightarrow> sortDirection (sortTable col ts) = sortDirection ts"
  by (simp add: sortTable_def)

text \<open>A click inside the row \<open>i\<close>, below the viewport, is a click on that row.\<close>

lemma onVsClick_row:
  assumes "\<forall>e \<in> set inner. e = (None, False)" and "i < length rows"
  shows "onVsClick rows (inner @ (Some (dec i), False) # outer) = Some (Some (rows ! i))"
proof -
  have "click_index (inner @ (Some (dec i), False) # outer) = Some (js_Number (dec i))"
    using assms(1) by (induction inner) auto
  moreover have "js_Number (dec i) = Finite (of_nat i)" using js_Number_show_int [of "int i"] by (simp add: show_int_def)
  ultimately show ?thesis using assms(2) by (simp add: onVsClick_def)
qed

lemma onVsClick_outside: "\<forall>e \<in> set inner. e = (None, False) \<Longrightarrow> onVsClick rows (inner @ (None, True) # outer) = None"
proof -
  assume "\<forall>e \<in> set inner. e = (None, False)"
  then have "click_index (inner @ (None, True) # outer) = None" by (induction inner) auto
  then show ?thesis by (simp add: onVsClick_def)
qed

end
