(* ===== verification/Benchmarks_Toolbar.thy ===== *)
theory Benchmarks_Toolbar
  imports Benchmarks_Wallets
begin

text \<open>
  The two toolbars of the stress tool (\<open>benchmarks-wallets-toolbar\<close> and \<open>benchmarks-wallets-zkapp-toolbar\<close>): forms for the size of
  a batch, the amount and the fee, composed with the store.

  A form control tells its subscriber every value it takes, after \<open>distinctUntilChanged\<close> (which remembers the last value that
  it saw) and a filter on \<open>null\<close>. The subscriber of the batch writes the corrected value back into the control, which
  tells it again: the recursion below. The store answers a dispatch at once, and its listeners write into the control too. The
  contract of a toolbar towards the store is the locale \<open>batch_toolbar\<close>, interpreted on the payments and on the zkApps.
\<close>

section \<open>The batch\<close>

record batch_form =
  bf_seen :: "rat option option"
  bf_control :: "rat option"
  bf_currentBatch :: "int option"

definition batch_form_initial :: batch_form where
  "batch_form_initial = \<lparr>bf_seen = None, bf_control = Some 0, bf_currentBatch = None\<rparr>"

definition batchPayload :: "nat \<Rightarrow> bool \<Rightarrow> rat \<Rightarrow> int" where
  "batchPayload walletsLength randomWallet v =
     (let payload = \<lceil>if v = 0 then 1 else v\<rceil>
      in if payload > int walletsLength then (if randomWallet then int walletsLength else int walletsLength - 1) else payload)"

text \<open>The listener of the batch in the store, which does not tell the subscriber.\<close>

definition listenToBatchChange :: "int option \<Rightarrow> int option \<Rightarrow> batch_form \<Rightarrow> batch_form" where
  "listenToBatchChange old new f =
     (if new = old then f else f\<lparr>bf_currentBatch := new, bf_control := map_option of_int new\<rparr>)"

definition dispatch_batch ::
  "bench_env \<Rightarrow> (int option \<Rightarrow> BenchmarksWalletsActions) \<Rightarrow> (BenchmarksWalletsState \<Rightarrow> int option) \<Rightarrow> int
     \<Rightarrow> batch_form \<times> BenchmarksWalletsState \<Rightarrow> batch_form \<times> BenchmarksWalletsState" where
  "dispatch_batch env change batch_of payload = (\<lambda>(f, store).
     (case benchmarksReducer env store (change (Some payload)) of
        Inl e \<Rightarrow> (f, store)
      | Inr store' \<Rightarrow> (listenToBatchChange (batch_of store) (batch_of store') f, store')))"

definition batch_rank :: "nat \<Rightarrow> bool \<Rightarrow> rat \<Rightarrow> nat" where
  "batch_rank w rnd v =
     (let p = batchPayload w rnd v; q = batchPayload w rnd (of_int p)
      in if of_int p = v then 0 else if q = p then 1 else 2)"

lemma ceiling_minus_one [simp]: "\<lceil>- 1 :: rat\<rceil> = - 1"
  by (simp add: ceiling_def)

lemma batch_rank_less: "of_int (batchPayload w rnd v) \<noteq> v \<Longrightarrow> batch_rank w rnd (of_int (batchPayload w rnd v)) < batch_rank w rnd v"
  by (auto simp: batch_rank_def batchPayload_def Let_def)

text \<open>A value that the control takes. \<open>w\<close> and \<open>rnd\<close> are the number of wallets and the switch that the toolbar holds.\<close>

function batch_value ::
  "bench_env \<Rightarrow> (int option \<Rightarrow> BenchmarksWalletsActions) \<Rightarrow> (BenchmarksWalletsState \<Rightarrow> int option) \<Rightarrow> nat \<Rightarrow> bool \<Rightarrow> rat
     \<Rightarrow> batch_form \<times> BenchmarksWalletsState \<Rightarrow> batch_form \<times> BenchmarksWalletsState" where
  "batch_value env change batch_of w rnd v (f, store) =
     (if bf_seen f = Some (Some v) then (f, store)
      else let payload = batchPayload w rnd v;
               (f1, store1) = batch_value env change batch_of w rnd (of_int payload)
                  (f\<lparr>bf_seen := Some (Some v), bf_control := Some (of_int payload)\<rparr>, store)
           in if bf_currentBatch f1 \<noteq> Some payload then dispatch_batch env change batch_of payload (f1, store1) else (f1, store1))"
  by pat_completeness auto
termination
  by (relation "measure (\<lambda>(env, change, batch_of, w, rnd, v, f, store).
      if bf_seen f = Some (Some v) then 0 else Suc (batch_rank w rnd v))")
    (auto simp: batch_rank_def batchPayload_def Let_def)

declare batch_value.simps [simp del]

text \<open>What a user types: a number, or nothing. The toolbar holds the number of wallets and the switch of the store.\<close>

definition batch_input ::
  "bench_env \<Rightarrow> (int option \<Rightarrow> BenchmarksWalletsActions) \<Rightarrow> (BenchmarksWalletsState \<Rightarrow> int option)
     \<Rightarrow> batch_form \<times> BenchmarksWalletsState \<Rightarrow> rat option \<Rightarrow> batch_form \<times> BenchmarksWalletsState" where
  "batch_input env change batch_of = (\<lambda>(f, store) typed. (case typed of
      None \<Rightarrow> (f\<lparr>bf_seen := Some None, bf_control := None\<rparr>, store)
    | Some v \<Rightarrow> batch_value env change batch_of (length (bs_wallets store)) (bs_randomWallet store) v
        (f\<lparr>bf_control := Some v\<rparr>, store)))"

definition transactions_batch :: "bench_env \<Rightarrow> batch_form \<times> BenchmarksWalletsState \<Rightarrow> rat option \<Rightarrow> batch_form \<times> BenchmarksWalletsState" where
  "transactions_batch env = batch_input env BENCHMARKS_WALLETS_CHANGE_TRANSACTION_BATCH bs_txSendingBatch"

definition zkapps_batch :: "bench_env \<Rightarrow> batch_form \<times> BenchmarksWalletsState \<Rightarrow> rat option \<Rightarrow> batch_form \<times> BenchmarksWalletsState" where
  "zkapps_batch env = batch_input env BENCHMARKS_WALLETS_CHANGE_ZKAPPS_BATCH bs_zkAppsSendingBatch"

section \<open>Fee and amount\<close>

text \<open>The listener of the store writes the absolute value into the control, which tells its subscriber.\<close>

record number_form =
  fo_seen :: "rat option option"
  fo_control :: "rat option"

function number_value :: "rat \<Rightarrow> number_form \<times> rat \<Rightarrow> number_form \<times> rat" where
  "number_value v (f, stored) =
     (if fo_seen f = Some (Some v) then (f, stored)
      else if v = stored then (f\<lparr>fo_seen := Some (Some v)\<rparr>, v)
      else number_value \<bar>v\<bar> (f\<lparr>fo_seen := Some (Some v), fo_control := Some \<bar>v\<bar>\<rparr>, v))"
  by pat_completeness auto
termination
  by (relation "measure (\<lambda>(v, f, stored). if v < 0 then 2 else if fo_seen f = Some (Some v) then 0 else 1)") auto

declare number_value.simps [simp del]

definition number_input :: "number_form \<times> rat \<Rightarrow> rat option \<Rightarrow> number_form \<times> rat" where
  "number_input = (\<lambda>(f, stored) typed. (case typed of
      None \<Rightarrow> (f\<lparr>fo_seen := Some None, fo_control := None\<rparr>, stored)
    | Some v \<Rightarrow> number_value v (f\<lparr>fo_control := Some v\<rparr>, stored)))"

section \<open>Buttons\<close>

definition toolbar_send :: "BenchmarksWalletsActions \<Rightarrow> BenchmarksWalletsState \<Rightarrow> BenchmarksWalletsActions list" where
  "toolbar_send action store = (if selectBenchmarksBlockSending store then [] else [action])"

definition transactions_send :: "BenchmarksWalletsState \<Rightarrow> BenchmarksWalletsActions list" where
  "transactions_send = toolbar_send BENCHMARKS_WALLETS_SEND_TXS"

definition zkapps_send :: "BenchmarksWalletsState \<Rightarrow> BenchmarksWalletsActions list" where
  "zkapps_send = toolbar_send BENCHMARKS_WALLETS_SEND_ZKAPPS"

definition changeWallet :: "BenchmarksWallet \<Rightarrow> BenchmarksWalletsActions" where
  "changeWallet wallet = BENCHMARKS_WALLETS_SELECT_WALLET (Some wallet)"

section \<open>The contract with the store\<close>

lemma batchPayload_range:
  assumes "0 < v" and "2 \<le> w"
  shows "1 \<le> batchPayload w rnd v \<and> batchPayload w rnd v \<le> int w"
    and "batchPayload w rnd (of_int (batchPayload w rnd v)) = batchPayload w rnd v"
proof -
  have "1 \<le> \<lceil>v\<rceil>" using assms(1) by (simp add: one_le_ceiling)
  then show "1 \<le> batchPayload w rnd v \<and> batchPayload w rnd v \<le> int w" using assms by (auto simp: batchPayload_def Let_def)
  then show "batchPayload w rnd (of_int (batchPayload w rnd v)) = batchPayload w rnd v" by (auto simp: batchPayload_def Let_def)
qed

text \<open>The form and the store agree on a batch between one and the number of wallets; the form may be empty.\<close>

definition form_sync :: "(BenchmarksWalletsState \<Rightarrow> int option) \<Rightarrow> nat \<Rightarrow> batch_form \<times> BenchmarksWalletsState \<Rightarrow> nat \<Rightarrow> bool" where
  "form_sync batch_of w fs m \<longleftrightarrow> 1 \<le> m \<and> m \<le> w \<and> batch_of (snd fs) = Some (int m) \<and> bf_currentBatch (fst fs) = Some (int m) \<and>
     bf_seen (fst fs) \<in> {None, Some None, Some (Some (of_nat m))} \<and> bf_control (fst fs) \<in> {None, Some (of_nat m)}"

definition positive_input :: "rat option \<Rightarrow> bool" where
  "positive_input typed \<longleftrightarrow> (case typed of None \<Rightarrow> True | Some v \<Rightarrow> 0 < v)"

locale batch_toolbar =
  fixes change :: "int option \<Rightarrow> BenchmarksWalletsActions" and batch_of :: "BenchmarksWalletsState \<Rightarrow> int option"
  assumes change_ok: "\<exists>s'. benchmarksReducer env s (change n) = Inr s' \<and> batch_of s' = n \<and> bs_wallets s' = bs_wallets s \<and>
      bs_randomWallet s' = bs_randomWallet s \<and> bs_activeWallet s' = bs_activeWallet s"
begin

lemma dispatch_batch_result:
  assumes "bf_currentBatch f = batch_of s" and "bf_currentBatch f \<noteq> Some n"
  shows "\<exists>s'. dispatch_batch env change batch_of n (f, s) = (f\<lparr>bf_currentBatch := Some n, bf_control := Some (of_int n)\<rparr>, s') \<and>
    batch_of s' = Some n \<and> bs_wallets s' = bs_wallets s \<and> bs_randomWallet s' = bs_randomWallet s \<and>
    bs_activeWallet s' = bs_activeWallet s"
proof -
  obtain s' where "benchmarksReducer env s (change (Some n)) = Inr s'" "batch_of s' = Some n" "bs_wallets s' = bs_wallets s"
    "bs_randomWallet s' = bs_randomWallet s" "bs_activeWallet s' = bs_activeWallet s" using change_ok by blast
  with assms show ?thesis by (auto simp: dispatch_batch_def listenToBatchChange_def)
qed

lemma batch_value_result:
  assumes "bf_currentBatch f = batch_of s" and "bf_seen f \<noteq> Some (Some v)"
  shows "\<exists>f' s'. batch_value env change batch_of w rnd v (f, s) = (f', s') \<and> batch_of s' = Some (batchPayload w rnd v) \<and>
    bf_currentBatch f' = Some (batchPayload w rnd v) \<and> bf_control f' = Some (of_int (batchPayload w rnd v)) \<and>
    (batchPayload w rnd (of_int (batchPayload w rnd v)) = batchPayload w rnd v \<longrightarrow>
       bf_seen f' = Some (Some (of_int (batchPayload w rnd v)))) \<and>
    bs_wallets s' = bs_wallets s \<and> bs_randomWallet s' = bs_randomWallet s \<and> bs_activeWallet s' = bs_activeWallet s"
  using assms
proof (induction "batch_rank w rnd v" arbitrary: v f s rule: less_induct)
  case less
  let ?p = "batchPayload w rnd v" and ?f = "f\<lparr>bf_seen := Some (Some v), bf_control := Some (of_int (batchPayload w rnd v))\<rparr>"
  obtain f1 s1 where one: "batch_value env change batch_of w rnd (of_int ?p) (?f, s) = (f1, s1)"
    "bf_currentBatch f1 = batch_of s1" "bs_wallets s1 = bs_wallets s" "bs_randomWallet s1 = bs_randomWallet s"
    "bs_activeWallet s1 = bs_activeWallet s" "bf_currentBatch f1 = Some ?p \<longrightarrow> bf_control f1 = Some (of_int ?p)"
    "batchPayload w rnd (of_int ?p) = ?p \<longrightarrow> bf_seen f1 = Some (Some (of_int ?p))"
  proof (cases "of_int ?p = v")
    case True
    then have "batch_value env change batch_of w rnd (of_int ?p) (?f, s) = (?f, s)" by (simp add: batch_value.simps)
    with that [of ?f s] less.prems(1) True show thesis by simp
  next
    case False
    from less.hyps [OF batch_rank_less [OF False], of ?f s] less.prems(1) False that show thesis by force
  qed
  have unfold: "batch_value env change batch_of w rnd v (f, s) =
      (if bf_currentBatch f1 \<noteq> Some ?p then dispatch_batch env change batch_of ?p (f1, s1) else (f1, s1))"
    using less.prems(2) one(1) by (subst batch_value.simps) (simp add: Let_def)
  show ?case
  proof (cases "bf_currentBatch f1 = Some ?p")
    case True
    with unfold one show ?thesis by auto
  next
    case False
    from dispatch_batch_result [OF one(2) False, of env] unfold False one show ?thesis by auto
  qed
qed

lemma input_sync:
  assumes "form_sync batch_of (length (bs_wallets s)) (f, s) m" and "2 \<le> length (bs_wallets s)" and "positive_input typed"
  shows "\<exists>f' s' m'. batch_input env change batch_of (f, s) typed = (f', s') \<and> form_sync batch_of (length (bs_wallets s)) (f', s') m' \<and>
    bs_wallets s' = bs_wallets s \<and> bs_randomWallet s' = bs_randomWallet s \<and> bs_activeWallet s' = bs_activeWallet s"
proof -
  consider "typed = None" | v where "typed = Some v" "bf_seen f = Some (Some v)" | v where "typed = Some v" "bf_seen f \<noteq> Some (Some v)"
    by (cases typed) auto
  then show ?thesis
  proof cases
    case 1
    with assms(1) show ?thesis by (auto simp: batch_input_def form_sync_def)
  next
    case 2
    then show ?thesis using assms(1) by (auto simp: batch_input_def form_sync_def batch_value.simps)
  next
    case 3
    let ?w = "length (bs_wallets s)" and ?p = "batchPayload (length (bs_wallets s)) (bs_randomWallet s) v"
    note range = batchPayload_range [of v ?w "bs_randomWallet s"]
    have v: "0 < v" using assms(3) 3(1) by (simp add: positive_input_def)
    have sync: "bf_currentBatch (f\<lparr>bf_control := Some v\<rparr>) = batch_of s" "bf_seen (f\<lparr>bf_control := Some v\<rparr>) \<noteq> Some (Some v)"
      using assms(1) 3(2) by (auto simp: form_sync_def)
    obtain f' s' where r: "batch_value env change batch_of ?w (bs_randomWallet s) v (f\<lparr>bf_control := Some v\<rparr>, s) = (f', s')"
      "batch_of s' = Some ?p" "bf_currentBatch f' = Some ?p" "bf_control f' = Some (of_int ?p)" "bf_seen f' = Some (Some (of_int ?p))"
      "bs_wallets s' = bs_wallets s" "bs_randomWallet s' = bs_randomWallet s" "bs_activeWallet s' = bs_activeWallet s"
      using batch_value_result [OF sync, of env ?w "bs_randomWallet s"] range(2) [OF v assms(2)] by blast
    have "form_sync batch_of ?w (f', s') (nat ?p)" using range(1) [OF v assms(2)] r by (auto simp: form_sync_def)
    with r 3(1) show ?thesis by (auto simp: batch_input_def)
  qed
qed

end

interpretation transactions_toolbar: batch_toolbar BENCHMARKS_WALLETS_CHANGE_TRANSACTION_BATCH bs_txSendingBatch
  by unfold_locales simp

interpretation zkapps_toolbar: batch_toolbar BENCHMARKS_WALLETS_CHANGE_ZKAPPS_BATCH bs_zkAppsSendingBatch
  by unfold_locales simp

section \<open>Batches that are typed\<close>

text \<open>What a user does in a toolbar: type or delete a number, switch between random senders and a chosen one, choose the sender.\<close>

datatype toolbar_event = Typed "rat option" | Toggle_random | Choose_wallet BenchmarksWallet

definition toolbar_dispatch ::
  "bench_env \<Rightarrow> BenchmarksWalletsActions \<Rightarrow> batch_form \<times> BenchmarksWalletsState \<Rightarrow> batch_form \<times> BenchmarksWalletsState" where
  "toolbar_dispatch env action = (\<lambda>(f, store).
     (case benchmarksReducer env store action of Inl e \<Rightarrow> (f, store) | Inr store' \<Rightarrow> (f, store')))"

definition toolbar_step ::
  "bench_env \<Rightarrow> (batch_form \<times> BenchmarksWalletsState \<Rightarrow> rat option \<Rightarrow> batch_form \<times> BenchmarksWalletsState)
     \<Rightarrow> batch_form \<times> BenchmarksWalletsState \<Rightarrow> toolbar_event \<Rightarrow> batch_form \<times> BenchmarksWalletsState" where
  "toolbar_step env batch fs ev = (case ev of
      Typed typed \<Rightarrow> batch fs typed
    | Toggle_random \<Rightarrow> toolbar_dispatch env BENCHMARKS_WALLETS_TOGGLE_RANDOM_WALLET fs
    | Choose_wallet wallet \<Rightarrow> toolbar_dispatch env (changeWallet wallet) fs)"

definition positive_event :: "toolbar_event \<Rightarrow> bool" where
  "positive_event ev = (case ev of Typed typed \<Rightarrow> positive_input typed | _ \<Rightarrow> True)"

text \<open>A toolbar after the answer with the wallets: the listener has written the batch of the store into the form.\<close>

definition toolbar_opened :: "(BenchmarksWalletsState \<Rightarrow> int option) \<Rightarrow> BenchmarksWalletsState \<Rightarrow> batch_form \<times> BenchmarksWalletsState" where
  "toolbar_opened batch_of store = (listenToBatchChange None (batch_of store) batch_form_initial, store)"

definition toolbar_inv :: "(BenchmarksWalletsState \<Rightarrow> int option) \<Rightarrow> nat \<Rightarrow> batch_form \<times> BenchmarksWalletsState \<Rightarrow> bool" where
  "toolbar_inv batch_of w fs \<longleftrightarrow> (\<exists>m. form_sync batch_of w fs m) \<and> length (bs_wallets (snd fs)) = w \<and> bs_activeWallet (snd fs) \<noteq> None"

context batch_toolbar
begin

lemma toolbar_inv_typed:
  assumes "toolbar_inv batch_of w fs" and "2 \<le> w" and "positive_input typed"
  shows "toolbar_inv batch_of w (batch_input env change batch_of fs typed)"
proof -
  obtain f s m where fs: "fs = (f, s)" "form_sync batch_of w (f, s) m" "length (bs_wallets s) = w" "bs_activeWallet s \<noteq> None"
    using assms(1) by (cases fs) (auto simp: toolbar_inv_def)
  from input_sync [of s f m typed env] fs assms(2,3) obtain f' s' m' where
    "batch_input env change batch_of (f, s) typed = (f', s')" "form_sync batch_of w (f', s') m'" "bs_wallets s' = bs_wallets s"
    "bs_activeWallet s' = bs_activeWallet s" by auto
  with fs show ?thesis by (auto simp: toolbar_inv_def)
qed

end

text \<open>The switch and the choice of a sender leave the batches alone.\<close>

lemma toolbar_inv_dispatch:
  assumes "toolbar_inv batch_of w fs" and "batch_of \<in> {bs_txSendingBatch, bs_zkAppsSendingBatch}"
    and "action \<in> {BENCHMARKS_WALLETS_TOGGLE_RANDOM_WALLET, changeWallet wallet}"
  shows "toolbar_inv batch_of w (toolbar_dispatch env action fs)"
  using assms by (cases fs) (auto simp: toolbar_inv_def toolbar_dispatch_def form_sync_def changeWallet_def)

lemma toolbar_inv_run:
  assumes "\<And>fs typed. toolbar_inv batch_of w fs \<Longrightarrow> positive_input typed \<Longrightarrow> toolbar_inv batch_of w (batch fs typed)"
    and "batch_of \<in> {bs_txSendingBatch, bs_zkAppsSendingBatch}"
  shows "toolbar_inv batch_of w fs \<Longrightarrow> list_all positive_event evs \<Longrightarrow> toolbar_inv batch_of w (foldl (toolbar_step env batch) fs evs)"
proof (induction evs arbitrary: fs)
  case (Cons ev evs)
  have "toolbar_inv batch_of w (toolbar_step env batch fs ev)"
  proof (cases ev)
    case (Typed typed)
    then show ?thesis using Cons.prems assms(1) by (simp add: toolbar_step_def positive_event_def)
  next
    case (Choose_wallet wallet)
    then show ?thesis using toolbar_inv_dispatch [OF Cons.prems(1) assms(2), of _ wallet] by (simp add: toolbar_step_def)
  qed (use toolbar_inv_dispatch [OF Cons.prems(1) assms(2)] in \<open>simp add: toolbar_step_def\<close>)
  then show ?case using Cons by simp
qed simp

lemma toolbar_inv_opened:
  assumes "benchmarksReducer env benchmarksInitialState (BENCHMARKS_WALLETS_GET_WALLETS_SUCCESS accounts) = Inr s" and "2 \<le> length accounts"
  shows "toolbar_inv bs_txSendingBatch (length accounts) (toolbar_opened bs_txSendingBatch s)"
    and "toolbar_inv bs_zkAppsSendingBatch (length accounts) (toolbar_opened bs_zkAppsSendingBatch s)"
proof -
  have s: "length (bs_wallets s) = length accounts" "bs_txSendingBatch s = Some (int (length accounts))" "bs_zkAppsSendingBatch s = Some 1"
    "bs_activeWallet s \<noteq> None"
    using assms by (auto simp: benchmarksInitialState_def Let_def simp flip: length_0_conv split: if_splits)
  then show "toolbar_inv bs_txSendingBatch (length accounts) (toolbar_opened bs_txSendingBatch s)" using assms(2)
    by (auto simp: toolbar_inv_def toolbar_opened_def listenToBatchChange_def batch_form_initial_def form_sync_def intro!: exI [of _ "length accounts"])
  show "toolbar_inv bs_zkAppsSendingBatch (length accounts) (toolbar_opened bs_zkAppsSendingBatch s)" using s assms(2)
    by (auto simp: toolbar_inv_def toolbar_opened_def listenToBatchChange_def batch_form_initial_def form_sync_def intro!: exI [of _ 1])
qed

text \<open>What a batch in the range of the wallets makes.\<close>

lemma makeTxs_count:
  assumes "form_sync bs_txSendingBatch w (f, s) m" and "length (bs_wallets s) = w" and "w < 2 ^ 32" and "bs_activeWallet s \<noteq> None"
  shows "\<not> bs_randomWallet s \<Longrightarrow> \<exists>txs. makeTxs env s = Inr txs" and "makeTxs env s = Inr txs \<Longrightarrow> length txs = m"
proof -
  obtain a where a: "bs_activeWallet s = Some a" using assms(4) by blast
  have m: "m \<le> length (bs_wallets s)" "m < 2 ^ 32" "bs_txSendingBatch s = Some (int m)" using assms(1-3) by (auto simp: form_sync_def)
  note chosen = makeTxs_active [OF _ a m(3,1,2), of env]
  then show "\<not> bs_randomWallet s \<Longrightarrow> \<exists>txs. makeTxs env s = Inr txs" by blast
  show "length txs = m" if "makeTxs env s = Inr txs"
  proof (cases "bs_randomWallet s")
    case True
    then have "length txs = length (enumerate 0 (take m (bs_wallets s)))"
      using that sum_map_length by (fastforce simp: makeTxs_def m(3) batchSlice_take)
    then show ?thesis using m(1) by simp
  next
    case False
    then show ?thesis using chosen that by simp
  qed
qed

lemma makeZkApps_count:
  assumes "form_sync bs_zkAppsSendingBatch w (f, s) m" and "length (bs_wallets s) = w" and "w < 2 ^ 32" and "bs_activeWallet s \<noteq> None"
  shows "\<exists>zs. makeZkApps env s = Inr zs \<and> length zs = m"
proof -
  have m: "m \<le> length (bs_wallets s)" "bs_zkAppsSendingBatch s = Some (int m)" "js_Array (Some (int m)) = Inr m"
    using assms(1-3) by (auto simp: form_sync_def js_Array_def)
  then show ?thesis using assms(4) by (auto simp: makeZkApps_def batchSlice_take)
qed

text \<open>C18. The size of a batch. From the answer with two wallets or more on, whatever positive numbers are typed and deleted, however often
  the user switches between random senders and a chosen one and chooses senders: the size in the store stays between one and the
  number of wallets, and the form shows it or is empty. For a chosen sender the batch is made, and every batch that is
  made, for random senders too, has exactly that many payments. The same holds of the toolbar of the zkApps, whose batch
  is always made.\<close>

theorem benchmarks_batch_form:
  assumes "benchmarksReducer env benchmarksInitialState (BENCHMARKS_WALLETS_GET_WALLETS_SUCCESS accounts) = Inr s0"
    and "2 \<le> length accounts" and "length accounts < 2 ^ 32" and "list_all positive_event evs"
  shows "(\<exists>f s m. foldl (toolbar_step env (transactions_batch env)) (toolbar_opened bs_txSendingBatch s0) evs = (f, s) \<and>
      form_sync bs_txSendingBatch (length accounts) (f, s) m \<and> (\<not> bs_randomWallet s \<longrightarrow> (\<exists>txs. makeTxs env s = Inr txs)) \<and>
      (\<forall>txs. makeTxs env s = Inr txs \<longrightarrow> length txs = m)) \<and>
    (\<exists>g s k. foldl (toolbar_step env (zkapps_batch env)) (toolbar_opened bs_zkAppsSendingBatch s0) evs = (g, s) \<and>
      form_sync bs_zkAppsSendingBatch (length accounts) (g, s) k \<and> (\<exists>zs. makeZkApps env s = Inr zs \<and> length zs = k))"
proof
  let ?w = "length accounts"
  have "toolbar_inv bs_txSendingBatch ?w (foldl (toolbar_step env (transactions_batch env)) (toolbar_opened bs_txSendingBatch s0) evs)"
  proof (rule toolbar_inv_run [OF _ _ toolbar_inv_opened(1) [OF assms(1,2)] assms(4)])
    show "toolbar_inv bs_txSendingBatch ?w (transactions_batch env fs typed)" if "toolbar_inv bs_txSendingBatch ?w fs" "positive_input typed" for fs typed
      unfolding transactions_batch_def using transactions_toolbar.toolbar_inv_typed [OF that(1) assms(2) that(2)] .
  qed simp
  then obtain f s where r: "foldl (toolbar_step env (transactions_batch env)) (toolbar_opened bs_txSendingBatch s0) evs = (f, s)"
    "toolbar_inv bs_txSendingBatch ?w (f, s)" by (metis surj_pair)
  then obtain m where m: "form_sync bs_txSendingBatch ?w (f, s) m" "length (bs_wallets s) = ?w" "bs_activeWallet s \<noteq> None"
    by (auto simp: toolbar_inv_def)
  from makeTxs_count [OF m(1,2) assms(3) m(3)] r(1) m(1)
  show "\<exists>f s m. foldl (toolbar_step env (transactions_batch env)) (toolbar_opened bs_txSendingBatch s0) evs = (f, s) \<and>
      form_sync bs_txSendingBatch ?w (f, s) m \<and> (\<not> bs_randomWallet s \<longrightarrow> (\<exists>txs. makeTxs env s = Inr txs)) \<and>
      (\<forall>txs. makeTxs env s = Inr txs \<longrightarrow> length txs = m)" by blast
next
  let ?w = "length accounts"
  have "toolbar_inv bs_zkAppsSendingBatch ?w (foldl (toolbar_step env (zkapps_batch env)) (toolbar_opened bs_zkAppsSendingBatch s0) evs)"
  proof (rule toolbar_inv_run [OF _ _ toolbar_inv_opened(2) [OF assms(1,2)] assms(4)])
    show "toolbar_inv bs_zkAppsSendingBatch ?w (zkapps_batch env fs typed)" if "toolbar_inv bs_zkAppsSendingBatch ?w fs" "positive_input typed" for fs typed
      unfolding zkapps_batch_def using zkapps_toolbar.toolbar_inv_typed [OF that(1) assms(2) that(2)] .
  qed simp
  then obtain g s where r: "foldl (toolbar_step env (zkapps_batch env)) (toolbar_opened bs_zkAppsSendingBatch s0) evs = (g, s)"
    "toolbar_inv bs_zkAppsSendingBatch ?w (g, s)" by (metis surj_pair)
  then obtain k where k: "form_sync bs_zkAppsSendingBatch ?w (g, s) k" "length (bs_wallets s) = ?w" "bs_activeWallet s \<noteq> None"
    by (auto simp: toolbar_inv_def)
  from makeZkApps_count [OF k(1,2) assms(3) k(3)] r(1) k(1)
  show "\<exists>g s k. foldl (toolbar_step env (zkapps_batch env)) (toolbar_opened bs_zkAppsSendingBatch s0) evs = (g, s) \<and>
      form_sync bs_zkAppsSendingBatch ?w (g, s) k \<and> (\<exists>zs. makeZkApps env s = Inr zs \<and> length zs = k)" by blast
qed

lemma dispatch_random:
  "bs_randomWallet (snd (dispatch_batch env BENCHMARKS_WALLETS_CHANGE_TRANSACTION_BATCH batch_of n fs)) = bs_randomWallet (snd fs)"
  by (cases fs) (simp add: dispatch_batch_def)

lemma batch_value_random:
  "bs_randomWallet (snd (batch_value env BENCHMARKS_WALLETS_CHANGE_TRANSACTION_BATCH batch_of w rnd v (f, s))) = bs_randomWallet s"
proof (induction "batch_rank w rnd v" arbitrary: v f rule: less_induct)
  case less
  have "bs_randomWallet (snd (batch_value env BENCHMARKS_WALLETS_CHANGE_TRANSACTION_BATCH batch_of w rnd (of_int (batchPayload w rnd v))
      (f\<lparr>bf_seen := Some (Some v), bf_control := Some (of_int (batchPayload w rnd v))\<rparr>, s))) = bs_randomWallet s"
  proof (cases "of_int (batchPayload w rnd v) = v")
    case True
    then show ?thesis by (simp add: batch_value.simps)
  qed (use less batch_rank_less in blast)
  then show ?case by (subst batch_value.simps) (simp add: Let_def dispatch_random case_prod_beta)
qed

lemma typed_random: "bs_randomWallet (snd (transactions_batch env fs typed)) = bs_randomWallet (snd fs)"
  by (cases fs) (simp add: transactions_batch_def batch_input_def batch_value_random split: option.split)

definition toolbar_accounts :: "AccountPick list" where
  "toolbar_accounts = map (\<lambda>key. \<lparr>pk_publicKey = key, pk_privateKey = None, pk_minaTokens = 5, pk_nonce = 0\<rparr>) [''a'', ''b'', ''c'']"

theorem benchmarks_batch_form_witness:
  "\<exists>s0 f s m txs. benchmarksReducer sample_env benchmarksInitialState (BENCHMARKS_WALLETS_GET_WALLETS_SUCCESS toolbar_accounts) = Inr s0 \<and>
    foldl (toolbar_step sample_env (transactions_batch sample_env)) (toolbar_opened bs_txSendingBatch s0)
      [Typed (Some 9), Toggle_random, Typed None, Typed (Some (3 / 2))] = (f, s) \<and>
    \<not> bs_randomWallet s \<and> form_sync bs_txSendingBatch 3 (f, s) m \<and> makeTxs sample_env s = Inr txs \<and> length txs = m"
proof -
  let ?evs = "[Typed (Some 9), Toggle_random, Typed None, Typed (Some (3 / 2))]"
  obtain s0 where s0: "benchmarksReducer sample_env benchmarksInitialState (BENCHMARKS_WALLETS_GET_WALLETS_SUCCESS toolbar_accounts) = Inr s0"
    "bs_randomWallet s0" "length (bs_wallets s0) = 3" "bs_txSendingBatch s0 = Some 3"
    by (simp add: toolbar_accounts_def benchmarksInitialState_def Let_def)
  have evs: "list_all positive_event ?evs" by (simp add: positive_event_def positive_input_def)
  have len: "length toolbar_accounts = 3" by (simp add: toolbar_accounts_def)
  obtain f s m where r: "foldl (toolbar_step sample_env (transactions_batch sample_env)) (toolbar_opened bs_txSendingBatch s0) ?evs = (f, s)"
    "form_sync bs_txSendingBatch 3 (f, s) m" "\<not> bs_randomWallet s \<longrightarrow> (\<exists>txs. makeTxs sample_env s = Inr txs)"
    "\<forall>txs. makeTxs sample_env s = Inr txs \<longrightarrow> length txs = m"
    using conjunct1 [OF benchmarks_batch_form [OF s0(1) _ _ evs]] unfolding len by fastforce
  have "\<not> bs_randomWallet s"
    using arg_cong [OF r(1), of "\<lambda>fs. bs_randomWallet (snd fs)"] s0(2)
    by (simp add: toolbar_step_def toolbar_dispatch_def toolbar_opened_def typed_random case_prod_beta)
  with r s0(1) show ?thesis by blast
qed

text \<open>A negative number is not corrected: for a chosen sender the batch then throws, and for random senders it leaves out that many of
  the last wallets.\<close>

lemma negative_batch:
  assumes "v \<le> - 1" and "bf_currentBatch f = bs_txSendingBatch s" and "bf_seen f \<noteq> Some (Some v)"
  shows "\<exists>f' s'. transactions_batch env (f, s) (Some v) = (f', s') \<and> bs_txSendingBatch s' = Some \<lceil>v\<rceil> \<and>
    (\<not> bs_randomWallet s \<longrightarrow> bs_activeWallet s \<noteq> None \<longrightarrow> makeTxs env s' = Inl (Error ''RangeError''))"
proof -
  have neg: "\<lceil>v\<rceil> < 0" using assms(1) by (simp add: ceiling_less_iff)
  have p: "batchPayload (length (bs_wallets s)) (bs_randomWallet s) v = \<lceil>v\<rceil>"
  proof -
    have "\<not> \<lceil>v\<rceil> > int (length (bs_wallets s))" using neg by linarith
    then show ?thesis using assms(1) by (simp only: batchPayload_def Let_def if_False) simp
  qed
  obtain f' s' where r: "transactions_batch env (f, s) (Some v) = (f', s')" "bs_txSendingBatch s' = Some \<lceil>v\<rceil>"
    "bs_randomWallet s' = bs_randomWallet s" "bs_activeWallet s' = bs_activeWallet s"
    using transactions_toolbar.batch_value_result [of "f\<lparr>bf_control := Some v\<rparr>" s v env "length (bs_wallets s)" "bs_randomWallet s"] assms(2,3)
    by (auto simp: transactions_batch_def batch_input_def p)
  have "js_Array (Some \<lceil>v\<rceil>) = Inl (Error ''RangeError'')" using neg by (simp add: js_Array_def)
  then have "makeTxs env s' = Inl (Error ''RangeError'')" if "\<not> bs_randomWallet s" "bs_activeWallet s \<noteq> None"
    using r that by (auto simp: makeTxs_def)
  with r(1,2) show ?thesis by blast
qed

text \<open>For a chosen sender a number above the number of wallets gives one wallet less than that number itself.\<close>

lemma batch_cap_jumps:
  "batchPayload w False (of_nat w) = int w \<or> w = 0" and "batchPayload w False (of_nat w + 1) = int w - 1"
proof -
  show "batchPayload w False (of_nat w) = int w \<or> w = 0" by (simp add: batchPayload_def)
  have "(of_nat w + 1 :: rat) \<noteq> 0" by (metis of_nat_Suc of_nat_neq_0 add.commute)
  moreover have "\<lceil>of_nat w + 1 :: rat\<rceil> = int w + 1" by simp
  ultimately show "batchPayload w False (of_nat w + 1) = int w - 1" by (simp add: batchPayload_def)
qed

text \<open>With a single wallet and a chosen sender, a large number is stored as zero, and the number one can not be entered after it: the
  correction has passed through it.\<close>

lemma single_wallet_lost:
  assumes "length (bs_wallets s) = 1" and "\<not> bs_randomWallet s" and "bf_currentBatch f = bs_txSendingBatch s" and "bf_seen f = None"
  shows "bs_txSendingBatch (snd (foldl (transactions_batch env) (f, s) [Some 5, Some 1])) = Some 0"
proof -
  have p: "batchPayload (Suc 0) False 5 = 0" "batchPayload (Suc 0) False 0 = 1" "batchPayload (Suc 0) False 1 = 1"
    by (simp_all add: batchPayload_def)
  show ?thesis
    using assms
    by (simp add: transactions_batch_def batch_input_def batch_value.simps p dispatch_batch_def listenToBatchChange_def Let_def)
qed

section \<open>Fees and amounts\<close>

definition number_sync :: "number_form \<times> rat \<Rightarrow> bool" where
  "number_sync fs \<longleftrightarrow> 0 \<le> snd fs \<and> fo_seen (fst fs) \<in> {None, Some None, Some (Some (snd fs))} \<and> fo_control (fst fs) \<in> {None, Some (snd fs)}"

lemma number_input_abs:
  assumes "number_sync (f, stored)"
  shows "number_sync (number_input (f, stored) typed) \<and> snd (number_input (f, stored) typed) = (case typed of None \<Rightarrow> stored | Some v \<Rightarrow> \<bar>v\<bar>)"
proof (cases typed)
  case (Some v)
  show ?thesis
  proof (cases "v < 0")
    case True
    with assms Some show ?thesis by (auto simp: number_input_def number_sync_def number_value.simps)
  next
    case False
    with assms Some show ?thesis by (auto simp: number_input_def number_sync_def number_value.simps)
  qed
qed (use assms in \<open>auto simp: number_input_def number_sync_def\<close>)

text \<open>After any inputs the stored fee is the absolute value of the last number typed, and the form shows it or is empty.\<close>

lemma number_inputs:
  assumes "number_sync (f, stored)"
  shows "number_sync (foldl number_input (f, stored) inputs) \<and>
    snd (foldl number_input (f, stored) inputs) = last (stored # concat (map (\<lambda>t. case t of None \<Rightarrow> [] | Some v \<Rightarrow> [\<bar>v\<bar>]) inputs))"
  using assms
proof (induction inputs arbitrary: f stored)
  case (Cons typed inputs)
  obtain f1 s1 where one: "number_input (f, stored) typed = (f1, s1)" by fastforce
  with number_input_abs [OF Cons.prems, of typed] Cons.IH [of f1 s1] show ?case
    by (cases typed) auto
qed simp

lemma send_blocked: "selectBenchmarksBlockSending s \<longleftrightarrow> transactions_send s = []"
  by (simp add: transactions_send_def toolbar_send_def)

end
