(* ===== verification/Slot_Panel.thy ===== *)
theory Slot_Panel
  imports Won_Slots
begin

text \<open>
  The side panel of the won slots (\<open>features/block-production/won-slots/side-panel\<close>): the slot that is shown, the countdown to its end,
  which a timer parses every second, and the place in the list of phases where a discarded block is shown.

  The clock is an argument of every step. A comparison with an absent time depends on how it is absent: \<open>undefined\<close> is never
  at most a number, \<open>null\<close> counts as zero.
\<close>

section \<open>Discarded blocks\<close>

text \<open>\<open>a >= b\<close> and \<open>a < b\<close> on numbers, \<open>null\<close> and \<open>undefined\<close>.\<close>

definition js_num :: "rat js \<Rightarrow> rat option" where
  "js_num x = (case x of Val v \<Rightarrow> Some v | Null \<Rightarrow> Some 0 | Undefined \<Rightarrow> None)"

definition js_ge :: "rat js \<Rightarrow> rat js \<Rightarrow> bool" where
  "js_ge a b \<longleftrightarrow> (case (js_num a, js_num b) of (Some x, Some y) \<Rightarrow> x \<ge> y | _ \<Rightarrow> False)"

definition js_less :: "rat js \<Rightarrow> rat js \<Rightarrow> bool" where
  "js_less a b \<longleftrightarrow> (case (js_num a, js_num b) of (Some x, Some y) \<Rightarrow> x < y | _ \<Rightarrow> False)"

text \<open>\<open>absent\<close> is how an absent time comes from the node. The service turns an absent time of discarding into \<open>null\<close>.\<close>

definition time_value :: "rat js \<Rightarrow> int option \<Rightarrow> rat js" where
  "time_value absent t = (case t of None \<Rightarrow> absent | Some v \<Rightarrow> Val (of_int v))"

definition createDiscardedView :: "rat js \<Rightarrow> BlockProductionWonSlotsSlot \<Rightarrow> js_error + string option" where
  "createDiscardedView absent slot =
     (case ws_discardReason slot of
        None \<Rightarrow> Inr None
      | Some reason \<Rightarrow>
          if reason = [] then Inr None
          else case ws_times slot of
              None \<Rightarrow> Inl TypeError
            | Some ts \<Rightarrow>
                (let discarded = (case wt_discarded ts of None \<Rightarrow> Null | Some v \<Rightarrow> Val v);
                     ledgerEnd = time_value absent (wt_stagedLedgerDiffCreateEnd ts);
                     l1 = (if js_less discarded ledgerEnd then Some ''beforeLedger''
                           else if js_ge discarded ledgerEnd then Some ''ledger'' else None);
                     l2 = (if js_ge discarded (time_value absent (wt_producedEnd ts)) then Some ''produced'' else l1);
                     l3 = (if js_ge discarded (time_value absent (wt_proofCreateEnd ts)) then Some ''proof'' else l2)
                 in Inr (if js_ge discarded (time_value absent (wt_blockApplyEnd ts)) then Some ''apply'' else l3)))"

section \<open>The panel\<close>

record slot_panel =
  sp_slot :: "BlockProductionWonSlotsSlot option"
  sp_percentage :: nat
  sp_slotStartedAlready :: bool
  sp_stopTimer :: bool
  sp_stateWhenReachedZero :: "(nat \<times> BlockProductionWonSlotsStatus option) option"
  sp_remainingTime :: "string option"
  sp_vrfText :: string
  sp_title :: string
  sp_scheduled :: string
  sp_vrf :: "rat list"
  sp_discardedAt :: "string option"

definition slot_panel_initial :: slot_panel where
  "slot_panel_initial = \<lparr>sp_slot = None, sp_percentage = 0, sp_slotStartedAlready = False, sp_stopTimer = False,
     sp_stateWhenReachedZero = None, sp_remainingTime = None, sp_vrfText = [], sp_title = [],
     sp_scheduled = [], sp_vrf = [0, 0], sp_discardedAt = None\<rparr>"

definition addMinutesToTimestamp :: "int \<Rightarrow> int \<Rightarrow> int" where
  "addMinutesToTimestamp timestampInMilliseconds minutesToAdd = timestampInMilliseconds + minutesToAdd * 1000 * 60"

definition panel_parse :: "int \<Rightarrow> slot_panel \<Rightarrow> slot_panel" where
  "panel_parse now p = (case sp_slot p of
      Some slot \<Rightarrow>
        if \<not> sp_stopTimer p
        then let remaining = td_diff (getTimeDiff now (Some (addMinutesToTimestamp (ws_slotTime slot) 3))
                   \<lparr>withSecs = True, only1unit = False, fromTime = None\<rparr>)
             in if remaining = Some ''0s''
                then p\<lparr>sp_stopTimer := True, sp_stateWhenReachedZero := Some (ws_globalSlot slot, ws_status slot),
                  sp_remainingTime := Some ''-''\<rparr>
                else p\<lparr>sp_remainingTime := remaining\<rparr>
        else p\<lparr>sp_remainingTime := Some ''-''\<rparr>
    | None \<Rightarrow> p\<lparr>sp_remainingTime := Some ''-''\<rparr>)"

definition panel_percentage :: "BlockProductionWonSlotsSlot \<Rightarrow> nat" where
  "panel_percentage slot = length (filter (\<lambda>t. t \<noteq> None)
     (case ws_times slot of
        None \<Rightarrow> [None, None, None, None, None]
      | Some t \<Rightarrow> [wt_stagedLedgerDiffCreate t, wt_produced t, wt_proofCreate t, wt_blockApply t, wt_committed t])) * 20"

definition getVrfText :: "BlockProductionWonSlotsSlot \<Rightarrow> string" where
  "getVrfText slot = (if ws_active slot then ''Won Slot Requirement'' else ''Block Produce Right'')"

text \<open>\<open>absent\<close> is as above and \<open>toReadableDate\<close> of the shared package is a parameter. The places of the phases are cleared before an
  exception of \<open>createDiscardedView\<close>, which is the last step that changes the panel.\<close>

definition panel_listenToActiveSlot :: "rat js \<Rightarrow> (int \<Rightarrow> string) \<Rightarrow> int \<Rightarrow> BlockProductionWonSlotsSlot option \<Rightarrow> slot_panel \<Rightarrow> slot_panel" where
  "panel_listenToActiveSlot absent toReadableDate now active p = (case active of
      None \<Rightarrow> p
    | Some slot \<Rightarrow>
        (let p1 = p\<lparr>sp_slot := Some slot, sp_title := ws_message slot, sp_percentage := panel_percentage slot,
               sp_scheduled := toReadableDate (ws_slotTime slot), sp_slotStartedAlready := ws_slotTime slot < now\<rparr>;
             p2 = (if (case sp_stateWhenReachedZero p of
                        None \<Rightarrow> True | Some (g, st) \<Rightarrow> g = ws_globalSlot slot \<and> st \<noteq> ws_status slot)
                   then p1\<lparr>sp_stopTimer := \<not> ws_active slot, sp_stateWhenReachedZero := None\<rparr> else p1)
         in (panel_parse now p2)\<lparr>sp_vrfText := getVrfText slot, sp_vrf := ws_vrfValueWithThreshold slot,
              sp_discardedAt := (case createDiscardedView absent slot of Inl _ \<Rightarrow> None | Inr place \<Rightarrow> place)\<rparr>))"

datatype panel_event = Tick int | ActiveSlot int "BlockProductionWonSlotsSlot option"

definition panel_step :: "rat js \<Rightarrow> (int \<Rightarrow> string) \<Rightarrow> slot_panel \<Rightarrow> panel_event \<Rightarrow> slot_panel" where
  "panel_step absent readable p ev = (case ev of Tick now \<Rightarrow> panel_parse now p | ActiveSlot now s \<Rightarrow> panel_listenToActiveSlot absent readable now s p)"

section \<open>The end of the countdown\<close>

lemma js_trim_keeps: "c \<in> set s \<Longrightarrow> \<not> js_space c \<Longrightarrow> c \<in> set (js_trim s)"
proof -
  have dw: "c \<in> set (dropWhile js_space xs)" if "c \<in> set xs" "\<not> js_space c" for xs using that by (induction xs) auto
  assume "c \<in> set s" "\<not> js_space c"
  then show ?thesis using dw [OF _ \<open>\<not> js_space c\<close>] by (simp add: js_trim_def)
qed

text \<open>With seconds, the text of a distance is \<open>0s\<close> exactly below one second.\<close>

lemma allUnits_zero: "js_trim (allUnits True t) = ''0s'' \<longleftrightarrow> t < 1000"
proof (cases "diffDays t = 0 \<and> diffHours t = 0 \<and> diffMinutes t = 0")
  case True
  have shown: "js_trim (allUnits True t) = dec (diffSeconds t) @ ''s''"
    using True js_trim_snoc [of "dec (diffSeconds t) @ ''s''"] by (simp add: allUnits_def Let_def hd_append)
  have "t = t mod 86400000 mod 3600000 mod 60000" using diff_parts [of t] True by simp
  then have secs: "diffSeconds t = t div 1000" by (simp add: diffSeconds_def)
  have zero: "dec 0 = ''0''" by code_simp
  have "dec n @ ''s'' = ''0s'' \<longleftrightarrow> n = 0" for n
  proof -
    have "dec n @ ''s'' = ''0s'' \<longleftrightarrow> dec n = dec 0" by (simp add: zero)
    also have "\<dots> \<longleftrightarrow> n = 0" using to_radix_inject [of 10 n 0] by auto
    finally show ?thesis .
  qed
  then show ?thesis by (simp add: shown secs div_eq_0_iff)
next
  case False
  define c where "c = (if diffDays t \<noteq> 0 then CHR ''d'' else if diffHours t \<noteq> 0 then CHR ''h'' else CHR ''m'')"
  have "c \<in> set (allUnits True t)" using False by (auto simp: allUnits_def Let_def c_def)
  moreover have "\<not> js_space c" by (simp add: c_def)
  ultimately have "c \<in> set (js_trim (allUnits True t))" by (rule js_trim_keeps)
  moreover have "c \<notin> set ''0s''" by (simp add: c_def)
  ultimately have "js_trim (allUnits True t) \<noteq> ''0s''" by metis
  moreover have "\<not> t < 1000" using False by (auto simp: diffDays_def diffHours_def diffMinutes_def)
  ultimately show ?thesis by simp
qed

lemma getTimeDiff_zero:
  assumes "t \<noteq> 0" and "length (show_int t) \<noteq> 10"
  shows "td_diff (getTimeDiff now (Some t) \<lparr>withSecs = True, only1unit = False, fromTime = None\<rparr>) = Some ''0s'' \<longleftrightarrow> \<bar>t - now\<bar> < 1000"
  using assms by (auto simp: getTimeDiff_def Let_def allUnits_zero)

text \<open>Once the countdown of a slot has reached zero, the timer stays stopped and the panel shows no time, whatever slots are chosen and
  whatever time passes, until that very slot comes with another status. The countdowns of other slots do not run.\<close>

definition other_event :: "nat \<Rightarrow> BlockProductionWonSlotsStatus option \<Rightarrow> panel_event \<Rightarrow> bool" where
  "other_event g st ev \<longleftrightarrow> (case ev of ActiveSlot _ (Some slot) \<Rightarrow> ws_globalSlot slot \<noteq> g \<or> ws_status slot = st | _ \<Rightarrow> True)"

definition panel_stopped :: "nat \<Rightarrow> BlockProductionWonSlotsStatus option \<Rightarrow> slot_panel \<Rightarrow> bool" where
  "panel_stopped g st p \<longleftrightarrow> sp_stopTimer p \<and> sp_stateWhenReachedZero p = Some (g, st) \<and> sp_remainingTime p = Some ''-''"

lemma panel_stopped_step: "panel_stopped g st p \<Longrightarrow> other_event g st ev \<Longrightarrow> panel_stopped g st (panel_step absent readable p ev)"
  by (auto simp: panel_stopped_def other_event_def panel_step_def panel_parse_def panel_listenToActiveSlot_def Let_def
    split: panel_event.splits option.splits)

lemma panel_stopped_run: "panel_stopped g st p \<Longrightarrow> list_all (other_event g st) evs \<Longrightarrow> panel_stopped g st (foldl (panel_step absent readable) p evs)"
  by (induction evs arbitrary: p) (auto intro: panel_stopped_step)

text \<open>The first tick within a second of the end of an active slot stops the timer.\<close>

lemma panel_reaches_zero:
  assumes "sp_slot p = Some slot" and "\<not> sp_stopTimer p" and "t = addMinutesToTimestamp (ws_slotTime slot) 3" and "t \<noteq> 0"
    and "length (show_int t) \<noteq> 10"
  shows "if \<bar>t - now\<bar> < 1000 then panel_stopped (ws_globalSlot slot) (ws_status slot) (panel_step absent readable p (Tick now))
    else \<not> sp_stopTimer (panel_step absent readable p (Tick now)) \<and> sp_slot (panel_step absent readable p (Tick now)) = Some slot"
proof -
  have "td_diff (getTimeDiff now (Some (addMinutesToTimestamp (ws_slotTime slot) 3)) \<lparr>withSecs = True, only1unit = False, fromTime = None\<rparr>)
      = Some ''0s'' \<longleftrightarrow> \<bar>t - now\<bar> < 1000"
    using getTimeDiff_zero [OF assms(4,5), of now] by (simp only: assms(3))
  then show ?thesis using assms(1,2)
    by (simp add: panel_step_def panel_parse_def panel_stopped_def Let_def del: not_less)
qed

text \<open>With a slot of its own, the panel starts the countdown of every active slot until one has reached zero.\<close>

lemma panel_starts:
  "sp_stateWhenReachedZero p = None \<Longrightarrow> ws_active slot \<Longrightarrow> ws_slotTime slot > 10000000000 \<Longrightarrow> ws_slotTime slot < now \<Longrightarrow>
   now < ws_slotTime slot + 179000 \<Longrightarrow> length (show_int (addMinutesToTimestamp (ws_slotTime slot) 3)) \<noteq> 10 \<Longrightarrow>
   \<not> sp_stopTimer (panel_step absent readable p (ActiveSlot now (Some slot)))"
proof -
  assume a: "sp_stateWhenReachedZero p = None" "ws_active slot" "ws_slotTime slot > 10000000000" "ws_slotTime slot < now"
    "now < ws_slotTime slot + 179000" "length (show_int (addMinutesToTimestamp (ws_slotTime slot) 3)) \<noteq> 10"
  let ?t = "addMinutesToTimestamp (ws_slotTime slot) 3"
  have t: "?t \<noteq> 0" "\<not> \<bar>?t - now\<bar> < 1000" using a(3-5) by (auto simp: addMinutesToTimestamp_def)
  have "td_diff (getTimeDiff now (Some ?t) \<lparr>withSecs = True, only1unit = False, fromTime = None\<rparr>) \<noteq> Some ''0s''"
    using getTimeDiff_zero [OF t(1) a(6), of now] t(2) by blast
  then show ?thesis using a(1,2) by (simp add: panel_step_def panel_listenToActiveSlot_def panel_parse_def Let_def)
qed

section \<open>Where a discarded block is shown\<close>

lemma percentage_bounds: "panel_percentage slot \<le> 100 \<and> panel_percentage slot mod 20 = 0"
  by (auto simp: panel_percentage_def split: option.splits)

text \<open>A time that is absent as \<open>null\<close> counts as reached: a block that was never applied is shown as discarded after the application.\<close>

lemma discarded_null:
  assumes "ws_discardReason slot = Some reason" and "reason \<noteq> []" and "ws_times slot = Some ts" and "wt_discarded ts = Some v" and "0 \<le> v"
    and "wt_blockApplyEnd ts = None"
  shows "createDiscardedView Null slot = Inr (Some ''apply'')"
  using assms by (simp add: createDiscardedView_def Let_def js_ge_def js_num_def time_value_def)

text \<open>A time that is absent as \<open>undefined\<close> is not reached: a block that is discarded before it was produced is shown there.\<close>

lemma discarded_undefined:
  assumes "ws_discardReason slot = Some reason" and "reason \<noteq> []" and "ws_times slot = Some ts" and "wt_discarded ts = Some v"
    and "wt_stagedLedgerDiffCreateEnd ts = Some l" and "of_int l \<le> v"
    and "wt_producedEnd ts = None" and "wt_proofCreateEnd ts = None" and "wt_blockApplyEnd ts = None"
  shows "createDiscardedView Undefined slot = Inr (Some ''ledger'')"
  using assms by (simp add: createDiscardedView_def Let_def js_ge_def js_less_def js_num_def time_value_def)

text \<open>When all times are there, the place is that of the last phase that ended before.\<close>

lemma discarded_place:
  assumes "ws_discardReason slot = Some reason" and "reason \<noteq> []" and "ws_times slot = Some ts" and "wt_discarded ts = Some v"
    and "wt_stagedLedgerDiffCreateEnd ts = Some a" and "wt_producedEnd ts = Some b" and "wt_proofCreateEnd ts = Some c"
    and "wt_blockApplyEnd ts = Some d" and "a \<le> b" and "b \<le> c" and "c \<le> d"
  shows "createDiscardedView absent slot = Inr (Some ([''beforeLedger'', ''ledger'', ''produced'', ''proof'', ''apply''] !
    length (filter (\<lambda>e. of_int e \<le> v) [a, b, c, d])))"
proof -
  have mono: "of_int y \<le> v \<Longrightarrow> x \<le> y \<Longrightarrow> of_int x \<le> v" for x y :: int
    using order_trans [of "of_int x :: rat" "of_int y" v] by simp
  show ?thesis using assms mono [of b a] mono [of c b] mono [of d c]
    by (auto simp: createDiscardedView_def Let_def js_ge_def js_less_def js_num_def time_value_def not_less not_le)
qed

end
