(* ===== verification/Slot_Cards.thy ===== *)
theory Slot_Cards
  imports Won_Slots
begin

text \<open>
  The cards above the won slots (\<open>features/block-production/won-slots/cards\<close>): the next slot, how many slots are used and accepted, the
  progress of the epoch and the rewards. The text of the time until the end of the epoch is left out; \<open>lastItem\<close> of the shared
  package is a parameter.
\<close>

record slot_cards =
  sc_nextWonSlot :: "string option"
  sc_slot :: "nat option"
  sc_wonSlots :: "nat option"
  sc_slotsUsed :: "nat option"
  sc_acceptedBlocks :: "nat option"
  sc_lastBlockTime :: "string option"
  sc_epochProgress :: string
  sc_publicKey :: "string option"
  sc_totalRewards :: "string option"

definition slot_cards_initial :: slot_cards where
  "slot_cards_initial = \<lparr>sc_nextWonSlot = Some ''-'', sc_slot = None, sc_wonSlots = None, sc_slotsUsed = None, sc_acceptedBlocks = None,
     sc_lastBlockTime = None, sc_epochProgress = ''-'', sc_publicKey = None, sc_totalRewards = None\<rparr>"

definition plain_diff :: "int \<Rightarrow> int option \<Rightarrow> string option" where
  "plain_diff now t = td_diff (getTimeDiff now t \<lparr>withSecs = False, only1unit = False, fromTime = None\<rparr>)"

text \<open>The rewards of a slot; a slot without a block has \<open>undefined\<close> there, and the sum is not a number.\<close>

definition slot_reward :: "BlockProductionWonSlotsSlot \<Rightarrow> js_number" where
  "slot_reward s = (case (ws_coinbaseRewards s, ws_txFeesRewards s) of (Some a, Some b) \<Rightarrow> Finite (a + b) | _ \<Rightarrow> NaN)"

definition num_add :: "js_number \<Rightarrow> js_number \<Rightarrow> js_number" where
  "num_add a b = (case (a, b) of (Finite x, Finite y) \<Rightarrow> Finite (x + y) | _ \<Rightarrow> NaN)"

definition canonical :: "BlockProductionWonSlotsSlot \<Rightarrow> bool" where
  "canonical s \<longleftrightarrow> ws_status s = Some Canonical"

definition slot_used :: "BlockProductionWonSlotsSlot \<Rightarrow> bool" where
  "slot_used s \<longleftrightarrow> ws_status s \<in> {Some Canonical, Some Orphaned, Some Discarded}"

text \<open>\<open>toFixed(0)\<close> of a number that is not negative; \<open>NaN\<close> is shown as zero.\<close>

definition totalRewards :: "BlockProductionWonSlotsSlot list \<Rightarrow> string" where
  "totalRewards slots = (case foldl num_add (Finite 0) (map slot_reward (filter canonical slots)) of
      NaN \<Rightarrow> ''0'' | Finite q \<Rightarrow> dec (nat \<lfloor>q + 1 / 2\<rfloor>))"

definition cards_listenToSlots ::
  "(BlockProductionWonSlotsSlot list \<Rightarrow> BlockProductionWonSlotsSlot option) \<Rightarrow> int \<Rightarrow> BlockProductionWonSlotsSlot list \<Rightarrow> slot_cards \<Rightarrow> slot_cards" where
  "cards_listenToSlots lastItem now slots c =
     (if slots = [] then c
      else let c1 = (case List.find (\<lambda>s. ws_status s = Some Scheduled \<or> ws_status s = None) slots of
                Some next \<Rightarrow> c\<lparr>sc_nextWonSlot := plain_diff now (Some (ws_slotTime next)), sc_slot := Some (ws_globalSlot next)\<rparr>
              | None \<Rightarrow> c\<lparr>sc_nextWonSlot := Some ''Now'', sc_slot := map_option ws_globalSlot (List.find ws_active slots)\<rparr>)
           in c1\<lparr>sc_wonSlots := Some (length slots), sc_slotsUsed := Some (length (filter slot_used slots)),
                sc_acceptedBlocks := Some (length (filter canonical slots)),
                sc_lastBlockTime := plain_diff now (map_option ws_slotTime (lastItem (filter canonical slots))),
                sc_totalRewards := Some (totalRewards slots)\<rparr>)"

text \<open>A whole number of per cent; an epoch without slots has no finite progress.\<close>

definition epochProgress :: "BlockProductionWonSlotsEpoch \<Rightarrow> int option" where
  "epochProgress e = (if we_end e = we_start e then None
     else Some \<lfloor>(of_int (int (we_currentGlobalSlot e) - we_start e) / of_int (we_end e - we_start e) :: rat) * 100\<rfloor>)"

definition cards_listenToEpoch :: "BlockProductionWonSlotsEpoch option \<Rightarrow> slot_cards \<Rightarrow> slot_cards" where
  "cards_listenToEpoch epoch c = (case epoch of
      None \<Rightarrow> c
    | Some e \<Rightarrow> c\<lparr>sc_epochProgress := (case epochProgress e of
          Some p \<Rightarrow> show_int p
        | None \<Rightarrow> if int (we_currentGlobalSlot e) = we_start e then ''NaN''
                  else if int (we_currentGlobalSlot e) > we_start e then ''Infinity'' else ''-Infinity'') @ ''%'',
        sc_publicKey := Some (we_publicKey e)\<rparr>)"

section \<open>What the cards show\<close>

text \<open>The accepted slots are among the used ones, and those among the won ones.\<close>

lemma cards_counts:
  assumes "slots \<noteq> []"
  shows "\<exists>won used accepted. cards_listenToSlots lastItem now slots c =
      (cards_listenToSlots lastItem now slots c)\<lparr>sc_wonSlots := Some won, sc_slotsUsed := Some used, sc_acceptedBlocks := Some accepted\<rparr>
    \<and> accepted \<le> used \<and> used \<le> won \<and> won = length slots"
proof (intro exI conjI)
  have sub: "filter canonical slots = filter canonical (filter slot_used slots)"
    unfolding filter_filter by (rule filter_cong) (auto simp: canonical_def slot_used_def)
  show "length (filter canonical slots) \<le> length (filter slot_used slots)" by (subst sub) (rule length_filter_le)
  show "length (filter slot_used slots) \<le> length slots" by (rule length_filter_le)
qed (use assms in \<open>simp_all add: cards_listenToSlots_def Let_def split: option.splits\<close>)

lemma foldl_num_add:
  "list_all (\<lambda>s. ws_coinbaseRewards s \<noteq> None \<and> ws_txFeesRewards s \<noteq> None) slots \<Longrightarrow>
   foldl num_add (Finite q) (map slot_reward slots) = Finite (q + sum_list (map (\<lambda>s. the (ws_coinbaseRewards s) + the (ws_txFeesRewards s)) slots))"
  by (induction slots arbitrary: q) (auto simp: slot_reward_def num_add_def)

lemma foldl_num_add_NaN: "foldl num_add NaN xs = NaN"
  by (induction xs) (simp_all add: num_add_def)

text \<open>The rewards are the rounded sum over the canonical slots when each has a block; a single one without a block makes it zero.\<close>

lemma totalRewards_sum:
  "list_all (\<lambda>s. ws_coinbaseRewards s \<noteq> None \<and> ws_txFeesRewards s \<noteq> None) (filter canonical slots) \<Longrightarrow>
   totalRewards slots = dec (nat \<lfloor>sum_list (map (\<lambda>s. the (ws_coinbaseRewards s) + the (ws_txFeesRewards s)) (filter canonical slots)) + 1 / 2\<rfloor>)"
  by (simp add: totalRewards_def foldl_num_add)

lemma totalRewards_lost: "s \<in> set slots \<Longrightarrow> canonical s \<Longrightarrow> ws_coinbaseRewards s = None \<Longrightarrow> totalRewards slots = ''0''"
proof -
  assume a: "s \<in> set slots" "canonical s" "ws_coinbaseRewards s = None"
  then have "s \<in> set (filter canonical slots)" by simp
  then obtain as bs where f: "filter canonical slots = as @ s # bs" by (meson split_list)
  have "num_add x (slot_reward s) = NaN" for x using a(3) by (cases x) (simp_all add: num_add_def slot_reward_def)
  then show ?thesis by (simp add: totalRewards_def f foldl_num_add_NaN)
qed

text \<open>Within an epoch the progress is between 0 and 100, and it is 100 only at the end.\<close>

lemma epochProgress_bounds:
  assumes "we_start e \<le> int (we_currentGlobalSlot e)" and "int (we_currentGlobalSlot e) \<le> we_end e" and "we_start e < we_end e"
  shows "\<exists>p. epochProgress e = Some p \<and> 0 \<le> p \<and> p \<le> 100 \<and> (p = 100 \<longleftrightarrow> int (we_currentGlobalSlot e) = we_end e)"
proof -
  define a b where "a = int (we_currentGlobalSlot e) - we_start e" and "b = we_end e - we_start e"
  have ab: "0 \<le> a" "a \<le> b" "0 < b" using assms by (auto simp: a_def b_def)
  define q :: rat where "q = of_int a / of_int b * 100"
  have "0 \<le> q" using ab by (simp add: q_def)
  moreover have "q \<le> 100" "q \<ge> 100 \<longleftrightarrow> a = b" using ab by (auto simp: q_def field_simps)
  ultimately have "0 \<le> \<lfloor>q\<rfloor> \<and> \<lfloor>q\<rfloor> \<le> 100 \<and> (\<lfloor>q\<rfloor> = 100 \<longleftrightarrow> a = b)" by (auto simp: floor_eq_iff)
  moreover have "epochProgress e = Some \<lfloor>q\<rfloor>" using assms(3) by (simp add: epochProgress_def q_def a_def b_def)
  moreover have "a = b \<longleftrightarrow> int (we_currentGlobalSlot e) = we_end e" by (simp add: a_def b_def)
  ultimately show ?thesis by simp
qed

text \<open>When no slot is scheduled the next slot is \<open>Now\<close>, also when no slot is active.\<close>

lemma cards_now:
  assumes "slots \<noteq> []" and "list_all (\<lambda>s. ws_status s \<noteq> None \<and> ws_status s \<noteq> Some Scheduled \<and> \<not> ws_active s) slots"
  shows "sc_nextWonSlot (cards_listenToSlots lastItem now slots c) = Some ''Now'' \<and> sc_slot (cards_listenToSlots lastItem now slots c) = None"
proof -
  have "List.find (\<lambda>s. ws_status s = Some Scheduled \<or> ws_status s = None) slots = None" "List.find ws_active slots = None"
    using assms(2) by (auto simp: find_None_iff list_all_iff)
  then show ?thesis using assms(1) by (simp add: cards_listenToSlots_def Let_def)
qed

end
