(* ===== verification/Dht_Line.thy ===== *)
theory Dht_Line
  imports Node_Dht
begin

text \<open>
  The line of the node DHT page (\<open>features/network/node-dht/network-node-dht-line\<close>): the peers and the buckets on the key space, placed by
  their distances. The largest distance is found by comparing hexadecimal strings as strings.
\<close>

section \<open>The line\<close>

record DhtPoint =
  pt_left :: "rat option"
  pt_isBucket :: bool
  pt_isOrigin :: bool
  pt_peerId :: string
  pt_originalLeft :: "rat option"
  pt_connection :: "string option"

record dht_line =
  dl_points :: "DhtPoint list"
  dl_bucketPoints :: "DhtPoint list"
  dl_line_buckets :: "NetworkNodeDhtBucket list"
  dl_thisKey :: string
  dl_peers :: "NetworkNodeDhtPeer list"
  dl_lastKnownWidth :: rat
  dl_line_openSidePanel :: bool
  dl_line_activePeer :: "NetworkNodeDhtPeer option"

definition dht_line_initial :: "rat \<Rightarrow> dht_line" where
  "dht_line_initial offsetWidth = \<lparr>dl_points = [], dl_bucketPoints = [], dl_line_buckets = [], dl_thisKey = [], dl_peers = [],
     dl_lastKnownWidth = offsetWidth, dl_line_openSidePanel = False, dl_line_activePeer = None\<rparr>"

text \<open>\<open>a > b\<close> on strings: by the first code unit that differs; a proper prefix is smaller.\<close>

fun js_string_gt :: "string \<Rightarrow> string \<Rightarrow> bool" where
  "js_string_gt [] bs = False"
| "js_string_gt (a # as) [] = True"
| "js_string_gt (a # as) (b # bs) =
     (if a = b then js_string_gt as bs else (of_char a :: nat) > of_char b)"

definition getMaxOfHex :: "NetworkNodeDhtBucket list \<Rightarrow> string" where
  "getMaxOfHex buckets =
     foldl (\<lambda>maxHex bucket. if js_string_gt maxHex (bkt_bucketMaxHex bucket) then maxHex else bkt_bucketMaxHex bucket) ''0'' buckets"

definition hex_BigInt :: "string \<Rightarrow> js_error + nat" where
  "hex_BigInt s = (if s \<noteq> [] \<and> list_all hex_char s then Inr (of_radix 16 s) else Inl (Error ''SyntaxError''))"

text \<open>The share of the key space in per cent; dividing by zero gives no finite number (\<open>None\<close>).\<close>

definition share :: "nat \<Rightarrow> nat \<Rightarrow> rat option" where
  "share whole d = (if whole = 0 then None else Some (of_nat d / of_nat whole * 100))"

definition leftInContainer :: "rat \<Rightarrow> DhtPoint \<Rightarrow> DhtPoint" where
  "leftInContainer offsetWidth p = p\<lparr>pt_left := map_option (\<lambda>original. original / 100 * (offsetWidth - 16)) (pt_originalLeft p)\<rparr>"

definition bucketPoint :: "nat \<Rightarrow> NetworkNodeDhtBucket \<Rightarrow> js_error + DhtPoint" where
  "bucketPoint whole bucket = map_sum id (\<lambda>k. \<lparr>pt_left = share whole k, pt_isBucket = True, pt_isOrigin = False, pt_peerId = [],
     pt_originalLeft = None, pt_connection = None\<rparr>) (hex_BigInt (bkt_bucketMaxHex bucket))"

definition peerPoint :: "nat \<Rightarrow> string \<Rightarrow> NetworkNodeDhtPeer \<Rightarrow> js_error + DhtPoint" where
  "peerPoint whole thisKey peer = map_sum id (\<lambda>k. \<lparr>pt_left = None, pt_isBucket = False, pt_isOrigin = dht_key peer = thisKey,
     pt_peerId = dht_peerId peer, pt_originalLeft = share whole k, pt_connection = Some (dht_connection peer)\<rparr>)
     (hex_BigInt (dht_hexDistance peer))"

definition calculate :: "rat \<Rightarrow> dht_line \<Rightarrow> js_error + dht_line" where
  "calculate offsetWidth l =
     (case hex_BigInt (getMaxOfHex (dl_line_buckets l)) of
        Inl e \<Rightarrow> Inl e
      | Inr whole \<Rightarrow> (case sum_map (bucketPoint whole) (rev (dl_line_buckets l)) of
            Inl e \<Rightarrow> Inl e
          | Inr bps \<Rightarrow> (case sum_map (peerPoint whole (dl_thisKey l)) (dl_peers l) of
                Inl e \<Rightarrow> Inl e
              | Inr ps \<Rightarrow> Inr (l\<lparr>dl_bucketPoints := bps, dl_points := map (leftInContainer offsetWidth) ps\<rparr>))))"

text \<open>An exception ends the listener; the result is then the exception and not the fields that were assigned before it.
  \<open>this.peers.some((p, i) => p.hexDistance !== peers[i].hexDistance)\<close>, which reads past the end of a shorter list.\<close>

fun distance_differs :: "NetworkNodeDhtPeer list \<Rightarrow> NetworkNodeDhtPeer list \<Rightarrow> js_error + bool" where
  "distance_differs [] news = Inr False"
| "distance_differs (p # ps) [] = Inl TypeError"
| "distance_differs (p # ps) (q # qs) =
     (if dht_hexDistance p \<noteq> dht_hexDistance q then Inr True else distance_differs ps qs)"

definition line_listenToNodeDhtPeers ::
  "rat \<Rightarrow> string \<Rightarrow> NetworkNodeDhtPeer list \<Rightarrow> NetworkNodeDhtBucket list \<Rightarrow> bool \<Rightarrow> dht_line \<Rightarrow> js_error + dht_line" where
  "line_listenToNodeDhtPeers offsetWidth key peers buckets openSidePanel l =
     (if key = [] then Inr l
      else let l1 = l\<lparr>dl_line_openSidePanel := openSidePanel, dl_thisKey := key\<rparr>
           in case (if dl_peers l = [] then Inr True else distance_differs (dl_peers l) peers) of
                Inl e \<Rightarrow> Inl e
              | Inr False \<Rightarrow> Inr l1
              | Inr True \<Rightarrow> calculate offsetWidth (l1\<lparr>dl_peers := peers, dl_line_buckets := buckets\<rparr>))"

definition line_width_change :: "rat \<Rightarrow> dht_line \<Rightarrow> dht_line" where
  "line_width_change offsetWidth l =
     (if dl_thisKey l = [] \<or> dl_lastKnownWidth l = offsetWidth then l
      else l\<lparr>dl_lastKnownWidth := offsetWidth, dl_points := map (leftInContainer offsetWidth) (dl_points l)\<rparr>)"

definition line_listenToActiveNodeDhtPeer :: "NetworkNodeDhtPeer option \<Rightarrow> dht_line \<Rightarrow> dht_line" where
  "line_listenToActiveNodeDhtPeer peer l = l\<lparr>dl_line_activePeer := peer\<rparr>"

definition selectPeer :: "DhtPoint \<Rightarrow> dht_line \<Rightarrow> NetworkNodeDhtActions" where
  "selectPeer point l = NETWORK_NODE_DHT_SET_ACTIVE_PEER (List.find (\<lambda>p. dht_peerId p = pt_peerId point) (dl_peers l))"

section \<open>Comparing strings\<close>

definition lower_hex :: "char \<Rightarrow> bool" where
  "lower_hex c \<longleftrightarrow> (let n = of_char c :: nat in 48 \<le> n \<and> n \<le> 57 \<or> 97 \<le> n \<and> n \<le> 102)"

lemma lower_hex_order: "lower_hex a \<Longrightarrow> lower_hex b \<Longrightarrow> (of_char a :: nat) > of_char b \<longleftrightarrow> digit_value a > digit_value b"
  by (auto simp: lower_hex_def digit_value_def Let_def)

lemma lower_hex_digit: "lower_hex a \<Longrightarrow> digit_value a < 16"
  by (auto simp: lower_hex_def digit_value_def Let_def)

lemma of_radix_Cons: "of_radix b (c # s) = digit_value c * b ^ length s + of_radix b s"
  using of_radix_append [of b "[c]" s] by (simp add: of_radix_def)

lemma of_radix_less: "list_all lower_hex s \<Longrightarrow> of_radix 16 s < 16 ^ length s"
proof (induction s)
  case (Cons c s)
  then have "digit_value c \<le> 15" using lower_hex_digit [of c] by simp
  then have "digit_value c * 16 ^ length s \<le> 15 * 16 ^ length s" by (rule mult_le_mono1)
  moreover have "of_radix 16 s < 16 ^ length s" using Cons by simp
  ultimately have "of_radix 16 (c # s) < 15 * 16 ^ length s + 16 ^ length s" unfolding of_radix_Cons by linarith
  then show ?case by simp
qed simp

text \<open>On lower case numerals of one length the comparison of strings is the comparison of numbers.\<close>

lemma js_string_gt_number:
  "length s = length t \<Longrightarrow> list_all lower_hex s \<Longrightarrow> list_all lower_hex t \<Longrightarrow> js_string_gt s t \<longleftrightarrow> of_radix 16 s > of_radix 16 t"
proof (induction s t rule: js_string_gt.induct)
  case (3 a as b bs)
  have lt: "of_radix 16 as < 16 ^ length as" "of_radix 16 bs < 16 ^ length bs" using 3(3,4) of_radix_less by auto
  have len: "length bs = length as" using 3(2) by simp
  show ?case
  proof (cases "a = b")
    case True
    with 3 show ?thesis by (simp add: of_radix_Cons)
  next
    case False
    have carry: "x * n + u < y * n + v" if "x < y" "u < n" for x y n u v :: nat
    proof -
      have "x * n + u < Suc x * n" using that by simp
      also have "\<dots> \<le> y * n" using that by (intro mult_le_mono1) simp
      finally show ?thesis by simp
    qed
    have "(of_char a :: nat) \<noteq> of_char b" using False by simp
    then have ne: "digit_value a \<noteq> digit_value b" using lower_hex_order [of a b] lower_hex_order [of b a] 3(3,4) by force
    have "of_radix 16 (a # as) > of_radix 16 (b # bs) \<longleftrightarrow> digit_value a > digit_value b"
    proof (cases "digit_value b < digit_value a")
      case True
      with carry [OF this lt(2), of "of_radix 16 as"] show ?thesis by (simp add: of_radix_Cons len)
    next
      case False
      with ne have "digit_value a < digit_value b" by simp
      from carry [OF this lt(1), of "of_radix 16 bs"] False show ?thesis by (simp add: of_radix_Cons len)
    qed
    with False lower_hex_order [of a b] 3(3,4) show ?thesis by simp
  qed
qed auto

section \<open>The largest distance\<close>

lemma foldl_maxHex:
  assumes "list_all (\<lambda>b. length (bkt_bucketMaxHex b) = n \<and> list_all lower_hex (bkt_bucketMaxHex b)) bs"
    and "length m = n" and "list_all lower_hex m"
  defines "r \<equiv> foldl (\<lambda>maxHex bucket. if js_string_gt maxHex (bkt_bucketMaxHex bucket) then maxHex else bkt_bucketMaxHex bucket) m bs"
  shows "length r = n \<and> list_all lower_hex r \<and> r \<in> insert m (bkt_bucketMaxHex ` set bs) \<and> of_radix 16 m \<le> of_radix 16 r \<and>
    (\<forall>b \<in> set bs. of_radix 16 (bkt_bucketMaxHex b) \<le> of_radix 16 r)"
  using assms(1-3) unfolding r_def
proof (induction bs arbitrary: m)
  case (Cons b bs)
  let ?m = "if js_string_gt m (bkt_bucketMaxHex b) then m else bkt_bucketMaxHex b"
  have gt: "js_string_gt m (bkt_bucketMaxHex b) \<longleftrightarrow> of_radix 16 m > of_radix 16 (bkt_bucketMaxHex b)"
    using js_string_gt_number [of m "bkt_bucketMaxHex b"] Cons.prems by simp
  have "length ?m = n" "list_all lower_hex ?m" using Cons.prems by auto
  from Cons.IH [OF _ this] Cons.prems(1) gt show ?case by (auto split: if_splits)
qed simp

text \<open>The start value \<open>'0'\<close> is a numeral of one digit: the first bucket replaces it when its numeral is longer.\<close>

lemma gt_zero_prefix: "length t \<ge> 2 \<Longrightarrow> list_all lower_hex t \<Longrightarrow> \<not> js_string_gt ''0'' t"
  by (cases t) (auto simp: lower_hex_def Let_def)

lemma getMaxOfHex_max:
  assumes "buckets \<noteq> []" and "2 \<le> n"
    and "list_all (\<lambda>b. length (bkt_bucketMaxHex b) = n \<and> list_all lower_hex (bkt_bucketMaxHex b)) buckets"
  shows "getMaxOfHex buckets \<in> bkt_bucketMaxHex ` set buckets"
    and "\<forall>b \<in> set buckets. of_radix 16 (bkt_bucketMaxHex b) \<le> of_radix 16 (getMaxOfHex buckets)"
proof -
  obtain b bs where bs: "buckets = b # bs" using assms(1) by (cases buckets) auto
  have "\<not> js_string_gt ''0'' (bkt_bucketMaxHex b)" using gt_zero_prefix [of "bkt_bucketMaxHex b"] assms(2,3) by (simp add: bs)
  then have fold: "getMaxOfHex buckets = foldl (\<lambda>maxHex bucket. if js_string_gt maxHex (bkt_bucketMaxHex bucket) then maxHex else bkt_bucketMaxHex bucket)
    (bkt_bucketMaxHex b) bs" by (simp add: getMaxOfHex_def bs)
  have "list_all (\<lambda>b. length (bkt_bucketMaxHex b) = n \<and> list_all lower_hex (bkt_bucketMaxHex b)) bs" "length (bkt_bucketMaxHex b) = n"
    "list_all lower_hex (bkt_bucketMaxHex b)" using assms(3) by (auto simp: bs)
  note F = foldl_maxHex [OF this, folded fold]
  then show "getMaxOfHex buckets \<in> bkt_bucketMaxHex ` set buckets" by (auto simp: bs)
  from F show "\<forall>b \<in> set buckets. of_radix 16 (bkt_bucketMaxHex b) \<le> of_radix 16 (getMaxOfHex buckets)" by (auto simp: bs)
qed

lemma lower_hex_BigInt: "s \<noteq> [] \<Longrightarrow> list_all lower_hex s \<Longrightarrow> hex_BigInt s = Inr (of_radix 16 s)"
proof -
  have "lower_hex c \<Longrightarrow> hex_char c" for c by (auto simp: lower_hex_def hex_char_def Let_def)
  then show "s \<noteq> [] \<Longrightarrow> list_all lower_hex s \<Longrightarrow> ?thesis" by (auto simp: hex_BigInt_def list_all_iff)
qed

lemma share_range: "0 < whole \<Longrightarrow> d \<le> whole \<Longrightarrow> \<exists>q. share whole d = Some q \<and> 0 \<le> q \<and> q \<le> 100"
proof -
  assume a: "0 < whole" "d \<le> whole"
  then have "of_nat d / of_nat whole \<le> (1 :: rat)" by simp
  then have "of_nat d / of_nat whole * 100 \<le> (1 :: rat) * 100" by (rule mult_right_mono) simp
  with a(1) show ?thesis by (simp add: share_def)
qed

text \<open>The points of the line: with numerals of one length in lower case, a bucket of positive distance, and no peer farther than all
  buckets, every bucket and every peer is on the line, between 0 and 100 per cent.\<close>

lemma dht_line_points:
  assumes "dl_line_buckets l \<noteq> []" and "2 \<le> n"
    and hex: "list_all (\<lambda>b. length (bkt_bucketMaxHex b) = n \<and> list_all lower_hex (bkt_bucketMaxHex b)) (dl_line_buckets l)"
      "list_all (\<lambda>p. length (dht_hexDistance p) = n \<and> list_all lower_hex (dht_hexDistance p)) (dl_peers l)"
    and far: "\<forall>p \<in> set (dl_peers l). \<exists>b \<in> set (dl_line_buckets l). of_radix 16 (dht_hexDistance p) \<le> of_radix 16 (bkt_bucketMaxHex b)"
    and pos: "\<exists>b \<in> set (dl_line_buckets l). 0 < of_radix 16 (bkt_bucketMaxHex b)" and "16 \<le> width"
  shows "\<exists>l'. calculate width l = Inr l' \<and> length (dl_points l') = length (dl_peers l) \<and> length (dl_bucketPoints l') = length (dl_line_buckets l)
    \<and> (\<forall>p \<in> set (dl_bucketPoints l'). \<exists>q. pt_left p = Some q \<and> 0 \<le> q \<and> q \<le> 100)
    \<and> (\<forall>p \<in> set (dl_points l'). \<exists>q. pt_left p = Some q \<and> 0 \<le> q \<and> q \<le> width - 16)"
proof -
  let ?m = "getMaxOfHex (dl_line_buckets l)" and ?w = "of_radix 16 (getMaxOfHex (dl_line_buckets l))"
  note M = getMaxOfHex_max [OF assms(1,2) hex(1)]
  have "?m \<noteq> []" "list_all lower_hex ?m" using M(1) hex(1) assms(2) by (auto simp: list_all_iff)
  then have whole: "hex_BigInt ?m = Inr ?w" by (rule lower_hex_BigInt)
  have w: "0 < ?w" using pos M(2) by fastforce
  let ?bp = "\<lambda>b. \<lparr>pt_left = share ?w (of_radix 16 (bkt_bucketMaxHex b)), pt_isBucket = True, pt_isOrigin = False, pt_peerId = [],
     pt_originalLeft = None, pt_connection = None\<rparr>"
  have bps: "sum_map (bucketPoint ?w) (rev (dl_line_buckets l)) = Inr (map ?bp (rev (dl_line_buckets l)))"
  proof (rule sum_map_Inr)
    fix b assume "b \<in> set (rev (dl_line_buckets l))"
    then have "bkt_bucketMaxHex b \<noteq> []" "list_all lower_hex (bkt_bucketMaxHex b)" using hex(1) assms(2) by (auto simp: list_all_iff)
    from lower_hex_BigInt [OF this] show "bucketPoint ?w b = Inr (?bp b)" by (simp add: bucketPoint_def)
  qed
  let ?pp = "\<lambda>p. \<lparr>pt_left = None, pt_isBucket = False, pt_isOrigin = dht_key p = dl_thisKey l, pt_peerId = dht_peerId p,
     pt_originalLeft = share ?w (of_radix 16 (dht_hexDistance p)), pt_connection = Some (dht_connection p)\<rparr>"
  have pps: "sum_map (peerPoint ?w (dl_thisKey l)) (dl_peers l) = Inr (map ?pp (dl_peers l))"
  proof (rule sum_map_Inr)
    fix p assume "p \<in> set (dl_peers l)"
    then have "dht_hexDistance p \<noteq> []" "list_all lower_hex (dht_hexDistance p)" using hex(2) assms(2) by (auto simp: list_all_iff)
    from lower_hex_BigInt [OF this] show "peerPoint ?w (dl_thisKey l) p = Inr (?pp p)" by (simp add: peerPoint_def)
  qed
  have scaled: "0 \<le> q / 100 * (width - 16)" "q / 100 * (width - 16) \<le> width - 16" if "0 \<le> q" "q \<le> 100" for q
    using mult_right_mono [of "q / 100" 1 "width - 16"] mult_nonneg_nonneg [of "q / 100" "width - 16"] that assms(7) by simp_all
  have "\<exists>q. pt_left (leftInContainer width (?pp p)) = Some q \<and> 0 \<le> q \<and> q \<le> width - 16" if "p \<in> set (dl_peers l)" for p
  proof -
    have "of_radix 16 (dht_hexDistance p) \<le> ?w" using far M(2) that by (meson order_trans)
    from share_range [OF w this] obtain q where q: "share ?w (of_radix 16 (dht_hexDistance p)) = Some q" "0 \<le> q" "q \<le> 100" by blast
    then have "pt_left (leftInContainer width (?pp p)) = Some (q / 100 * (width - 16))" by (simp add: leftInContainer_def)
    with scaled [OF q(2,3)] show ?thesis by blast
  qed
  moreover have "\<exists>q. pt_left (?bp b) = Some q \<and> 0 \<le> q \<and> q \<le> 100" if "b \<in> set (dl_line_buckets l)" for b
    using share_range [OF w, of "of_radix 16 (bkt_bucketMaxHex b)"] M(2) that by auto
  ultimately show ?thesis by (auto simp: calculate_def whole bps pps)
qed

section \<open>New answers\<close>

text \<open>After a change of the width the points are where a calculation with the new width puts them.\<close>

lemma width_change_recalculates:
  assumes "calculate w l = Inr l'" and "dl_thisKey l' \<noteq> []" and "dl_lastKnownWidth l' \<noteq> w'"
  shows "calculate w' l = Inr l'' \<Longrightarrow> dl_points (line_width_change w' l') = dl_points l''"
  using assms by (auto simp: calculate_def line_width_change_def leftInContainer_def split: sum.splits)

text \<open>Peers that are appended are not shown; a shorter list of peers throws.\<close>

lemma differs_appended: "distance_differs ps (ps @ qs) = Inr False"
  by (induction ps) auto

lemma differs_shorter: "distance_differs (ps @ q # qs) ps = Inl TypeError"
  by (induction ps) auto

lemma line_ignores_appended:
  "key \<noteq> [] \<Longrightarrow> dl_peers l \<noteq> [] \<Longrightarrow> line_listenToNodeDhtPeers width key (dl_peers l @ new) buckets panel l =
     Inr (l\<lparr>dl_line_openSidePanel := panel, dl_thisKey := key\<rparr>)"
  by (simp add: line_listenToNodeDhtPeers_def differs_appended)

lemma line_throws_shorter:
  "key \<noteq> [] \<Longrightarrow> dl_peers l = peers @ [p] \<Longrightarrow> line_listenToNodeDhtPeers width key peers buckets panel l = Inl TypeError"
  using differs_shorter [of peers p "[]"] by (simp add: line_listenToNodeDhtPeers_def)

text \<open>The points of the buckets come in the reverse order of the buckets.\<close>

lemma bucket_points_reversed:
  assumes "calculate width l = Inr l'" and "i < length (dl_line_buckets l)"
  shows "\<exists>whole. bucketPoint whole (dl_line_buckets l ! (length (dl_line_buckets l) - 1 - i)) = Inr (dl_bucketPoints l' ! i)"
proof -
  obtain whole where b: "sum_map (bucketPoint whole) (rev (dl_line_buckets l)) = Inr (dl_bucketPoints l')"
    using assms(1) by (auto simp: calculate_def split: sum.splits)
  from sum_map_nth [OF b, of i] assms(2) show ?thesis by (auto simp: rev_nth)
qed

end
