(* ===== verification/Sync_Reports.thy ===== *)
theory Sync_Reports
  imports Nodes_Tips Won_Slots
begin

text \<open>
  The reports of a web node to the error service (\<open>core/services/sentry.service.ts\<close>): that the ledger, the blocks and the whole node are
  synchronised, and that a block was produced. The service is a parameter that receives the messages; here they are a list.
  Also \<open>flattenObject\<close>, which turns a nested object into one with dotted keys.
\<close>

section \<open>Messages\<close>

text \<open>A value is an object, or anything else (an array, \<open>null\<close>, a number, a string).\<close>

datatype 'v jvalue = JLeaf 'v | JObject "(string \<times> 'v jvalue) list"

datatype report =
    LedgerSynced int "(string \<times> string jvalue) list"
  | BlocksSynced int int int
  | NodeSynced js_number
  | BlockProduced "string option" "nat option" rat

record sentry =
  se_ledgerIsSynced :: bool
  se_blockIsSynced :: bool
  se_ledgerSyncedTime :: "int option"
  se_blockSyncedTime :: "int option"

definition sentry_initial :: sentry where
  "sentry_initial = \<lparr>se_ledgerIsSynced = False, se_blockIsSynced = False, se_ledgerSyncedTime = None, se_blockSyncedTime = None\<rparr>"

text \<open>A duration in a text; an absent one prints as \<open>null\<close>.\<close>

definition seconds_text :: "int option \<Rightarrow> string" where
  "seconds_text d = (case d of None \<Rightarrow> ''null'' | Some i \<Rightarrow> show_int i) @ ''s''"

definition syncDetails :: "NodesOverviewLedger \<Rightarrow> (string \<times> string jvalue) list" where
  "syncDetails ledger =
     (let snarked = (\<lambda>l. JObject
            [(''fetchHashes'', JLeaf (seconds_text (sn_fetchHashesDuration l))),
             (''fetchAccounts'', JLeaf (seconds_text (sn_fetchAccountsDuration l)))]);
          staged = lr_staged (ld_rootStaged ledger)
      in [(''stakingLedger'', snarked (le_snarked (ld_stakingEpoch ledger))),
          (''nextEpochLedger'', snarked (le_snarked (ld_nextEpoch ledger))),
          (''snarkedRootLedger'', snarked (le_snarked (ld_rootSnarked ledger))),
          (''stagedRootLedger'', JObject
            [(''fetchParts'', JLeaf (seconds_text (sg_fetchPartsDuration staged))),
             (''reconstruct'', JLeaf (seconds_text (sg_reconstructDuration staged)))])])"

definition or_null :: "int option \<Rightarrow> int" where
  "or_null t = (case t of None \<Rightarrow> 0 | Some v \<Rightarrow> v)"

definition round_div :: "int \<Rightarrow> int \<Rightarrow> int" where
  "round_div a b = \<lfloor>(of_int a / of_int b :: rat) + 1 / 2\<rfloor>"

definition updateLedgerSyncStatus :: "NodesOverviewLedger \<Rightarrow> sentry \<Rightarrow> sentry \<times> report list" where
  "updateLedgerSyncStatus ledger s =
     (if se_ledgerIsSynced s then (s, [])
      else if lr_state (ld_rootStaged ledger) = Step_SUCCESS
      then let syncedIn = round_div (or_null (sg_reconstructEnd (lr_staged (ld_rootStaged ledger)))
                 - or_null (sn_fetchHashesStart (le_snarked (ld_stakingEpoch ledger)))) 1000000000
           in (s\<lparr>se_ledgerIsSynced := True, se_ledgerSyncedTime := Some syncedIn\<rparr>, [LedgerSynced syncedIn (syncDetails ledger)])
      else (s, []))"

text \<open>The total is a sum with \<open>undefined\<close> when the ledger has not been reported. The flag is set before an exception.\<close>

definition updateBlockSyncStatus ::
  "NodesOverviewBlock list \<Rightarrow> int \<Rightarrow> int \<Rightarrow> sentry \<Rightarrow> sentry \<times> report list \<times> js_error option" where
  "updateBlockSyncStatus blocks startTime now s =
     (if se_blockIsSynced s then (s, [], None)
      else if list_all (\<lambda>b. nb_status b = status_string APPLIED) blocks \<and> blocks \<noteq> []
      then let s1 = s\<lparr>se_blockIsSynced := True\<rparr>; rest = tl blocks
           in if rest = [] then (s1, [], Some TypeError)
              else let t = round_div (now - startTime) 1000
                   in (s1\<lparr>se_blockSyncedTime := Some t\<rparr>,
                       [BlocksSynced t (nb_height (hd rest)) (nb_height (last rest)),
                        NodeSynced (case se_ledgerSyncedTime s of None \<Rightarrow> NaN | Some l \<Rightarrow> Finite (of_int (l + t)))], None)
      else (s, [], None))"

definition phase_time :: "int option \<Rightarrow> int option \<Rightarrow> rat" where
  "phase_time start end = (if \<not> truthy_num end \<or> \<not> truthy_num start then 0 else of_int (the end - the start) / 1000000000)"

definition updateProducedBlock :: "string option \<Rightarrow> nat option \<Rightarrow> Times \<Rightarrow> report" where
  "updateProducedBlock status height ts = BlockProduced status height
     (phase_time (ti_staged_ledger_diff_create_start ts) (ti_staged_ledger_diff_create_end ts)
      + phase_time (ti_staged_ledger_diff_create_end ts) (ti_produced ts)
      + phase_time (ti_proof_create_start ts) (ti_proof_create_end ts))"

datatype sync_event = LedgerStatus NodesOverviewLedger | BlocksStatus "NodesOverviewBlock list" int int

definition sentry_step :: "sentry \<times> report list \<Rightarrow> sync_event \<Rightarrow> sentry \<times> report list" where
  "sentry_step = (\<lambda>(s, out) ev. (case ev of
      LedgerStatus l \<Rightarrow> (case updateLedgerSyncStatus l s of (s', r) \<Rightarrow> (s', out @ r))
    | BlocksStatus bs start now \<Rightarrow> (case updateBlockSyncStatus bs start now s of (s', r, _) \<Rightarrow> (s', out @ r))))"

section \<open>Flat objects\<close>

definition prefixed :: "string \<Rightarrow> string \<Rightarrow> string" where
  "prefixed prefix key = (if prefix \<noteq> [] then prefix @ ''.'' @ key else key)"

fun flatten_from :: "(string \<rightharpoonup> 'v) \<Rightarrow> string \<Rightarrow> (string \<times> 'v jvalue) list \<Rightarrow> (string \<rightharpoonup> 'v)" where
  "flatten_from acc prefix [] = acc"
| "flatten_from acc prefix ((key, JLeaf v) # kvs) = flatten_from (acc(prefixed prefix key \<mapsto> v)) prefix kvs"
| "flatten_from acc prefix ((key, JObject nested) # kvs) =
     flatten_from (acc ++ flatten_from Map.empty (prefixed prefix key) nested) prefix kvs"

definition flattenObject :: "(string \<times> 'v jvalue) list \<Rightarrow> (string \<rightharpoonup> 'v)" where
  "flattenObject obj = flatten_from Map.empty [] obj"

fun leaf_path :: "string list \<Rightarrow> (string \<times> 'v jvalue) list \<Rightarrow> 'v option" where
  "leaf_path [] kvs = None"
| "leaf_path (k # ks) kvs = (case map_of kvs k of
      None \<Rightarrow> None
    | Some (JLeaf v) \<Rightarrow> if ks = [] then Some v else None
    | Some (JObject nested) \<Rightarrow> leaf_path ks nested)"

section \<open>Each report at most once\<close>

fun is_ledger :: "report \<Rightarrow> bool" where "is_ledger (LedgerSynced _ _) = True" | "is_ledger _ = False"

fun is_total :: "report \<Rightarrow> bool" where "is_total (NodeSynced _) = True" | "is_total _ = False"

definition sentry_inv :: "sentry \<times> report list \<Rightarrow> bool" where
  "sentry_inv so \<longleftrightarrow> (case so of (s, out) \<Rightarrow>
     length (filter is_ledger out) = (if se_ledgerIsSynced s then 1 else 0) \<and> length (filter is_total out) \<le> (if se_blockIsSynced s then 1 else 0) \<and>
     (se_ledgerIsSynced s \<longleftrightarrow> se_ledgerSyncedTime s \<noteq> None))"

lemma sentry_inv_step: "sentry_inv so \<Longrightarrow> sentry_inv (sentry_step so ev)"
  by (auto simp: sentry_inv_def sentry_step_def updateLedgerSyncStatus_def updateBlockSyncStatus_def Let_def split: prod.splits sync_event.splits if_splits)

lemma reports_once: "sentry_inv (foldl sentry_step (sentry_initial, []) evs)"
proof -
  have "sentry_inv so \<Longrightarrow> sentry_inv (foldl sentry_step so evs)" for so
    by (induction evs arbitrary: so) (simp_all add: sentry_inv_step)
  then show ?thesis by (simp add: sentry_inv_def sentry_initial_def)
qed

text \<open>A chain of a single block throws after the flag was set: the blocks are then never reported.\<close>

lemma single_block_lost:
  assumes "\<not> se_blockIsSynced s" and "nb_status b = status_string APPLIED"
  shows "\<exists>s'. updateBlockSyncStatus [b] start now s = (s', [], Some TypeError) \<and>
    (\<forall>bs start' now'. updateBlockSyncStatus bs start' now' s' = (s', [], None))"
  using assms by (simp add: updateBlockSyncStatus_def Let_def)

text \<open>When the blocks are synchronised before the ledger was reported, the total is not a number.\<close>

lemma total_not_a_number:
  assumes "\<not> se_blockIsSynced s" and "se_ledgerSyncedTime s = None" and "list_all (\<lambda>b. nb_status b = status_string APPLIED) bs" and "2 \<le> length bs"
  shows "\<exists>s' t h r. updateBlockSyncStatus bs start now s = (s', [BlocksSynced t h r, NodeSynced NaN], None)"
proof -
  obtain a b cs where "bs = a # b # cs" using assms(4) by (cases bs; cases "tl bs") auto
  with assms(1-3) show ?thesis by (simp add: updateBlockSyncStatus_def Let_def)
qed

lemma total_is_sum:
  assumes "\<not> se_blockIsSynced s" and "se_ledgerSyncedTime s = Some l" and "list_all (\<lambda>b. nb_status b = status_string APPLIED) bs" and "2 \<le> length bs"
  shows "\<exists>s' t h r. updateBlockSyncStatus bs start now s = (s', [BlocksSynced t h r, NodeSynced (Finite (of_int (l + t)))], None)"
proof -
  obtain a b cs where "bs = a # b # cs" using assms(4) by (cases bs; cases "tl bs") auto
  with assms(1-3) show ?thesis by (simp add: updateBlockSyncStatus_def Let_def)
qed

section \<open>Flattening\<close>

fun flat_ok :: "(string \<times> 'v jvalue) list \<Rightarrow> bool" where
  "flat_ok [] = True"
| "flat_ok ((key, JLeaf v) # kvs) \<longleftrightarrow> key \<noteq> [] \<and> CHR ''.'' \<notin> set key \<and> key \<notin> fst ` set kvs \<and> flat_ok kvs"
| "flat_ok ((key, JObject nested) # kvs) \<longleftrightarrow>
     key \<noteq> [] \<and> CHR ''.'' \<notin> set key \<and> key \<notin> fst ` set kvs \<and> flat_ok nested \<and> flat_ok kvs"

definition dotted :: "string \<Rightarrow> string list \<Rightarrow> string" where
  "dotted prefix path = prefixed prefix (join_with ''.'' path)"

lemma dotted_inject:
  assumes "dotted prefix p = dotted prefix q" and "p \<noteq> []" and "q \<noteq> []"
    and "list_all (\<lambda>k. CHR ''.'' \<notin> set k) p" and "list_all (\<lambda>k. CHR ''.'' \<notin> set k) q"
  shows "p = q"
proof -
  have "join_with ''.'' p = join_with ''.'' q" using assms(1) by (auto simp: dotted_def prefixed_def split: if_splits)
  then have "js_split (CHR ''.'') (join_with ''.'' p) = js_split (CHR ''.'') (join_with ''.'' q)" by simp
  then show ?thesis using assms by (simp add: js_split_join list_all_iff)
qed

lemma dotted_Cons: "key \<noteq> [] \<Longrightarrow> ks \<noteq> [] \<Longrightarrow> dotted prefix (key # ks) = dotted (prefixed prefix key) ks"
  by (auto simp: dotted_def prefixed_def join_with_Cons)

lemma leaf_path_ok: "flat_ok kvs \<Longrightarrow> leaf_path path kvs = Some v \<Longrightarrow> path \<noteq> [] \<and> list_all (\<lambda>k. CHR ''.'' \<notin> set k) path"
proof (induction path kvs arbitrary: v rule: leaf_path.induct)
  case (2 k ks kvs)
  have entry: "CHR ''.'' \<notin> set key \<and> (case x of JObject n \<Rightarrow> flat_ok n | JLeaf _ \<Rightarrow> True)" if "(key, x) \<in> set kvs" "flat_ok kvs" for key x
    using that by (induction kvs rule: flat_ok.induct) auto
  obtain x where x: "map_of kvs k = Some x" using "2.prems"(2) by (auto split: option.splits)
  note e = entry [OF map_of_SomeD [OF x] "2.prems"(1)]
  show ?case
  proof (cases x)
    case (JLeaf u)
    with 2(3) x e show ?thesis by (auto split: if_splits)
  next
    case (JObject n)
    with "2.IH" [OF x JObject, of v] "2.prems"(2) x e show ?thesis by auto
  qed
qed simp

lemma leaf_path_hd: "leaf_path path kvs = Some v \<Longrightarrow> hd path \<in> fst ` set kvs"
  by (cases path) (auto split: option.splits dest!: map_of_SomeD intro: rev_image_eqI)

text \<open>Entries of a later part of the object do not touch the dotted key of another part.\<close>

lemma other_key:
  assumes "flat_ok kvs" and "key \<notin> fst ` set kvs" and "leaf_path p kvs = Some v" and "list_all (\<lambda>k. CHR ''.'' \<notin> set k) (key # ks)"
  shows "dotted prefix p \<noteq> dotted prefix (key # ks)"
  using dotted_inject [of prefix p "key # ks"] leaf_path_ok [OF assms(1,3)] leaf_path_hd [OF assms(3)] assms(2,4) by force

lemma flatten_from_paths:
  "flat_ok kvs \<Longrightarrow> (\<forall>path v. leaf_path path kvs = Some v \<longrightarrow> flatten_from acc prefix kvs (dotted prefix path) = Some v) \<and>
     (\<forall>x. (\<forall>path v. leaf_path path kvs = Some v \<longrightarrow> x \<noteq> dotted prefix path) \<longrightarrow> flatten_from acc prefix kvs x = acc x)"
proof (induction acc prefix kvs rule: flatten_from.induct)
  case (1 acc prefix)
  have "leaf_path path ([] :: (string \<times> 'a jvalue) list) = None" for path by (cases path) auto
  then show ?case by simp
next
  case (2 acc prefix key v kvs)
  let ?k = "prefixed prefix key" and ?acc = "acc(prefixed prefix key \<mapsto> v)"
  have k: "?k = dotted prefix [key]" by (simp add: dotted_def)
  have ok: "flat_ok kvs" "key \<notin> fst ` set kvs" "list_all (\<lambda>k. CHR ''.'' \<notin> set k) [key]" using "2.prems" by auto
  note IH = "2.IH" [OF ok(1)]
  have here: "flatten_from ?acc prefix kvs ?k = Some v" using IH [THEN conjunct2] other_key [OF ok(1,2) _ ok(3)] k by (metis fun_upd_same)
  have split: "path = [key] \<and> u = v \<or> leaf_path path kvs = Some u" if "leaf_path path ((key, JLeaf v) # kvs) = Some u" for path u
    using that by (cases path) (auto split: if_splits)
  have later: "leaf_path path ((key, JLeaf v) # kvs) = Some u" if "leaf_path path kvs = Some u" for path u
    using that leaf_path_hd [OF that] ok(2) by (cases path) auto
  show ?case
  proof (intro conjI allI impI)
    fix path u assume "leaf_path path ((key, JLeaf v) # kvs) = Some u"
    from split [OF this] show "flatten_from acc prefix ((key, JLeaf v) # kvs) (dotted prefix path) = Some u"
    proof (elim disjE conjE)
      assume "path = [key]" and "u = v"
      then show ?thesis using here k by simp
    next
      assume "leaf_path path kvs = Some u"
      then show ?thesis using IH [THEN conjunct1, rule_format, of path u] by simp
    qed
  next
    fix x assume a: "\<forall>path u. leaf_path path ((key, JLeaf v) # kvs) = Some u \<longrightarrow> x \<noteq> dotted prefix path"
    have "x \<noteq> ?k" using a [rule_format, of "[key]" v] k by simp
    moreover have "flatten_from ?acc prefix kvs x = ?acc x" using IH [THEN conjunct2, rule_format, of x] a later by blast
    ultimately show "flatten_from acc prefix ((key, JLeaf v) # kvs) x = acc x" by simp
  qed
next
  case (3 acc prefix key nested kvs)
  let ?k = "prefixed prefix key" and ?N = "flatten_from Map.empty (prefixed prefix key) nested"
  have ok: "flat_ok nested" "flat_ok kvs" "key \<notin> fst ` set kvs" "key \<noteq> []" "CHR ''.'' \<notin> set key" using "3.prems" by auto
  note N = "3.IH"(1) [OF ok(1)] and IH = "3.IH"(2) [OF ok(2)]
  have split: "(\<exists>ks. path = key # ks \<and> leaf_path ks nested = Some u) \<or> leaf_path path kvs = Some u"
    if "leaf_path path ((key, JObject nested) # kvs) = Some u" for path u
    using that by (cases path) (auto split: if_splits)
  have later: "leaf_path path ((key, JObject nested) # kvs) = Some u" if "leaf_path path kvs = Some u" for path u
    using that leaf_path_hd [OF that] ok(3) by (cases path) auto
  have sub: "dotted prefix (key # ks) = dotted ?k ks" "list_all (\<lambda>k. CHR ''.'' \<notin> set k) (key # ks)" if "leaf_path ks nested = Some u" for ks u
    using leaf_path_ok [OF ok(1) that] ok(4,5) by (auto simp: dotted_Cons)
  show ?case
  proof (intro conjI allI impI)
    fix path u assume "leaf_path path ((key, JObject nested) # kvs) = Some u"
    from split [OF this] show "flatten_from acc prefix ((key, JObject nested) # kvs) (dotted prefix path) = Some u"
    proof
      assume "\<exists>ks. path = key # ks \<and> leaf_path ks nested = Some u"
      then obtain ks where ks: "path = key # ks" "leaf_path ks nested = Some u" by blast
      have "?N (dotted prefix path) = Some u" using N [THEN conjunct1] ks sub(1) [OF ks(2)] by simp
      moreover have "flatten_from (acc ++ ?N) prefix kvs (dotted prefix path) = (acc ++ ?N) (dotted prefix path)"
        using IH [THEN conjunct2, rule_format, of "dotted prefix path"] other_key [OF ok(2,3) _ sub(2) [OF ks(2)], of _ _ prefix] ks(1) by metis
      ultimately show ?thesis by (simp add: map_add_def)
    qed (use IH [THEN conjunct1] in simp)
  next
    fix x assume a: "\<forall>path u. leaf_path path ((key, JObject nested) # kvs) = Some u \<longrightarrow> x \<noteq> dotted prefix path"
    have "x \<noteq> dotted ?k ks" if "leaf_path ks nested = Some u" for ks u
      using a [rule_format, of "key # ks" u] that sub(1) [OF that] by simp
    then have "?N x = None" using N [THEN conjunct2, rule_format, of x] by simp
    moreover have "flatten_from (acc ++ ?N) prefix kvs x = (acc ++ ?N) x" using IH [THEN conjunct2, rule_format, of x] a later by blast
    ultimately show "flatten_from acc prefix ((key, JObject nested) # kvs) x = acc x" by (simp add: map_add_def)
  qed
qed

text \<open>C28. The flat object of an attempt: when no key of the object or of an object in it is empty or has a dot, the flat object has
  exactly the leaves of the object, each under the keys on the way to it joined by dots.\<close>

theorem flattenObject_leaves:
  assumes "flat_ok obj"
  shows "flattenObject obj x = Some v \<longleftrightarrow> (\<exists>path. x = join_with ''.'' path \<and> leaf_path path obj = Some v)"
proof -
  note F = flatten_from_paths [OF assms, of Map.empty "[]"]
  have d: "dotted [] path = join_with ''.'' path" for path by (simp add: dotted_def prefixed_def)
  show ?thesis
  proof
    assume "flattenObject obj x = Some v"
    then have "\<not> (\<forall>path u. leaf_path path obj = Some u \<longrightarrow> x \<noteq> dotted [] path)"
      using F [THEN conjunct2, rule_format, of x] by (auto simp: flattenObject_def)
    then obtain path u where "leaf_path path obj = Some u" "x = dotted [] path" by blast
    moreover from this F [THEN conjunct1] \<open>flattenObject obj x = Some v\<close> have "u = v" by (auto simp: flattenObject_def)
    ultimately show "\<exists>path. x = join_with ''.'' path \<and> leaf_path path obj = Some v" by (auto simp: d)
  next
    assume "\<exists>path. x = join_with ''.'' path \<and> leaf_path path obj = Some v"
    then show "flattenObject obj x = Some v" using F [THEN conjunct1] by (auto simp: d flattenObject_def)
  qed
qed

theorem flattenObject_leaves_witness:
  "flattenObject [(''times'', JObject [(''produced'', JLeaf (7 :: nat)), (''proof'', JObject [(''start'', JLeaf 2)])]), (''status'', JLeaf 1)]
     ''times.proof.start'' = Some 2"
proof (rule flattenObject_leaves [THEN iffD2])
  show "flat_ok [(''times'', JObject [(''produced'', JLeaf (7 :: nat)), (''proof'', JObject [(''start'', JLeaf 2)])]), (''status'', JLeaf 1)]"
    by simp
qed (rule exI [of _ "[''times'', ''proof'', ''start'']"], simp)

text \<open>A dotted key collides with a path.\<close>

lemma flatten_collision: "flattenObject [(''a'', JObject [(''b'', JLeaf 1)]), (''a.b'', JLeaf (2 :: nat))] ''a.b'' = Some 2"
  by (simp add: flattenObject_def prefixed_def)

lemma phase_time_nonneg: "(\<And>s e. start = Some s \<Longrightarrow> fin = Some e \<Longrightarrow> s \<le> e) \<Longrightarrow> 0 \<le> phase_time start fin"
  by (cases start; cases fin) (auto simp: phase_time_def)

end
