(* ===== verification/App_Shell.thy ===== *)
theory App_Shell
  imports App_State Web_Node
begin

text \<open>
  The frame of the application: \<open>app.component.ts\<close>, which starts it, \<open>layout/server-status\<close> with its overlays, and
  \<open>layout/node-picker\<close>, composed with the store of \<open>App_State\<close>: an event of the user dispatches, the store steps, and the listeners run.
  The picker gets the nodes when it is opened and does not follow the store.

  Overlays are attached or not; where they are drawn is left out, as is the text of the age of the last block.
\<close>

section \<open>Starting the application\<close>

record shell_config =
  cfg_showLeaderboard :: bool
  cfg_showWebNodeLandingPage :: bool
  cfg_hideToolbar :: bool
  cfg_hideNodeStats :: bool
  cfg_configs :: "MinaNode list"

text \<open>\<open>ac_waiting\<close> is whether the subscription for the route that starts the application still waits, \<open>ac_observers\<close> the number of
  subscriptions to the width of the window.\<close>

record app_component =
  ac_loaded :: bool
  ac_waiting :: bool
  ac_nodeUpdates :: bool
  ac_observers :: nat
  ac_subMenusLength :: nat

definition app_component_initial :: app_component where
  "app_component_initial = \<lparr>ac_loaded = False, ac_waiting = False, ac_nodeUpdates = False, ac_observers = 0, ac_subMenusLength = 0\<rparr>"

datatype shell_output = Dispatched AppActions | Navigate_loading

definition showLandingPage :: "string \<Rightarrow> bool" where
  "showLandingPage url \<longleftrightarrow> url = ''/'' \<or> js_startsWith url ''/?''"

definition showLoadingWebNodePage :: "string \<Rightarrow> bool" where
  "showLoadingWebNodePage url \<longleftrightarrow> js_startsWith url ''/loading-web-node''"

definition showLeaderboardPage :: "string \<Rightarrow> bool" where
  "showLeaderboardPage url \<longleftrightarrow> js_startsWith url ''/leaderboard''"

definition scheduleNodeUpdates :: "app_component \<Rightarrow> app_component" where
  "scheduleNodeUpdates c = c\<lparr>ac_nodeUpdates := True\<rparr>"

definition clearNodeUpdateSubscription :: "app_component \<Rightarrow> app_component" where
  "clearNodeUpdateSubscription c = c\<lparr>ac_nodeUpdates := False\<rparr>"

text \<open>A subscription to the width gets the current one at once.\<close>

definition listenToWindowResizing :: "bool \<Rightarrow> app_component \<Rightarrow> app_component \<times> shell_output list" where
  "listenToWindowResizing narrow c = (c\<lparr>ac_observers := Suc (ac_observers c)\<rparr>, [Dispatched (App_toggleMobile narrow)])"

text \<open>What the start finds: whether the WebAssembly node is loaded, the address and the width of the window.\<close>

record surroundings =
  sur_webnode :: bool
  sur_href :: string
  sur_narrow :: bool

definition initAppFunctionalities ::
  "shell_config \<Rightarrow> surroundings \<Rightarrow> app_component \<Rightarrow> app_component \<times> shell_output list" where
  "initAppFunctionalities cfg env c =
     (let nav = (if hasWebNodeConfig (cfg_configs cfg) \<and> \<not> sur_webnode env \<and> \<not> js_includes (sur_href env) ''/loading-web-node''
                 then [Navigate_loading] else []);
          c1 = (if \<not> cfg_hideToolbar cfg \<and> \<not> cfg_hideNodeStats cfg then scheduleNodeUpdates c else c);
          (c2, width) = listenToWindowResizing (sur_narrow env) c1
      in (c2, nav @ Dispatched App_init # width))"

definition app_ngOnInit :: "shell_config \<Rightarrow> surroundings \<Rightarrow> app_component \<Rightarrow> app_component \<times> shell_output list" where
  "app_ngOnInit cfg env c =
     (if cfg_showLeaderboard cfg \<and> cfg_showWebNodeLandingPage cfg then (c\<lparr>ac_waiting := True\<rparr>, [])
      else if \<not> cfg_showLeaderboard cfg \<and> \<not> cfg_showWebNodeLandingPage cfg then initAppFunctionalities cfg env c
      else (c, []))"

datatype app_event =
    Route surroundings string
  | Go_to_web_node surroundings
  | Stop_requests
  | Update_timer
  | Resized bool
  | Menu_backdrop
  | Submenus nat

fun app_component_step :: "shell_config \<Rightarrow> app_component \<Rightarrow> app_event \<Rightarrow> app_component \<times> shell_output list" where
  "app_component_step cfg c (Route env url) =
     (let c1 = c\<lparr>ac_loaded := True\<rparr>
      in if ac_waiting c \<and> js_startsWith url ''/loading-web-node''
         then initAppFunctionalities cfg env (c1\<lparr>ac_waiting := False\<rparr>) else (c1, []))"
| "app_component_step cfg c (Go_to_web_node env) = initAppFunctionalities cfg env c"
| "app_component_step cfg c Stop_requests = (clearNodeUpdateSubscription c, [])"
| "app_component_step cfg c Update_timer = (c, if ac_nodeUpdates c then [Dispatched App_getNodeDetails] else [])"
| "app_component_step cfg c (Resized narrow) = (c, replicate (ac_observers c) (Dispatched (App_toggleMobile narrow)))"
| "app_component_step cfg c Menu_backdrop = (c, [Dispatched App_toggleMenuOpening])"
| "app_component_step cfg c (Submenus n) = (c\<lparr>ac_subMenusLength := n\<rparr>, [])"

fun app_component_run :: "shell_config \<Rightarrow> app_component \<Rightarrow> app_event list \<Rightarrow> app_component \<times> shell_output list" where
  "app_component_run cfg c [] = (c, [])"
| "app_component_run cfg c (ev # evs) =
     (let (c1, out) = app_component_step cfg c ev; (c2, rest) = app_component_run cfg c1 evs in (c2, out @ rest))"

section \<open>The picker and the overlays\<close>

record node_picker =
  np_nodes :: "MinaNode list"
  np_filteredNodes :: "MinaNode list"
  np_activeNode :: "MinaNode option"

datatype node_overlay = Picker node_picker | New_node

text \<open>\<open>st_tooltip\<close> is whether the overlay of \<open>tooltipOverlayRef\<close> is attached, \<open>st_lostTooltips\<close> counts attached overlays that no field refers to.\<close>

record server_status =
  st_nodes :: "MinaNode list"
  st_activeNode :: "MinaNode option"
  st_details :: "AppNodeDetails option"
  st_isOnline :: bool
  st_isMobile :: bool
  st_switchForbidden :: bool
  st_tooltip :: bool
  st_lostTooltips :: nat
  st_nodeOverlay :: "node_overlay option"

definition server_status_initial :: server_status where
  "server_status_initial = \<lparr>st_nodes = [], st_activeNode = None, st_details = None, st_isOnline = False, st_isMobile = False,
     st_switchForbidden = False, st_tooltip = False, st_lostTooltips = 0, st_nodeOverlay = None\<rparr>"

definition detachTooltipOverlay :: "server_status \<Rightarrow> server_status" where
  "detachTooltipOverlay s = s\<lparr>st_tooltip := False\<rparr>"

definition detachNodeOverlay :: "server_status \<Rightarrow> server_status" where
  "detachNodeOverlay s = s\<lparr>st_nodeOverlay := None\<rparr>"

definition status_listenToMenuChange :: "AppMenu \<Rightarrow> server_status \<Rightarrow> server_status" where
  "status_listenToMenuChange menu s = s\<lparr>st_isMobile := am_isMobile menu\<rparr>"

definition status_nodes :: "MinaNode list \<Rightarrow> server_status \<Rightarrow> server_status" where
  "status_nodes nodes s =
     (if nodes = [] then s
      else let s1 = s\<lparr>st_nodes := nodes\<rparr> in if st_tooltip s1 then detachNodeOverlay s1 else s1)"

definition status_activeNode :: "MinaNode option \<Rightarrow> server_status \<Rightarrow> server_status" where
  "status_activeNode node s = (case node of None \<Rightarrow> s | Some n \<Rightarrow> s\<lparr>st_activeNode := Some n\<rparr>)"

definition status_details :: "AppNodeDetails option \<Rightarrow> server_status \<Rightarrow> server_status" where
  "status_details d s = s\<lparr>st_details := d,
     st_isOnline := map_option ad_status d \<notin> {Some AppPENDING, Some AppOFFLINE}\<rparr>"

definition status_listenToRouterChange :: "string \<Rightarrow> server_status \<Rightarrow> server_status" where
  "status_listenToRouterChange pathname s = s\<lparr>st_switchForbidden := js_includes pathname ''nodes/overview''\<rparr>"

definition openTooltipDropdown :: "server_status \<Rightarrow> server_status" where
  "openTooltipDropdown s =
     (if map_option ad_status (st_details s) = Some AppPENDING then s
      else s\<lparr>st_lostTooltips := st_lostTooltips s + (if st_tooltip s then 1 else 0), st_tooltip := True\<rparr>)"

definition openNodePicker :: "server_status \<Rightarrow> server_status" where
  "openNodePicker s =
     (if st_nodeOverlay s \<noteq> None then detachNodeOverlay s
      else s\<lparr>st_nodeOverlay := Some (Picker \<lparr>np_nodes = st_nodes s, np_filteredNodes = st_nodes s, np_activeNode = st_activeNode s\<rparr>)\<rparr>)"

definition openAddNewNodeOverlay :: "server_status \<Rightarrow> server_status" where
  "openAddNewNodeOverlay s =
     (if st_nodeOverlay s \<noteq> None then detachNodeOverlay s else s\<lparr>st_nodeOverlay := Some New_node\<rparr>)"

definition picker_closed :: "bool \<Rightarrow> server_status \<Rightarrow> server_status" where
  "picker_closed addNewNode s = (let s1 = detachNodeOverlay s in if addNewNode then openAddNewNodeOverlay s1 else s1)"

definition node_matches :: "string \<Rightarrow> MinaNode \<Rightarrow> bool" where
  "node_matches value n \<longleftrightarrow> js_includes (js_toLowerCase (mn_name n)) value \<or>
     (case mn_url n of None \<Rightarrow> False | Some u \<Rightarrow> js_includes (js_toLowerCase u) value)"

definition listenToNodeSearch :: "string \<Rightarrow> node_picker \<Rightarrow> node_picker" where
  "listenToNodeSearch typed p =
     (if length typed \<le> 1 then p\<lparr>np_filteredNodes := np_nodes p\<rparr>
      else p\<lparr>np_filteredNodes := filter (node_matches (js_toLowerCase typed)) (np_nodes p)\<rparr>)"

definition picker_selectNode :: "MinaNode \<Rightarrow> node_picker \<Rightarrow> AppActions list" where
  "picker_selectNode node p = (if Some node \<noteq> np_activeNode p then [App_changeActiveNode node] else [])"

definition deleteCustomNode :: "MinaNode \<Rightarrow> node_picker \<Rightarrow> node_picker \<times> AppActions list" where
  "deleteCustomNode node p =
     (p\<lparr>np_filteredNodes := filter (\<lambda>n. n \<noteq> node) (np_filteredNodes p)\<rparr>, [App_deleteNode node])"

section \<open>The picker and the store\<close>

record shell =
  sh_sys :: app_system
  sh_status :: server_status

text \<open>The nodes are a new array after these actions.\<close>

fun new_nodes :: "AppActions \<Rightarrow> bool" where
  "new_nodes App_init = True"
| "new_nodes (App_initSuccess _ _) = True"
| "new_nodes (App_addNode _) = True"
| "new_nodes (App_deleteNode _) = True"
| "new_nodes _ = False"

definition shell_dispatch :: "MinaNode list \<Rightarrow> string option \<Rightarrow> shell \<Rightarrow> AppActions \<Rightarrow> shell" where
  "shell_dispatch configs nodeName sh a =
     (let sys = app_step configs nodeName (sh_sys sh) a; state = sys_state sys;
          s1 = (if new_nodes a then status_nodes (app_nodes state) (sh_status sh) else sh_status sh)
      in \<lparr>sh_sys = sys, sh_status = status_details (Some (app_activeNodeDetails state)) (status_activeNode (app_activeNode state) s1)\<rparr>)"

text \<open>What the user does. \<open>Submit\<close> has the node of the form (\<^const>\<open>addNode_form\<close>).\<close>

datatype shell_event =
    Chip_enter | Chip_leave | Opener_click | Click_outside | Window_scroll
  | Search string | Select MinaNode | Add_click | Delete MinaNode
  | Submit "MinaNode option" | Details AppNodeDetails

fun shell_step :: "MinaNode list \<Rightarrow> string option \<Rightarrow> shell \<Rightarrow> shell_event \<Rightarrow> shell" where
  "shell_step configs nodeName sh Chip_enter = sh\<lparr>sh_status := openTooltipDropdown (sh_status sh)\<rparr>"
| "shell_step configs nodeName sh Chip_leave = sh\<lparr>sh_status := detachTooltipOverlay (sh_status sh)\<rparr>"
| "shell_step configs nodeName sh Opener_click = sh\<lparr>sh_status := openNodePicker (sh_status sh)\<rparr>"
| "shell_step configs nodeName sh Click_outside = sh\<lparr>sh_status := detachNodeOverlay (sh_status sh)\<rparr>"
| "shell_step configs nodeName sh Window_scroll = (case st_nodeOverlay (sh_status sh) of
      Some (Picker _) \<Rightarrow> sh\<lparr>sh_status := detachNodeOverlay (sh_status sh)\<rparr> | _ \<Rightarrow> sh)"
| "shell_step configs nodeName sh (Search typed) = (case st_nodeOverlay (sh_status sh) of
      Some (Picker p) \<Rightarrow> sh\<lparr>sh_status := (sh_status sh)\<lparr>st_nodeOverlay := Some (Picker (listenToNodeSearch typed p))\<rparr>\<rparr> | _ \<Rightarrow> sh)"
| "shell_step configs nodeName sh (Select node) = (case st_nodeOverlay (sh_status sh) of
      Some (Picker p) \<Rightarrow>
        if node \<in> set (np_filteredNodes p)
        then foldl (shell_dispatch configs nodeName) (sh\<lparr>sh_status := picker_closed False (sh_status sh)\<rparr>) (picker_selectNode node p)
        else sh
    | _ \<Rightarrow> sh)"
| "shell_step configs nodeName sh Add_click = (case st_nodeOverlay (sh_status sh) of
      Some (Picker _) \<Rightarrow> sh\<lparr>sh_status := picker_closed True (sh_status sh)\<rparr> | _ \<Rightarrow> sh)"
| "shell_step configs nodeName sh (Delete node) = (case st_nodeOverlay (sh_status sh) of
      Some (Picker p) \<Rightarrow>
        if node \<in> set (np_filteredNodes p) \<and> mn_isCustom node
        then let (p', as) = deleteCustomNode node p
             in foldl (shell_dispatch configs nodeName) (sh\<lparr>sh_status := (sh_status sh)\<lparr>st_nodeOverlay := Some (Picker p')\<rparr>\<rparr>) as
        else sh
    | _ \<Rightarrow> sh)"
| "shell_step configs nodeName sh (Submit node) = (case (st_nodeOverlay (sh_status sh), node) of
      (Some New_node, Some n) \<Rightarrow>
        (let sh' = shell_dispatch configs nodeName sh (App_addNode n) in sh'\<lparr>sh_status := detachNodeOverlay (sh_status sh')\<rparr>)
    | _ \<Rightarrow> sh)"
| "shell_step configs nodeName sh (Details d) = shell_dispatch configs nodeName sh (App_getNodeDetailsSuccess d)"

definition shell_start :: "MinaNode list \<Rightarrow> string option \<Rightarrow> local_storage option \<Rightarrow> shell" where
  "shell_start configs nodeName st =
     shell_dispatch configs nodeName \<lparr>sh_sys = app_start st, sh_status = server_status_initial\<rparr> App_init"

section \<open>Starts and subscriptions\<close>

definition init_count :: "shell_output list \<Rightarrow> nat" where
  "init_count out = length (filter (\<lambda>x. x = Dispatched App_init) out)"

lemma init_count_simps [simp]:
  "init_count [] = 0" "init_count (x # xs) = (if x = Dispatched App_init then 1 else 0) + init_count xs"
  "init_count (xs @ ys) = init_count xs + init_count ys" "init_count (replicate n (Dispatched (App_toggleMobile b))) = 0"
  by (auto simp: init_count_def)

lemma initAppFunctionalities_count:
  "initAppFunctionalities cfg env c = (c', out) \<Longrightarrow> init_count out = 1 \<and> ac_observers c' = Suc (ac_observers c) \<and> ac_waiting c' = ac_waiting c"
  by (auto simp: initAppFunctionalities_def listenToWindowResizing_def scheduleNodeUpdates_def Let_def split: if_splits)

text \<open>Every start leaves one more subscription to the width of the window.\<close>

lemma observers_step:
  "app_component_step cfg c ev = (c', out) \<Longrightarrow> ac_observers c' = ac_observers c + init_count out"
  by (cases ev) (auto simp: clearNodeUpdateSubscription_def Let_def dest: initAppFunctionalities_count split: if_splits)

lemma observers_count:
  "app_component_run cfg c evs = (c', out) \<Longrightarrow> ac_observers c' = ac_observers c + init_count out"
proof (induction evs arbitrary: c out)
  case (Cons ev evs)
  then show ?case using observers_step [of cfg c ev] by (fastforce split: prod.splits)
qed simp

text \<open>With a landing page and a leaderboard, the routes start the application once, and only when one of them is that of the loading page.\<close>

lemma route_starts:
  "app_component_run cfg c (map (\<lambda>(env, url). Route env url) rs) = (c', out) \<Longrightarrow>
   init_count out = (if ac_waiting c \<and> list_ex (\<lambda>(env, url). showLoadingWebNodePage url) rs then 1 else 0)"
proof (induction rs arbitrary: c out)
  case (Cons r rs)
  obtain env url where r: "r = (env, url)" by (cases r)
  obtain c1 o1 where s: "app_component_step cfg c (Route env url) = (c1, o1)" by fastforce
  obtain o2 where o: "app_component_run cfg c1 (map (\<lambda>(env, url). Route env url) rs) = (c', o2)" "out = o1 @ o2"
    using Cons.prems s by (auto simp: r simp del: app_component_step.simps split: prod.splits)
  have "init_count o1 = (if ac_waiting c \<and> showLoadingWebNodePage url then 1 else 0)"
    "ac_waiting c1 \<longleftrightarrow> ac_waiting c \<and> \<not> showLoadingWebNodePage url"
    using s by (auto simp: Let_def showLoadingWebNodePage_def dest: initAppFunctionalities_count split: if_splits)
  then show ?case using Cons.IH [OF o(1)] by (auto simp: r o(2))
qed simp

text \<open>The node is polled only with a toolbar that shows its status, and not after the requests were stopped.\<close>

lemma polling_guarded_step:
  "app_component_step cfg c ev = (c', out) \<Longrightarrow> (ac_nodeUpdates c \<longrightarrow> \<not> cfg_hideToolbar cfg \<and> \<not> cfg_hideNodeStats cfg) \<Longrightarrow>
   ac_nodeUpdates c' \<longrightarrow> \<not> cfg_hideToolbar cfg \<and> \<not> cfg_hideNodeStats cfg"
  by (cases ev) (auto simp: initAppFunctionalities_def listenToWindowResizing_def scheduleNodeUpdates_def clearNodeUpdateSubscription_def Let_def
    split: if_splits)

lemma stopped_quiet:
  "app_component_run cfg (clearNodeUpdateSubscription c) (replicate n Update_timer) = (clearNodeUpdateSubscription c, [])"
  by (induction n) (simp_all add: clearNodeUpdateSubscription_def)

section \<open>Which nodes can be selected\<close>

lemma search_subset: "set (np_filteredNodes (listenToNodeSearch typed p)) \<subseteq> set (np_nodes p)"
  by (auto simp: listenToNodeSearch_def)

definition listed :: "shell \<Rightarrow> MinaNode list" where
  "listed sh = app_nodes (sys_state (sh_sys sh))"

definition shell_inv :: "shell \<Rightarrow> bool" where
  "shell_inv sh \<longleftrightarrow> distinct (map mn_name (listed sh)) \<and> (\<exists>n \<in> set (listed sh). \<not> mn_isCustom n) \<and>
     st_nodes (sh_status sh) = listed sh \<and> set_option (app_activeNode (sys_state (sh_sys sh))) \<subseteq> set (listed sh) \<and>
     (\<forall>p. st_nodeOverlay (sh_status sh) = Some (Picker p) \<longrightarrow> set (np_filteredNodes p) \<subseteq> set (listed sh))"

text \<open>The user types only while the nodes of the picker are those of the store, and gives a new node a new name.\<close>

definition current_picker :: "shell \<Rightarrow> shell_event \<Rightarrow> bool" where
  "current_picker sh ev \<longleftrightarrow> (case ev of
      Search _ \<Rightarrow> (case st_nodeOverlay (sh_status sh) of Some (Picker p) \<Rightarrow> np_nodes p = listed sh | _ \<Rightarrow> True)
    | Submit (Some n) \<Rightarrow> mn_name n \<notin> mn_name ` set (listed sh)
    | _ \<Rightarrow> True)"

lemmas status_defs = detachTooltipOverlay_def detachNodeOverlay_def status_nodes_def status_activeNode_def status_details_def
  openTooltipDropdown_def openNodePicker_def openAddNewNodeOverlay_def picker_closed_def

lemma dispatch_overlay:
  "st_nodeOverlay (sh_status (shell_dispatch configs nodeName sh a)) \<in> {None, st_nodeOverlay (sh_status sh)}"
  by (auto simp: shell_dispatch_def status_defs Let_def split: option.splits)

lemma dispatch_picker:
  "st_nodeOverlay (sh_status (shell_dispatch configs nodeName sh a)) = Some x \<Longrightarrow> st_nodeOverlay (sh_status sh) = Some x"
  using dispatch_overlay [of configs nodeName sh a] by auto

lemma dispatch_nodes:
  "new_nodes a \<Longrightarrow> listed (shell_dispatch configs nodeName sh a) \<noteq> [] \<Longrightarrow>
   st_nodes (sh_status (shell_dispatch configs nodeName sh a)) = listed (shell_dispatch configs nodeName sh a)"
  "\<not> new_nodes a \<Longrightarrow> st_nodes (sh_status (shell_dispatch configs nodeName sh a)) = st_nodes (sh_status sh)"
  by (auto simp: shell_dispatch_def status_defs listed_def Let_def split: option.splits)

lemma dispatch_sys: "sh_sys (shell_dispatch configs nodeName sh a) = app_step configs nodeName (sh_sys sh) a"
  by (simp add: shell_dispatch_def Let_def)

lemma shell_inv_keep:
  assumes "shell_inv sh" and "sh_sys sh' = sh_sys sh" and "st_nodes (sh_status sh') = st_nodes (sh_status sh)"
    and "\<And>p. st_nodeOverlay (sh_status sh') = Some (Picker p) \<Longrightarrow> set (np_filteredNodes p) \<subseteq> set (listed sh)"
  shows "shell_inv sh'"
  using assms by (simp add: shell_inv_def listed_def)

lemma shell_inv_dispatch_change:
  assumes "shell_inv sh" and "n \<in> set (listed sh)"
  shows "shell_inv (shell_dispatch configs nodeName sh (App_changeActiveNode n))"
  using assms by (auto simp: shell_inv_def listed_def dispatch_sys dispatch_nodes reduce_sys_def Let_def dest!: dispatch_picker)

lemma shell_inv_dispatch_details:
  "shell_inv sh \<Longrightarrow> shell_inv (shell_dispatch configs nodeName sh (App_getNodeDetailsSuccess d))"
  by (auto simp: shell_inv_def listed_def dispatch_sys dispatch_nodes reduce_sys_def Let_def dest!: dispatch_picker)

lemma shell_inv_dispatch_add:
  assumes "shell_inv sh" and "mn_name n \<notin> mn_name ` set (listed sh)"
  shows "shell_inv (shell_dispatch configs nodeName sh (App_addNode n))"
proof -
  let ?sh = "shell_dispatch configs nodeName sh (App_addNode n)"
  have nodes: "listed ?sh = n # listed sh" by (simp add: listed_def dispatch_sys reduce_sys_def)
  moreover have "app_activeNode (sys_state (sh_sys ?sh)) = app_activeNode (sys_state (sh_sys sh))" by (simp add: dispatch_sys reduce_sys_def)
  moreover have "st_nodes (sh_status ?sh) = listed ?sh" using dispatch_nodes(1) [of "App_addNode n" configs nodeName sh] nodes by simp
  ultimately show ?thesis using assms by (auto simp: shell_inv_def dest!: dispatch_picker)
qed

lemma shell_inv_dispatch_delete:
  assumes "shell_inv sh" and "n \<in> set (listed sh)" and "mn_isCustom n"
    and "\<And>p. st_nodeOverlay (sh_status sh) = Some (Picker p) \<Longrightarrow> n \<notin> set (np_filteredNodes p)"
  shows "shell_inv (shell_dispatch configs nodeName sh (App_deleteNode n))"
proof -
  let ?sh = "shell_dispatch configs nodeName sh (App_deleteNode n)"
  have nodes: "listed ?sh = filter (\<lambda>m. mn_name m \<noteq> mn_name n) (listed sh)" by (simp add: listed_def dispatch_sys reduce_sys_def Let_def)
  have same: "mn_name m = mn_name n \<longleftrightarrow> m = n" if "m \<in> set (listed sh)" for m
    using assms(1,2) that by (auto simp: shell_inv_def distinct_map dest: inj_onD)
  obtain m where m: "m \<in> set (listed sh)" "\<not> mn_isCustom m" using assms(1) by (auto simp: shell_inv_def)
  then have kept: "m \<in> set (listed ?sh)" using same [OF m(1)] assms(3) by (auto simp: nodes)
  have "st_nodes (sh_status ?sh) = listed ?sh" using dispatch_nodes(1) [of "App_deleteNode n" configs nodeName sh] kept by force
  moreover have "set_option (app_activeNode (sys_state (sh_sys ?sh))) \<subseteq> set (listed ?sh)"
    using assms(1) by (auto simp: shell_inv_def listed_def dispatch_sys reduce_sys_def Let_def dest: first_of_SomeD)
  moreover have "set (np_filteredNodes p) \<subseteq> set (listed ?sh)" if "st_nodeOverlay (sh_status ?sh) = Some (Picker p)" for p
  proof -
    note dispatch_picker [OF that]
    then show ?thesis using assms(1) assms(4) [of p] same by (auto simp: shell_inv_def nodes)
  qed
  moreover have "distinct (map mn_name (listed ?sh))" using assms(1) by (auto simp: shell_inv_def nodes intro: distinct_map_filter)
  ultimately show ?thesis using kept m(2) by (auto simp: shell_inv_def split: option.splits node_overlay.splits)
qed

lemma shell_inv_Select:
  assumes "shell_inv sh"
  shows "shell_inv (shell_step configs nodeName sh (Select n))"
proof (cases "\<exists>p. st_nodeOverlay (sh_status sh) = Some (Picker p) \<and> n \<in> set (np_filteredNodes p)")
  case True
  then obtain p where p: "st_nodeOverlay (sh_status sh) = Some (Picker p)" "n \<in> set (np_filteredNodes p)" by blast
  let ?sh = "sh\<lparr>sh_status := picker_closed False (sh_status sh)\<rparr>"
  have "shell_inv ?sh" by (rule shell_inv_keep [OF assms(1)]) (simp_all add: status_defs)
  moreover have "n \<in> set (listed ?sh)" using assms(1) p by (auto simp: shell_inv_def listed_def)
  ultimately show ?thesis using p by (simp add: picker_selectNode_def shell_inv_dispatch_change)
qed (use assms(1) in \<open>auto split: option.splits node_overlay.splits\<close>)

lemma shell_inv_Delete:
  assumes "shell_inv sh"
  shows "shell_inv (shell_step configs nodeName sh (Delete n))"
proof (cases "\<exists>p. st_nodeOverlay (sh_status sh) = Some (Picker p) \<and> n \<in> set (np_filteredNodes p) \<and> mn_isCustom n")
  case True
  then obtain p where p: "st_nodeOverlay (sh_status sh) = Some (Picker p)" "n \<in> set (np_filteredNodes p)" "mn_isCustom n" by blast
  let ?sh = "sh\<lparr>sh_status := (sh_status sh)\<lparr>st_nodeOverlay := Some (Picker (fst (deleteCustomNode n p)))\<rparr>\<rparr>"
  have "shell_inv ?sh" using assms(1) p(1)
    by (intro shell_inv_keep [OF assms(1)]) (auto simp: deleteCustomNode_def shell_inv_def)
  moreover have "n \<in> set (listed ?sh)" using assms(1) p by (auto simp: shell_inv_def listed_def)
  ultimately have "shell_inv (shell_dispatch configs nodeName ?sh (App_deleteNode n))"
    by (rule shell_inv_dispatch_delete [OF _ _ p(3)]) (simp add: deleteCustomNode_def)
  then show ?thesis using p by (simp add: deleteCustomNode_def)
qed (use assms(1) in \<open>auto split: option.splits node_overlay.splits\<close>)

lemma shell_inv_Submit:
  assumes "shell_inv sh" and "current_picker sh (Submit x)"
  shows "shell_inv (shell_step configs nodeName sh (Submit x))"
proof (cases "st_nodeOverlay (sh_status sh) = Some New_node \<and> x \<noteq> None")
  case True
  then obtain n where n: "x = Some n" "st_nodeOverlay (sh_status sh) = Some New_node" by blast
  let ?sh = "shell_dispatch configs nodeName sh (App_addNode n)"
  have "shell_inv ?sh" using assms n by (intro shell_inv_dispatch_add) (simp_all add: current_picker_def)
  then have "shell_inv (?sh\<lparr>sh_status := detachNodeOverlay (sh_status ?sh)\<rparr>)"
    by (rule shell_inv_keep) (simp_all add: detachNodeOverlay_def)
  then show ?thesis using n by (simp add: Let_def)
qed (use assms(1) in \<open>auto split: option.splits node_overlay.splits\<close>)

lemma shell_inv_Search:
  assumes "shell_inv sh" and "current_picker sh (Search typed)"
  shows "shell_inv (shell_step configs nodeName sh (Search typed))"
proof (cases "\<exists>p. st_nodeOverlay (sh_status sh) = Some (Picker p)")
  case True
  then obtain p where p: "st_nodeOverlay (sh_status sh) = Some (Picker p)" by blast
  then have "np_nodes p = listed sh" using assms(2) by (simp add: current_picker_def)
  then show ?thesis using p search_subset [of typed p]
    by (intro shell_inv_keep [OF assms(1)]) simp_all
qed (use assms(1) in \<open>auto split: option.splits node_overlay.splits\<close>)

text \<open>The events that change the overlays only.\<close>

lemma shell_inv_overlay:
  assumes "shell_inv sh" and "ev \<in> {Chip_enter, Chip_leave, Opener_click, Click_outside, Window_scroll, Add_click}"
  shows "shell_inv (shell_step configs nodeName sh ev)"
proof (rule shell_inv_keep [OF assms(1)])
  show "sh_sys (shell_step configs nodeName sh ev) = sh_sys sh"
    "st_nodes (sh_status (shell_step configs nodeName sh ev)) = st_nodes (sh_status sh)"
    using assms(2) by (auto simp: status_defs split: option.splits node_overlay.splits)
  show "set (np_filteredNodes p) \<subseteq> set (listed sh)"
    if "st_nodeOverlay (sh_status (shell_step configs nodeName sh ev)) = Some (Picker p)" for p
    using assms that by (auto simp: status_defs shell_inv_def split: option.splits node_overlay.splits if_splits)
qed

lemma shell_inv_step:
  assumes "shell_inv sh" and "current_picker sh ev"
  shows "shell_inv (shell_step configs nodeName sh ev)"
  using assms shell_inv_overlay [OF assms(1), of ev]
  by (cases ev) (simp_all add: shell_inv_Select shell_inv_Delete shell_inv_Submit shell_inv_Search shell_inv_dispatch_details
    del: shell_step.simps(6-10))

lemma shell_inv_start:
  assumes "distinct (map mn_name (getNodes configs st))" and "list_ex (\<lambda>n. \<not> mn_isCustom n) configs"
  shows "shell_inv (shell_start configs nodeName st)"
proof -
  let ?sh = "shell_start configs nodeName st"
  have nodes: "listed ?sh = getNodes configs st"
    by (simp add: listed_def shell_start_def dispatch_sys init_effect_def reduce_sys_def app_start_def Let_def)
  have custom: "\<exists>n \<in> set (getNodes configs st). \<not> mn_isCustom n"
    using assms(2) by (auto simp: getNodes_def list_ex_iff)
  then have "getNodes configs st \<noteq> []" by auto
  then have "st_nodes (sh_status ?sh) = listed ?sh"
    using dispatch_nodes(1) [of App_init configs nodeName "\<lparr>sh_sys = app_start st, sh_status = server_status_initial\<rparr>"] nodes
    by (simp add: shell_start_def)
  moreover have "st_nodeOverlay (sh_status ?sh) = None"
    using dispatch_overlay [of configs nodeName "\<lparr>sh_sys = app_start st, sh_status = server_status_initial\<rparr>" App_init]
    by (simp add: shell_start_def server_status_initial_def)
  moreover have "set_option (app_activeNode (sys_state (sh_sys ?sh))) \<subseteq> set (listed ?sh)"
    by (auto simp: listed_def shell_start_def dispatch_sys init_effect_def reduce_sys_def app_start_def Let_def dest: getActiveNode_SomeD)
  ultimately show ?thesis using assms(1) custom nodes by (simp add: shell_inv_def)
qed

text \<open>C16. The picker of the nodes and the store. When the nodes have different names and a configured one can not be deleted, then
  whatever the user does with the overlays, the search, the list and the form, as long as a new node gets a new name and nothing
  is typed into the search after a node was deleted in the same picker: the active node is a listed node, the frame of
  the application has the nodes of the store, and the picker offers listed nodes only.\<close>

theorem picker_offers_listed:
  assumes "distinct (map mn_name (getNodes configs st))" and "list_ex (\<lambda>n. \<not> mn_isCustom n) configs"
    and "run_where current_picker (shell_step configs nodeName) (shell_start configs nodeName st) evs"
    and "sh = foldl (shell_step configs nodeName) (shell_start configs nodeName st) evs"
  shows "set_option (app_activeNode (sys_state (sh_sys sh))) \<subseteq> set (app_nodes (sys_state (sh_sys sh)))
    \<and> st_nodes (sh_status sh) = app_nodes (sys_state (sh_sys sh))
    \<and> (case st_nodeOverlay (sh_status sh) of
         Some (Picker p) \<Rightarrow> set (np_filteredNodes p) \<subseteq> set (app_nodes (sys_state (sh_sys sh))) | _ \<Rightarrow> True)"
proof -
  have "shell_inv sh" unfolding assms(4)
    by (rule run_where_inv [where I = shell_inv, OF assms(3) shell_inv_start [OF assms(1,2)]]) (rule shell_inv_step)
  then show ?thesis by (auto simp: shell_inv_def listed_def split: option.splits node_overlay.splits)
qed

definition shell_node :: "bool \<Rightarrow> string \<Rightarrow> MinaNode" where
  "shell_node custom name = \<lparr>mn_name = name, mn_url = Some name, mn_memoryProfiler = None, mn_debugger = None, mn_features = None,
     mn_isCustom = custom, mn_isWebNode = False\<rparr>"

text \<open>A node of the configuration and a stored one; the second is searched, selected and deleted.\<close>

definition shell_storage :: local_storage where
  "shell_storage = \<lparr>menu_collapsed = None, custom_nodes = Some [shell_node True ''bb'']\<rparr>"

definition shell_events :: "shell_event list" where
  "shell_events = [Opener_click, Search ''BB'', Select (shell_node True ''bb''), Opener_click, Delete (shell_node True ''bb'')]"

lemmas shell_eval = shell_events_def shell_storage_def shell_node_def shell_start_def shell_dispatch_def status_defs server_status_initial_def
  listenToNodeSearch_def node_matches_def picker_selectNode_def deleteCustomNode_def reduce_sys_def changeRustNode_def app_start_def
  init_effect_def getNodes_def getActiveNode_def stored_nodes_def appInitialState_def listed_def

lemma lower_names [simp]: "js_toLowerCase ''BB'' = ''bb''" "js_toLowerCase ''bb'' = ''bb''" "js_toLowerCase ''aa'' = ''aa''"
  by code_simp+

lemma shell_events_ok:
  "run_where current_picker (shell_step [shell_node False ''aa''] None) (shell_start [shell_node False ''aa''] None (Some shell_storage)) shell_events"
  by (simp add: shell_eval current_picker_def Let_def)

lemma shell_events_end:
  "app_nodes (sys_state (sh_sys (foldl (shell_step [shell_node False ''aa''] None) (shell_start [shell_node False ''aa''] None (Some shell_storage))
     shell_events))) = [shell_node False ''aa'']"
  by (simp add: shell_eval Let_def)

theorem picker_offers_listed_witness:
  "st_nodes (sh_status (foldl (shell_step [shell_node False ''aa''] None) (shell_start [shell_node False ''aa''] None (Some shell_storage))
     shell_events)) = [shell_node False ''aa'']"
  using picker_offers_listed [OF _ _ shell_events_ok refl] shell_events_end
  by (simp add: getNodes_def stored_nodes_def shell_storage_def shell_node_def)

text \<open>After a node was deleted, typing into the search offers it again. Selecting it makes a node active that is not in the store any more,
  and the requests go to it.\<close>

lemma deleted_node_offered:
  assumes "st_nodeOverlay (sh_status sh) = Some (Picker p)" and "n \<in> set (np_filteredNodes p)" and "n \<in> set (np_nodes p)"
    and "mn_isCustom n" and "np_activeNode p \<noteq> Some n" and "\<not> st_tooltip (sh_status sh)"
    and "sh' = foldl (shell_step configs nodeName) sh [Delete n, Search [], Select n]"
  shows "app_activeNode (sys_state (sh_sys sh')) = Some n \<and> n \<notin> set (app_nodes (sys_state (sh_sys sh'))) \<and> sys_rust (sh_sys sh') = Some n"
  using assms(1-6) unfolding assms(7)
  by (simp add: deleteCustomNode_def listenToNodeSearch_def picker_selectNode_def shell_dispatch_def status_defs reduce_sys_def changeRustNode_def Let_def
    split: option.splits)

text \<open>The form takes a name that is in use. Deleting the custom node of that name takes the configured node of the same name out of the
  store too, while the picker goes on offering it.\<close>

lemma same_name_deleted:
  assumes "st_nodeOverlay (sh_status sh) = Some (Picker p)" and "{c, n} \<subseteq> set (np_filteredNodes p)" and "n \<noteq> c" and "mn_name n = mn_name c"
    and "mn_isCustom c" and "\<not> st_tooltip (sh_status sh)" and "sh' = shell_step configs nodeName sh (Delete c)"
  shows "n \<notin> set (app_nodes (sys_state (sh_sys sh'))) \<and>
    (\<exists>p'. st_nodeOverlay (sh_status sh') = Some (Picker p') \<and> n \<in> set (np_filteredNodes p'))"
  using assms(1-6) unfolding assms(7)
  by (simp add: deleteCustomNode_def shell_dispatch_def status_defs reduce_sys_def changeRustNode_def Let_def split: option.splits)

text \<open>A pointer that enters the chips twice without leaving loses an attached tooltip; one that leaves in between does not.\<close>

lemma tooltip_lost:
  "map_option ad_status (st_details s) \<noteq> Some AppPENDING \<Longrightarrow>
   st_lostTooltips (openTooltipDropdown (openTooltipDropdown s)) = Suc (st_lostTooltips (openTooltipDropdown s))
   \<and> st_lostTooltips (openTooltipDropdown (detachTooltipOverlay (openTooltipDropdown s))) = st_lostTooltips (openTooltipDropdown s)"
  by (auto simp: openTooltipDropdown_def detachTooltipOverlay_def)

end
