(* ===== verification/Spec2Isabelle.thy ===== *)
theory Spec2Isabelle
  imports Heartbeat_Function Network_Messages Network_Splits Node_Dht Won_Slots Work_Pool Scan_State Memory_Resources
    Ledger_Apdu Loading_State Benchmarks_Wallets Nodes_Pages Dashboard Network_Pages Production_Overview State_Actions
    Leaderboard Dht_Graph Network_Filters Fuzzing Web_Node Scan_Chart Splits_Graph Memory_Treemap Routed_Tables Benchmarks_Toolbar
    Slot_Panel Slot_Cards Dht_Line Sync_Reports App_Shell
begin

text \<open>
  \<^bold>\<open>The Openmina frontend\<close>

  Openmina is a Mina node written in Rust with a TypeScript frontend. This development covers the
  frontend (\<open>frontend/\<close>): a single page application that polls a node, keeps what it learns in a store
  and shows it page by page, and the cloud function that collects the heartbeats of web nodes. The
  node itself (the Rust crates) is outside; where the frontend reads an answer of the node, the
  answer is an argument of the model.

  \<^bold>\<open>How the program is put together.\<close> Each page is a feature with the same parts: \<open>*.actions.ts\<close> (the
  messages), \<open>*.state.ts\<close> and \<open>*.reducer.ts\<close> (a state and a pure step on it), \<open>*.service.ts\<close> (requests
  and the mapping of their answers) and \<open>*.effects.ts\<close> (RxJS pipelines from actions to requests and
  back to actions). Components dispatch actions and draw the state. Features meet in the store: every
  reducer sees every action, so that the toolbar, for instance, follows the actions of all pages.

  \<^bold>\<open>Theories and sources.\<close>
  \<^item> \<open>Frontend_Prelude\<close>: JavaScript values and methods (optional values, \<open>findIndex\<close>, \<open>slice\<close>, strings,
    numerals, \<open>Number\<close>, \<open>parseInt\<close>, exceptions as the left part of a sum) with their lemmas.
  \<^item> \<open>Effect_Pipeline\<close>: the shape of the effects (\<open>filter\<close>, \<open>tap\<close>, \<open>switchMap\<close>, \<open>map\<close>, \<open>catchErrorAndRepeat\<close> of
    \<open>shared/constants/store-functions.ts\<close>) as a step relation \<open>rx_step\<close> on the private fields of the effect
    and the request in flight. The locale \<open>request_flag\<close> is the contract of an effect that refuses a
    request while one is pending; \<open>cancel_on_close\<close> that of an effect that drops its request when the
    page is closed. Pages interpret them on their effects.
  \<^item> \<open>Store_Reducer\<close>: sequences of actions, and the locales \<open>reducer_invariant\<close> and
    \<open>total_reducer_invariant\<close> that pages interpret on their reducers.
  \<^item> \<open>Heartbeat_Function\<close>: \<open>functions/src/index.ts\<close>, \<open>submitterValidator.ts\<close>. The document store is a record;
    cryptography, the clock and the outcome of a commit are arguments. Shown: the sliding window limit
    for every sequence of calls with a non-decreasing clock, exactly which calls are accepted, and that
    the stored heartbeats are those of the accepted calls.
  \<^item> \<open>Network_Messages\<close>: \<open>features/network/messages\<close>. Shown: the pages stay ordered, the active page is one of them
    once messages were answered, filters can be added and removed again, a specific message is found exactly once in the merged table, and
    polling recovers from errors.
  \<^item> \<open>Network_Filters\<close>: the components of that page (filters, table footer, side panel) and the effects of the message
    detail. Shown: the address written by the filter panel adds the same filters when it is opened, the footer works in
    every reachable state, and a hexadecimal text that arrives late is shown for the wrong message.
  \<^item> \<open>Network_Splits\<close>: \<open>features/network/splits\<close>. The breadth-first search over peers is a total function;
    its parts are the connected components of the link graph, and the page keeps that invariant.
  \<^item> \<open>Splits_Graph\<close>: the graph of that page (\<open>dashboard-splits-graph\<close>): the Laplacian matrix, the lines, the shapes and the forces of
    the component itself. Shown: the matrix is symmetric, and its kernel are the vectors that are constant on every set
    of \<open>splitThePeers\<close>.
  \<^item> \<open>Node_Dht\<close>: \<open>features/network/node-dht\<close>. Shown: the distance in bits is the position of the first one
    in the 256-bit distance, the table has every peer of the buckets once with the node itself first,
    updates keep unchanged rows, polling recovers.
  \<^item> \<open>Dht_Line\<close>: the line of that page (\<open>network-node-dht-line\<close>). Shown: numerals of one length are compared as numbers, every
    peer and bucket is on the line, and which changes of the peers are missed or throw.
  \<^item> \<open>Dht_Graph\<close>: \<open>features/network/dht-graph\<close>: the sorting of the peers and \<open>EqualDistanceAlgorithm\<close> (insertion, cleaning up,
    stretching of the branches, removal of empty nodes). Shown: for every answer of the node with three entries or more
    the tree has each peer once, in the order of the XOR distances, on the path of its digits.
  \<^item> \<open>Date_Helper\<close> and \<open>Won_Slots\<close>: \<open>shared/helpers/date.helper.ts\<close> and \<open>features/block-production/won-slots\<close>.
    Shown: the slots on the page are those the filters select in the chosen order after any actions,
    how the active slot is chosen, what a slot displays, and that the text of a time difference denotes it.
  \<^item> \<open>Slot_Panel\<close>: the side panel of that page. Shown: when the countdown stops, that it then stays stopped for the other slots, and
    where a discarded block is shown. \<open>Slot_Cards\<close>: the cards above the slots. Shown: the counts, the rewards and the progress of the epoch.
  \<^item> \<open>Work_Pool\<close> and \<open>Scan_State\<close>: \<open>features/snarks\<close>. Shown: the local filter, the effect of closing with a
    request pending, late details; that a block is asked for once and can always be asked for again,
    and how trees, jobs and workers of the scan state are assembled.
  \<^item> \<open>Scan_Chart\<close>: the tree chart, the toolbar, the list and the side panel of the scan state. \<open>buildTree\<close> works on a heap of objects.
    Shown: its stack builds the tree in which the children of the job \<open>i\<close> are \<open>2i + 1\<close> and \<open>2i + 2\<close>, and when drawing throws.
  \<^item> \<open>Memory_Resources\<close>: \<open>features/resources/memory\<close>. Shown: identifiers of the tree, order of children, and
    the breadcrumb invariant.
  \<^item> \<open>Memory_Treemap\<close>: the treemap, the table, the breadcrumbs and the toolbar of that page, composed with its store: an event
    dispatches, the reducer steps, the listeners run. Shown: after any events all of them show the same resource, the
    breadcrumbs are its path, and Escape and the arrow agree.
  \<^item> \<open>Mempool\<close>: \<open>features/mempool\<close> and \<open>shared/helpers/transaction.helper.ts\<close>. Shown: the view is the filtered
    pool after any actions, and memos of the stress tool survive the round trip.
  \<^item> \<open>Benchmarks_Wallets\<close>: \<open>features/benchmarks/wallets\<close>. Shown: what a batch consists of, how nonces and
    counters go on between batches, and the failure paths.
  \<^item> \<open>Benchmarks_Toolbar\<close>: the two toolbars of that page. The locale \<open>batch_toolbar\<close> is the loop between the form and the store, interpreted
    on the payments and on the zkApps. Shown: form and store agree on a batch between one and the number of wallets,
    through typing, switching and choosing of senders, and what a batch then makes.
  \<^item> \<open>Ledger_Apdu\<close>: \<open>shared/helpers/ledger.helper.ts\<close>. Shown: the hexadecimal message is the big-endian wire
    format, it determines the transaction, signatures are cut into their two numbers, and every error code.
  \<^item> \<open>Loading_State\<close>: \<open>layout/toolbar/loading.reducer.ts\<close> and \<open>layout/error-preview\<close>. Shown: what the toolbar
    waits for after any actions, and what the error panel holds.
  \<^item> \<open>App_Config\<close>: \<open>shared/constants/config.ts\<close>, \<open>shared/guards\<close>, \<open>layout/menu\<close> and the form for a new node. Shown: a node
    added by the form has exactly the checked sections and pages, and the guard of the network section does not loop on it.
  \<^item> \<open>App_State\<close>: \<open>app.reducer.ts\<close>, \<open>app.effects.ts\<close>, \<open>app.service.ts\<close> and \<open>core/services/rust.service.ts\<close>: the nodes, the active
    node, the local storage, and where requests go. Shown: the offered nodes refine a persistent collection across
    reloads, and when the active node and the target of the requests agree.
  \<^item> \<open>App_Shell\<close>: \<open>app.component.ts\<close>, \<open>layout/server-status\<close> and \<open>layout/node-picker\<close>, composed with \<open>App_State\<close>: an event of the user
    dispatches, the store steps, the listeners run. Shown: when the picker offers only nodes of the store, how it offers a deleted node
    otherwise, and how often the application is started.
  \<^item> \<open>Nodes_Tips\<close> and \<open>Nodes_Pages\<close>: \<open>features/nodes\<close>. Shown: the order of the ledger states, the rows of failed nodes, that the
    overview does not depend on the order of the answers, the events of the live page and the statistics of the bootstrap
    page.
  \<^item> \<open>Dashboard\<close>: \<open>features/dashboard\<close> with its ledger and block panels. Shown: the peers and their counters, the bounds of the
    progress values and when they reach the end, and when the countdown stops for any ticks and answers of the node.
  \<^item> \<open>Network_Pages\<close>: \<open>features/network/blocks\<close>, \<open>connections\<close> and \<open>bootstrap-stats\<close>. The locale \<open>polled_page\<close> is the contract of a page
    that asks on a timer. Shown: the latencies of a block, when the blocks reducer throws, and that one failed request
    stops the polling of three pages.
  \<^item> \<open>Production_Overview\<close>: \<open>features/block-production/overview\<close>. Shown: the slots and their texts, colours and grid, the requests
    that follow the choice of an epoch, and the state that the answers build up.
  \<^item> \<open>State_Actions\<close>: \<open>features/state/actions\<close>. Shown: the groups partition the actions of a response, the loop that counts
    squares ends with the number of digits, and what a search shows.
  \<^item> \<open>Leaderboard\<close>: \<open>features/leaderboard\<close>, which reads the scores the heartbeat function writes. Shown: who has a prize, who is in
    the table and in the files, and that the columns of the files are read under their own keys.
  \<^item> \<open>Fuzzing\<close>: \<open>features/fuzzing\<close>. Shown: a line of the report is shown character by character with the hits of
    the first counter that covers it, how a counter that touches the one before is lost, the files shown are those the search selects, and an answer after closing the code panel opens it again.
  \<^item> \<open>Web_Node\<close>: \<open>core/services/web-node.service.ts\<close> and \<open>features/web-node\<close> (initialisation and upload of keys). The timers and
    the events of the start are the steps of a relation. Shown: the page is ready only after a peer is connected, it
    becomes ready then, and the states of the three steps.
  \<^item> \<open>Sync_Reports\<close>: \<open>core/services/sentry.service.ts\<close>. Shown: each report is made at most once, the durations, the cases in which a report
    is lost or not a number, and that \<open>flattenObject\<close> has exactly the leaves of an object under their dotted paths.
  \<^item> \<open>Routed_Tables\<close>: the tables of the mempool, the work pool, the won slots, the nodes, the blocks, the node DHT and the messages, which select
    a row from the address. The locales \<open>routed_table\<close> and \<open>row_clicks\<close> are their contract, interpreted on the tables whose listener of the
    active row only stores it. Shown: a link selects exactly the row it names, among the first rows that arrive; what the listeners of the
    mempool and of the won slots do to a link.
  \<^item> This theory: what closing a page does across the store (which requests it drops and which it leaves in flight, with the toolbar left
    waiting, or with an answer that arrives later; the locales \<open>cancel_on_close\<close> and \<open>drops_close\<close> of \<open>Effect_Pipeline\<close>), and which pages
    a web node can serve.

  \<^bold>\<open>Conventions.\<close> A definition has the name of the function, type or field it models, with a suffix or
  prefix where the name is taken; the parts of a long function (a callback, a loop, a case of a
  reducer) are definitions of their own. Every \<open>throw\<close>, rejected promise and access to a missing object
  is a value \<open>Inl\<close>. Functions of packages outside the repository (sorting of tables, date formatting,
  Base58Check, signing, the transport of the hardware wallet, random draws, clocks) are arguments; what
  is assumed of one is a named hypothesis such as \<open>sorter_permutes\<close>, and each theorem with hypotheses
  is followed by a witness that applies it to concrete functions and inputs.

  \<^bold>\<open>Bounds and termination.\<close> Numbers are exact: integers, naturals or rationals; the rounding of 64-bit
  floating point is not modelled. Where a width matters it is explicit (the fields of the APDU, 256-bit
  distances). All loops are total functions with termination proofs or structural recursion; the one
  recursion of the program that may not end, \<open>getRandomReceiver\<close>, runs over the draws that the call
  stack allows, and both its success and its overflow are theorems. Strings are ASCII or Latin-1.

  \<^bold>\<open>Not modelled.\<close> The Rust node and the WebAssembly calls into it (the answers are arguments); Angular templates, modules
  and routing; what a package computes or draws: the layouts of D3 and its simulation of forces (their results are arguments
  of the charts), eigenvalues of \<open>mathjs\<close>, the picker of time intervals, tooltips, overlays and the virtual scrolling of
  tables; components that only dispatch one action or open a menu;
  the RxJS scheduler below the step relation (timers are actions of the model); the clients of Sentry and Firestore and
  the HTTP client; \<open>MinimumDistanceAlgorithm\<close>, which nothing calls; tests and mocks; the logarithmic scale of the epoch
  graphs.

  \<^bold>\<open>What is left.\<close> The remaining code of the frontend is of that kind. What could still be stated over the definitions
  here is the interaction of all polling effects with a change of the active node: a single run of all pipelines and of all
  reducers of the store, which the pages are modelled apart from.
\<close>

section \<open>Closing a page\<close>

text \<open>What closing a page means across the store: the pipeline \<open>E\<close> of the page drops its request, and
  the loading list loses the actions \<open>ts\<close> that the page waits for.\<close>

definition quiet_close :: "('f, 'a, 'q, 'r, 'o) effect \<Rightarrow> 'a \<Rightarrow> string \<Rightarrow> string list \<Rightarrow> bool" where
  "quiet_close E a c ts \<longleftrightarrow>
     (\<forall>s out s'. rx_step E s (Rx_action a) out s' \<longrightarrow>
        out = [] \<and> snd s' = None \<and> (\<nexists>v out2 s''. rx_step E s' (Rx_value v) out2 s''))
     \<and> (\<forall>l. set ts \<inter> set (loadingReducer l c) = {})"

lemma quiet_closeI:
  assumes "cancel_on_close E close" "close a" "(c, ts) \<in> set pageStarts"
  shows "quiet_close E a c ts"
proof -
  have "c \<notin> set loadingStarts \<and> ends c = ts"
    using closes_no_start assms(3) by (auto simp: list_all_iff)
  then have "set ts \<inter> set (loadingReducer l c) = {}" for l
    by (auto simp: loadingReducer_set)
  moreover have "out = [] \<and> snd s' = None \<and> (\<nexists>v out2 s''. rx_step E s' (Rx_value v) out2 s'')"
    if "rx_step E s (Rx_action a) out s'" for s out s'
    using cancel_on_close.close_discards [OF assms(1,2) that] by blast
  ultimately show ?thesis unfolding quiet_close_def by blast
qed

text \<open>What else may be in flight: a request that the close action leaves alone, and whose answer is then dispatched.\<close>

definition keeps_request :: "('f, 'a, 'q, 'r, 'o) effect \<Rightarrow> 'a \<Rightarrow> bool" where
  "keeps_request E a \<longleftrightarrow> (\<forall>f q out s'. rx_step E (f, Some q) (Rx_action a) out s' \<longleftrightarrow> out = [] \<and> s' = (f, Some q)) \<and>
     (\<forall>f q v. \<exists>f' o1 os. rx_step E (f, Some q) (Rx_value v) (o1 # os) (f', None))"

text \<open>C39. What closing a page does to its requests and to the toolbar, for every state of both. The close action of the node DHT, the work
  pool, the scan state, the memory, the won slots, the wallets, the state actions and the bootstrap statistics page
  dispatches nothing and takes everything the page was waiting for off the toolbar. Nine pipelines of these pages drop
  their request in flight, so that no answer to it is ever seen: those of the peers, the pool, the blocks, the memory, the
  slots, the wallets, the earliest slot, the actions and the statistics. The other four do not: the request for the detail
  of a job in the work pool and the requests of the wallets page for all transactions and for sending payments and zkApps
  stay in flight, and their answers are dispatched after the page was closed.\<close>

theorem pages_close_quietly:
  assumes "\<not> hasValue None"
  shows "quiet_close (Node_Dht.getPeers_effect now) NETWORK_NODE_DHT_CLOSE
     ''NETWORK_NODE_DHT_CLOSE'' [''NETWORK_NODE_DHT_INIT'']
   \<and> quiet_close (getWorkPool_effect now) SNARKS_WORK_POOL_CLOSE
     ''SNARKS_WORK_POOL_CLOSE'' [''SNARKS_WORK_POOL_INIT'', ''SNARKS_WORK_POOL_GET_WORK_POOL_DETAIL'']
   \<and> quiet_close (getScanState_effect now) SCAN_STATE_CLOSE
     ''SCAN_STATE_CLOSE'' [''SCAN_STATE_INIT'']
   \<and> quiet_close (getResources_effect shw now) (MEMORY_RESOURCES_CLOSE, ms)
     ''MEMORY_RESOURCES_CLOSE'' [''MEMORY_RESOURCES_GET'']
   \<and> quiet_close (getSlots_effect h isMobile clock now) (WonSlotsClose, ws)
     ''[Block Production Won Slots] Close'' [''[Block Production Won Slots] Init'']
   \<and> quiet_close (getWallets_effect now) BENCHMARKS_WALLETS_CLOSE
     ''BENCHMARKS_WALLETS_CLOSE'' [''BENCHMARKS_WALLETS_GET_WALLETS'', ''BENCHMARKS_WALLETS_GET_ALL_TXS'']
   \<and> quiet_close (getEarliestSlot_effect now) (STATE_ACTIONS_CLOSE, as)
     ''STATE_ACTIONS_CLOSE'' [''STATE_ACTIONS_GET_EARLIEST_SLOT'', ''STATE_ACTIONS_GET_ACTIONS'']
   \<and> quiet_close (getActions_effect now) (STATE_ACTIONS_CLOSE, as)
     ''STATE_ACTIONS_CLOSE'' [''STATE_ACTIONS_GET_EARLIEST_SLOT'', ''STATE_ACTIONS_GET_ACTIONS'']
   \<and> quiet_close (getBootstrapStats_effect now) NETWORK_BOOTSTRAP_STATS_CLOSE
     ''NETWORK_BOOTSTRAP_STATS_CLOSE'' [''NETWORK_BOOTSTRAP_STATS_INIT'']
   \<and> keeps_request (getDetail_effect hasValue now) (SNARKS_WORK_POOL_CLOSE, wps)
   \<and> keeps_request (getAllTxs_effect now) BENCHMARKS_WALLETS_CLOSE
   \<and> keeps_request sendTxs_effect (BENCHMARKS_WALLETS_CLOSE, bws)
   \<and> keeps_request sendZkApps_effect (BENCHMARKS_WALLETS_CLOSE, bws)"
proof (intro conjI)
  note in_pages = pageStarts_def
  show "quiet_close (Node_Dht.getPeers_effect now) NETWORK_NODE_DHT_CLOSE
     ''NETWORK_NODE_DHT_CLOSE'' [''NETWORK_NODE_DHT_INIT'']"
    by (rule quiet_closeI [OF dht_close.cancel_on_close_axioms refl]) (simp add: in_pages)
  show "quiet_close (getWorkPool_effect now) SNARKS_WORK_POOL_CLOSE
     ''SNARKS_WORK_POOL_CLOSE'' [''SNARKS_WORK_POOL_INIT'', ''SNARKS_WORK_POOL_GET_WORK_POOL_DETAIL'']"
    by (rule quiet_closeI [OF workPool_close.cancel_on_close_axioms refl]) (simp add: in_pages)
  show "quiet_close (getScanState_effect now) SCAN_STATE_CLOSE ''SCAN_STATE_CLOSE'' [''SCAN_STATE_INIT'']"
    by (rule quiet_closeI [OF scanState_close.cancel_on_close_axioms refl]) (simp add: in_pages)
  show "quiet_close (getResources_effect shw now) (MEMORY_RESOURCES_CLOSE, ms)
     ''MEMORY_RESOURCES_CLOSE'' [''MEMORY_RESOURCES_GET'']"
    by (rule quiet_closeI [OF memory_close.cancel_on_close_axioms]) (simp_all add: in_pages)
  show "quiet_close (getSlots_effect h isMobile clock now) (WonSlotsClose, ws)
     ''[Block Production Won Slots] Close'' [''[Block Production Won Slots] Init'']"
    by (rule quiet_closeI [OF wonSlots_close.cancel_on_close_axioms]) (simp_all add: in_pages)
  show "quiet_close (getWallets_effect now) BENCHMARKS_WALLETS_CLOSE
     ''BENCHMARKS_WALLETS_CLOSE'' [''BENCHMARKS_WALLETS_GET_WALLETS'', ''BENCHMARKS_WALLETS_GET_ALL_TXS'']"
    by (rule quiet_closeI [OF benchmarks_close.cancel_on_close_axioms refl]) (simp add: in_pages)
  show "quiet_close (getEarliestSlot_effect now) (STATE_ACTIONS_CLOSE, as)
     ''STATE_ACTIONS_CLOSE'' [''STATE_ACTIONS_GET_EARLIEST_SLOT'', ''STATE_ACTIONS_GET_ACTIONS'']"
    by (rule quiet_closeI [OF earliestSlot_close.cancel_on_close_axioms]) (simp_all add: in_pages)
  show "quiet_close (getActions_effect now) (STATE_ACTIONS_CLOSE, as)
     ''STATE_ACTIONS_CLOSE'' [''STATE_ACTIONS_GET_EARLIEST_SLOT'', ''STATE_ACTIONS_GET_ACTIONS'']"
    by (rule quiet_closeI [OF actions_close.cancel_on_close_axioms]) (simp_all add: in_pages)
  show "quiet_close (getBootstrapStats_effect now) NETWORK_BOOTSTRAP_STATS_CLOSE
     ''NETWORK_BOOTSTRAP_STATS_CLOSE'' [''NETWORK_BOOTSTRAP_STATS_INIT'']"
    by (rule quiet_closeI [OF bootstrapStats_close.cancel_on_close_axioms refl]) (simp add: in_pages)
  show "keeps_request (getDetail_effect hasValue now) (SNARKS_WORK_POOL_CLOSE, wps)"
    using assms by (simp add: keeps_request_def getDetail_effect_def)
qed (simp_all add: keeps_request_def getAllTxs_effect_def sendTxs_effect_def sendZkApps_effect_def)

theorem pages_close_quietly_witness:
  "quiet_close (getWorkPool_effect ''now'') SNARKS_WORK_POOL_CLOSE
     ''SNARKS_WORK_POOL_CLOSE'' [''SNARKS_WORK_POOL_INIT'', ''SNARKS_WORK_POOL_GET_WORK_POOL_DETAIL'']
   \<and> keeps_request (getDetail_effect (\<lambda>x. x \<noteq> None) ''now'') (SNARKS_WORK_POOL_CLOSE, workPoolInitialState True)"
  using pages_close_quietly [where hasValue = "\<lambda>x. x \<noteq> None" and now = "''now''" and wps = "workPoolInitialState True"] by blast

text \<open>Leaving the block production overview while it waits for slots: the close action drops the request, so that
  neither an answer nor an error of it is ever seen, and the toolbar goes on waiting for the slots through any later
  actions until some visit of the page receives slots.\<close>

lemma production_overview_close:
  assumes "''[Block Production Overview] Get Slots'' \<in> set l"
    and "''[Block Production Overview] Get Slots Success'' \<notin> set as"
    and "rx_step (getActiveEpochSlots_effect now) s (Rx_action (Overview_close, st)) out s'"
  shows "out = [] \<and> (\<nexists>v out2 s''. rx_step (getActiveEpochSlots_effect now) s' (Rx_value v) out2 s'') \<and>
    (\<nexists>e out2 s''. rx_step (getActiveEpochSlots_effect now) s' (Rx_error e) out2 s'') \<and>
    ''[Block Production Overview] Get Slots'' \<in> set (foldl loadingReducer l (''[Block Production Overview] Close'' # as))"
  using epochSlots_close.close_discards [OF _ assms(3)] assms(1,2)
    loading_close [of l "''[Block Production Overview] Close'' # as"]
  by simp

lemma production_overview_close_witness:
  "''[Block Production Overview] Get Slots'' \<in> set (foldl loadingReducer [''[Block Production Overview] Get Slots'']
     [''[Block Production Overview] Close'', ''SCAN_STATE_INIT'', ''SCAN_STATE_CLOSE''])"
  using production_overview_close [of "[''[Block Production Overview] Get Slots'']" "[''SCAN_STATE_INIT'', ''SCAN_STATE_CLOSE'']"
      "[]" "((), None)" productionOverviewInitialState "[]" "((), None)"]
  by (simp add: getActiveEpochSlots_effect_def)

section \<open>Answers after closing\<close>

text \<open>C40. The live and the bootstrap page of the nodes do not close quietly: the filter of their pipeline drops the close action while a
  request is in flight. The answer is dispatched after the page was closed, and the store takes it into the state that
  closing had reset.\<close>

theorem pages_late_answer:
  "rx_run (liveGetNodes_effect now) (True, Some ()) [Rx_action NODES_LIVE_CLOSE, Rx_value live]
     [Dispatch (NODES_LIVE_GET_NODES_SUCCESS (Some live))] (False, None) \<and>
   map_sum id nls_nodes (reduce_all (liveReducer env) ls
     [NODES_LIVE_CLOSE, NODES_LIVE_GET_NODES_SUCCESS (Some live)]) = Inr live \<and>
   rx_run (bootstrapGetNodes_effect now) (True, Some ()) [Rx_action NODES_BOOTSTRAP_CLOSE, Rx_value boot]
     [Dispatch (NODES_BOOTSTRAP_GET_NODES_SUCCESS (Some boot))] (False, None) \<and>
   map_sum id nbs_nodes (reduce_all (bootstrapReducer bsrt onObject desktop) bs
     [NODES_BOOTSTRAP_CLOSE, NODES_BOOTSTRAP_GET_NODES_SUCCESS (Some boot)]) =
       Inr (sortBootstrapNodes bsrt boot \<lparr>sortBy = ''index'', sortDirection = ASC\<rparr>)"
proof (intro conjI)
  show "rx_run (liveGetNodes_effect now) (True, Some ()) [Rx_action NODES_LIVE_CLOSE, Rx_value live]
     [Dispatch (NODES_LIVE_GET_NODES_SUCCESS (Some live))] (False, None)"
    using live_close.late_answer [of NODES_LIVE_CLOSE True now "()" live] by (simp add: liveGetNodes_effect_def)
  show "rx_run (bootstrapGetNodes_effect now) (True, Some ()) [Rx_action NODES_BOOTSTRAP_CLOSE, Rx_value boot]
     [Dispatch (NODES_BOOTSTRAP_GET_NODES_SUCCESS (Some boot))] (False, None)"
    using bootstrap_close.late_answer [of NODES_BOOTSTRAP_CLOSE True now "()" boot]
    by (simp add: bootstrapGetNodes_effect_def)
qed (simp_all add: Let_def bootstrapInitialState_def)

section \<open>Pages on a web node\<close>

lemma js_includes_chars: "js_includes s t \<Longrightarrow> set t \<subseteq> set s"
  by (auto simp: js_includes_iff)

lemma show_int_chars: "c \<in> set (show_int i) \<Longrightarrow> js_isDigit c \<or> c = CHR 0x2D"
  using dec_digits by (fastforce simp: show_int_def list_all_iff split: if_splits)

lemma show_int_no_letter: "\<not> js_isDigit c \<Longrightarrow> c \<noteq> CHR 0x2D \<Longrightarrow> c \<notin> set (show_int i)"
  using show_int_chars by blast

lemma letters_no_digits: "\<not> js_isDigit (CHR ''i'')" "\<not> js_isDigit (CHR ''n'')"
  by code_simp+

lemma unsupported_epoch:
  assumes "CHR ''i'' \<notin> set r \<or> CHR ''n'' \<notin> set r"
  shows "\<exists>e. getFromWebNode (''/epoch/'' @ r) = Inl e"
proof -
  have "\<not> js_includes (''/epoch/'' @ r) ''/stats/actions''"
    using js_includes_chars [of "''/epoch/'' @ r" "''/stats/actions''"] assms by auto
  then show ?thesis by (simp add: getFromWebNode_def web_node_paths_def)
qed

text \<open>Pages on the node in the browser: every request of the state actions page is one that it answers, and every
  request of the block production overview for an epoch, whose paths it does not know, throws, which the
  effects of the page turn into an error and a fallback.\<close>

lemma web_node_pages:
  assumes "mn_isWebNode n"
  shows "rust_get (Some n) getEarliestSlot_path = Inr (Web_node_call ''actions'') \<and>
    rust_get (Some n) (getActions_path slot) = Inr (Web_node_call ''actions'') \<and>
    (\<exists>e. rust_get (Some n) (getEpochDetails_url epoch) = Inl e) \<and>
    (\<exists>e. rust_get (Some n) (getEpochs_url hasValue (Some k) 5) = Inl e) \<and>
    (\<exists>e. rust_get (Some n) (fst (getSlots_urls epoch)) = Inl e) \<and>
    (\<exists>e. rust_get (Some n) (snd (getSlots_urls epoch)) = Inl e)"
proof -
  have web: "rust_get (Some n) path = getFromWebNode path" for path using assms by (simp add: rust_get_def)
  have actions: "js_includes (''/stats/actions?id='' @ r) ''/stats/actions''" for r
    by (simp add: js_startsWith_iff)
  have epoch: "CHR ''i'' \<notin> set (epoch_path epoch)"
    by (simp add: epoch_path_def show_int_no_letter letters_no_digits split: option.splits)
  have details: "\<exists>e. getFromWebNode (getEpochDetails_url epoch) = Inl e"
    using unsupported_epoch [of "''summary/'' @ epoch_path epoch"] epoch by (simp add: getEpochDetails_url_def)
  have "CHR ''n'' \<notin> set (dec 7)" using dec_digits [of 7] letters_no_digits by (auto simp: list_all_iff)
  then have "\<exists>e. getFromWebNode (''/epoch/'' @ ''summary/'' @ show_int j @ ''?limit='' @ dec 7) = Inl e" for j
    by (intro unsupported_epoch disjI2) (simp add: show_int_no_letter letters_no_digits)
  then have epochs: "\<exists>e. getFromWebNode (getEpochs_url hasValue (Some k) 5) = Inl e"
    by (simp add: getEpochs_url_def)
  have slots: "\<exists>e. getFromWebNode (''/epoch/'' @ epoch_path epoch) = Inl e"
    using unsupported_epoch [of "epoch_path epoch"] epoch by blast
  have current: "\<exists>e. getFromWebNode ''/node/current_slot'' = Inl e"
    by (simp add: getFromWebNode_def web_node_paths_def)
  show ?thesis
    unfolding web using details epochs slots current actions [of "''latest''"] actions
    by (simp add: getSlots_urls_def getFromWebNode_def getEarliestSlot_path_def getActions_path_def
        del: js_includes.simps)
qed

lemma web_node_pages_witness:
  "\<exists>n. mn_isWebNode n \<and> rust_get (Some n) (getActions_path (Some 3)) = Inr (Web_node_call ''actions'') \<and>
     (\<exists>e. rust_get (Some n) (getEpochDetails_url None) = Inl e)"
  using web_node_pages [of "(sample_node ''w'')\<lparr>mn_isWebNode := True\<rparr>" "Some 3" None] by (intro exI [of _ "(sample_node ''w'')\<lparr>mn_isWebNode := True\<rparr>"]) simp

end
